(* ===== verification/Prelude.thy ===== *)
theory Prelude
  imports Main "HOL-Library.Char_ord" "HOL-Library.List_Lexorder" "HOL-Library.Multiset"
begin

text \<open>
  Shared vocabulary of the development: the JavaScript values, strings and list
  operations that the modelled TypeScript uses, and the generic lemmas about them.

  A JavaScript string is a \<open>string\<close> whose characters are its code units; a character
  is a code unit below 256.  A number is an \<open>int\<close> (the source only computes with safe
  integers where a definition says \<open>int\<close>).  A reading of \<open>Date.now()\<close> and a fresh
  random identifier are arguments of the operation that takes them.
\<close>

named_theorems keeps
  "operations that keep a component's invariant"

type_synonym time = int

text \<open>The environment of a process: the values of the variables that are set.\<close>

type_synonym environ = "string \<Rightarrow> string option"

subsection \<open>JSON-like values\<close>

datatype jsval =
    JUndef
  | JNull
  | JBool bool
  | JNum int
  | JStr string
  | JArr "jsval list"
  | JObj "(string \<times> jsval) list"

type_synonym jsobj = "(string \<times> jsval) list"

text \<open>The conversion of a value to a Boolean.\<close>

definition js_truthy :: "jsval \<Rightarrow> bool" where
  "js_truthy v = (case v of JUndef \<Rightarrow> False | JNull \<Rightarrow> False | JBool b \<Rightarrow> b | JNum n \<Rightarrow> n \<noteq> 0
     | JStr s \<Rightarrow> s \<noteq> [] | _ \<Rightarrow> True)"

text \<open>\<open>obj[key]\<close>: an absent property reads as \<open>undefined\<close>.\<close>

definition js_get :: "jsobj \<Rightarrow> string \<Rightarrow> jsval" where
  "js_get ob k = (case map_of ob k of None \<Rightarrow> JUndef | Some v \<Rightarrow> v)"

text \<open>\<open>{...obj, key: v}\<close>: an existing key keeps its place, a new one is appended.\<close>

fun js_put :: "jsobj \<Rightarrow> string \<Rightarrow> jsval \<Rightarrow> jsobj" where
  "js_put [] k v = [(k, v)]"
| "js_put ((k', v') # ob) k v =
     (if k' = k then (k, v) # ob else (k', v') # js_put ob k v)"

lemma js_get_put: "js_get (js_put ob k v) k' = (if k' = k then v else js_get ob k')"
  by (induction ob k v rule: js_put.induct) (auto simp: js_get_def)

subsection \<open>Characters\<close>

definition code :: "char \<Rightarrow> nat" where
  "code c = of_char c"

text \<open>The characters that \<open>\\s\<close> and \<open>trim\<close> take as white space.\<close>

definition js_ws :: "char \<Rightarrow> bool" where
  "js_ws c \<longleftrightarrow> (9 \<le> code c \<and> code c \<le> 13) \<or> code c = 32 \<or> code c = 160"

definition is_digit :: "char \<Rightarrow> bool" where
  "is_digit c \<longleftrightarrow> 48 \<le> code c \<and> code c \<le> 57"

definition is_upper :: "char \<Rightarrow> bool" where
  "is_upper c \<longleftrightarrow> 65 \<le> code c \<and> code c \<le> 90"

definition is_lower :: "char \<Rightarrow> bool" where
  "is_lower c \<longleftrightarrow> 97 \<le> code c \<and> code c \<le> 122"

text \<open>The \<open>\\w\<close> of a regular expression without the unicode flag.\<close>

definition is_word :: "char \<Rightarrow> bool" where
  "is_word c \<longleftrightarrow> is_digit c \<or> is_upper c \<or> is_lower c \<or> code c = 95"

text \<open>
  Case mapping on the code units below 256; the three whose upper case lies outside
  that range (181, 223 and 255) are kept.
\<close>

definition lower_char :: "char \<Rightarrow> char" where
  "lower_char c =
     (if is_upper c \<or> (192 \<le> code c \<and> code c \<le> 222 \<and> code c \<noteq> 215)
      then char_of (code c + 32) else c)"

definition upper_char :: "char \<Rightarrow> char" where
  "upper_char c =
     (if is_lower c \<or> (224 \<le> code c \<and> code c \<le> 254 \<and> code c \<noteq> 247)
      then char_of (code c - 32) else c)"

lemma code_inject: "code a = code b \<longleftrightarrow> a = b"
  by (simp add: code_def)

lemma code_char_of: "n < 256 \<Longrightarrow> code (char_of n) = n"
  by (simp add: code_def)

subsection \<open>Strings\<close>

definition js_lower :: "string \<Rightarrow> string" where
  "js_lower s = map lower_char s"

definition js_upper :: "string \<Rightarrow> string" where
  "js_upper s = map upper_char s"

definition js_trim_start :: "string \<Rightarrow> string" where
  "js_trim_start s = dropWhile js_ws s"

definition js_trim_end :: "string \<Rightarrow> string" where
  "js_trim_end s = rev (dropWhile js_ws (rev s))"

definition js_trim :: "string \<Rightarrow> string" where
  "js_trim s = js_trim_end (js_trim_start s)"

definition js_starts_with :: "string \<Rightarrow> string \<Rightarrow> bool" where
  "js_starts_with s p \<longleftrightarrow> take (length p) s = p"

definition js_ends_with :: "string \<Rightarrow> string \<Rightarrow> bool" where
  "js_ends_with s p \<longleftrightarrow> length p \<le> length s \<and> drop (length s - length p) s = p"

fun js_includes :: "string \<Rightarrow> string \<Rightarrow> bool" where
  "js_includes [] p \<longleftrightarrow> p = []"
| "js_includes (c # s) p \<longleftrightarrow> js_starts_with (c # s) p \<or> js_includes s p"

text \<open>\<open>s.slice(-n)\<close> for a positive \<open>n\<close>.\<close>

definition js_slice_end :: "nat \<Rightarrow> 'a list \<Rightarrow> 'a list" where
  "js_slice_end n xs = drop (length xs - n) xs"

fun js_split :: "char \<Rightarrow> string \<Rightarrow> string list" where
  "js_split c [] = [[]]"
| "js_split c (x # s) =
     (if x = c then [] # js_split c s
      else (case js_split c s of [] \<Rightarrow> [[x]] | w # ws \<Rightarrow> (x # w) # ws))"

fun js_join :: "string \<Rightarrow> string list \<Rightarrow> string" where
  "js_join sep [] = []"
| "js_join sep [w] = w"
| "js_join sep (w # v # ws) = w @ sep @ js_join sep (v # ws)"

fun show_nat :: "nat \<Rightarrow> string" where
  "show_nat n = (if n < 10 then [char_of (48 + n)]
                 else show_nat (n div 10) @ [char_of (48 + n mod 10)])"

declare show_nat.simps [simp del]

definition show_int :: "int \<Rightarrow> string" where
  "show_int i = (if i < 0 then ''-'' @ show_nat (nat (- i)) else show_nat (nat i))"

text \<open>\<open>parseInt\<close> on a string of digits.\<close>

definition parse_nat :: "string \<Rightarrow> nat" where
  "parse_nat s = foldl (\<lambda>n c. 10 * n + (code c - 48)) 0 s"

text \<open>
  \<open>Number.parseInt(s, 10)\<close>, with \<open>None\<close> for \<open>NaN\<close>: leading white space, a sign, and the
  longest run of digits.
\<close>

definition js_parse_int :: "string \<Rightarrow> int option" where
  "js_parse_int s =
     (let t = js_trim_start s;
          neg = js_starts_with t ''-'';
          body = (if neg \<or> js_starts_with t ''+'' then tl t else t);
          ds = takeWhile is_digit body
      in if ds = [] then None else Some (if neg then - int (parse_nat ds) else int (parse_nat ds)))"

text \<open>
  \<open>Number(v)\<close> on the values of the model, with \<open>None\<close> for \<open>NaN\<close>: of the numeric strings
  the decimal integers are read, since \<open>JNum\<close> holds integers.
\<close>

definition js_decimal :: "string \<Rightarrow> int option" where
  "js_decimal s =
     (let neg = js_starts_with s ''-'';
          ds = (if neg \<or> js_starts_with s ''+'' then tl s else s)
      in if s = [] then Some 0
         else if ds = [] \<or> \<not> list_all is_digit ds then None
         else Some (if neg then - int (parse_nat ds) else int (parse_nat ds)))"

fun js_number :: "jsval \<Rightarrow> int option" where
  "js_number JNull = Some 0"
| "js_number (JBool b) = Some (if b then 1 else 0)"
| "js_number (JNum n) = Some n"
| "js_number (JStr s) = js_decimal (js_trim s)"
| "js_number _ = None"

lemma js_split_not_Nil [simp]: "js_split c s \<noteq> []"
  by (cases s) (auto split: list.splits)

lemma js_join_split: "js_join [c] (js_split c s) = s"
proof (induction s)
  case (Cons x s)
  then show ?case
    by (cases "js_split c s") (auto split: list.splits, (metis js_join.simps(2,3) append_Cons
      append_Nil list.exhaust)+)
qed simp

lemma js_split_sep_free: "\<forall>w \<in> set (js_split c s). c \<notin> set w"
proof (induction s)
  case (Cons x s)
  then show ?case by (cases "js_split c s") auto
qed simp

lemma js_split_no_sep: "c \<notin> set w \<Longrightarrow> js_split c w = [w]"
  by (induction w) auto

lemma js_split_append: "c \<notin> set w \<Longrightarrow> js_split c (w @ c # s) = w # js_split c s"
  by (induction w) (auto split: list.splits)

lemma js_split_join:
  "ws \<noteq> [] \<Longrightarrow> \<forall>w \<in> set ws. c \<notin> set w \<Longrightarrow> js_split c (js_join [c] ws) = ws"
proof (induction "[c]" ws rule: js_join.induct)
  case (2 w)
  then show ?case by (simp add: js_split_no_sep)
next
  case (3 w v ws)
  then show ?case using js_split_append by simp
qed simp

lemma js_starts_with_iff: "js_starts_with s p \<longleftrightarrow> (\<exists>t. s = p @ t)"
  unfolding js_starts_with_def by (metis append_eq_conv_conj append_take_drop_id)

lemma js_ends_with_iff: "js_ends_with s p \<longleftrightarrow> (\<exists>t. s = t @ p)"
proof
  assume "js_ends_with s p"
  then show "\<exists>t. s = t @ p"
    unfolding js_ends_with_def by (metis append_take_drop_id)
qed (auto simp: js_ends_with_def)

lemma js_includes_iff: "js_includes s p \<longleftrightarrow> (\<exists>a b. s = a @ p @ b)"
proof (induction s)
  case (Cons c s)
  show ?case
  proof
    assume "js_includes (c # s) p"
    then consider b where "c # s = p @ b" | "js_includes s p"
      by (auto simp: js_starts_with_iff)
    then show "\<exists>a b. c # s = a @ p @ b"
    proof cases
      case 1
      then show ?thesis by (metis append_Nil)
    next
      case 2
      then show ?thesis using Cons by (metis append_Cons)
    qed
  next
    assume "\<exists>a b. c # s = a @ p @ b"
    then obtain a b where ab: "c # s = a @ p @ b" by blast
    show "js_includes (c # s) p"
    proof (cases a)
      case Nil
      then have "js_starts_with (c # s) p" using ab by (auto simp: js_starts_with_iff)
      then show ?thesis by simp
    next
      case (Cons x a')
      then show ?thesis using ab \<open>js_includes s p = _\<close> by auto
    qed
  qed
qed auto

text \<open>
  The one character of the source's string literals above 255 that the model meets, the
  em dash, written as its three UTF-8 bytes; no modelled operation looks inside it.
\<close>

definition em_dash :: string where
  "em_dash = [char_of (226::nat), char_of (128::nat), char_of (148::nat)]"

subsection \<open>Lists\<close>

text \<open>\<open>xs.findIndex(p)\<close>, with \<open>None\<close> for -1.\<close>

fun find_index :: "('a \<Rightarrow> bool) \<Rightarrow> 'a list \<Rightarrow> nat option" where
  "find_index p [] = None"
| "find_index p (x # xs) = (if p x then Some 0 else map_option Suc (find_index p xs))"

lemma find_index_None: "find_index p xs = None \<longleftrightarrow> (\<forall>x \<in> set xs. \<not> p x)"
  by (induction xs) auto

lemma find_index_Some:
  "find_index p xs = Some i \<Longrightarrow> i < length xs \<and> p (xs ! i) \<and> (\<forall>j < i. \<not> p (xs ! j))"
proof (induction xs arbitrary: i)
  case (Cons x xs)
  then show ?case
    by (auto split: if_splits simp: nth_Cons less_Suc_eq_0_disj split: nat.splits)
qed simp

lemma find_index_split:
  "find_index p xs = Some i \<Longrightarrow>
     \<exists>ys x zs. xs = ys @ x # zs \<and> length ys = i \<and> p x \<and> (\<forall>y \<in> set ys. \<not> p y)"
proof (induction xs arbitrary: i)
  case (Cons a xs)
  show ?case
  proof (cases "p a")
    case True
    with Cons.prems show ?thesis by (intro exI [of _ "[]"]) auto
  next
    case False
    with Cons.prems obtain k where k: "find_index p xs = Some k" "i = Suc k" by auto
    from Cons.IH [OF k(1)] obtain ys x zs where
      "xs = ys @ x # zs" "length ys = k" "p x" "\<forall>y \<in> set ys. \<not> p y" by blast
    with False k(2) show ?thesis by (intro exI [of _ "a # ys"]) auto
  qed
qed simp

text \<open>\<open>[...new Set(xs)]\<close>: the first occurrence of each element, in order.\<close>

fun js_unique :: "'a list \<Rightarrow> 'a list" where
  "js_unique [] = []"
| "js_unique (x # xs) = x # filter (\<lambda>y. y \<noteq> x) (js_unique xs)"

lemma set_js_unique [simp]: "set (js_unique xs) = set xs"
  by (induction xs) auto

lemma distinct_js_unique [simp]: "distinct (js_unique xs)"
  by (induction xs) auto

text \<open>\<open>xs.splice(i, n, ...ins)\<close>, the list left behind.\<close>

definition js_splice :: "nat \<Rightarrow> nat \<Rightarrow> 'a list \<Rightarrow> 'a list \<Rightarrow> 'a list" where
  "js_splice i n ins xs = take i xs @ ins @ drop (i + n) xs"

lemma length_js_slice_end [simp]: "length (js_slice_end n xs) = min n (length xs)"
  by (simp add: js_slice_end_def)

lemma js_slice_end_short [simp]: "length xs \<le> n \<Longrightarrow> js_slice_end n xs = xs"
  by (simp add: js_slice_end_def)

lemma set_js_slice_end: "set (js_slice_end n xs) \<subseteq> set xs"
  by (auto simp: js_slice_end_def dest: in_set_dropD)

definition remove_nth :: "nat \<Rightarrow> 'a list \<Rightarrow> 'a list" where
  "remove_nth i xs = js_splice i 1 [] xs"

lemma remove_nth_append [simp]: "length ys = i \<Longrightarrow> remove_nth i (ys @ x # zs) = ys @ zs"
  by (auto simp: remove_nth_def js_splice_def)

lemma js_splice_append:
  "length ys = i \<Longrightarrow> js_splice i 0 ins (ys @ zs) = ys @ ins @ zs"
  by (auto simp: js_splice_def)

text \<open>
  A run of a step function over a list of events, and the invariants it keeps: every
  component with operations as events uses these two lemmas.
\<close>

lemma foldl_invariant:
  assumes "I s" and "\<And>s e. I s \<Longrightarrow> I (step s e)"
  shows "I (foldl step s es)"
  using assms(1) by (induction es arbitrary: s) (auto intro: assms(2))

lemma foldl_invariant_set:
  assumes "I s" and "\<And>s e. I s \<Longrightarrow> e \<in> set es \<Longrightarrow> I (step s e)"
  shows "I (foldl step s es)"
  using assms by (induction es arbitrary: s) auto

subsection \<open>Errors\<close>

text \<open>A computation that may throw is a sum; what follows runs only when nothing was thrown.\<close>

definition and_then :: "'e + 'a \<Rightarrow> ('a \<Rightarrow> 'e + 'b) \<Rightarrow> 'e + 'b" where
  "and_then r f = (case r of Inl e \<Rightarrow> Inl e | Inr x \<Rightarrow> f x)"

lemma and_then_simps [simp]: "and_then (Inl e) f = Inl e" "and_then (Inr x) f = f x"
  by (simp_all add: and_then_def)

lemma and_then_Inr: "and_then r f = Inr y \<longleftrightarrow> (\<exists>x. r = Inr x \<and> f x = Inr y)"
  by (cases r) auto

lemma and_then_Inl: "and_then r f = Inl e \<longleftrightarrow> r = Inl e \<or> (\<exists>x. r = Inr x \<and> f x = Inl e)"
  by (cases r) auto

lemma and_then_cong [fundef_cong]:
  "r = r' \<Longrightarrow> (\<And>x. r' = Inr x \<Longrightarrow> f x = f' x) \<Longrightarrow> and_then r f = and_then r' f'"
  by (cases r') auto

text \<open>\<open>if (!b) throw e\<close>, and \<open>xs.map(f)\<close> with a function that may throw.\<close>

definition ensure :: "'e \<Rightarrow> bool \<Rightarrow> 'e + unit" where
  "ensure e b = (if b then Inr () else Inl e)"

lemma ensure_Inr [simp]: "ensure e b = Inr u \<longleftrightarrow> b"
  by (simp add: ensure_def)

lemma ensure_Inl [simp]: "ensure e b = Inl e' \<longleftrightarrow> \<not> b \<and> e' = e"
  by (auto simp: ensure_def)

fun map_throw :: "('a \<Rightarrow> 'e + 'b) \<Rightarrow> 'a list \<Rightarrow> 'e + 'b list" where
  "map_throw f [] = Inr []"
| "map_throw f (x # xs) = and_then (f x) (\<lambda>y. and_then (map_throw f xs) (\<lambda>ys. Inr (y # ys)))"

lemma map_throw_cong [fundef_cong]:
  "xs = ys \<Longrightarrow> (\<And>x. x \<in> set ys \<Longrightarrow> f x = g x) \<Longrightarrow> map_throw f xs = map_throw g ys"
  by (induction xs arbitrary: ys) auto

lemma map_throw_Inr: "map_throw f xs = Inr ys \<longleftrightarrow> list_all2 (\<lambda>x y. f x = Inr y) xs ys"
  by (induction xs arbitrary: ys) (auto simp: and_then_Inr list_all2_Cons1)

end
