(* ===== verification/JsRegex.thy ===== *)
theory JsRegex
  imports Prelude
begin

text \<open>
  The regular expressions of the source, as a syntax tree and a backtracking matcher
  that tries the alternatives in JavaScript's priority order (greedy repetitions, left
  alternative first).  A match state is a position and the captures so far, and the
  matcher returns every way to match, best first, so the JavaScript result is the head
  of the list.  \<open>ic\<close> is the \<open>i\<close> flag.
\<close>

datatype re =
    REps
  | RCls bool "(nat \<times> nat) list"
  | RSeq re re
  | RAlt re re
  | RRep nat "nat option" re
  | RBol
  | REol
  | RWordB
  | RGrp nat re
  | RRef nat
  | RLazy re

type_synonym caps = "(nat \<times> string) list"
type_synonym mstate = "nat \<times> caps"

subsection \<open>Character classes\<close>

definition in_ranges :: "(nat \<times> nat) list \<Rightarrow> char \<Rightarrow> bool" where
  "in_ranges rs c \<longleftrightarrow> (\<exists>(lo, hi) \<in> set rs. lo \<le> code c \<and> code c \<le> hi)"

lemma in_ranges_simps [simp, code]:
  "in_ranges [] c = False"
  "in_ranges ((lo, hi) # rs) c = ((lo \<le> code c \<and> code c \<le> hi) \<or> in_ranges rs c)"
  by (auto simp: in_ranges_def)

text \<open>With the \<open>i\<close> flag a class holds a character when it holds one of its case variants.\<close>

definition cls_holds :: "bool \<Rightarrow> bool \<Rightarrow> (nat \<times> nat) list \<Rightarrow> char \<Rightarrow> bool" where
  "cls_holds ic neg rs c \<longleftrightarrow>
     ((in_ranges rs c \<or> (ic \<and> (in_ranges rs (lower_char c) \<or> in_ranges rs (upper_char c)))) \<noteq> neg)"

abbreviation RDigit :: re where "RDigit \<equiv> RCls False [(48, 57)]"
abbreviation RSpace :: re where "RSpace \<equiv> RCls False [(9, 13), (32, 32), (160, 160)]"
abbreviation RDot :: re where "RDot \<equiv> RCls True [(10, 10), (13, 13)]"
abbreviation RStar :: "re \<Rightarrow> re" where "RStar r \<equiv> RRep 0 None r"
abbreviation RPlus :: "re \<Rightarrow> re" where "RPlus r \<equiv> RRep 1 None r"
abbreviation ROpt :: "re \<Rightarrow> re" where "ROpt r \<equiv> RRep 0 (Some 1) r"

definition RChr :: "char \<Rightarrow> re" where
  "RChr c = RCls False [(code c, code c)]"

fun RLit :: "string \<Rightarrow> re" where
  "RLit [] = REps"
| "RLit (c # s) = RSeq (RChr c) (RLit s)"

fun RSeqs :: "re list \<Rightarrow> re" where
  "RSeqs [] = REps"
| "RSeqs [r] = r"
| "RSeqs (r # r' # rs) = RSeq r (RSeqs (r' # rs))"

text \<open>The alternatives of a non-empty list.\<close>

fun RAlts :: "re list \<Rightarrow> re" where
  "RAlts [] = REps"
| "RAlts [r] = r"
| "RAlts (r # r' # rs) = RAlt r (RAlts (r' # rs))"

subsection \<open>The matcher\<close>

text \<open>
  One repetition: \<open>n\<close> bounds the iterations still allowed.  An optional iteration that
  consumes nothing fails, as in the ECMAScript rule, so \<open>lo\<close> plus the number of
  characters left is always enough (\<open>rep_fuel\<close> below).
\<close>

fun rep_run :: "(mstate \<Rightarrow> mstate list) \<Rightarrow> nat \<Rightarrow> nat \<Rightarrow> nat option \<Rightarrow> mstate \<Rightarrow> mstate list" where
  "rep_run f 0 lo hi st = (if lo = 0 then [st] else [])"
| "rep_run f (Suc n) lo hi st =
     (if hi = Some 0 then [st]
      else concat (map (\<lambda>st'. if lo = 0 \<and> fst st' = fst st then []
                              else rep_run f n (lo - 1) (map_option (\<lambda>h. h - 1) hi) st') (f st))
           @ (if lo = 0 then [st] else []))"

text \<open>The lazy repetition tries to stop first.\<close>

fun lazy_run :: "(mstate \<Rightarrow> mstate list) \<Rightarrow> nat \<Rightarrow> mstate \<Rightarrow> mstate list" where
  "lazy_run f 0 st = [st]"
| "lazy_run f (Suc n) st =
     st # concat (map (\<lambda>st'. if fst st' = fst st then [] else lazy_run f n st') (f st))"

definition word_at :: "string \<Rightarrow> nat \<Rightarrow> bool" where
  "word_at s i \<longleftrightarrow> i < length s \<and> is_word (s ! i)"

definition word_boundary :: "string \<Rightarrow> nat \<Rightarrow> bool" where
  "word_boundary s i \<longleftrightarrow> ((0 < i \<and> word_at s (i - 1)) \<noteq> word_at s i)"

definition same_chars :: "bool \<Rightarrow> string \<Rightarrow> string \<Rightarrow> bool" where
  "same_chars ic a b \<longleftrightarrow> (if ic then js_upper a = js_upper b else a = b)"

fun re_run :: "bool \<Rightarrow> string \<Rightarrow> re \<Rightarrow> mstate \<Rightarrow> mstate list" where
  "re_run ic s REps st = [st]"
| "re_run ic s (RCls neg rs) st =
     (if fst st < length s \<and> cls_holds ic neg rs (s ! fst st) then [(Suc (fst st), snd st)] else [])"
| "re_run ic s (RSeq a b) st = concat (map (re_run ic s b) (re_run ic s a st))"
| "re_run ic s (RAlt a b) st = re_run ic s a st @ re_run ic s b st"
| "re_run ic s (RRep lo hi r) st =
     rep_run (re_run ic s r) (lo + (length s - fst st) + 1) lo hi st"
| "re_run ic s RBol st = (if fst st = 0 then [st] else [])"
| "re_run ic s REol st = (if fst st = length s then [st] else [])"
| "re_run ic s RWordB st = (if word_boundary s (fst st) then [st] else [])"
| "re_run ic s (RGrp k r) st =
     map (\<lambda>(p, cs). (p, (k, take (p - fst st) (drop (fst st) s)) # cs)) (re_run ic s r st)"
| "re_run ic s (RRef k) st =
     (case map_of (snd st) k of
        None \<Rightarrow> [st]
      | Some w \<Rightarrow>
          if fst st + length w \<le> length s
             \<and> same_chars ic (take (length w) (drop (fst st) s)) w
          then [(fst st + length w, snd st)] else [])"
| "re_run ic s (RLazy r) st = lazy_run (re_run ic s r) (Suc (length s - fst st)) st"

record rmatch =
  rm_start :: nat
  rm_end :: nat
  rm_caps :: caps

definition re_at :: "bool \<Rightarrow> re \<Rightarrow> string \<Rightarrow> nat \<Rightarrow> rmatch option" where
  "re_at ic r s i = (case re_run ic s r (i, []) of
      [] \<Rightarrow> None
    | (e, cs) # _ \<Rightarrow> Some \<lparr>rm_start = i, rm_end = e, rm_caps = cs\<rparr>)"

text \<open>The search starts at each position from \<open>i\<close>, \<open>n\<close> of them, and takes the first match.\<close>

fun re_search :: "bool \<Rightarrow> re \<Rightarrow> string \<Rightarrow> nat \<Rightarrow> nat \<Rightarrow> rmatch option" where
  "re_search ic r s 0 i = None"
| "re_search ic r s (Suc n) i =
     (case re_at ic r s i of Some m \<Rightarrow> Some m | None \<Rightarrow> re_search ic r s n (Suc i))"

definition re_match :: "bool \<Rightarrow> re \<Rightarrow> string \<Rightarrow> rmatch option" where
  "re_match ic r s = re_search ic r s (Suc (length s)) 0"

definition re_test :: "bool \<Rightarrow> re \<Rightarrow> string \<Rightarrow> bool" where
  "re_test ic r s \<longleftrightarrow> re_match ic r s \<noteq> None"

definition rm_text :: "string \<Rightarrow> rmatch \<Rightarrow> string" where
  "rm_text s m = take (rm_end m - rm_start m) (drop (rm_start m) s)"

definition rm_group :: "rmatch \<Rightarrow> nat \<Rightarrow> string option" where
  "rm_group m k = map_of (rm_caps m) k"

text \<open>
  \<open>s.replace(r, w)\<close> with the \<open>g\<close> flag, for a text \<open>w\<close> without \<open>$\<close>: \<open>n\<close> bounds the
  matches, \<open>i\<close> is the position after the last one, and after an empty match one character
  is kept.
\<close>

fun re_replace_from :: "bool \<Rightarrow> re \<Rightarrow> string \<Rightarrow> string \<Rightarrow> nat \<Rightarrow> nat \<Rightarrow> string" where
  "re_replace_from ic r w s 0 i = drop i s"
| "re_replace_from ic r w s (Suc n) i =
     (case re_search ic r s (Suc (length s - i)) i of
        None \<Rightarrow> drop i s
      | Some m \<Rightarrow> take (rm_start m - i) (drop i s) @ w @
          (if rm_end m = rm_start m
           then take 1 (drop (rm_end m) s) @ re_replace_from ic r w s n (Suc (rm_end m))
           else re_replace_from ic r w s n (rm_end m)))"

definition re_replace_all :: "bool \<Rightarrow> re \<Rightarrow> string \<Rightarrow> string \<Rightarrow> string" where
  "re_replace_all ic r w s = re_replace_from ic r w s (Suc (length s)) 0"

lemma re_replace_none: "\<not> re_test ic r s \<Longrightarrow> re_replace_all ic r w s = s"
  by (simp add: re_replace_all_def re_test_def re_match_def)

subsection \<open>Every match stays within the string, and the iteration bound is enough\<close>

definition progresses :: "nat \<Rightarrow> (mstate \<Rightarrow> mstate list) \<Rightarrow> bool" where
  "progresses len f \<longleftrightarrow>
     (\<forall>st st'. fst st \<le> len \<longrightarrow> st' \<in> set (f st) \<longrightarrow> fst st \<le> fst st' \<and> fst st' \<le> len)"

lemma progressesD:
  "progresses len f \<Longrightarrow> st' \<in> set (f st) \<Longrightarrow> fst st \<le> len \<Longrightarrow> fst st \<le> fst st' \<and> fst st' \<le> len"
  unfolding progresses_def by blast

lemma progressesI:
  "(\<And>st st'. fst st \<le> len \<Longrightarrow> st' \<in> set (f st) \<Longrightarrow> fst st \<le> fst st' \<and> fst st' \<le> len)
     \<Longrightarrow> progresses len f"
  unfolding progresses_def by blast

lemma rep_run_progress:
  assumes "progresses len f" and "st' \<in> set (rep_run f n lo hi st)" and "fst st \<le> len"
  shows "fst st \<le> fst st' \<and> fst st' \<le> len"
  using assms
proof (induction f n lo hi st rule: rep_run.induct)
  case (2 f n lo hi st)
  show ?case
  proof (cases "st' = st")
    case False
    with "2.prems"(2) obtain u where
      u: "u \<in> set (f st)" "st' \<in> set (rep_run f n (lo - 1) (map_option (\<lambda>h. h - 1) hi) u)"
      and g: "hi \<noteq> Some 0" "\<not> (lo = 0 \<and> fst u = fst st)"
      by (auto split: if_splits)
    have "fst st \<le> fst u \<and> fst u \<le> len"
      using progressesD [OF "2.prems"(1) u(1) "2.prems"(3)] .
    with "2.IH" [OF g(1) u(1) g(2) "2.prems"(1) u(2)] show ?thesis by simp
  qed (use "2.prems" in simp)
qed (auto split: if_splits)

text \<open>Enough iterations: any bound from \<open>lo\<close> plus the remaining length plus one on is the same.\<close>

lemma rep_fuel:
  assumes "progresses len f" and "fst st \<le> len"
    and "lo + (len - fst st) + 1 \<le> n" and "lo + (len - fst st) + 1 \<le> m"
  shows "rep_run f n lo hi st = rep_run f m lo hi st"
  using assms(2-)
proof (induction n arbitrary: m lo hi st)
  case (Suc n)
  from Suc.prems(3) obtain k where m: "m = Suc k" by (cases m) auto
  have "rep_run f n (lo - 1) h u = rep_run f k (lo - 1) h u"
    if u: "u \<in> set (f st)" and g: "\<not> (lo = 0 \<and> fst u = fst st)" for h u
  proof -
    from progressesD [OF assms(1) u Suc.prems(1)]
    have b: "fst st \<le> fst u" "fst u \<le> len" by auto
    then have "lo - 1 + (len - fst u) + 1 \<le> n" "lo - 1 + (len - fst u) + 1 \<le> k"
      using Suc.prems g m by auto
    with b show ?thesis by (intro Suc.IH) auto
  qed
  then have "map (\<lambda>st'. if lo = 0 \<and> fst st' = fst st then []
                 else rep_run f n (lo - 1) (map_option (\<lambda>h. h - 1) hi) st') (f st)
           = map (\<lambda>st'. if lo = 0 \<and> fst st' = fst st then []
                 else rep_run f k (lo - 1) (map_option (\<lambda>h. h - 1) hi) st') (f st)"
    by (intro map_cong) auto
  then show ?case unfolding m rep_run.simps by (simp only:)
qed simp

lemma lazy_run_progress:
  assumes "progresses len f" "st' \<in> set (lazy_run f n st)" "fst st \<le> len"
  shows "fst st \<le> fst st' \<and> fst st' \<le> len"
  using assms
proof (induction f n st rule: lazy_run.induct)
  case (2 f n st)
  then consider "st' = st" | u where "u \<in> set (f st)" "fst u \<noteq> fst st" "st' \<in> set (lazy_run f n u)"
    by (auto split: if_splits)
  then show ?case
  proof cases
    case 2
    with progressesD [OF "2.prems"(1) 2(1) "2.prems"(3)] "2.IH" [OF 2(1,2) "2.prems"(1) 2(3)]
    show ?thesis by linarith
  qed (use "2.prems" in simp)
qed simp

lemma re_run_progress: "progresses (length s) (re_run ic s r)"
proof (induction r)
  case (RSeq a b)
  show ?case
  proof (rule progressesI)
    fix st st' :: mstate
    assume "fst st \<le> length s" and "st' \<in> set (re_run ic s (RSeq a b) st)"
    then obtain u where "u \<in> set (re_run ic s a st)" "st' \<in> set (re_run ic s b u)" by auto
    with progressesD [OF RSeq.IH(1), of u st] progressesD [OF RSeq.IH(2), of st' u]
      \<open>fst st \<le> length s\<close>
    show "fst st \<le> fst st' \<and> fst st' \<le> length s" by linarith
  qed
next
  case (RAlt a b)
  show ?case
    by (rule progressesI) (auto dest: progressesD [OF RAlt.IH(1)] progressesD [OF RAlt.IH(2)])
next
  case (RRep lo hi r)
  show ?case
    by (rule progressesI) (simp only: re_run.simps rep_run_progress [OF RRep.IH])
next
  case (RGrp k r)
  show ?case
    by (rule progressesI) (auto dest: progressesD [OF RGrp.IH])
next
  case (RRef k)
  show ?case
    by (rule progressesI) (auto split: option.splits if_splits)
next
  case (RLazy r)
  show ?case
    by (rule progressesI) (simp only: re_run.simps lazy_run_progress [OF RLazy.IH])
qed (rule progressesI, simp split: if_splits)+

lemma re_at_bounds: "re_at ic r s i = Some m \<Longrightarrow> i \<le> length s \<Longrightarrow>
    rm_start m = i \<and> i \<le> rm_end m \<and> rm_end m \<le> length s"
  using progressesD [OF re_run_progress, of "hd (re_run ic s r (i, []))" ic s r "(i, [])"]
  by (auto simp: re_at_def split: list.splits)

lemma re_search_bounds: "re_search ic r s n i = Some m \<Longrightarrow> i + n \<le> Suc (length s) \<Longrightarrow>
    i \<le> rm_start m \<and> rm_start m \<le> rm_end m \<and> rm_end m \<le> length s"
proof (induction n arbitrary: i)
  case (Suc n)
  show ?case
  proof (cases "re_at ic r s i")
    case None
    with Suc show ?thesis by fastforce
  next
    case (Some a)
    with Suc.prems re_at_bounds [of ic r s i a] show ?thesis by auto
  qed
qed simp

lemma re_match_bounds: "re_match ic r s = Some m \<Longrightarrow>
    rm_start m \<le> rm_end m \<and> rm_end m \<le> length s"
  unfolding re_match_def using re_search_bounds by fastforce

subsection \<open>Literals\<close>

text \<open>
  Most searches of the source are for literals: the pattern of a literal is found exactly
  where the literal occurs.
\<close>

lemma re_run_lit: "fst st \<le> length s \<Longrightarrow> re_run False s (RLit w) st =
    (if js_starts_with (drop (fst st) s) w then [(fst st + length w, snd st)] else [])"
proof (induction w arbitrary: st)
  case (Cons c w)
  show ?case
  proof (cases "fst st < length s")
    case True
    then have d: "drop (fst st) s = s ! fst st # drop (Suc (fst st)) s"
      by (simp add: Cons_nth_drop_Suc)
    have "cls_holds False False [(code c, code c)] (s ! fst st) \<longleftrightarrow> s ! fst st = c"
      by (auto simp: cls_holds_def code_inject [symmetric])
    with True show ?thesis
      using Cons.IH [of "(Suc (fst st), snd st)"]
      by (auto simp: d RChr_def js_starts_with_def)
  next
    case False
    with Cons.prems show ?thesis by (simp add: RChr_def js_starts_with_def)
  qed
qed (auto simp: js_starts_with_def)

end
