(* ===== verification/JsSort.thy ===== *)
theory JsSort
  imports Prelude
begin

text \<open>
  \<open>Array.prototype.sort\<close> with a comparator: a stable sort.  The locale states what a
  comparator has to satisfy; its lemmas (permutation, sortedness, stability) are proved
  once and used for every comparator of the source through an interpretation.
\<close>

fun js_insert :: "('a \<Rightarrow> 'a \<Rightarrow> int) \<Rightarrow> 'a \<Rightarrow> 'a list \<Rightarrow> 'a list" where
  "js_insert cmp x [] = [x]"
| "js_insert cmp x (y # ys) = (if cmp x y \<le> 0 then x # y # ys else y # js_insert cmp x ys)"

definition js_sort :: "('a \<Rightarrow> 'a \<Rightarrow> int) \<Rightarrow> 'a list \<Rightarrow> 'a list" where
  "js_sort cmp xs = foldr (js_insert cmp) xs []"

abbreviation cmp_sorted :: "('a \<Rightarrow> 'a \<Rightarrow> int) \<Rightarrow> 'a list \<Rightarrow> bool" where
  "cmp_sorted cmp \<equiv> sorted_wrt (\<lambda>x y. cmp x y \<le> 0)"

lemma js_sort_simps [simp]:
  "js_sort cmp [] = []"
  "js_sort cmp (x # xs) = js_insert cmp x (js_sort cmp xs)"
  by (simp_all add: js_sort_def)

lemma mset_js_insert [simp]: "mset (js_insert cmp x ys) = add_mset x (mset ys)"
  by (induction ys) auto

lemma mset_js_sort [simp]: "mset (js_sort cmp xs) = mset xs"
  by (induction xs) auto

lemma set_js_insert [simp]: "set (js_insert cmp x ys) = insert x (set ys)"
  by (metis mset_js_insert set_mset_add_mset_insert set_mset_mset)

lemma set_js_sort [simp]: "set (js_sort cmp xs) = set xs"
  by (metis mset_js_sort set_mset_mset)

lemma length_js_sort [simp]: "length (js_sort cmp xs) = length xs"
  by (metis mset_js_sort size_mset)

lemma distinct_js_sort [simp]: "distinct (js_sort cmp xs) = distinct xs"
  using mset_js_sort mset_eq_imp_distinct_iff by blast

locale js_comparator =
  fixes cmp :: "'a \<Rightarrow> 'a \<Rightarrow> int"
  assumes cmp_anti: "cmp y x \<le> 0 \<longleftrightarrow> 0 \<le> cmp x y"
    and cmp_trans: "cmp x y \<le> 0 \<Longrightarrow> cmp y z \<le> 0 \<Longrightarrow> cmp x z \<le> 0"
begin

lemma cmp_refl: "cmp x x \<le> 0"
  using cmp_anti [of x x] by linarith

lemma cmp_total: "cmp x y \<le> 0 \<or> cmp y x \<le> 0"
  using cmp_anti [of y x] by linarith

lemma cmp_zero_sym: "cmp x y = 0 \<longleftrightarrow> cmp y x = 0"
  using cmp_anti [of x y] cmp_anti [of y x] by linarith

lemma insert_sorted: "cmp_sorted cmp ys \<Longrightarrow> cmp_sorted cmp (js_insert cmp x ys)"
proof (induction ys)
  case (Cons y ys)
  show ?case
  proof (cases "cmp x y \<le> 0")
    case True
    then show ?thesis using Cons.prems by (auto intro: cmp_trans)
  next
    case False
    then have "cmp y x \<le> 0" using cmp_total by blast
    with False Cons show ?thesis by auto
  qed
qed simp

lemma sort_sorted: "cmp_sorted cmp (js_sort cmp xs)"
  by (induction xs) (simp_all add: insert_sorted)

lemma sort_id: "cmp_sorted cmp xs \<Longrightarrow> js_sort cmp xs = xs"
proof (induction xs)
  case (Cons x xs)
  then show ?case by (cases xs) auto
qed simp

text \<open>Stability: the elements equal to \<open>k\<close> under the comparator keep their order.\<close>

lemma insert_filter:
  "filter (\<lambda>y. cmp k y = 0) (js_insert cmp x ys) =
     (if cmp k x = 0 then x # filter (\<lambda>y. cmp k y = 0) ys else filter (\<lambda>y. cmp k y = 0) ys)"
proof (induction ys)
  case (Cons y ys)
  show ?case
  proof (cases "cmp x y \<le> 0")
    case False
    have "\<not> (cmp k x = 0 \<and> cmp k y = 0)"
    proof
      assume e: "cmp k x = 0 \<and> cmp k y = 0"
      then have "cmp x k \<le> 0" using cmp_zero_sym by (metis order_refl)
      with e have "cmp x y \<le> 0" using cmp_trans [of x k y] by simp
      with False show False by simp
    qed
    with False Cons show ?thesis by auto
  qed auto
qed simp

lemma sort_stable: "filter (\<lambda>y. cmp k y = 0) (js_sort cmp xs) = filter (\<lambda>y. cmp k y = 0) xs"
  by (induction xs) (simp_all add: insert_filter)

lemma sorted_unique:
  assumes "cmp_sorted cmp xs" "cmp_sorted cmp ys" "mset xs = mset ys"
    and "\<And>x y. x \<in> set xs \<Longrightarrow> y \<in> set xs \<Longrightarrow> cmp x y = 0 \<Longrightarrow> x = y"
  shows "xs = ys"
  using assms
proof (induction xs arbitrary: ys)
  case (Cons x xs)
  then obtain y ys' where ys: "ys = y # ys'" by (cases ys) auto
  have "x \<in> set ys" and "y \<in> set (x # xs)"
    using Cons.prems(3) ys by (metis list.set_intros(1) set_mset_mset)+
  then have "cmp y x \<le> 0" "cmp x y \<le> 0"
    using Cons.prems(1,2) ys cmp_refl by auto
  then have "cmp x y = 0" using cmp_anti [of y x] by linarith
  then have "x = y" using Cons.prems(4) \<open>y \<in> set (x # xs)\<close> by simp
  have m: "mset xs = mset ys'" using Cons.prems(3) ys \<open>x = y\<close> by simp
  have s: "cmp_sorted cmp xs" "cmp_sorted cmp ys'" using Cons.prems(1,2) ys by simp_all
  have "xs = ys'"
    by (rule Cons.IH [OF s m]) (rule Cons.prems(4), simp_all)
  with \<open>x = y\<close> ys show ?case by simp
qed simp

end

text \<open>The comparator of a numeric key, \<open>(a, b) => a.key - b.key\<close>.\<close>

definition by_key :: "('a \<Rightarrow> int) \<Rightarrow> 'a \<Rightarrow> 'a \<Rightarrow> int" where
  "by_key f a b = f a - f b"

lemma by_key_comparator: "js_comparator (by_key f)"
  by unfold_locales (auto simp: by_key_def)

interpretation keyed: js_comparator "by_key f" for f :: "'a \<Rightarrow> int"
  by (rule by_key_comparator)

lemma by_key_sort_sorted: "sorted (map f (js_sort (by_key f) xs))"
  using keyed.sort_sorted [of f xs]
  by (simp add: by_key_def sorted_map)

end
