(* ===== verification/Inbox.thy ===== *)
theory Inbox
  imports JsRegex JsSort
begin

text \<open>
  The agent's message inbox, \<open>src/src/gateway/inbox.ts\<close>: message classification, the
  priority queue, the parking of task notifications during a work session, the digest of
  a burst of them, the admitted continuations and the recovery drain.

  \<open>inbound_message\<close> has the fields of \<open>InboundMessage\<close> that the inbox reads or writes.
  A message is an object: \<open>m_ref\<close> is its identity, which is what the \<open>WeakSet\<close> and
  \<open>WeakMap\<close> of the class compare.  The pending promise of \<open>next()\<close> is the flag
  \<open>waiting\<close>; resolving it is the third component of an operation's result.  The
  reference of a digest object and the reading of the clock for it are arguments.
\<close>

subsection \<open>Messages and their classes\<close>

record inbound_message =
  m_ref :: nat
  m_id :: string
  m_source :: "string option"
  m_content :: jsval
  m_timestamp :: time
  m_metadata :: "jsobj option"

datatype inbox_class = DirectControl | Heartbeat | Cron | RoutineTask

text \<open>\<open>/^\\s*(?:\\[system\\]\\s+)?\\[Alert(?: Resolved)?\\]/i\<close>\<close>

definition alert_re :: re where
  "alert_re = RSeqs [RBol, RStar RSpace, ROpt (RSeq (RLit ''[system]'') (RPlus RSpace)),
     RLit ''[Alert'', ROpt (RLit '' Resolved''), RLit '']'']"

text \<open>\<open>/^\\s*\\[system\\]\\s+\\[Task (?:Assigned|Update)\\]/i\<close>\<close>

definition task_notice_re :: re where
  "task_notice_re = RSeqs [RBol, RStar RSpace, RLit ''[system]'', RPlus RSpace,
     RLit ''[Task '', RAlt (RLit ''Assigned'') (RLit ''Update''), RLit '']'']"

definition routine_re :: re where
  "routine_re = RSeqs [RBol, RStar RSpace, RLit ''[system]'', RPlus RSpace,
     RAlt (RSeqs [RLit ''[Task '', RAlt (RLit ''Assigned'') (RLit ''Update''), RLit '']''])
          (RSeqs [RLit ''['', RAlt (RLit ''Review Seat Starvation'') (RLit ''Routability Hold''),
                  RLit '']''])]"

fun isConnectAlertNotificationContent :: "jsval \<Rightarrow> bool" where
  "isConnectAlertNotificationContent (JStr s) = re_test True alert_re s"
| "isConnectAlertNotificationContent _ = False"

fun isRoutineTaskNotificationContent :: "jsval \<Rightarrow> bool" where
  "isRoutineTaskNotificationContent (JStr s) =
     (re_test True routine_re s \<or> isConnectAlertNotificationContent (JStr s))"
| "isRoutineTaskNotificationContent _ = False"

definition isWorkingDeferredTaskNotification :: "inbound_message \<Rightarrow> bool" where
  "isWorkingDeferredTaskNotification m =
     (if m_source m = Some ''heartbeat'' then False
      else let content = (case m_content m of JStr s \<Rightarrow> s | _ \<Rightarrow> [])
           in re_test True task_notice_re content
              \<or> isConnectAlertNotificationContent (m_content m))"

definition metadata_get :: "inbound_message \<Rightarrow> string \<Rightarrow> jsval" where
  "metadata_get m k = (case m_metadata m of None \<Rightarrow> JUndef | Some ob \<Rightarrow> js_get ob k)"

definition gatewayInboxClass :: "inbound_message \<Rightarrow> inbox_class" where
  "gatewayInboxClass m =
     (if m_source m = Some ''heartbeat'' then Heartbeat
      else if m_source m = Some ''cron'' then Cron
      else if metadata_get m ''schedulerClass'' = JStr ''routine-task''
              \<or> isRoutineTaskNotificationContent (m_content m) then RoutineTask
      else DirectControl)"

text \<open>\<open>/\\balertname=([A-Za-z0-9_]+)/i\<close>, \<open>/\\[Alert(?: Resolved)?\\][^\\n]*\\b([A-Z][A-Za-z0-9]{8,})\\b/\<close>
  and \<open>/\\b[A-Z][A-Z0-9]*-\\d+\\b/i\<close>\<close>

definition alertname_re :: re where
  "alertname_re = RSeqs [RWordB, RLit ''alertname='',
     RGrp 1 (RPlus (RCls False [(65, 90), (97, 122), (48, 57), (95, 95)]))]"

definition alert_head_re :: re where
  "alert_head_re = RSeqs [RLit ''[Alert'', ROpt (RLit '' Resolved''), RLit '']'',
     RStar (RCls True [(10, 10)]), RWordB,
     RGrp 1 (RSeq (RCls False [(65, 90)]) (RRep 8 None (RCls False [(65, 90), (97, 122), (48, 57)]))),
     RWordB]"

definition issue_key_re :: re where
  "issue_key_re = RSeqs [RWordB, RCls False [(65, 90)], RStar (RCls False [(65, 90), (48, 57)]),
     RLit ''-'', RPlus RDigit, RWordB]"

text \<open>\<open>content.match(re)?.[1]\<close>, an empty group counting as absent (\<open>||\<close>).\<close>

definition match_group1 :: "bool \<Rightarrow> re \<Rightarrow> string \<Rightarrow> string option" where
  "match_group1 ic r s = (case re_match ic r s of
      None \<Rightarrow> None
    | Some m \<Rightarrow> (case rm_group m 1 of None \<Rightarrow> None | Some w \<Rightarrow> if w = [] then None else Some w))"

definition contentTaskKey :: "jsval \<Rightarrow> string option" where
  "contentTaskKey v = (case v of
      JStr c \<Rightarrow>
        (case (case match_group1 True alertname_re c of
                 Some w \<Rightarrow> Some w
               | None \<Rightarrow> match_group1 False alert_head_re c) of
           Some w \<Rightarrow> Some (''ALERT:'' @ js_upper w)
         | None \<Rightarrow> map_option (\<lambda>k. js_upper (rm_text c k)) (re_match True issue_key_re c))
    | _ \<Rightarrow> None)"

definition gatewayTaskNotificationKey :: "inbound_message \<Rightarrow> string option" where
  "gatewayTaskNotificationKey m =
     (if gatewayInboxClass m \<noteq> RoutineTask then None
      else case metadata_get m ''schedulerTaskKey'' of
        JStr explicit \<Rightarrow>
          if js_trim explicit \<noteq> [] then Some (js_upper (js_trim explicit))
          else contentTaskKey (m_content m)
      | _ \<Rightarrow> contentTaskKey (m_content m))"

fun class_priority :: "inbox_class \<Rightarrow> nat" where
  "class_priority DirectControl = 0"
| "class_priority Heartbeat = 1"
| "class_priority Cron = 2"
| "class_priority RoutineTask = 3"

definition gatewayInboxPriority :: "inbound_message \<Rightarrow> nat" where
  "gatewayInboxPriority m = class_priority (gatewayInboxClass m)"

subsection \<open>The inbox\<close>

record inbox =
  ib_queue :: "inbound_message list"
  ib_admitted :: "nat set"
  ib_waiting :: bool
  ib_arrival :: "nat \<Rightarrow> int option"
  ib_next_arrival :: int
  ib_coalesced :: nat
  ib_busy :: bool
  ib_sealed :: bool
  ib_version :: nat
  ib_work :: bool

definition new_inbox :: inbox where
  "new_inbox = \<lparr>ib_queue = [], ib_admitted = {}, ib_waiting = False, ib_arrival = (\<lambda>_. None),
     ib_next_arrival = 0, ib_coalesced = 0, ib_busy = False, ib_sealed = False, ib_version = 0,
     ib_work = False\<rparr>"

text \<open>The environment of an operation that may build a digest: its fresh reference and the clock.\<close>

type_synonym ib_env = "nat \<times> time"

definition duplicate_of :: "inbox \<Rightarrow> inbound_message \<Rightarrow> nat option" where
  "duplicate_of s m = (case gatewayTaskNotificationKey m of
      None \<Rightarrow> None
    | Some k \<Rightarrow> if k = [] then None
        else find_index (\<lambda>q. m_ref q \<notin> ib_admitted s \<and> gatewayTaskNotificationKey q = Some k)
               (ib_queue s))"

definition insert_by_priority :: "inbound_message \<Rightarrow> inbound_message list \<Rightarrow> inbound_message list" where
  "insert_by_priority m q =
     (case find_index (\<lambda>x. gatewayInboxPriority m < gatewayInboxPriority x) q of
        None \<Rightarrow> q @ [m]
      | Some i \<Rightarrow> js_splice i 0 [m] q)"

definition enqueueMessage :: "inbound_message \<Rightarrow> inbox \<Rightarrow> inbox" where
  "enqueueMessage m s = (case duplicate_of s m of
      Some i \<Rightarrow>
        (case ib_arrival s (m_ref (ib_queue s ! i)) of
           Some a \<Rightarrow> s\<lparr>ib_arrival := (ib_arrival s)(m_ref m \<mapsto> a), ib_queue := (ib_queue s)[i := m]\<rparr>
         | None \<Rightarrow> s\<lparr>ib_arrival := (ib_arrival s)(m_ref m \<mapsto> ib_next_arrival s),
                     ib_next_arrival := ib_next_arrival s + 1, ib_queue := (ib_queue s)[i := m]\<rparr>)
    | None \<Rightarrow>
        s\<lparr>ib_arrival := (ib_arrival s)(m_ref m \<mapsto> ib_next_arrival s),
          ib_next_arrival := ib_next_arrival s + 1,
          ib_queue := insert_by_priority m (ib_queue s)\<rparr>)"

definition parked :: "inbox \<Rightarrow> inbound_message \<Rightarrow> bool" where
  "parked s m \<longleftrightarrow> isWorkingDeferredTaskNotification m \<and> m_ref m \<notin> ib_admitted s"

definition dropWorkingDeferred :: "inbox \<Rightarrow> inbox" where
  "dropWorkingDeferred s = s\<lparr>ib_queue := filter (\<lambda>m. \<not> parked s m) (ib_queue s)\<rparr>"

definition digest_content :: "nat \<Rightarrow> string list \<Rightarrow> string" where
  "digest_content n keys =
     ''[system] [Task notifications] '' @ show_nat n @ '' Pulse assignment/update notice''
     @ (if n = 1 then '''' else ''s'') @ '' arrived while idle''
     @ (if keys \<noteq> [] then '': '' @ js_join '', '' keys else '''') @ ''. ''
     @ ''They are already on your Pulse queue '' @ em_dash
     @ '' call mcp__shizuha-pulse__pulse_get_my_tasks. Do not abandon in-progress work to chase these.''"

definition notification_digest :: "ib_env \<Rightarrow> inbound_message list \<Rightarrow> inbound_message \<Rightarrow> inbound_message" where
  "notification_digest env held first =
     (let keys = js_unique (filter (\<lambda>k. k \<noteq> [])
                   (List.map_filter gatewayTaskNotificationKey held));
          joined = js_join '','' keys;
          base = (case m_metadata first of None \<Rightarrow> [] | Some ob \<Rightarrow> ob)
      in first\<lparr>m_ref := fst env,
               m_id := ''task-notification-digest:'' @ (if joined \<noteq> [] then joined else m_id first),
               m_content := JStr (digest_content (length held) keys),
               m_timestamp := snd env,
               m_metadata := Some (js_put (js_put (js_put (js_put base
                   ''schedulerClass'' (JStr ''routine-task''))
                   ''syntheticDigest'' (JBool True))
                   ''coalescedCount'' (JNum (int (length held))))
                   ''coalescedTaskKeys'' (JArr (map JStr keys)))\<rparr>)"

definition held_notices :: "inbox \<Rightarrow> inbound_message list" where
  "held_notices s =
     filter (\<lambda>m. parked s m \<and> \<not> isConnectAlertNotificationContent (m_content m)) (ib_queue s)"

definition takeWorkingDeferredAdmission :: "ib_env \<Rightarrow> inbox \<Rightarrow> inbox \<times> inbound_message option" where
  "takeWorkingDeferredAdmission env s =
     (let held = held_notices s in
      case held of
        [] \<Rightarrow> (s, None)
      | first # rest \<Rightarrow>
          (s\<lparr>ib_queue := filter (\<lambda>m. m_ref m \<notin> m_ref ` set held) (ib_queue s)\<rparr>,
           Some (if rest = [] then first else notification_digest env held first)))"

text \<open>What the scan of \<open>takeAdmissible\<close> steps over.\<close>

definition passed_over :: "inbox \<Rightarrow> inbound_message \<Rightarrow> bool" where
  "passed_over s m \<longleftrightarrow> isWorkingDeferredTaskNotification m
     \<and> (ib_work s \<or> isConnectAlertNotificationContent (m_content m))"

definition takeAdmissible :: "ib_env \<Rightarrow> inbox \<Rightarrow> inbox \<times> inbound_message option" where
  "takeAdmissible env s =
     (case find_index (\<lambda>m. m_ref m \<in> ib_admitted s) (ib_queue s) of
        Some i \<Rightarrow>
          (let row = ib_queue s ! i in
           (s\<lparr>ib_queue := remove_nth i (ib_queue s), ib_admitted := ib_admitted s - {m_ref row}\<rparr>,
            Some row))
      | None \<Rightarrow>
          (case find_index (\<lambda>m. \<not> passed_over s m) (ib_queue s) of
             None \<Rightarrow> (s, None)
           | Some i \<Rightarrow>
               (let row = ib_queue s ! i in
                if isWorkingDeferredTaskNotification row then takeWorkingDeferredAdmission env s
                else let s' = s\<lparr>ib_queue := remove_nth i (ib_queue s)\<rparr> in
                  if gatewayInboxClass row = Heartbeat
                  then ((dropWorkingDeferred s')\<lparr>ib_work := False, ib_coalesced := 0\<rparr>, Some row)
                  else (s'\<lparr>ib_work := True\<rparr>, Some row))))"

text \<open>
  \<open>tryPush\<close>: the new state, whether the message was accepted, and the message that
  resolved the waiting \<open>next()\<close>, if any.
\<close>

definition tryPush ::
  "ib_env \<Rightarrow> inbound_message \<Rightarrow> inbox \<Rightarrow> inbox \<times> bool \<times> inbound_message option" where
  "tryPush env m s0 =
     (if ib_sealed s0 then (s0, False, None)
      else let s = s0\<lparr>ib_version := ib_version s0 + 1\<rparr> in
      if isWorkingDeferredTaskNotification m then
        (let s1 = enqueueMessage m s in
         if ib_waiting s1 \<and> \<not> ib_work s1 \<and> \<not> isConnectAlertNotificationContent (m_content m)
         then (case takeWorkingDeferredAdmission env s1 of
                 (s2, Some d) \<Rightarrow> (s2\<lparr>ib_waiting := False\<rparr>, True, Some d)
               | (s2, None) \<Rightarrow> (s2, True, None))
         else (s1, True, None))
      else if ib_waiting s then
        (if gatewayInboxClass m = Heartbeat
         then ((dropWorkingDeferred (s\<lparr>ib_waiting := False\<rparr>))\<lparr>ib_work := False\<rparr>, True, Some m)
         else (s\<lparr>ib_waiting := False, ib_work := True\<rparr>, True, Some m))
      else if gatewayInboxClass m = Heartbeat
              \<and> (\<exists>q \<in> set (ib_queue s). gatewayInboxClass q = Heartbeat)
        then (s\<lparr>ib_coalesced := ib_coalesced s + 1\<rparr>, True, None)
      else (enqueueMessage m s, True, None))"

definition sealIngress :: "inbox \<Rightarrow> inbox" where
  "sealIngress s = s\<lparr>ib_sealed := True\<rparr>"

definition unsealIngress :: "inbox \<Rightarrow> inbox" where
  "unsealIngress s = s\<lparr>ib_sealed := False\<rparr>"

definition hasClass :: "inbox_class \<Rightarrow> inbox \<Rightarrow> bool" where
  "hasClass c s \<longleftrightarrow> (\<exists>m \<in> set (ib_queue s). gatewayInboxClass m = c)"

definition earliest_queued :: "inbox \<Rightarrow> int" where
  "earliest_queued s = foldl (\<lambda>e m. min (case ib_arrival s (m_ref m) of None \<Rightarrow> e | Some a \<Rightarrow> a) e)
                         (ib_next_arrival s) (ib_queue s)"

fun stamp_arrivals :: "inbound_message list \<Rightarrow> int \<Rightarrow> (nat \<Rightarrow> int option) \<Rightarrow> (nat \<Rightarrow> int option)" where
  "stamp_arrivals [] k ar = ar"
| "stamp_arrivals (m # ms) k ar = stamp_arrivals ms (k + 1) (ar(m_ref m \<mapsto> k))"

definition pushFront :: "inbound_message list \<Rightarrow> inbox \<Rightarrow> inbox \<times> inbound_message option" where
  "pushFront ms s = (case ms of
      [] \<Rightarrow> (s, None)
    | first # rest \<Rightarrow>
        (let s1 = s\<lparr>ib_arrival := stamp_arrivals ms (earliest_queued s - int (length ms)) (ib_arrival s)\<rparr> in
         if ib_waiting s1
         then (s1\<lparr>ib_waiting := False, ib_queue := rest @ ib_queue s1\<rparr>, Some first)
         else (s1\<lparr>ib_queue := ms @ ib_queue s1\<rparr>, None)))"

definition resumeAdmitted :: "inbound_message list \<Rightarrow> inbox \<Rightarrow> inbox \<times> inbound_message option" where
  "resumeAdmitted ms s = pushFront ms (s\<lparr>ib_admitted := ib_admitted s \<union> m_ref ` set ms\<rparr>)"

definition arrival_of :: "inbox \<Rightarrow> inbound_message \<Rightarrow> int" where
  "arrival_of s m = (case ib_arrival s (m_ref m) of None \<Rightarrow> 0 | Some a \<Rightarrow> a)"

definition drainForRecovery :: "inbox \<Rightarrow> inbox \<times> inbound_message list \<times> nat" where
  "drainForRecovery s =
     (s\<lparr>ib_queue := [], ib_coalesced := 0\<rparr>,
      js_sort (by_key (arrival_of s)) (ib_queue s), ib_coalesced s)"

definition ib_drain :: "inbox \<Rightarrow> inbox \<times> inbound_message list" where
  "ib_drain s = (case drainForRecovery s of (s', ms, _) \<Rightarrow> (s', ms))"

definition ib_next :: "ib_env \<Rightarrow> inbox \<Rightarrow> inbox \<times> inbound_message option" where
  "ib_next env s = (case takeAdmissible env s of
      (s', Some m) \<Rightarrow> (s', Some m)
    | (s', None) \<Rightarrow> (s'\<lparr>ib_waiting := True\<rparr>, None))"

definition ib_peek :: "inbox \<Rightarrow> inbound_message option" where
  "ib_peek s = (case find (\<lambda>m. m_ref m \<in> ib_admitted s) (ib_queue s) of
      Some m \<Rightarrow> Some m
    | None \<Rightarrow> (case ib_queue s of [] \<Rightarrow> None | m # _ \<Rightarrow> Some m))"

definition ib_clear :: "inbox \<Rightarrow> inbox" where
  "ib_clear s = s\<lparr>ib_queue := [], ib_arrival := (\<lambda>_. None), ib_next_arrival := 0,
                  ib_coalesced := 0, ib_work := False\<rparr>"


subsection \<open>The priority queue\<close>

abbreviation prio_sorted :: "inbound_message list \<Rightarrow> bool" where
  "prio_sorted q \<equiv> sorted (map gatewayInboxPriority q)"

abbreviation heartbeats :: "inbound_message list \<Rightarrow> nat" where
  "heartbeats q \<equiv> length (filter (\<lambda>m. gatewayInboxClass m = Heartbeat) q)"

abbreviation refs :: "inbound_message list \<Rightarrow> nat list" where
  "refs q \<equiv> map m_ref q"

lemma class_priority_inject [simp]: "class_priority c = class_priority d \<longleftrightarrow> c = d"
  by (cases c; cases d) auto

lemma priority_eq_class: "gatewayInboxPriority m = gatewayInboxPriority n \<longleftrightarrow>
    gatewayInboxClass m = gatewayInboxClass n"
  by (simp add: gatewayInboxPriority_def)

lemma insert_shape:
  obtains ys zs where "q = ys @ zs" "insert_by_priority m q = ys @ m # zs"
    "\<And>y. y \<in> set ys \<Longrightarrow> gatewayInboxPriority y \<le> gatewayInboxPriority m"
    "prio_sorted q \<Longrightarrow> (\<And>z. z \<in> set zs \<Longrightarrow> gatewayInboxPriority m < gatewayInboxPriority z)"
proof (cases "find_index (\<lambda>x. gatewayInboxPriority m < gatewayInboxPriority x) q")
  case None
  then have "insert_by_priority m q = q @ [m]" by (simp add: insert_by_priority_def)
  then show ?thesis
    by (intro that [of q "[]"]) (use None in \<open>auto simp: find_index_None not_less\<close>)
next
  case (Some i)
  from find_index_split [OF Some] obtain ys x zs where
    q: "q = ys @ x # zs" "length ys = i" "gatewayInboxPriority m < gatewayInboxPriority x"
    "\<forall>y \<in> set ys. \<not> gatewayInboxPriority m < gatewayInboxPriority y" by blast
  show ?thesis
    by (rule that [of ys "x # zs"])
      (use q Some in \<open>auto simp: insert_by_priority_def js_splice_append sorted_append not_less
         intro: less_le_trans\<close>)
qed

lemma mset_insert_by_priority [simp]: "mset (insert_by_priority m q) = add_mset m (mset q)"
  by (rule insert_shape [of q m]) simp

lemma set_insert_by_priority [simp]: "set (insert_by_priority m q) = insert m (set q)"
  by (metis mset_insert_by_priority set_mset_add_mset_insert set_mset_mset)

lemma insert_by_priority_sorted: "prio_sorted q \<Longrightarrow> prio_sorted (insert_by_priority m q)"
  by (rule insert_shape [of q m]) (fastforce simp: sorted_append dest: less_imp_le)

text \<open>FIFO within a class: a new message comes after every queued one of its class.\<close>

lemma insert_by_priority_fifo:
  assumes "prio_sorted q"
  shows "filter (\<lambda>x. gatewayInboxClass x = c) (insert_by_priority m q) =
     filter (\<lambda>x. gatewayInboxClass x = c) q @ (if gatewayInboxClass m = c then [m] else [])"
proof (rule insert_shape [of q m])
  fix ys zs
  assume q: "q = ys @ zs" "insert_by_priority m q = ys @ m # zs"
    and z: "prio_sorted q \<Longrightarrow> (\<And>z. z \<in> set zs \<Longrightarrow> gatewayInboxPriority m < gatewayInboxPriority z)"
  have "gatewayInboxClass x \<noteq> gatewayInboxClass m" if "x \<in> set zs" for x
    using z [OF assms that] by (auto simp: gatewayInboxPriority_def)
  then have "gatewayInboxClass m = c \<Longrightarrow> filter (\<lambda>x. gatewayInboxClass x = c) zs = []"
    by (auto simp: filter_empty_conv)
  with q show ?thesis by auto
qed

lemma key_class: "gatewayTaskNotificationKey m = Some k \<Longrightarrow> gatewayInboxClass m = RoutineTask"
  by (simp add: gatewayTaskNotificationKey_def split: if_splits)

lemma duplicate_of_Some:
  assumes "duplicate_of s m = Some i"
  obtains ys x zs where "ib_queue s = ys @ x # zs" "length ys = i" "m_ref x \<notin> ib_admitted s"
    "gatewayTaskNotificationKey x = gatewayTaskNotificationKey m"
    "gatewayInboxClass x = RoutineTask" "gatewayInboxClass m = RoutineTask"
proof -
  from assms obtain k where k: "gatewayTaskNotificationKey m = Some k"
    and f: "find_index (\<lambda>q. m_ref q \<notin> ib_admitted s \<and> gatewayTaskNotificationKey q = Some k)
             (ib_queue s) = Some i"
    by (auto simp: duplicate_of_def split: option.splits if_splits)
  from find_index_split [OF f] k show ?thesis using that key_class by auto
qed

text \<open>What an enqueue does to the queue: a replacement in place or an insertion.\<close>

lemma enqueue_cases:
  obtains (replaced) ys x zs where "ib_queue s = ys @ x # zs"
      "ib_queue (enqueueMessage m s) = ys @ m # zs" "m_ref x \<notin> ib_admitted s"
      "gatewayTaskNotificationKey x = gatewayTaskNotificationKey m"
      "gatewayInboxClass x = gatewayInboxClass m" "gatewayInboxClass m = RoutineTask"
  | (inserted) "duplicate_of s m = None"
      "ib_queue (enqueueMessage m s) = insert_by_priority m (ib_queue s)"
proof (cases "duplicate_of s m")
  case None
  then show ?thesis by (intro inserted) (simp_all add: enqueueMessage_def)
next
  case (Some i)
  then show ?thesis
  proof (rule duplicate_of_Some)
    fix ys x zs
    assume q: "ib_queue s = ys @ x # zs" "length ys = i" "m_ref x \<notin> ib_admitted s"
      "gatewayTaskNotificationKey x = gatewayTaskNotificationKey m"
      "gatewayInboxClass x = RoutineTask" "gatewayInboxClass m = RoutineTask"
    have "ib_queue (enqueueMessage m s) = ys @ m # zs"
      using Some q(1,2) by (auto simp: enqueueMessage_def split: option.splits)
    with q show ?thesis by (intro replaced) auto
  qed
qed

lemma enqueue_keeps_fields [simp]:
  "ib_admitted (enqueueMessage m s) = ib_admitted s"
  "ib_waiting (enqueueMessage m s) = ib_waiting s"
  "ib_work (enqueueMessage m s) = ib_work s"
  "ib_sealed (enqueueMessage m s) = ib_sealed s"
  "ib_coalesced (enqueueMessage m s) = ib_coalesced s"
  by (auto simp: enqueueMessage_def split: option.splits)

lemma enqueue_sorted: "prio_sorted (ib_queue s) \<Longrightarrow> prio_sorted (ib_queue (enqueueMessage m s))"
  by (cases rule: enqueue_cases [of s m])
    (auto simp: insert_by_priority_sorted sorted_append priority_eq_class gatewayInboxPriority_def)

lemma heartbeats_mset: "mset q = mset q' \<Longrightarrow> heartbeats q = heartbeats q'"
  by (metis mset_filter size_mset)

lemma enqueue_heartbeats:
  "heartbeats (ib_queue (enqueueMessage m s)) =
     heartbeats (ib_queue s) + (if gatewayInboxClass m = Heartbeat then 1 else 0)"
proof (cases rule: enqueue_cases [of s m])
  case (replaced ys x zs)
  then show ?thesis by auto
next
  case inserted
  have "heartbeats (insert_by_priority m (ib_queue s)) = heartbeats (m # ib_queue s)"
    by (rule heartbeats_mset) simp
  with inserted show ?thesis by simp
qed

lemma enqueue_refs:
  "set (refs (ib_queue (enqueueMessage m s))) \<subseteq> insert (m_ref m) (set (refs (ib_queue s)))"
  by (cases rule: enqueue_cases [of s m]) auto

lemma enqueue_distinct:
  assumes "distinct (refs (ib_queue s))" "m_ref m \<notin> set (refs (ib_queue s))"
  shows "distinct (refs (ib_queue (enqueueMessage m s)))"
proof (cases rule: enqueue_cases [of s m])
  case (replaced ys x zs)
  with assms show ?thesis by auto
next
  case inserted
  have "mset (refs (insert_by_priority m (ib_queue s))) = mset (m_ref m # refs (ib_queue s))"
    by (metis image_mset_add_mset list.map(2) mset.simps(2) mset_insert_by_priority mset_map)
  then have "distinct (refs (insert_by_priority m (ib_queue s))) =
      distinct (m_ref m # refs (ib_queue s))"
    by (rule mset_eq_imp_distinct_iff)
  with inserted assms show ?thesis by simp
qed

subsection \<open>The invariant of the live inbox\<close>

text \<open>
  The queue is sorted by priority, holds at most one heartbeat and no message twice.
\<close>

definition inbox_inv :: "inbox \<Rightarrow> bool" where
  "inbox_inv s \<longleftrightarrow> prio_sorted (ib_queue s) \<and> heartbeats (ib_queue s) \<le> 1
     \<and> distinct (refs (ib_queue s))"

lemma inbox_invI:
  "prio_sorted (ib_queue s) \<Longrightarrow> heartbeats (ib_queue s) \<le> 1 \<Longrightarrow> distinct (refs (ib_queue s))
     \<Longrightarrow> inbox_inv s"
  by (simp add: inbox_inv_def)

lemma inbox_inv_queue: "inbox_inv s \<Longrightarrow> ib_queue t = ib_queue s \<Longrightarrow> inbox_inv t"
  by (simp add: inbox_inv_def)

lemma inbox_inv_fields [simp]:
  "inbox_inv (s\<lparr>ib_waiting := b\<rparr>) = inbox_inv s"
  "inbox_inv (s\<lparr>ib_work := b\<rparr>) = inbox_inv s"
  "inbox_inv (s\<lparr>ib_version := n\<rparr>) = inbox_inv s"
  "inbox_inv (s\<lparr>ib_coalesced := n\<rparr>) = inbox_inv s"
  "inbox_inv (s\<lparr>ib_sealed := b\<rparr>) = inbox_inv s"
  by (simp_all add: inbox_inv_def)

lemma sorted_map_filter: "sorted (map f xs) \<Longrightarrow> sorted (map f (filter p xs))"
  by (rule sorted_filter)

lemma inbox_inv_filter: "inbox_inv s \<Longrightarrow> ib_queue t = filter p (ib_queue s) \<Longrightarrow> inbox_inv t"
proof -
  assume s: "inbox_inv s" and t: "ib_queue t = filter p (ib_queue s)"
  have "heartbeats (filter p (ib_queue s)) = length (filter p (filter
      (\<lambda>m. gatewayInboxClass m = Heartbeat) (ib_queue s)))"
    by (simp add: conj_commute)
  also have "\<dots> \<le> heartbeats (ib_queue s)" by (rule length_filter_le)
  finally show ?thesis using s t
    by (auto simp: inbox_inv_def sorted_map_filter distinct_map_filter)
qed

lemma find_index_remove_nth:
  assumes "find_index p xs = Some i"
  obtains ys x zs where "xs = ys @ x # zs" "xs ! i = x" "remove_nth i xs = ys @ zs" "p x"
    "\<forall>y \<in> set ys. \<not> p y"
proof -
  from find_index_split [OF assms] obtain ys x zs where
    q: "xs = ys @ x # zs" "length ys = i" "p x" "\<forall>y \<in> set ys. \<not> p y" by blast
  then have "xs ! i = x" "remove_nth i xs = ys @ zs" by auto
  with q show ?thesis using that by blast
qed

lemma inbox_inv_remove:
  "inbox_inv s \<Longrightarrow> ib_queue s = ys @ x # zs \<Longrightarrow> ib_queue t = ys @ zs \<Longrightarrow> inbox_inv t"
  by (auto simp: inbox_inv_def sorted_append split: if_splits)

lemma dropWorkingDeferred_fields [simp]:
  "ib_queue (dropWorkingDeferred s) = filter (\<lambda>m. \<not> parked s m) (ib_queue s)"
  "ib_admitted (dropWorkingDeferred s) = ib_admitted s"
  "ib_waiting (dropWorkingDeferred s) = ib_waiting s"
  "ib_work (dropWorkingDeferred s) = ib_work s"
  by (simp_all add: dropWorkingDeferred_def)

lemma enqueue_inv [keeps]:
  assumes "inbox_inv s" "m_ref m \<notin> set (refs (ib_queue s))"
    and "gatewayInboxClass m = Heartbeat \<Longrightarrow> heartbeats (ib_queue s) = 0"
  shows "inbox_inv (enqueueMessage m s)"
  using assms by (intro inbox_invI) (auto simp: inbox_inv_def enqueue_sorted enqueue_heartbeats
    enqueue_distinct)

lemma takeWDA_inv [keeps]:
  "inbox_inv s \<Longrightarrow> takeWorkingDeferredAdmission env s = (t, d) \<Longrightarrow> inbox_inv t"
  by (auto simp: takeWorkingDeferredAdmission_def Let_def split: list.splits if_splits
    elim: inbox_inv_filter)


lemma deferred_not_heartbeat:
  "isWorkingDeferredTaskNotification m \<Longrightarrow> gatewayInboxClass m \<noteq> Heartbeat"
  by (auto simp: isWorkingDeferredTaskNotification_def gatewayInboxClass_def split: if_splits)

lemma takeAdmissible_cases:
  assumes "takeAdmissible env s = (t, d)"
  obtains (continuation) ys x zs where "ib_queue s = ys @ x # zs" "m_ref x \<in> ib_admitted s"
      "t = s\<lparr>ib_queue := ys @ zs, ib_admitted := ib_admitted s - {m_ref x}\<rparr>" "d = Some x"
      "\<forall>y \<in> set ys. m_ref y \<notin> ib_admitted s"
  | (idle) "t = s" "d = None" "\<forall>m \<in> set (ib_queue s). passed_over s m"
  | (notices) ys x zs where "ib_queue s = ys @ x # zs" "isWorkingDeferredTaskNotification x"
      "\<not> passed_over s x" "\<forall>y \<in> set ys. passed_over s y"
      "\<forall>y \<in> set (ib_queue s). m_ref y \<notin> ib_admitted s"
      "takeWorkingDeferredAdmission env s = (t, d)"
  | (row) ys x zs where "ib_queue s = ys @ x # zs" "\<not> isWorkingDeferredTaskNotification x"
      "\<forall>y \<in> set ys. passed_over s y" "\<forall>y \<in> set (ib_queue s). m_ref y \<notin> ib_admitted s"
      "d = Some x" "ib_work t \<longleftrightarrow> gatewayInboxClass x \<noteq> Heartbeat"
      "ib_queue t = (if gatewayInboxClass x = Heartbeat then filter (\<lambda>m. \<not> parked s m) (ys @ zs)
                     else ys @ zs)"
proof (cases "find_index (\<lambda>m. m_ref m \<in> ib_admitted s) (ib_queue s)")
  case (Some i)
  from find_index_remove_nth [OF this] obtain ys x zs where
    q: "ib_queue s = ys @ x # zs" "ib_queue s ! i = x" "remove_nth i (ib_queue s) = ys @ zs"
    "m_ref x \<in> ib_admitted s" "\<forall>y \<in> set ys. m_ref y \<notin> ib_admitted s" by metis
  with Some assms show ?thesis
    by (intro continuation [of ys x zs]) (auto simp: takeAdmissible_def Let_def)
next
  case None
  then have na: "\<forall>y \<in> set (ib_queue s). m_ref y \<notin> ib_admitted s" by (simp add: find_index_None)
  show ?thesis
  proof (cases "find_index (\<lambda>m. \<not> passed_over s m) (ib_queue s)")
    case N2: None
    with None assms have "t = s" "d = None" by (simp_all add: takeAdmissible_def)
    with N2 show ?thesis by (intro idle) (simp_all add: find_index_None)
  next
    case (Some i)
    from find_index_remove_nth [OF this] obtain ys x zs where
      q: "ib_queue s = ys @ x # zs" "ib_queue s ! i = x" "remove_nth i (ib_queue s) = ys @ zs"
      "\<not> passed_over s x" "\<forall>y \<in> set ys. passed_over s y" by metis
    have td: "(if isWorkingDeferredTaskNotification x then takeWorkingDeferredAdmission env s
        else let s' = s\<lparr>ib_queue := ys @ zs\<rparr> in
          if gatewayInboxClass x = Heartbeat
          then ((dropWorkingDeferred s')\<lparr>ib_work := False, ib_coalesced := 0\<rparr>, Some x)
          else (s'\<lparr>ib_work := True\<rparr>, Some x)) = (t, d)"
      using assms unfolding takeAdmissible_def None Some option.case Let_def q(2,3) .
    show ?thesis
    proof (cases "isWorkingDeferredTaskNotification x")
      case True
      with td q na show ?thesis by (intro notices [of ys x zs]) auto
    next
      case False
      with td q na show ?thesis
        by (intro row [of ys x zs]) (auto simp: Let_def parked_def split: if_splits)
    qed
  qed
qed

lemma takeAdmissible_inv [keeps]:
  assumes "inbox_inv s" "takeAdmissible env s = (t, d)"
  shows "inbox_inv t"
  using assms(2)
proof (cases rule: takeAdmissible_cases)
  case (continuation ys x zs)
  with assms(1) show ?thesis by (auto elim!: inbox_inv_remove)
next
  case (notices ys x zs)
  with assms(1) show ?thesis by (blast intro: takeWDA_inv)
next
  case (row ys x zs)
  have "inbox_inv (s\<lparr>ib_queue := ys @ zs\<rparr>)"
    using inbox_inv_remove [OF assms(1) row(1), of "s\<lparr>ib_queue := ys @ zs\<rparr>"] by simp
  then show ?thesis using row(7)
    by (cases "gatewayInboxClass x = Heartbeat")
      (auto elim: inbox_inv_filter inbox_inv_queue)
qed (use assms(1) in simp)

lemma ib_next_inv [keeps]: "inbox_inv s \<Longrightarrow> ib_next env s = (t, d) \<Longrightarrow> inbox_inv t"
  by (auto simp: ib_next_def split: prod.splits option.splits
      dest: takeAdmissible_inv elim: inbox_inv_queue)

lemma no_heartbeats: "heartbeats q = 0 \<longleftrightarrow> (\<forall>m \<in> set q. gatewayInboxClass m \<noteq> Heartbeat)"
  by (simp add: filter_empty_conv)

lemma tryPush_inv [keeps]:
  assumes "inbox_inv s" "m_ref m \<notin> set (refs (ib_queue s))" "tryPush env m s = (t, ok, d)"
  shows "inbox_inv t"
proof -
  let ?s = "s\<lparr>ib_version := ib_version s + 1\<rparr>"
  have s: "inbox_inv ?s" using assms(1) by (rule inbox_inv_queue) simp
  have e: "inbox_inv (enqueueMessage m ?s)"
    if "gatewayInboxClass m = Heartbeat \<Longrightarrow> heartbeats (ib_queue s) = 0"
    using enqueue_inv [OF s] assms(2) that by simp
  show ?thesis
  proof (cases "isWorkingDeferredTaskNotification m")
    case True
    then have "inbox_inv (enqueueMessage m ?s)" using e deferred_not_heartbeat by blast
    with True assms(1,3) show ?thesis
      by (auto simp: tryPush_def Let_def split: if_splits prod.splits option.splits
          dest: takeWDA_inv elim: inbox_inv_queue)
  next
    case False
    show ?thesis
    proof (cases "ib_waiting s")
      case True
      have "inbox_inv (dropWorkingDeferred u)" if "inbox_inv u" for u
        using that by (rule inbox_inv_filter) (rule dropWorkingDeferred_fields)
      with True False assms(1,3) show ?thesis
        by (auto simp: tryPush_def Let_def split: if_splits)
    next
      case False
      with \<open>\<not> isWorkingDeferredTaskNotification m\<close> assms(1,3) e show ?thesis
        by (auto simp: tryPush_def Let_def no_heartbeats split: if_splits elim: inbox_inv_queue)
    qed
  qed
qed

text \<open>
  The live operations: the channels push new messages, the agent loop takes them, the
  generation fence seals, drains and clears.  Replay to the front is not among them: it
  puts recovery work ahead of the order on purpose.
\<close>

inductive live_step :: "inbox \<Rightarrow> inbox \<Rightarrow> bool" where
  push: "m_ref m \<notin> set (refs (ib_queue s)) \<Longrightarrow> tryPush env m s = (t, ok, d) \<Longrightarrow> live_step s t"
| take: "ib_next env s = (t, d) \<Longrightarrow> live_step s t"
| seal: "live_step s (sealIngress s)"
| unseal: "live_step s (unsealIngress s)"
| drain: "drainForRecovery s = (t, ms, n) \<Longrightarrow> live_step s t"
| clear: "live_step s (ib_clear s)"

inductive live_inbox :: "inbox \<Rightarrow> bool" where
  new: "live_inbox new_inbox"
| step: "live_inbox s \<Longrightarrow> live_step s t \<Longrightarrow> live_inbox t"

inductive_cases live_stepE: "live_step s t"

lemma live_step_inv: "live_step s t \<Longrightarrow> inbox_inv s \<Longrightarrow> inbox_inv t"
proof (induction rule: live_step.induct)
  case (push m s env t ok d)
  then show ?case by (blast intro: tryPush_inv)
next
  case (take env s t d)
  then show ?case by (blast intro: ib_next_inv)
next
  case (drain s t ms n)
  then show ?case by (auto simp: drainForRecovery_def inbox_inv_def)
qed (auto simp: inbox_inv_def sealIngress_def unsealIngress_def ib_clear_def)

lemma live_inbox_inv: "live_inbox s \<Longrightarrow> inbox_inv s"
  by (induction rule: live_inbox.induct)
    (auto simp: inbox_inv_def new_inbox_def dest!: live_step_inv)


definition sample_message :: "nat \<Rightarrow> string \<Rightarrow> string \<Rightarrow> inbound_message" where
  "sample_message r src content = \<lparr>m_ref = r, m_id = [], m_source = Some src,
     m_content = JStr content, m_timestamp = 0, m_metadata = None\<rparr>"



subsection \<open>Parking during a work session\<close>

lemma held_parked: "m \<in> set (held_notices s) \<Longrightarrow> isWorkingDeferredTaskNotification m
    \<and> \<not> isConnectAlertNotificationContent (m_content m) \<and> m \<in> set (ib_queue s)
    \<and> m_ref m \<notin> ib_admitted s"
  by (simp add: held_notices_def parked_def)

lemma work_session_push:
  assumes "ib_work s" "snd (snd (tryPush env m s)) = Some d"
  shows "\<not> isWorkingDeferredTaskNotification d"
  using assms by (auto simp: tryPush_def Let_def split: if_splits)

lemma work_session_take:
  assumes "ib_work s" "snd (ib_next env s) = Some d"
  shows "m_ref d \<in> ib_admitted s \<or> \<not> isWorkingDeferredTaskNotification d"
proof -
  obtain t where "takeAdmissible env s = (t, Some d)"
    using assms(2) by (auto simp: ib_next_def split: prod.splits option.splits)
  then show ?thesis
    by (cases rule: takeAdmissible_cases) (use assms(1) in \<open>auto simp: passed_over_def\<close>)
qed

text \<open>
  While a work session is active (after a user or control turn, until the next
  heartbeat) no Pulse task notice and no alert reaches the agent: pushing one never
  resolves the waiting loop, and taking the next message never yields one, unless it is
  the continuation of a delivery that was already admitted.
\<close>

theorem work_session_holds_notices:
  assumes "ib_work s"
  shows "(snd (snd (tryPush env m s)) = Some d \<longrightarrow> \<not> isWorkingDeferredTaskNotification d)
    \<and> (snd (ib_next env s) = Some d \<longrightarrow>
         m_ref d \<in> ib_admitted s \<or> \<not> isWorkingDeferredTaskNotification d)"
  using work_session_push [OF assms] work_session_take [OF assms] by blast

definition assigned_notice :: inbound_message where
  "assigned_notice = sample_message 7 ''pulse'' ''[system] [Task Assigned] PLAT-12 fix it''"

lemma assigned_notice_parks: "isWorkingDeferredTaskNotification assigned_notice"
  by code_simp

lemma work_session_holds_notices_witness:
  "snd (ib_next (0, 0) (new_inbox\<lparr>ib_work := True, ib_queue := [assigned_notice]\<rparr>))
     \<noteq> Some assigned_notice"
proof
  let ?s = "new_inbox\<lparr>ib_work := True, ib_queue := [assigned_notice]\<rparr>"
  assume a: "snd (ib_next (0, 0) ?s) = Some assigned_notice"
  have "ib_work ?s" by simp
  from work_session_holds_notices [OF this] a assigned_notice_parks
  have "m_ref assigned_notice \<in> ib_admitted ?s" by blast
  then show False by (simp add: new_inbox_def)
qed

subsection \<open>No message is lost\<close>

lemma takeWDA_queue:
  assumes "takeWorkingDeferredAdmission env s = (t, d)" "distinct (refs (ib_queue s))"
    "m \<in> set (ib_queue s)" "\<not> parked s m"
  shows "m \<in> set (ib_queue t)"
proof (cases "held_notices s")
  case Nil
  with assms show ?thesis by (simp add: takeWorkingDeferredAdmission_def)
next
  case (Cons a as)
  have "m_ref m \<notin> m_ref ` set (held_notices s)"
  proof
    assume "m_ref m \<in> m_ref ` set (held_notices s)"
    then obtain h where h: "h \<in> set (held_notices s)" "m_ref h = m_ref m" by auto
    then have "h = m" using assms(2,3) held_parked by (metis distinct_map inj_onD)
    with h assms(4) show False by (simp add: held_notices_def)
  qed
  with assms Cons show ?thesis by (auto simp: takeWorkingDeferredAdmission_def Let_def)
qed

lemma enqueue_keeps:
  assumes "m \<in> set (ib_queue s)"
  shows "m \<in> set (ib_queue (enqueueMessage n s)) \<or>
     (m_ref m \<notin> ib_admitted s \<and> gatewayTaskNotificationKey m = gatewayTaskNotificationKey n
      \<and> gatewayInboxClass m = RoutineTask)"
  by (cases rule: enqueue_cases [of s n]) (use assms in auto)

lemma enqueue_adds: "n \<in> set (ib_queue (enqueueMessage n s))"
  by (cases rule: enqueue_cases [of s n]) auto

text \<open>
  No delivery is lost at the inbox: after a push, a queued message that is not a
  parked notice is still queued, unless the pushed message is a newer hint for the same
  task and has taken its place; after a take, it is still queued or is the message taken.
  Parked notices may be dropped or digested (Pulse keeps their state).
\<close>

theorem inbox_keeps_messages:
  assumes "live_inbox s" and "m \<in> set (ib_queue s)" and "\<not> parked s m"
    and "m_ref n \<notin> set (refs (ib_queue s))"
  shows "(tryPush env n s = (t, ok, d) \<longrightarrow>
            m \<in> set (ib_queue t)
            \<or> (gatewayInboxClass m = RoutineTask
               \<and> gatewayTaskNotificationKey m = gatewayTaskNotificationKey n))
    \<and> (ib_next env s = (u, e) \<longrightarrow> m \<in> set (ib_queue u) \<or> e = Some m)"
proof (intro conjI impI)
  have dist: "distinct (refs (ib_queue s))" using live_inbox_inv [OF assms(1)] by (simp add: inbox_inv_def)
  let ?s = "s\<lparr>ib_version := Suc (ib_version s)\<rparr>"
  let ?e = "enqueueMessage n ?s"
  have e: "m \<in> set (ib_queue ?e) \<or> (gatewayInboxClass m = RoutineTask
      \<and> gatewayTaskNotificationKey m = gatewayTaskNotificationKey n)"
    using enqueue_keeps [of m ?s n] assms(2) by auto
  have de: "distinct (refs (ib_queue ?e))" using enqueue_distinct [of ?s n] dist assms(4) by simp
  have pe: "parked ?e m = parked s m" by (simp add: parked_def)
  have wda: "m \<in> set (ib_queue v)"
    if "takeWorkingDeferredAdmission env ?e = (v, x)" "m \<in> set (ib_queue ?e)" for v x
    using takeWDA_queue [OF that(1) de that(2)] pe assms(3) by simp
  assume push: "tryPush env n s = (t, ok, d)"
  show "m \<in> set (ib_queue t) \<or> (gatewayInboxClass m = RoutineTask
      \<and> gatewayTaskNotificationKey m = gatewayTaskNotificationKey n)"
    using push e assms(2,3)
    by (auto simp: tryPush_def Let_def parked_def split: if_splits prod.splits option.splits
        dest!: wda)
next
  have dist: "distinct (refs (ib_queue s))" using live_inbox_inv [OF assms(1)] by (simp add: inbox_inv_def)
  assume "ib_next env s = (u, e)"
  then obtain v where v: "takeAdmissible env s = (v, e)" "ib_queue u = ib_queue v"
    by (auto simp: ib_next_def split: prod.splits option.splits)
  from v(1) show "m \<in> set (ib_queue u) \<or> e = Some m"
  proof (cases rule: takeAdmissible_cases)
    case (notices ys x zs)
    then show ?thesis using takeWDA_queue [OF _ dist assms(2,3)] v(2) by simp
  qed (use assms(2,3) v(2) in \<open>auto split: if_splits\<close>)
qed

lemma live_push_one:
  assumes "\<not> isWorkingDeferredTaskNotification m" "gatewayInboxClass m \<noteq> RoutineTask"
  shows "\<exists>s. live_inbox s \<and> ib_queue s = [m] \<and> ib_admitted s = {}"
proof -
  obtain t ok d where t: "tryPush (0, 0) m new_inbox = (t, ok, d)" by (metis prod_cases3)
  from t assms have "ib_queue t = [m] \<and> ib_admitted t = {}"
    by (auto simp: tryPush_def new_inbox_def enqueueMessage_def insert_by_priority_def
        duplicate_of_def Let_def split: option.splits if_splits)
  moreover have "live_inbox t"
    by (rule live_inbox.step [OF live_inbox.new live_step.push [OF _ t]]) (simp add: new_inbox_def)
  ultimately show ?thesis by blast
qed

text \<open>A live inbox that holds one cron message, for the witnesses.\<close>

definition cron_message :: inbound_message where
  "cron_message = sample_message 1 ''cron'' ''hi''"

lemma cron_message_class:
  "\<not> isWorkingDeferredTaskNotification cron_message" "gatewayInboxClass cron_message = Cron"
  by code_simp+

lemma cron_message_ref: "m_ref cron_message = 1"
  by (simp add: cron_message_def sample_message_def)

lemma inbox_keeps_messages_witness:
  "\<exists>s u e. live_inbox s \<and> cron_message \<in> set (ib_queue s) \<and> ib_next (0, 0) s = (u, e)
     \<and> (cron_message \<in> set (ib_queue u) \<or> e = Some cron_message)"
proof -
  obtain s where s: "live_inbox s" "ib_queue s = [cron_message]"
    using live_push_one cron_message_class by (metis inbox_class.distinct(11))
  obtain u e where u: "ib_next (0, 0) s = (u, e)" by force
  have "cron_message \<in> set (ib_queue s)" "\<not> parked s cron_message"
    "m_ref (sample_message 2 ''cron'' []) \<notin> set (refs (ib_queue s))"
    using s(2) cron_message_class by (auto simp: parked_def sample_message_def cron_message_def)
  note k = inbox_keeps_messages [OF s(1) this, where env = "(0, 0)" and u = u and e = e]
  show ?thesis using k u s by auto
qed

subsection \<open>Selection\<close>

lemma held_first:
  assumes "ib_queue s = ys @ x # zs" "isWorkingDeferredTaskNotification x" "\<not> passed_over s x"
    "\<forall>y \<in> set ys. passed_over s y" "\<forall>y \<in> set (ib_queue s). m_ref y \<notin> ib_admitted s"
  shows "\<exists>rest. held_notices s = x # rest"
proof -
  have "\<not> ib_work s" "\<not> isConnectAlertNotificationContent (m_content x)"
    using assms(2,3) by (auto simp: passed_over_def)
  moreover have "\<forall>y \<in> set ys. isConnectAlertNotificationContent (m_content y)"
    using assms(4) calculation by (auto simp: passed_over_def)
  ultimately show ?thesis using assms(1,2,5) by (auto simp: held_notices_def parked_def)
qed

lemma takeAdmissible_row:
  assumes "takeAdmissible env s = (t, Some d)" "\<forall>m \<in> set (ib_queue s). m_ref m \<notin> ib_admitted s"
    "m_ref d \<noteq> fst env"
  obtains ys zs where "ib_queue s = ys @ d # zs" "\<forall>y \<in> set ys. passed_over s y"
    "\<not> passed_over s d"
  using assms(1)
proof (cases rule: takeAdmissible_cases)
  case (continuation ys x zs)
  then show ?thesis using assms(2) by auto
next
  case (notices ys x zs)
  from held_first [OF notices(1-5)] obtain rest where "held_notices s = x # rest" by blast
  with notices(6) assms(3) have "d = x"
    by (auto simp: takeWorkingDeferredAdmission_def notification_digest_def Let_def
        split: if_splits)
  with notices show ?thesis using that by blast
next
  case (row ys x zs)
  then show ?thesis using that by (auto simp: passed_over_def)
qed auto

text \<open>
  The agent loop takes the best message: when no admitted delivery waits, the message
  taken (unless it is a freshly built digest) is the oldest admissible one of the highest
  class that has any: every message of a higher class, and every message of its own class
  queued before it, is a parked notice that must not be delivered now.
\<close>

theorem next_takes_best:
  assumes "live_inbox s" and "ib_next env s = (t, Some d)"
    and "\<forall>m \<in> set (ib_queue s). m_ref m \<notin> ib_admitted s" and "m_ref d \<noteq> fst env"
  shows "(\<forall>q \<in> set (ib_queue s). gatewayInboxPriority q < gatewayInboxPriority d
            \<longrightarrow> passed_over s q)
    \<and> (\<exists>rest. filter (\<lambda>q. gatewayInboxClass q = gatewayInboxClass d \<and> \<not> passed_over s q)
            (ib_queue s) = d # rest)"
proof -
  from assms(2) have "takeAdmissible env s = (t, Some d)"
    by (auto simp: ib_next_def split: prod.splits option.splits)
  from this assms(3,4) obtain ys zs where q: "ib_queue s = ys @ d # zs"
    "\<forall>y \<in> set ys. passed_over s y" "\<not> passed_over s d" by (rule takeAdmissible_row)
  moreover have "prio_sorted (ib_queue s)" using live_inbox_inv [OF assms(1)]
    by (simp add: inbox_inv_def)
  ultimately show ?thesis by (auto simp: sorted_append filter_empty_conv)
qed

lemma next_takes_best_witness:
  "\<exists>s rest. live_inbox s \<and> snd (ib_next (0, 0) s) = Some cron_message
     \<and> filter (\<lambda>q. gatewayInboxClass q = Cron \<and> \<not> passed_over s q) (ib_queue s)
       = cron_message # rest"
proof -
  obtain s where s: "live_inbox s" "ib_queue s = [cron_message]" "ib_admitted s = {}"
    using live_push_one cron_message_class by (metis inbox_class.distinct(11))
  have "snd (ib_next (0, 0) s) = Some cron_message"
    using s cron_message_class
    by (simp add: ib_next_def takeAdmissible_def passed_over_def Let_def)
  moreover from this obtain t where "ib_next (0, 0) s = (t, Some cron_message)"
    by (metis prod.collapse)
  ultimately show ?thesis
    using next_takes_best [of s "(0, 0)" t cron_message] s cron_message_class(2)
      cron_message_ref by auto
qed

subsection \<open>Recovery\<close>

text \<open>\<open>n\<close> successive calls of \<open>next()\<close>.\<close>

fun takes :: "ib_env \<Rightarrow> nat \<Rightarrow> inbox \<Rightarrow> inbox \<times> inbound_message option list" where
  "takes env 0 s = (s, [])"
| "takes env (Suc n) s = (case ib_next env s of (t, d) \<Rightarrow>
     (case takes env n t of (u, ds) \<Rightarrow> (u, d # ds)))"

lemma next_continuation:
  assumes "ib_queue s = m # q" "m_ref m \<in> ib_admitted s"
  shows "ib_next env s = (s\<lparr>ib_queue := q, ib_admitted := ib_admitted s - {m_ref m}\<rparr>, Some m)"
  using assms
  by (simp add: ib_next_def takeAdmissible_def Let_def remove_nth_def js_splice_def)

lemma takes_continuations:
  assumes "ib_queue s = ms @ q" "distinct (refs ms)" "set (refs ms) \<subseteq> ib_admitted s"
  shows "takes env (length ms) s =
    (s\<lparr>ib_queue := q, ib_admitted := ib_admitted s - set (refs ms)\<rparr>, map Some ms)"
  using assms
proof (induction ms arbitrary: s)
  case (Cons m ms)
  let ?t = "s\<lparr>ib_queue := ms @ q, ib_admitted := ib_admitted s - {m_ref m}\<rparr>"
  have "ib_next env s = (?t, Some m)" using Cons.prems by (intro next_continuation) auto
  moreover have "takes env (length ms) ?t =
      (?t\<lparr>ib_queue := q, ib_admitted := ib_admitted ?t - set (refs ms)\<rparr>, map Some ms)"
  proof (rule Cons.IH)
    show "set (refs ms) \<subseteq> ib_admitted ?t" using Cons.prems(2,3)
      by (auto simp: image_iff)
  qed (use Cons.prems in simp_all)
  moreover have "A - {a} - B = A - insert a B" for A B and a :: nat by auto
  ultimately show ?case by simp
qed simp

text \<open>
  Deferred deliveries resume exactly: when no turn waits, the deliveries put back by
  \<open>resumeAdmitted\<close> are the next ones taken, all of them, in their original order, ahead
  of every class and of the work-session rules, and the rest of the queue is untouched.
\<close>

theorem resume_redelivers:
  assumes "\<not> ib_waiting s" and "distinct (refs ms)"
  shows "snd (takes env (length ms) (fst (resumeAdmitted ms s))) = map Some ms
    \<and> ib_queue (fst (takes env (length ms) (fst (resumeAdmitted ms s)))) = ib_queue s"
proof -
  let ?s = "fst (resumeAdmitted ms s)"
  have "ib_queue ?s = ms @ ib_queue s" "set (refs ms) \<subseteq> ib_admitted ?s"
    using assms(1) by (auto simp: resumeAdmitted_def pushFront_def Let_def split: list.splits)
  from takes_continuations [OF this(1) assms(2) this(2)] show ?thesis by simp
qed

lemma resume_redelivers_witness:
  "snd (takes (0, 0) 2 (fst (resumeAdmitted [assigned_notice, cron_message]
      (new_inbox\<lparr>ib_work := True\<rparr>)))) = [Some assigned_notice, Some cron_message]"
  using resume_redelivers [of "new_inbox\<lparr>ib_work := True\<rparr>" "[assigned_notice, cron_message]" "(0, 0)"]
  by (simp add: new_inbox_def assigned_notice_def cron_message_def sample_message_def
      numeral_2_eq_2 split: prod.splits)

text \<open>The drained snapshot holds the queue, ordered by arrival.\<close>

lemma drain_arrival_order:
  "drainForRecovery s = (t, ms, n) \<Longrightarrow>
     mset ms = mset (ib_queue s) \<and> sorted (map (arrival_of s) ms) \<and> ib_queue t = []
     \<and> n = ib_coalesced s"
  by (auto simp: drainForRecovery_def by_key_sort_sorted)

end
