(* ===== verification/Json.thy ===== *)
theory Json
  imports Prelude
begin

text \<open>
  \<open>JSON.stringify\<close> on the JSON values of the prelude.  The property list of an object is
  in the order of \<open>Object.keys\<close>; \<open>undefined\<close> is skipped in an object, is \<open>null\<close> in an
  array and has no text of its own.
\<close>

definition hex_digit :: "nat \<Rightarrow> char" where
  "hex_digit n = char_of (if n < 10 then 48 + n else 87 + n)"

text \<open>A UTF-16 code unit as JSON writes it inside a string.\<close>

definition json_char :: "char \<Rightarrow> string" where
  "json_char c =
     (if code c = 34 then [char_of (92::nat), c]
      else if code c = 92 then [c, c]
      else if code c = 8 then [char_of (92::nat), CHR ''b'']
      else if code c = 12 then [char_of (92::nat), CHR ''f'']
      else if code c = 10 then [char_of (92::nat), CHR ''n'']
      else if code c = 13 then [char_of (92::nat), CHR ''r'']
      else if code c = 9 then [char_of (92::nat), CHR ''t'']
      else if code c < 32
      then [char_of (92::nat), CHR ''u'', CHR ''0'', CHR ''0'', hex_digit (code c div 16),
            hex_digit (code c mod 16)]
      else [c])"

definition quote :: string where
  "quote = [char_of (34::nat)]"

definition json_string :: "string \<Rightarrow> string" where
  "json_string s = quote @ concat (map json_char s) @ quote"

fun json_text :: "jsval \<Rightarrow> string option"
  and json_items :: "jsval list \<Rightarrow> string list"
  and json_props :: "jsobj \<Rightarrow> string list" where
  "json_text JUndef = None"
| "json_text JNull = Some ''null''"
| "json_text (JBool b) = Some (if b then ''true'' else ''false'')"
| "json_text (JNum n) = Some (show_int n)"
| "json_text (JStr s) = Some (json_string s)"
| "json_text (JArr vs) = Some (''['' @ js_join '','' (json_items vs) @ '']'')"
| "json_text (JObj ob) = Some (''{'' @ js_join '','' (json_props ob) @ ''}'')"
| "json_items [] = []"
| "json_items (v # vs) =
     (case json_text v of None \<Rightarrow> ''null'' | Some t \<Rightarrow> t) # json_items vs"
| "json_props [] = []"
| "json_props ((k, v) # ob) =
     (case json_text v of None \<Rightarrow> json_props ob
      | Some t \<Rightarrow> (json_string k @ '':'' @ t) # json_props ob)"

text \<open>\<open>String(v)\<close>\<close>

fun js_string :: "jsval \<Rightarrow> string"
  and js_elements :: "jsval list \<Rightarrow> string list" where
  "js_string JUndef = ''undefined''"
| "js_string JNull = ''null''"
| "js_string (JBool b) = (if b then ''true'' else ''false'')"
| "js_string (JNum n) = show_int n"
| "js_string (JStr s) = s"
| "js_string (JArr vs) = js_join '','' (js_elements vs)"
| "js_string (JObj ob) = ''[object Object]''"
| "js_elements [] = []"
| "js_elements (v # vs) = (if v = JUndef \<or> v = JNull then [] else js_string v) # js_elements vs"

end
