(* ===== verification/LoopDetector.thy ===== *)
theory LoopDetector
  imports Json JsRegex "HOL-Library.Word"
begin

text \<open>
  The loop detector of the agent loop, \<open>src/src/agent/loop-detector.ts\<close>: tool-name
  canonicalisation, the 32-bit hash of a call's input, and the three patterns (exact
  repeat, ping-pong, probe loop) over the last twenty calls.
\<close>

subsection \<open>Names and classification\<close>

text \<open>\<open>/^(mcp__)?[A-Za-z][A-Za-z0-9_-]*(__[A-Za-z0-9_-]+)*$/\<close>\<close>

abbreviation RNameChar :: re where
  "RNameChar \<equiv> RCls False [(65, 90), (97, 122), (48, 57), (95, 95), (45, 45)]"

definition valid_tool_name_re :: re where
  "valid_tool_name_re = RSeqs [RBol, ROpt (RGrp 1 (RLit ''mcp__'')),
     RCls False [(65, 90), (97, 122)], RStar RNameChar,
     RStar (RGrp 2 (RSeq (RLit ''__'') (RPlus RNameChar))), REol]"

text \<open>\<open>/^([A-Za-z0-9]+)(_\\1){2,}/\<close>\<close>

definition wrapup_re :: re where
  "wrapup_re = RSeqs [RBol, RGrp 1 (RPlus (RCls False [(65, 90), (97, 122), (48, 57)])),
     RRep 2 None (RGrp 2 (RSeq (RLit ''_'') (RRef 1)))]"

definition canonicalToolName :: "string \<Rightarrow> string" where
  "canonicalToolName tool_name =
     (let n = js_trim tool_name in
      if n = [] \<or> js_includes n ''()'' \<or> js_includes n ''{'' \<or> js_includes n ''=''
         \<or> re_test False RSpace n
      then ''garbled_tool''
      else if \<not> re_test False valid_tool_name_re n then ''garbled_tool''
      else if re_test False wrapup_re n then ''garbled_tool''
      else n)"

text \<open>\<open>/\\bpython3?\\s+-c\\b/\<close> and the three others of \<open>PROBE_PATTERNS\<close>.\<close>

definition probe_patterns :: "re list" where
  "probe_patterns =
     [RSeqs [RWordB, RLit ''python'', ROpt (RLit ''3''), RPlus RSpace, RLit ''-c'', RWordB],
      RSeqs [RWordB, RLit ''node'', RPlus RSpace, RLit ''-e'', RWordB],
      RSeqs [RWordB, RLit ''perl'', RPlus RSpace, RLit ''-e'', RWordB],
      RSeqs [RWordB, RLit ''ruby'', RPlus RSpace, RLit ''-e'', RWordB]]"

definition write_tool_names :: "string list" where
  "write_tool_names = [''write'', ''edit'', ''notebook_edit'', ''apply_patch'', ''multi_edit'']"

text \<open>\<open>classifyCall\<close>: whether the call is a probe, and whether it writes.\<close>

definition classifyCall :: "string \<Rightarrow> jsobj \<Rightarrow> bool \<times> bool" where
  "classifyCall tool_name input =
     (let cmd = (case js_get input ''command'' of JStr s \<Rightarrow> s | _ \<Rightarrow> []) in
      (tool_name = ''bash'' \<and> list_ex (\<lambda>r. re_test False r cmd) probe_patterns,
       tool_name \<in> set write_tool_names))"

definition isPulseGetMyWorkToolName :: "string \<Rightarrow> bool" where
  "isPulseGetMyWorkToolName nm = re_test True (RLit ''pulse_get_my_work'') nm"

subsection \<open>The hash\<close>

text \<open>\<open>hash = ((hash << 5) - hash) + char; hash |= 0\<close>, on signed 32-bit values.\<close>

definition hash_step :: "32 word \<Rightarrow> char \<Rightarrow> 32 word" where
  "hash_step h c = (push_bit 5 h - h) + of_nat (code c)"

definition digit36 :: "nat \<Rightarrow> char" where
  "digit36 k = char_of (if k < 10 then 48 + k else 87 + k)"

fun show36 :: "nat \<Rightarrow> string" where
  "show36 n = (if n < 36 then [digit36 n] else show36 (n div 36) @ [digit36 (n mod 36)])"

declare show36.simps [simp del]

definition simpleHash :: "string \<Rightarrow> string" where
  "simpleHash str = (let h = sint (foldl hash_step 0 str) in
     if h < 0 then ''-'' @ show36 (nat (- h)) else show36 (nat h))"

subsection \<open>The detector\<close>

record loop_config =
  warningThreshold :: nat
  breakThreshold :: nat
  probeLoopWarning :: nat
  probeLoopBreak :: nat

definition default_loop_config :: loop_config where
  "default_loop_config = \<lparr>warningThreshold = 3, breakThreshold = 5, probeLoopWarning = 5,
     probeLoopBreak = 8\<rparr>"

record call_record =
  cr_tool :: string
  cr_hash :: string
  cr_probe :: bool
  cr_write :: bool

record loop_detector =
  ld_history :: "call_record list"
  ld_config :: loop_config
  ld_nudges :: nat

datatype loop_verdict = LoopOk | LoopWarning | ProbeWarning | LoopBreak

definition new_detector :: "loop_config \<Rightarrow> loop_detector" where
  "new_detector cfg = \<lparr>ld_history = [], ld_config = cfg, ld_nudges = 0\<rparr>"

definition same_call :: "call_record \<Rightarrow> call_record \<Rightarrow> bool" where
  "same_call r q \<longleftrightarrow> cr_tool r = cr_tool q \<and> cr_hash r = cr_hash q"

text \<open>The three counts read the history from its end: their loops run over its reverse.\<close>

fun probe_loop :: "call_record list \<Rightarrow> nat \<Rightarrow> nat" where
  "probe_loop [] k = k"
| "probe_loop (r # rs) k =
     (if cr_write r then k
      else if cr_probe r then probe_loop rs (k + 1)
      else if 0 < k then k else probe_loop rs k)"

definition countTrailingProbes :: "call_record list \<Rightarrow> nat" where
  "countTrailingProbes h = probe_loop (rev h) 0"

fun repeat_loop :: "call_record \<Rightarrow> call_record list \<Rightarrow> nat" where
  "repeat_loop l [] = 0"
| "repeat_loop l (r # rs) = (if same_call r l then Suc (repeat_loop l rs) else 0)"

definition countTrailingRepeats :: "call_record list \<Rightarrow> nat" where
  "countTrailingRepeats h = (if h = [] then 0 else repeat_loop (last h) (rev h))"

fun ping_pong_loop :: "call_record \<Rightarrow> call_record \<Rightarrow> call_record list \<Rightarrow> nat" where
  "ping_pong_loop a b (cur # prev # rs) =
     (if same_call cur b \<and> same_call prev a then Suc (ping_pong_loop a b rs) else 0)"
| "ping_pong_loop a b _ = 0"

definition countPingPong :: "call_record list \<Rightarrow> nat" where
  "countPingPong h =
     (if length h < 4 then 0
      else let a = h ! (length h - 2); b = h ! (length h - 1) in
        if same_call a b then 0 else ping_pong_loop a b (rev h))"

definition call_of :: "string \<Rightarrow> jsobj \<Rightarrow> call_record" where
  "call_of tool_name input =
     (let canonical = canonicalToolName tool_name;
          hashed = (if isPulseGetMyWorkToolName canonical then [] else input);
          kind = classifyCall canonical input
      in \<lparr>cr_tool = canonical,
          cr_hash = simpleHash (case json_text (JObj hashed) of None \<Rightarrow> [] | Some s \<Rightarrow> s),
          cr_probe = fst kind, cr_write = snd kind\<rparr>)"

definition record_call :: "call_record \<Rightarrow> loop_detector \<Rightarrow> loop_detector \<times> loop_verdict" where
  "record_call r d0 =
     (let d = (if cr_write r then d0\<lparr>ld_nudges := 0\<rparr> else d0);
          h = js_slice_end 20 (ld_history d @ [r]);
          d = d\<lparr>ld_history := h\<rparr>;
          cfg = ld_config d;
          repeats = countTrailingRepeats h;
          pingpong = countPingPong h;
          probes = countTrailingProbes h
      in if breakThreshold cfg \<le> repeats then (d, LoopBreak)
         else if warningThreshold cfg \<le> repeats then (d, LoopWarning)
         else if breakThreshold cfg \<le> pingpong then (d, LoopBreak)
         else if warningThreshold cfg \<le> pingpong then (d, LoopWarning)
         else if probeLoopBreak cfg \<le> probes then (d, LoopBreak)
         else if probeLoopWarning cfg \<le> probes then
           (let d = d\<lparr>ld_nudges := ld_nudges d + 1\<rparr> in
            if 3 \<le> ld_nudges d then (d, LoopBreak) else (d, ProbeWarning))
         else (d\<lparr>ld_nudges := 0\<rparr>, LoopOk))"

text \<open>\<open>LoopDetector.record\<close>.\<close>

definition ld_record :: "string \<Rightarrow> jsobj \<Rightarrow> loop_detector \<Rightarrow> loop_detector \<times> loop_verdict" where
  "ld_record tool_name input d = record_call (call_of tool_name input) d"

definition ld_reset :: "loop_detector \<Rightarrow> loop_detector" where
  "ld_reset d = d\<lparr>ld_nudges := 0, ld_history := []\<rparr>"

text \<open>\<open>resetIfNoWrites\<close>: the calls are their optional names and their inputs.\<close>

fun resetIfNoWrites :: "(string option \<times> jsval) list \<Rightarrow> loop_detector \<Rightarrow> loop_detector" where
  "resetIfNoWrites [] d = d\<lparr>ld_history := []\<rparr>"
| "resetIfNoWrites ((nm, inp) # calls) d =
     (case nm of
        None \<Rightarrow> resetIfNoWrites calls d
      | Some n \<Rightarrow>
          if n = [] then resetIfNoWrites calls d
          else let input = (case inp of JObj ob \<Rightarrow> ob | _ \<Rightarrow> []) in
            if snd (classifyCall (canonicalToolName n) input) then d
            else resetIfNoWrites calls d)"

subsection \<open>The hash is the polynomial of the code units\<close>

lemma hash_step_poly: "hash_step h c = 31 * h + of_nat (code c)"
  by (simp add: hash_step_def push_bit_eq_mult)

lemma hash_poly: "foldl hash_step h s =
    31 ^ length s * h + (\<Sum>i<length s. 31 ^ (length s - Suc i) * of_nat (code (s ! i)))"
proof (induction s rule: rev_induct)
  case (snoc c s)
  have "(\<Sum>i<length s. 31 ^ (length (s @ [c]) - Suc i) * of_nat (code ((s @ [c]) ! i)) :: 32 word)
      = 31 * (\<Sum>i<length s. 31 ^ (length s - Suc i) * of_nat (code (s ! i)))"
    unfolding sum_distrib_left
  proof (rule sum.cong)
    fix i assume "i \<in> {..<length s}"
    then have "length (s @ [c]) - Suc i = Suc (length s - Suc i)" "i < length s" by auto
    then show "31 ^ (length (s @ [c]) - Suc i) * of_nat (code ((s @ [c]) ! i)) =
        (31 :: 32 word) * (31 ^ (length s - Suc i) * of_nat (code (s ! i)))"
      by (simp only: nth_append if_True power_Suc mult.assoc)
  qed simp
  with snoc show ?case
    by (simp add: hash_step_poly algebra_simps)
qed simp

subsection \<open>The counts\<close>

lemma same_call_equiv: "same_call r r" "same_call r q \<Longrightarrow> same_call q r"
  "same_call r q \<Longrightarrow> same_call q p \<Longrightarrow> same_call r p"
  by (auto simp: same_call_def)

lemma repeat_loop_ge:
  "k \<le> repeat_loop l rs \<longleftrightarrow> k \<le> length rs \<and> (\<forall>r \<in> set (take k rs). same_call r l)"
proof (induction rs arbitrary: k)
  case (Cons r rs)
  show ?case
  proof (cases k)
    case (Suc j)
    with Cons [of j] show ?thesis by auto
  qed simp
qed simp

text \<open>
  The repeat count reaches \<open>k\<close> exactly when the last \<open>k\<close> calls are the same call.
\<close>

lemma repeats_ge: "0 < k \<Longrightarrow> k \<le> countTrailingRepeats h \<longleftrightarrow>
    k \<le> length h \<and> (\<forall>r \<in> set (js_slice_end k h). same_call r (last h))"
proof (cases "h = []")
  case False
  then show "0 < k \<Longrightarrow> ?thesis"
    by (simp add: countTrailingRepeats_def repeat_loop_ge js_slice_end_def take_rev)
qed (simp add: countTrailingRepeats_def)


lemma probe_loop_ge: "k \<le> probe_loop rs k"
  by (induction rs k rule: probe_loop.induct) (auto intro: order_trans)

lemma probe_loop_none: "\<forall>r \<in> set rs. \<not> cr_probe r \<Longrightarrow> probe_loop rs 0 = 0"
  by (induction rs) auto

text \<open>Calls that neither probe nor write do not end the streak of the probes before them.\<close>

lemma probe_streak_survives_reads:
  "\<not> cr_write r \<Longrightarrow> \<not> cr_probe r \<Longrightarrow> countTrailingProbes (h @ [r]) = countTrailingProbes h"
  by (simp add: countTrailingProbes_def)

lemma slice_slice: "js_slice_end n (js_slice_end n xs @ ys) = js_slice_end n (xs @ ys)"
  by (cases "length xs \<le> n") (simp_all add: js_slice_end_def add.commute)

subsection \<open>Runs of the detector\<close>

lemma record_call_fields [simp]:
  "ld_history (fst (record_call r d)) = js_slice_end 20 (ld_history d @ [r])"
  "ld_config (fst (record_call r d)) = ld_config d"
  by (simp_all add: record_call_def Let_def)

text \<open>The detector after a list of calls, and the verdicts on them.\<close>

definition ld_records :: "(string \<times> jsobj) list \<Rightarrow> loop_detector \<Rightarrow> loop_detector" where
  "ld_records calls d = foldl (\<lambda>d (nm, inp). fst (ld_record nm inp d)) d calls"

fun verdicts :: "(string \<times> jsobj) list \<Rightarrow> loop_detector \<Rightarrow> loop_verdict list" where
  "verdicts [] d = []"
| "verdicts ((nm, inp) # calls) d =
     (case ld_record nm inp d of (d', v) \<Rightarrow> v # verdicts calls d')"

abbreviation call_sig :: "string \<times> jsobj \<Rightarrow> call_record" where
  "call_sig c \<equiv> call_of (fst c) (snd c)"

lemma ld_records_snoc:
  "ld_records (calls @ [c]) d = fst (ld_record (fst c) (snd c) (ld_records calls d))"
  by (simp add: ld_records_def split_beta)

lemma ld_records_config [simp]: "ld_config (ld_records calls d) = ld_config d"
  by (induction calls rule: rev_induct)
    (simp_all add: ld_records_snoc ld_record_def, simp add: ld_records_def)

lemma history_after:
  "js_slice_end 20 (ld_history (ld_records calls d) @ rs) =
     js_slice_end 20 (ld_history d @ map call_sig calls @ rs)"
  by (induction calls arbitrary: rs rule: rev_induct)
    (simp_all add: ld_records_snoc ld_record_def slice_slice, simp add: ld_records_def)

lemma slice_suffix: "k \<le> n \<Longrightarrow> k \<le> length ys \<Longrightarrow>
    js_slice_end k (js_slice_end n (xs @ ys)) = js_slice_end k ys"
  by (simp add: js_slice_end_def)

lemma break_by_repeats:
  "breakThreshold (ld_config d) \<le> countTrailingRepeats (js_slice_end 20 (ld_history d @ [r]))
     \<Longrightarrow> snd (record_call r d) = LoopBreak"
  by (auto simp: record_call_def Let_def)

lemma last_slice: "0 < n \<Longrightarrow> last (js_slice_end n (xs @ [r])) = r"
  by (simp add: js_slice_end_def Suc_diff_le)

lemma repeats_break:
  assumes "k = breakThreshold (ld_config d)" "k \<le> 20" "k \<le> Suc (length calls)"
    and "\<forall>c \<in> set calls. same_call (call_sig c) (call_sig q)"
  shows "snd (ld_record (fst q) (snd q) (ld_records calls d)) = LoopBreak"
proof -
  let ?h = "js_slice_end 20 (ld_history d @ map call_sig calls @ [call_sig q])"
  have "k \<le> countTrailingRepeats ?h"
  proof (cases "k = 0")
    case False
    have s: "js_slice_end k ?h = js_slice_end k (map call_sig calls @ [call_sig q])"
      by (rule slice_suffix) (use assms in auto)
    have l: "last ?h = call_sig q" using last_slice [of 20 "ld_history d @ map call_sig calls"] by simp
    have "same_call r (call_sig q)" if "r \<in> set (js_slice_end k (map call_sig calls @ [call_sig q]))" for r
      using subsetD [OF set_js_slice_end that] assms(4) by (auto simp: same_call_equiv(1))
    with False assms(2,3) s l show ?thesis by (simp add: repeats_ge)
  qed simp
  then show ?thesis unfolding ld_record_def
    by (intro break_by_repeats) (use assms(1) in \<open>simp add: history_after\<close>)
qed

lemma slice_split: "length ys \<le> n \<Longrightarrow> \<exists>us. js_slice_end n (xs @ ys) = us @ ys"
  by (rule exI [of _ "js_slice_end (n - length ys) xs"]) (simp add: js_slice_end_def)

lemma alternating_snoc:
  "concat (replicate k [x, y]) @ x # y # zs = x # y # concat (replicate k [x, y]) @ zs"
  by (induction k) simp_all

lemma alternating_snoc0:
  "concat (replicate k [x, y]) @ [x, y] = x # y # concat (replicate k [x, y])"
  by (induction k) simp_all

lemma rev_alternating: "rev (concat (replicate k [x, y])) = concat (replicate k [y, x])"
  by (induction k) (simp_all add: alternating_snoc0)

lemma ping_pong_loop_alternating:
  "k \<le> ping_pong_loop x y (concat (replicate k [y, x]) @ rs)"
  by (induction k) (simp_all add: same_call_equiv(1))

lemma alternating_break:
  assumes "k = breakThreshold (ld_config d)" "k \<le> 10" "2 \<le> warningThreshold (ld_config d)"
  shows "snd (ld_record (fst b) (snd b) (ld_records (concat (replicate (k - 1) [a, b]) @ [a]) d))
           = LoopBreak"
proof (cases "2 \<le> k \<and> \<not> same_call (call_sig a) (call_sig b)")
  case False
  show ?thesis
  proof (cases "2 \<le> k")
    case True
    with False have "same_call (call_sig a) (call_sig b)" by blast
    then show ?thesis using assms True
      by (intro repeats_break [OF assms(1)])
        (auto simp: same_call_equiv(1) set_replicate_conv_if length_concat sum_list_replicate)
  next
    case False
    have "0 < countTrailingRepeats (js_slice_end 20 (h @ [r]))" for h r
      using repeats_ge [of 1 "js_slice_end 20 (h @ [r])"] last_slice [of 20 h r]
      by (auto simp: js_slice_end_def Suc_diff_le same_call_equiv(1) Suc_le_eq)
    with False assms(1) show ?thesis unfolding ld_record_def
      by (intro break_by_repeats) (auto simp: not_le less_2_cases_iff Suc_le_eq)
  qed
next
  case True
  let ?zs = "concat (replicate k [call_sig a, call_sig b])"
  let ?d = "ld_records (concat (replicate (k - 1) [a, b]) @ [a]) d"
  obtain j where k: "k = Suc (Suc j)" using True by (metis Suc_le_D numeral_2_eq_2 Suc_le_mono)
  have z: "map call_sig (concat (replicate (k - 1) [a, b]) @ [a]) @ [call_sig b] = ?zs"
    by (simp add: k map_concat alternating_snoc0)
  have "length ?zs \<le> 20" using assms(2) by (simp add: length_concat sum_list_replicate)
  then obtain us where h: "js_slice_end 20 (ld_history ?d @ [call_sig b]) = us @ ?zs"
    using slice_split [of ?zs 20 "ld_history d"] unfolding history_after z by blast
  have rz: "rev (us @ ?zs) = concat (replicate k [call_sig b, call_sig a]) @ rev us"
    by (simp add: rev_alternating)
  have e: "us @ ?zs = (us @ concat (replicate j [call_sig a, call_sig b]))
      @ [call_sig a, call_sig b, call_sig a, call_sig b]" (is "_ = ?vs @ _")
    by (simp add: k alternating_snoc alternating_snoc0)
  have "countPingPong (us @ ?zs) = ping_pong_loop (call_sig a) (call_sig b) (rev (us @ ?zs))"
    unfolding e using True by (simp add: countPingPong_def nth_append Let_def)
  then have "k \<le> countPingPong (us @ ?zs)"
    unfolding rz using ping_pong_loop_alternating by simp
  moreover have "countTrailingRepeats (us @ ?zs) = 1"
    unfolding e using True by (simp add: countTrailingRepeats_def same_call_equiv(1))
  ultimately show ?thesis using assms(1,3) True h
    by (auto simp: ld_record_def record_call_def Let_def)
qed


text \<open>
  Stuck loops stop.  From any state of the detector, repeating one call (same
  canonical name, same input hash) as often as the break threshold, or alternating
  between two calls that often, makes the verdict of the last call \<open>break\<close>, as long as
  the twenty calls of the history can hold the pattern.
\<close>

theorem stuck_loops_break:
  assumes "k = breakThreshold (ld_config d)"
  shows "(k \<le> 20 \<and> k \<le> Suc (length calls)
            \<and> (\<forall>c \<in> set calls. same_call (call_sig c) (call_sig q))
            \<longrightarrow> snd (ld_record (fst q) (snd q) (ld_records calls d)) = LoopBreak)
    \<and> (k \<le> 10 \<and> 2 \<le> warningThreshold (ld_config d)
            \<longrightarrow> snd (ld_record (fst b) (snd b)
                  (ld_records (concat (replicate (k - 1) [a, b]) @ [a]) d)) = LoopBreak)"
  using repeats_break [OF assms] alternating_break [OF assms] by blast

lemma call_of_fields [simp]:
  "cr_tool (call_of nm inp) = canonicalToolName nm"
  "cr_probe (call_of nm inp) = fst (classifyCall (canonicalToolName nm) inp)"
  "cr_write (call_of nm inp) = snd (classifyCall (canonicalToolName nm) inp)"
  by (simp_all add: call_of_def Let_def)

text \<open>
  The listing of the work queue with \<open>{}\<close> and with \<open>{limit: 40}\<close> is one call, and every
  garbled name is one tool.
\<close>

definition get_my_work :: string where
  "get_my_work = ''mcp__shizuha-pulse__pulse_get_my_work''"

lemma get_my_work_listing:
  "same_call (call_sig (get_my_work, [(''limit'', JNum 40)])) (call_sig (get_my_work, []))"
proof -
  have "isPulseGetMyWorkToolName (canonicalToolName get_my_work)" by code_simp
  then show ?thesis by (simp add: same_call_def call_of_def Let_def)
qed

lemma stuck_loops_break_witness:
  "snd (ld_record get_my_work []
     (ld_records (replicate 4 (get_my_work, [(''limit'', JNum 40)]))
        (new_detector default_loop_config))) = LoopBreak"
  using stuck_loops_break [OF refl, of "new_detector default_loop_config"
      "replicate 4 (get_my_work, [(''limit'', JNum 40)])" "(get_my_work, [])"]
    get_my_work_listing
  by (simp add: new_detector_def default_loop_config_def)

subsection \<open>No false alarm\<close>

lemma ping_pong_loop_one:
  "\<not> same_call z b \<Longrightarrow> ping_pong_loop a b (y # x # z # rs) \<le> 1"
  by (cases rs) simp_all

text \<open>
  Varied work is never interrupted: a call that differs from the previous call and
  from the one before it gets the verdict \<open>ok\<close>, whatever came earlier, when no call of
  the window is an inline probe and the thresholds are at least two (one for probes).
\<close>

theorem varied_call_ok:
  assumes "ld_history d = h @ [p2, p1]" and "r = call_of nm inp"
    and "\<not> same_call p1 r" and "\<not> same_call p2 r"
    and "\<forall>c \<in> set (ld_history d @ [r]). \<not> cr_probe c"
    and "2 \<le> warningThreshold (ld_config d)" "2 \<le> breakThreshold (ld_config d)"
    and "1 \<le> probeLoopWarning (ld_config d)" "1 \<le> probeLoopBreak (ld_config d)"
  shows "snd (ld_record nm inp d) = LoopOk"
proof -
  obtain us where us: "js_slice_end 20 (ld_history d @ [r]) = us @ [p2, p1, r]"
    using slice_split [of "[p2, p1, r]" 20 h] assms(1) by auto
  have "set (us @ [p2, p1, r]) \<subseteq> set (ld_history d @ [r])"
    by (metis us set_js_slice_end)
  then have "countTrailingProbes (us @ [p2, p1, r]) = 0"
    unfolding countTrailingProbes_def using assms(5) by (intro probe_loop_none) auto
  moreover have "countTrailingRepeats (us @ [p2, p1, r]) = 1"
    using assms(3) by (simp add: countTrailingRepeats_def same_call_equiv(1))
  moreover have "countPingPong (us @ [p2, p1, r]) \<le> 1"
    using ping_pong_loop_one [OF assms(4), of p1 r p1 "rev us"]
    by (simp add: countPingPong_def nth_append)
  ultimately show ?thesis
    using assms(6-9) us unfolding ld_record_def assms(2) [symmetric]
    by (auto simp: record_call_def Let_def)
qed

lemma varied_call_ok_witness:
  "snd (ld_record ''read'' [] ((new_detector default_loop_config)\<lparr>ld_history :=
     [call_of ''edit'' [], call_of ''bash'' []]\<rparr>)) = LoopOk"
proof -
  have d: "\<not> same_call (call_of ''bash'' []) (call_of ''read'' [])"
    "\<not> same_call (call_of ''edit'' []) (call_of ''read'' [])"
    "\<not> cr_probe (call_of ''bash'' [])" "\<not> cr_probe (call_of ''edit'' [])"
    "\<not> cr_probe (call_of ''read'' [])"
    unfolding same_call_def call_of_fields by code_simp+
  let ?d = "(new_detector default_loop_config)\<lparr>ld_history :=
     [call_of ''edit'' [], call_of ''bash'' []]\<rparr>"
  have h: "ld_history ?d = [] @ [call_of ''edit'' [], call_of ''bash'' []]" by simp
  show ?thesis
    by (rule varied_call_ok [OF h refl d(1,2)])
      (use d in \<open>simp_all add: new_detector_def default_loop_config_def\<close>)
qed

subsection \<open>The nudge-forever guard\<close>

lemma record_call_nudges:
  assumes "record_call r d = (d', v)" "\<not> cr_write r" "v \<noteq> LoopOk"
  shows "ld_nudges d' = ld_nudges d \<and> v \<noteq> ProbeWarning
    \<or> ld_nudges d' = Suc (ld_nudges d) \<and> (v = ProbeWarning \<longrightarrow> ld_nudges d' < 3)"
  using assms by (auto simp: record_call_def Let_def split: if_splits)

text \<open>
  No endless nudging: over any stretch of calls that writes no file and never gets
  the verdict \<open>ok\<close>, at most two verdicts are probe warnings, however long it is; from the
  third on the detector breaks.
\<close>

theorem nudges_bounded:
  assumes "\<forall>c \<in> set calls. \<not> cr_write (call_sig c)" and "LoopOk \<notin> set (verdicts calls d)"
  shows "length (filter (\<lambda>v. v = ProbeWarning) (verdicts calls d)) \<le> 2 - ld_nudges d"
  using assms
proof (induction calls d rule: verdicts.induct)
  case (2 nm inp calls d)
  obtain d' v where dv: "ld_record nm inp d = (d', v)" by force
  then have r: "record_call (call_of nm inp) d = (d', v)" by (simp add: ld_record_def)
  from record_call_nudges [OF r] 2(2,3) 2(1) [OF dv [symmetric]] dv
  show ?case by auto
qed simp


lemma nudges_bounded_witness:
  "length (filter (\<lambda>v. v = ProbeWarning) (verdicts [(''bash'', []), (''bash'', [])]
     \<lparr>ld_history = [call_of ''bash'' []], ld_config = default_loop_config\<lparr>warningThreshold := 1\<rparr>,
      ld_nudges = 0\<rparr>)) \<le> 2"
proof -
  let ?d = "\<lparr>ld_history = [call_of ''bash'' []], ld_config = default_loop_config\<lparr>warningThreshold := 1\<rparr>,
      ld_nudges = 0\<rparr>"
  have "\<not> cr_write (call_of ''bash'' [])" unfolding call_of_fields by code_simp
  moreover have "LoopOk \<notin> set (verdicts [(''bash'', []), (''bash'', [])] ?d)"
    by (simp add: ld_record_def record_call_def Let_def js_slice_end_def default_loop_config_def
        countTrailingRepeats_def same_call_equiv(1))
  ultimately show ?thesis
    using nudges_bounded [of "[(''bash'', []), (''bash'', [])]" ?d] by simp
qed

end
