(* ===== verification/ToolLoopGuard.thy ===== *)
theory ToolLoopGuard
  imports Json JsRegex
begin

text \<open>
  The turn-level loop guards, \<open>src/src/agent/tool-loop-guard.ts\<close>: the canonical text and
  the signature of tool calls, the policy for repeated turns, and the no-progress guard.
\<close>

subsection \<open>Signatures\<close>

record tool_call =
  tc_name :: string
  tc_input :: jsval

record tool_result =
  tr_isError :: bool

text \<open>A template string and a join write an absent text in these two ways.\<close>

definition in_template :: "string option \<Rightarrow> string" where
  "in_template t = (case t of None \<Rightarrow> ''undefined'' | Some s \<Rightarrow> s)"

definition in_join :: "string option \<Rightarrow> string" where
  "in_join t = (case t of None \<Rightarrow> [] | Some s \<Rightarrow> s)"

definition prop_text :: "string \<times> string option \<Rightarrow> string" where
  "prop_text p = json_string (fst p) @ '':'' @ in_template (snd p)"

text \<open>The properties of an object are written in the order of their keys.\<close>

fun stableStringify :: "jsval \<Rightarrow> string option"
  and stable_items :: "jsval list \<Rightarrow> string option list"
  and stable_props :: "jsobj \<Rightarrow> (string \<times> string option) list" where
  "stableStringify (JArr vs) = Some (''['' @ js_join '','' (map in_join (stable_items vs)) @ '']'')"
| "stableStringify (JObj ob) =
     Some (''{'' @ js_join '','' (map prop_text (sort_key fst (stable_props ob))) @ ''}'')"
| "stableStringify JUndef = json_text JUndef"
| "stableStringify JNull = json_text JNull"
| "stableStringify (JBool b) = json_text (JBool b)"
| "stableStringify (JNum n) = json_text (JNum n)"
| "stableStringify (JStr s) = json_text (JStr s)"
| "stable_items [] = []"
| "stable_items (v # vs) = stableStringify v # stable_items vs"
| "stable_props [] = []"
| "stable_props ((k, v) # ob) = (k, stableStringify v) # stable_props ob"

text \<open>\<open>tc.input ?? {}\<close>\<close>

definition call_input :: "tool_call \<Rightarrow> jsval" where
  "call_input tc = (case tc_input tc of JUndef \<Rightarrow> JObj [] | JNull \<Rightarrow> JObj [] | v \<Rightarrow> v)"

definition call_text :: "tool_call \<Rightarrow> string" where
  "call_text tc = tc_name tc @ '':'' @ in_template (stableStringify (call_input tc))"

definition toolCallSignature :: "tool_call list \<Rightarrow> string" where
  "toolCallSignature tcs = js_join ''|'' (sort (map call_text tcs))"

subsection \<open>Repeated turns\<close>

text \<open>\<open>/invalid_type|Required|received.?undefined/i\<close>\<close>

definition empty_args_re :: re where
  "empty_args_re = RAlts [RLit ''invalid_type'', RLit ''Required'',
     RSeqs [RLit ''received'', ROpt RDot, RLit ''undefined'']]"

definition isEmptyToolArgsError :: "string option \<Rightarrow> bool" where
  "isEmptyToolArgsError err = re_test True empty_args_re (case err of None \<Rightarrow> [] | Some s \<Rightarrow> s)"

definition empty_input :: "jsval \<Rightarrow> bool" where
  "empty_input v = (case v of
      JUndef \<Rightarrow> True | JNull \<Rightarrow> True
    | JObj ob \<Rightarrow> ob = [] | JArr vs \<Rightarrow> vs = [] | _ \<Rightarrow> False)"

definition toolCallsHaveEmptyArgs :: "tool_call list \<Rightarrow> bool" where
  "toolCallsHaveEmptyArgs tcs \<longleftrightarrow> tcs \<noteq> [] \<and> (\<forall>tc \<in> set tcs. empty_input (tc_input tc))"

datatype loop_action = NoAction | Nudge | Stop

datatype loop_kind = NoKind | SuccessRepeat | ErrorRepeat | EmptyArgs

record loop_limits =
  errorNudgeAt :: nat
  errorStopAt :: nat
  emptyArgsStopAt :: nat
  successNudgeAt :: nat

definition default_limits :: loop_limits where
  "default_limits = \<lparr>errorNudgeAt = 2, errorStopAt = 6, emptyArgsStopAt = 4, successNudgeAt = 3\<rparr>"

record turn =
  tn_calls :: "tool_call list"
  tn_error :: bool
  tn_errorContent :: "string option"

text \<open>What the caller carries from turn to turn, with the verdict of the turn.\<close>

record repeat_verdict =
  lv_action :: loop_action
  lv_kind :: loop_kind
  lv_count :: nat
  lv_prev :: "string option"

definition staged :: "nat \<Rightarrow> nat \<Rightarrow> nat \<Rightarrow> loop_action" where
  "staged nudge stop n = (if stop \<le> n then Stop else if nudge \<le> n then Nudge else NoAction)"

definition evaluateRepeatedToolLoop ::
  "loop_limits \<Rightarrow> turn \<Rightarrow> string option \<Rightarrow> nat \<Rightarrow> repeat_verdict" where
  "evaluateRepeatedToolLoop lim t previousSignature previousCount =
     (if tn_calls t = []
      then \<lparr>lv_action = NoAction, lv_kind = NoKind, lv_count = 0, lv_prev = None\<rparr>
      else
        let sig = toolCallSignature (tn_calls t);
            n = (if previousSignature = Some sig then previousCount + 1 else 1);
            emptyArgs = (tn_error t \<and>
              (isEmptyToolArgsError (tn_errorContent t) \<or> toolCallsHaveEmptyArgs (tn_calls t)))
        in if emptyArgs
           then \<lparr>lv_action = staged (errorNudgeAt lim) (emptyArgsStopAt lim) n,
                 lv_kind = EmptyArgs, lv_count = n, lv_prev = Some sig\<rparr>
           else if tn_error t
           then \<lparr>lv_action = staged (errorNudgeAt lim) (errorStopAt lim) n,
                 lv_kind = ErrorRepeat, lv_count = n, lv_prev = Some sig\<rparr>
           else \<lparr>lv_action = (if successNudgeAt lim \<le> n then Nudge else NoAction),
                 lv_kind = SuccessRepeat, lv_count = n, lv_prev = Some sig\<rparr>)"

definition turnHadToolError :: "tool_result list option \<Rightarrow> bool" where
  "turnHadToolError results = (case results of None \<Rightarrow> False | Some rs \<Rightarrow> list_ex tr_isError rs)"

subsection \<open>The no-progress guard\<close>

record no_progress_guard =
  np_seen :: "string set"
  np_turns :: nat
  np_threshold :: nat

definition new_guard :: "nat \<Rightarrow> no_progress_guard" where
  "new_guard threshold = \<lparr>np_seen = {}, np_turns = 0, np_threshold = threshold\<rparr>"

fun see_calls :: "tool_call list \<Rightarrow> string set \<Rightarrow> bool \<Rightarrow> string set \<times> bool" where
  "see_calls [] seen allSeen = (seen, allSeen)"
| "see_calls (tc # tcs) seen allSeen =
     (let sig = toolCallSignature [tc] in
      if sig \<in> seen then see_calls tcs seen allSeen
      else see_calls tcs (insert sig seen) False)"

text \<open>\<open>record()\<close>: the result is whether the run is stuck.\<close>

definition np_record :: "tool_call list \<Rightarrow> no_progress_guard \<Rightarrow> no_progress_guard \<times> bool" where
  "np_record tcs g =
     (if tcs = [] then (g\<lparr>np_turns := 0\<rparr>, False)
      else case see_calls tcs (np_seen g) True of (seen, allSeen) \<Rightarrow>
        let n = (if allSeen then np_turns g + 1 else 0) in
        (g\<lparr>np_seen := seen, np_turns := n\<rparr>, np_threshold g \<le> n))"

subsection \<open>The signature forgets only order\<close>

text \<open>Equality of inputs up to the order of properties, at every depth.\<close>

inductive same_json :: "jsval \<Rightarrow> jsval \<Rightarrow> bool" where
  refl: "same_json v v"
| arr: "list_all2 same_json vs ws \<Longrightarrow> same_json (JArr vs) (JArr ws)"
| obj: "list_all2 (\<lambda>p q. fst p = fst q \<and> same_json (snd p) (snd q)) ob ob'
        \<Longrightarrow> mset ob' = mset ob'' \<Longrightarrow> distinct (map fst ob'') \<Longrightarrow> same_json (JObj ob) (JObj ob'')"

lemma stable_items_map: "stable_items vs = map stableStringify vs"
  by (induction vs) simp_all

lemma stable_props_map: "stable_props ob = map (\<lambda>p. (fst p, stableStringify (snd p))) ob"
  by (induction ob) auto

lemma sort_key_perm:
  assumes "mset xs = mset ys" "distinct (map f ys)"
  shows "sort_key f xs = sort_key f ys"
proof (rule sort_key_inj_key_eq)
  show "inj_on f (set xs)" using assms by (metis distinct_map mset_eq_setD)
qed (simp_all add: assms(1))

lemma stable_same: "same_json v w \<Longrightarrow> stableStringify v = stableStringify w"
proof (induction rule: same_json.induct)
  case (arr vs ws)
  then have "stable_items vs = stable_items ws"
    unfolding stable_items_map by (induction rule: list_all2_induct) auto
  then show ?case by simp
next
  case (obj ob ob' ob'')
  from obj(1) have "stable_props ob = stable_props ob'"
    unfolding stable_props_map by (induction rule: list_all2_induct) auto
  moreover have "sort_key fst (stable_props ob') = sort_key fst (stable_props ob'')"
  proof (rule sort_key_perm)
    show "mset (stable_props ob') = mset (stable_props ob'')"
      unfolding stable_props_map using obj(2) by (metis mset_map)
    show "distinct (map fst (stable_props ob''))"
      unfolding stable_props_map using obj(3) by (simp add: comp_def)
  qed
  ultimately show ?case by simp
qed simp

text \<open>Two calls are the same when their names agree and their inputs do up to order.\<close>

definition same_tool_call :: "tool_call \<Rightarrow> tool_call \<Rightarrow> bool" where
  "same_tool_call a b \<longleftrightarrow> tc_name a = tc_name b \<and> same_json (call_input a) (call_input b)"

lemma call_text_same: "same_tool_call a b \<Longrightarrow> call_text a = call_text b"
  unfolding same_tool_call_def call_text_def by (metis stable_same)

lemma signature_mset: "image_mset call_text (mset as) = image_mset call_text (mset bs)
    \<Longrightarrow> toolCallSignature as = toolCallSignature bs"
  unfolding toolCallSignature_def
  by (metis mset_map properties_for_sort sorted_sort mset_sort)

text \<open>
  The signature of a turn depends on what is called, not on how it is written:
  reordering the calls of the turn, and reordering the properties of any object inside
  their inputs, leave it unchanged, so such a turn counts as a repeat.
\<close>

theorem signature_order_independent:
  assumes "list_all2 same_tool_call as bs" and "mset bs = mset cs"
  shows "toolCallSignature as = toolCallSignature cs"
proof (rule signature_mset)
  from assms(1) have "map call_text as = map call_text bs"
    by (induction rule: list_all2_induct) (simp_all add: call_text_same)
  then show "image_mset call_text (mset as) = image_mset call_text (mset cs)"
    by (metis assms(2) mset_map)
qed

definition read_call :: "(string \<times> jsval) list \<Rightarrow> tool_call" where
  "read_call ob = \<lparr>tc_name = ''read'', tc_input = JObj ob\<rparr>"

lemma signature_order_independent_witness:
  "toolCallSignature [read_call [(''path'', JStr ''a''), (''limit'', JNum 4)], read_call []]
   = toolCallSignature [read_call [], read_call [(''limit'', JNum 4), (''path'', JStr ''a'')]]"
proof (rule signature_order_independent)
  have "same_json (JObj [(''path'', JStr ''a''), (''limit'', JNum 4)])
      (JObj [(''limit'', JNum 4), (''path'', JStr ''a'')])"
    by (rule same_json.obj [of _ "[(''path'', JStr ''a''), (''limit'', JNum 4)]"])
      (auto intro: same_json.refl)
  then show "list_all2 same_tool_call
      [read_call [(''path'', JStr ''a''), (''limit'', JNum 4)], read_call []]
      [read_call [(''limit'', JNum 4), (''path'', JStr ''a'')], read_call []]"
    by (simp add: same_tool_call_def read_call_def call_input_def same_json.refl)
qed simp

subsection \<open>The policy over turns\<close>

text \<open>The caller feeds the count and the signature of a verdict into the next turn.\<close>

fun run_turns :: "loop_limits \<Rightarrow> turn list \<Rightarrow> string option \<Rightarrow> nat \<Rightarrow> repeat_verdict list" where
  "run_turns lim [] prev n = []"
| "run_turns lim (t # ts) prev n =
     (let v = evaluateRepeatedToolLoop lim t prev n
      in v # run_turns lim ts (lv_prev v) (lv_count v))"

definition empty_args_turn :: "turn \<Rightarrow> bool" where
  "empty_args_turn t \<longleftrightarrow>
     isEmptyToolArgsError (tn_errorContent t) \<or> toolCallsHaveEmptyArgs (tn_calls t)"

text \<open>What the policy promises for the \<open>n\<close>-th turn in a row that fails with the same calls.\<close>

definition failing_action :: "loop_limits \<Rightarrow> turn \<Rightarrow> nat \<Rightarrow> loop_action" where
  "failing_action lim t n = staged (errorNudgeAt lim)
     (if empty_args_turn t then emptyArgsStopAt lim else errorStopAt lim) n"

lemma failing_turn:
  assumes "tn_calls t \<noteq> []" "tn_error t" "sig = toolCallSignature (tn_calls t)"
  shows "lv_action (evaluateRepeatedToolLoop lim t prev n)
      = failing_action lim t (if prev = Some sig then Suc n else 1)"
    and "lv_count (evaluateRepeatedToolLoop lim t prev n) = (if prev = Some sig then Suc n else 1)"
    and "lv_prev (evaluateRepeatedToolLoop lim t prev n) = Some sig"
  using assms by (simp_all add: evaluateRepeatedToolLoop_def Let_def failing_action_def
    empty_args_turn_def)

lemma failing_run:
  assumes "tn_calls t \<noteq> []" "tn_error t" "sig = toolCallSignature (tn_calls t)"
  shows "map lv_action (run_turns lim (replicate k t) (Some sig) n)
       = map (failing_action lim t) [Suc n..<Suc n + k]"
proof (induction k arbitrary: n)
  case (Suc k)
  have "[Suc n..<Suc n + Suc k] = Suc n # [Suc (Suc n)..<Suc (Suc n) + k]"
    by (simp add: upt_conv_Cons del: upt_Suc)
  with Suc [of "Suc n"] show ?case
    by (simp add: Let_def failing_turn [OF assms] del: upt_Suc)
qed simp

text \<open>
  The repeat policy: a turn without tool calls ends the tracking; a turn whose calls
  succeeded is never stopped, whatever was counted before; and a turn that keeps failing
  with the same calls is nudged and stopped exactly at the limits, counted from the first
  of the run.
\<close>

theorem repeat_policy:
  "(tn_calls t = [] \<longrightarrow> evaluateRepeatedToolLoop lim t prev n =
       \<lparr>lv_action = NoAction, lv_kind = NoKind, lv_count = 0, lv_prev = None\<rparr>)
   \<and> (\<not> tn_error t \<longrightarrow> lv_action (evaluateRepeatedToolLoop lim t prev n) \<noteq> Stop)
   \<and> (tn_calls t \<noteq> [] \<and> tn_error t \<and> prev \<noteq> Some (toolCallSignature (tn_calls t)) \<longrightarrow>
       map lv_action (run_turns lim (replicate k t) prev n) = map (failing_action lim t) [1..<Suc k])"
proof (intro conjI impI)
  assume t: "tn_calls t \<noteq> [] \<and> tn_error t \<and> prev \<noteq> Some (toolCallSignature (tn_calls t))"
  show "map lv_action (run_turns lim (replicate k t) prev n) = map (failing_action lim t) [1..<Suc k]"
  proof (cases k)
    case (Suc j)
    have "[1..<Suc k] = 1 # [Suc 1..<Suc 1 + j]"
      by (simp add: Suc upt_conv_Cons del: upt_Suc)
    with t failing_run [of t _ lim j 1] show ?thesis
      by (simp add: Suc Let_def failing_turn del: upt_Suc)
  qed simp
qed (simp_all add: evaluateRepeatedToolLoop_def Let_def)

definition failing_read :: turn where
  "failing_read = \<lparr>tn_calls = [read_call [(''path'', JStr ''a'')]], tn_error = True,
     tn_errorContent = Some ''no such file''\<rparr>"

lemma repeat_policy_witness:
  "map lv_action (run_turns default_limits (replicate 7 failing_read) None 0) =
     [NoAction, Nudge, Nudge, Nudge, Nudge, Stop, Stop]"
proof -
  have "\<not> empty_args_turn failing_read" by code_simp
  with repeat_policy [of failing_read default_limits None 0 7] show ?thesis
    by (simp add: failing_read_def failing_action_def default_limits_def staged_def upt_rec)
qed

subsection \<open>Being stuck\<close>

abbreviation sig1 :: "tool_call \<Rightarrow> string" where
  "sig1 tc \<equiv> toolCallSignature [tc]"

lemma see_calls_result:
  "see_calls tcs seen b = (seen \<union> sig1 ` set tcs, b \<and> sig1 ` set tcs \<subseteq> seen)"
  by (induction tcs seen b rule: see_calls.induct) (auto simp: Let_def)

lemma np_record_result:
  "np_record tcs g = (g\<lparr>np_seen := np_seen g \<union> sig1 ` set tcs,
       np_turns := (if tcs \<noteq> [] \<and> sig1 ` set tcs \<subseteq> np_seen g then np_turns g + 1 else 0)\<rparr>,
     tcs \<noteq> [] \<and> np_threshold g \<le> (if sig1 ` set tcs \<subseteq> np_seen g then np_turns g + 1 else 0))"
  by (cases g) (auto simp: np_record_def see_calls_result Let_def)

definition np_run :: "tool_call list list \<Rightarrow> no_progress_guard \<Rightarrow> no_progress_guard" where
  "np_run turns g = foldl (\<lambda>g tcs. fst (np_record tcs g)) g turns"

text \<open>Turn \<open>i\<close> makes no progress: it has calls, and all were made in earlier turns.\<close>

definition no_progress :: "tool_call list list \<Rightarrow> nat \<Rightarrow> bool" where
  "no_progress turns i \<longleftrightarrow> turns ! i \<noteq> [] \<and>
     sig1 ` set (turns ! i) \<subseteq> sig1 ` set (concat (take i turns))"

lemma no_progress_append: "i < length turns \<Longrightarrow> no_progress (turns @ ts) i = no_progress turns i"
  by (simp add: no_progress_def nth_append)

lemma np_run_state:
  "np_seen (np_run turns (new_guard k)) = sig1 ` set (concat turns)
   \<and> np_threshold (np_run turns (new_guard k)) = k
   \<and> (n \<le> np_turns (np_run turns (new_guard k)) \<longleftrightarrow>
        n \<le> length turns \<and> (\<forall>i. length turns - n \<le> i \<and> i < length turns \<longrightarrow> no_progress turns i))"
proof (induction turns arbitrary: n rule: rev_induct)
  case (snoc tcs turns)
  let ?g = "np_run turns (new_guard k)"
  have r: "np_run (turns @ [tcs]) (new_guard k) = fst (np_record tcs ?g)" by (simp add: np_run_def)
  have l: "no_progress (turns @ [tcs]) (length turns) \<longleftrightarrow>
      tcs \<noteq> [] \<and> sig1 ` set tcs \<subseteq> np_seen ?g"
    using snoc by (simp add: no_progress_def)
  show ?case
  proof (cases n)
    case (Suc m)
    have s: "(\<forall>i. length turns - m \<le> i \<and> i < Suc (length turns) \<longrightarrow>
        no_progress (turns @ [tcs]) i) \<longleftrightarrow> no_progress (turns @ [tcs]) (length turns) \<and>
        (\<forall>i. length turns - m \<le> i \<and> i < length turns \<longrightarrow> no_progress turns i)"
      using no_progress_append by (auto simp: less_Suc_eq)
    show ?thesis using snoc [of m] s l Suc
      by (auto simp: r np_record_result)
  qed (use snoc in \<open>auto simp: r np_record_result\<close>)
qed (simp add: np_run_def new_guard_def)


text \<open>
  The no-progress guard reports a stuck run exactly when the last \<open>threshold\<close> turns
  all made calls and every one of those calls had already been made in an earlier turn;
  a turn with a new call, or without calls, is never reported.
\<close>

theorem stuck_iff_no_progress:
  assumes "0 < k"
  shows "snd (np_record tcs (np_run turns (new_guard k))) \<longleftrightarrow>
     k \<le> Suc (length turns) \<and>
     (\<forall>i. Suc (length turns) - k \<le> i \<and> i \<le> length turns \<longrightarrow> no_progress (turns @ [tcs]) i)"
proof -
  let ?g = "np_run turns (new_guard k)"
  have "np_run (turns @ [tcs]) (new_guard k) = fst (np_record tcs ?g)" by (simp add: np_run_def)
  then have "snd (np_record tcs ?g) \<longleftrightarrow> k \<le> np_turns (np_run (turns @ [tcs]) (new_guard k))"
    using assms np_run_state [of turns k] by (auto simp: np_record_result)
  also have "\<dots> \<longleftrightarrow> k \<le> Suc (length turns) \<and>
     (\<forall>i. Suc (length turns) - k \<le> i \<and> i \<le> length turns \<longrightarrow> no_progress (turns @ [tcs]) i)"
    using np_run_state [of "turns @ [tcs]" k k] by (simp add: less_Suc_eq_le)
  finally show ?thesis .
qed

lemma stuck_iff_no_progress_witness:
  "snd (np_record [read_call []] (np_run (replicate 2 [read_call []]) (new_guard 2)))
   \<and> \<not> snd (np_record [read_call []] (np_run [[read_call []]] (new_guard 2)))"
proof -
  have "(0::nat) < 2" by simp
  note s = stuck_iff_no_progress [OF this]
  show ?thesis
    unfolding s by (auto simp: no_progress_def nth_Cons numeral_2_eq_2 less_Suc_eq_le le_Suc_eq
        split: nat.splits)
qed

end
