(* ===== verification/BackoffSpec.thy ===== *)
theory BackoffSpec
  imports Prelude
begin

text \<open>
  The contract of a retry delay: it grows with the number of failures and never passes a
  cap.  The delivery queue, the runtime repair and the expensive-turn guard each provide
  one; what a client may conclude (the next attempt is never more than the cap away, a
  later failure never retries sooner) is proved here once.
\<close>

locale backoff_schedule =
  fixes delay :: "nat \<Rightarrow> int"
    and cap :: int
  assumes delay_nonneg: "0 \<le> delay n"
    and delay_cap: "delay n \<le> cap"
    and delay_step: "delay n \<le> delay (Suc n)"
begin

lemma delay_mono: "m \<le> n \<Longrightarrow> delay m \<le> delay n"
  by (rule lift_Suc_mono_le [of delay]) (rule delay_step)

lemma next_attempt_bounded: "now \<le> now + delay n \<and> now + delay n \<le> now + cap"
  using delay_nonneg delay_cap by simp

lemma next_attempt_mono: "t \<le> t' \<Longrightarrow> m \<le> n \<Longrightarrow> t + delay m \<le> t' + delay n"
  using delay_mono by (simp add: add_mono)

lemma cap_nonneg: "0 \<le> cap"
  using delay_nonneg [of 0] delay_cap [of 0] by linarith

text \<open>Once the cap is reached the delay stays there.\<close>

lemma delay_saturates: "delay m = cap \<Longrightarrow> m \<le> n \<Longrightarrow> delay n = cap"
  using delay_mono [of m n] delay_cap [of n] by linarith

end

text \<open>The capped exponential \<open>Math.min(cap, base * 2 ** n)\<close>.\<close>

definition exp_delay :: "int \<Rightarrow> int \<Rightarrow> nat \<Rightarrow> int" where
  "exp_delay base limit n = min limit (base * 2 ^ n)"

lemma exp_delay_schedule:
  "0 \<le> base \<Longrightarrow> 0 \<le> limit \<Longrightarrow> backoff_schedule (exp_delay base limit) limit"
  by unfold_locales (auto simp: exp_delay_def min_def mult_left_mono intro: order_trans)

end
