(* ===== verification/ExpensiveTurnGuard.thy ===== *)
theory ExpensiveTurnGuard
  imports Complex_Main BackoffSpec
begin

text \<open>
  The cross-turn guard for expensive message-feed loops,
  \<open>src/src/agent/expensive-turn-guard.ts\<close>: its configuration from the environment, the
  prefill estimate, the choice of the user to notify, the sliding window of samples and
  the pause with its exponential back-off, and the pacing of the replay.

  Token counts and times are integers, and the two ratios of a trip are rationals.  The
  environment maps a variable to its value.  Team slugs are plain words: the names that
  every JavaScript object inherits (such as \<open>constructor\<close>) are outside the model.
\<close>

subsection \<open>Configuration\<close>

record guard_config =
  gc_enabled :: bool
  gc_windowMs :: int
  gc_minTurns :: int
  gc_minPromptTokens :: int
  gc_minPromptOutputRatio :: int
  gc_minProductiveOutputTokens :: int
  gc_flagToolCallingSterileTurns :: bool
  gc_baseBackoffMs :: int
  gc_maxBackoffMs :: int
  gc_notifyCooldownMs :: int
  gc_coldTtftMs :: int

definition default_guard_config :: guard_config where
  "default_guard_config = \<lparr>gc_enabled = True, gc_windowMs = 60000, gc_minTurns = 4,
     gc_minPromptTokens = 100000, gc_minPromptOutputRatio = 100,
     gc_minProductiveOutputTokens = 32, gc_flagToolCallingSterileTurns = True,
     gc_baseBackoffMs = 5 * 60000, gc_maxBackoffMs = 15 * 60000,
     gc_notifyCooldownMs = 15 * 60000, gc_coldTtftMs = 15000\<rparr>"

definition positiveInt :: "string option \<Rightarrow> int \<Rightarrow> int" where
  "positiveInt raw fallback =
     (case Option.bind raw js_parse_int of
        None \<Rightarrow> fallback | Some n \<Rightarrow> if 0 < n then n else fallback)"

definition nonNegativeInt :: "string option \<Rightarrow> int \<Rightarrow> int" where
  "nonNegativeInt raw fallback =
     (case Option.bind raw js_parse_int of
        None \<Rightarrow> fallback | Some n \<Rightarrow> if 0 \<le> n then n else fallback)"

definition expensiveTurnGuardConfigFromEnv :: "environ \<Rightarrow> guard_config" where
  "expensiveTurnGuardConfigFromEnv env =
     (let d = default_guard_config in
      \<lparr>gc_enabled = (env ''SHIZUHA_EXPENSIVE_TURN_GUARD_ENABLED'' = Some ''1''),
       gc_windowMs = positiveInt (env ''SHIZUHA_EXPENSIVE_TURN_WINDOW_MS'') (gc_windowMs d),
       gc_minTurns = positiveInt (env ''SHIZUHA_EXPENSIVE_TURN_MIN_TURNS'') (gc_minTurns d),
       gc_minPromptTokens =
         positiveInt (env ''SHIZUHA_EXPENSIVE_TURN_PROMPT_TOKENS'') (gc_minPromptTokens d),
       gc_minPromptOutputRatio =
         nonNegativeInt (env ''SHIZUHA_EXPENSIVE_TURN_PROMPT_OUTPUT_RATIO'')
           (gc_minPromptOutputRatio d),
       gc_minProductiveOutputTokens =
         nonNegativeInt (env ''SHIZUHA_EXPENSIVE_TURN_MIN_PRODUCTIVE_OUTPUT_TOKENS'')
           (gc_minProductiveOutputTokens d),
       gc_flagToolCallingSterileTurns =
         (env ''SHIZUHA_EXPENSIVE_TURN_FLAG_TOOL_STERILE'' \<noteq> Some ''0''),
       gc_baseBackoffMs = positiveInt (env ''SHIZUHA_EXPENSIVE_TURN_BACKOFF_MS'') (gc_baseBackoffMs d),
       gc_maxBackoffMs =
         positiveInt (env ''SHIZUHA_EXPENSIVE_TURN_MAX_BACKOFF_MS'') (gc_maxBackoffMs d),
       gc_notifyCooldownMs =
         positiveInt (env ''SHIZUHA_EXPENSIVE_TURN_NOTIFY_COOLDOWN_MS'') (gc_notifyCooldownMs d),
       gc_coldTtftMs = positiveInt (env ''SHIZUHA_EXPENSIVE_TURN_COLD_TTFT_MS'') (gc_coldTtftMs d)\<rparr>)"

subsection \<open>Samples\<close>

record sample =
  sm_now :: time
  sm_input :: int
  sm_output :: int
  sm_tools :: "int option"
  sm_cacheRead :: "int option"
  sm_cacheCreation :: "int option"
  sm_busted :: bool
  sm_ttft :: "int option"

record stored_sample = sample +
  sm_prefill :: int

definition or0 :: "int option \<Rightarrow> int" where
  "or0 v = (case v of None \<Rightarrow> 0 | Some n \<Rightarrow> n)"

definition isSterileTurn :: "'a sample_scheme \<Rightarrow> int \<Rightarrow> bool" where
  "isSterileTurn s minOut =
     (if 0 < max 0 (or0 (sm_tools s)) then False else max 0 (sm_output s) < minOut)"

text \<open>
  \<open>(input - read) < input * 0.05\<close> on integers is \<open>20 * (input - read) < input\<close>.
\<close>

definition cache_proven :: "int \<Rightarrow> int option \<Rightarrow> bool" where
  "cache_proven input readRaw = (case readRaw of
      None \<Rightarrow> False
    | Some r \<Rightarrow> (r \<le> input \<and> 20 * (input - r) < input) \<or> (input < r \<and> 0 < r))"

definition estimatePrefillTokens ::
  "guard_config \<Rightarrow> 'a sample_scheme \<Rightarrow> 'b sample_scheme option \<Rightarrow> int" where
  "estimatePrefillTokens cfg s previous =
     (let input = max 0 (sm_input s);
          create = max 0 (or0 (sm_cacheCreation s));
          prefill = (case sm_cacheRead s of
              Some readRaw \<Rightarrow>
                (let r = max 0 readRaw in
                 if r \<le> input then input - r + create else input + create)
            | None \<Rightarrow>
                (case previous of
                   Some p \<Rightarrow> if sm_input p < input then input - sm_input p else input
                 | None \<Rightarrow> input));
          prefill = (if sm_busted s then max prefill input else prefill);
          cold = (case sm_ttft s of
              None \<Rightarrow> False
            | Some t \<Rightarrow> gc_coldTtftMs cfg \<le> t \<and> gc_minPromptTokens cfg \<le> input
                \<and> \<not> cache_proven input (sm_cacheRead s));
          prefill = (if cold then max prefill input else prefill)
      in max 0 prefill)"

subsection \<open>Whom to notify\<close>

definition team_leads :: "(string \<times> string) list" where
  "team_leads = [(''engineering'', ''ryo''), (''devops'', ''ichi''), (''architecture'', ''aoi''),
     (''review'', ''revi''), (''security'', ''akira''), (''qa'', ''zen''),
     (''documentation'', ''yuki''), (''analytics'', ''tomo''), (''product'', ''nao''),
     (''research'', ''yuki''), (''knowledge'', ''yuki''), (''merge'', ''aoi'')]"

definition env_or_empty :: "string option \<Rightarrow> string" where
  "env_or_empty v = (case v of None \<Rightarrow> [] | Some s \<Rightarrow> s)"

definition leadForTeamSlug :: "string option \<Rightarrow> string option" where
  "leadForTeamSlug team =
     (let slug = js_lower (js_trim (env_or_empty team)) in
      if slug = [] then None else map_of team_leads slug)"

definition usableRecipient :: "string \<Rightarrow> string option \<Rightarrow> string option" where
  "usableRecipient current candidate = (case candidate of
      None \<Rightarrow> None
    | Some c \<Rightarrow>
        let username = js_trim c in
        if username = [] \<or> js_lower username = current then None else Some username)"

text \<open>\<open>a || b || ...\<close> over strings: the first that is set and not empty, else the last.\<close>

fun first_truthy :: "string option list \<Rightarrow> string option" where
  "first_truthy [] = None"
| "first_truthy [v] = v"
| "first_truthy (v # w # vs) = (if env_or_empty v \<noteq> [] then v else first_truthy (w # vs))"

fun first_lead :: "string \<Rightarrow> string list \<Rightarrow> string option" where
  "first_lead current [] = None"
| "first_lead current (team # teams) =
     (case usableRecipient current (leadForTeamSlug (Some team)) of
        Some lead \<Rightarrow> Some lead
      | None \<Rightarrow> first_lead current teams)"

definition expensiveTurnGuardNotifyUsername :: "environ \<Rightarrow> string option" where
  "expensiveTurnGuardNotifyUsername env =
     (let current = js_lower (js_trim (env_or_empty (env ''AGENT_USERNAME'')));
          explicit = first_truthy [env ''SHIZUHA_EXPENSIVE_TURN_NOTIFY_USERNAME'',
            env ''SHIZUHA_LOOP_GUARD_NOTIFY_USERNAME'', env ''AGENT_LEAD_USERNAME'',
            env ''AGENT_TEAM_LEAD_USERNAME'', env ''SHIZUHA_AGENT_LEAD_USERNAME'']
      in case usableRecipient current explicit of
        Some r \<Rightarrow> Some r
      | None \<Rightarrow>
        (case usableRecipient current (leadForTeamSlug (env ''AGENT_TEAM'')) of
          Some r \<Rightarrow> Some r
        | None \<Rightarrow>
          (let sourceTeams = filter (\<lambda>s. s \<noteq> []) (map js_trim (js_split (CHR '','')
                 (env_or_empty (env ''AGENT_EFFECTIVE_CAPABILITY_SOURCE_TEAMS''))))
           in case first_lead current sourceTeams of
             Some r \<Rightarrow> Some r
           | None \<Rightarrow>
               if env ''SHIZUHA_EXPENSIVE_TURN_NOTIFY_DEFAULT'' = Some ''0'' then None
               else find (\<lambda>u. u \<noteq> current) [''ryo'', ''aoi'', ''ichi''])))"

subsection \<open>The guard\<close>

record turn_guard =
  tg_config :: guard_config
  tg_samples :: "stored_sample list"
  tg_totalExpensive :: nat
  tg_pauseUntil :: time
  tg_tripCount :: nat
  tg_lastNotifyAt :: time

definition new_turn_guard :: "guard_config \<Rightarrow> turn_guard" where
  "new_turn_guard cfg = \<lparr>tg_config = cfg, tg_samples = [], tg_totalExpensive = 0,
     tg_pauseUntil = 0, tg_tripCount = 0, tg_lastNotifyAt = 0\<rparr>"

record guard_trip =
  tp_turnCount :: nat
  tp_callsPerMinute :: rat
  tp_inputTokens :: int
  tp_prefillTokens :: int
  tp_outputTokens :: int
  tp_toolCallCount :: int
  tp_promptOutputRatio :: rat
  tp_promptTokenThreshold :: int
  tp_windowMs :: int
  tp_backoffMs :: int
  tp_pauseUntil :: time
  tp_notify :: bool

datatype guard_decision = GuardOk | GuardPause guard_trip

record replay_pacing =
  rp_maxInFlight :: int
  rp_minSpacingMs :: int
  rp_perWindowBudget :: int

definition remainingPauseMs :: "turn_guard \<Rightarrow> time \<Rightarrow> int" where
  "remainingPauseMs g now = max 0 (tg_pauseUntil g - now)"

text \<open>\<open>Number.MAX_SAFE_INTEGER\<close> is \<open>2 ^ 53 - 1\<close>.\<close>

definition replayPacing :: "guard_config \<Rightarrow> replay_pacing" where
  "replayPacing cfg =
     (if \<not> gc_enabled cfg
      then \<lparr>rp_maxInFlight = 1, rp_minSpacingMs = 0, rp_perWindowBudget = 2 ^ 53 - 1\<rparr>
      else let budget = max 1 (gc_minTurns cfg - 1) in
        \<lparr>rp_maxInFlight = 1, rp_minSpacingMs = gc_windowMs cfg div budget + 1,
         rp_perWindowBudget = budget\<rparr>)"

definition isHighPrefill :: "guard_config \<Rightarrow> int \<Rightarrow> bool" where
  "isHighPrefill cfg p \<longleftrightarrow> gc_minPromptTokens cfg \<le> p"

definition isSterileExpensive :: "guard_config \<Rightarrow> int \<Rightarrow> stored_sample \<Rightarrow> bool" where
  "isSterileExpensive cfg totalOutput s =
     (let minOut = gc_minProductiveOutputTokens cfg in
      if \<not> isHighPrefill cfg (sm_prefill s) then False
      else if minOut \<le> max 0 (sm_output s) then False
      else if max 0 (or0 (sm_tools s)) = 0 then True
      else if \<not> gc_flagToolCallingSterileTurns cfg then False
      else totalOutput < minOut)"

definition sample_in_window :: "guard_config \<Rightarrow> time \<Rightarrow> stored_sample \<Rightarrow> bool" where
  "sample_in_window cfg now s \<longleftrightarrow> now - sm_now s \<le> gc_windowMs cfg"

definition windowTotalOutput :: "guard_config \<Rightarrow> stored_sample list \<Rightarrow> time \<Rightarrow> int" where
  "windowTotalOutput cfg ss now =
     sum_list (map (\<lambda>s. max 0 (sm_output s))
       (filter (\<lambda>s. sample_in_window cfg now s \<and> isHighPrefill cfg (sm_prefill s)) ss))"

definition window_expensive :: "turn_guard \<Rightarrow> time \<Rightarrow> stored_sample list" where
  "window_expensive g now =
     (let cfg = tg_config g; total = windowTotalOutput cfg (tg_samples g) now in
      filter (\<lambda>s. sample_in_window cfg now s \<and> isSterileExpensive cfg total s) (tg_samples g))"

definition expensiveSamplesInWindow :: "turn_guard \<Rightarrow> time \<Rightarrow> nat" where
  "expensiveSamplesInWindow g now =
     (if \<not> gc_enabled (tg_config g) then 0 else length (window_expensive g now))"

definition msUntilExpensiveSampleExpiry :: "turn_guard \<Rightarrow> time \<Rightarrow> int" where
  "msUntilExpensiveSampleExpiry g now =
     (if \<not> gc_enabled (tg_config g) then 0
      else case window_expensive g now of
        [] \<Rightarrow> 0
      | s # ss \<Rightarrow> max 0 (foldl min (sm_now s) (map sm_now ss) + gc_windowMs (tg_config g) - now) + 1)"

definition store :: "sample \<Rightarrow> int \<Rightarrow> stored_sample" where
  "store s p = sample.extend s \<lparr>sm_prefill = p\<rparr>"

definition last_sample :: "stored_sample list \<Rightarrow> stored_sample option" where
  "last_sample ss = (if ss = [] then None else Some (last ss))"

text \<open>The trip of \<open>record()\<close>, from the sterile expensive samples of the window.\<close>

definition trip_of :: "turn_guard \<Rightarrow> time \<Rightarrow> stored_sample list \<Rightarrow> turn_guard \<times> guard_decision" where
  "trip_of g now expensive =
     (let cfg = tg_config g;
          inputTokens = sum_list (map (\<lambda>s. max 0 (sm_input s)) expensive);
          prefillSum = sum_list (map (\<lambda>s. max 0 (sm_prefill s)) expensive);
          outputTokens = sum_list (map (\<lambda>s. max 0 (sm_output s)) expensive);
          toolCallCount = sum_list (map (\<lambda>s. max 0 (or0 (sm_tools s))) expensive);
          span = sm_now (last expensive) - sm_now (hd expensive);
          elapsedMs = max 1000 (if span = 0 then gc_windowMs cfg else span);
          backoffMs = exp_delay (gc_baseBackoffMs cfg) (gc_maxBackoffMs cfg) (tg_tripCount g);
          notify = (gc_notifyCooldownMs cfg \<le> now - tg_lastNotifyAt g)
      in (g\<lparr>tg_tripCount := tg_tripCount g + 1, tg_pauseUntil := now + backoffMs,
            tg_lastNotifyAt := (if notify then now else tg_lastNotifyAt g)\<rparr>,
          GuardPause \<lparr>tp_turnCount = length expensive,
            tp_callsPerMinute = of_nat (length expensive) * 60000 / of_int elapsedMs,
            tp_inputTokens = inputTokens, tp_prefillTokens = prefillSum,
            tp_outputTokens = outputTokens, tp_toolCallCount = toolCallCount,
            tp_promptOutputRatio = of_int prefillSum / of_int (max 1 outputTokens),
            tp_promptTokenThreshold = gc_minPromptTokens cfg, tp_windowMs = gc_windowMs cfg,
            tp_backoffMs = backoffMs, tp_pauseUntil = now + backoffMs, tp_notify = notify\<rparr>))"

definition tg_record :: "sample \<Rightarrow> turn_guard \<Rightarrow> turn_guard \<times> guard_decision" where
  "tg_record s g0 =
     (let cfg = tg_config g0; now = sm_now s in
      if \<not> gc_enabled cfg then (g0, GuardOk)
      else if now < tg_pauseUntil g0 then (g0, GuardOk)
      else
        let stored = store s (estimatePrefillTokens cfg s (last_sample (tg_samples g0)));
            samples = tg_samples g0 @ [stored];
            total = windowTotalOutput cfg samples now;
            kept = filter (sample_in_window cfg now) samples;
            g = g0\<lparr>tg_samples := kept,
                   tg_totalExpensive := tg_totalExpensive g0
                     + (if isSterileExpensive cfg total stored then 1 else 0)\<rparr>;
            expensive = filter (isSterileExpensive cfg total) kept
        in if int (length expensive) < gc_minTurns cfg then (g, GuardOk)
           else trip_of g now expensive)"

definition tg_reset :: "turn_guard \<Rightarrow> turn_guard" where
  "tg_reset g = g\<lparr>tg_samples := [], tg_pauseUntil := 0, tg_tripCount := 0, tg_lastNotifyAt := 0\<rparr>"

subsection \<open>The prefill estimate\<close>

lemma estimate_bounds:
  "0 \<le> estimatePrefillTokens cfg s p \<and>
   (case p of None \<Rightarrow> True | Some q \<Rightarrow> 0 \<le> sm_input q) \<longrightarrow>
     estimatePrefillTokens cfg s p
       \<le> max 0 (sm_input s) + max 0 (or0 (sm_cacheCreation s))"
  by (auto simp: estimatePrefillTokens_def Let_def max_def split: option.splits)

subsection \<open>Notification\<close>

lemma usable_not_self: "usableRecipient current c = Some u \<Longrightarrow> js_lower u \<noteq> current"
  by (auto simp: usableRecipient_def Let_def split: option.splits if_splits)

lemma first_lead_not_self: "first_lead current ts = Some u \<Longrightarrow> js_lower u \<noteq> current"
  by (induction ts) (auto dest: usable_not_self split: option.splits)

lemma default_lead: "\<exists>u. find (\<lambda>u. u \<noteq> current) [''ryo'', ''aoi'', ''ichi''] = Some u
    \<and> u \<noteq> current \<and> js_lower u = u"
proof (cases "current = ''ryo''")
  case True
  then show ?thesis by (simp, code_simp)
next
  case False
  then show ?thesis by (simp, code_simp)
qed

text \<open>
  A trip is never silent and never a message to oneself: unless the operator turned the
  default off, some user is chosen, and the user chosen is not the agent's own user name in
  any letter case.
\<close>

theorem notify_never_self:
  assumes "current = js_lower (js_trim (env_or_empty (env ''AGENT_USERNAME'')))"
  shows "(expensiveTurnGuardNotifyUsername env = Some u \<longrightarrow> js_lower u \<noteq> current)
    \<and> (env ''SHIZUHA_EXPENSIVE_TURN_NOTIFY_DEFAULT'' \<noteq> Some ''0'' \<longrightarrow>
         expensiveTurnGuardNotifyUsername env \<noteq> None)"
proof -
  let ?off = "env ''SHIZUHA_EXPENSIVE_TURN_NOTIFY_DEFAULT'' = Some ''0''"
  obtain x y ts where e: "expensiveTurnGuardNotifyUsername env =
      (case usableRecipient current x of Some r \<Rightarrow> Some r | None \<Rightarrow>
      (case usableRecipient current y of Some r \<Rightarrow> Some r | None \<Rightarrow>
      (case first_lead current ts of Some r \<Rightarrow> Some r | None \<Rightarrow>
        if ?off then None else find (\<lambda>u. u \<noteq> current) [''ryo'', ''aoi'', ''ichi''])))"
    unfolding expensiveTurnGuardNotifyUsername_def Let_def assms by blast
  obtain v where "find (\<lambda>u. u \<noteq> current) [''ryo'', ''aoi'', ''ichi''] = Some v"
    "js_lower v \<noteq> current" using default_lead by metis
  then show ?thesis unfolding e
    by (auto simp del: find.simps split: option.splits if_splits
        dest: usable_not_self first_lead_not_self)
qed

lemma notify_never_self_witness:
  "expensiveTurnGuardNotifyUsername ((\<lambda>_. None)(''AGENT_USERNAME'' \<mapsto> ''Ryo'')) \<noteq> None
   \<and> expensiveTurnGuardNotifyUsername ((\<lambda>_. None)(''AGENT_USERNAME'' \<mapsto> ''Ryo'')) \<noteq> Some ''ryo''"
proof -
  let ?env = "(\<lambda>_. None)(''AGENT_USERNAME'' \<mapsto> ''Ryo'') :: environ"
  have c: "''ryo'' = js_lower (js_trim (env_or_empty (?env ''AGENT_USERNAME'')))" by code_simp
  have "js_lower ''ryo'' = ''ryo''" by code_simp
  then show ?thesis using notify_never_self [where env = ?env and u = "''ryo''", OF c] by auto
qed

subsection \<open>Pacing\<close>

abbreviation spaced :: "int \<Rightarrow> int list \<Rightarrow> bool" where
  "spaced d ts \<equiv> sorted_wrt (\<lambda>a b. a + d \<le> b) ts"

lemma spaced_span: "spaced d (t # ts) \<Longrightarrow> t + d * int (length ts) \<le> last (t # ts)"
proof (induction ts rule: rev_induct)
  case (snoc u ts)
  have "last (t # ts) + d \<le> u" using snoc.prems by (auto simp: sorted_wrt_append)
  moreover have "spaced d (t # ts)" using snoc.prems by (simp add: sorted_wrt_append)
  ultimately show ?case using snoc.IH by (simp add: algebra_simps)
qed simp

lemma paced_count:
  assumes "spaced (w div k + 1) ts" "1 \<le> k" "0 \<le> w"
    and "\<forall>t \<in> set ts. now - w \<le> t \<and> t \<le> now"
  shows "int (length ts) \<le> k"
proof (rule ccontr)
  assume n: "\<not> int (length ts) \<le> k"
  then obtain t us where ts: "ts = t # us" using assms(2) by (cases ts) auto
  have "last ts \<in> set ts" using ts by simp
  then have "last ts \<le> now" "now - w \<le> t" using assms(4) ts by auto
  moreover have "t + (w div k + 1) * int (length us) \<le> last ts"
    using spaced_span assms(1) ts by blast
  ultimately have "(w div k + 1) * int (length us) \<le> w" by linarith
  moreover have "(w div k + 1) * k \<le> (w div k + 1) * int (length us)"
    by (rule mult_left_mono) (use n ts assms in \<open>simp_all add: pos_imp_zdiv_nonneg_iff\<close>)
  moreover have "w < (w div k + 1) * k"
  proof -
    have "w div k * k + w mod k = w" "w mod k < k" using assms(2) by simp_all
    then show ?thesis unfolding distrib_right by linarith
  qed
  ultimately show False by linarith
qed

fun decisions :: "sample list \<Rightarrow> turn_guard \<Rightarrow> guard_decision list" where
  "decisions [] g = []"
| "decisions (s # ss) g = (case tg_record s g of (g', d) \<Rightarrow> d # decisions ss g')"

lemma store_fields [simp]: "sm_now (store s p) = sm_now s" "sm_prefill (store s p) = p"
  "sm_output (store s p) = sm_output s" "sm_tools (store s p) = sm_tools s"
  by (simp_all add: store_def sample.defs)

lemma paced_step:
  assumes "gc_enabled cfg" "2 \<le> gc_minTurns cfg" "0 \<le> gc_windowMs cfg" "tg_config g = cfg"
    and "spaced (rp_minSpacingMs (replayPacing cfg))
           (map sm_now (tg_samples g) @ map sm_now (s # ss))"
    and "tg_record s g = (g', d)"
  shows "d = GuardOk \<and> tg_config g' = cfg \<and>
    spaced (rp_minSpacingMs (replayPacing cfg)) (map sm_now (tg_samples g') @ map sm_now ss)"
proof (cases "sm_now s < tg_pauseUntil g")
  case True
  with assms show ?thesis by (auto simp: tg_record_def sorted_wrt_append)
next
  case False
  let ?k = "gc_minTurns cfg - 1" and ?w = "gc_windowMs cfg"
  let ?d = "rp_minSpacingMs (replayPacing cfg)"
  have d: "?d = ?w div ?k + 1" using assms(1,2) by (simp add: replayPacing_def Let_def)
  have "0 \<le> ?d" using assms(2,3) d by (simp add: pos_imp_zdiv_nonneg_iff)
  let ?st = "store s (estimatePrefillTokens cfg s (last_sample (tg_samples g)))"
  let ?kept = "filter (sample_in_window cfg (sm_now s)) (tg_samples g @ [?st])"
  have sp: "spaced ?d (map sm_now ?kept @ map sm_now ss)"
    using assms(5) by (auto simp: sorted_wrt_append sorted_wrt_map sorted_wrt_filter)
  have before: "\<forall>x \<in> set (tg_samples g). sm_now x \<le> sm_now s"
    using assms(5) \<open>0 \<le> ?d\<close> by (auto simp: sorted_wrt_append)
  have "int (length (map sm_now ?kept)) \<le> ?k"
  proof (rule paced_count)
    show "spaced (?w div ?k + 1) (map sm_now ?kept)"
      using sp unfolding d by (simp only: sorted_wrt_append)
    show "\<forall>t \<in> set (map sm_now ?kept). sm_now s - ?w \<le> t \<and> t \<le> sm_now s"
      using before \<open>0 \<le> ?d\<close> by (auto simp: sample_in_window_def)
  qed (use assms in auto)
  then have few: "int (length (filter p ?kept)) < gc_minTurns cfg" for p
    using length_filter_le [of p ?kept] by simp
  have "tg_record s g = (g\<lparr>tg_samples := ?kept,
      tg_totalExpensive := tg_totalExpensive g + (if isSterileExpensive cfg
        (windowTotalOutput cfg (tg_samples g @ [?st]) (sm_now s)) ?st then 1 else 0)\<rparr>, GuardOk)"
    unfolding tg_record_def Let_def using False assms(1,4) few by simp
  with assms(4,6) sp show ?thesis by auto
qed

lemma paced_run:
  assumes "gc_enabled cfg" "2 \<le> gc_minTurns cfg" "0 \<le> gc_windowMs cfg" "tg_config g = cfg"
    and "spaced (rp_minSpacingMs (replayPacing cfg)) (map sm_now (tg_samples g) @ map sm_now ss)"
  shows "set (decisions ss g) \<subseteq> {GuardOk}"
  using assms(4,5)
proof (induction ss arbitrary: g)
  case (Cons s ss)
  obtain g' d where r: "tg_record s g = (g', d)" by force
  from paced_step [OF assms(1-3) Cons.prems r] Cons.IH [of g'] r show ?case by simp
qed simp

text \<open>
  Paced replay cannot trip the guard: turns recorded no closer together than the
  spacing \<open>replayPacing\<close> derives from the live thresholds are all allowed, whatever they
  cost, provided the guard needs at least two turns to trip.
\<close>

theorem paced_replay_never_trips:
  assumes "gc_enabled cfg" "2 \<le> gc_minTurns cfg" "0 \<le> gc_windowMs cfg"
    and "spaced (rp_minSpacingMs (replayPacing cfg)) (map sm_now ss)"
  shows "set (decisions ss (new_turn_guard cfg)) \<subseteq> {GuardOk}"
  by (rule paced_run [OF assms(1-3)]) (use assms(4) in \<open>simp_all add: new_turn_guard_def\<close>)

definition barren_turn :: "time \<Rightarrow> sample" where
  "barren_turn t = \<lparr>sm_now = t, sm_input = 200000, sm_output = 0, sm_tools = None,
     sm_cacheRead = None, sm_cacheCreation = None, sm_busted = False, sm_ttft = None\<rparr>"

lemma paced_replay_never_trips_witness:
  "set (decisions (map barren_turn [0, 20001, 40002, 60003]) (new_turn_guard default_guard_config))
     \<subseteq> {GuardOk}"
  by (rule paced_replay_never_trips)
    (simp_all add: default_guard_config_def replayPacing_def barren_turn_def)

text \<open>With \<open>minTurns = 1\<close> the budget of one turn a window is not below the limit.\<close>

lemma single_turn_trips:
  "\<exists>tp. decisions [barren_turn 0]
     (new_turn_guard (default_guard_config\<lparr>gc_minTurns := 1\<rparr>)) = [GuardPause tp]"
  by (simp add: tg_record_def new_turn_guard_def default_guard_config_def barren_turn_def Let_def
      sample_in_window_def isSterileExpensive_def isHighPrefill_def or0_def trip_of_def
      estimatePrefillTokens_def last_sample_def store_def sample.defs)

subsection \<open>The pause\<close>

lemma positiveInt_pos: "0 < d \<Longrightarrow> 0 < positiveInt raw d"
  by (auto simp: positiveInt_def split: option.splits)

lemma env_config_pos:
  "0 < gc_baseBackoffMs (expensiveTurnGuardConfigFromEnv env)"
  "0 < gc_maxBackoffMs (expensiveTurnGuardConfigFromEnv env)"
  "0 < gc_windowMs (expensiveTurnGuardConfigFromEnv env)"
  "0 < gc_minTurns (expensiveTurnGuardConfigFromEnv env)"
  by (simp_all add: expensiveTurnGuardConfigFromEnv_def Let_def positiveInt_pos
      default_guard_config_def)

text \<open>The back-off of the trips, as the environment configures it.\<close>

definition trip_backoff :: "environ \<Rightarrow> nat \<Rightarrow> int" where
  "trip_backoff env = exp_delay (gc_baseBackoffMs (expensiveTurnGuardConfigFromEnv env))
     (gc_maxBackoffMs (expensiveTurnGuardConfigFromEnv env))"

interpretation trips: backoff_schedule "trip_backoff env"
    "gc_maxBackoffMs (expensiveTurnGuardConfigFromEnv env)" for env
  unfolding trip_backoff_def using env_config_pos by (intro exp_delay_schedule less_imp_le)

lemma sterile_meaning: "isSterileExpensive cfg tot x \<Longrightarrow>
    gc_minPromptTokens cfg \<le> sm_prefill x \<and> sm_output x < gc_minProductiveOutputTokens cfg"
  by (auto simp: isSterileExpensive_def isHighPrefill_def Let_def split: if_splits)

lemma trip_of_fields:
  assumes "trip_of g now xs = (g', GuardPause tp)"
  shows "tg_samples g' = tg_samples g" "tg_config g' = tg_config g"
    "tg_pauseUntil g' = now + tp_backoffMs tp"
    "tp_backoffMs tp = exp_delay (gc_baseBackoffMs (tg_config g)) (gc_maxBackoffMs (tg_config g))
       (tg_tripCount g)"
  using assms unfolding trip_of_def Let_def by auto

lemma record_shape:
  assumes "gc_enabled (tg_config g)" "\<not> sm_now s < tg_pauseUntil g"
  obtains g1 tot where "tg_record s g =
      (if int (length (filter (isSterileExpensive (tg_config g) tot) (tg_samples g1)))
            < gc_minTurns (tg_config g) then (g1, GuardOk)
       else trip_of g1 (sm_now s) (filter (isSterileExpensive (tg_config g) tot) (tg_samples g1)))"
    "\<forall>x \<in> set (tg_samples g1). sample_in_window (tg_config g) (sm_now s) x"
    "tg_config g1 = tg_config g" "tg_tripCount g1 = tg_tripCount g"
proof -
  let ?st = "store s (estimatePrefillTokens (tg_config g) s (last_sample (tg_samples g)))"
  let ?tot = "windowTotalOutput (tg_config g) (tg_samples g @ [?st]) (sm_now s)"
  let ?g1 = "g\<lparr>tg_samples := filter (sample_in_window (tg_config g) (sm_now s)) (tg_samples g @ [?st]),
      tg_totalExpensive := tg_totalExpensive g
        + (if isSterileExpensive (tg_config g) ?tot ?st then 1 else 0)\<rparr>"
  show ?thesis
  proof (rule that [of ?tot ?g1])
    show "tg_record s g =
      (if int (length (filter (isSterileExpensive (tg_config g) ?tot) (tg_samples ?g1)))
            < gc_minTurns (tg_config g) then (?g1, GuardOk)
       else trip_of ?g1 (sm_now s) (filter (isSterileExpensive (tg_config g) ?tot) (tg_samples ?g1)))"
      unfolding tg_record_def Let_def using assms by simp
    show "\<forall>x \<in> set (tg_samples ?g1). sample_in_window (tg_config g) (sm_now s) x"
      by auto
  qed simp_all
qed

lemma pause_cases:
  assumes "tg_record s g = (g', GuardPause tp)"
  obtains tot where
    "gc_minTurns (tg_config g) \<le> int (length (filter (isSterileExpensive (tg_config g) tot)
       (tg_samples g')))"
    "\<forall>x \<in> set (tg_samples g'). sample_in_window (tg_config g) (sm_now s) x"
    "tg_pauseUntil g' = sm_now s + tp_backoffMs tp"
    "tp_backoffMs tp = exp_delay (gc_baseBackoffMs (tg_config g)) (gc_maxBackoffMs (tg_config g))
       (tg_tripCount g)"
proof -
  have "gc_enabled (tg_config g) \<and> \<not> sm_now s < tg_pauseUntil g"
    using assms by (cases "gc_enabled (tg_config g)"; cases "sm_now s < tg_pauseUntil g")
      (simp_all add: tg_record_def)
  then obtain g1 tot where s: "tg_record s g =
      (if int (length (filter (isSterileExpensive (tg_config g) tot) (tg_samples g1)))
            < gc_minTurns (tg_config g) then (g1, GuardOk)
       else trip_of g1 (sm_now s) (filter (isSterileExpensive (tg_config g) tot) (tg_samples g1)))"
    "\<forall>x \<in> set (tg_samples g1). sample_in_window (tg_config g) (sm_now s) x"
    "tg_config g1 = tg_config g" "tg_tripCount g1 = tg_tripCount g"
    using record_shape by metis
  from s(1) assms have n: "gc_minTurns (tg_config g) \<le>
      int (length (filter (isSterileExpensive (tg_config g) tot) (tg_samples g1)))"
    and tr: "trip_of g1 (sm_now s) (filter (isSterileExpensive (tg_config g) tot) (tg_samples g1))
      = (g', GuardPause tp)"
    by (simp_all split: if_splits)
  from trip_of_fields [OF tr] n s(2-4) show ?thesis by (intro that [of tot]) simp_all
qed

lemma paused_unchanged: "sm_now s < tg_pauseUntil g \<Longrightarrow> tg_record s g = (g, GuardOk)"
  by (simp add: tg_record_def Let_def)

text \<open>
  A pause is justified and bounded.  With the configuration of any environment, the
  guard pauses only when at least \<open>minTurns\<close> turns still inside the window each needed a
  large prefill and wrote less than the productive floor; the pause ends within the
  configured maximum, is never shorter than the pause of an earlier trip, and until it
  ends the guard ignores every sample.
\<close>

theorem pause_justified:
  assumes "tg_record s g = (g', GuardPause tp)"
    and "tg_config g = expensiveTurnGuardConfigFromEnv env"
  shows "gc_minTurns (tg_config g) \<le> int (length (filter (\<lambda>x.
            sample_in_window (tg_config g) (sm_now s) x \<and> gc_minPromptTokens (tg_config g) \<le> sm_prefill x
            \<and> sm_output x < gc_minProductiveOutputTokens (tg_config g)) (tg_samples g')))
    \<and> sm_now s \<le> tg_pauseUntil g'
    \<and> tg_pauseUntil g' \<le> sm_now s + gc_maxBackoffMs (tg_config g)
    \<and> (n \<le> tg_tripCount g \<longrightarrow> sm_now s + trip_backoff env n \<le> tg_pauseUntil g')
    \<and> (sm_now s' < tg_pauseUntil g' \<longrightarrow> tg_record s' g' = (g', GuardOk))"
  using assms(1)
proof (rule pause_cases)
  fix tot
  assume p: "gc_minTurns (tg_config g) \<le> int (length (filter
      (isSterileExpensive (tg_config g) tot) (tg_samples g')))"
    "\<forall>x \<in> set (tg_samples g'). sample_in_window (tg_config g) (sm_now s) x"
    "tg_pauseUntil g' = sm_now s + tp_backoffMs tp"
    "tp_backoffMs tp = exp_delay (gc_baseBackoffMs (tg_config g)) (gc_maxBackoffMs (tg_config g))
       (tg_tripCount g)"
  let ?P = "\<lambda>x. sample_in_window (tg_config g) (sm_now s) x \<and> gc_minPromptTokens (tg_config g) \<le> sm_prefill x
      \<and> sm_output x < gc_minProductiveOutputTokens (tg_config g)"
  have "filter (isSterileExpensive (tg_config g) tot) (tg_samples g')
      = filter (isSterileExpensive (tg_config g) tot) (filter ?P (tg_samples g'))"
    using p(2) sterile_meaning by (auto intro!: filter_cong)
  then have "length (filter (isSterileExpensive (tg_config g) tot) (tg_samples g'))
      \<le> length (filter ?P (tg_samples g'))"
    using length_filter_le by metis
  moreover have u: "tg_pauseUntil g' = sm_now s + trip_backoff env (tg_tripCount g)"
    using p(3,4) assms(2) by (simp add: trip_backoff_def)
  ultimately show ?thesis
    using p(1) trips.next_attempt_bounded [of "sm_now s" env "tg_tripCount g"]
      trips.next_attempt_mono [of "sm_now s" "sm_now s" n "tg_tripCount g" env]
      paused_unchanged [of s' g'] assms(2) by auto
qed


definition tripping_env :: environ where
  "tripping_env = (\<lambda>_. None)(''SHIZUHA_EXPENSIVE_TURN_GUARD_ENABLED'' \<mapsto> ''1'',
     ''SHIZUHA_EXPENSIVE_TURN_MIN_TURNS'' \<mapsto> ''1'')"

lemma pause_justified_witness:
  "\<exists>g' tp. tg_record (barren_turn 0) (new_turn_guard (expensiveTurnGuardConfigFromEnv tripping_env))
      = (g', GuardPause tp) \<and> tg_pauseUntil g' \<le> 900000"
proof -
  let ?c = "expensiveTurnGuardConfigFromEnv tripping_env"
  have c: "gc_enabled ?c" "gc_minTurns ?c = 1" "gc_windowMs ?c = 60000"
    "gc_minPromptTokens ?c = 100000" "gc_minProductiveOutputTokens ?c = 32"
    "gc_maxBackoffMs ?c = 900000"
    by code_simp+
  obtain g' tp where r: "tg_record (barren_turn 0) (new_turn_guard ?c) = (g', GuardPause tp)"
    using c by (simp add: tg_record_def new_turn_guard_def barren_turn_def Let_def
      sample_in_window_def isSterileExpensive_def isHighPrefill_def or0_def trip_of_def
      estimatePrefillTokens_def last_sample_def store_def sample.defs)
  have "tg_config (new_turn_guard ?c) = ?c" by (simp add: new_turn_guard_def)
  from pause_justified [OF r this] c(6) r show ?thesis
    by (auto simp: new_turn_guard_def barren_turn_def)
qed

end
