(* ===== verification/KubectlGuardrail.thy ===== *)
theory KubectlGuardrail
  imports JsRegex
begin

text \<open>
  The guardrail in front of the agent's shell tool,
  \<open>src/src/safety/cortex-kubectl-guardrail.ts\<close>: the shell tokenizer, the extraction of
  kubectl invocations with their verb and namespace, and the decision with its
  break-glass.  The environment maps a variable to its value.
\<close>

definition ai_models_namespace :: string where
  "ai_models_namespace = ''ai-models''"

definition read_only_kubectl_verbs :: "string list" where
  "read_only_kubectl_verbs = [''api-resources'', ''api-versions'', ''auth'', ''cluster-info'',
     ''config'', ''describe'', ''diff'', ''explain'', ''get'', ''logs'', ''top'', ''version'',
     ''wait'']"

definition mutating_kubectl_verbs :: "string list" where
  "mutating_kubectl_verbs = [''annotate'', ''apply'', ''autoscale'', ''cordon'', ''create'',
     ''delete'', ''drain'', ''edit'', ''exec'', ''label'', ''patch'', ''replace'', ''rollout'',
     ''scale'', ''set'', ''taint'', ''uncordon'']"

definition flags_with_values :: "string list" where
  "flags_with_values = [''-n'', ''-o'', ''-f'', ''-k'', ''-l'', ''--as'', ''--as-group'',
     ''--cache-dir'', ''--certificate-authority'', ''--client-certificate'', ''--client-key'',
     ''--cluster'', ''--context'', ''--field-manager'', ''--field-selector'', ''--filename'',
     ''--kubeconfig'', ''--kustomize'', ''--label-selector'', ''--namespace'', ''--output'',
     ''--profile'', ''--request-timeout'', ''--selector'', ''--server'', ''--subresource'',
     ''--token'', ''--user'']"

subsection \<open>Patterns\<close>

abbreviation RSlug :: re where
  "RSlug \<equiv> RCls False [(97, 122), (48, 57), (95, 95), (45, 45)]"

abbreviation RNotSlug :: re where
  "RNotSlug \<equiv> RCls True [(97, 122), (48, 57), (95, 95), (45, 45)]"

definition model_name_re :: re where
  "model_name_re = RSeqs [RAlt RBol RNotSlug,
     RGrp 1 (RAlts (map (\<lambda>w. RSeq (RLit w) (RStar RSlug))
       [''deepseek'', ''qwen'', ''gemma'', ''vllm''])),
     RAlt REol RNotSlug]"

definition protected_resource_re :: re where
  "protected_resource_re = RSeqs [RWordB, RGrp 1 (RAlts
     [RSeq (RLit ''statefulset'') (ROpt (RLit ''s'')), RLit ''sts'',
      RSeq (RLit ''service'') (ROpt (RLit ''s'')), RLit ''svc'',
      RSeq (RLit ''deployment'') (ROpt (RLit ''s'')), RLit ''deploy'',
      RSeq (RLit ''pod'') (ROpt (RLit ''s'')),
      RSeq (RLit ''endpointslice'') (ROpt (RLit ''s'')),
      RSeq (RLit ''endpoint'') (ROpt (RLit ''s''))]), RWordB]"

text \<open>Words joined by the class \<open>[-_]\<close>.\<close>

definition dashed :: "string list \<Rightarrow> re" where
  "dashed ws = RSeqs (case map RLit ws of [] \<Rightarrow> [] | r # rs \<Rightarrow>
     r # concat (map (\<lambda>r. [RCls False [(45, 45), (95, 95)], r]) rs))"

definition semantic_knob_re :: re where
  "semantic_knob_re = RAlts [dashed [''max'', ''model'', ''len''], dashed [''max'', ''num'', ''seqs''],
     dashed [''max'', ''num'', ''batched'', ''tokens''], dashed [''gpu'', ''memory'', ''utilization''],
     dashed [''kv'', ''cache'', ''dtype''], dashed [''prefix'', ''caching''],
     dashed [''num'', ''speculative'', ''tokens''], RLit ''speculative'',
     RSeqs [RWordB, RLit ''mtp'', RWordB], dashed [''tensor'', ''parallel''], RLit ''NCCL_'',
     RSeq (RLit ''NCCL'') RWordB, RLit ''fabric0'', RLit ''fabric_ib'', RLit ''selector'',
     RLit ''admission'', dashed [''max'', ''concurrent''], RLit ''vllm:num_requests'',
     RLit ''capacity'']"

definition break_glass_approval_keys :: "string list" where
  "break_glass_approval_keys = [''SHIZUHA_CORTEX_BREAK_GLASS_APPROVAL'',
     ''SHIZUHA_CORTEX_MODEL_SERVING_BREAK_GLASS_APPROVAL'']"

definition break_glass_reason_keys :: "string list" where
  "break_glass_reason_keys = [''SHIZUHA_CORTEX_BREAK_GLASS_REASON'',
     ''SHIZUHA_CORTEX_MODEL_SERVING_BREAK_GLASS_REASON'']"

definition approval_marker_re :: re where
  "approval_marker_re = RSeqs [RBol, RGrp 1 (RAlts (map RLit [''human'', ''operator'', ''hritik'',
     ''admin-ops'', ''ceo'', ''pulse'', ''task'', ''connect'', ''approval''])),
     RCls False [(58, 58), (47, 47), (35, 35), (45, 45)]]"

subsection \<open>The tokenizer\<close>

datatype shell_quote = NoQuote | SingleQuote | DoubleQuote

definition backslash :: char where "backslash = char_of (92::nat)"
definition apostrophe :: char where "apostrophe = char_of (39::nat)"
definition dquote :: char where "dquote = char_of (34::nat)"
definition newline :: char where "newline = char_of (10::nat)"

definition push_current :: "string \<Rightarrow> string list \<Rightarrow> string list" where
  "push_current cur ts = (if cur \<noteq> [] then cur # ts else ts)"

text \<open>
  The loop of \<open>shellTokens\<close>: \<open>shell_loop cs cur q e\<close> is the tokens pushed from the state
  with the characters \<open>cs\<close> left, the current token \<open>cur\<close>, the open quote \<open>q\<close> and the
  escape flag \<open>e\<close>.
\<close>

fun shell_loop :: "string \<Rightarrow> string \<Rightarrow> shell_quote \<Rightarrow> bool \<Rightarrow> string list" where
  "shell_loop [] cur q e = push_current cur []"
| "shell_loop (ch # cs) cur q e =
     (if e then shell_loop cs (cur @ [ch]) q False
      else if ch = backslash \<and> q \<noteq> SingleQuote then shell_loop cs cur q True
      else if q = SingleQuote then
        (if ch = apostrophe then shell_loop cs cur NoQuote False
         else shell_loop cs (cur @ [ch]) q False)
      else if q = DoubleQuote then
        (if ch = dquote then shell_loop cs cur NoQuote False
         else shell_loop cs (cur @ [ch]) q False)
      else if ch = apostrophe then shell_loop cs cur SingleQuote False
      else if ch = dquote then shell_loop cs cur DoubleQuote False
      else if js_ws ch then push_current cur (shell_loop cs [] q False)
      else if ch = CHR '';'' \<or> ch = newline then push_current cur ('';'' # shell_loop cs [] q False)
      else if cs \<noteq> [] \<and> (ch = CHR ''&'' \<or> ch = CHR ''|'') \<and> hd cs = ch then
        push_current cur ([ch, ch] # shell_loop (tl cs) [] q False)
      else if ch = CHR ''|'' then push_current cur (''|'' # shell_loop cs [] q False)
      else shell_loop cs (cur @ [ch]) q False)"

definition shellTokens :: "string \<Rightarrow> string list" where
  "shellTokens command = shell_loop command [] NoQuote False"

definition isSeparator :: "string \<Rightarrow> bool" where
  "isSeparator t \<longleftrightarrow> t = '';'' \<or> t = ''&&'' \<or> t = ''||'' \<or> t = ''|''"

text \<open>\<open>/(?:^|\\/)kubectl(?:\\.exe)?$/\<close>\<close>

definition kubectl_re :: re where
  "kubectl_re = RSeqs [RAlt RBol (RLit ''/''), RLit ''kubectl'', ROpt (RLit ''.exe''), REol]"

definition isKubectlToken :: "string \<Rightarrow> bool" where
  "isKubectlToken t = re_test False kubectl_re t"

subsection \<open>Invocations\<close>

record kubectl_invocation =
  ki_raw :: string
  ki_args :: "string list"
  ki_verb :: "string option"
  ki_namespace :: "string option"
  ki_namespaceExpression :: "string option"
  ki_resolutionFailed :: bool
  ki_allNamespaces :: bool

definition flagConsumesValue :: "string \<Rightarrow> bool" where
  "flagConsumesValue flag = (if js_includes flag ''='' then False else flag \<in> set flags_with_values)"

abbreviation RIdent :: re where
  "RIdent \<equiv> RSeq (RCls False [(65, 90), (97, 122), (95, 95)])
     (RStar (RCls False [(65, 90), (97, 122), (48, 57), (95, 95)]))"

definition ns_variable_re :: re where
  "ns_variable_re = RSeqs [RBol, RLit ''$'',
     RAlt (RGrp 1 RIdent) (RSeqs [RLit ''{'', RGrp 2 RIdent, RLit ''}'']), REol]"

text \<open>The value of a namespace token, and whether it is unresolved.\<close>

definition resolveNamespaceToken :: "string \<Rightarrow> environ \<Rightarrow> string option \<times> bool" where
  "resolveNamespaceToken token env =
     (case re_match False ns_variable_re token of
        Some m \<Rightarrow>
          (let key = (case rm_group m 1 of Some k \<Rightarrow> k
                      | None \<Rightarrow> (case rm_group m 2 of Some k \<Rightarrow> k | None \<Rightarrow> []))
           in case env key of
                Some v \<Rightarrow> if v \<noteq> [] then (Some v, False) else (None, True)
              | None \<Rightarrow> (None, True))
      | None \<Rightarrow>
          if js_includes token ''$'' then (None, True) else (Some token, False))"

record namespace_info =
  ni_namespace :: "string option"
  ni_expression :: "string option"
  ni_failed :: bool
  ni_all :: bool

definition setNamespace :: "environ \<Rightarrow> string option \<Rightarrow> namespace_info \<Rightarrow> namespace_info" where
  "setNamespace env token st = (case token of
      None \<Rightarrow> st
    | Some t \<Rightarrow>
        if t = [] then st
        else let r = resolveNamespaceToken t env in
          st\<lparr>ni_expression := Some t,
             ni_namespace := (case fst r of Some v \<Rightarrow> Some v | None \<Rightarrow> ni_namespace st),
             ni_failed := (ni_failed st \<or> snd r)\<rparr>)"

definition arg_at :: "string list \<Rightarrow> string option" where
  "arg_at args = (case args of [] \<Rightarrow> None | a # _ \<Rightarrow> Some a)"

function namespace_loop :: "environ \<Rightarrow> string list \<Rightarrow> namespace_info \<Rightarrow> namespace_info" where
  "namespace_loop env [] st = st"
| "namespace_loop env (token # args) st =
     (if token = ''-A'' \<or> token = ''--all-namespaces''
      then namespace_loop env args (st\<lparr>ni_all := True\<rparr>)
      else if token = ''-n'' \<or> token = ''--namespace''
      then namespace_loop env (drop 1 args) (setNamespace env (arg_at args) st)
      else if js_starts_with token ''--namespace=''
      then namespace_loop env args (setNamespace env (Some (drop 12 token)) st)
      else if js_starts_with token ''-n='' \<or> js_starts_with token ''-n:''
      then namespace_loop env args (setNamespace env (Some (drop 3 token)) st)
      else namespace_loop env args st)"
  by pat_completeness auto

termination by (relation "measure (\<lambda>(env, args, st). length args)") auto

definition extractNamespace :: "string list \<Rightarrow> environ \<Rightarrow> namespace_info" where
  "extractNamespace args env = namespace_loop env args
     \<lparr>ni_namespace = None, ni_expression = None, ni_failed = False, ni_all = False\<rparr>"

function findVerb :: "string list \<Rightarrow> string option" where
  "findVerb [] = None"
| "findVerb (token # args) =
     (if token = ''--'' then map_option js_lower (arg_at args)
      else if js_starts_with token ''-'' then
        (if flagConsumesValue token then findVerb (drop 1 args) else findVerb args)
      else Some (js_lower token))"
  by pat_completeness auto

termination by (relation "measure length") auto

definition invocation_of :: "environ \<Rightarrow> string \<Rightarrow> string list \<Rightarrow> kubectl_invocation" where
  "invocation_of env token args =
     (let ns = extractNamespace args env in
      \<lparr>ki_raw = js_join '' '' (token # args), ki_args = args, ki_verb = findVerb args,
       ki_namespace = ni_namespace ns, ki_namespaceExpression = ni_expression ns,
       ki_resolutionFailed = ni_failed ns, ki_allNamespaces = ni_all ns\<rparr>)"

fun invocations_loop :: "environ \<Rightarrow> string list \<Rightarrow> kubectl_invocation list" where
  "invocations_loop env [] = []"
| "invocations_loop env (t # ts) =
     (if isKubectlToken t
      then invocation_of env t (takeWhile (\<lambda>u. \<not> isSeparator u) ts) # invocations_loop env ts
      else invocations_loop env ts)"

definition kubectlInvocations :: "string \<Rightarrow> environ \<Rightarrow> kubectl_invocation list" where
  "kubectlInvocations command env = invocations_loop env (shellTokens command)"

subsection \<open>The decision\<close>

definition trustedEnvValue :: "string \<Rightarrow> environ \<Rightarrow> string" where
  "trustedEnvValue key env = js_trim (case env key of None \<Rightarrow> [] | Some v \<Rightarrow> v)"

definition first_value :: "string list \<Rightarrow> environ \<Rightarrow> string" where
  "first_value keys env =
     (case find (\<lambda>v. v \<noteq> []) (map (\<lambda>k. trustedEnvValue k env) keys) of None \<Rightarrow> [] | Some v \<Rightarrow> v)"

text \<open>The approval and the reason.\<close>

definition breakGlass :: "environ \<Rightarrow> (string \<times> string) option" where
  "breakGlass env =
     (let approval = first_value break_glass_approval_keys env;
          reason = first_value break_glass_reason_keys env
      in if approval = [] \<or> reason = [] then None
         else if \<not> re_test True approval_marker_re approval then None
         else if length reason < 12 then None
         else Some (approval, reason))"

definition isReadOnlyKubectl :: "kubectl_invocation \<Rightarrow> bool" where
  "isReadOnlyKubectl ki = (case ki_verb ki of
      None \<Rightarrow> False
    | Some v \<Rightarrow>
        if v = [] \<or> \<not> v \<in> set read_only_kubectl_verbs then False
        else if v = ''auth'' \<and> list_ex (\<lambda>a. js_lower a = ''reconcile'') (ki_args ki) then False
        else True)"

definition isMutatingKubectl :: "kubectl_invocation \<Rightarrow> bool" where
  "isMutatingKubectl ki = (case ki_verb ki of
      None \<Rightarrow> False
    | Some v \<Rightarrow>
        if v = [] then False
        else if v \<in> set mutating_kubectl_verbs then True
        else if v = ''set'' \<or> v = ''rollout'' then True
        else \<not> isReadOnlyKubectl ki)"

definition usesFileInput :: "kubectl_invocation \<Rightarrow> bool" where
  "usesFileInput ki = list_ex (\<lambda>a. a = ''-f'' \<or> a = ''--filename'' \<or> js_starts_with a ''-f=''
     \<or> js_starts_with a ''--filename='') (ki_args ki)"

definition touchesAiModelsNamespace :: "kubectl_invocation \<Rightarrow> bool" where
  "touchesAiModelsNamespace ki \<longleftrightarrow>
     map_option js_lower (ki_namespace ki) = Some ai_models_namespace
     \<or> ki_allNamespaces ki \<or> js_includes (ki_raw ki) ai_models_namespace"

definition touchesProtectedCortexSurface :: "kubectl_invocation \<Rightarrow> bool" where
  "touchesProtectedCortexSurface ki =
     (let raw = ki_raw ki;
          protectedModelName = re_test True model_name_re raw;
          protectedResource = re_test True protected_resource_re raw;
          semanticKnob = re_test True semantic_knob_re raw
      in if touchesAiModelsNamespace ki then True
         else protectedModelName \<or> (protectedResource \<and> semanticKnob))"

definition or_else :: "string option \<Rightarrow> string \<Rightarrow> string" where
  "or_else v d = (case v of None \<Rightarrow> d | Some s \<Rightarrow> s)"

definition ns_label :: "kubectl_invocation \<Rightarrow> string" where
  "ns_label ki = or_else (ki_namespace ki)
     (if ki_allNamespaces ki then ''all namespaces'' else ''implicit/default namespace'')"

text \<open>The reason against one invocation, if any.\<close>

definition invocation_reason :: "kubectl_invocation \<Rightarrow> string option" where
  "invocation_reason ki =
     (if isReadOnlyKubectl ki then None
      else if \<not> isMutatingKubectl ki then None
      else let verb = or_else (ki_verb ki) ''unknown'' in
      if ki_resolutionFailed ki \<and> usesFileInput ki then
        Some (''kubectl '' @ verb @ '' uses unresolved namespace expression (''
          @ or_else (ki_namespaceExpression ki) ''unknown namespace expression''
          @ '') with file-based mutation; refusing to prove it avoids protected Cortex model-serving surfaces: ''
          @ ki_raw ki)
      else if usesFileInput ki \<and> touchesAiModelsNamespace ki then
        Some (''kubectl '' @ verb
          @ '' uses file-based mutation against ai-models/Cortex model-serving namespace (''
          @ ns_label ki
          @ ''); manifest contents must go through Cortex deployment/operator source of truth: ''
          @ ki_raw ki)
      else if \<not> touchesProtectedCortexSurface ki then None
      else Some (''kubectl '' @ verb @ '' targets protected Cortex model-serving surface (''
          @ ns_label ki @ ''): '' @ ki_raw ki))"

definition block_preamble :: "string list" where
  "block_preamble = [''Blocked by Cortex model-serving guardrail.'',
     ''Autonomous agents must not mutate ai-models/Cortex model-serving Kubernetes resources directly.'',
     ''Use Cortex deployment/operator APIs as the source of truth for deploy, teardown, rollout, or runtime-arg changes; read-only kubectl diagnostics remain allowed.'',
     ''Break-glass requires BOTH SHIZUHA_CORTEX_BREAK_GLASS_APPROVAL=<human approval marker, e.g. human:hritik:CTX-###> and SHIZUHA_CORTEX_BREAK_GLASS_REASON=<specific reason> from the trusted runtime environment; inline command assignments do not count.'']"

datatype guardrail_decision =
    Allowed "(string \<times> string) option"
  | Denied string "string list"

definition evaluateCortexKubectlGuardrail :: "string \<Rightarrow> environ \<Rightarrow> guardrail_decision" where
  "evaluateCortexKubectlGuardrail command env =
     (let reasons = List.map_filter invocation_reason (kubectlInvocations command env) in
      if reasons = [] then Allowed None
      else case breakGlass env of
        Some marker \<Rightarrow> Allowed (Some marker)
      | None \<Rightarrow> Denied (js_join [newline] (block_preamble @ map (\<lambda>r. ''- '' @ r) reasons)) reasons)"

subsection \<open>The tokenizer on words\<close>

definition plain_char :: "char \<Rightarrow> bool" where
  "plain_char c \<longleftrightarrow> \<not> js_ws c \<and> c \<notin> {backslash, apostrophe, dquote, CHR '';'', CHR ''&'', CHR ''|''}"

text \<open>The ways to write a word: as it is, or between single quotes.\<close>

definition spells :: "string \<Rightarrow> string \<Rightarrow> bool" where
  "spells w s \<longleftrightarrow> w \<noteq> [] \<and> ((s = w \<and> (isSeparator w \<or> (\<forall>c \<in> set w. plain_char c)))
     \<or> (s = apostrophe # w @ [apostrophe] \<and> apostrophe \<notin> set w))"

lemma special_chars: "\<not> js_ws backslash" "\<not> js_ws apostrophe" "\<not> js_ws dquote" "js_ws newline"
  "\<not> js_ws CHR '';''" "\<not> js_ws CHR ''&''" "\<not> js_ws CHR ''|''" "js_ws CHR '' ''"
  "apostrophe \<noteq> backslash" "apostrophe \<noteq> dquote" "dquote \<noteq> backslash"
  "CHR '';'' \<noteq> backslash" "CHR '';'' \<noteq> apostrophe" "CHR '';'' \<noteq> dquote"
  "CHR ''&'' \<noteq> backslash" "CHR ''&'' \<noteq> apostrophe" "CHR ''&'' \<noteq> dquote" "CHR ''&'' \<noteq> newline"
  "CHR ''|'' \<noteq> backslash" "CHR ''|'' \<noteq> apostrophe" "CHR ''|'' \<noteq> dquote" "CHR ''|'' \<noteq> newline"
  "CHR '' '' \<noteq> backslash" "CHR '' '' \<noteq> apostrophe" "CHR '' '' \<noteq> dquote" "CHR '' '' \<noteq> newline"
  "newline \<noteq> backslash" "newline \<noteq> apostrophe" "newline \<noteq> dquote"
  by code_simp+

lemma loop_plain: "\<forall>c \<in> set w. plain_char c \<Longrightarrow>
    shell_loop (w @ rest) cur NoQuote False = shell_loop rest (cur @ w) NoQuote False"
proof (induction w arbitrary: cur)
  case (Cons c w)
  then have "plain_char c" by simp
  moreover from this have "c \<noteq> newline" using special_chars(4) by (auto simp: plain_char_def)
  ultimately show ?case using Cons by (simp add: plain_char_def)
qed simp

lemma loop_single: "apostrophe \<notin> set w \<Longrightarrow>
    shell_loop (w @ apostrophe # rest) cur SingleQuote False = shell_loop rest (cur @ w) NoQuote False"
  by (induction w arbitrary: cur) (auto simp: special_chars)

lemma loop_word:
  assumes "spells w s"
  shows "shell_loop s [] NoQuote False = [w]"
    and "shell_loop (s @ CHR '' '' # rest) [] NoQuote False = w # shell_loop rest [] NoQuote False"
proof -
  have sp: "shell_loop (CHR '' '' # rest) cur NoQuote False
      = push_current cur (shell_loop rest [] NoQuote False)" for cur
    by (simp add: special_chars)
  consider "s = w" "\<forall>c \<in> set w. plain_char c" "w \<noteq> []" | "s = w" "isSeparator w"
    | "s = apostrophe # w @ [apostrophe]" "apostrophe \<notin> set w" "w \<noteq> []"
    using assms by (auto simp: spells_def)
  then have "shell_loop s [] NoQuote False = [w] \<and>
      shell_loop (s @ CHR '' '' # rest) [] NoQuote False = w # shell_loop rest [] NoQuote False"
  proof cases
    case 1
    with loop_plain [of w "[]" "[]"] loop_plain [of w "CHR '' '' # rest" "[]"] sp show ?thesis
      by (simp add: push_current_def)
  next
    case 2
    then show ?thesis by (auto simp: isSeparator_def special_chars push_current_def)
  next
    case 3
    with loop_single [of w "[]" "[]"] loop_single [of w "CHR '' '' # rest" "[]"] sp show ?thesis
      by (simp add: push_current_def special_chars)
  qed
  then show "shell_loop s [] NoQuote False = [w]"
    and "shell_loop (s @ CHR '' '' # rest) [] NoQuote False = w # shell_loop rest [] NoQuote False"
    by blast+
qed

lemma tokens_of_words: "list_all2 spells ws ss \<Longrightarrow> shellTokens (js_join '' '' ss) = ws"
proof (induction ws arbitrary: ss)
  case Nil
  then show ?case by (simp add: shellTokens_def push_current_def)
next
  case (Cons w ws)
  then obtain s ss' where ss: "ss = s # ss'" "spells w s" "list_all2 spells ws ss'"
    by (auto simp: list_all2_Cons1)
  show ?case
  proof (cases ss')
    case Nil
    with ss loop_word(1) show ?thesis by (simp add: shellTokens_def)
  next
    case (Cons u us)
    with ss Cons.IH [of ss'] loop_word(2) [OF ss(2)] show ?thesis by (simp add: shellTokens_def)
  qed
qed

subsection \<open>Mutations are denied\<close>

lemma invocations_suffix: "set (invocations_loop env ts) \<subseteq> set (invocations_loop env (pre @ ts))"
  by (induction pre) auto

lemma invocation_found:
  assumes "isKubectlToken k" "\<forall>a \<in> set args. \<not> isSeparator a"
    and "post = [] \<or> isSeparator (hd post)"
  shows "invocation_of env k args \<in> set (invocations_loop env (pre @ k # args @ post))"
proof -
  have "takeWhile (\<lambda>u. \<not> isSeparator u) (args @ post) = args"
    using assms(2,3) by (cases post) (auto simp: takeWhile_append)
  then have "invocation_of env k args \<in> set (invocations_loop env (k # args @ post))"
    using assms(1) by simp
  then show ?thesis using invocations_suffix by blast
qed

lemma includes_append: "js_includes a p \<Longrightarrow> js_includes (x @ a @ y) p"
  unfolding js_includes_iff by (metis append.assoc)

lemma includes_join: "a \<in> set ws \<Longrightarrow> js_includes a p \<Longrightarrow> js_includes (js_join sep ws) p"
proof (induction sep ws rule: js_join.induct)
  case (3 sep w v ws)
  show ?case
  proof (cases "a = w")
    case True
    with 3(3) includes_append [of a p "[]"] show ?thesis by simp
  next
    case False
    with 3 includes_append [of "js_join sep (v # ws)" p "w @ sep" "[]"] show ?thesis by simp
  qed
qed simp_all

lemma map_filter_mem: "x \<in> set xs \<Longrightarrow> f x = Some y \<Longrightarrow> y \<in> set (List.map_filter f xs)"
  by (force simp: map_filter_def)

lemma denied_iff:
  "(\<exists>m rs. evaluateCortexKubectlGuardrail command env = Denied m rs) \<longleftrightarrow>
     breakGlass env = None \<and>
     (\<exists>ki \<in> set (kubectlInvocations command env). invocation_reason ki \<noteq> None)"
proof -
  have "List.map_filter invocation_reason kis = [] \<longleftrightarrow> (\<forall>ki \<in> set kis. invocation_reason ki = None)"
    for kis by (auto simp: map_filter_def filter_empty_conv)
  then show ?thesis by (auto simp: evaluateCortexKubectlGuardrail_def Let_def split: option.splits)
qed

lemma mutation_reason:
  assumes "ki_verb ki = Some v" "v \<noteq> []" "v \<notin> set read_only_kubectl_verbs"
    and "touchesProtectedCortexSurface ki"
  shows "invocation_reason ki \<noteq> None"
proof -
  have "\<not> isReadOnlyKubectl ki" using assms(1-3) by (simp add: isReadOnlyKubectl_def)
  moreover from this have "isMutatingKubectl ki" using assms(1,2) by (simp add: isMutatingKubectl_def)
  ultimately show ?thesis using assms(4) by (simp add: invocation_reason_def Let_def)
qed

lemma ai_models_reason:
  assumes "list_all2 spells (pre @ k # args @ post) ss" and "isKubectlToken k"
    and "\<forall>a \<in> set args. \<not> isSeparator a" and "post = [] \<or> isSeparator (hd post)"
    and "findVerb args = Some v" "v \<noteq> []" "v \<notin> set read_only_kubectl_verbs"
    and "a \<in> set args" "js_includes a ai_models_namespace"
  shows "\<exists>ki \<in> set (kubectlInvocations (js_join '' '' ss) env). invocation_reason ki \<noteq> None"
proof -
  let ?ki = "invocation_of env k args"
  have "?ki \<in> set (kubectlInvocations (js_join '' '' ss) env)"
    unfolding kubectlInvocations_def tokens_of_words [OF assms(1)]
    by (rule invocation_found) (use assms(2-4) in auto)
  moreover have "js_includes (ki_raw ?ki) ai_models_namespace"
    using includes_join [of a "k # args"] assms(8,9) by (simp add: invocation_of_def Let_def)
  then have "invocation_reason ?ki \<noteq> None"
    using assms(5-7) by (intro mutation_reason [of _ v])
      (simp_all add: invocation_of_def Let_def touchesProtectedCortexSurface_def
        touchesAiModelsNamespace_def)
  ultimately show ?thesis by blast
qed

lemma approved_decision:
  assumes "breakGlass env = Some marker"
    and "\<exists>ki \<in> set (kubectlInvocations command env). invocation_reason ki \<noteq> None"
  shows "evaluateCortexKubectlGuardrail command env = Allowed (Some marker)"
  using assms map_filter_mem [of _ "kubectlInvocations command env" invocation_reason]
  by (force simp: evaluateCortexKubectlGuardrail_def Let_def)


definition scale_args :: "string list" where
  "scale_args = [''-n'', ''ai-models'', ''scale'', ''sts/vllm'', ''--replicas=0'']"


text \<open>
  No false denial of diagnostics, and break-glass is narrow: a denial happens only
  without break-glass and only if some kubectl call of the command is not read-only and
  either touches a protected surface or changes objects from a file in a namespace that
  cannot be resolved; and break-glass is accepted only with an approval that names its
  approver and a reason of at least twelve characters, both from the environment.
\<close>

theorem denial_sound:
  "(evaluateCortexKubectlGuardrail command env = Denied m rs \<longrightarrow>
      breakGlass env = None \<and>
      (\<exists>ki \<in> set (kubectlInvocations command env). \<not> isReadOnlyKubectl ki \<and>
         (touchesProtectedCortexSurface ki \<or> ki_resolutionFailed ki \<and> usesFileInput ki)))
   \<and> (evaluateCortexKubectlGuardrail command env = Allowed (Some (approval, reason)) \<longrightarrow>
        re_test True approval_marker_re approval \<and> 12 \<le> length reason
        \<and> approval = first_value break_glass_approval_keys env
        \<and> reason = first_value break_glass_reason_keys env)"
proof (rule conjI; rule impI)
  assume "evaluateCortexKubectlGuardrail command env = Denied m rs"
  with denied_iff [of command env] obtain ki where ki: "breakGlass env = None"
    "ki \<in> set (kubectlInvocations command env)" "invocation_reason ki \<noteq> None" by blast
  from ki(3) have "\<not> isReadOnlyKubectl ki" "touchesProtectedCortexSurface ki
      \<or> ki_resolutionFailed ki \<and> usesFileInput ki"
    by (auto simp: invocation_reason_def touchesProtectedCortexSurface_def Let_def split: if_splits)
  with ki(1,2) show "breakGlass env = None \<and>
      (\<exists>ki \<in> set (kubectlInvocations command env). \<not> isReadOnlyKubectl ki \<and>
         (touchesProtectedCortexSurface ki \<or> ki_resolutionFailed ki \<and> usesFileInput ki))"
    by blast
next
  assume "evaluateCortexKubectlGuardrail command env = Allowed (Some (approval, reason))"
  then have "breakGlass env = Some (approval, reason)"
    by (auto simp: evaluateCortexKubectlGuardrail_def Let_def split: if_splits option.splits)
  then show "re_test True approval_marker_re approval \<and> 12 \<le> length reason
        \<and> approval = first_value break_glass_approval_keys env
        \<and> reason = first_value break_glass_reason_keys env"
    by (auto simp: breakGlass_def Let_def split: if_splits)
qed

definition approved_env :: environ where
  "approved_env = (\<lambda>_. None)(''SHIZUHA_CORTEX_BREAK_GLASS_APPROVAL'' \<mapsto> ''human:hritik'',
      ''SHIZUHA_CORTEX_BREAK_GLASS_REASON'' \<mapsto> ''node drained by hand'')"

lemma denial_sound_witness:
  "re_test True approval_marker_re ''human:hritik'' \<and>
   ''human:hritik'' = first_value break_glass_approval_keys approved_env"
proof -
  let ?cmd = "js_join '' '' ([''kubectl''] @ scale_args)"
  have "breakGlass approved_env = Some (''human:hritik'', ''node drained by hand'')" by code_simp
  moreover have "\<exists>ki \<in> set (kubectlInvocations ?cmd approved_env). invocation_reason ki \<noteq> None"
  proof (rule ai_models_reason [where pre = "[]" and k = "''kubectl''" and args = scale_args
        and post = "[]" and v = "''scale''" and a = "''ai-models''"])
    show "list_all2 spells ([] @ ''kubectl'' # scale_args @ []) ([''kubectl''] @ scale_args)"
      by code_simp
  qed code_simp+
  ultimately have "evaluateCortexKubectlGuardrail ?cmd approved_env
      = Allowed (Some (''human:hritik'', ''node drained by hand''))"
    by (rule approved_decision)
  with denial_sound [where command = ?cmd and env = approved_env] show ?thesis by blast
qed

subsection \<open>What the tokenizer does not see\<close>

text \<open>
  A line break is white space to the loop (the test for it comes first), so it does not
  end an invocation as \<open>;\<close> does.
\<close>

lemma newline_joins_commands:
  assumes "\<forall>c \<in> set a. plain_char c" "\<forall>c \<in> set b. plain_char c" "a \<noteq> []" "b \<noteq> []"
  shows "shellTokens (a @ newline # b) = [a, b]"
    and "shellTokens (a @ '';'' @ b) = [a, '';'', b]"
  using loop_plain [OF assms(1), of "newline # b" "[]"] loop_plain [OF assms(2), of "[]" "[]"]
    loop_plain [OF assms(1), of "CHR '';'' # b" "[]"] assms(3,4)
  by (simp_all add: shellTokens_def special_chars push_current_def)

text \<open>A kubectl call inside the quoted command of another shell is one word, and is not seen.\<close>

lemma no_kubectl_allowed:
  "\<forall>w \<in> set ws. \<not> isKubectlToken w \<Longrightarrow> invocations_loop env ws = []"
  by (induction ws) auto

lemma nested_shell_unseen:
  "evaluateCortexKubectlGuardrail
     (js_join '' '' [''bash'', ''-c'', apostrophe # ''kubectl delete ns ai-models'' @ [apostrophe]]) env
   = Allowed None"
proof -
  have t: "shellTokens (js_join '' '' [''bash'', ''-c'',
      apostrophe # ''kubectl delete ns ai-models'' @ [apostrophe]])
      = [''bash'', ''-c'', ''kubectl delete ns ai-models'']"
    by (rule tokens_of_words) code_simp
  have "\<not> isKubectlToken ''bash''" "\<not> isKubectlToken ''-c''"
    "\<not> isKubectlToken ''kubectl delete ns ai-models''"
    by code_simp+
  then have "invocations_loop env [''bash'', ''-c'', ''kubectl delete ns ai-models''] = []"
    by (intro no_kubectl_allowed) auto
  then show ?thesis
    unfolding evaluateCortexKubectlGuardrail_def kubectlInvocations_def t
    by (simp add: Let_def map_filter_def)
qed

end
