(* ===== verification/JsPath.thy ===== *)
theory JsPath
  imports Prelude
begin

text \<open>
  \<open>path.resolve\<close> of Node on POSIX: the segments of the absolute path are walked with the
  resolved ones on a stack.  The working directory is an argument.
\<close>

text \<open>The segments of a path, walked with the resolved ones on a stack.\<close>

fun walk_segments :: "string list \<Rightarrow> string list \<Rightarrow> string list" where
  "walk_segments stack [] = rev stack"
| "walk_segments stack (s # segs) =
     (if s = [] \<or> s = ''.'' then walk_segments stack segs
      else if s = ''..'' then walk_segments (tl stack) segs
      else walk_segments (s # stack) segs)"

definition path_resolve :: "string \<Rightarrow> string \<Rightarrow> string" where
  "path_resolve cwd p =
     ''/'' @ js_join ''/'' (walk_segments [] (js_split (CHR ''/'')
       (if js_starts_with p ''/'' then p else cwd @ ''/'' @ p)))"

text \<open>A resolved path has no empty segment and no dot segment, and resolving it again is a no-op.\<close>

definition clean_segment :: "string \<Rightarrow> bool" where
  "clean_segment s \<longleftrightarrow> s \<noteq> [] \<and> s \<noteq> ''.'' \<and> s \<noteq> ''..'' \<and> CHR ''/'' \<notin> set s"

lemma walk_clean:
  "\<forall>s \<in> set stack. clean_segment s \<Longrightarrow> \<forall>s \<in> set segs. CHR ''/'' \<notin> set s \<Longrightarrow>
     \<forall>s \<in> set (walk_segments stack segs). clean_segment s"
proof (induction stack segs rule: walk_segments.induct)
  case (2 stack s segs)
  consider "s = [] \<or> s = ''.''" | "\<not> (s = [] \<or> s = ''.'')" "s = ''..''"
    | "\<not> (s = [] \<or> s = ''.'')" "s \<noteq> ''..''" by blast
  then show ?case
  proof cases
    case 1
    with "2.IH"(1) "2.prems" show ?thesis by simp
  next
    case 2
    have "\<forall>s \<in> set (tl stack). clean_segment s" using "2.prems"(1) by (cases stack) auto
    with 2 "2.IH"(2) "2.prems"(2) show ?thesis by simp
  next
    case 3
    then have "clean_segment s" using "2.prems"(2) by (simp add: clean_segment_def)
    with 3 "2.IH"(3) "2.prems" show ?thesis by simp
  qed
qed simp

lemma walk_id: "\<forall>s \<in> set segs. clean_segment s \<Longrightarrow> walk_segments stack segs = rev stack @ segs"
  by (induction segs arbitrary: stack) (auto simp: clean_segment_def)

lemma path_resolve_idem: "path_resolve cwd' (path_resolve cwd p) = path_resolve cwd p"
proof -
  let ?segs = "walk_segments [] (js_split (CHR ''/'')
       (if js_starts_with p ''/'' then p else cwd @ ''/'' @ p))"
  have c: "\<forall>s \<in> set ?segs. clean_segment s"
    by (rule walk_clean) (use js_split_sep_free in auto)
  have r: "path_resolve cwd p = ''/'' @ js_join ''/'' ?segs" by (simp add: path_resolve_def)
  have sp: "js_split (CHR ''/'') (''/'' @ js_join ''/'' ?segs) = [] # js_split (CHR ''/'') (js_join ''/'' ?segs)"
    by simp
  have "walk_segments [] (js_split (CHR ''/'') (js_join ''/'' ?segs)) = ?segs"
  proof (cases "?segs = []")
    case False
    then have "js_split (CHR ''/'') (js_join ''/'' ?segs) = ?segs"
      using c by (intro js_split_join) (auto simp: clean_segment_def)
    then show ?thesis using walk_id [OF c, of "[]"] by simp
  qed simp
  then show ?thesis unfolding r by (simp add: path_resolve_def js_starts_with_def)
qed


end
