(* ===== verification/SqlTable.thy ===== *)
theory SqlTable
  imports JsSort
begin

text \<open>
  What the SQL statements of the source use: a table is the list of its rows in the order of
  their row ids, \<open>SELECT ... WHERE\<close> is a filter, \<open>UPDATE ... WHERE\<close> maps the rows that
  satisfy the condition, \<open>DELETE\<close> keeps the others, \<open>INSERT\<close> appends (a fresh row id is above
  all others), and \<open>ORDER BY\<close> is a stable sort by a list of keys.
\<close>

definition sql_update :: "('r \<Rightarrow> bool) \<Rightarrow> ('r \<Rightarrow> 'r) \<Rightarrow> 'r list \<Rightarrow> 'r list" where
  "sql_update p f rows = map (\<lambda>r. if p r then f r else r) rows"

definition sql_delete :: "('r \<Rightarrow> bool) \<Rightarrow> 'r list \<Rightarrow> 'r list" where
  "sql_delete p rows = filter (\<lambda>r. \<not> p r) rows"

text \<open>\<open>CAST(s AS INTEGER)\<close>: the integer a text starts with, 0 without one.\<close>

definition sql_int :: "string \<Rightarrow> int" where
  "sql_int s = (case js_parse_int s of None \<Rightarrow> 0 | Some n \<Rightarrow> n)"

text \<open>\<open>LIMIT n\<close>: a negative limit is none.\<close>

definition sql_limit :: "int \<Rightarrow> 'r list \<Rightarrow> 'r list" where
  "sql_limit n rows = (if n < 0 then rows else take (nat n) rows)"

subsection \<open>Orders\<close>

definition ascending :: "('r \<Rightarrow> 'k::linorder) \<Rightarrow> 'r \<Rightarrow> 'r \<Rightarrow> int" where
  "ascending f a b = (if f a < f b then - 1 else if f a = f b then 0 else 1)"

definition descending :: "('r \<Rightarrow> 'k::linorder) \<Rightarrow> 'r \<Rightarrow> 'r \<Rightarrow> int" where
  "descending f a b = ascending f b a"

text \<open>\<open>NULL\<close> sorts before every value.\<close>

fun nulls_first :: "'k option \<Rightarrow> 'k list" where
  "nulls_first None = []"
| "nulls_first (Some k) = [k]"

fun order_by :: "('r \<Rightarrow> 'r \<Rightarrow> int) list \<Rightarrow> 'r \<Rightarrow> 'r \<Rightarrow> int" where
  "order_by [] a b = 0"
| "order_by (c # cs) a b = (let n = c a b in if n \<noteq> 0 then n else order_by cs a b)"

lemma ascending_comparator: "js_comparator (ascending (f :: 'r \<Rightarrow> 'k::linorder))"
  by unfold_locales (auto simp: ascending_def split: if_splits)

lemma descending_comparator: "js_comparator (descending (f :: 'r \<Rightarrow> 'k::linorder))"
  by unfold_locales (auto simp: descending_def ascending_def split: if_splits)

lemma lexi_comparator:
  assumes "js_comparator c" "js_comparator d"
  shows "js_comparator (\<lambda>a b. if c a b \<noteq> 0 then c a b else d a b)"
proof
  note ca = js_comparator.cmp_anti [OF assms(1)] and da = js_comparator.cmp_anti [OF assms(2)]
  note ct = js_comparator.cmp_trans [OF assms(1)] and dt = js_comparator.cmp_trans [OF assms(2)]
  note cz = js_comparator.cmp_zero_sym [OF assms(1)]
  show "(if c y x \<noteq> 0 then c y x else d y x) \<le> 0 \<longleftrightarrow> 0 \<le> (if c x y \<noteq> 0 then c x y else d x y)" for x y
    using ca [of y x] da [of y x] cz [of x y] by simp
  fix x y z
  assume 1: "(if c x y \<noteq> 0 then c x y else d x y) \<le> 0" and 2: "(if c y z \<noteq> 0 then c y z else d y z) \<le> 0"
  then have le: "c x y \<le> 0" "c y z \<le> 0" by (auto split: if_splits)
  then have xz: "c x z \<le> 0" by (rule ct)
  show "(if c x z \<noteq> 0 then c x z else d x z) \<le> 0"
  proof (cases "c x z = 0")
    case True
    then have "c z x \<le> 0" using cz [of x z] by simp
    then have "c y x \<le> 0" "c z y \<le> 0" using ct le by blast+
    then have "c x y = 0" "c y z = 0" using ca [of y x] ca [of z y] le by linarith+
    then show ?thesis using 1 2 True dt by auto
  qed (use xz in simp)
qed

lemma order_comparator: "\<forall>c \<in> set cs. js_comparator c \<Longrightarrow> js_comparator (order_by cs)"
proof (induction cs)
  case Nil
  show ?case by unfold_locales auto
next
  case (Cons c cs)
  have "order_by (c # cs) = (\<lambda>a b. if c a b \<noteq> 0 then c a b else order_by cs a b)"
    by (intro ext) (simp add: Let_def)
  then show ?case using Cons lexi_comparator [of c "order_by cs"] by simp
qed

interpretation ordered: js_comparator "ascending f" for f :: "'r \<Rightarrow> 'k::linorder"
  by (rule ascending_comparator)

interpretation backwards: js_comparator "descending f" for f :: "'r \<Rightarrow> 'k::linorder"
  by (rule descending_comparator)

lemma descending_le: "descending f a b \<le> 0 \<longleftrightarrow> f b \<le> f a"
  by (auto simp: descending_def ascending_def)

lemma ascending_le: "ascending f a b \<le> 0 \<longleftrightarrow> f a \<le> f b"
  by (auto simp: ascending_def)

lemma sort_greatest:
  assumes "js_sort (descending f) rows = t # ts"
  shows "t \<in> set rows \<and> (\<forall>u \<in> set rows. f u \<le> f t)"
proof -
  have "set rows = set (t # ts)" using assms by (metis set_js_sort)
  moreover have "cmp_sorted (descending f) (t # ts)" using backwards.sort_sorted [of f rows] assms by simp
  ultimately show ?thesis by (auto simp: descending_le)
qed

subsection \<open>Tables\<close>

lemma sql_update_same: "(\<And>r. r \<in> set rows \<Longrightarrow> p r \<Longrightarrow> f r = r) \<Longrightarrow> sql_update p f rows = rows"
  by (induction rows) (auto simp: sql_update_def)

lemma map_sql_update: "(\<And>r. p r \<Longrightarrow> g (f r) = g r) \<Longrightarrow> map g (sql_update p f rows) = map g rows"
  by (induction rows) (auto simp: sql_update_def)

lemma set_sql_update: "set (sql_update p f rows) = (\<lambda>r. if p r then f r else r) ` set rows"
  by (simp add: sql_update_def)

lemma length_sql_update [simp]: "length (sql_update p f rows) = length rows"
  by (simp add: sql_update_def)

lemma find_key: "distinct (map k rows) \<Longrightarrow> find (\<lambda>x. k x = a) rows = Some r \<longleftrightarrow> r \<in> set rows \<and> k r = a"
  by (induction rows) (auto simp: rev_image_eqI)

text \<open>A unique column stays unique when the row of one key gets a value that no other row has.\<close>

lemma distinct_update_one:
  assumes "distinct (map k rows)" "distinct (map g rows)" "\<And>q. q \<in> set rows \<Longrightarrow> k q \<noteq> a \<Longrightarrow> g q \<noteq> x" "\<And>q. g (f q) = x"
  shows "distinct (map g (sql_update (\<lambda>q. k q = a) f rows))"
  using assms(1-3)
proof (induction rows)
  case (Cons r rows)
  have ih: "distinct (map g (sql_update (\<lambda>q. k q = a) f rows))" using Cons by simp
  show ?case
  proof (cases "k r = a")
    case True
    then have "a \<notin> k ` set rows" using Cons.prems(1) by simp
    then have "\<forall>q \<in> set rows. k q \<noteq> a" by blast
    then have "sql_update (\<lambda>q. k q = a) f rows = rows" by (auto simp: sql_update_def intro: map_idI)
    moreover have "x \<notin> g ` set rows" using \<open>\<forall>q \<in> set rows. k q \<noteq> a\<close> Cons.prems(3) by force
    ultimately show ?thesis using True ih assms(4) by (simp add: sql_update_def)
  next
    case False
    then have "g r \<noteq> g (if k q = a then f q else q)" if "q \<in> set rows" for q
      using Cons.prems(2,3) assms(4) that by (auto simp: rev_image_eqI)
    then have "g r \<notin> set (map g (sql_update (\<lambda>q. k q = a) f rows))" by (fastforce simp: sql_update_def)
    then show ?thesis using False ih by (simp add: sql_update_def)
  qed
qed (simp add: sql_update_def)

end
