(* ===== verification/Permissions.thy ===== *)
theory Permissions
  imports JsPath SqlTable
begin

text \<open>
  The permission engine, \<open>src/src/permissions/engine.ts\<close> with \<open>rules.ts\<close> and \<open>types.ts\<close>:
  plan mode, explicit rules, network policy, session approvals and the mode defaults, in
  the order \<open>check\<close> tries them.

  A request has the two input fields that the engine reads, \<open>file_path\<close> and \<open>url\<close>, as the
  optional strings the code takes them for.  The host name of a URL is what the runtime's
  URL parser returns, a parameter \<open>url_host\<close>: \<open>None\<close> is the exception of a malformed URL.
  \<open>path.resolve\<close> is the POSIX one, with the working directory as an argument.
\<close>

subsection \<open>Requests, rules and policies\<close>

datatype permission_mode = PlanMode | Supervised | Autonomous

datatype permission_decision = PAllow | PDeny | PAsk

datatype risk_level = LowRisk | MediumRisk | HighRisk

record permission_rule =
  pr_tool :: string
  pr_pattern :: "string option"
  pr_decision :: permission_decision

record permission_request =
  rq_toolName :: string
  rq_file_path :: "string option"
  rq_url :: "string option"
  rq_risk :: risk_level

record network_policy =
  np_networkAccess :: bool
  np_allowedHosts :: "string list"

definition default_rules :: "permission_rule list" where
  "default_rules = map (\<lambda>(t, d). \<lparr>pr_tool = t, pr_pattern = None, pr_decision = d\<rparr>)
     [(''read'', PAllow), (''glob'', PAllow), (''grep'', PAllow), (''ask_user'', PAllow),
      (''write'', PAsk), (''edit'', PAsk), (''bash'', PAsk), (''web_fetch'', PAllow),
      (''web_search'', PAllow)]"

definition network_tools :: "string list" where
  "network_tools = [''web_fetch'', ''web_search'']"

record permission_engine =
  pe_mode :: permission_mode
  pe_rules :: "permission_rule list"
  pe_approvals :: "string set"
  pe_planFile :: "string option"
  pe_policy :: "network_policy option"

text \<open>The constructor; the persisted approvals are loaded into the session set.\<close>

definition new_engine :: "permission_mode \<Rightarrow> permission_rule list \<Rightarrow> string list \<Rightarrow>
    network_policy option \<Rightarrow> permission_engine" where
  "new_engine mode rules persisted policy = \<lparr>pe_mode = mode, pe_rules = rules,
     pe_approvals = set persisted, pe_planFile = None, pe_policy = policy\<rparr>"

subsection \<open>Hosts\<close>

definition matchHost :: "string \<Rightarrow> string \<Rightarrow> bool" where
  "matchHost pattern hostname =
     (let p = js_lower pattern in
      if p = hostname then True
      else if js_starts_with p ''*.'' then
        js_ends_with hostname (drop 1 p) \<or> hostname = drop 2 p
      else False)"

subsection \<open>The check\<close>

definition matchesRule :: "permission_rule \<Rightarrow> permission_request \<Rightarrow> bool" where
  "matchesRule rule rq =
     (if pr_tool rule = ''*'' then True
      else if pr_tool rule = rq_toolName rq then True
      else js_ends_with (pr_tool rule) ''*''
           \<and> js_starts_with (rq_toolName rq) (butlast (pr_tool rule)))"

definition isPlanFileAccess :: "string \<Rightarrow> permission_engine \<Rightarrow> permission_request \<Rightarrow> bool" where
  "isPlanFileAccess cwd e rq =
     (if rq_toolName rq \<noteq> ''write'' \<and> rq_toolName rq \<noteq> ''edit'' then False
      else case (rq_file_path rq, pe_planFile e) of
        (Some f, Some plan) \<Rightarrow>
          if f = [] \<or> plan = [] then False
          else path_resolve cwd f = path_resolve cwd plan
      | _ \<Rightarrow> False)"

definition checkNetworkAccess ::
  "(string \<Rightarrow> string option) \<Rightarrow> permission_engine \<Rightarrow> permission_request \<Rightarrow> permission_decision" where
  "checkNetworkAccess url_host e rq = (case pe_policy e of
      None \<Rightarrow> PAllow
    | Some pol \<Rightarrow>
        if \<not> np_networkAccess pol then PDeny
        else if np_allowedHosts pol = [] then PAllow
        else case rq_url rq of
          None \<Rightarrow> PAllow
        | Some url \<Rightarrow>
            if url = [] then PAllow
            else case url_host url of
              None \<Rightarrow> PDeny
            | Some h \<Rightarrow>
                if list_ex (\<lambda>p. matchHost p (js_lower h)) (np_allowedHosts pol)
                then PAllow else PDeny)"

definition mode_default :: "permission_mode \<Rightarrow> permission_request \<Rightarrow> permission_decision" where
  "mode_default mode rq = (case mode of
      Autonomous \<Rightarrow> PAllow
    | Supervised \<Rightarrow> if rq_risk rq = LowRisk then PAllow else PAsk
    | PlanMode \<Rightarrow> PAsk)"

definition perm_check ::
  "string \<Rightarrow> (string \<Rightarrow> string option) \<Rightarrow> permission_engine \<Rightarrow> permission_request \<Rightarrow> permission_decision" where
  "perm_check cwd url_host e rq =
     (if pe_mode e = PlanMode then
        (if rq_risk rq = LowRisk then PAllow
         else if rq_toolName rq = ''exit_plan_mode'' then PAsk
         else if (case pe_planFile e of None \<Rightarrow> False | Some p \<Rightarrow> p \<noteq> []) \<and> isPlanFileAccess cwd e rq
         then PAllow
         else PDeny)
      else case find (\<lambda>rule. matchesRule rule rq) (pe_rules e) of
        Some rule \<Rightarrow> pr_decision rule
      | None \<Rightarrow>
          if pe_policy e \<noteq> None \<and> rq_toolName rq \<in> set network_tools
             \<and> checkNetworkAccess url_host e rq = PDeny then PDeny
          else if rq_toolName rq \<in> pe_approvals e then PAllow
          else mode_default (pe_mode e) rq)"

text \<open>The setters; \<open>approve\<close> also hands the name to the persistence callback.\<close>

definition perm_approve :: "string \<Rightarrow> permission_engine \<Rightarrow> permission_engine \<times> string" where
  "perm_approve tool e = (e\<lparr>pe_approvals := insert tool (pe_approvals e)\<rparr>, tool)"

definition setMode :: "permission_mode \<Rightarrow> permission_engine \<Rightarrow> permission_engine" where
  "setMode mode e = e\<lparr>pe_mode := mode\<rparr>"

definition setPlanFilePath :: "string option \<Rightarrow> permission_engine \<Rightarrow> permission_engine" where
  "setPlanFilePath f e = e\<lparr>pe_planFile := f\<rparr>"

definition setNetworkPolicy :: "network_policy option \<Rightarrow> permission_engine \<Rightarrow> permission_engine" where
  "setNetworkPolicy pol e = e\<lparr>pe_policy := pol\<rparr>"

definition parseRules :: "(string \<times> string option \<times> permission_decision) list \<Rightarrow> permission_rule list" where
  "parseRules raw = map (\<lambda>(t, p, d). \<lparr>pr_tool = t, pr_pattern = p, pr_decision = d\<rparr>) raw"

subsection \<open>What the checks promise\<close>

text \<open>
  C23. Plan mode is read-only whatever the configuration says: no rule, approval or network
  policy is consulted, and a request that is not low-risk is allowed only when it is a
  write or an edit whose path resolves to the plan file itself; leaving plan mode always
  asks.
\<close>

theorem plan_mode_strict:
  assumes "pe_mode e = PlanMode" and "rq_risk rq \<noteq> LowRisk"
  shows "(perm_check cwd url_host e rq = PAllow \<longrightarrow>
            (rq_toolName rq = ''write'' \<or> rq_toolName rq = ''edit'') \<and>
            (\<exists>f plan. rq_file_path rq = Some f \<and> pe_planFile e = Some plan
               \<and> path_resolve cwd f = path_resolve cwd plan))
    \<and> (rq_toolName rq = ''exit_plan_mode'' \<longrightarrow> perm_check cwd url_host e rq = PAsk)
    \<and> perm_check cwd url_host e rq
        = perm_check cwd url_host (e\<lparr>pe_rules := rules, pe_approvals := approvals, pe_policy := pol\<rparr>) rq"
  using assms by (auto simp: perm_check_def isPlanFileAccess_def split: option.splits if_splits)

definition plan_write :: permission_request where
  "plan_write = \<lparr>rq_toolName = ''write'', rq_file_path = Some ''docs/../plan.md'', rq_url = None,
     rq_risk = MediumRisk\<rparr>"

lemma plan_mode_strict_witness:
  "perm_check ''/w'' (\<lambda>_. None) (setPlanFilePath (Some ''/w/plan.md'') (new_engine PlanMode [] [] None))
     plan_write = PAllow
   \<and> path_resolve ''/w'' ''docs/../plan.md'' = path_resolve ''/w'' ''/w/plan.md''"
proof -
  let ?e = "setPlanFilePath (Some ''/w/plan.md'') (new_engine PlanMode [] [] None)"
  have a: "perm_check ''/w'' (\<lambda>_. None) ?e plan_write = PAllow" by code_simp
  have m: "pe_mode ?e = PlanMode" "rq_risk plan_write \<noteq> LowRisk"
    by (simp_all add: setPlanFilePath_def new_engine_def plan_write_def)
  from plan_mode_strict [OF m, of "''/w''" "\<lambda>_. None"] a show ?thesis
    by (auto simp: setPlanFilePath_def plan_write_def)
qed

text \<open>A wildcard pattern matches the domain and its subdomains, and nothing that only ends alike.\<close>

lemma matchHost_iff:
  "matchHost pattern hostname \<longleftrightarrow> js_lower pattern = hostname \<or>
     (\<exists>d. js_lower pattern = ''*.'' @ d \<and> (hostname = d \<or> (\<exists>x. hostname = x @ ''.'' @ d)))"
  by (auto simp: matchHost_def Let_def js_starts_with_iff js_ends_with_iff)

text \<open>
  The network policy binds the network tools: outside plan mode and unless an explicit
  rule names the tool first, a fetch is denied when network access is off, when its URL
  does not parse, and when its host is neither on the list nor below a listed wildcard
  domain; no session approval and no mode changes that.
\<close>

theorem network_policy_enforced:
  assumes "pe_mode e \<noteq> PlanMode" and "\<forall>rule \<in> set (pe_rules e). \<not> matchesRule rule rq"
    and "rq_toolName rq \<in> set network_tools" and "pe_policy e = Some pol"
    and "np_allowedHosts pol \<noteq> []" and "rq_url rq = Some url" and "url \<noteq> []"
    and "\<not> np_networkAccess pol \<or> url_host url = None \<or>
      (\<exists>h. url_host url = Some h \<and> (\<forall>p \<in> set (np_allowedHosts pol). js_lower p \<noteq> js_lower h
          \<and> (\<forall>d. js_lower p = ''*.'' @ d \<longrightarrow> js_lower h \<noteq> d
               \<and> \<not> js_ends_with (js_lower h) (''.'' @ d))))"
  shows "perm_check cwd url_host e rq = PDeny"
proof -
  have "checkNetworkAccess url_host e rq = PDeny"
    using assms(4-8) by (auto simp: checkNetworkAccess_def list_ex_iff matchHost_iff
        js_ends_with_iff split: option.splits)
  moreover have "find (\<lambda>rule. matchesRule rule rq) (pe_rules e) = None"
    using assms(2) by (auto simp: find_None_iff)
  ultimately show ?thesis using assms(1,3,4) by (simp add: perm_check_def)
qed

lemma network_policy_enforced_witness:
  "perm_check ''/w'' (\<lambda>u. if u = ''https://evilexample.com/x'' then Some ''evilexample.com'' else None)
     (new_engine Autonomous [] [''web_fetch''] (Some \<lparr>np_networkAccess = True,
        np_allowedHosts = [''*.example.com'']\<rparr>))
     \<lparr>rq_toolName = ''web_fetch'', rq_file_path = None, rq_url = Some ''https://evilexample.com/x'',
      rq_risk = LowRisk\<rparr> = PDeny"
proof (rule network_policy_enforced [where pol = "\<lparr>np_networkAccess = True,
        np_allowedHosts = [''*.example.com'']\<rparr>" and url = "''https://evilexample.com/x''"])
  have l: "js_lower ''*.example.com'' = ''*.example.com''" "js_lower ''evilexample.com'' = ''evilexample.com''"
    by code_simp+
  have "\<not> js_ends_with ''evilexample.com'' ''.example.com''" by code_simp
  then show "\<not> np_networkAccess \<lparr>np_networkAccess = True, np_allowedHosts = [''*.example.com'']\<rparr> \<or>
      (if ''https://evilexample.com/x'' = ''https://evilexample.com/x'' then Some ''evilexample.com''
       else None) = None \<or>
      (\<exists>h. (if ''https://evilexample.com/x'' = ''https://evilexample.com/x''
            then Some ''evilexample.com'' else None) = Some h \<and>
        (\<forall>p \<in> set (np_allowedHosts \<lparr>np_networkAccess = True, np_allowedHosts = [''*.example.com'']\<rparr>).
          js_lower p \<noteq> js_lower h \<and> (\<forall>d. js_lower p = ''*.'' @ d \<longrightarrow> js_lower h \<noteq> d
               \<and> \<not> js_ends_with (js_lower h) (''.'' @ d))))"
    by (auto simp: l)
qed (simp_all add: new_engine_def network_tools_def)

text \<open>The pattern of a rule takes no part in the match.\<close>

lemma rule_pattern_ignored:
  "matchesRule (rule\<lparr>pr_pattern := p\<rparr>) rq = matchesRule rule rq"
  by (simp add: matchesRule_def)

subsection \<open>The permission memory\<close>

text \<open>
  The permission memory, \<open>src/src/permissions/memory.ts\<close>: the table of approvals.  Its primary
  key is the pair of tool and pattern; \<open>INSERT OR REPLACE\<close> takes out the row with an equal key,
  and a key with a \<open>NULL\<close> is equal to none.  \<open>created_at\<close> is the second at which the row is
  written.
\<close>

record approval =
  ap_tool :: string
  ap_pattern :: "string option"
  ap_decision :: string
  ap_created_at :: int

definition approve_tool :: "int \<Rightarrow> string \<Rightarrow> string option \<Rightarrow> approval list \<Rightarrow> approval list" where
  "approve_tool now tool pattern rows =
     sql_delete (\<lambda>a. pattern \<noteq> None \<and> ap_tool a = tool \<and> ap_pattern a = pattern) rows
     @ [\<lparr>ap_tool = tool, ap_pattern = pattern, ap_decision = ''allow'', ap_created_at = now\<rparr>]"

definition isApproved :: "string \<Rightarrow> string option \<Rightarrow> approval list \<Rightarrow> bool" where
  "isApproved tool pattern rows = (case find (\<lambda>a. ap_tool a = tool) rows of
      None \<Rightarrow> False | Some a \<Rightarrow> ap_decision a = ''allow'')"

definition approvals_ok :: "approval list \<Rightarrow> bool" where
  "approvals_ok rows \<longleftrightarrow> (\<forall>a \<in> set rows. ap_decision a = ''allow'')
     \<and> distinct (map (\<lambda>a. (ap_tool a, ap_pattern a)) (filter (\<lambda>a. ap_pattern a \<noteq> None) rows))"

lemma approve_tool_ok:
  assumes "approvals_ok rows"
  shows "approvals_ok (approve_tool now tool pattern rows)"
proof -
  have "distinct (map f (filter p rows)) \<Longrightarrow> distinct (map f (filter p (filter q rows)))"
    for f :: "approval \<Rightarrow> string \<times> string option" and p q by (induction rows) auto
  then show ?thesis using assms by (auto simp: approvals_ok_def approve_tool_def sql_delete_def)
qed

text \<open>The memory answers for a tool exactly when some approval of the tool was ever recorded.\<close>

lemma isApproved_iff:
  "approvals_ok rows \<Longrightarrow> isApproved tool pattern rows \<longleftrightarrow> tool \<in> ap_tool ` set rows"
  by (force simp: isApproved_def approvals_ok_def find_Some_iff find_None_iff split: option.splits)

lemma isApproved_approve:
  "approvals_ok rows \<Longrightarrow> isApproved t p (approve_tool now tool pattern rows) \<longleftrightarrow> t = tool \<or> isApproved t p rows"
  by (subst isApproved_iff, erule approve_tool_ok, subst isApproved_iff, assumption)
    (auto simp: approve_tool_def sql_delete_def)

text \<open>
  So an approval that was given for one pattern answers for every other, and an approval
  without a pattern is added as a new row each time it is given.
\<close>

lemma narrow_approval_widens:
  "approvals_ok rows \<Longrightarrow> isApproved tool (Some other) (approve_tool now tool (Some pattern) rows)"
  by (simp add: isApproved_approve)

lemma bare_approvals_pile_up:
  "length (approve_tool now tool None rows) = Suc (length rows)"
  by (simp add: approve_tool_def sql_delete_def)

end
