(* ===== verification/ApplyPatch.thy ===== *)
theory ApplyPatch
  imports JsPath JsSort
begin

text \<open>
  The patch tool, \<open>src/src/tools/builtin/apply-patch.ts\<close>: the parser of the patch format,
  the four-pass search for the lines of a chunk, the replacements and their application,
  and the tool's loop over the hunks.

  The file system is a map from resolved paths to contents; a directory exists as soon as
  it is needed, and the failures are those of a missing file.  Of the characters that
  \<open>normalizeUnicode\<close> replaces, code unit 160 is the one below 256.
\<close>

subsection \<open>The format\<close>

record update_chunk =
  uc_context :: "string option"
  uc_old :: "string list"
  uc_new :: "string list"
  uc_eof :: bool

datatype patch_hunk =
    AddFile string string
  | DeleteFile string
  | UpdateFile string "string option" "update_chunk list"

definition begin_patch :: string where "begin_patch = ''*** Begin Patch''"
definition end_patch :: string where "end_patch = ''*** End Patch''"
definition add_file :: string where "add_file = ''*** Add File: ''"
definition delete_file :: string where "delete_file = ''*** Delete File: ''"
definition update_file :: string where "update_file = ''*** Update File: ''"
definition move_to :: string where "move_to = ''*** Move to: ''"
definition eof_marker :: string where "eof_marker = ''*** End of File''"

datatype patch_error =
    BadFirstLine
  | BadLastLine
  | UnexpectedEnd nat
  | EmptyUpdate string nat
  | BadHeader nat string
  | MissingContext nat string
  | NoLines nat
  | UnexpectedLine nat string
  | ContextNotFound string string
  | LinesNotFound string "string list"
  | InvalidPath string
  | NoSuchFile string string

definition line_feed :: char where "line_feed = char_of (10::nat)"
definition squote :: string where "squote = [char_of (39::nat)]"

fun error_message :: "patch_error \<Rightarrow> string" where
  "error_message BadFirstLine =
     ''Invalid patch: first line must be '' @ squote @ begin_patch @ squote"
| "error_message BadLastLine =
     ''Invalid patch: last line must be '' @ squote @ end_patch @ squote"
| "error_message (UnexpectedEnd n) = ''Unexpected end of patch at line '' @ show_nat n"
| "error_message (EmptyUpdate p n) =
     ''Update file hunk for '' @ squote @ p @ squote @ '' is empty (line '' @ show_nat n @ '')''"
| "error_message (BadHeader n l) =
     ''Invalid hunk header at line '' @ show_nat n @ '': '' @ squote @ l @ squote @ ''. Expected ''
     @ squote @ ''*** Add File:'' @ squote @ '', '' @ squote @ ''*** Delete File:'' @ squote
     @ '', or '' @ squote @ ''*** Update File:'' @ squote"
| "error_message (MissingContext n l) =
     ''Expected @@ context marker at line '' @ show_nat n @ '', got: '' @ squote @ l @ squote"
| "error_message (NoLines n) = ''Update hunk has no lines (line '' @ show_nat n @ '')''"
| "error_message (UnexpectedLine n l) =
     ''Unexpected line in update hunk at line '' @ show_nat n @ '': '' @ squote @ l @ squote
     @ ''. Lines must start with '' @ squote @ '' '' @ squote @ '', '' @ squote @ ''+'' @ squote
     @ '', or '' @ squote @ ''-'' @ squote"
| "error_message (ContextNotFound c p) =
     ''Failed to find context '' @ squote @ c @ squote @ '' in '' @ p"
| "error_message (LinesNotFound p ls) =
     ''Failed to find expected lines in '' @ p @ '':'' @ [line_feed] @ js_join [line_feed] ls"
| "error_message (InvalidPath p) = ''Invalid path: '' @ p"
| "error_message (NoSuchFile op p) =
     ''ENOENT: no such file or directory, '' @ op @ '' '' @ squote @ p @ squote"

subsection \<open>The parser\<close>

text \<open>The lines of a chunk: the chunk so far and the number of lines parsed.\<close>

fun chunk_lines :: "nat \<Rightarrow> nat \<Rightarrow> string list \<Rightarrow> update_chunk \<Rightarrow> nat \<Rightarrow>
    patch_error + update_chunk \<times> nat" where
  "chunk_lines n start [] c parsed = Inr (c, parsed)"
| "chunk_lines n start (line # ls) c parsed =
     (if line = eof_marker then
        (if parsed = 0 then Inl (NoLines n) else Inr (c\<lparr>uc_eof := True\<rparr>, parsed + 1))
      else if js_starts_with line '' '' then
        chunk_lines n start ls (c\<lparr>uc_old := uc_old c @ [tl line], uc_new := uc_new c @ [tl line]\<rparr>)
          (parsed + 1)
      else if js_starts_with line ''+'' then
        chunk_lines n start ls (c\<lparr>uc_new := uc_new c @ [tl line]\<rparr>) (parsed + 1)
      else if js_starts_with line ''-'' then
        chunk_lines n start ls (c\<lparr>uc_old := uc_old c @ [tl line]\<rparr>) (parsed + 1)
      else if line = [] then
        chunk_lines n start ls (c\<lparr>uc_old := uc_old c @ [[]], uc_new := uc_new c @ [[]]\<rparr>) (parsed + 1)
      else if parsed = 0 then Inl (UnexpectedLine (n + start) line)
      else Inr (c, parsed))"

definition parseUpdateChunk :: "string list \<Rightarrow> nat \<Rightarrow> bool \<Rightarrow> patch_error + update_chunk \<times> nat" where
  "parseUpdateChunk lines n allowMissing =
     (let first = (case lines of [] \<Rightarrow> [] | l # _ \<Rightarrow> l);
          body = (\<lambda>ctx start. case chunk_lines n start (drop start lines)
              \<lparr>uc_context = ctx, uc_old = [], uc_new = [], uc_eof = False\<rparr> 0 of
            Inl e \<Rightarrow> Inl e | Inr (c, parsed) \<Rightarrow> Inr (c, parsed + start))
      in if first = ''@@'' then body None 1
         else if js_starts_with first ''@@ '' then body (Some (drop 3 first)) 1
         else if \<not> allowMissing then Inl (MissingContext n first)
         else body None 0)"

lemma chunk_lines_progress: "chunk_lines n start ls c parsed = Inr (c', k) \<Longrightarrow> parsed \<le> k"
  by (induction n start ls c parsed rule: chunk_lines.induct) (auto split: if_splits dest: Suc_leD)

lemma chunk_lines_some:
  "chunk_lines n start (l # ls) c 0 = Inr (c', k) \<Longrightarrow> 1 \<le> k"
  by (auto split: if_splits dest!: chunk_lines_progress)

lemma parseUpdateChunk_progress:
  assumes "parseUpdateChunk (l # ls) n allow = Inr (c, k)"
  shows "1 \<le> k"
  using assms by (auto simp: parseUpdateChunk_def Let_def split: if_splits sum.splits prod.splits
    dest!: chunk_lines_some simp del: chunk_lines.simps)

text \<open>The chunks of an update: the rest, the chunks and the number of lines parsed.\<close>

function update_chunks :: "string list \<Rightarrow> nat \<Rightarrow> nat \<Rightarrow> update_chunk list \<Rightarrow>
    patch_error + update_chunk list \<times> nat" where
  "update_chunks [] n parsed chunks = Inr (chunks, parsed)"
| "update_chunks (l # ls) n parsed chunks =
     (if l = [] then Inr (chunks, parsed)
      else if js_trim l = [] then update_chunks ls n (parsed + 1) chunks
      else if js_starts_with l ''***'' then Inr (chunks, parsed)
      else case parseUpdateChunk (l # ls) (n + parsed) (chunks = []) of
        Inl e \<Rightarrow> Inl e
      | Inr (c, k) \<Rightarrow> update_chunks (drop k (l # ls)) n (parsed + k) (chunks @ [c]))"
  by pat_completeness auto

termination
  by (relation "measure (\<lambda>(ls, n, parsed, chunks). length ls)")
    (auto dest!: parseUpdateChunk_progress)

definition parseOneHunk :: "string list \<Rightarrow> nat \<Rightarrow> patch_error + patch_hunk \<times> nat" where
  "parseOneHunk lines n = (case lines of
      [] \<Rightarrow> Inl (UnexpectedEnd n)
    | firstLine # rest \<Rightarrow>
      if firstLine = [] then Inl (UnexpectedEnd n)
      else let first = js_trim firstLine in
      if js_starts_with first add_file then
        (let body = takeWhile (\<lambda>l. js_starts_with l ''+'') rest in
         Inr (AddFile (drop (length add_file) first) (concat (map (\<lambda>l. tl l @ [line_feed]) body)),
              1 + length body))
      else if js_starts_with first delete_file then
        Inr (DeleteFile (drop (length delete_file) first), 1)
      else if js_starts_with first update_file then
        (let filePath = drop (length update_file) first;
             moved = (case rest of [] \<Rightarrow> None
               | m # _ \<Rightarrow> if js_starts_with m move_to then Some (drop (length move_to) m) else None);
             rest' = (if moved = None then rest else tl rest);
             parsed = (if moved = None then 1 else 2)
         in case update_chunks rest' n parsed [] of
              Inl e \<Rightarrow> Inl e
            | Inr (chunks, k) \<Rightarrow>
                if chunks = [] then Inl (EmptyUpdate filePath n)
                else Inr (UpdateFile filePath moved chunks, k))
      else Inl (BadHeader n first))"

lemma update_chunks_progress:
  "update_chunks ls n parsed chunks = Inr (cs, k) \<Longrightarrow> parsed \<le> k"
  by (induction ls n parsed chunks rule: update_chunks.induct)
    (auto split: if_splits sum.splits dest: Suc_leD, fastforce)

lemma parseOneHunk_progress: "parseOneHunk lines n = Inr (h, k) \<Longrightarrow> lines \<noteq> [] \<and> 1 \<le> k"
  by (auto simp: parseOneHunk_def Let_def split: list.splits if_splits sum.splits
    dest!: update_chunks_progress)

function parse_hunks :: "string list \<Rightarrow> nat \<Rightarrow> patch_error + patch_hunk list" where
  "parse_hunks remaining n =
     (if remaining = [] then Inr []
      else case parseOneHunk remaining n of
        Inl e \<Rightarrow> Inl e
      | Inr (h, k) \<Rightarrow>
          (case parse_hunks (drop k remaining) (n + k) of
             Inl e \<Rightarrow> Inl e | Inr hs \<Rightarrow> Inr (h # hs)))"
  by pat_completeness auto

termination
  by (relation "measure (\<lambda>(ls, n). length ls)") (auto dest: parseOneHunk_progress)

declare parse_hunks.simps [simp del]

definition heredoc_starts :: "string list" where
  "heredoc_starts = [''<<EOF'', ''<<'' @ squote @ ''EOF'' @ squote,
     ''<<'' @ [char_of (34::nat)] @ ''EOF'' @ [char_of (34::nat)]]"

definition parsePatch :: "string \<Rightarrow> patch_error + patch_hunk list" where
  "parsePatch patchText =
     (let lines0 = js_split line_feed (js_trim patchText);
          first = js_trim (hd lines0);
          lines = (if first \<noteq> begin_patch \<and> first \<in> set heredoc_starts
                      \<and> js_ends_with (js_trim (last lines0)) ''EOF'' \<and> 4 \<le> length lines0
                   then butlast (tl lines0) else lines0)
      in if js_trim (hd lines) \<noteq> begin_patch then Inl BadFirstLine
         else if js_trim (last lines) \<noteq> end_patch then Inl BadLastLine
         else parse_hunks (butlast (tl lines)) 2)"

subsection \<open>The search\<close>

definition normalizeUnicode :: "string \<Rightarrow> string" where
  "normalizeUnicode s = map (\<lambda>c. if code c = 160 then CHR '' '' else c) (js_trim s)"

definition lines_at :: "(string \<Rightarrow> string) \<Rightarrow> string list \<Rightarrow> string list \<Rightarrow> nat \<Rightarrow> bool" where
  "lines_at f lines pattern i \<longleftrightarrow> map f (take (length pattern) (drop i lines)) = map f pattern"

fun first_pass :: "(string \<Rightarrow> string) list \<Rightarrow> string list \<Rightarrow> string list \<Rightarrow> nat list \<Rightarrow> nat option" where
  "first_pass [] lines pattern is = None"
| "first_pass (f # fs) lines pattern is =
     (case find (lines_at f lines pattern) is of
        Some i \<Rightarrow> Some i | None \<Rightarrow> first_pass fs lines pattern is)"

definition seek_passes :: "(string \<Rightarrow> string) list" where
  "seek_passes = [\<lambda>s. s, js_trim_end, js_trim, normalizeUnicode]"

definition seekSequence :: "string list \<Rightarrow> string list \<Rightarrow> nat \<Rightarrow> bool \<Rightarrow> nat option" where
  "seekSequence lines pattern start eof =
     (if pattern = [] then Some start
      else if length lines < length pattern then None
      else let maxStart = length lines - length pattern;
               searchStart = (if eof then maxStart else start)
           in first_pass seek_passes lines pattern [searchStart..<Suc maxStart])"

subsection \<open>Replacements\<close>

type_synonym replacement = "nat \<times> nat \<times> string list"

fun compute_loop :: "string list \<Rightarrow> string \<Rightarrow> update_chunk list \<Rightarrow> nat \<Rightarrow>
    patch_error + replacement list" where
  "compute_loop lines p [] lineIndex = Inr []"
| "compute_loop lines p (c # cs) lineIndex =
     (let after_context = (case uc_context c of
            None \<Rightarrow> Inr lineIndex
          | Some ctx \<Rightarrow>
              (case seekSequence lines [ctx] lineIndex False of
                 None \<Rightarrow> Inl (ContextNotFound ctx p) | Some i \<Rightarrow> Inr (i + 1)))
      in case after_context of
        Inl e \<Rightarrow> Inl e
      | Inr at \<Rightarrow>
        if uc_old c = [] then
          (let ins = (if lines \<noteq> [] \<and> last lines = [] then length lines - 1 else length lines)
           in case compute_loop lines p cs at of
                Inl e \<Rightarrow> Inl e | Inr rs \<Rightarrow> Inr ((ins, 0, uc_new c) # rs))
        else
          (let first = seekSequence lines (uc_old c) at (uc_eof c);
               retry = (first = None \<and> last (uc_old c) = []);
               pattern = (if retry then butlast (uc_old c) else uc_old c);
               slice = (if retry \<and> uc_new c \<noteq> [] \<and> last (uc_new c) = []
                        then butlast (uc_new c) else uc_new c);
               found = (if retry then seekSequence lines pattern at (uc_eof c) else first)
           in case found of
                None \<Rightarrow> Inl (LinesNotFound p (uc_old c))
              | Some i \<Rightarrow>
                  (case compute_loop lines p cs (i + length pattern) of
                     Inl e \<Rightarrow> Inl e | Inr rs \<Rightarrow> Inr ((i, length pattern, slice) # rs))))"

definition start_of :: "replacement \<Rightarrow> int" where
  "start_of r = int (fst r)"

definition computeReplacements ::
  "string list \<Rightarrow> string \<Rightarrow> update_chunk list \<Rightarrow> patch_error + replacement list" where
  "computeReplacements lines p chunks =
     (case compute_loop lines p chunks 0 of
        Inl e \<Rightarrow> Inl e | Inr rs \<Rightarrow> Inr (js_sort (by_key start_of) rs))"

text \<open>The loop runs from the last replacement to the first.\<close>

definition applyReplacements :: "string list \<Rightarrow> replacement list \<Rightarrow> string list" where
  "applyReplacements lines rs = foldr (\<lambda>(s, k, seg) res. js_splice s k seg res) rs lines"

subsection \<open>The tool\<close>

type_synonym files = "string \<Rightarrow> string option"

record patch_log =
  pl_added :: "string list"
  pl_modified :: "string list"
  pl_deleted :: "string list"

datatype patch_result = PatchApplied string patch_log | PatchFailed string

definition resolveSafePath :: "string \<Rightarrow> string \<Rightarrow> patch_error + string" where
  "resolveSafePath p cwd =
     (let resolved = path_resolve cwd p in
      if \<not> js_starts_with resolved ''/'' then Inl (InvalidPath p) else Inr resolved)"

definition updated_content :: "string \<Rightarrow> string \<Rightarrow> update_chunk list \<Rightarrow> patch_error + string" where
  "updated_content content p chunks =
     (let ls = js_split line_feed content;
          original = (if last ls = [] then butlast ls else ls)
      in case computeReplacements original p chunks of
           Inl e \<Rightarrow> Inl e
         | Inr rs \<Rightarrow>
             (let new = applyReplacements original rs;
                  new = (if new = [] \<or> last new \<noteq> [] then new @ [[]] else new)
              in Inr (js_join [line_feed] new)))"

text \<open>One hunk: the files afterwards, and the error or the log.\<close>

definition apply_hunk :: "string \<Rightarrow> patch_hunk \<Rightarrow> files \<Rightarrow> patch_log \<Rightarrow>
    files \<times> (patch_error + patch_log)" where
  "apply_hunk cwd h fs lg = (case h of
      AddFile p contents \<Rightarrow>
        (case resolveSafePath p cwd of
           Inl e \<Rightarrow> (fs, Inl e)
         | Inr r \<Rightarrow> (fs(r \<mapsto> contents), Inr (lg\<lparr>pl_added := pl_added lg @ [p]\<rparr>)))
    | DeleteFile p \<Rightarrow>
        (case resolveSafePath p cwd of
           Inl e \<Rightarrow> (fs, Inl e)
         | Inr r \<Rightarrow>
             if fs r = None then (fs, Inl (NoSuchFile ''unlink'' r))
             else (fs(r := None), Inr (lg\<lparr>pl_deleted := pl_deleted lg @ [p]\<rparr>)))
    | UpdateFile p moved chunks \<Rightarrow>
        (case resolveSafePath p cwd of
           Inl e \<Rightarrow> (fs, Inl e)
         | Inr r \<Rightarrow>
           (case fs r of
              None \<Rightarrow> (fs, Inl (NoSuchFile ''open'' r))
            | Some content \<Rightarrow>
              (case updated_content content p chunks of
                 Inl e \<Rightarrow> (fs, Inl e)
               | Inr new \<Rightarrow>
                 (case moved of
                    None \<Rightarrow> (fs(r \<mapsto> new), Inr (lg\<lparr>pl_modified := pl_modified lg @ [p]\<rparr>))
                  | Some mp \<Rightarrow>
                      if mp = []
                      then (fs(r \<mapsto> new), Inr (lg\<lparr>pl_modified := pl_modified lg @ [p]\<rparr>))
                      else (case resolveSafePath mp cwd of
                        Inl e \<Rightarrow> (fs, Inl e)
                      | Inr dest \<Rightarrow>
                          ((fs(dest \<mapsto> new))(r := None),
                           Inr (lg\<lparr>pl_modified := pl_modified lg @ [mp]\<rparr>))))))))"

fun apply_hunks :: "string \<Rightarrow> patch_hunk list \<Rightarrow> files \<Rightarrow> patch_log \<Rightarrow>
    files \<times> (patch_error + patch_log)" where
  "apply_hunks cwd [] fs lg = (fs, Inr lg)"
| "apply_hunks cwd (h # hs) fs lg = (case apply_hunk cwd h fs lg of
      (fs', Inl e) \<Rightarrow> (fs', Inl e)
    | (fs', Inr lg') \<Rightarrow> apply_hunks cwd hs fs' lg')"

definition log_text :: "patch_log \<Rightarrow> string" where
  "log_text lg = ''Applied patch successfully:'' @ [line_feed] @ js_join [line_feed]
     (map (\<lambda>p. ''A '' @ p) (pl_added lg) @ map (\<lambda>p. ''M '' @ p) (pl_modified lg)
      @ map (\<lambda>p. ''D '' @ p) (pl_deleted lg))"

definition apply_patch :: "string \<Rightarrow> string \<Rightarrow> files \<Rightarrow> files \<times> patch_result" where
  "apply_patch cwd patch fs =
     (let failed = (\<lambda>e. PatchFailed (''Error applying patch: '' @ error_message e)) in
      case parsePatch patch of
        Inl e \<Rightarrow> (fs, failed e)
      | Inr hunks \<Rightarrow>
        if hunks = [] then (fs, PatchFailed (''Patch is empty '' @ em_dash @ '' no files modified.''))
        else (case apply_hunks cwd hunks fs \<lparr>pl_added = [], pl_modified = [], pl_deleted = []\<rparr> of
          (fs', Inl e) \<Rightarrow> (fs', failed e)
        | (fs', Inr lg) \<Rightarrow> (fs', PatchApplied (log_text lg) lg)))"

subsection \<open>Writing a patch\<close>

text \<open>
  The abstract syntax of a patch, its text and its meaning: the parser reads the text of
  every well-formed patch back to its meaning.
\<close>

datatype line_op = Keep string | Insert string | Remove string

datatype hunk_text =
    TAdd string "string list"
  | TDelete string
  | TUpdate string "string option" "(string option \<times> line_op list \<times> bool) list"

fun op_text :: "line_op \<Rightarrow> string" where
  "op_text (Keep s) = '' '' @ s"
| "op_text (Insert s) = ''+'' @ s"
| "op_text (Remove s) = ''-'' @ s"

fun chunk_text :: "string option \<times> line_op list \<times> bool \<Rightarrow> string list" where
  "chunk_text (ctx, ops, eof) =
     (case ctx of None \<Rightarrow> ''@@'' | Some c \<Rightarrow> ''@@ '' @ c) # map op_text ops
       @ (if eof then [eof_marker] else [])"

fun hunk_lines :: "hunk_text \<Rightarrow> string list" where
  "hunk_lines (TAdd p ls) = (add_file @ p) # map (\<lambda>l. ''+'' @ l) ls"
| "hunk_lines (TDelete p) = [delete_file @ p]"
| "hunk_lines (TUpdate p moved cs) = (update_file @ p)
     # (case moved of None \<Rightarrow> [] | Some m \<Rightarrow> [move_to @ m]) @ concat (map chunk_text cs)"

definition patch_text :: "hunk_text list \<Rightarrow> string" where
  "patch_text hs = js_join [line_feed] (begin_patch # concat (map hunk_lines hs) @ [end_patch])"

fun old_of :: "line_op list \<Rightarrow> string list" where
  "old_of [] = []"
| "old_of (Keep s # ops) = s # old_of ops"
| "old_of (Insert s # ops) = old_of ops"
| "old_of (Remove s # ops) = s # old_of ops"

fun new_of :: "line_op list \<Rightarrow> string list" where
  "new_of [] = []"
| "new_of (Keep s # ops) = s # new_of ops"
| "new_of (Insert s # ops) = s # new_of ops"
| "new_of (Remove s # ops) = new_of ops"

definition chunk_of :: "string option \<times> line_op list \<times> bool \<Rightarrow> update_chunk" where
  "chunk_of t = (case t of (ctx, ops, eof) \<Rightarrow>
     \<lparr>uc_context = ctx, uc_old = old_of ops, uc_new = new_of ops, uc_eof = eof\<rparr>)"

fun hunk_of :: "hunk_text \<Rightarrow> patch_hunk" where
  "hunk_of (TAdd p ls) = AddFile p (concat (map (\<lambda>l. l @ [line_feed]) ls))"
| "hunk_of (TDelete p) = DeleteFile p"
| "hunk_of (TUpdate p moved cs) = UpdateFile p moved (map chunk_of cs)"

definition wf_path :: "string \<Rightarrow> bool" where
  "wf_path p \<longleftrightarrow> p \<noteq> [] \<and> \<not> js_ws (last p)"

fun wf_hunk :: "hunk_text \<Rightarrow> bool" where
  "wf_hunk (TAdd p ls) = wf_path p"
| "wf_hunk (TDelete p) = wf_path p"
| "wf_hunk (TUpdate p moved cs) = (wf_path p \<and> cs \<noteq> [] \<and> (\<forall>(ctx, ops, eof) \<in> set cs. ops \<noteq> []))"

definition wf_patch :: "hunk_text list \<Rightarrow> bool" where
  "wf_patch hs \<longleftrightarrow> (\<forall>h \<in> set hs. wf_hunk h \<and> (\<forall>l \<in> set (hunk_lines h). line_feed \<notin> set l))"

lemma trim_id: "s \<noteq> [] \<Longrightarrow> \<not> js_ws (hd s) \<Longrightarrow> \<not> js_ws (last s) \<Longrightarrow> js_trim s = s"
proof -
  assume s: "s \<noteq> []" "\<not> js_ws (hd s)" "\<not> js_ws (last s)"
  have "dropWhile js_ws s = s" using s by (cases s) auto
  moreover have "dropWhile js_ws (rev s) = rev s" using s by (cases s rule: rev_cases) auto
  ultimately show ?thesis by (simp add: js_trim_def js_trim_start_def js_trim_end_def)
qed

lemma star_not_ws: "\<not> js_ws (CHR ''*'')" "\<not> js_ws (CHR ''h'')"
  by code_simp+

lemma trim_header: "wf_path p \<Longrightarrow> js_trim (CHR ''*'' # s @ p) = CHR ''*'' # s @ p"
  by (intro trim_id) (auto simp: wf_path_def star_not_ws)

lemma headers:
  assumes "wf_path p"
  shows "js_trim (add_file @ p) = add_file @ p" "js_trim (delete_file @ p) = delete_file @ p"
    "js_trim (update_file @ p) = update_file @ p"
    "js_starts_with (add_file @ p) add_file" "js_starts_with (delete_file @ p) delete_file"
    "js_starts_with (update_file @ p) update_file"
    "\<not> js_starts_with (delete_file @ p) add_file" "\<not> js_starts_with (update_file @ p) add_file"
    "\<not> js_starts_with (update_file @ p) delete_file"
    "p \<noteq> []"
proof -
  have "js_trim (CHR ''*'' # s @ p) = CHR ''*'' # s @ p" for s by (rule trim_header [OF assms])
  from this [of "tl add_file"] this [of "tl delete_file"] this [of "tl update_file"]
  show "js_trim (add_file @ p) = add_file @ p" "js_trim (delete_file @ p) = delete_file @ p"
    "js_trim (update_file @ p) = update_file @ p"
    by (simp_all add: add_file_def delete_file_def update_file_def)
qed (use assms in \<open>simp_all add: add_file_def delete_file_def update_file_def js_starts_with_def
    wf_path_def\<close>)

text \<open>Where a hunk ends: at the end of the lines or at the next marker.\<close>

definition hunk_end :: "string list \<Rightarrow> bool" where
  "hunk_end rest \<longleftrightarrow> rest = [] \<or> (js_starts_with (hd rest) ''*** '' \<and> hd rest \<noteq> eof_marker)"

definition chunk_end :: "string list \<Rightarrow> bool" where
  "chunk_end rest \<longleftrightarrow> rest = [] \<or> (hd rest \<noteq> [] \<and> hd rest \<noteq> eof_marker
     \<and> hd (hd rest) \<notin> {CHR '' '', CHR ''+'', CHR ''-''})"

lemma hunk_end_chunk_end: "hunk_end rest \<Longrightarrow> chunk_end rest"
  by (auto simp: hunk_end_def chunk_end_def js_starts_with_iff)

lemma chunk_lines_ops:
  assumes "chunk_end rest" and "ops \<noteq> [] \<or> 0 < parsed"
  shows "chunk_lines n start (map op_text ops @ (if eof then [eof_marker] else []) @ rest) c parsed
    = Inr (c\<lparr>uc_old := uc_old c @ old_of ops, uc_new := uc_new c @ new_of ops,
             uc_eof := (eof \<or> uc_eof c)\<rparr>,
           parsed + length ops + (if eof then 1 else 0))"
  using assms(2)
proof (induction ops arbitrary: c parsed)
  case Nil
  show ?case
  proof (cases eof)
    case False
    have "chunk_lines n start rest c parsed = Inr (c, parsed)"
    proof (cases rest)
      case (Cons l ls)
      then show ?thesis using assms(1) Nil
        by (auto simp: chunk_end_def js_starts_with_def neq_Nil_conv)
    qed simp
    with False show ?thesis by simp
  qed (use Nil in \<open>simp add: eof_marker_def\<close>)
next
  case (Cons op ops)
  show ?case
    by (cases op) (simp_all add: Cons.IH js_starts_with_def eof_marker_def)
qed

lemma parse_chunk_text:
  assumes "chunk_end rest" and "t = (ctx, ops, eof)" "ops \<noteq> []"
  shows "parseUpdateChunk (chunk_text t @ rest) n allow = Inr (chunk_of t, length (chunk_text t))"
proof -
  have body: "chunk_lines n 1 (map op_text ops @ (if eof then [eof_marker] else []) @ rest)
      \<lparr>uc_context = ctx, uc_old = [], uc_new = [], uc_eof = False\<rparr> 0
    = Inr (chunk_of t, length ops + (if eof then 1 else 0))"
    using assms by (subst chunk_lines_ops) (simp_all add: chunk_of_def)
  show ?thesis
    by (cases ctx) (use body in \<open>simp_all add: assms(2) parseUpdateChunk_def js_starts_with_def
        del: chunk_lines.simps\<close>)
qed

lemma chunk_text_head: "\<exists>l ls. chunk_text t = (CHR ''@'' # CHR ''@'' # l) # ls"
  by (cases t) (auto split: option.splits)

lemma at_sign: "js_trim (CHR ''@'' # l) \<noteq> []"
proof -
  have "\<not> js_ws (CHR ''@'')" by code_simp
  then show ?thesis by (auto simp: js_trim_def js_trim_start_def js_trim_end_def)
qed

lemma update_chunks_text:
  assumes "\<forall>(ctx, ops, eof) \<in> set cs. ops \<noteq> []" and "hunk_end rest"
  shows "update_chunks (concat (map chunk_text cs) @ rest) n parsed done
    = Inr (done @ map chunk_of cs, parsed + length (concat (map chunk_text cs)))"
  using assms(1)
proof (induction cs arbitrary: parsed "done")
  case Nil
  show ?case
  proof (cases rest)
    case (Cons l ls)
    then have l: "js_starts_with l ''*** ''" using assms(2) by (simp add: hunk_end_def)
    then obtain u where u: "l = CHR ''*'' # CHR ''*'' # CHR ''*'' # CHR '' '' # u"
      by (auto simp: js_starts_with_iff)
    then have "js_trim l \<noteq> []"
      using star_not_ws(1) by (auto simp: js_trim_def js_trim_start_def js_trim_end_def)
    with u Cons show ?thesis by (simp add: js_starts_with_def)
  qed simp
next
  case (Cons t cs)
  let ?rest = "concat (map chunk_text cs) @ rest"
  obtain ctx ops eof where t: "t = (ctx, ops, eof)" "ops \<noteq> []"
    using Cons.prems by (cases t) auto
  have e: "chunk_end ?rest"
  proof (cases cs)
    case Nil
    then show ?thesis using assms(2) hunk_end_chunk_end by simp
  next
    case (Cons t' cs')
    obtain l ls where "chunk_text t' = (CHR ''@'' # CHR ''@'' # l) # ls"
      using chunk_text_head by blast
    then show ?thesis using Cons by (simp add: chunk_end_def eof_marker_def)
  qed
  obtain l ls where h: "chunk_text t = (CHR ''@'' # CHR ''@'' # l) # ls"
    using chunk_text_head by blast
  have p: "parseUpdateChunk ((CHR ''@'' # CHR ''@'' # l) # ls @ ?rest) (n + parsed) (done = [])
      = Inr (chunk_of t, Suc (length ls))"
    using parse_chunk_text [OF e t, of "n + parsed" "done = []"] h by simp
  have "update_chunks (concat (map chunk_text (t # cs)) @ rest) n parsed done
      = update_chunks ?rest n (parsed + Suc (length ls)) (done @ [chunk_of t])"
    using p at_sign by (simp add: h js_starts_with_def)
  also have "\<dots> = Inr (done @ map chunk_of (t # cs), parsed + length (concat (map chunk_text (t # cs))))"
    using Cons.IH Cons.prems by (simp add: h)
  finally show ?case .
qed

lemma parse_hunk_text:
  assumes "wf_hunk h" and "hunk_end rest"
  shows "parseOneHunk (hunk_lines h @ rest) n = Inr (hunk_of h, length (hunk_lines h))"
proof (cases h)
  case (TAdd p ls)
  have b: "takeWhile (\<lambda>l. js_starts_with l ''+'') (map (\<lambda>l. ''+'' @ l) ls @ rest) = map (\<lambda>l. ''+'' @ l) ls"
  proof -
    have "takeWhile (\<lambda>l. js_starts_with l ''+'') rest = []"
      using assms(2) by (cases rest) (auto simp: hunk_end_def js_starts_with_iff)
    then show ?thesis by (induction ls) (simp_all add: js_starts_with_def)
  qed
  have "parseOneHunk (hunk_lines h @ rest) n =
      (let body = takeWhile (\<lambda>l. js_starts_with l ''+'') (map (\<lambda>l. ''+'' @ l) ls @ rest) in
        Inr (AddFile p (concat (map (\<lambda>l. tl l @ [line_feed]) body)), 1 + length body))"
  proof -
    have "(@) ''+'' = (#) (CHR ''+'')" by auto
    then show ?thesis using assms(1) TAdd by (simp add: parseOneHunk_def Let_def headers)
  qed
  then show ?thesis unfolding b by (simp add: TAdd Let_def comp_def)
next
  case (TDelete p)
  with assms(1) show ?thesis by (simp add: parseOneHunk_def Let_def headers)
next
  case (TUpdate p moved cs)
  then have w: "wf_path p" "cs \<noteq> []" "\<forall>(ctx, ops, eof) \<in> set cs. ops \<noteq> []" using assms(1) by auto
  note u = update_chunks_text [OF w(3) assms(2)]
  have m: "\<not> js_starts_with (hd (concat (map chunk_text cs) @ rest)) move_to"
    "concat (map chunk_text cs) @ rest \<noteq> []"
    using w(2) chunk_text_head [of "hd cs"]
    by (cases cs; auto simp: move_to_def js_starts_with_def)+
  show ?thesis
  proof (cases moved)
    case None
    have "(case concat (map chunk_text cs) @ rest of [] \<Rightarrow> None
        | m # _ \<Rightarrow> if js_starts_with m move_to then Some (drop (length move_to) m) else None) = None"
      using m by (auto split: list.splits)
    with None TUpdate w(1,2) u [of n 1 "[]"] show ?thesis
      by (simp add: parseOneHunk_def Let_def headers)
  next
    case (Some d)
    have "js_starts_with (move_to @ d) move_to" by (simp add: js_starts_with_def)
    with Some TUpdate w(1,2) u [of n 2 "[]"] show ?thesis
      by (simp add: parseOneHunk_def Let_def headers)
  qed
qed

lemma hunk_lines_end: "wf_hunk h \<Longrightarrow> hunk_end (hunk_lines h @ rest)"
  by (cases h) (auto simp: hunk_end_def add_file_def delete_file_def update_file_def eof_marker_def
    js_starts_with_def)

lemma parse_hunks_text:
  "\<forall>h \<in> set hs. wf_hunk h \<Longrightarrow> parse_hunks (concat (map hunk_lines hs)) n = Inr (map hunk_of hs)"
proof (induction hs arbitrary: n)
  case (Cons h hs)
  have "hunk_end (concat (map hunk_lines hs))"
  proof (cases hs)
    case (Cons h' hs')
    with Cons.prems show ?thesis using hunk_lines_end [of h'] by simp
  qed (simp add: hunk_end_def)
  with Cons.prems have "parseOneHunk (hunk_lines h @ concat (map hunk_lines hs)) n
      = Inr (hunk_of h, length (hunk_lines h))"
    by (intro parse_hunk_text) simp_all
  moreover have "hunk_lines h \<noteq> []" by (cases h) auto
  ultimately show ?case using Cons
    by (subst parse_hunks.simps) simp
qed (simp add: parse_hunks.simps)

lemma markers: "js_trim begin_patch = begin_patch" "js_trim end_patch = end_patch"
  "line_feed \<notin> set begin_patch" "line_feed \<notin> set end_patch"
  by code_simp+

lemma join_append: "ws \<noteq> [] \<Longrightarrow> vs \<noteq> [] \<Longrightarrow> js_join sep (ws @ vs) = js_join sep ws @ sep @ js_join sep vs"
proof (induction sep ws rule: js_join.induct)
  case (2 sep w)
  then show ?case by (cases vs) simp_all
qed simp_all

lemma trim_patch_text: "js_trim (patch_text hs) = patch_text hs"
proof (rule trim_id)
  have e: "patch_text hs = js_join [line_feed] (begin_patch # concat (map hunk_lines hs))
      @ [line_feed] @ end_patch"
    using join_append [of "begin_patch # concat (map hunk_lines hs)" "[end_patch]" "[line_feed]"]
    by (simp add: patch_text_def)
  have b: "\<exists>u. js_join [line_feed] (begin_patch # ws) = begin_patch @ u" for ws
    by (cases ws) auto
  obtain u where u: "js_join [line_feed] (begin_patch # concat (map hunk_lines hs)) = begin_patch @ u"
    using b by blast
  show "patch_text hs \<noteq> []" "\<not> js_ws (hd (patch_text hs))" "\<not> js_ws (last (patch_text hs))"
    unfolding e u by (simp_all add: begin_patch_def end_patch_def star_not_ws)
qed

lemma parse_patch:
  assumes "wf_patch hs"
  shows "parsePatch (patch_text hs) = Inr (map hunk_of hs)"
proof -
  let ?ls = "begin_patch # concat (map hunk_lines hs) @ [end_patch]"
  have "js_split line_feed (patch_text hs) = ?ls"
    unfolding patch_text_def by (rule js_split_join)
      (use assms markers(3,4) in \<open>auto simp: wf_patch_def\<close>)
  then have s: "js_split line_feed (js_trim (patch_text hs)) = ?ls" by (simp add: trim_patch_text)
  have "parse_hunks (concat (map hunk_lines hs)) 2 = Inr (map hunk_of hs)"
    by (rule parse_hunks_text) (use assms in \<open>simp add: wf_patch_def\<close>)
  then show ?thesis unfolding parsePatch_def s by (simp add: Let_def markers(1,2))
qed

text \<open>
  C18. The parser reads every patch as it was written: the text of any well-formed list of
  hunks (adds, deletes, updates with moves, chunks with and without context and end-of-file
  mark) parses, without error, to exactly those hunks.
\<close>

theorem parse_patch_text:
  assumes "wf_patch hs"
  shows "parsePatch (patch_text hs) = Inr (map hunk_of hs)"
  by (rule parse_patch [OF assms])

definition sample_patch :: "hunk_text list" where
  "sample_patch = [TAdd ''new.txt'' [''one'', ''two''], TDelete ''old.txt'',
     TUpdate ''a.py'' (Some ''b.py'')
       [(None, [Keep ''x'', Remove ''y'', Insert ''z''], False), (Some ''def f'', [Insert ''w''], True)]]"

lemma parse_patch_text_witness:
  "parsePatch (patch_text sample_patch) =
     Inr [AddFile ''new.txt'' (''one'' @ [line_feed] @ ''two'' @ [line_feed]), DeleteFile ''old.txt'',
       UpdateFile ''a.py'' (Some ''b.py'')
         [\<lparr>uc_context = None, uc_old = [''x'', ''y''], uc_new = [''x'', ''z''], uc_eof = False\<rparr>,
          \<lparr>uc_context = Some ''def f'', uc_old = [], uc_new = [''w''], uc_eof = True\<rparr>]]"
proof -
  have "wf_patch sample_patch" by code_simp
  from parse_patch_text [OF this] show ?thesis by (simp add: sample_patch_def chunk_of_def)
qed

subsection \<open>The search\<close>

lemma first_pass_mem: "first_pass fs lines pat is = Some i \<Longrightarrow> i \<in> set is"
  by (induction fs lines pat "is" rule: first_pass.induct)
    (auto split: option.splits simp: find_Some_iff)

lemma seek_bounds:
  assumes "seekSequence lines pat start False = Some i"
  shows "start \<le> i \<and> (if pat = [] then i = start else i + length pat \<le> length lines)"
  using assms by (auto simp: seekSequence_def Let_def dest!: first_pass_mem split: if_splits)

lemma find_upt: "P k \<Longrightarrow> k < n \<Longrightarrow> \<forall>i < k. \<not> P i \<Longrightarrow> find P [0..<n] = Some k"
  by (simp add: find_Some_iff) (intro exI [of _ k], auto)

lemma seek_first_exact:
  assumes "lines = pre @ pat @ post" "pat \<noteq> []"
    and "\<forall>i < length pre. \<not> lines_at (\<lambda>s. s) lines pat i"
  shows "seekSequence lines pat 0 False = Some (length pre)"
proof -
  have "find (lines_at (\<lambda>s. s) lines pat) [0..<Suc (length lines - length pat)] = Some (length pre)"
    by (rule find_upt) (use assms in \<open>auto simp: lines_at_def\<close>)
  then show ?thesis using assms(1,2) by (simp add: seekSequence_def seek_passes_def Let_def)
qed

subsection \<open>Replacements\<close>

text \<open>
  What a list of replacements means: the ranges of the original lines, in order, give way
  to the new lines, and every line outside them stays.
\<close>

fun patched :: "nat \<Rightarrow> string list \<Rightarrow> replacement list \<Rightarrow> string list" where
  "patched pos lines [] = drop pos lines"
| "patched pos lines ((s, k, seg) # rs) =
     take (s - pos) (drop pos lines) @ seg @ patched (s + k) lines rs"

fun ordered :: "nat \<Rightarrow> nat \<Rightarrow> replacement list \<Rightarrow> bool" where
  "ordered pos n [] \<longleftrightarrow> pos \<le> n"
| "ordered pos n ((s, k, seg) # rs) \<longleftrightarrow> pos \<le> s \<and> ordered (s + k) n rs"

lemma ordered_le: "ordered pos n rs \<Longrightarrow> pos \<le> n"
  by (induction pos n rs rule: ordered.induct) auto

lemma ordered_starts: "ordered pos n rs \<Longrightarrow> \<forall>r \<in> set rs. pos \<le> fst r"
  by (induction pos n rs rule: ordered.induct) fastforce+

lemma ordered_sorted: "ordered pos n rs \<Longrightarrow> js_sort (by_key start_of) rs = rs"
proof (rule keyed.sort_id, induction pos n rs rule: ordered.induct)
  case (2 pos n s k seg rs)
  then show ?case using ordered_starts [of "s + k" n rs]
    by (fastforce simp: by_key_def start_of_def)
qed simp

lemma apply_ordered:
  "ordered pos (length lines) rs \<Longrightarrow> applyReplacements lines rs = take pos lines @ patched pos lines rs"
proof (induction pos "length lines" rs rule: ordered.induct)
  case (2 pos s k seg rs)
  then have o: "pos \<le> s" "s + k \<le> length lines" using ordered_le by auto
  have "take s lines = take pos lines @ take (s - pos) (drop pos lines)"
    using o(1) by (metis le_add_diff_inverse take_add)
  with 2 o show ?case by (simp add: applyReplacements_def js_splice_def)
qed (simp add: applyReplacements_def)

text \<open>One chunk with old lines: where it was found, and with which of its two patterns.\<close>

lemma compute_chunk:
  assumes "compute_loop lines p (c # cs) at = Inr rs" "uc_old c \<noteq> []" "\<not> uc_eof c"
  obtains at' i pat seg rs' where "at' = at \<or> (\<exists>ctx j. seekSequence lines [ctx] at False = Some j \<and> at' = j + 1)"
    "seekSequence lines pat at' False = Some i" "compute_loop lines p cs (i + length pat) = Inr rs'"
    "rs = (i, length pat, seg) # rs'"
proof -
  define ac where "ac = (case uc_context c of None \<Rightarrow> Inr at
      | Some ctx \<Rightarrow> (case seekSequence lines [ctx] at False of
          None \<Rightarrow> Inl (ContextNotFound ctx p) | Some i \<Rightarrow> Inr (i + 1)))"
  obtain at' where at': "ac = Inr at'"
    using assms(1) unfolding compute_loop.simps ac_def [symmetric] Let_def by (cases ac) auto
  define retry where "retry \<longleftrightarrow> seekSequence lines (uc_old c) at' False = None \<and> last (uc_old c) = []"
  define pat where "pat = (if retry then butlast (uc_old c) else uc_old c)"
  define seg where "seg = (if retry \<and> uc_new c \<noteq> [] \<and> last (uc_new c) = []
      then butlast (uc_new c) else uc_new c)"
  have "(case seekSequence lines pat at' False of None \<Rightarrow> Inl (LinesNotFound p (uc_old c))
      | Some i \<Rightarrow> (case compute_loop lines p cs (i + length pat) of
          Inl e \<Rightarrow> Inl e | Inr rs \<Rightarrow> Inr ((i, length pat, seg) # rs))) = Inr rs"
    using assms(1) at' assms(2,3)
    unfolding compute_loop.simps ac_def [symmetric] Let_def pat_def seg_def retry_def
    by (auto split: if_splits)
  then obtain i rs' where "seekSequence lines pat at' False = Some i"
    "compute_loop lines p cs (i + length pat) = Inr rs'" "rs = (i, length pat, seg) # rs'"
    by (auto split: option.splits sum.splits)
  moreover have "at' = at \<or> (\<exists>ctx j. seekSequence lines [ctx] at False = Some j \<and> at' = j + 1)"
    using at' by (auto simp: ac_def split: option.splits)
  ultimately show ?thesis using that by blast
qed

lemma compute_ordered:
  assumes "\<forall>c \<in> set chunks. uc_old c \<noteq> [] \<and> \<not> uc_eof c" "at \<le> length lines"
    and "compute_loop lines p chunks at = Inr rs"
  shows "ordered at (length lines) rs"
  using assms
proof (induction chunks arbitrary: at rs)
  case (Cons c cs)
  have c: "uc_old c \<noteq> []" "\<not> uc_eof c" using Cons.prems(1) by auto
  from compute_chunk [OF Cons.prems(3) c] obtain at' i pat seg rs' where
    ch: "at' = at \<or> (\<exists>ctx j. seekSequence lines [ctx] at False = Some j \<and> at' = j + 1)"
    "seekSequence lines pat at' False = Some i" "compute_loop lines p cs (i + length pat) = Inr rs'"
    "rs = (i, length pat, seg) # rs'" by metis
  have "at \<le> at'" "at' \<le> length lines"
    using ch(1) Cons.prems(2) by (auto dest!: seek_bounds)
  moreover from this have "at' \<le> i" "i + length pat \<le> length lines"
    using seek_bounds [OF ch(2)] by (auto split: if_splits)
  moreover from this have "ordered (i + length pat) (length lines) rs'"
    using Cons.IH ch(3) Cons.prems(1) by simp
  ultimately show ?case using ch(4) by simp
qed simp

text \<open>
  C8. An update changes what it names and nothing else: when every chunk has lines to find
  and none is pinned to the end of the file, the ranges found are in order and disjoint,
  and the new file is the old one with exactly these ranges replaced.
\<close>

theorem replacements_exact:
  assumes "computeReplacements lines p chunks = Inr rs"
    and "\<forall>c \<in> set chunks. uc_old c \<noteq> [] \<and> \<not> uc_eof c"
  shows "ordered 0 (length lines) rs \<and> applyReplacements lines rs = patched 0 lines rs"
proof -
  obtain us where us: "compute_loop lines p chunks 0 = Inr us" "rs = js_sort (by_key start_of) us"
    using assms(1) by (auto simp: computeReplacements_def split: sum.splits)
  have o: "ordered 0 (length lines) us" by (rule compute_ordered [OF assms(2) _ us(1)]) simp
  then have "rs = us" using us(2) ordered_sorted by simp
  with o apply_ordered [OF o] show ?thesis by simp
qed

definition swap_chunks :: "update_chunk list" where
  "swap_chunks = [chunk_of (None, [Remove ''a'', Insert ''x''], False),
     chunk_of (Some ''b'', [Keep ''c'', Insert ''y''], False)]"

lemma replacements_exact_witness:
  "applyReplacements [''a'', ''b'', ''c'', ''d''] [(0, 1, [''x'']), (2, 1, [''c'', ''y''])]
   = [''x'', ''b'', ''c'', ''y'', ''d'']"
proof -
  have "computeReplacements [''a'', ''b'', ''c'', ''d''] ''f'' swap_chunks
      = Inr [(0, 1, [''x'']), (2, 1, [''c'', ''y''])]"
    by code_simp
  moreover have "\<forall>c \<in> set swap_chunks. uc_old c \<noteq> [] \<and> \<not> uc_eof c" by code_simp
  ultimately show ?thesis
    using replacements_exact by fastforce
qed

subsection \<open>The tool end to end\<close>

lemma starts_with_slash: "js_starts_with (''/'' @ s) ''/''"
  by (simp add: js_starts_with_def)

text \<open>
  The safety check of a path never fails: an absolute path and a path with \<open>..\<close> segments
  leave the working directory.
\<close>

lemma resolveSafePath_accepts: "resolveSafePath p cwd = Inr (path_resolve cwd p)"
  using starts_with_slash by (simp add: resolveSafePath_def path_resolve_def)

lemma split_content:
  assumes "\<forall>l \<in> set ls. line_feed \<notin> set l" "ls \<noteq> []"
  shows "js_split line_feed (js_join [line_feed] ls @ [line_feed]) = ls @ [[]]"
proof -
  have "js_join [line_feed] (ls @ [[]]) = js_join [line_feed] ls @ [line_feed]"
    using assms(2) by (simp add: join_append)
  then show ?thesis using js_split_join [of "ls @ [[]]" line_feed] assms(1) by auto
qed

lemma updated_first_occurrence:
  assumes "lines = pre @ old @ post" "old \<noteq> []" "\<forall>l \<in> set lines. line_feed \<notin> set l"
    and "\<forall>i < length pre. \<not> lines_at (\<lambda>s. s) lines old i"
    and "pre @ new @ post \<noteq> []" "last (pre @ new @ post) \<noteq> []"
  shows "updated_content (js_join [line_feed] lines @ [line_feed]) p
      [\<lparr>uc_context = None, uc_old = old, uc_new = new, uc_eof = False\<rparr>]
    = Inr (js_join [line_feed] (pre @ new @ post) @ [line_feed])"
proof -
  let ?c = "\<lparr>uc_context = None, uc_old = old, uc_new = new, uc_eof = False\<rparr>"
  have ne: "lines \<noteq> []" using assms(1,2) by simp
  have "seekSequence lines old 0 False = Some (length pre)"
    by (rule seek_first_exact [OF assms(1,2,4)])
  then have "compute_loop lines p [?c] 0 = Inr [(length pre, length old, new)]"
    using assms(2) by (simp add: Let_def)
  then have "computeReplacements lines p [?c] = Inr [(length pre, length old, new)]"
    by (simp add: computeReplacements_def)
  moreover have "applyReplacements lines [(length pre, length old, new)] = pre @ new @ post"
    by (simp add: applyReplacements_def js_splice_def assms(1))
  moreover have "js_join [line_feed] ((pre @ new @ post) @ [[]])
      = js_join [line_feed] (pre @ new @ post) @ [line_feed]"
    using assms(5) by (subst join_append) simp_all
  ultimately show ?thesis
    using assms(5,6) split_content [OF assms(3) ne] by (simp add: updated_content_def Let_def)
qed

text \<open>
  End to end: the text of an update whose kept and removed lines occur in the file
  replaces their first occurrence by the kept and inserted lines, writes the file back with
  its final line break, reports the path as modified and leaves every other file alone.
\<close>

theorem patch_updates_file:
  assumes "wf_patch [TUpdate p None [(None, ops, False)]]"
    and "fs (path_resolve cwd p) = Some (js_join [line_feed] (pre @ old_of ops @ post) @ [line_feed])"
    and "old_of ops \<noteq> []" and "\<forall>l \<in> set (pre @ old_of ops @ post). line_feed \<notin> set l"
    and "\<forall>i < length pre. \<not> lines_at (\<lambda>s. s) (pre @ old_of ops @ post) (old_of ops) i"
    and "pre @ new_of ops @ post \<noteq> []" "last (pre @ new_of ops @ post) \<noteq> []"
  shows "apply_patch cwd (patch_text [TUpdate p None [(None, ops, False)]]) fs =
    (fs(path_resolve cwd p \<mapsto> js_join [line_feed] (pre @ new_of ops @ post) @ [line_feed]),
     PatchApplied (''Applied patch successfully:'' @ [line_feed] @ ''M '' @ p)
       \<lparr>pl_added = [], pl_modified = [p], pl_deleted = []\<rparr>)"
proof -
  have "parsePatch (patch_text [TUpdate p None [(None, ops, False)]])
      = Inr [UpdateFile p None [chunk_of (None, ops, False)]]"
    using parse_patch [OF assms(1)] by simp
  then show ?thesis
    using updated_first_occurrence [OF refl assms(3-7), of p] assms(2)
    by (simp add: apply_patch_def apply_hunk_def resolveSafePath_accepts chunk_of_def Let_def
        log_text_def)
qed

lemma patch_updates_file_witness:
  "fst (apply_patch ''/w'' (patch_text [TUpdate ''f'' None [(None, [Keep ''b'', Remove ''c'', Insert ''x''], False)]])
      ((\<lambda>_. None)(''/w/f'' \<mapsto> js_join [line_feed] [''a'', ''b'', ''c''] @ [line_feed]))) ''/w/f''
   = Some (js_join [line_feed] [''a'', ''b'', ''x''] @ [line_feed])"
proof -
  let ?ops = "[Keep ''b'', Remove ''c'', Insert ''x'']"
  let ?fs = "(\<lambda>_. None)(''/w/f'' \<mapsto> js_join [line_feed] [''a'', ''b'', ''c''] @ [line_feed])"
  have r: "path_resolve ''/w'' ''f'' = ''/w/f''" by code_simp
  have "apply_patch ''/w'' (patch_text [TUpdate ''f'' None [(None, ?ops, False)]]) ?fs =
    (?fs(path_resolve ''/w'' ''f'' \<mapsto> js_join [line_feed] ([''a''] @ new_of ?ops @ []) @ [line_feed]),
     PatchApplied (''Applied patch successfully:'' @ [line_feed] @ ''M '' @ ''f'')
       \<lparr>pl_added = [], pl_modified = [''f''], pl_deleted = []\<rparr>)"
  proof (rule patch_updates_file)
    show "wf_patch [TUpdate ''f'' None [(None, ?ops, False)]]" by code_simp
    show "\<forall>l \<in> set ([''a''] @ old_of ?ops @ []). line_feed \<notin> set l" by code_simp
    show "\<forall>i < length [''a'']. \<not> lines_at (\<lambda>s. s) ([''a''] @ old_of ?ops @ []) (old_of ?ops) i"
      by (simp add: lines_at_def)
  qed (simp_all add: r)
  then show ?thesis by (simp add: r)
qed

text \<open>Moving a file onto itself writes it and then removes it.\<close>

lemma move_onto_itself_deletes:
  assumes "fs (path_resolve cwd p) = Some content" "updated_content content p chunks = Inr new"
    and "m \<noteq> []" "path_resolve cwd m = path_resolve cwd p"
  shows "fst (apply_hunk cwd (UpdateFile p (Some m) chunks) fs lg) = fs(path_resolve cwd p := None)"
  using assms by (simp add: apply_hunk_def resolveSafePath_accepts)

text \<open>
  An insertion without old lines goes to the end of the file, whatever context line it
  names, and after a chunk that reaches the last, empty line it is lost.
\<close>

lemma insertion_ignores_context:
  "updated_content (''a'' @ [line_feed] @ ''b'' @ [line_feed]) ''f''
     [chunk_of (Some ''a'', [Insert ''x''], False)]
   = Inr (''a'' @ [line_feed] @ ''b'' @ [line_feed] @ ''x'' @ [line_feed])"
  by code_simp

lemma insertion_lost:
  "updated_content (''a'' @ [line_feed, line_feed]) ''f''
     [chunk_of (None, [Remove ''a'', Insert ''b'', Keep ''''], False),
      chunk_of (None, [Insert ''c''], False)]
   = Inr (''b'' @ [line_feed, line_feed])"
  by code_simp

end
