(* ===== verification/CronStore.thy ===== *)
theory CronStore
  imports JsRegex
begin

text \<open>
  The cron store, \<open>src/src/cron/store.ts\<close>: parsing of schedules, the next run of a cron
  expression, and the persistent list of jobs with its runaway caps, claims and loop
  guards.

  A timestamp is its number of milliseconds: the ISO strings the store keeps are all
  written by \<open>toISOString\<close>, so they compare as the instants they denote.  The local
  calendar is a parameter \<open>cal\<close> of the cron search; the time zone has a whole-minute offset
  and no transition in the searched span, so that the next minute is 60000 ms later.
  An operation reads the clock once.  \<open>save\<close> succeeds and writes the list to \<open>cs_disk\<close>.
\<close>

datatype cron_schedule =
    Delay int string
  | Interval int string
  | CronExpr string string

datatype job_kind = PlainJob | Wakeup

datatype loop_mode = DynamicLoop | FixedLoop

record cron_delivery =
  cd_channelId :: string
  cd_threadId :: string
  cd_channelType :: string

record wakeup_loop =
  wl_key :: string
  wl_mode :: loop_mode
  wl_maxIterations :: int
  wl_cooldownMs :: int
  wl_until :: "string option"

datatype run_status = RunOk | RunError

record cron_job =
  cj_id :: string
  cj_name :: string
  cj_prompt :: string
  cj_schedule :: cron_schedule
  cj_enabled :: bool
  cj_kind :: "job_kind option"
  cj_createdAt :: time
  cj_nextRunAt :: time
  cj_lastRunAt :: "time option"
  cj_lastStatus :: "run_status option"
  cj_lastError :: "string option"
  cj_running :: bool
  cj_claimedAt :: "time option"
  cj_times :: "int option"
  cj_completed :: int
  cj_deliver :: cron_delivery
  cj_loop :: "wakeup_loop option"

datatype cron_error =
    InvalidSchedule string
  | UnknownUnit string
  | InvalidTime
  | BadCronExpr string
  | NoCronMatch string
  | ForbiddenPoll
  | LoopKeyRequired
  | TooFewIterations
  | IterationsAboveCap
  | LoopExhausted string int
  | LoopActive string
  | LoopCooling string int

definition hard_wakeup_cap :: int where "hard_wakeup_cap = 50"
definition hard_interval_cap :: int where "hard_interval_cap = 50"

definition forbidden_needles :: "string list" where
  "forbidden_needles = [''merge-on-green'', ''merge watch'', ''re-anchor'', ''commit status'',
     ''until merged'', ''until green'', ''/pulls/'', ''/api/v1/repos/'', ''origin.shizuha.com/api'',
     ''serving watchdog'', ''approval watch'']"

definition isForbiddenIntervalPoll :: "string \<Rightarrow> string \<Rightarrow> bool" where
  "isForbiddenIntervalPoll nm prompt =
     (let blob = js_lower (nm @ [char_of (10::nat)] @ prompt)
      in list_ex (\<lambda>needle. js_includes blob needle) forbidden_needles)"

fun is_interval :: "cron_schedule \<Rightarrow> bool" where
  "is_interval (Interval ms d) = True"
| "is_interval _ = False"

fun defaultRepeatTimes :: "cron_schedule \<Rightarrow> int option \<Rightarrow> int option" where
  "defaultRepeatTimes s (Some n) = Some (if is_interval s then min n hard_interval_cap else n)"
| "defaultRepeatTimes (Delay ms d) None = Some 1"
| "defaultRepeatTimes (Interval ms d) None = Some hard_interval_cap"
| "defaultRepeatTimes (CronExpr e d) None = None"

subsection \<open>Schedules\<close>

definition parseDuration :: "int \<Rightarrow> string \<Rightarrow> cron_error + int" where
  "parseDuration v u =
     (let raw = js_lower u in
      if raw = ''s'' then Inr (v * 1000)
      else let w = (if js_ends_with raw ''s'' then butlast raw else raw) in
        if w \<in> {''sec'', ''second''} then Inr (v * 1000)
        else if w \<in> {''min'', ''minute'', ''m''} then Inr (v * 60000)
        else if w \<in> {''hr'', ''hour'', ''h''} then Inr (v * 3600000)
        else if w \<in> {''day'', ''d''} then Inr (v * 86400000)
        else Inl (UnknownUnit u))"

definition unit_re :: re where
  "unit_re = RAlts [RLit ''s'', RLit ''sec'', RSeq (RLit ''second'') (ROpt (RLit ''s'')),
     RLit ''m'', RLit ''min'', RSeq (RLit ''minute'') (ROpt (RLit ''s'')),
     RLit ''h'', RLit ''hr'', RSeq (RLit ''hour'') (ROpt (RLit ''s'')),
     RLit ''d'', RSeq (RLit ''day'') (ROpt (RLit ''s''))]"

text \<open>\<open>/^every\\s+(\\d+)\\s*(...)$/i\<close>, \<open>/^(\\d+)\\s*(...)$/i\<close> and
  \<open>/^([\\d*,/\\-]+\\s+){4}[\\d*,/\\-]+$/\<close>\<close>

definition interval_re :: re where
  "interval_re = RSeqs [RBol, RLit ''every'', RPlus RSpace, RGrp 1 (RPlus RDigit), RStar RSpace,
     RGrp 2 unit_re, REol]"

definition delay_re :: re where
  "delay_re = RSeqs [RBol, RGrp 1 (RPlus RDigit), RStar RSpace, RGrp 2 unit_re, REol]"

abbreviation RCronChar :: re where
  "RCronChar \<equiv> RCls False [(48, 57), (42, 42), (44, 44), (47, 47), (45, 45)]"

definition cron_expr_re :: re where
  "cron_expr_re = RSeqs [RBol, RRep 4 (Some 4) (RGrp 1 (RSeq (RPlus RCronChar) (RPlus RSpace))),
     RPlus RCronChar, REol]"

definition group_text :: "rmatch \<Rightarrow> nat \<Rightarrow> string" where
  "group_text m k = (case rm_group m k of None \<Rightarrow> [] | Some s \<Rightarrow> s)"

definition duration_of :: "rmatch \<Rightarrow> cron_error + int" where
  "duration_of m = parseDuration (int (parse_nat (group_text m 1))) (group_text m 2)"

definition parseSchedule :: "string \<Rightarrow> cron_error + cron_schedule" where
  "parseSchedule input =
     (let trimmed = js_trim input in
      case re_match True interval_re trimmed of
        Some m \<Rightarrow> (case duration_of m of Inl e \<Rightarrow> Inl e | Inr ms \<Rightarrow> Inr (Interval ms trimmed))
      | None \<Rightarrow>
      (case re_match True delay_re trimmed of
        Some m \<Rightarrow> (case duration_of m of Inl e \<Rightarrow> Inl e | Inr ms \<Rightarrow> Inr (Delay ms trimmed))
      | None \<Rightarrow>
        if re_test False cron_expr_re trimmed then Inr (CronExpr trimmed trimmed)
        else Inl (InvalidSchedule trimmed)))"

subsection \<open>The next run\<close>

record cal_fields =
  cf_minute :: int
  cf_hour :: int
  cf_date :: int
  cf_month :: int
  cf_day :: int

type_synonym calendar = "time \<Rightarrow> cal_fields"

text \<open>\<open>/^(\\*|(\\d+)-(\\d+))\\/(\\d+)$/\<close> and \<open>/^(\\d+)-(\\d+)$/\<close>\<close>

definition step_re :: re where
  "step_re = RSeqs [RBol, RGrp 1 (RAlt (RLit ''*'')
       (RSeqs [RGrp 2 (RPlus RDigit), RLit ''-'', RGrp 3 (RPlus RDigit)])),
     RLit ''/'', RGrp 4 (RPlus RDigit), REol]"

definition range_re :: re where
  "range_re = RSeqs [RBol, RGrp 1 (RPlus RDigit), RLit ''-'', RGrp 2 (RPlus RDigit), REol]"

definition group_int :: "rmatch \<Rightarrow> nat \<Rightarrow> int \<Rightarrow> int" where
  "group_int m k d = (case rm_group m k of None \<Rightarrow> d | Some s \<Rightarrow> int (parse_nat s))"

text \<open>One part of a comma list; \<open>x % 0\<close> is \<open>NaN\<close>, which is not 0.\<close>

definition cron_part :: "int \<Rightarrow> int \<Rightarrow> int \<Rightarrow> string \<Rightarrow> bool" where
  "cron_part v lo hi part =
     (if part = ''*'' then True
      else case re_match False step_re part of
        Some m \<Rightarrow>
          (let step = group_int m 4 0; a = group_int m 2 lo; b = group_int m 3 hi
           in a \<le> v \<and> v \<le> b \<and> step \<noteq> 0 \<and> (v - a) mod step = 0)
      | None \<Rightarrow>
      (case re_match False range_re part of
        Some m \<Rightarrow> group_int m 1 0 \<le> v \<and> v \<le> group_int m 2 0
      | None \<Rightarrow> js_parse_int part = Some v))"

definition matchCronField :: "string \<Rightarrow> int \<Rightarrow> int \<Rightarrow> int \<Rightarrow> bool" where
  "matchCronField field v lo hi = list_ex (cron_part v lo hi) (js_split (CHR '','') field)"

text \<open>\<open>expr.split(/\\s+/)\<close>: a run of white space separates, also at the ends.\<close>

fun split_ws :: "string \<Rightarrow> bool \<Rightarrow> string \<Rightarrow> string list" where
  "split_ws w inws [] = [w]"
| "split_ws w inws (c # cs) =
     (if js_ws c then (if inws then split_ws w True cs else w # split_ws [] True cs)
      else split_ws (w @ [c]) False cs)"

definition cron_matches :: "calendar \<Rightarrow> string list \<Rightarrow> time \<Rightarrow> bool" where
  "cron_matches cal flds t =
     (let f = cal t in
      matchCronField (flds ! 0) (cf_minute f) 0 59 \<and> matchCronField (flds ! 1) (cf_hour f) 0 23
      \<and> matchCronField (flds ! 2) (cf_date f) 1 31
      \<and> matchCronField (flds ! 3) (cf_month f + 1) 1 12
      \<and> matchCronField (flds ! 4) (cf_day f) 0 6)"

fun minute_search :: "(time \<Rightarrow> bool) \<Rightarrow> nat \<Rightarrow> time \<Rightarrow> time option" where
  "minute_search p 0 t = None"
| "minute_search p (Suc n) t = (if p t then Some t else minute_search p n (t + 60000))"

definition next_minute :: "time \<Rightarrow> time" where
  "next_minute t = t - t mod 60000 + 60000"

definition computeNextCronRun :: "calendar \<Rightarrow> string \<Rightarrow> time \<Rightarrow> cron_error + time" where
  "computeNextCronRun cal expr t0 =
     (let flds = split_ws [] False expr in
      if length flds \<noteq> 5 then Inl (BadCronExpr expr)
      else case minute_search (cron_matches cal flds) (366 * 24 * 60) (next_minute t0) of
        Some t \<Rightarrow> Inr t | None \<Rightarrow> Inl (NoCronMatch expr))"

text \<open>A \<open>Date\<close> holds at most \<open>8.64e15\<close> ms on either side of the epoch.\<close>

definition to_iso :: "int \<Rightarrow> cron_error + time" where
  "to_iso t = (if \<bar>t\<bar> \<le> 8640000000000000 then Inr t else Inl InvalidTime)"

fun computeNextRun :: "calendar \<Rightarrow> cron_schedule \<Rightarrow> time \<Rightarrow> cron_error + time" where
  "computeNextRun cal (Delay ms d) t0 = to_iso (t0 + ms)"
| "computeNextRun cal (Interval ms d) t0 = to_iso (t0 + ms)"
| "computeNextRun cal (CronExpr e d) t0 = computeNextCronRun cal e t0"

subsection \<open>The store\<close>

record cron_store =
  cs_jobs :: "cron_job list"
  cs_disk :: "cron_job list option"

text \<open>The constructor; the file may hold the jobs of an earlier process.\<close>

definition new_store :: "cron_job list option \<Rightarrow> cron_store" where
  "new_store disk = \<lparr>cs_jobs = [], cs_disk = disk\<rparr>"

definition cs_save :: "cron_store \<Rightarrow> cron_store" where
  "cs_save s = s\<lparr>cs_disk := Some (cs_jobs s)\<rparr>"

definition runaway_error :: string where
  "runaway_error = ''interval runaway cap ('' @ show_int hard_interval_cap @ '') reached''"

definition forbidden_error :: string where
  "forbidden_error = ''forbidden interval PR/CI/serving watch '' @ em_dash @ '' context-poisoning''"

text \<open>One round of the loop: the job afterwards, and whether it changed.\<close>

definition bound_job :: "cron_job \<Rightarrow> cron_job \<times> bool" where
  "bound_job j =
     (if \<not> cj_enabled j \<or> cj_kind j = Some Wakeup \<or> \<not> is_interval (cj_schedule j) then (j, False)
      else let unbounded = (case cj_times j of None \<Rightarrow> True | Some n \<Rightarrow> hard_interval_cap < n);
               j' = (if unbounded then j\<lparr>cj_times := Some hard_interval_cap\<rparr> else j)
        in if isForbiddenIntervalPoll (cj_name j') (cj_prompt j')
           then (j'\<lparr>cj_enabled := False, cj_lastError := Some forbidden_error\<rparr>, True)
           else if hard_interval_cap \<le> cj_completed j'
           then (j'\<lparr>cj_enabled := False, cj_lastError := Some runaway_error\<rparr>, True)
           else (j', unbounded))"

definition disableRunawayIntervalJobs :: "cron_store \<Rightarrow> cron_store \<times> bool" where
  "disableRunawayIntervalJobs s =
     (s\<lparr>cs_jobs := map (fst \<circ> bound_job) (cs_jobs s)\<rparr>, list_ex (snd \<circ> bound_job) (cs_jobs s))"

definition cs_load :: "cron_store \<Rightarrow> cron_store" where
  "cs_load s =
     (let s1 = s\<lparr>cs_jobs := (case cs_disk s of None \<Rightarrow> [] | Some js \<Rightarrow> js)\<rparr> in
      case disableRunawayIntervalJobs s1 of (s2, changed) \<Rightarrow> if changed then cs_save s2 else s2)"

record loop_stats =
  ls_jobs :: nat
  ls_completed :: int
  ls_active :: nat
  ls_lastRunAt :: "time option"
  ls_lastCreatedAt :: "time option"

definition latest :: "time list \<Rightarrow> time option" where
  "latest ts = (if ts = [] then None else Some (last (sort ts)))"

definition getLoopStats :: "string \<Rightarrow> cron_store \<Rightarrow> loop_stats" where
  "getLoopStats key s =
     (let js = filter (\<lambda>j. map_option wl_key (cj_loop j) = Some key) (cs_jobs s) in
      \<lparr>ls_jobs = length js, ls_completed = sum_list (map cj_completed js),
       ls_active = length (filter cj_enabled js),
       ls_lastRunAt = latest (List.map_filter cj_lastRunAt js),
       ls_lastCreatedAt = latest (map cj_createdAt js)\<rparr>)"

definition assertLoopCanBeScheduled :: "time \<Rightarrow> wakeup_loop \<Rightarrow> cron_store \<Rightarrow> cron_error + unit" where
  "assertLoopCanBeScheduled now lp s =
     (if js_trim (wl_key lp) = [] then Inl LoopKeyRequired
      else if wl_maxIterations lp < 1 then Inl TooFewIterations
      else if hard_wakeup_cap < wl_maxIterations lp then Inl IterationsAboveCap
      else if wl_mode lp = DynamicLoop then
        (let st = getLoopStats (wl_key lp) s in
         if wl_maxIterations lp \<le> int (ls_jobs st) then Inl (LoopExhausted (wl_key lp) (wl_maxIterations lp))
         else if 0 < ls_active st then Inl (LoopActive (wl_key lp))
         else case (case ls_lastRunAt st of Some t \<Rightarrow> Some t | None \<Rightarrow> ls_lastCreatedAt st) of
           None \<Rightarrow> Inr ()
         | Some t \<Rightarrow>
             if 0 < wl_cooldownMs lp \<and> 0 \<le> now - t \<and> now - t < wl_cooldownMs lp
             then Inl (LoopCooling (wl_key lp) ((wl_cooldownMs lp - (now - t) + 999) div 1000))
             else Inr ())
      else Inr ())"

record job_request =
  jr_name :: string
  jr_prompt :: string
  jr_schedule :: cron_schedule
  jr_deliver :: cron_delivery
  jr_kind :: "job_kind option"
  jr_repeatTimes :: "int option"
  jr_loop :: "wakeup_loop option"

definition make_job :: "string \<Rightarrow> time \<Rightarrow> time \<Rightarrow> job_request \<Rightarrow> cron_job" where
  "make_job jid now next_run r = \<lparr>cj_id = jid, cj_name = jr_name r, cj_prompt = jr_prompt r,
     cj_schedule = jr_schedule r, cj_enabled = True,
     cj_kind = Some (case jr_kind r of None \<Rightarrow> PlainJob | Some k \<Rightarrow> k), cj_createdAt = now,
     cj_nextRunAt = next_run, cj_lastRunAt = None, cj_lastStatus = None, cj_lastError = None,
     cj_running = False, cj_claimedAt = None,
     cj_times = defaultRepeatTimes (jr_schedule r) (jr_repeatTimes r), cj_completed = 0,
     cj_deliver = jr_deliver r, cj_loop = jr_loop r\<rparr>"

text \<open>\<open>addJob\<close>: \<open>jid\<close> is the fresh random identifier.\<close>

definition addJob :: "calendar \<Rightarrow> string \<Rightarrow> time \<Rightarrow> job_request \<Rightarrow> cron_store \<Rightarrow>
    cron_store \<times> (cron_error + cron_job)" where
  "addJob cal jid now r s =
     (case (case jr_loop r of None \<Rightarrow> Inr () | Some lp \<Rightarrow> assertLoopCanBeScheduled now lp s) of
        Inl e \<Rightarrow> (s, Inl e)
      | Inr _ \<Rightarrow>
        if is_interval (jr_schedule r) \<and> jr_kind r \<noteq> Some Wakeup
           \<and> isForbiddenIntervalPoll (jr_name r) (jr_prompt r)
        then (s, Inl ForbiddenPoll)
        else case computeNextRun cal (jr_schedule r) now of
          Inl e \<Rightarrow> (s, Inl e)
        | Inr t \<Rightarrow>
            (let j = make_job jid now t r
             in (cs_save (s\<lparr>cs_jobs := cs_jobs s @ [j]\<rparr>), Inr j)))"

definition removeJob :: "string \<Rightarrow> cron_store \<Rightarrow> cron_store \<times> bool" where
  "removeJob jid s = (case find_index (\<lambda>j. cj_id j = jid) (cs_jobs s) of
      None \<Rightarrow> (s, False)
    | Some i \<Rightarrow> (cs_save (s\<lparr>cs_jobs := remove_nth i (cs_jobs s)\<rparr>), True))"

definition listJobs :: "bool \<Rightarrow> cron_store \<Rightarrow> cron_job list" where
  "listJobs includeDisabled s =
     (if includeDisabled then cs_jobs s else filter cj_enabled (cs_jobs s))"

definition stale_ms :: int where "stale_ms = 30 * 60000"

definition job_due :: "time \<Rightarrow> cron_job \<Rightarrow> bool" where
  "job_due now j =
     (if \<not> cj_enabled j \<or> now < cj_nextRunAt j then False
      else if \<not> cj_running j then True
      else let claimed = (case cj_claimedAt j of None \<Rightarrow> 0 | Some t \<Rightarrow> t)
           in 0 < claimed \<and> stale_ms < now - claimed)"

definition getDueJobs :: "time \<Rightarrow> cron_store \<Rightarrow> cron_job list" where
  "getDueJobs now s = filter (job_due now) (cs_jobs s)"

definition getJob :: "string \<Rightarrow> cron_store \<Rightarrow> cron_job option" where
  "getJob jid s = find (\<lambda>j. cj_id j = jid) (cs_jobs s)"

text \<open>The mutation of the first job with an identifier.\<close>

fun update_job :: "string \<Rightarrow> (cron_job \<Rightarrow> cron_job) \<Rightarrow> cron_job list \<Rightarrow> cron_job list" where
  "update_job jid f [] = []"
| "update_job jid f (j # js) = (if cj_id j = jid then f j # js else j # update_job jid f js)"

definition claimJob :: "time \<Rightarrow> string \<Rightarrow> cron_store \<Rightarrow> cron_store \<times> bool" where
  "claimJob now jid s = (case getJob jid s of
      None \<Rightarrow> (s, False)
    | Some j \<Rightarrow>
        if \<not> cj_enabled j then (s, False)
        else if \<not> (\<exists>d \<in> set (getDueJobs now s). cj_id d = jid) then (s, False)
        else (cs_save (s\<lparr>cs_jobs := update_job jid
                (\<lambda>j. j\<lparr>cj_running := True, cj_claimedAt := Some now\<rparr>) (cs_jobs s)\<rparr>), True))"

definition run_limit :: "cron_job \<Rightarrow> int option" where
  "run_limit j = (case cj_times j of
      Some n \<Rightarrow> Some n
    | None \<Rightarrow> if cj_kind j \<noteq> Some Wakeup \<and> is_interval (cj_schedule j)
              then Some hard_interval_cap else None)"

definition record_run :: "time \<Rightarrow> run_status \<Rightarrow> string option \<Rightarrow> cron_job \<Rightarrow> cron_job" where
  "record_run now status err j = j\<lparr>cj_lastRunAt := Some now, cj_lastStatus := Some status,
     cj_lastError := err, cj_running := False, cj_claimedAt := None,
     cj_completed := cj_completed j + 1\<rparr>"

definition exhausted :: "cron_job \<Rightarrow> bool" where
  "exhausted j = (case run_limit j of None \<Rightarrow> False | Some n \<Rightarrow> n \<le> cj_completed j)"

text \<open>When \<open>computeNextRun\<close> throws, the run is recorded in memory and nothing is saved.\<close>

definition markJobRun :: "calendar \<Rightarrow> time \<Rightarrow> string \<Rightarrow> run_status \<Rightarrow> string option \<Rightarrow> cron_store \<Rightarrow>
    cron_store \<times> (cron_error + unit)" where
  "markJobRun cal now jid status err s = (case getJob jid s of
      None \<Rightarrow> (s, Inr ())
    | Some j0 \<Rightarrow>
        (let j = record_run now status err j0;
             put = (\<lambda>j'. s\<lparr>cs_jobs := update_job jid (\<lambda>_. j') (cs_jobs s)\<rparr>)
         in if exhausted j then (cs_save (put (j\<lparr>cj_enabled := False\<rparr>)), Inr ())
            else case computeNextRun cal (cj_schedule j) now of
              Inl e \<Rightarrow> (put j, Inl e)
            | Inr t \<Rightarrow> (cs_save (put (j\<lparr>cj_nextRunAt := t\<rparr>)), Inr ())))"

subsection \<open>The search for the next run\<close>

lemma minute_search_Some:
  "minute_search p n t = Some u \<Longrightarrow>
     \<exists>k < n. u = t + 60000 * int k \<and> p u \<and> (\<forall>i < k. \<not> p (t + 60000 * int i))"
proof (induction n arbitrary: t)
  case (Suc n)
  show ?case
  proof (cases "p t")
    case True
    with Suc.prems show ?thesis by (intro exI [of _ 0]) simp
  next
    case False
    with Suc obtain k where k: "k < n" "u = t + 60000 + 60000 * int k" "p u"
      "\<forall>i < k. \<not> p (t + 60000 + 60000 * int i)" by fastforce
    have "\<not> p (t + 60000 * int i)" if "i < Suc k" for i
    proof (cases i)
      case (Suc j)
      with that have "\<not> p (t + 60000 + 60000 * int j)" using k(4) by simp
      with Suc show ?thesis by (simp add: algebra_simps)
    qed (use False in simp)
    with k show ?thesis by (intro exI [of _ "Suc k"]) (simp add: algebra_simps)
  qed
qed simp

lemma minute_search_None: "minute_search p n t = None \<Longrightarrow> k < n \<Longrightarrow> \<not> p (t + 60000 * int k)"
proof (induction n arbitrary: t k)
  case (Suc n)
  show ?case
  proof (cases k)
    case 0
    with Suc.prems show ?thesis by (simp split: if_splits)
  next
    case (Suc j)
    with Suc.IH [of "t + 60000" j] Suc.prems show ?thesis
      by (simp add: algebra_simps split: if_splits)
  qed
qed simp

lemma next_minute_div: "next_minute t = 60000 * (t div 60000 + 1)"
  by (simp add: next_minute_def minus_mod_eq_mult_div)

lemma next_minute_bounds: "t < next_minute t \<and> next_minute t \<le> t + 60000 \<and> next_minute t mod 60000 = 0"
proof -
  have "0 \<le> t mod 60000" "t mod 60000 < 60000" by simp_all
  moreover have "next_minute t mod 60000 = 0" by (simp add: next_minute_div)
  ultimately show ?thesis by (simp add: next_minute_def)
qed

text \<open>The whole minutes after \<open>t\<close> are the candidates of the search.\<close>

lemma minute_index:
  assumes "t < u" "u mod 60000 = 0"
  shows "\<exists>k. u = next_minute t + 60000 * int k"
proof -
  note n = next_minute_div [of t]
  have u: "u = 60000 * (u div 60000)" using assms(2) by auto
  have "t div 60000 < u div 60000"
  proof (rule ccontr)
    assume "\<not> t div 60000 < u div 60000"
    then have "60000 * (u div 60000) \<le> 60000 * (t div 60000)" by simp
    moreover have "60000 * (t div 60000) \<le> t" using div_mult_mod_eq [of t 60000] by simp
    ultimately show False using assms(1) u by linarith
  qed
  then have "u = next_minute t + 60000 * int (nat (u div 60000 - t div 60000 - 1))"
    using u n by (simp add: algebra_simps)
  then show ?thesis by (rule exI)
qed


lemma minute_search_step: "0 < n \<Longrightarrow>
    minute_search p n t = (if p t then Some t else minute_search p (n - 1) (t + 60000))"
  by (cases n) simp_all

text \<open>A UTC calendar of one day, for the witness: the minute and the hour of the day.\<close>

definition day_calendar :: calendar where
  "day_calendar t = \<lparr>cf_minute = t div 60000 mod 60, cf_hour = t div 3600000 mod 24,
     cf_date = 1, cf_month = 0, cf_day = 4\<rparr>"


subsection \<open>The runaway cap\<close>

text \<open>
  What every enabled plain interval job of the store satisfies: a limit of at most the
  cap, and fewer runs than the cap.
\<close>

definition capped :: "cron_job \<Rightarrow> bool" where
  "capped j \<longleftrightarrow> (cj_enabled j \<and> cj_kind j \<noteq> Some Wakeup \<and> is_interval (cj_schedule j) \<longrightarrow>
     cj_completed j < hard_interval_cap \<and> (\<exists>n \<le> hard_interval_cap. cj_times j = Some n))"

definition capped_store :: "cron_store \<Rightarrow> bool" where
  "capped_store s \<longleftrightarrow> (\<forall>j \<in> set (cs_jobs s). capped j)"

lemma bound_job_capped: "capped (fst (bound_job j))"
  by (auto simp: capped_def bound_job_def Let_def not_le not_less split: option.splits)

lemma set_update_job: "set (update_job jid f js) \<subseteq> set js \<union> f ` {j \<in> set js. cj_id j = jid}"
  by (induction js) auto

lemma cs_save_jobs [simp]: "cs_jobs (cs_save s) = cs_jobs s"
  by (simp add: cs_save_def)

lemma load_capped [keeps]: "capped_store (cs_load s)"
proof -
  have "capped_store (fst (disableRunawayIntervalJobs t))" for t
    using bound_job_capped by (auto simp: capped_store_def disableRunawayIntervalJobs_def)
  then have "capped_store t" if "disableRunawayIntervalJobs u = (t, b)" for t u b
    using that by (metis fst_conv)
  then show ?thesis
    by (simp add: cs_load_def Let_def split: prod.splits) (simp add: capped_store_def)
qed

lemma add_capped [keeps]:
  assumes "capped_store s" "addJob cal jid now r s = (t, res)"
  shows "capped_store t"
proof -
  have "capped (make_job jid now u r)" for u
    by (cases "jr_repeatTimes r"; cases "jr_schedule r")
      (auto simp: capped_def make_job_def hard_interval_cap_def)
  with assms show ?thesis
    by (auto simp: capped_store_def addJob_def Let_def split: sum.splits if_splits)
qed

lemma remove_capped [keeps]: "capped_store s \<Longrightarrow> capped_store (fst (removeJob jid s))"
  by (auto simp: capped_store_def removeJob_def remove_nth_def js_splice_def split: option.splits
    dest!: in_set_takeD in_set_dropD)

lemma update_capped:
  "capped_store s \<Longrightarrow> (\<And>j. j \<in> set (cs_jobs s) \<Longrightarrow> cj_id j = jid \<Longrightarrow> capped (f j)) \<Longrightarrow>
     capped_store (s\<lparr>cs_jobs := update_job jid f (cs_jobs s)\<rparr>)"
  using set_update_job [of jid f "cs_jobs s"] by (auto simp: capped_store_def)

lemma claim_capped [keeps]: "capped_store s \<Longrightarrow> capped_store (fst (claimJob now jid s))"
proof -
  assume s: "capped_store s"
  have "capped_store (s\<lparr>cs_jobs := update_job jid
      (\<lambda>j. j\<lparr>cj_running := True, cj_claimedAt := Some now\<rparr>) (cs_jobs s)\<rparr>)"
    by (rule update_capped [OF s]) (use s in \<open>auto simp: capped_store_def capped_def\<close>)
  with s show ?thesis by (auto simp: claimJob_def capped_store_def split: option.splits)
qed

lemma mark_capped [keeps]:
  assumes "capped_store s"
  shows "capped_store (fst (markJobRun cal now jid status err s))"
proof (cases "getJob jid s")
  case None
  with assms show ?thesis by (simp add: markJobRun_def)
next
  case (Some j0)
  let ?j = "record_run now status err j0"
  have "j0 \<in> set (cs_jobs s)" using Some by (auto simp: getJob_def find_Some_iff)
  then have c: "capped j0" using assms by (simp add: capped_store_def)
  then have e: "capped (?j\<lparr>cj_enabled := False\<rparr>)" by (simp add: capped_def)
  have k: "capped ?j \<and> capped (?j\<lparr>cj_nextRunAt := t\<rparr>)" if "\<not> exhausted ?j" for t
    using that c by (auto simp: capped_def exhausted_def run_limit_def record_run_def)
  have u: "capped_store (s\<lparr>cs_jobs := update_job jid (\<lambda>_. x) (cs_jobs s)\<rparr>)" if "capped x" for x
    by (rule update_capped [OF assms]) (rule that)
  show ?thesis
    using Some u [OF e] k u
    by (auto simp: markJobRun_def Let_def capped_store_def split: sum.splits)
qed

text \<open>The life of a store: it starts empty and goes through its operations.\<close>

inductive cron_step :: "cron_store \<Rightarrow> cron_store \<Rightarrow> bool" where
  load: "cron_step s (cs_load s)"
| add: "addJob cal jid now r s = (t, res) \<Longrightarrow> cron_step s t"
| remove: "cron_step s (fst (removeJob jid s))"
| claim: "cron_step s (fst (claimJob now jid s))"
| mark: "cron_step s (fst (markJobRun cal now jid status err s))"

inductive cron_reachable :: "cron_store \<Rightarrow> bool" where
  new: "cron_reachable (new_store disk)"
| step: "cron_reachable s \<Longrightarrow> cron_step s t \<Longrightarrow> cron_reachable t"

inductive_cases cron_stepE: "cron_step s t"

lemma reachable_capped: "cron_reachable s \<Longrightarrow> capped_store s"
proof (induction rule: cron_reachable.induct)
  case (step s t)
  from step.hyps(2) step.IH show ?case by (auto elim!: cron_stepE intro: keeps)
qed (simp add: capped_store_def new_store_def)

text \<open>
  No interval poll runs away: whatever the file held at start, in every reachable store
  an enabled plain interval job has completed fewer than fifty runs and has a limit of at
  most fifty, and a job can only be claimed while it is enabled; so every plain interval
  job that is claimed has fewer than fifty runs behind it.
\<close>

theorem interval_jobs_capped:
  assumes "cron_reachable s"
  shows "(j \<in> set (cs_jobs s) \<and> cj_enabled j \<and> cj_kind j \<noteq> Some Wakeup \<and> is_interval (cj_schedule j)
            \<longrightarrow> cj_completed j < hard_interval_cap \<and> (\<exists>n \<le> hard_interval_cap. cj_times j = Some n))
    \<and> (claimJob now jid s = (t, True) \<longrightarrow>
         (\<exists>j \<in> set (cs_jobs s). cj_id j = jid \<and> cj_enabled j \<and>
            (cj_kind j \<noteq> Some Wakeup \<and> is_interval (cj_schedule j) \<longrightarrow>
               cj_completed j < hard_interval_cap)))"
proof -
  have c: "\<forall>j \<in> set (cs_jobs s). capped j"
    using reachable_capped [OF assms] by (simp add: capped_store_def)
  then show ?thesis
    by (auto simp: capped_def claimJob_def getDueJobs_def job_due_def split: option.splits if_splits)
qed

definition polling_job :: cron_job where
  "polling_job = \<lparr>cj_id = ''a1'', cj_name = ''tick'', cj_prompt = ''look'',
     cj_schedule = Interval 60000 ''every 1m'', cj_enabled = True, cj_kind = None, cj_createdAt = 0,
     cj_nextRunAt = 60000, cj_lastRunAt = None, cj_lastStatus = None, cj_lastError = None,
     cj_running = False, cj_claimedAt = None, cj_times = None, cj_completed = 3,
     cj_deliver = \<lparr>cd_channelId = [], cd_threadId = [], cd_channelType = []\<rparr>, cj_loop = None\<rparr>"

lemma polling_job_bounded: "bound_job polling_job = (polling_job\<lparr>cj_times := Some 50\<rparr>, True)"
proof -
  have "\<not> isForbiddenIntervalPoll ''tick'' ''look''" by code_simp
  then show ?thesis by (simp add: bound_job_def polling_job_def Let_def hard_interval_cap_def)
qed

lemma polling_store:
  "cs_jobs (cs_load (new_store (Some [polling_job]))) = [polling_job\<lparr>cj_times := Some 50\<rparr>]"
  by (simp add: cs_load_def new_store_def disableRunawayIntervalJobs_def polling_job_bounded)

lemma interval_jobs_capped_witness:
  "\<exists>s. cron_reachable s \<and> cs_jobs s = [polling_job\<lparr>cj_times := Some 50\<rparr>]
     \<and> cj_completed (polling_job\<lparr>cj_times := Some 50\<rparr>) < hard_interval_cap"
proof -
  let ?s = "cs_load (new_store (Some [polling_job]))"
  have r: "cron_reachable ?s" by (blast intro: cron_reachable.intros cron_step.load)
  from interval_jobs_capped [OF r, of "polling_job\<lparr>cj_times := Some 50\<rparr>"] polling_store
  have "cj_completed (polling_job\<lparr>cj_times := Some 50\<rparr>) < hard_interval_cap"
    by (simp add: polling_job_def)
  with r polling_store show ?thesis by blast
qed

subsection \<open>Dynamic loops\<close>

text \<open>
  A self-scheduling loop stays a single, bounded thread of wake-ups: adding a job of a
  dynamic loop succeeds only if the loop has no active job, has been scheduled fewer times
  than its limit, which is at most fifty, and has cooled down since its last run; afterwards
  it has exactly one active job and no more jobs than the limit.
\<close>

theorem dynamic_loop_guarded:
  assumes "addJob cal jid now r s = (t, Inr j)" and "jr_loop r = Some lp"
    and "wl_mode lp = DynamicLoop"
  shows "ls_active (getLoopStats (wl_key lp) s) = 0 \<and> ls_active (getLoopStats (wl_key lp) t) = 1
    \<and> int (ls_jobs (getLoopStats (wl_key lp) t)) \<le> wl_maxIterations lp \<and> wl_maxIterations lp \<le> 50
    \<and> (ls_lastRunAt (getLoopStats (wl_key lp) s) = Some u \<and> u \<le> now \<longrightarrow> wl_cooldownMs lp \<le> now - u)"
proof -
  let ?st = "getLoopStats (wl_key lp) s"
  from assms(1,2) have a: "assertLoopCanBeScheduled now lp s = Inr ()"
    by (auto simp: addJob_def split: sum.splits)
  with assms(3) have g: "int (ls_jobs ?st) < wl_maxIterations lp" "ls_active ?st = 0"
    "wl_maxIterations lp \<le> 50"
    "ls_lastRunAt ?st = Some u \<and> u \<le> now \<longrightarrow> wl_cooldownMs lp \<le> now - u"
    by (auto simp: assertLoopCanBeScheduled_def Let_def hard_wakeup_cap_def split: if_splits option.splits)
  obtain v where "cs_jobs t = cs_jobs s @ [make_job jid now v r]"
    using assms(1) by (auto simp: addJob_def Let_def split: sum.splits if_splits)
  then have t: "ls_jobs (getLoopStats (wl_key lp) t) = Suc (ls_jobs ?st)"
    "ls_active (getLoopStats (wl_key lp) t) = Suc (ls_active ?st)"
    using assms(2) by (simp_all add: getLoopStats_def Let_def make_job_def)
  with g show ?thesis by simp
qed

definition wakeup_request :: job_request where
  "wakeup_request = \<lparr>jr_name = ''w'', jr_prompt = ''go on'', jr_schedule = Delay 60000 ''1m'',
     jr_deliver = \<lparr>cd_channelId = [], cd_threadId = [], cd_channelType = []\<rparr>, jr_kind = Some Wakeup,
     jr_repeatTimes = None, jr_loop = Some \<lparr>wl_key = ''k'', wl_mode = DynamicLoop,
       wl_maxIterations = 3, wl_cooldownMs = 60000, wl_until = None\<rparr>\<rparr>"

lemma dynamic_loop_guarded_witness:
  "ls_active (getLoopStats ''k'' (fst (addJob day_calendar ''b2'' 0 wakeup_request (new_store None)))) = 1"
proof -
  have "js_trim ''k'' = ''k''" by code_simp
  then obtain t j where a: "addJob day_calendar ''b2'' 0 wakeup_request (new_store None) = (t, Inr j)"
    by (simp add: addJob_def wakeup_request_def assertLoopCanBeScheduled_def new_store_def
        getLoopStats_def latest_def to_iso_def hard_wakeup_cap_def map_filter_def Let_def)
  have l: "jr_loop wakeup_request = Some \<lparr>wl_key = ''k'', wl_mode = DynamicLoop,
       wl_maxIterations = 3, wl_cooldownMs = 60000, wl_until = None\<rparr>"
    by (simp add: wakeup_request_def)
  from dynamic_loop_guarded [OF a l] a show ?thesis by simp
qed

end
