(* ===== verification/DueSource.thy ===== *)
theory DueSource
  imports Prelude
begin

text \<open>
  The contract between a poller and its store: the store lists the keys that are due and a
  claim takes one of them out.  The poller's loop over the due keys is proved here once to
  submit every due key exactly once and to leave none due.
\<close>

text \<open>
  The loop of a poller: it claims each key in turn and emits what it submits for a key
  whose claim succeeded, reading the store after the claim.
\<close>

fun claim_each :: "('k \<Rightarrow> 's \<Rightarrow> 's \<times> bool) \<Rightarrow> ('k \<Rightarrow> 's \<Rightarrow> 'm list) \<Rightarrow> 'k list \<Rightarrow> 's \<Rightarrow>
    's \<times> 'm list" where
  "claim_each claim emit [] s = (s, [])"
| "claim_each claim emit (k # ks) s =
     (case claim k s of (s1, ok) \<Rightarrow>
        (case claim_each claim emit ks s1 of (s2, ms) \<Rightarrow>
           (s2, (if ok then emit k s1 else []) @ ms)))"

lemma claim_each_Cons [simp]:
  "fst (claim_each claim emit (k # ks) s) = fst (claim_each claim emit ks (fst (claim k s)))"
  "snd (claim_each claim emit (k # ks) s) = (if snd (claim k s) then emit k (fst (claim k s)) else [])
     @ snd (claim_each claim emit ks (fst (claim k s)))"
  by (auto split: prod.splits)

declare claim_each.simps(2) [simp del]

locale due_source =
  fixes due :: "time \<Rightarrow> 's \<Rightarrow> 'k list"
    and claim :: "time \<Rightarrow> 'k \<Rightarrow> 's \<Rightarrow> 's \<times> bool"
    and inv :: "'s \<Rightarrow> bool"
  assumes due_distinct: "inv s \<Longrightarrow> distinct (due now s)"
    and claim_inv: "inv s \<Longrightarrow> inv (fst (claim now k s))"
    and claim_due: "inv s \<Longrightarrow> k \<in> set (due now s) \<Longrightarrow>
      snd (claim now k s) \<and> set (due now (fst (claim now k s))) = set (due now s) - {k}"
    and claim_not_due: "inv s \<Longrightarrow> k \<notin> set (due now s) \<Longrightarrow> claim now k s = (s, False)"
begin

lemma claim_each_inv: "inv s \<Longrightarrow> inv (fst (claim_each (claim now) emit ks s))"
  by (induction ks arbitrary: s) (auto intro: claim_inv)

lemma claim_removes: "inv s \<Longrightarrow> set (due now (fst (claim now k s))) = set (due now s) - {k}"
  by (cases "k \<in> set (due now s)") (simp_all add: claim_due claim_not_due)

lemma claim_each_due:
  "inv s \<Longrightarrow> set (due now (fst (claim_each (claim now) emit ks s))) = set (due now s) - set ks"
  by (induction ks arbitrary: s) (auto simp: claim_removes claim_inv)

text \<open>Claiming the due keys leaves none due.\<close>

lemma claim_all_due: "inv s \<Longrightarrow> due now (fst (claim_each (claim now) emit (due now s) s)) = []"
  using claim_each_due [of s now emit "due now s"] by simp

text \<open>
  One emission per due key, in order: \<open>P\<close> is what the claims keep and the emission reads.
\<close>

lemma claim_each_emits:
  assumes "inv s" "P s" "distinct ks" "set ks \<subseteq> set (due now s)"
    and "\<And>u k. P u \<Longrightarrow> P (fst (claim now k u))"
    and "\<And>u k. P u \<Longrightarrow> inv u \<Longrightarrow> k \<in> set (due now u) \<Longrightarrow> emit k (fst (claim now k u)) = e k"
  shows "snd (claim_each (claim now) emit ks s) = concat (map e ks)"
  using assms(1-4)
proof (induction ks arbitrary: s)
  case (Cons k ks)
  then have "k \<in> set (due now s)" by simp
  moreover have "set ks \<subseteq> set (due now (fst (claim now k s)))"
    using Cons.prems(3,4) by (auto simp: claim_removes [OF Cons.prems(1)])
  ultimately show ?case
    using Cons.IH [OF claim_inv [OF Cons.prems(1)] assms(5) [OF Cons.prems(2)]] Cons.prems(3)
      claim_due [OF Cons.prems(1)] assms(6) [OF Cons.prems(2,1)] by simp
qed simp

end

end
