(* ===== verification/CronScheduler.thy ===== *)
theory CronScheduler
  imports CronStore DueSource Inbox
begin

text \<open>
  The cron scheduler, \<open>src/src/cron/scheduler.ts\<close>: its timer state, the tick that claims the
  due jobs of the store one by one, and the inbox message of a job.  The store provides the
  contract of \<open>DueSource\<close>.
\<close>

record cron_inbox_message =
  cm_id :: string
  cm_channelId :: string
  cm_channelType :: string
  cm_threadId :: string
  cm_userId :: string
  cm_userName :: string
  cm_content :: string
  cm_timestamp :: time
  cm_source :: string
  cm_cronJobId :: string
  cm_cronJobName :: string
  cm_metadata :: "jsobj option"

definition loop_json :: "wakeup_loop option \<Rightarrow> jsval" where
  "loop_json lp = (case lp of
      None \<Rightarrow> JUndef
    | Some l \<Rightarrow> JObj [(''key'', JStr (wl_key l)),
        (''mode'', JStr (case wl_mode l of DynamicLoop \<Rightarrow> ''dynamic'' | FixedLoop \<Rightarrow> ''fixed'')),
        (''maxIterations'', JNum (wl_maxIterations l)), (''cooldownMs'', JNum (wl_cooldownMs l)),
        (''until'', case wl_until l of None \<Rightarrow> JUndef | Some u \<Rightarrow> JStr u)])"

definition job_message :: "time \<Rightarrow> string \<Rightarrow> cron_job \<Rightarrow> cron_inbox_message" where
  "job_message now jid j =
     (let isWakeup = (cj_kind j = Some Wakeup) in
      \<lparr>cm_id = ''cron-'' @ jid @ ''-'' @ show_int now,
       cm_channelId = cd_channelId (cj_deliver j), cm_channelType = cd_channelType (cj_deliver j),
       cm_threadId = (if isWakeup then cd_threadId (cj_deliver j) else ''cron-'' @ jid),
       cm_userId = (if isWakeup then ''wakeup-scheduler'' else ''cron-scheduler''),
       cm_userName = (if isWakeup then ''ScheduleWakeup'' else ''Cron''),
       cm_content = cj_prompt j, cm_timestamp = now, cm_source = ''cron'', cm_cronJobId = jid,
       cm_cronJobName = cj_name j,
       cm_metadata = (if isWakeup then Some [(''selfInvocation'', JBool True),
          (''loop'', loop_json (cj_loop j))] else None)\<rparr>)"

text \<open>The message submitted for a job, read from the store.\<close>

definition enqueueJob :: "time \<Rightarrow> string \<Rightarrow> cron_store \<Rightarrow> cron_inbox_message list" where
  "enqueueJob now jid s = (case getJob jid s of None \<Rightarrow> [] | Some j \<Rightarrow> [job_message now jid j])"

definition due_ids :: "time \<Rightarrow> cron_store \<Rightarrow> string list" where
  "due_ids now s = map cj_id (getDueJobs now s)"

definition cron_tick :: "time \<Rightarrow> cron_store \<Rightarrow> cron_store \<times> cron_inbox_message list" where
  "cron_tick now s0 =
     (let s = cs_load s0; dueJobs = getDueJobs now s in
      if dueJobs = [] then (s, [])
      else claim_each (claimJob now) (enqueueJob now) (map cj_id dueJobs) s)"

text \<open>The timer: whether the interval is set and the scheduler runs.\<close>

record scheduler =
  sc_timer :: bool
  sc_running :: bool

definition sc_start :: "scheduler \<Rightarrow> scheduler" where
  "sc_start s = (if sc_timer s then s else s\<lparr>sc_running := True, sc_timer := True\<rparr>)"

definition sc_stop :: "scheduler \<Rightarrow> scheduler" where
  "sc_stop s = s\<lparr>sc_running := False, sc_timer := False\<rparr>"

definition listActiveJobs :: "cron_store \<Rightarrow> cron_job list" where
  "listActiveJobs s = listJobs False s"

subsection \<open>The store provides the contract\<close>

definition distinct_ids :: "cron_store \<Rightarrow> bool" where
  "distinct_ids s \<longleftrightarrow> distinct (map cj_id (cs_jobs s))"

definition claimed :: "time \<Rightarrow> cron_job \<Rightarrow> cron_job" where
  "claimed now j = j\<lparr>cj_running := True, cj_claimedAt := Some now\<rparr>"

lemma update_ids: "(\<And>j. cj_id (f j) = cj_id j) \<Longrightarrow> map cj_id (update_job jid f js) = map cj_id js"
  by (induction js) auto

lemma update_other: "jid \<notin> cj_id ` set js \<Longrightarrow> update_job jid f js = js"
  by (induction js) auto

lemma update_map: "distinct (map cj_id js) \<Longrightarrow>
    update_job jid f js = map (\<lambda>j. if cj_id j = jid then f j else j) js"
proof (induction js)
  case (Cons j js)
  then show ?case by (force simp: image_iff intro!: map_idI [symmetric])
qed simp

lemma claimed_not_due: "now \<le> now' \<Longrightarrow> now' \<le> now + stale_ms \<Longrightarrow> \<not> job_due now' (claimed now j)"
  by (auto simp: job_due_def claimed_def stale_ms_def)

lemma claim_result:
  assumes "distinct_ids s"
  shows "claimJob now jid s = (if jid \<in> set (due_ids now s)
     then (cs_save (s\<lparr>cs_jobs := update_job jid (claimed now) (cs_jobs s)\<rparr>), True) else (s, False))"
proof (cases "jid \<in> set (due_ids now s)")
  case True
  then obtain j where j: "j \<in> set (cs_jobs s)" "job_due now j" "cj_id j = jid"
    by (auto simp: due_ids_def getDueJobs_def)
  have "getJob jid s = Some j"
  proof -
    obtain j' where g: "getJob jid s = Some j'"
      using j by (cases "getJob jid s") (auto simp: getJob_def find_None_iff)
    then have "j' \<in> set (cs_jobs s)" "cj_id j' = jid" by (auto simp: getJob_def find_Some_iff)
    with j assms have "j' = j" by (metis distinct_ids_def distinct_map inj_onD)
    with g show ?thesis by simp
  qed
  with j True show ?thesis
    by (auto simp: claimJob_def job_due_def due_ids_def claimed_def [abs_def] split: if_splits)
next
  case False
  then show ?thesis by (auto simp: claimJob_def due_ids_def split: option.splits)
qed

interpretation cron_due: due_source due_ids claimJob distinct_ids
proof
  fix s :: cron_store and now k
  assume s: "distinct_ids s"
  have dj: "distinct (map cj_id (cs_jobs s))" using s by (simp add: distinct_ids_def)
  show "distinct (due_ids now s)"
    using dj by (simp add: due_ids_def getDueJobs_def distinct_map_filter)
  show "distinct_ids (fst (claimJob now k s))"
    using s update_ids [of "claimed now" k "cs_jobs s"]
    by (simp add: claim_result [OF s] distinct_ids_def claimed_def)
  show "claimJob now k s = (s, False)" if "k \<notin> set (due_ids now s)"
    using that by (simp add: claim_result [OF s])
  assume k: "k \<in> set (due_ids now s)"
  have "set (due_ids now (s\<lparr>cs_jobs := update_job k (claimed now) (cs_jobs s)\<rparr>)) = set (due_ids now s) - {k}"
    using claimed_not_due [of now now]
    by (auto simp: update_map [OF dj] due_ids_def getDueJobs_def claimed_def stale_ms_def
        split: if_splits)
  then show "snd (claimJob now k s) \<and> set (due_ids now (fst (claimJob now k s))) = set (due_ids now s) - {k}"
    using k by (simp add: claim_result [OF s] due_ids_def getDueJobs_def)
qed


subsection \<open>A tick submits every due job once\<close>

text \<open>What a claim leaves of a job: all that its message is made of.\<close>

definition message_view :: "cron_job \<Rightarrow> cron_job" where
  "message_view j = j\<lparr>cj_running := False, cj_claimedAt := None\<rparr>"

lemma message_of_view: "message_view j = message_view j' \<Longrightarrow> job_message now jid j = job_message now jid j'"
  by (cases j; cases j') (simp add: message_view_def job_message_def Let_def)

definition same_view :: "cron_store \<Rightarrow> cron_store \<Rightarrow> bool" where
  "same_view s u \<longleftrightarrow> map message_view (cs_jobs u) = map message_view (cs_jobs s)"

lemma view_claimed: "map message_view (update_job jid (claimed now) js) = map message_view js"
  by (induction js) (simp_all add: message_view_def claimed_def)

lemma claim_view: "same_view s u \<Longrightarrow> same_view s (fst (claimJob now jid u))"
  using view_claimed [of jid now]
  by (auto simp: same_view_def claimJob_def claimed_def [abs_def] split: option.splits)

lemma find_view:
  "map message_view js = map message_view ks \<Longrightarrow>
     map_option message_view (find (\<lambda>j. cj_id j = jid) js)
   = map_option message_view (find (\<lambda>j. cj_id j = jid) ks)"
proof (induction js arbitrary: ks)
  case (Cons j js)
  then obtain k ks' where k: "ks = k # ks'" "message_view j = message_view k"
    "map message_view js = map message_view ks'" by auto
  then have "cj_id j = cj_id k" by (cases j; cases k) (simp add: message_view_def)
  with k Cons.IH [OF k(3)] show ?case by simp
qed simp

lemma enqueue_view:
  assumes "same_view s u"
  shows "enqueueJob now jid u = enqueueJob now jid s"
proof -
  have "map_option message_view (getJob jid u) = map_option message_view (getJob jid s)"
    using find_view [of "cs_jobs u" "cs_jobs s" jid] assms by (simp add: same_view_def getJob_def)
  then show ?thesis
    by (cases "getJob jid u"; cases "getJob jid s") (auto simp: enqueueJob_def intro: message_of_view)
qed

lemma enqueue_due: "distinct_ids s \<Longrightarrow> j \<in> set (cs_jobs s) \<Longrightarrow>
    enqueueJob now (cj_id j) s = [job_message now (cj_id j) j]"
proof -
  assume s: "distinct_ids s" "j \<in> set (cs_jobs s)"
  obtain j' where g: "getJob (cj_id j) s = Some j'"
    using s(2) by (cases "getJob (cj_id j) s") (auto simp: getJob_def find_None_iff)
  then have "j' \<in> set (cs_jobs s)" "cj_id j' = cj_id j" by (auto simp: getJob_def find_Some_iff)
  with s have "j' = j" by (metis distinct_ids_def distinct_map inj_onD)
  with g show ?thesis by (simp add: enqueueJob_def)
qed

lemma concat_singletons: "(\<And>x. x \<in> set xs \<Longrightarrow> f x = [g x]) \<Longrightarrow> concat (map f xs) = map g xs"
  by (induction xs) auto

lemma tick_submits:
  assumes "distinct_ids (cs_load s0)"
  shows "snd (cron_tick now s0) = map (\<lambda>j. job_message now (cj_id j) j) (getDueJobs now (cs_load s0))"
proof -
  let ?s = "cs_load s0"
  have "snd (claim_each (claimJob now) (enqueueJob now) (due_ids now ?s) ?s)
      = concat (map (\<lambda>k. enqueueJob now k ?s) (due_ids now ?s))"
  proof (rule cron_due.claim_each_emits [where P = "same_view ?s"])
    show "enqueueJob now k (fst (claimJob now k u)) = enqueueJob now k ?s" if "same_view ?s u" for k u
      using enqueue_view [OF claim_view [OF that]] .
  qed (use assms cron_due.due_distinct in \<open>auto simp: same_view_def intro: claim_view [unfolded same_view_def]\<close>)
  also have "\<dots> = map (\<lambda>j. job_message now (cj_id j) j) (getDueJobs now ?s)"
    using assms by (auto simp: due_ids_def getDueJobs_def comp_def intro!: concat_singletons enqueue_due)
  finally show ?thesis
    by (auto simp: cron_tick_def Let_def due_ids_def)
qed


text \<open>The jobs with these keys are running since \<open>now\<close>.\<close>

definition held :: "time \<Rightarrow> string set \<Rightarrow> cron_store \<Rightarrow> bool" where
  "held now ks s \<longleftrightarrow> (\<forall>j \<in> set (cs_jobs s). cj_id j \<in> ks \<longrightarrow> cj_running j \<and> cj_claimedAt j = Some now)"

lemma claim_held:
  assumes "distinct_ids s" "held now ks s" "k \<in> set (due_ids now s)"
  shows "held now (insert k ks) (fst (claimJob now k s))"
  using assms update_map [of "cs_jobs s" k "claimed now"]
  by (auto simp: claim_result held_def distinct_ids_def claimed_def)

lemma claim_each_held:
  assumes "distinct_ids s" "held now ks s" "set js \<subseteq> set (due_ids now s)" "distinct js"
  shows "held now (ks \<union> set js) (fst (claim_each (claimJob now) emit js s))
    \<and> (js \<noteq> [] \<or> cs_disk s = Some (cs_jobs s) \<longrightarrow>
        cs_disk (fst (claim_each (claimJob now) emit js s))
          = Some (cs_jobs (fst (claim_each (claimJob now) emit js s))))"
  using assms
proof (induction js arbitrary: s ks)
  case (Cons k js)
  let ?t = "fst (claimJob now k s)"
  have k: "k \<in> set (due_ids now s)" using Cons.prems(3) by simp
  have d: "cs_disk ?t = Some (cs_jobs ?t)"
    using k by (simp add: claim_result [OF Cons.prems(1)] cs_save_def)
  have "set js \<subseteq> set (due_ids now ?t)"
    using Cons.prems(3,4) by (auto simp: cron_due.claim_removes [OF Cons.prems(1)])
  from Cons.IH [OF cron_due.claim_inv [OF Cons.prems(1)] claim_held [OF Cons.prems(1,2) k] this] d
  show ?case using Cons.prems(4) by simp
qed simp

lemma bound_job_due: "job_due now (fst (bound_job j)) \<Longrightarrow> job_due now j"
  by (auto simp: bound_job_def job_due_def Let_def split: if_splits)

lemma bound_job_id: "cj_id (fst (bound_job j)) = cj_id j"
  by (simp add: bound_job_def Let_def)

lemma load_saved: "cs_disk s = Some (cs_jobs s) \<Longrightarrow>
    cs_jobs (cs_load s) = map (fst \<circ> bound_job) (cs_jobs s)"
  by (simp add: cs_load_def disableRunawayIntervalJobs_def)



end
