(* ===== verification/DeliveryQueue.thy ===== *)
theory DeliveryQueue
  imports BackoffSpec JsSort "HOL-Library.AList"
begin

text \<open>
  The disk-backed delivery queue, \<open>src/src/gateway/delivery-queue.ts\<close>: its files and the
  atomic file operations each queue operation is made of, loading and recovery, and one
  round of the retry loop.

  The queue directory holds the entries (\<open>dq_json\<close>, in directory order, \<open>None\<close> for a file
  that does not parse), the temporary files and the delivery markers; \<open>dq_failed\<close> is the
  directory of failed entries.  A file operation on an existing source succeeds.  A handler
  is its outcome: \<open>None\<close> when it returns, the message of its error otherwise.
\<close>

record delivery_entry =
  de_id :: string
  de_channel :: string
  de_to :: string
  de_payload :: jsval
  de_enqueuedAt :: time
  de_retryCount :: nat
  de_lastAttemptAt :: "time option"
  de_lastError :: "string option"

record queue_options =
  qo_maxRetries :: nat
  qo_backoffMs :: "int list"
  qo_backoffCapMs :: int
  qo_staleTtlMs :: int
  qo_maxRecoveryMs :: int

definition default_options :: queue_options where
  "default_options = \<lparr>qo_maxRetries = 5, qo_backoffMs = [0, 5000, 25000, 120000, 600000],
     qo_backoffCapMs = 600000, qo_staleTtlMs = 24 * 60 * 60 * 1000, qo_maxRecoveryMs = 60000\<rparr>"

definition permanent_error_patterns :: "string list" where
  "permanent_error_patterns = [''user not found'', ''chat not found'', ''bot was blocked'',
     ''bot was kicked'', ''chat_id is empty'', ''recipient is not valid'', ''invalid phone number'',
     ''number is not registered'', ''outbound not configured'', ''message is too long'', ''403'',
     ''deregistered'']"

definition computeBackoffMs :: "queue_options \<Rightarrow> nat \<Rightarrow> int" where
  "computeBackoffMs opts n =
     (if n = 0 then 0
      else if n < length (qo_backoffMs opts) then qo_backoffMs opts ! n
      else qo_backoffCapMs opts)"

definition isPermanentError :: "string \<Rightarrow> bool" where
  "isPermanentError err = list_ex (js_includes (js_lower err)) permanent_error_patterns"

interpretation delivery_backoff: backoff_schedule "computeBackoffMs default_options" 600000
  by unfold_locales
    (auto simp: computeBackoffMs_def default_options_def nth_Cons split: nat.splits)

subsection \<open>The directory and its atomic operations\<close>

record queue_dir =
  dq_json :: "(string \<times> delivery_entry option) list"
  dq_tmp :: "(string \<times> delivery_entry) list"
  dq_moving :: "(string \<times> delivery_entry) list"
  dq_delivered :: "string list"
  dq_failed :: "(string \<times> delivery_entry) list"

datatype fs_action =
    WriteTmp string delivery_entry
  | RenameTmp string
  | WriteMoving string delivery_entry
  | RenameMoving string
  | RenameToFailed string
  | RenameToDelivered string
  | UnlinkDelivered string
  | UnlinkJson string

text \<open>A rename whose source is missing fails and changes nothing.\<close>

fun fs_exec :: "fs_action \<Rightarrow> queue_dir \<Rightarrow> queue_dir" where
  "fs_exec (WriteTmp k e) d = d\<lparr>dq_tmp := AList.update k e (dq_tmp d)\<rparr>"
| "fs_exec (RenameTmp k) d = (case map_of (dq_tmp d) k of
      None \<Rightarrow> d
    | Some e \<Rightarrow> d\<lparr>dq_tmp := AList.delete k (dq_tmp d),
                  dq_json := AList.update k (Some e) (dq_json d)\<rparr>)"
| "fs_exec (WriteMoving k e) d = d\<lparr>dq_moving := AList.update k e (dq_moving d)\<rparr>"
| "fs_exec (RenameMoving k) d = (case map_of (dq_moving d) k of
      None \<Rightarrow> d
    | Some e \<Rightarrow> d\<lparr>dq_moving := AList.delete k (dq_moving d),
                  dq_json := AList.update k (Some e) (dq_json d)\<rparr>)"
| "fs_exec (RenameToFailed k) d = (case map_of (dq_json d) k of
      Some (Some e) \<Rightarrow> d\<lparr>dq_json := AList.delete k (dq_json d),
                        dq_failed := AList.update k e (dq_failed d)\<rparr>
    | _ \<Rightarrow> d)"
| "fs_exec (RenameToDelivered k) d = (case map_of (dq_json d) k of
      None \<Rightarrow> d
    | Some _ \<Rightarrow> d\<lparr>dq_json := AList.delete k (dq_json d),
                  dq_delivered := List.insert k (dq_delivered d)\<rparr>)"
| "fs_exec (UnlinkDelivered k) d = d\<lparr>dq_delivered := removeAll k (dq_delivered d)\<rparr>"
| "fs_exec (UnlinkJson k) d = d\<lparr>dq_json := AList.delete k (dq_json d)\<rparr>"

definition fs_run :: "fs_action list \<Rightarrow> queue_dir \<Rightarrow> queue_dir" where
  "fs_run acts d = foldl (\<lambda>d a. fs_exec a d) d acts"

subsection \<open>The queue operations\<close>

definition fresh_entry :: "string \<Rightarrow> time \<Rightarrow> string \<Rightarrow> string \<Rightarrow> jsval \<Rightarrow> delivery_entry" where
  "fresh_entry uid now channel recipient payload = \<lparr>de_id = uid, de_channel = channel, de_to = recipient,
     de_payload = payload, de_enqueuedAt = now, de_retryCount = 0, de_lastAttemptAt = None,
     de_lastError = None\<rparr>"

definition enqueue_actions :: "delivery_entry \<Rightarrow> fs_action list" where
  "enqueue_actions e = [WriteTmp (de_id e) e, RenameTmp (de_id e)]"

definition dq_enqueue :: "delivery_entry \<Rightarrow> queue_dir \<Rightarrow> queue_dir \<times> string" where
  "dq_enqueue e d = (fs_run (enqueue_actions e) d, de_id e)"

definition ack_actions :: "string \<Rightarrow> queue_dir \<Rightarrow> fs_action list" where
  "ack_actions k d = (if map_of (dq_json d) k = None then []
     else [RenameToDelivered k, UnlinkDelivered k])"

definition dq_ack :: "string \<Rightarrow> queue_dir \<Rightarrow> queue_dir" where
  "dq_ack k d = fs_run (ack_actions k d) d"

definition move_actions :: "string \<Rightarrow> delivery_entry \<Rightarrow> fs_action list" where
  "move_actions k e = [WriteMoving k e, RenameMoving k, RenameToFailed k]"

definition moveToFailed :: "string \<Rightarrow> delivery_entry \<Rightarrow> queue_dir \<Rightarrow> queue_dir" where
  "moveToFailed k e d = fs_run (move_actions k e) d"

definition failed_attempt :: "time \<Rightarrow> string \<Rightarrow> delivery_entry \<Rightarrow> delivery_entry" where
  "failed_attempt now err e = e\<lparr>de_retryCount := de_retryCount e + 1,
     de_lastAttemptAt := Some now, de_lastError := Some err\<rparr>"

definition gives_up :: "queue_options \<Rightarrow> string \<Rightarrow> delivery_entry \<Rightarrow> bool" where
  "gives_up opts err e \<longleftrightarrow> qo_maxRetries opts \<le> de_retryCount e \<or> isPermanentError err"

definition fail_actions :: "queue_options \<Rightarrow> time \<Rightarrow> string \<Rightarrow> string \<Rightarrow> queue_dir \<Rightarrow> fs_action list" where
  "fail_actions opts now k err d = (case map_of (dq_json d) k of
      Some (Some e0) \<Rightarrow>
        (let e = failed_attempt now err e0 in
         if gives_up opts err e then move_actions k e else [WriteTmp k e, RenameTmp k])
    | _ \<Rightarrow> [])"

definition failDelivery :: "queue_options \<Rightarrow> time \<Rightarrow> string \<Rightarrow> string \<Rightarrow> queue_dir \<Rightarrow> queue_dir" where
  "failDelivery opts now k err d = fs_run (fail_actions opts now k err d) d"

text \<open>
  \<open>loadPending\<close>: markers of an interrupted acknowledgement and corrupt files go, the
  entries come oldest first.
\<close>

definition corrupt_keys :: "queue_dir \<Rightarrow> string list" where
  "corrupt_keys d = map fst (filter (\<lambda>(k, e). e = None) (dq_json d))"

definition load_actions :: "queue_dir \<Rightarrow> fs_action list" where
  "load_actions d = map UnlinkDelivered (dq_delivered d) @ map UnlinkJson (corrupt_keys d)"

definition loadPending :: "queue_dir \<Rightarrow> queue_dir \<times> delivery_entry list" where
  "loadPending d = (fs_run (load_actions d) d,
     js_sort (by_key de_enqueuedAt) (List.map_filter snd (dq_json d)))"

type_synonym handlers = "string \<Rightarrow> (delivery_entry \<Rightarrow> string option) option"

datatype recovery_fate = Recovered | Failed | Deferred

definition backing_off :: "queue_options \<Rightarrow> time \<Rightarrow> delivery_entry \<Rightarrow> bool" where
  "backing_off opts now e = (case de_lastAttemptAt e of
      None \<Rightarrow> False
    | Some t \<Rightarrow> t \<noteq> 0 \<and> now - t < computeBackoffMs opts (de_retryCount e))"

text \<open>
  One entry of the recovery: the directory afterwards and what became of the entry.  The
  clock is read before the delivery and after a failed one.
\<close>

definition recover_entry :: "queue_options \<Rightarrow> handlers \<Rightarrow> time \<times> time \<Rightarrow> delivery_entry \<Rightarrow>
    queue_dir \<Rightarrow> queue_dir \<times> recovery_fate" where
  "recover_entry opts hs clk e d =
     (if qo_staleTtlMs opts < fst clk - de_enqueuedAt e then (moveToFailed (de_id e) e d, Failed)
      else if qo_maxRetries opts \<le> de_retryCount e then (moveToFailed (de_id e) e d, Failed)
      else if backing_off opts (fst clk) e then (d, Deferred)
      else case hs (de_channel e) of
        None \<Rightarrow> (d, Deferred)
      | Some h \<Rightarrow>
          (case h e of
             None \<Rightarrow> (dq_ack (de_id e) d, Recovered)
           | Some err \<Rightarrow>
               (failDelivery opts (snd clk) (de_id e) err d,
                if qo_maxRetries opts \<le> de_retryCount e + 1 \<or> isPermanentError err
                then Failed else Deferred)))"

text \<open>The counts are \<open>recovered\<close>, \<open>failed\<close> and \<open>deferred\<close>; \<open>total\<close> is the number of entries.\<close>

record recovery_counts =
  rc_recovered :: nat
  rc_failed :: nat
  rc_deferred :: nat

fun count_fate :: "recovery_fate \<Rightarrow> recovery_counts \<Rightarrow> recovery_counts" where
  "count_fate Recovered c = c\<lparr>rc_recovered := rc_recovered c + 1\<rparr>"
| "count_fate Failed c = c\<lparr>rc_failed := rc_failed c + 1\<rparr>"
| "count_fate Deferred c = c\<lparr>rc_deferred := rc_deferred c + 1\<rparr>"

fun recover_loop :: "queue_options \<Rightarrow> handlers \<Rightarrow> (nat \<Rightarrow> time \<times> time) \<Rightarrow> time \<Rightarrow> nat \<Rightarrow> nat \<Rightarrow>
    delivery_entry list \<Rightarrow> queue_dir \<Rightarrow> recovery_counts \<Rightarrow> queue_dir \<times> recovery_counts" where
  "recover_loop opts hs clk start n i [] d c = (d, c)"
| "recover_loop opts hs clk start n i (e # es) d c =
     (if qo_maxRecoveryMs opts < fst (clk i) - start
      then (d, c\<lparr>rc_deferred := rc_deferred c
                  + (n - rc_recovered c - rc_failed c - rc_deferred c)\<rparr>)
      else case recover_entry opts hs (clk i) e d of
        (d', fate) \<Rightarrow> recover_loop opts hs clk start n (Suc i) es d' (count_fate fate c))"

definition recoverPending :: "queue_options \<Rightarrow> handlers \<Rightarrow> time \<Rightarrow> (nat \<Rightarrow> time \<times> time) \<Rightarrow>
    queue_dir \<Rightarrow> queue_dir \<times> recovery_counts" where
  "recoverPending opts hs start clk d =
     (case loadPending d of (d', es) \<Rightarrow>
        recover_loop opts hs clk start (length es) 0 es d'
          \<lparr>rc_recovered = 0, rc_failed = 0, rc_deferred = 0\<rparr>)"

text \<open>One round of the retry loop.\<close>

definition retry_entry :: "queue_options \<Rightarrow> handlers \<Rightarrow> time \<Rightarrow> time \<Rightarrow> delivery_entry \<Rightarrow>
    queue_dir \<Rightarrow> queue_dir" where
  "retry_entry opts hs now after e d =
     (if de_retryCount e = 0 then d
      else if backing_off opts now e then d
      else if qo_staleTtlMs opts < now - de_enqueuedAt e then moveToFailed (de_id e) e d
      else case hs (de_channel e) of
        None \<Rightarrow> d
      | Some h \<Rightarrow>
          (case h e of
             None \<Rightarrow> dq_ack (de_id e) d
           | Some err \<Rightarrow> failDelivery opts after (de_id e) err d))"

fun retry_entries :: "queue_options \<Rightarrow> handlers \<Rightarrow> time \<Rightarrow> (nat \<Rightarrow> time) \<Rightarrow> nat \<Rightarrow>
    delivery_entry list \<Rightarrow> queue_dir \<Rightarrow> queue_dir" where
  "retry_entries opts hs now after i [] d = d"
| "retry_entries opts hs now after i (e # es) d =
     retry_entries opts hs now after (Suc i) es (retry_entry opts hs now (after i) e d)"

definition retry_round :: "queue_options \<Rightarrow> handlers \<Rightarrow> time \<Rightarrow> (nat \<Rightarrow> time) \<Rightarrow> queue_dir \<Rightarrow> queue_dir" where
  "retry_round opts hs now after d =
     (case loadPending d of (d', es) \<Rightarrow> retry_entries opts hs now after 0 es d')"

definition pendingCount :: "queue_dir \<Rightarrow> nat" where
  "pendingCount d = length (dq_json d)"

text \<open>
  The operations as events that a crash may interrupt: an operation is the list of its file
  operations and a crash leaves a prefix of it.  \<open>OExpire\<close> is the move of an entry to the
  failed ones as recovery and the retry loop do it, with the entry as it was loaded.
\<close>

datatype dq_op =
    OEnqueue delivery_entry
  | OAck string
  | OFail time string string
  | OExpire string
  | OLoad

fun op_actions :: "queue_options \<Rightarrow> dq_op \<Rightarrow> queue_dir \<Rightarrow> fs_action list" where
  "op_actions opts (OEnqueue e) d = enqueue_actions e"
| "op_actions opts (OAck k) d = ack_actions k d"
| "op_actions opts (OFail now k err) d = fail_actions opts now k err d"
| "op_actions opts (OExpire k) d =
     (case map_of (dq_json d) k of Some (Some e) \<Rightarrow> move_actions k e | _ \<Rightarrow> [])"
| "op_actions opts OLoad d = load_actions d"

definition crash_step :: "queue_options \<Rightarrow> queue_dir \<Rightarrow> dq_op \<times> nat \<Rightarrow> queue_dir" where
  "crash_step opts d ev = fs_run (take (snd ev) (op_actions opts (fst ev) d)) d"

definition crash_run :: "queue_options \<Rightarrow> (dq_op \<times> nat) list \<Rightarrow> queue_dir \<Rightarrow> queue_dir" where
  "crash_run opts evs d = foldl (crash_step opts) d evs"

subsection \<open>A pending delivery survives crashes\<close>

definition dq_wf :: "queue_dir \<Rightarrow> bool" where
  "dq_wf d \<longleftrightarrow> distinct (map fst (dq_json d))"

text \<open>What has to reach the recipient.\<close>

definition delivery_of :: "delivery_entry \<Rightarrow> string \<times> string \<times> jsval \<times> time" where
  "delivery_of e = (de_channel e, de_to e, de_payload e, de_enqueuedAt e)"

definition accounted :: "string \<Rightarrow> (string \<times> string \<times> jsval \<times> time) \<Rightarrow> queue_dir \<Rightarrow> bool" where
  "accounted k m d \<longleftrightarrow> (\<exists>e. (map_of (dq_json d) k = Some (Some e)
       \<or> map_of (dq_json d) k = None \<and> map_of (dq_failed d) k = Some e) \<and> delivery_of e = m)"

fun act_key :: "fs_action \<Rightarrow> string" where
  "act_key (WriteTmp k e) = k"
| "act_key (RenameTmp k) = k"
| "act_key (WriteMoving k e) = k"
| "act_key (RenameMoving k) = k"
| "act_key (RenameToFailed k) = k"
| "act_key (RenameToDelivered k) = k"
| "act_key (UnlinkDelivered k) = k"
| "act_key (UnlinkJson k) = k"

lemmas fs_simps = AList.update_conv' AList.delete_conv'

lemma fs_run_simps [simp]: "fs_run [] d = d" "fs_run (a # as) d = fs_run as (fs_exec a d)"
  by (simp_all add: fs_run_def)

lemma fs_exec_wf: "dq_wf d \<Longrightarrow> dq_wf (fs_exec a d)"
  by (cases a) (auto simp: dq_wf_def AList.distinct_update AList.distinct_delete
      split: option.splits)

lemma fs_run_wf: "dq_wf d \<Longrightarrow> dq_wf (fs_run as d)"
  unfolding fs_run_def by (rule foldl_invariant) (auto intro: fs_exec_wf)

lemma fs_exec_other:
  "act_key a \<noteq> k \<or> a = UnlinkDelivered k \<Longrightarrow>
     map_of (dq_json (fs_exec a d)) k = map_of (dq_json d) k
   \<and> map_of (dq_failed (fs_exec a d)) k = map_of (dq_failed d) k"
  by (cases a) (auto simp: fs_simps split: option.splits)

lemma fs_run_other:
  "\<forall>a \<in> set as. act_key a \<noteq> k \<or> a = UnlinkDelivered k \<Longrightarrow>
     map_of (dq_json (fs_run as d)) k = map_of (dq_json d) k
   \<and> map_of (dq_failed (fs_run as d)) k = map_of (dq_failed d) k"
  by (induction as arbitrary: d) (auto simp: fs_exec_other)

definition op_key :: "dq_op \<Rightarrow> string option" where
  "op_key p = (case p of OEnqueue e \<Rightarrow> Some (de_id e) | OAck k \<Rightarrow> Some k | OFail now k err \<Rightarrow> Some k
     | OExpire k \<Rightarrow> Some k | OLoad \<Rightarrow> None)"

lemmas op_actions_defs = enqueue_actions_def ack_actions_def fail_actions_def move_actions_def
  load_actions_def Let_def

lemma op_actions_other:
  assumes "dq_wf d" "op_key p \<noteq> Some k" "map_of (dq_json d) k \<noteq> Some None" "a \<in> set (op_actions opts p d)"
  shows "act_key a \<noteq> k \<or> a = UnlinkDelivered k"
proof (cases p)
  case OLoad
  with assms show ?thesis
    by (auto simp: op_actions_defs corrupt_keys_def dq_wf_def)
qed (use assms in \<open>auto simp: op_key_def op_actions_defs split: if_splits option.splits\<close>)

lemma crash_step_other:
  assumes "dq_wf d" "op_key p \<noteq> Some k" "map_of (dq_json d) k \<noteq> Some None"
  shows "map_of (dq_json (crash_step opts d (p, n))) k = map_of (dq_json d) k
    \<and> map_of (dq_failed (crash_step opts d (p, n))) k = map_of (dq_failed d) k"
proof -
  have "act_key a \<noteq> k \<or> a = UnlinkDelivered k" if "a \<in> set (take n (op_actions opts p d))" for a
    using op_actions_other [OF assms in_set_takeD [OF that]] .
  then show ?thesis unfolding crash_step_def by (intro fs_run_other) simp
qed

lemma take_three: "take n [a, b, c] \<in> {[], [a], [a, b], [a, b, c]}"
  by (cases n; cases "n - 1"; cases "n - 2") auto

lemma take_two: "take n [a, b] \<in> {[], [a], [a, b]}"
  by (cases n; cases "n - 1") auto

lemma pending_accounted:
  "map_of (dq_json d) k = Some (Some e) \<Longrightarrow> accounted k (delivery_of e) d"
  by (auto simp: accounted_def)

lemma move_accounted:
  assumes "delivery_of e = m" "accounted k m d"
  shows "accounted k m (fs_run (take n (move_actions k e)) d)"
  using take_three [of n "WriteMoving k e" "RenameMoving k" "RenameToFailed k"] assms
  by (auto simp: move_actions_def accounted_def fs_simps)

lemma rewrite_accounted:
  assumes "delivery_of e = m" "accounted k m d"
  shows "accounted k m (fs_run (take n [WriteTmp k e, RenameTmp k]) d)"
  using take_two [of n "WriteTmp k e" "RenameTmp k"] assms
  by (auto simp: accounted_def fs_simps)

lemma failed_attempt_delivery: "delivery_of (failed_attempt now err e) = delivery_of e"
  by (simp add: delivery_of_def failed_attempt_def)

lemma crash_step_accounted:
  assumes "dq_wf d" "accounted k m d" "p \<noteq> OAck k" "\<And>e. p = OEnqueue e \<Longrightarrow> de_id e \<noteq> k"
  shows "accounted k m (crash_step opts d (p, n))"
proof (cases "op_key p = Some k")
  case False
  then show ?thesis
    using crash_step_other [OF assms(1) False, of opts n] assms(2)
    by (auto simp: accounted_def)
next
  case True
  then consider now err where "p = OFail now k err" | "p = OExpire k"
    using assms(3,4) by (cases p) (auto simp: op_key_def)
  then show ?thesis
  proof cases
    case 1
    with assms(2) show ?thesis
      by (auto simp: crash_step_def fail_actions_def Let_def failed_attempt_delivery
          accounted_def [of k m d] intro!: move_accounted rewrite_accounted
          intro: pending_accounted split: option.splits)
  next
    case 2
    with assms(2) show ?thesis
      by (auto simp: crash_step_def accounted_def [of k m d] intro!: move_accounted
          intro: pending_accounted split: option.splits)
  qed
qed

lemma crash_run_wf: "dq_wf d \<Longrightarrow> dq_wf (crash_run opts evs d)"
  unfolding crash_run_def by (rule foldl_invariant) (auto simp: crash_step_def intro: fs_run_wf)

text \<open>The operations that a client runs for other deliveries, or short of the acknowledgement.\<close>

definition never_acks :: "string \<Rightarrow> (dq_op \<times> nat) list \<Rightarrow> bool" where
  "never_acks k evs \<longleftrightarrow> (\<forall>(p, n) \<in> set evs. p \<noteq> OAck k)"

definition never_enqueues :: "string \<Rightarrow> (dq_op \<times> nat) list \<Rightarrow> bool" where
  "never_enqueues k evs \<longleftrightarrow> (\<forall>(p, n) \<in> set evs. \<forall>e. p = OEnqueue e \<longrightarrow> de_id e \<noteq> k)"

text \<open>
  C1. A pending delivery is never lost: whatever operations run, each one interrupted by
  a crash after any of its file operations, as long as the entry is not acknowledged and
  its identifier is not reused, it is still pending or among the failed ones, with its
  channel, recipient, payload and time of enqueueing.
\<close>

theorem crash_keeps_delivery:
  assumes "dq_wf d" and "map_of (dq_json d) k = Some (Some e)"
    and "never_acks k evs" and "never_enqueues k evs"
  shows "accounted k (delivery_of e) (crash_run opts evs d)"
proof -
  have "dq_wf (crash_run opts evs d) \<and> accounted k (delivery_of e) (crash_run opts evs d)"
    unfolding crash_run_def
  proof (rule foldl_invariant_set)
    show "dq_wf d \<and> accounted k (delivery_of e) d" using assms(1,2) by (auto simp: accounted_def)
    fix d' ev assume "dq_wf d' \<and> accounted k (delivery_of e) d'" and "ev \<in> set evs"
    then show "dq_wf (crash_step opts d' ev) \<and> accounted k (delivery_of e) (crash_step opts d' ev)"
      using assms(3,4) crash_step_accounted [of d' k "delivery_of e" "fst ev" opts "snd ev"]
      by (fastforce simp: never_acks_def never_enqueues_def crash_step_def intro: fs_run_wf)
  qed
  then show ?thesis ..
qed

definition empty_queue :: queue_dir where
  "empty_queue = \<lparr>dq_json = [], dq_tmp = [], dq_moving = [], dq_delivered = [], dq_failed = []\<rparr>"

definition sample_entry :: delivery_entry where
  "sample_entry = fresh_entry ''u1'' 1000 ''telegram'' ''42'' (JStr ''hi'')"

lemma crash_keeps_delivery_witness:
  "accounted ''u1'' (delivery_of sample_entry)
     (crash_run default_options [(OFail 2000 ''u1'' ''timeout'', 1), (OFail 3000 ''u1'' ''403'', 2),
        (OLoad, 9), (OExpire ''u1'', 3)] (fst (dq_enqueue sample_entry empty_queue)))"
proof (rule crash_keeps_delivery)
  show "dq_wf (fst (dq_enqueue sample_entry empty_queue))"
    by (simp add: dq_enqueue_def dq_wf_def enqueue_actions_def empty_queue_def)
qed (simp_all add: dq_enqueue_def enqueue_actions_def empty_queue_def never_acks_def
    never_enqueues_def sample_entry_def fresh_entry_def)



subsection \<open>Recovery accounts for every entry\<close>

definition ids_ok :: "queue_dir \<Rightarrow> bool" where
  "ids_ok d \<longleftrightarrow> (\<forall>(k, v) \<in> set (dq_json d). \<forall>e. v = Some e \<longrightarrow> de_id e = k)"

text \<open>The entries still to recover are on disk as they were loaded.\<close>

definition on_disk :: "delivery_entry list \<Rightarrow> queue_dir \<Rightarrow> bool" where
  "on_disk es d \<longleftrightarrow> distinct (map de_id es) \<and> (\<forall>e \<in> set es. map_of (dq_json d) (de_id e) = Some (Some e))"

lemma fs_unlink_delivered: "dq_json (fs_run (map UnlinkDelivered ks) d) = dq_json d"
  by (induction ks arbitrary: d) auto

lemma fs_unlink_json:
  "dq_json (fs_run (map UnlinkJson ks) d) = filter (\<lambda>p. fst p \<notin> set ks) (dq_json d)"
  by (induction ks arbitrary: d) (auto simp: AList.delete_eq intro!: filter_cong)

lemma fs_run_append: "fs_run (as @ bs) d = fs_run bs (fs_run as d)"
  by (simp add: fs_run_def)

lemma load_json: "dq_wf d \<Longrightarrow> dq_json (fst (loadPending d)) = filter (\<lambda>p. snd p \<noteq> None) (dq_json d)"
proof -
  assume "dq_wf d"
  then have "fst p \<notin> set (corrupt_keys d) \<longleftrightarrow> snd p \<noteq> None" if "p \<in> set (dq_json d)" for p
    using that eq_key_imp_eq_value [of "dq_json d" "fst p"]
    by (cases p; cases "snd p") (auto simp: corrupt_keys_def dq_wf_def image_iff)
  then show ?thesis
    by (auto simp: loadPending_def load_actions_def fs_run_append fs_unlink_delivered fs_unlink_json
        intro!: filter_cong)
qed

lemma map_filter_some: "List.map_filter snd xs = map (the \<circ> snd) (filter (\<lambda>p. snd p \<noteq> None) xs)"
  by (induction xs) (auto simp: List.map_filter_simps split: option.splits)

lemma load_length: "dq_wf d \<Longrightarrow> length (snd (loadPending d)) = pendingCount (fst (loadPending d))"
  by (simp add: pendingCount_def load_json) (simp add: loadPending_def map_filter_some)

lemma load_on_disk:
  assumes "dq_wf d" "ids_ok d"
  shows "on_disk (snd (loadPending d)) (fst (loadPending d))"
proof -
  let ?js = "filter (\<lambda>p. snd p \<noteq> None) (dq_json d)"
  have ids: "map de_id (map (the \<circ> snd) ?js) = map fst ?js"
    using assms(2) by (auto simp: ids_ok_def)
  have dis: "distinct (map fst ?js)" using assms(1) by (simp add: dq_wf_def distinct_map_filter)
  have perm: "mset (snd (loadPending d)) = mset (map (the \<circ> snd) ?js)"
    by (simp add: loadPending_def map_filter_some)
  then have "mset (map de_id (snd (loadPending d))) = mset (map fst ?js)"
    by (simp only: mset_map [of de_id] flip: ids)
  then have "distinct (map de_id (snd (loadPending d)))"
    using dis mset_eq_imp_distinct_iff by blast
  moreover have "map_of ?js (de_id e) = Some (Some e)" if "e \<in> set (snd (loadPending d))" for e
  proof -
    have "e \<in> set (map (the \<circ> snd) ?js)" using that perm by (metis set_mset_mset)
    then obtain k where "(k, Some e) \<in> set ?js" by auto
    moreover from this have "de_id e = k" using assms(2) by (auto simp: ids_ok_def)
    ultimately have "(de_id e, Some e) \<in> set ?js" by simp
    with dis show ?thesis by simp
  qed
  ultimately show ?thesis by (simp add: on_disk_def load_json assms(1))
qed

text \<open>One entry: the others stay as they are, and it stays exactly if it is deferred.\<close>

definition removes_own :: "string \<Rightarrow> bool \<Rightarrow> queue_dir \<Rightarrow> queue_dir \<Rightarrow> bool" where
  "removes_own k gone d d' \<longleftrightarrow> (\<forall>j. j \<noteq> k \<longrightarrow> map_of (dq_json d') j = map_of (dq_json d) j)
     \<and> map fst (dq_json d') = (if gone then removeAll k (map fst (dq_json d)) else map fst (dq_json d))"

lemmas keys_simps = AList.update_keys AList.delete_keys fs_simps

lemma pending_key: "map_of xs k = Some v \<Longrightarrow> k \<in> fst ` set xs"
  by (force dest: map_of_SomeD)

lemma move_removes: "map_of (dq_json d) k = Some v \<Longrightarrow> removes_own k True d (moveToFailed k e d)"
  by (auto simp: removes_own_def moveToFailed_def move_actions_def keys_simps dest: pending_key)

lemma ack_removes: "map_of (dq_json d) k = Some v \<Longrightarrow> removes_own k True d (dq_ack k d)"
  by (auto simp: removes_own_def dq_ack_def ack_actions_def keys_simps)

lemma fail_removes:
  assumes "map_of (dq_json d) k = Some (Some e)"
  shows "removes_own k (gives_up opts err (failed_attempt now err e)) d (failDelivery opts now k err d)"
  using assms move_removes [OF assms, of "failed_attempt now err e"]
  by (auto simp: failDelivery_def fail_actions_def Let_def moveToFailed_def)
    (auto simp: removes_own_def keys_simps dest: pending_key)

lemma keep_removes: "removes_own k False d d"
  by (simp add: removes_own_def)

lemma recover_entry_removes:
  assumes "map_of (dq_json d) (de_id e) = Some (Some e)"
  shows "removes_own (de_id e) (snd (recover_entry opts hs clk e d) \<noteq> Deferred) d
    (fst (recover_entry opts hs clk e d))"
proof -
  have "gives_up opts err (failed_attempt now err e)
      \<longleftrightarrow> qo_maxRetries opts \<le> de_retryCount e + 1 \<or> isPermanentError err" for err now
    by (simp add: gives_up_def failed_attempt_def)
  then have gone: "qo_maxRetries opts \<le> de_retryCount e + 1 \<or> isPermanentError err \<Longrightarrow>
      removes_own (de_id e) True d (failDelivery opts now (de_id e) err d)"
    and kept: "\<not> (qo_maxRetries opts \<le> de_retryCount e + 1 \<or> isPermanentError err) \<Longrightarrow>
      removes_own (de_id e) False d (failDelivery opts now (de_id e) err d)" for err now
    using fail_removes [OF assms, of opts err now] by simp_all
  show ?thesis
    unfolding recover_entry_def
    by (auto simp: move_removes [OF assms] ack_removes [OF assms] keep_removes gone kept
        split: option.splits)
qed

definition rc_sum :: "recovery_counts \<Rightarrow> nat" where
  "rc_sum c = rc_recovered c + rc_failed c + rc_deferred c"

lemma count_fate_sum: "rc_sum (count_fate f c) = Suc (rc_sum c)"
  "rc_deferred (count_fate f c) = rc_deferred c + (if f = Deferred then 1 else 0)"
  by (cases f; simp add: rc_sum_def)+

lemma length_removeAll_distinct:
  "distinct xs \<Longrightarrow> k \<in> set xs \<Longrightarrow> length xs = length (removeAll k xs) + 1"
  by (induction xs) (auto simp: removeAll_id)

lemma removes_own_step:
  assumes "removes_own (de_id e) gone d d'" "on_disk (e # es) d" "dq_wf d"
  shows "on_disk es d' \<and> dq_wf d'
    \<and> length (dq_json d) = length (dq_json d') + (if gone then 1 else 0)"
proof -
  have "de_id e \<in> set (map fst (dq_json d))"
    using assms(2) pending_key [of "dq_json d" "de_id e" "Some e"] by (simp add: on_disk_def)
  moreover have "distinct (map fst (dq_json d))" using assms(3) by (simp add: dq_wf_def)
  ultimately have "length (map fst (dq_json d)) = length (map fst (dq_json d')) + (if gone then 1 else 0)"
    using assms(1) length_removeAll_distinct [of "map fst (dq_json d)" "de_id e"]
    by (cases gone) (simp_all add: removes_own_def del: length_map)
  then have len: "length (dq_json d) = length (dq_json d') + (if gone then 1 else 0)"
    by (simp only: length_map)
  have "map_of (dq_json d') (de_id x) = Some (Some x)" if "x \<in> set es" for x
  proof -
    have "de_id x \<noteq> de_id e" "map_of (dq_json d) (de_id x) = Some (Some x)"
      using assms(2) that by (auto simp: on_disk_def image_iff)
    with assms(1) show ?thesis by (simp add: removes_own_def)
  qed
  then have "on_disk es d'" using assms(2) by (simp add: on_disk_def)
  moreover have "dq_wf d'"
    using assms(1,3) by (auto simp: removes_own_def dq_wf_def distinct_removeAll split: if_splits)
  ultimately show ?thesis using len by blast
qed

lemma recover_loop_accounts:
  assumes "dq_wf d" "on_disk es d" "length (dq_json d) = rc_deferred c + length es"
    "n = rc_sum c + length es"
  shows "rc_sum (snd (recover_loop opts hs clk start n i es d c)) = n
    \<and> pendingCount (fst (recover_loop opts hs clk start n i es d c))
      = rc_deferred (snd (recover_loop opts hs clk start n i es d c))"
  using assms
proof (induction es arbitrary: i d c)
  case (Cons e es)
  obtain d' f where r: "recover_entry opts hs (clk i) e d = (d', f)" by force
  have "removes_own (de_id e) (f \<noteq> Deferred) d d'"
    using recover_entry_removes [of d e opts hs "clk i"] Cons.prems(2) r by (simp add: on_disk_def)
  note s = removes_own_step [OF this Cons.prems(2,1)]
  have "rc_sum (snd (recover_loop opts hs clk start n (Suc i) es d' (count_fate f c))) = n
    \<and> pendingCount (fst (recover_loop opts hs clk start n (Suc i) es d' (count_fate f c)))
      = rc_deferred (snd (recover_loop opts hs clk start n (Suc i) es d' (count_fate f c)))"
    using s Cons.prems(3,4) by (intro Cons.IH) (auto simp: count_fate_sum split: if_splits)
  with r Cons.prems(3,4) show ?case by (auto simp: rc_sum_def pendingCount_def)
qed (simp_all add: pendingCount_def)

text \<open>
  Recovery accounts for every loaded entry: the three counts add up to the number of
  entries, also when the time budget runs out, and the entries still pending afterwards
  are exactly as many as it reports deferred.
\<close>

theorem recovery_accounts:
  assumes "dq_wf d" and "ids_ok d" and "recoverPending opts hs start clk d = (d', c)"
  shows "rc_sum c = pendingCount (fst (loadPending d)) \<and> pendingCount d' = rc_deferred c"
proof -
  obtain d0 es where l: "loadPending d = (d0, es)" by force
  have wf: "dq_wf d0" using assms(1) l by (metis fst_conv fs_run_wf loadPending_def)
  have len: "length es = length (dq_json d0)"
    using load_length [OF assms(1)] l by (simp add: pendingCount_def)
  have "on_disk es d0" using load_on_disk [OF assms(1,2)] l by simp
  from recover_loop_accounts [OF wf this, of "\<lparr>rc_recovered = 0, rc_failed = 0, rc_deferred = 0\<rparr>"
      "length es" opts hs clk start 0]
  show ?thesis using assms(3) l len by (simp add: recoverPending_def rc_sum_def pendingCount_def)
qed

text \<open>The retry loop leaves alone the entries that were never attempted.\<close>

lemma retry_skips_fresh:
  "\<forall>e \<in> set es. de_retryCount e = 0 \<Longrightarrow> retry_entries opts hs now after i es d = d"
  by (induction es arbitrary: i) (auto simp: retry_entry_def)

lemma recovery_accounts_witness:
  "rc_sum (snd (recoverPending default_options (\<lambda>_. None) 2000 (\<lambda>_. (2000, 2000))
       (fst (dq_enqueue sample_entry empty_queue)))) = 1
   \<and> pendingCount (fst (recoverPending default_options (\<lambda>_. None) 2000 (\<lambda>_. (2000, 2000))
       (fst (dq_enqueue sample_entry empty_queue)))) = 1"
proof -
  let ?d = "fst (dq_enqueue sample_entry empty_queue)"
  let ?r = "recoverPending default_options (\<lambda>_. None) 2000 (\<lambda>_. (2000, 2000)) ?d"
  have d: "dq_json ?d = [(''u1'', Some sample_entry)]"
    by (simp add: dq_enqueue_def enqueue_actions_def empty_queue_def sample_entry_def fresh_entry_def)
  have e: "de_id sample_entry = ''u1''" "de_enqueuedAt sample_entry = 1000"
    "de_retryCount sample_entry = 0" "de_lastAttemptAt sample_entry = None"
    by (simp_all add: sample_entry_def fresh_entry_def)
  then have "dq_wf ?d" "ids_ok ?d" unfolding dq_wf_def ids_ok_def d by simp_all
  from recovery_accounts [OF this, of default_options "\<lambda>_. None" 2000 "\<lambda>_. (2000, 2000)" "fst ?r" "snd ?r"]
  have "rc_sum (snd ?r) = pendingCount (fst (loadPending ?d)) \<and> pendingCount (fst ?r) = rc_deferred (snd ?r)"
    by simp
  moreover have "pendingCount (fst (loadPending ?d)) = 1"
    by (simp add: pendingCount_def load_json \<open>dq_wf ?d\<close>) (simp add: d)
  moreover have "rc_deferred (snd ?r) = 1"
    by (simp add: recoverPending_def loadPending_def d e List.map_filter_simps recover_entry_def
        backing_off_def default_options_def)
  ultimately show ?thesis by simp
qed

end
