(* ===== verification/RateLimiter.thy ===== *)
theory RateLimiter
  imports Prelude
begin

text \<open>
  The sliding-window rate limiter, \<open>src/src/gateway/rate-limiter.ts\<close>: the timestamps of the
  allowed messages per user, the check, the periodic cleanup and the usage.  The promise is
  the one of the file: no user sends more than \<open>maxMessages\<close> in any window.
\<close>

record rate_config =
  rl_maxMessages :: nat
  rl_windowMs :: int

definition default_rate_config :: rate_config where
  "default_rate_config = \<lparr>rl_maxMessages = 30, rl_windowMs = 60000\<rparr>"

type_synonym buckets = "string \<rightharpoonup> time list"

text \<open>A refusal with an empty window (\<open>maxMessages = 0\<close>) has \<open>NaN\<close> as its delay: \<open>None\<close>.\<close>

datatype rate_verdict = Allowed | Refused "int option"

definition prune :: "time \<Rightarrow> time list \<Rightarrow> time list" where
  "prune cutoff ts = filter (\<lambda>t. t > cutoff) ts"

definition bucket_of :: "buckets \<Rightarrow> string \<Rightarrow> time list" where
  "bucket_of b u = (case b u of None \<Rightarrow> [] | Some ts \<Rightarrow> ts)"

definition rate_check :: "rate_config \<Rightarrow> time \<Rightarrow> string \<Rightarrow> buckets \<Rightarrow> buckets \<times> rate_verdict" where
  "rate_check cfg now u b =
     (let ts = prune (now - rl_windowMs cfg) (bucket_of b u) in
      if rl_maxMessages cfg \<le> length ts
      then (b(u \<mapsto> ts), Refused (case ts of
             [] \<Rightarrow> None
           | oldest # _ \<Rightarrow> Some (max (oldest + rl_windowMs cfg - now) 1000)))
      else (b(u \<mapsto> ts @ [now]), Allowed))"

definition rate_cleanup :: "rate_config \<Rightarrow> time \<Rightarrow> buckets \<Rightarrow> buckets" where
  "rate_cleanup cfg now b =
     (\<lambda>u. case b u of
        None \<Rightarrow> None
      | Some ts \<Rightarrow> if list_all (\<lambda>t. t < now - rl_windowMs cfg * 2) ts then None else Some ts)"

record rate_usage =
  ru_count :: nat
  ru_windowMs :: int
  ru_maxMessages :: nat

definition getUsage :: "rate_config \<Rightarrow> time \<Rightarrow> string \<Rightarrow> buckets \<Rightarrow> rate_usage" where
  "getUsage cfg now u b = \<lparr>ru_count = length (prune (now - rl_windowMs cfg) (bucket_of b u)),
     ru_windowMs = rl_windowMs cfg, ru_maxMessages = rl_maxMessages cfg\<rparr>"

subsection \<open>Runs\<close>

datatype rate_event = Check string | Cleanup

text \<open>The log holds the user and the time of every allowed message.\<close>

type_synonym rate_log = "buckets \<times> (string \<times> time) list"

fun rate_step :: "rate_config \<Rightarrow> rate_log \<Rightarrow> time \<times> rate_event \<Rightarrow> rate_log" where
  "rate_step cfg (b, log) (now, Check u) = (case rate_check cfg now u b of
      (b', Allowed) \<Rightarrow> (b', log @ [(u, now)])
    | (b', Refused _) \<Rightarrow> (b', log))"
| "rate_step cfg (b, log) (now, Cleanup) = (rate_cleanup cfg now b, log)"

definition rate_run :: "rate_config \<Rightarrow> (time \<times> rate_event) list \<Rightarrow> rate_log" where
  "rate_run cfg evs = foldl (rate_step cfg) (Map.empty, []) evs"

definition sent :: "string \<Rightarrow> (string \<times> time) list \<Rightarrow> time list" where
  "sent u log = map snd (filter (\<lambda>p. fst p = u) log)"

definition in_window :: "rate_config \<Rightarrow> time \<Rightarrow> time list \<Rightarrow> time list" where
  "in_window cfg t ts = filter (\<lambda>s. t - rl_windowMs cfg < s \<and> s \<le> t) ts"

lemma prune_prune: "c \<le> c' \<Longrightarrow> prune c' (prune c ts) = prune c' ts"
  by (induction ts) (auto simp: prune_def)

lemma prune_append [simp]: "prune c (ts @ us) = prune c ts @ prune c us"
  by (simp add: prune_def)

lemma sent_append [simp]: "sent u (log @ [(v, t)]) = sent u log @ (if v = u then [t] else [])"
  by (simp add: sent_def)

lemma in_window_append [simp]: "in_window cfg t (ts @ us) = in_window cfg t ts @ in_window cfg t us"
  by (simp add: in_window_def)

text \<open>
  The invariant at time \<open>now\<close>: the buckets hold the messages of the last window, the log
  lies in the past, and no window of the log is over the limit.
\<close>

definition rate_inv :: "rate_config \<Rightarrow> time \<Rightarrow> rate_log \<Rightarrow> bool" where
  "rate_inv cfg now r \<longleftrightarrow>
     (\<forall>u. prune (now - rl_windowMs cfg) (bucket_of (fst r) u)
          = prune (now - rl_windowMs cfg) (sent u (snd r)))
   \<and> (\<forall>p \<in> set (snd r). snd p \<le> now)
   \<and> (\<forall>u t. length (in_window cfg t (sent u (snd r))) \<le> rl_maxMessages cfg)"

lemma rate_inv_later:
  assumes "rate_inv cfg now r" "now \<le> now'"
  shows "rate_inv cfg now' r"
proof -
  let ?w = "rl_windowMs cfg"
  have "prune (now' - ?w) (bucket_of (fst r) u) = prune (now' - ?w) (sent u (snd r))" for u
  proof -
    have "prune (now' - ?w) (bucket_of (fst r) u) = prune (now' - ?w) (prune (now - ?w) (bucket_of (fst r) u))"
      using assms(2) by (simp add: prune_prune)
    also have "\<dots> = prune (now' - ?w) (prune (now - ?w) (sent u (snd r)))"
      using assms(1) by (simp add: rate_inv_def)
    finally show ?thesis using assms(2) by (simp add: prune_prune)
  qed
  with assms show ?thesis by (force simp: rate_inv_def)
qed

lemma window_of_past:
  "now \<le> t \<Longrightarrow> length (in_window cfg t ts) \<le> length (prune (now - rl_windowMs cfg) ts)"
  unfolding in_window_def prune_def by (induction ts) auto

lemma prune_Nil [simp]: "prune c [] = []"
  by (simp add: prune_def)

lemma prune_old: "\<forall>t \<in> set ts. t \<le> c \<Longrightarrow> prune c ts = []"
  by (induction ts) (auto simp: prune_def)

lemma cleanup_bucket:
  "0 \<le> rl_windowMs cfg \<Longrightarrow> prune (now - rl_windowMs cfg) (bucket_of (rate_cleanup cfg now b) u)
     = prune (now - rl_windowMs cfg) (bucket_of b u)"
  by (auto simp: bucket_of_def rate_cleanup_def prune_old list_all_iff prune_Nil
      split: option.splits intro!: prune_old [symmetric])

lemma check_bucket:
  "bucket_of (b(u \<mapsto> ts)) v = (if v = u then ts else bucket_of b v)"
  by (simp add: bucket_of_def)

lemma rate_step_inv:
  assumes "0 < rl_windowMs cfg" "rate_inv cfg now r"
  shows "rate_inv cfg now (rate_step cfg r (now, ev))"
proof (cases ev)
  case Cleanup
  with assms show ?thesis by (cases r) (simp add: rate_inv_def cleanup_bucket)
next
  case (Check u)
  obtain b log where r: "r = (b, log)" by force
  let ?w = "rl_windowMs cfg"
  let ?ts = "prune (now - ?w) (bucket_of b u)"
  have ts: "?ts = prune (now - ?w) (sent u log)" using assms(2) r by (simp add: rate_inv_def)
  have idem: "prune (now - ?w) ?ts = ?ts" by (simp add: prune_prune)
  show ?thesis
  proof (cases "rl_maxMessages cfg \<le> length ?ts")
    case True
    with Check r assms(2) idem show ?thesis
      by (auto simp: rate_check_def Let_def rate_inv_def check_bucket)
  next
    case False
    have "length (in_window cfg t (sent v (log @ [(u, now)]))) \<le> rl_maxMessages cfg" for v t
    proof (cases "v = u \<and> now \<le> t")
      case True
      then have "length (in_window cfg t (sent u log)) \<le> length ?ts"
        unfolding ts by (auto intro: window_of_past)
      with True False show ?thesis by (auto simp: in_window_def)
    next
      case other: False
      then have "in_window cfg t (sent v (log @ [(u, now)])) = in_window cfg t (sent v log)"
        by (auto simp: in_window_def)
      then show ?thesis using assms(2) r by (simp add: rate_inv_def)
    qed
    with False Check r assms idem show ?thesis
      by (auto simp: rate_check_def Let_def rate_inv_def check_bucket ts)
  qed
qed

lemma rate_run_inv:
  assumes "0 < rl_windowMs cfg" "sorted (map fst evs)" "\<forall>p \<in> set evs. fst p \<le> now"
  shows "rate_inv cfg now (rate_run cfg evs)"
  using assms(2,3)
proof (induction evs arbitrary: now rule: rev_induct)
  case Nil
  then show ?case
    by (simp add: rate_inv_def rate_run_def bucket_of_def sent_def prune_def in_window_def)
next
  case (snoc e evs)
  have "rate_inv cfg (fst e) (rate_run cfg evs)"
    using snoc.prems by (intro snoc.IH) (auto simp: sorted_append)
  from rate_step_inv [OF assms(1) this, of "snd e"]
  have "rate_inv cfg (fst e) (rate_run cfg (evs @ [e]))" by (simp add: rate_run_def)
  then show ?case using snoc.prems(2) by (auto intro: rate_inv_later)
qed

text \<open>
  In every run of checks and cleanups in the order of time, no user has more than
  \<open>maxMessages\<close> allowed messages in any window of \<open>windowMs\<close>, wherever the window lies.
\<close>

theorem windows_bounded:
  assumes "0 < rl_windowMs cfg" and "sorted (map fst evs)"
  shows "length (in_window cfg t (sent u (snd (rate_run cfg evs)))) \<le> rl_maxMessages cfg"
proof -
  let ?now = "Max (insert 0 (fst ` set evs))"
  have "\<forall>p \<in> set evs. fst p \<le> ?now" by simp
  from rate_run_inv [OF assms this] show ?thesis by (simp add: rate_inv_def)
qed

lemma windows_bounded_witness:
  "length (in_window \<lparr>rl_maxMessages = 2, rl_windowMs = 10\<rparr> 8
     (sent ''u'' (snd (rate_run \<lparr>rl_maxMessages = 2, rl_windowMs = 10\<rparr>
        [(1, Check ''u''), (2, Check ''u''), (3, Cleanup), (4, Check ''u''), (11, Check ''u'')])))) \<le> 2"
  using windows_bounded [of "\<lparr>rl_maxMessages = 2, rl_windowMs = 10\<rparr>"
      "[(1, Check ''u''), (2, Check ''u''), (3, Cleanup), (4, Check ''u''), (11, Check ''u'')]" 8 "''u''"]
  by simp

text \<open>
  A refusal is honest: it happens only when the user already has \<open>maxMessages\<close> allowed
  messages in the window that ends now, its delay is at least a second, and a check after
  the delay, with no other message of the user in between, is allowed.
\<close>

theorem refusal_honest:
  assumes "0 < rl_windowMs cfg" and "sorted (map fst evs)" and "\<forall>p \<in> set evs. fst p \<le> now"
    and "0 < rl_maxMessages cfg"
    and "rate_check cfg now u (fst (rate_run cfg evs)) = (b', Refused d)"
  shows "length (in_window cfg now (sent u (snd (rate_run cfg evs)))) = rl_maxMessages cfg
    \<and> (\<exists>ms. d = Some ms \<and> 1000 \<le> ms \<and> (\<forall>later. now + ms \<le> later \<longrightarrow> snd (rate_check cfg later u b') = Allowed))"
proof -
  let ?b = "fst (rate_run cfg evs)" and ?log = "snd (rate_run cfg evs)" and ?w = "rl_windowMs cfg"
  let ?ts = "prune (now - ?w) (bucket_of ?b u)"
  note I = rate_run_inv [OF assms(1-3)]
  have full: "rl_maxMessages cfg \<le> length ?ts" "b' = ?b(u \<mapsto> ?ts)"
    using assms(5) by (auto simp: rate_check_def Let_def split: if_splits)
  have past: "\<forall>s \<in> set (sent u ?log). s \<le> now" using I by (auto simp: rate_inv_def sent_def)
  have ts: "?ts = prune (now - ?w) (sent u ?log)" using I by (simp add: rate_inv_def)
  also have "\<dots> = in_window cfg now (sent u ?log)"
    using past by (auto simp: prune_def in_window_def intro!: filter_cong)
  finally have win: "?ts = in_window cfg now (sent u ?log)" .
  have len: "length ?ts = rl_maxMessages cfg"
    using full(1) I by (metis dual_order.antisym rate_inv_def win)
  then obtain oldest rest where o: "?ts = oldest # rest" using assms(4) by (cases ?ts) auto
  have d: "d = Some (max (oldest + ?w - now) 1000)"
    using assms(5) full(1) o by (auto simp: rate_check_def Let_def split: if_splits)
  have "snd (rate_check cfg later u b') = Allowed" if "now + max (oldest + ?w - now) 1000 \<le> later" for later
  proof -
    have "oldest \<le> later - ?w" using that by linarith
    then have "length (prune (later - ?w) ?ts) \<le> length rest"
      unfolding o by (simp add: prune_def)
    also have "\<dots> < rl_maxMessages cfg" using len o by simp
    finally show ?thesis by (simp add: rate_check_def Let_def full(2) check_bucket)
  qed
  with len d win show ?thesis by auto
qed

lemma refusal_honest_witness:
  "\<exists>ms. rate_check \<lparr>rl_maxMessages = 1, rl_windowMs = 5000\<rparr> 200 ''u''
        (fst (rate_run \<lparr>rl_maxMessages = 1, rl_windowMs = 5000\<rparr> [(100, Check ''u'')]))
      = ([''u'' \<mapsto> [100]], Refused (Some ms))
    \<and> snd (rate_check \<lparr>rl_maxMessages = 1, rl_windowMs = 5000\<rparr> (200 + ms) ''u'' [''u'' \<mapsto> [100]]) = Allowed"
proof -
  let ?c = "\<lparr>rl_maxMessages = 1, rl_windowMs = 5000\<rparr>"
  have e: "rate_check ?c 200 ''u'' (fst (rate_run ?c [(100, Check ''u'')])) = ([''u'' \<mapsto> [100]], Refused (Some 4900))"
    by (simp add: rate_run_def rate_check_def prune_def bucket_of_def)
  from refusal_honest [of ?c "[(100, Check ''u'')]" 200 "''u''", OF _ _ _ _ e] e
  show ?thesis by auto
qed

end
