(* ===== verification/TaskRegistry.thy ===== *)
theory TaskRegistry
  imports Prelude
begin

text \<open>
  The background task registry, \<open>src/src/tasks/registry.ts\<close> with the types of
  \<open>src/src/tasks/types.ts\<close>: tasks and watches, output with its bounded buffer, the attachments
  injected before a model call, output polls, and the waiters for terminal states.

  The tasks are a list in the order of insertion, keyed by \<open>bt_id\<close>.  The events given to
  \<open>onEvent\<close> and the promises that resolve are collected in the registry, \<open>tr_emitted\<close> and
  \<open>tr_resolved\<close>.  A waiter is registered under a fresh number.
\<close>

datatype task_status = TPending | TRunning | TCompleted | TFailed | TKilled

datatype task_type = TBash | TAgent | TMonitor

datatype notify_policy = DoneOnly | StateChanges | Silent

record bg_task =
  bt_id :: string
  bt_type :: task_type
  bt_description :: string
  bt_status :: task_status
  bt_output :: string
  bt_error :: "string option"
  bt_exitCode :: "int option"
  bt_createdAt :: time
  bt_completedAt :: "time option"
  bt_outputOffset :: nat
  bt_notified :: bool
  bt_notifyPolicy :: notify_policy
  bt_aborted :: bool

record task_watch =
  tw_id :: string
  tw_target :: string
  tw_policy :: notify_policy
  tw_createdAt :: time

datatype attachment_type = TaskStatusNote | TaskProgressNote

record task_attachment =
  ta_type :: attachment_type
  ta_taskId :: string
  ta_taskType :: task_type
  ta_status :: task_status
  ta_description :: string
  ta_deltaOutput :: "string option"
  ta_error :: "string option"

datatype event_status = EvStarted | EvProgress | EvCompleted | EvFailed | EvKilled

record task_event =
  te_status :: event_status
  te_taskId :: string
  te_description :: string
  te_runningMs :: int
  te_timestamp :: time

datatype wait_kind = WaitAny "string list" | WaitAll "string list" | WaitNext

datatype wait_result = WTask "bg_task option" | WBool bool

record task_registry =
  tr_tasks :: "bg_task list"
  tr_watches :: "task_watch list"
  tr_listening :: bool
  tr_lastProgressEventAt :: "string \<rightharpoonup> time"
  tr_waiters :: "(nat \<times> wait_kind) list"
  tr_emitted :: "task_event list"
  tr_resolved :: "(nat \<times> wait_result) list"

definition max_delta_bytes :: nat where "max_delta_bytes = 4000"
definition max_output_bytes :: nat where "max_output_bytes = 100000"
definition completed_ttl_ms :: int where "completed_ttl_ms = 30 * 60 * 1000"
definition progress_event_min_interval_ms :: int where "progress_event_min_interval_ms = 2000"

definition isTerminalStatus :: "task_status \<Rightarrow> bool" where
  "isTerminalStatus s \<longleftrightarrow> s = TCompleted \<or> s = TFailed \<or> s = TKilled"

definition line_break :: string where "line_break = [char_of (10::nat)]"

definition truncateDelta :: "string \<Rightarrow> string" where
  "truncateDelta delta =
     (if length delta \<le> max_delta_bytes then delta
      else ''[...'' @ show_nat (length delta - max_delta_bytes) @ '' bytes trimmed...]'' @ line_break
           @ js_slice_end max_delta_bytes delta)"

definition new_registry :: "bool \<Rightarrow> task_registry" where
  "new_registry listening = \<lparr>tr_tasks = [], tr_watches = [], tr_listening = listening,
     tr_lastProgressEventAt = Map.empty, tr_waiters = [], tr_emitted = [], tr_resolved = []\<rparr>"

subsection \<open>Tasks and watches\<close>

definition tr_get :: "string \<Rightarrow> task_registry \<Rightarrow> bg_task option" where
  "tr_get k r = find (\<lambda>t. bt_id t = k) (tr_tasks r)"

text \<open>\<open>Map.set\<close>: a new key goes to the end, an old one keeps its place.\<close>

definition put_task :: "bg_task \<Rightarrow> task_registry \<Rightarrow> task_registry" where
  "put_task t r = r\<lparr>tr_tasks :=
     (if bt_id t \<in> bt_id ` set (tr_tasks r)
      then map (\<lambda>u. if bt_id u = bt_id t then t else u) (tr_tasks r) else tr_tasks r @ [t])\<rparr>"

text \<open>The mutation of the task object with this key.\<close>

definition alter_task :: "string \<Rightarrow> (bg_task \<Rightarrow> bg_task) \<Rightarrow> task_registry \<Rightarrow> task_registry" where
  "alter_task k f r = r\<lparr>tr_tasks := map (\<lambda>t. if bt_id t = k then f t else t) (tr_tasks r)\<rparr>"

definition emitTaskEvent :: "time \<Rightarrow> bg_task \<Rightarrow> event_status \<Rightarrow> task_registry \<Rightarrow> task_registry" where
  "emitTaskEvent now t st r =
     (if \<not> tr_listening r then r
      else r\<lparr>tr_emitted := tr_emitted r @ [\<lparr>te_status = st, te_taskId = bt_id t,
              te_description = bt_description t, te_runningMs = now - bt_createdAt t,
              te_timestamp = now\<rparr>]\<rparr>)"

definition policyForDescription :: "string \<Rightarrow> task_registry \<Rightarrow> notify_policy" where
  "policyForDescription description r =
     (case find (\<lambda>w. js_includes (js_lower description) (js_lower (tw_target w))) (tr_watches r) of
        Some w \<Rightarrow> tw_policy w
      | None \<Rightarrow> StateChanges)"

definition tr_create :: "string \<Rightarrow> time \<Rightarrow> task_type \<Rightarrow> string \<Rightarrow> task_registry \<Rightarrow> task_registry \<times> bg_task" where
  "tr_create uid now ty description r =
     (let t = \<lparr>bt_id = ''task-'' @ take 8 uid, bt_type = ty, bt_description = description,
                bt_status = TRunning, bt_output = [], bt_error = None, bt_exitCode = None,
                bt_createdAt = now, bt_completedAt = None, bt_outputOffset = 0,
                bt_notified = False, bt_notifyPolicy = policyForDescription description r,
                bt_aborted = False\<rparr> in
      (emitTaskEvent now t EvStarted (put_task t r), t))"

definition tr_list :: "task_registry \<Rightarrow> bg_task list" where
  "tr_list r = tr_tasks r"

definition listWatches :: "task_registry \<Rightarrow> task_watch list" where
  "listWatches r = tr_watches r"

definition matchingTasks :: "string \<Rightarrow> task_registry \<Rightarrow> bg_task list" where
  "matchingTasks target r = (case tr_get target r of
      Some t \<Rightarrow> [t]
    | None \<Rightarrow> filter (\<lambda>t. js_includes (js_lower (bt_description t)) (js_lower target)) (tr_tasks r))"

datatype watch_error = WatchTargetRequired

definition put_watch :: "task_watch \<Rightarrow> task_watch list \<Rightarrow> task_watch list" where
  "put_watch w ws = (if tw_id w \<in> tw_id ` set ws
     then map (\<lambda>v. if tw_id v = tw_id w then w else v) ws else ws @ [w])"

definition watched :: "notify_policy \<Rightarrow> bg_task \<Rightarrow> bg_task" where
  "watched policy t = t\<lparr>bt_notifyPolicy := policy, bt_notified := False\<rparr>"

definition mark_watched :: "notify_policy \<Rightarrow> bg_task list \<Rightarrow> task_registry \<Rightarrow> task_registry" where
  "mark_watched policy matched r =
     foldl (\<lambda>r t. alter_task (bt_id t) (watched policy) r) r matched"

definition tr_watch :: "string \<Rightarrow> time \<Rightarrow> string \<Rightarrow> notify_policy \<Rightarrow> task_registry \<Rightarrow>
    watch_error + task_registry \<times> task_watch \<times> bg_task list" where
  "tr_watch uid now target policy r =
     (let normalized = js_trim target in
      if normalized = [] then Inl WatchTargetRequired
      else let w = \<lparr>tw_id = ''watch-'' @ take 8 uid, tw_target = normalized, tw_policy = policy,
                    tw_createdAt = now\<rparr>;
               r1 = r\<lparr>tr_watches := put_watch w (tr_watches r)\<rparr>;
               matched = matchingTasks normalized r1
           in Inr (mark_watched policy matched r1, w, map (watched policy) matched))"

definition tr_unwatch :: "string \<Rightarrow> task_registry \<Rightarrow> task_registry \<times> bool" where
  "tr_unwatch idOrTarget r =
     (let key = js_trim idOrTarget; ws = tr_watches r in
      if key = [] then (r, False)
      else if key \<in> tw_id ` set ws then (r\<lparr>tr_watches := filter (\<lambda>w. tw_id w \<noteq> key) ws\<rparr>, True)
      else case find (\<lambda>w. tw_target w = key) ws of
        Some w \<Rightarrow> (r\<lparr>tr_watches := filter (\<lambda>v. tw_id v \<noteq> tw_id w) ws\<rparr>, True)
      | None \<Rightarrow> (r, False))"

definition tr_size :: "task_registry \<Rightarrow> nat" where
  "tr_size r = length (tr_tasks r)"

definition runningCount :: "task_registry \<Rightarrow> nat" where
  "runningCount r = length (filter (\<lambda>t. bt_status t = TRunning) (tr_tasks r))"

subsection \<open>Output\<close>

definition bounded_output :: "string \<Rightarrow> string" where
  "bounded_output out =
     (if max_output_bytes < length out
      then ''['' @ show_nat (length out - max_output_bytes) @ '' bytes trimmed]'' @ line_break
           @ js_slice_end max_output_bytes out
      else out)"

definition appendOutput :: "time \<Rightarrow> string \<Rightarrow> string \<Rightarrow> task_registry \<Rightarrow> task_registry" where
  "appendOutput now k chunk r =
     (case tr_get k r of
        None \<Rightarrow> r
      | Some t \<Rightarrow>
          (let t' = t\<lparr>bt_output := bounded_output (bt_output t @ chunk)\<rparr>;
               r1 = alter_task k (\<lambda>_. t') r;
               last = (case tr_lastProgressEventAt r k of None \<Rightarrow> 0 | Some l \<Rightarrow> l) in
           if chunk \<noteq> [] \<and> bt_notifyPolicy t = StateChanges
              \<and> progress_event_min_interval_ms \<le> now - last
           then emitTaskEvent now t' EvProgress
                  (r1\<lparr>tr_lastProgressEventAt := (tr_lastProgressEventAt r1)(k \<mapsto> now)\<rparr>)
           else r1))"

definition monitorLine :: "time \<Rightarrow> string \<Rightarrow> string \<Rightarrow> task_registry \<Rightarrow> task_registry" where
  "monitorLine now k line r =
     (case tr_get k r of
        None \<Rightarrow> r
      | Some t \<Rightarrow> if bt_type t \<noteq> TMonitor then r else appendOutput now k (line @ line_break) r)"

record task_output =
  to_id :: string
  to_status :: task_status
  to_exitCode :: "int option"
  to_error :: "string option"
  to_deltaOutput :: string

definition getOutput :: "string \<Rightarrow> bool \<Rightarrow> task_registry \<Rightarrow> task_registry \<times> task_output option" where
  "getOutput k full r =
     (case tr_get k r of
        None \<Rightarrow> (r, None)
      | Some t \<Rightarrow>
          (let delta = (if full then bt_output t else drop (bt_outputOffset t) (bt_output t)) in
           (if full then r
            else alter_task k (\<lambda>t. t\<lparr>bt_outputOffset := length (bt_output t)\<rparr>) r,
            Some \<lparr>to_id = bt_id t, to_status = bt_status t, to_exitCode = bt_exitCode t,
                  to_error = bt_error t, to_deltaOutput = delta\<rparr>)))"

subsection \<open>Waiters and terminal states\<close>

definition terminal :: "task_registry \<Rightarrow> string \<Rightarrow> bool" where
  "terminal r k = (case tr_get k r of None \<Rightarrow> False | Some t \<Rightarrow> isTerminalStatus (bt_status t))"

definition allTerminal :: "string list \<Rightarrow> task_registry \<Rightarrow> bool" where
  "allTerminal known r = list_all (terminal r) known"

definition nextUnreportedTerminal :: "task_registry \<Rightarrow> bg_task option" where
  "nextUnreportedTerminal r =
     find (\<lambda>t. \<not> bt_notified t \<and> isTerminalStatus (bt_status t)) (tr_tasks r)"

text \<open>What a waiter resolves to when a task reaches a terminal state.\<close>

fun on_terminal :: "bg_task \<Rightarrow> task_registry \<Rightarrow> wait_kind \<Rightarrow> wait_result option" where
  "on_terminal t r (WaitAny known) = (if bt_id t \<in> set known then Some (WTask (Some t)) else None)"
| "on_terminal t r (WaitAll known) = (if allTerminal known r then Some (WBool True) else None)"
| "on_terminal t r WaitNext = Some (WTask (Some t))"

text \<open>The waiters whose function gives a result leave the set with that result.\<close>

definition settle :: "(wait_kind \<Rightarrow> wait_result option) \<Rightarrow> task_registry \<Rightarrow> task_registry" where
  "settle f r = r\<lparr>
     tr_waiters := filter (\<lambda>(n, w). f w = None) (tr_waiters r),
     tr_resolved := tr_resolved r @
       List.map_filter (\<lambda>(n, w). map_option (Pair n) (f w)) (tr_waiters r)\<rparr>"

definition notifyTerminalWaiters :: "bg_task \<Rightarrow> task_registry \<Rightarrow> task_registry" where
  "notifyTerminalWaiters t r = settle (on_terminal t r) r"

text \<open>The common end of \<open>complete\<close>, \<open>fail\<close> and \<open>kill\<close>.\<close>

definition finish_task :: "time \<Rightarrow> bg_task \<Rightarrow> event_status \<Rightarrow> task_registry \<Rightarrow> task_registry" where
  "finish_task now t st r =
     notifyTerminalWaiters t (emitTaskEvent now t st (alter_task (bt_id t) (\<lambda>_. t) r))"

definition tr_complete :: "time \<Rightarrow> string \<Rightarrow> int option \<Rightarrow> task_registry \<Rightarrow> task_registry" where
  "tr_complete now k exitCode r =
     (case tr_get k r of
        None \<Rightarrow> r
      | Some t \<Rightarrow> finish_task now
          (t\<lparr>bt_status := TCompleted, bt_exitCode := exitCode, bt_completedAt := Some now\<rparr>) EvCompleted r)"

definition tr_fail :: "time \<Rightarrow> string \<Rightarrow> string \<Rightarrow> task_registry \<Rightarrow> task_registry" where
  "tr_fail now k err r =
     (case tr_get k r of
        None \<Rightarrow> r
      | Some t \<Rightarrow> finish_task now
          (t\<lparr>bt_status := TFailed, bt_error := Some err, bt_completedAt := Some now\<rparr>) EvFailed r)"

definition tr_kill :: "time \<Rightarrow> string \<Rightarrow> task_registry \<Rightarrow> task_registry \<times> bool" where
  "tr_kill now k r =
     (case tr_get k r of
        None \<Rightarrow> (r, False)
      | Some t \<Rightarrow>
          if bt_status t \<noteq> TRunning \<and> bt_status t \<noteq> TPending then (r, False)
          else (finish_task now
            (t\<lparr>bt_aborted := True, bt_status := TKilled, bt_completedAt := Some now\<rparr>) EvKilled r, True))"

text \<open>A call that returns at once gives \<open>Inl\<close>; otherwise the waiter is registered.\<close>

definition add_waiter :: "nat \<Rightarrow> wait_kind \<Rightarrow> task_registry \<Rightarrow> task_registry" where
  "add_waiter n w r = r\<lparr>tr_waiters := tr_waiters r @ [(n, w)]\<rparr>"

definition known_ids :: "string list \<Rightarrow> task_registry \<Rightarrow> string list" where
  "known_ids ks r = filter (\<lambda>k. tr_get k r \<noteq> None) ks"

definition waitAny :: "nat \<Rightarrow> string list \<Rightarrow> task_registry \<Rightarrow> task_registry \<times> wait_result option" where
  "waitAny n ks r =
     (let known = known_ids ks r in
      if known = [] then (r, Some (WTask None))
      else case find (terminal r) known of
        Some k \<Rightarrow> (r, Some (WTask (tr_get k r)))
      | None \<Rightarrow> (add_waiter n (WaitAny known) r, None))"

definition waitAll :: "nat \<Rightarrow> string list \<Rightarrow> task_registry \<Rightarrow> task_registry \<times> wait_result option" where
  "waitAll n ks r =
     (let known = known_ids ks r in
      if known = [] then (r, Some (WBool True))
      else if allTerminal known r then (r, Some (WBool True))
      else (add_waiter n (WaitAll known) r, None))"

definition waitForNextTerminal :: "nat \<Rightarrow> int \<Rightarrow> bool \<Rightarrow> task_registry \<Rightarrow> task_registry \<times> wait_result option" where
  "waitForNextTerminal n timeoutMs aborted r =
     (case nextUnreportedTerminal r of
        Some t \<Rightarrow> (r, Some (WTask (Some t)))
      | None \<Rightarrow>
          if timeoutMs \<le> 0 \<or> aborted then (r, Some (WTask None))
          else (add_waiter n WaitNext r, None))"

text \<open>\<open>waitForCompletion\<close> before its polling starts; \<open>None\<close> when it has to poll.\<close>

definition waitForCompletion :: "string \<Rightarrow> task_registry \<Rightarrow> bool option" where
  "waitForCompletion k r =
     (if tr_get k r = None then Some False else if terminal r k then Some True else None)"

text \<open>The poll of one waiter's interval and the end of its time (or its abort signal).\<close>

fun poll_result :: "task_registry \<Rightarrow> wait_kind \<Rightarrow> wait_result option" where
  "poll_result r (WaitAny known) = map_option (\<lambda>k. WTask (tr_get k r)) (find (terminal r) known)"
| "poll_result r (WaitAll known) = (if allTerminal known r then Some (WBool True) else None)"
| "poll_result r WaitNext = None"

fun timeout_result :: "task_registry \<Rightarrow> wait_kind \<Rightarrow> wait_result" where
  "timeout_result r (WaitAny known) = WTask None"
| "timeout_result r (WaitAll known) = WBool (allTerminal known r)"
| "timeout_result r WaitNext = WTask None"

definition settle_one :: "nat \<Rightarrow> (wait_kind \<Rightarrow> wait_result option) \<Rightarrow> task_registry \<Rightarrow> task_registry" where
  "settle_one n f r = r\<lparr>
     tr_waiters := filter (\<lambda>(m, w). m \<noteq> n \<or> f w = None) (tr_waiters r),
     tr_resolved := tr_resolved r @
       List.map_filter (\<lambda>(m, w). if m = n then map_option (Pair m) (f w) else None) (tr_waiters r)\<rparr>"

definition wait_poll :: "nat \<Rightarrow> task_registry \<Rightarrow> task_registry" where
  "wait_poll n r = settle_one n (poll_result r) r"

definition wait_timeout :: "nat \<Rightarrow> task_registry \<Rightarrow> task_registry" where
  "wait_timeout n r = settle_one n (\<lambda>w. Some (timeout_result r w)) r"

subsection \<open>Attachments\<close>

text \<open>One task of the first loop: its state afterwards and its attachment.\<close>

definition opt_text :: "string \<Rightarrow> string option" where
  "opt_text s = (if s = [] then None else Some s)"

definition collect_task :: "bg_task \<Rightarrow> bg_task \<times> task_attachment list" where
  "collect_task t =
     (let isTerminal = isTerminalStatus (bt_status t);
          delta = drop (bt_outputOffset t) (bt_output t);
          seen = t\<lparr>bt_outputOffset := length (bt_output t)\<rparr> in
      if bt_notifyPolicy t = Silent
      then (if isTerminal then seen\<lparr>bt_notified := True\<rparr> else seen, [])
      else if isTerminal \<and> \<not> bt_notified t
      then (seen\<lparr>bt_notified := True\<rparr>,
            [\<lparr>ta_type = TaskStatusNote, ta_taskId = bt_id t, ta_taskType = bt_type t,
              ta_status = bt_status t, ta_description = bt_description t,
              ta_deltaOutput = map_option truncateDelta (opt_text delta), ta_error = bt_error t\<rparr>])
      else if bt_notifyPolicy t = StateChanges \<and> bt_status t = TRunning
              \<and> bt_outputOffset t < length (bt_output t) \<and> 100 < length delta
      then (seen,
            [\<lparr>ta_type = TaskProgressNote, ta_taskId = bt_id t, ta_taskType = bt_type t,
              ta_status = TRunning, ta_description = bt_description t,
              ta_deltaOutput = Some (truncateDelta delta), ta_error = None\<rparr>])
      else (t, []))"

definition expired :: "time \<Rightarrow> bg_task \<Rightarrow> bool" where
  "expired now t \<longleftrightarrow> bt_notified t \<and>
     (case bt_completedAt t of None \<Rightarrow> False | Some c \<Rightarrow> c \<noteq> 0 \<and> completed_ttl_ms < now - c)"

definition collectAttachments :: "time \<Rightarrow> task_registry \<Rightarrow> task_registry \<times> task_attachment list" where
  "collectAttachments now r =
     (let res = map collect_task (tr_tasks r) in
      (r\<lparr>tr_tasks := filter (\<lambda>t. \<not> expired now t) (map fst res)\<rparr>, concat (map snd res)))"

subsection \<open>Runs of the registry\<close>

datatype reg_op =
    RCreate string task_type string
  | RWatch string string notify_policy
  | RUnwatch string
  | RAppend string string
  | RMonitor string string
  | RComplete string "int option"
  | RFail string string
  | RKill string
  | RCollect
  | RPoll string bool
  | RWaitAny nat "string list"
  | RWaitAll nat "string list"
  | RWaitNext nat int bool
  | RWaitPoll nat
  | RWaitTimeout nat

text \<open>An operation at a time, with the attachments that it injects.\<close>

fun reg_exec :: "time \<Rightarrow> reg_op \<Rightarrow> task_registry \<Rightarrow> task_registry \<times> task_attachment list" where
  "reg_exec now (RCreate uid ty d) r = (fst (tr_create uid now ty d r), [])"
| "reg_exec now (RWatch uid target pol) r =
     (case tr_watch uid now target pol r of Inl _ \<Rightarrow> (r, []) | Inr (r', _) \<Rightarrow> (r', []))"
| "reg_exec now (RUnwatch s) r = (fst (tr_unwatch s r), [])"
| "reg_exec now (RAppend k chunk) r = (appendOutput now k chunk r, [])"
| "reg_exec now (RMonitor k line) r = (monitorLine now k line r, [])"
| "reg_exec now (RComplete k c) r = (tr_complete now k c r, [])"
| "reg_exec now (RFail k err) r = (tr_fail now k err r, [])"
| "reg_exec now (RKill k) r = (fst (tr_kill now k r), [])"
| "reg_exec now RCollect r = collectAttachments now r"
| "reg_exec now (RPoll k full) r = (fst (getOutput k full r), [])"
| "reg_exec now (RWaitAny n ks) r = (fst (waitAny n ks r), [])"
| "reg_exec now (RWaitAll n ks) r = (fst (waitAll n ks r), [])"
| "reg_exec now (RWaitNext n ms ab) r = (fst (waitForNextTerminal n ms ab r), [])"
| "reg_exec now (RWaitPoll n) r = (wait_poll n r, [])"
| "reg_exec now (RWaitTimeout n) r = (wait_timeout n r, [])"

definition reg_step :: "task_registry \<times> task_attachment list \<Rightarrow> time \<times> reg_op \<Rightarrow>
    task_registry \<times> task_attachment list" where
  "reg_step s ev = (let (r, ats) = reg_exec (fst ev) (snd ev) (fst s) in (r, snd s @ ats))"

definition reg_run :: "bool \<Rightarrow> (time \<times> reg_op) list \<Rightarrow> task_registry \<times> task_attachment list" where
  "reg_run listening evs = foldl reg_step (new_registry listening, []) evs"

text \<open>Every task of the second registry comes from one of the first, related by \<open>Q\<close>.\<close>

definition evolves :: "(bg_task \<Rightarrow> bg_task \<Rightarrow> bool) \<Rightarrow> task_registry \<Rightarrow> task_registry \<Rightarrow> bool" where
  "evolves Q r r' \<longleftrightarrow> (\<forall>t' \<in> set (tr_tasks r'). \<exists>t \<in> set (tr_tasks r). bt_id t = bt_id t' \<and> Q t t')"

definition tasks_wf :: "task_registry \<Rightarrow> bool" where
  "tasks_wf r \<longleftrightarrow> distinct (map bt_id (tr_tasks r))"

lemma evolves_same: "(\<And>t. Q t t) \<Longrightarrow> tr_tasks r' = tr_tasks r \<Longrightarrow> evolves Q r r'"
  by (auto simp: evolves_def)

lemma evolves_alter:
  assumes "\<And>t. Q t t" and "\<And>t. t \<in> set (tr_tasks r) \<Longrightarrow> bt_id t = k \<Longrightarrow>
    \<exists>u \<in> set (tr_tasks r). bt_id u = bt_id (f t) \<and> Q u (f t)"
  shows "evolves Q r (alter_task k f r)"
  using assms by (auto simp: evolves_def alter_task_def)

lemma alter_ids: "(\<And>t. bt_id t = k \<Longrightarrow> bt_id (f t) = k) \<Longrightarrow>
    map bt_id (tr_tasks (alter_task k f r)) = map bt_id (tr_tasks r)"
  by (simp add: alter_task_def)

lemma alter_wf: "(\<And>t. bt_id t = k \<Longrightarrow> bt_id (f t) = k) \<Longrightarrow> tasks_wf r \<Longrightarrow> tasks_wf (alter_task k f r)"
  by (simp only: tasks_wf_def alter_ids)

lemma get_Some: "tr_get k r = Some t \<Longrightarrow> t \<in> set (tr_tasks r) \<and> bt_id t = k"
  by (auto simp: tr_get_def find_Some_iff)

lemma emit_fields [simp]:
  "tr_tasks (emitTaskEvent now t st r) = tr_tasks r"
  "tr_waiters (emitTaskEvent now t st r) = tr_waiters r"
  "tr_resolved (emitTaskEvent now t st r) = tr_resolved r"
  by (simp_all add: emitTaskEvent_def)

lemma settle_fields [simp]:
  "tr_tasks (settle f r) = tr_tasks r"
  "tr_tasks (settle_one n g r) = tr_tasks r"
  "tr_tasks (add_waiter n w r) = tr_tasks r"
  by (simp_all add: settle_def settle_one_def add_waiter_def)

lemma alter_fields [simp]:
  "tr_waiters (alter_task k f r) = tr_waiters r"
  "tr_resolved (alter_task k f r) = tr_resolved r"
  by (simp_all add: alter_task_def)

text \<open>
  The two relations the properties need: a task that was reported stays reported, and a
  terminal one was terminal before.
\<close>

definition keeps_notified :: "bg_task \<Rightarrow> bg_task \<Rightarrow> bool" where
  "keeps_notified t t' \<longleftrightarrow> (bt_notified t \<longrightarrow> bt_notified t')"

definition was_terminal :: "bg_task \<Rightarrow> bg_task \<Rightarrow> bool" where
  "was_terminal t t' \<longleftrightarrow> (isTerminalStatus (bt_status t') \<longrightarrow> isTerminalStatus (bt_status t))"

lemmas relation_defs = keeps_notified_def was_terminal_def

lemma append_cases:
  "appendOutput now k chunk r = r \<or> (\<exists>t r'. tr_get k r = Some t
     \<and> r' = alter_task k (\<lambda>_. t\<lparr>bt_output := bounded_output (bt_output t @ chunk)\<rparr>) r
     \<and> tr_tasks (appendOutput now k chunk r) = tr_tasks r'
     \<and> tr_waiters (appendOutput now k chunk r) = tr_waiters r
     \<and> tr_resolved (appendOutput now k chunk r) = tr_resolved r)"
  by (auto simp: appendOutput_def Let_def split: option.splits)

lemma append_evolves:
  assumes "Q = keeps_notified \<or> Q = was_terminal"
  shows "evolves Q r (appendOutput now k chunk r) \<and> (tasks_wf r \<longrightarrow> tasks_wf (appendOutput now k chunk r))
    \<and> tr_waiters (appendOutput now k chunk r) = tr_waiters r
    \<and> tr_resolved (appendOutput now k chunk r) = tr_resolved r"
  using append_cases [of now k chunk r]
proof
  assume "appendOutput now k chunk r = r"
  with assms show ?thesis by (auto intro: evolves_same simp: relation_defs)
next
  assume "\<exists>t r'. tr_get k r = Some t
     \<and> r' = alter_task k (\<lambda>_. t\<lparr>bt_output := bounded_output (bt_output t @ chunk)\<rparr>) r
     \<and> tr_tasks (appendOutput now k chunk r) = tr_tasks r'
     \<and> tr_waiters (appendOutput now k chunk r) = tr_waiters r
     \<and> tr_resolved (appendOutput now k chunk r) = tr_resolved r"
  then obtain t r' where t: "tr_get k r = Some t"
    "r' = alter_task k (\<lambda>_. t\<lparr>bt_output := bounded_output (bt_output t @ chunk)\<rparr>) r"
    "tr_tasks (appendOutput now k chunk r) = tr_tasks r'"
    "tr_waiters (appendOutput now k chunk r) = tr_waiters r"
    "tr_resolved (appendOutput now k chunk r) = tr_resolved r" by blast
  note g = get_Some [OF t(1)]
  have "evolves Q r r'" unfolding t(2)
    by (rule evolves_alter) (use assms g in \<open>auto simp: relation_defs intro!: bexI [of _ t]\<close>)
  moreover have "tasks_wf r \<longrightarrow> tasks_wf r'" unfolding t(2) using g by (auto intro: alter_wf)
  ultimately show ?thesis using t(3-) by (simp add: evolves_def tasks_wf_def)
qed

lemma collect_task_facts:
  "bt_id (fst (collect_task t)) = bt_id t" "keeps_notified t (fst (collect_task t))"
  "was_terminal t (fst (collect_task t))"
  by (simp_all add: collect_task_def Let_def relation_defs)

lemma collect_evolves:
  assumes "Q = keeps_notified \<or> Q = was_terminal"
  shows "evolves Q r (fst (collectAttachments now r)) \<and> (tasks_wf r \<longrightarrow> tasks_wf (fst (collectAttachments now r)))"
proof -
  have "distinct (map bt_id ts) \<longrightarrow> distinct (map bt_id (map fst (map collect_task ts)))" for ts
    by (simp add: collect_task_facts comp_def)
  then have "tasks_wf r \<longrightarrow> tasks_wf (fst (collectAttachments now r))"
    unfolding tasks_wf_def collectAttachments_def Let_def
    by (simp add: distinct_map_filter del: map_map)
  then show ?thesis
    using assms by (auto simp: evolves_def collectAttachments_def Let_def collect_task_facts)
qed

lemma mark_watched_simps [simp]:
  "mark_watched pol [] r = r"
  "mark_watched pol (t # ts) r = mark_watched pol ts (alter_task (bt_id t) (watched pol) r)"
  by (simp_all add: mark_watched_def)

lemma watched_fields [simp]:
  "bt_id (watched pol t) = bt_id t" "bt_status (watched pol t) = bt_status t"
  by (simp_all add: watched_def)

lemma mark_watched_evolves:
  "evolves was_terminal r0 r \<Longrightarrow> evolves was_terminal r0 (mark_watched pol ts r)"
proof (induction ts arbitrary: r)
  case (Cons t ts)
  have "evolves was_terminal r0 (alter_task (bt_id t) (watched pol) r)"
    using Cons.prems by (auto simp: evolves_def alter_task_def was_terminal_def) metis
  from Cons.IH [OF this] show ?case by simp
qed simp

lemma mark_watched_wf: "tasks_wf r \<Longrightarrow> tasks_wf (mark_watched pol ts r)"
proof (induction ts arbitrary: r)
  case (Cons t ts)
  from Cons.IH [OF alter_wf [OF _ Cons.prems]] show ?case by simp
qed simp

lemma mark_watched_waiters:
  "tr_waiters (mark_watched pol ts r) = tr_waiters r \<and> tr_resolved (mark_watched pol ts r) = tr_resolved r"
  by (induction ts arbitrary: r) auto

lemma finish_fields:
  "tr_tasks (finish_task now t st r) = tr_tasks (alter_task (bt_id t) (\<lambda>_. t) r)"
  by (simp add: finish_task_def notifyTerminalWaiters_def)

lemma finish_evolves:
  assumes "u \<in> set (tr_tasks r)" "bt_id t = bt_id u" "bt_notified t = bt_notified u"
  shows "evolves keeps_notified r (finish_task now t st r) \<and> (tasks_wf r \<longrightarrow> tasks_wf (finish_task now t st r))"
proof -
  have "evolves keeps_notified r (alter_task (bt_id t) (\<lambda>_. t) r)"
    by (rule evolves_alter) (use assms in \<open>auto simp: relation_defs\<close>)
  moreover have "tasks_wf r \<longrightarrow> tasks_wf (alter_task (bt_id t) (\<lambda>_. t) r)"
    by (auto intro: alter_wf)
  ultimately show ?thesis by (simp add: evolves_def tasks_wf_def finish_fields)
qed

lemma poll_evolves:
  assumes "Q = keeps_notified \<or> Q = was_terminal"
  shows "evolves Q r (fst (getOutput k full r)) \<and> (tasks_wf r \<longrightarrow> tasks_wf (fst (getOutput k full r)))"
  using assms
  by (auto simp: getOutput_def Let_def relation_defs intro!: evolves_alter alter_wf
      intro: evolves_same split: option.splits)

fun quiet_op :: "reg_op \<Rightarrow> bool" where
  "quiet_op (RWaitAny n ks) \<longleftrightarrow> True"
| "quiet_op (RWaitAll n ks) \<longleftrightarrow> True"
| "quiet_op (RWaitNext n ms ab) \<longleftrightarrow> True"
| "quiet_op (RWaitPoll n) \<longleftrightarrow> True"
| "quiet_op (RWaitTimeout n) \<longleftrightarrow> True"
| "quiet_op (RUnwatch s) \<longleftrightarrow> True"
| "quiet_op _ \<longleftrightarrow> False"

lemma quiet_tasks: "quiet_op p \<Longrightarrow> tr_tasks (fst (reg_exec now p r)) = tr_tasks r"
  by (cases p) (auto simp: waitAny_def waitAll_def waitForNextTerminal_def wait_poll_def
      wait_timeout_def tr_unwatch_def Let_def split: option.splits)

fun finishing_op :: "reg_op \<Rightarrow> bool" where
  "finishing_op (RComplete k c) \<longleftrightarrow> True"
| "finishing_op (RFail k e) \<longleftrightarrow> True"
| "finishing_op (RKill k) \<longleftrightarrow> True"
| "finishing_op _ \<longleftrightarrow> False"

fun is_create :: "reg_op \<Rightarrow> bool" where
  "is_create (RCreate uid ty d) \<longleftrightarrow> True"
| "is_create _ \<longleftrightarrow> False"

fun is_watch :: "reg_op \<Rightarrow> bool" where
  "is_watch (RWatch uid target pol) \<longleftrightarrow> True"
| "is_watch _ \<longleftrightarrow> False"

text \<open>A finishing operation does nothing or ends one task.\<close>

definition finishes :: "task_registry \<Rightarrow> task_registry \<Rightarrow> bool" where
  "finishes r r' \<longleftrightarrow> r' = r \<or> (\<exists>u t now st. u \<in> set (tr_tasks r) \<and> bt_id t = bt_id u
     \<and> bt_notified t = bt_notified u \<and> isTerminalStatus (bt_status t) \<and> r' = finish_task now t st r)"

lemma finishesI:
  assumes "tr_get k r = Some u" "bt_id t = bt_id u" "bt_notified t = bt_notified u"
    "isTerminalStatus (bt_status t)"
  shows "finishes r (finish_task now t st r)"
  using assms get_Some [OF assms(1)] unfolding finishes_def by blast

lemma finishes_refl: "finishes r r"
  by (simp add: finishes_def)

lemma finishing_cases: "finishing_op p \<Longrightarrow> finishes r (fst (reg_exec now p r))"
  by (cases p) (auto simp: tr_complete_def tr_fail_def tr_kill_def isTerminalStatus_def
      intro: finishes_refl intro!: finishesI split: option.splits)

lemma finishes_evolves:
  "finishes r r' \<Longrightarrow> evolves keeps_notified r r' \<and> (tasks_wf r \<longrightarrow> tasks_wf r')"
  using finish_evolves by (auto simp: finishes_def intro: evolves_same simp: keeps_notified_def)

lemma watch_cases:
  "fst (reg_exec now (RWatch uid target pol) r) = r \<or> (\<exists>ws ts. fst (reg_exec now (RWatch uid target pol) r)
     = mark_watched pol ts (r\<lparr>tr_watches := ws\<rparr>))"
  by (simp add: tr_watch_def Let_def) blast

lemma watch_evolves:
  "evolves was_terminal r (fst (reg_exec now (RWatch uid target pol) r))
   \<and> (tasks_wf r \<longrightarrow> tasks_wf (fst (reg_exec now (RWatch uid target pol) r)))
   \<and> tr_waiters (fst (reg_exec now (RWatch uid target pol) r)) = tr_waiters r
   \<and> tr_resolved (fst (reg_exec now (RWatch uid target pol) r)) = tr_resolved r"
  using watch_cases [of now uid target pol r]
proof
  assume "fst (reg_exec now (RWatch uid target pol) r) = r"
  then show ?thesis by (auto intro: evolves_same simp: was_terminal_def)
next
  assume "\<exists>ws ts. fst (reg_exec now (RWatch uid target pol) r)
     = mark_watched pol ts (r\<lparr>tr_watches := ws\<rparr>)"
  then obtain ws ts where e: "fst (reg_exec now (RWatch uid target pol) r)
     = mark_watched pol ts (r\<lparr>tr_watches := ws\<rparr>)" by blast
  have "evolves was_terminal r (r\<lparr>tr_watches := ws\<rparr>)"
    by (rule evolves_same) (simp_all add: was_terminal_def)
  from mark_watched_evolves [OF this] mark_watched_wf [of "r\<lparr>tr_watches := ws\<rparr>" pol ts]
    mark_watched_waiters [of pol ts "r\<lparr>tr_watches := ws\<rparr>"]
  show ?thesis unfolding e by (simp add: tasks_wf_def)
qed

lemma keeps_notified_exec:
  assumes "\<not> is_create p" "\<not> is_watch p"
  shows "evolves keeps_notified r (fst (reg_exec now p r))"
proof -
  consider "quiet_op p" | "finishing_op p" | k c where "p = RAppend k c" | k c where "p = RMonitor k c"
    | "p = RCollect" | k full where "p = RPoll k full"
    using assms by (cases p) auto
  then show ?thesis
  proof cases
    case 1
    then show ?thesis by (intro evolves_same) (simp_all add: quiet_tasks keeps_notified_def)
  next
    case 2
    then show ?thesis
      using finishes_evolves [OF finishing_cases [OF 2]] by blast
  qed (use append_evolves [of keeps_notified] collect_evolves [of keeps_notified]
      poll_evolves [of keeps_notified] in \<open>auto simp: monitorLine_def keeps_notified_def
        intro: evolves_same split: option.splits\<close>)
qed

lemma was_terminal_exec:
  assumes "\<not> is_create p" "\<not> finishing_op p"
  shows "evolves was_terminal r (fst (reg_exec now p r))"
proof -
  consider "quiet_op p" | k c where "p = RAppend k c" | k c where "p = RMonitor k c"
    | "p = RCollect" | k full where "p = RPoll k full" | uid tg pol where "p = RWatch uid tg pol"
    using assms by (cases p) auto
  then show ?thesis
  proof cases
    case 1
    then show ?thesis by (intro evolves_same) (simp_all add: quiet_tasks was_terminal_def)
  qed (use append_evolves [of was_terminal] collect_evolves [of was_terminal]
      poll_evolves [of was_terminal] watch_evolves in \<open>auto simp: monitorLine_def was_terminal_def
        intro: evolves_same split: option.splits simp del: reg_exec.simps(2)\<close>)
qed

lemma put_ids: "set (tr_tasks (put_task t r)) \<subseteq> insert t (set (tr_tasks r))"
  by (auto simp: put_task_def)

lemma put_wf: "tasks_wf r \<Longrightarrow> tasks_wf (put_task t r)"
proof -
  have "map bt_id (map (\<lambda>u. if bt_id u = bt_id t then t else u) ts) = map bt_id ts" for ts by simp
  then show "tasks_wf r \<Longrightarrow> tasks_wf (put_task t r)"
    unfolding tasks_wf_def put_task_def by (simp del: map_map)
qed

lemma exec_wf:
  assumes "tasks_wf r"
  shows "tasks_wf (fst (reg_exec now p r))"
proof -
  consider "quiet_op p" | "finishing_op p" | k c where "p = RAppend k c" | k c where "p = RMonitor k c"
    | "p = RCollect" | k full where "p = RPoll k full" | uid tg pol where "p = RWatch uid tg pol"
    | uid ty d where "p = RCreate uid ty d"
    by (cases p) auto
  then show ?thesis
  proof cases
    case 1
    then show ?thesis using assms by (simp add: quiet_tasks tasks_wf_def)
  next
    case 2
    then show ?thesis using finishes_evolves [OF finishing_cases [OF 2]] assms by blast
  next
    case 8
    then show ?thesis using put_wf [OF assms] by (simp add: tr_create_def Let_def tasks_wf_def)
  qed (use assms append_evolves [of was_terminal] collect_evolves [of was_terminal]
      poll_evolves [of was_terminal] watch_evolves in \<open>auto simp: monitorLine_def
        split: option.splits simp del: reg_exec.simps(2)\<close>)
qed

subsection \<open>Terminal states are reported once\<close>

definition status_ids :: "task_attachment list \<Rightarrow> string list" where
  "status_ids ats = map ta_taskId (filter (\<lambda>a. ta_type a = TaskStatusNote) ats)"

definition reportable :: "bg_task \<Rightarrow> bool" where
  "reportable t \<longleftrightarrow> bt_notifyPolicy t \<noteq> Silent \<and> isTerminalStatus (bt_status t) \<and> \<not> bt_notified t"

definition status_note :: "bg_task \<Rightarrow> task_attachment" where
  "status_note t = \<lparr>ta_type = TaskStatusNote, ta_taskId = bt_id t, ta_taskType = bt_type t,
     ta_status = bt_status t, ta_description = bt_description t,
     ta_deltaOutput = map_option truncateDelta (opt_text (drop (bt_outputOffset t) (bt_output t))),
     ta_error = bt_error t\<rparr>"

lemma collect_task_notes:
  "filter (\<lambda>a. ta_type a = TaskStatusNote) (snd (collect_task t)) = (if reportable t then [status_note t] else [])"
  by (simp add: collect_task_def Let_def reportable_def status_note_def)

lemma collect_notes:
  "filter (\<lambda>a. ta_type a = TaskStatusNote) (snd (collectAttachments now r))
     = map status_note (filter reportable (tr_tasks r))"
proof -
  have "filter (\<lambda>a. ta_type a = TaskStatusNote) (concat (map (snd \<circ> collect_task) ts))
      = map status_note (filter reportable ts)" for ts
    by (induction ts) (simp_all add: collect_task_notes)
  then show ?thesis by (simp add: collectAttachments_def Let_def)
qed

lemma collect_task_notified: "isTerminalStatus (bt_status t) \<Longrightarrow> bt_notified (fst (collect_task t))"
  by (auto simp: collect_task_def Let_def isTerminalStatus_def)

lemma collect_task_status: "bt_status (fst (collect_task t)) = bt_status t"
  by (simp add: collect_task_def Let_def)

lemma collect_all_notified:
  "t' \<in> set (tr_tasks (fst (collectAttachments now r))) \<Longrightarrow> isTerminalStatus (bt_status t') \<Longrightarrow> bt_notified t'"
  by (auto simp: collectAttachments_def Let_def collect_task_status collect_task_notified)

text \<open>
  A collection reports exactly the tasks that are terminal, not silent and not yet
  reported, in the order of their creation and each with its status, error and the output
  since the last report; after it nothing terminal is unreported.
\<close>

theorem collect_reports:
  "filter (\<lambda>a. ta_type a = TaskStatusNote) (snd (collectAttachments now r))
     = map status_note (filter reportable (tr_tasks r))
   \<and> nextUnreportedTerminal (fst (collectAttachments now r)) = None"
  using collect_all_notified [of _ now r]
  by (auto simp: collect_notes nextUnreportedTerminal_def find_None_iff)

definition created_ids :: "(time \<times> reg_op) list \<Rightarrow> string list" where
  "created_ids evs = List.map_filter (\<lambda>(now, p). case p of RCreate uid ty d \<Rightarrow> Some (''task-'' @ take 8 uid) | _ \<Rightarrow> None) evs"

definition report_inv :: "string set \<Rightarrow> task_registry \<times> task_attachment list \<Rightarrow> bool" where
  "report_inv S s \<longleftrightarrow> tasks_wf (fst s) \<and> bt_id ` set (tr_tasks (fst s)) \<subseteq> S
     \<and> set (status_ids (snd s)) \<subseteq> S \<and> distinct (status_ids (snd s))
     \<and> (\<forall>t \<in> set (tr_tasks (fst s)). bt_id t \<in> set (status_ids (snd s)) \<longrightarrow> bt_notified t)"

lemma evolves_ids: "evolves Q r r' \<Longrightarrow> bt_id ` set (tr_tasks r') \<subseteq> bt_id ` set (tr_tasks r)"
  by (auto simp: evolves_def image_iff) metis

lemma report_step_other:
  assumes I: "report_inv S s" and p: "\<not> is_create p" "\<not> is_watch p" "p \<noteq> RCollect"
  shows "report_inv S (reg_step s (now, p))"
proof -
  let ?r = "fst (reg_exec now p (fst s))"
  have e: "evolves keeps_notified (fst s) ?r" by (rule keeps_notified_exec [OF p(1,2)])
  have "snd (reg_exec now p (fst s)) = []" using p by (cases p) (auto split: sum.splits)
  then have s: "reg_step s (now, p) = (?r, snd s)"
    by (cases "reg_exec now p (fst s)") (simp add: reg_step_def)
  have "bt_notified t'" if "t' \<in> set (tr_tasks ?r)" "bt_id t' \<in> set (status_ids (snd s))" for t'
  proof -
    obtain t where "t \<in> set (tr_tasks (fst s))" "bt_id t = bt_id t'" "keeps_notified t t'"
      using e \<open>t' \<in> _\<close> by (auto simp: evolves_def)
    then show ?thesis using I that(2) by (auto simp: report_inv_def keeps_notified_def)
  qed
  then show ?thesis
    using I exec_wf [of "fst s" now p] subset_trans [OF evolves_ids [OF e], of S]
    unfolding s report_inv_def fst_conv snd_conv by blast
qed

lemma report_step_collect:
  assumes I: "report_inv S s"
  shows "report_inv S (reg_step s (now, RCollect))"
proof -
  obtain r ats where s: "s = (r, ats)" by force
  let ?r = "fst (collectAttachments now r)" and ?ts = "filter reportable (tr_tasks r)"
  have ids: "status_ids (ats @ snd (collectAttachments now r)) = status_ids ats @ map bt_id ?ts"
    by (simp add: status_ids_def collect_notes status_note_def comp_def)
  have new: "set (map bt_id ?ts) \<inter> set (status_ids ats) = {}"
    using I by (auto simp: s report_inv_def reportable_def)
  have dis: "distinct (map bt_id ?ts)" using I by (simp add: s report_inv_def tasks_wf_def distinct_map_filter)
  have sub: "bt_id ` set (tr_tasks ?r) \<subseteq> bt_id ` set (tr_tasks r)" and wf: "tasks_wf ?r"
    using collect_evolves [of keeps_notified r now] evolves_ids [of keeps_notified r ?r] I
    by (auto simp: s report_inv_def)
  have reported: "bt_notified t'"
    if t': "t' \<in> set (tr_tasks ?r)" "bt_id t' \<in> set (status_ids ats @ map bt_id ?ts)" for t'
  proof -
    from t'(1) obtain t where t: "t \<in> set (tr_tasks r)" "t' = fst (collect_task t)"
      by (auto simp: collectAttachments_def Let_def)
    show ?thesis
    proof (cases "bt_id t \<in> set (status_ids ats)")
      case True
      with t I have "bt_notified t" by (auto simp: s report_inv_def)
      with t(2) collect_task_facts(2) [of t] show ?thesis by (simp add: keeps_notified_def)
    next
      case False
      with t t'(2) obtain u where "u \<in> set ?ts" "bt_id u = bt_id t" by (auto simp: collect_task_facts)
      moreover have "u = t" if "u \<in> set (tr_tasks r)" "bt_id u = bt_id t"
        using that t(1) I by (auto simp: s report_inv_def tasks_wf_def distinct_map dest: inj_onD)
      ultimately have "isTerminalStatus (bt_status t)" by (auto simp: reportable_def)
      with t(2) show ?thesis by (simp add: collect_task_notified)
    qed
  qed
  have S: "set (status_ids ats) \<subseteq> S" "distinct (status_ids ats)" "bt_id ` set (tr_tasks r) \<subseteq> S"
    using I by (auto simp: s report_inv_def)
  have mem: "set (map bt_id ?ts) \<subseteq> bt_id ` set (tr_tasks r)" by auto
  have step: "reg_step s (now, RCollect) = (?r, ats @ snd (collectAttachments now r))"
    by (cases "collectAttachments now r") (simp add: s reg_step_def)
  show ?thesis
    unfolding step report_inv_def fst_conv snd_conv ids distinct_append set_append
  proof (intro conjI ballI impI)
    show "bt_id ` set (tr_tasks ?r) \<subseteq> S" using sub S(3) by (rule subset_trans)
    show "set (status_ids ats) \<union> set (map bt_id ?ts) \<subseteq> S" using S mem by blast
    show "bt_notified t" if "t \<in> set (tr_tasks ?r)" "bt_id t \<in> set (status_ids ats) \<union> set (map bt_id ?ts)" for t
      using reported that by simp
  qed (use wf S dis new in auto)
qed

lemma report_step_create:
  assumes I: "report_inv S s" and new: "''task-'' @ take 8 uid \<notin> S"
  shows "report_inv (insert (''task-'' @ take 8 uid) S) (reg_step s (now, RCreate uid ty d))"
proof -
  obtain r ats where s: "s = (r, ats)" by force
  let ?t = "snd (tr_create uid now ty d r)"
  have t: "bt_id ?t = ''task-'' @ take 8 uid" by (simp add: tr_create_def Let_def)
  have r: "tr_tasks (fst (tr_create uid now ty d r)) = tr_tasks (put_task ?t r)"
    by (simp add: tr_create_def Let_def)
  have "tasks_wf (put_task ?t r)" using put_wf I by (simp add: s report_inv_def)
  moreover have "bt_notified u" if "u \<in> set (tr_tasks (put_task ?t r))" "bt_id u \<in> set (status_ids ats)" for u
  proof -
    have "u = ?t \<or> u \<in> set (tr_tasks r)" using that(1) put_ids [of ?t r] by auto
    moreover have "u \<noteq> ?t" using that(2) I new t by (auto simp: s report_inv_def)
    ultimately show ?thesis using that(2) I by (auto simp: s report_inv_def)
  qed
  moreover have "bt_id ` set (tr_tasks (put_task ?t r)) \<subseteq> insert (bt_id ?t) (bt_id ` set (tr_tasks r))"
    using put_ids [of ?t r] by auto
  moreover have "reg_step s (now, RCreate uid ty d) = (fst (tr_create uid now ty d r), ats)"
    by (simp add: s reg_step_def)
  ultimately show ?thesis
    using I unfolding s report_inv_def by (auto simp: r t tasks_wf_def)
qed

lemma status_once:
  assumes "distinct (created_ids evs)" "\<forall>ev \<in> set evs. \<not> is_watch (snd ev)"
  shows "report_inv (set (created_ids evs)) (reg_run listening evs)"
  using assms
proof (induction evs rule: rev_induct)
  case Nil
  then show ?case
    by (simp add: reg_run_def report_inv_def new_registry_def tasks_wf_def status_ids_def)
next
  case (snoc ev evs)
  obtain now p where ev: "ev = (now, p)" by force
  have run: "reg_run listening (evs @ [ev]) = reg_step (reg_run listening evs) (now, p)"
    by (simp add: reg_run_def ev)
  have ids: "created_ids (evs @ [ev]) = created_ids evs @ created_ids [ev]"
    by (simp add: created_ids_def List.map_filter_def)
  have I: "report_inv (set (created_ids evs)) (reg_run listening evs)"
    using snoc ids by simp
  show ?case
  proof (cases "is_create p")
    case True
    then obtain uid ty d where p: "p = RCreate uid ty d" by (cases p) auto
    have c: "created_ids [ev] = [''task-'' @ take 8 uid]"
      by (simp add: created_ids_def ev p List.map_filter_simps)
    show ?thesis using report_step_create [OF I, of uid now ty d] snoc.prems(1) unfolding run ids p
      by (simp add: c)
  next
    case False
    then have c: "created_ids [ev] = []"
      by (cases p) (simp_all add: created_ids_def ev List.map_filter_simps)
    have "\<not> is_watch p" using snoc.prems(2) ev by simp
    then show ?thesis
      using report_step_other [OF I False, of now] report_step_collect [OF I, of now] unfolding run ids c
      by (cases "p = RCollect") auto
  qed
qed

text \<open>
  C25. In every run without \<open>watch\<close> (which asks for a new report) and with fresh task
  identifiers, no task is reported as terminal more than once, even when it is completed,
  failed or killed again afterwards.
\<close>

theorem terminal_reported_once:
  assumes "distinct (created_ids evs)" and "\<forall>ev \<in> set evs. \<not> is_watch (snd ev)"
  shows "distinct (status_ids (snd (reg_run listening evs)))"
  using status_once [OF assms] by (simp add: report_inv_def)

definition sample_run :: "(time \<times> reg_op) list" where
  "sample_run = [(10, RCreate ''aaaaaaaa'' TBash ''tests''), (20, RAppend ''task-aaaaaaaa'' ''ok''),
     (30, RComplete ''task-aaaaaaaa'' (Some 0)), (40, RCollect), (50, RFail ''task-aaaaaaaa'' ''late''),
     (60, RCollect)]"

lemma terminal_reported_once_witness:
  "distinct (status_ids (snd (reg_run True sample_run)))"
  by (rule terminal_reported_once) (simp_all add: sample_run_def created_ids_def List.map_filter_simps)

subsection \<open>Polls give the output back\<close>

text \<open>Chunks written to a task (\<open>Some\<close>) and polls of its output (\<open>None\<close>) at their times.\<close>

fun poll_stream :: "string \<Rightarrow> (time \<times> string option) list \<Rightarrow> task_registry \<Rightarrow> string \<times> task_registry" where
  "poll_stream k [] r = ([], r)"
| "poll_stream k ((now, Some chunk) # es) r = poll_stream k es (appendOutput now k chunk r)"
| "poll_stream k ((now, None) # es) r =
     (case getOutput k False r of
        (r', out) \<Rightarrow>
          (case poll_stream k es r' of
             (str, r'') \<Rightarrow> ((case out of None \<Rightarrow> [] | Some v \<Rightarrow> to_deltaOutput v) @ str, r'')))"

definition written :: "(time \<times> string option) list \<Rightarrow> string" where
  "written es = concat (List.map_filter snd es)"

definition undelivered :: "string \<Rightarrow> task_registry \<Rightarrow> string" where
  "undelivered k r = (case tr_get k r of None \<Rightarrow> [] | Some t \<Rightarrow> drop (bt_outputOffset t) (bt_output t))"

lemma get_alter:
  "tr_get k r = Some t \<Longrightarrow> bt_id (f t) = k \<Longrightarrow> tr_get k (alter_task k f r) = Some (f t)"
proof -
  have "find (\<lambda>t. bt_id t = k) ts = Some t \<Longrightarrow> bt_id (f t) = k \<Longrightarrow>
      find (\<lambda>t. bt_id t = k) (map (\<lambda>t. if bt_id t = k then f t else t) ts) = Some (f t)" for ts
    by (induction ts) (auto split: if_splits)
  then show "tr_get k r = Some t \<Longrightarrow> bt_id (f t) = k \<Longrightarrow> tr_get k (alter_task k f r) = Some (f t)"
    by (simp add: tr_get_def alter_task_def)
qed

lemma get_tasks: "tr_tasks r' = tr_tasks r \<Longrightarrow> tr_get k r' = tr_get k r"
  by (simp add: tr_get_def)

lemma get_append:
  assumes "tr_get k r = Some t"
  shows "tr_get k (appendOutput now k chunk r)
    = Some (t\<lparr>bt_output := bounded_output (bt_output t @ chunk)\<rparr>)"
proof -
  let ?t = "t\<lparr>bt_output := bounded_output (bt_output t @ chunk)\<rparr>"
  have same: "tr_tasks (appendOutput now k chunk r) = tr_tasks (alter_task k (\<lambda>_. ?t) r)"
    using assms by (simp add: appendOutput_def Let_def)
  moreover have "tr_get k (alter_task k (\<lambda>_. ?t) r) = Some ?t"
    using get_alter [OF assms, of "\<lambda>_. ?t"] get_Some [OF assms] by simp
  ultimately show ?thesis by (simp only: get_tasks [OF same])
qed

lemma get_poll:
  assumes "tr_get k r = Some t"
  shows "tr_get k (fst (getOutput k False r)) = Some (t\<lparr>bt_outputOffset := length (bt_output t)\<rparr>)"
proof -
  have "fst (getOutput k False r) = alter_task k (\<lambda>t. t\<lparr>bt_outputOffset := length (bt_output t)\<rparr>) r"
    using assms by (simp add: getOutput_def Let_def)
  moreover have "bt_id (t\<lparr>bt_outputOffset := length (bt_output t)\<rparr>) = k"
    using get_Some [OF assms] by simp
  ultimately show ?thesis using get_alter [OF assms] by simp
qed

lemma written_simps [simp]: "written [] = []" "written ((now, Some c) # es) = c @ written es"
  "written ((now, None) # es) = written es"
  by (simp_all add: written_def List.map_filter_simps)

lemma poll_stream_exact:
  assumes "tr_get k r = Some t" "bt_outputOffset t \<le> length (bt_output t)"
    "length (bt_output t) + length (written es) \<le> max_output_bytes"
  shows "fst (poll_stream k es r) @ undelivered k (snd (poll_stream k es r))
    = undelivered k r @ written es"
  using assms
proof (induction k es r arbitrary: t rule: poll_stream.induct)
  case (2 k now chunk es r)
  let ?t = "t\<lparr>bt_output := bt_output t @ chunk\<rparr>"
  have g: "tr_get k (appendOutput now k chunk r) = Some ?t"
    using get_append [OF 2(2), of now chunk] 2(4) by (simp add: bounded_output_def)
  have "undelivered k (appendOutput now k chunk r) = undelivered k r @ chunk"
    using g 2(2,3) by (simp add: undelivered_def)
  then show ?case using 2(1) [OF g] 2(3,4) by simp
next
  case (3 k now es r)
  obtain r' out where g: "getOutput k False r = (r', out)" by force
  have r': "tr_get k r' = Some (t\<lparr>bt_outputOffset := length (bt_output t)\<rparr>)"
    using get_poll [OF 3(2)] g by simp
  then have u: "undelivered k r' = []" by (simp add: undelivered_def)
  have d: "(case out of None \<Rightarrow> [] | Some v \<Rightarrow> to_deltaOutput v) = undelivered k r"
    using g 3(2) by (auto simp: getOutput_def undelivered_def Let_def)
  obtain str r'' where p: "poll_stream k es r' = (str, r'')" by force
  from 3(1) [OF g [symmetric] r'] 3(4) have "str @ undelivered k r'' = written es"
    by (simp add: p u)
  then show ?case by (simp add: g p d)
qed simp



text \<open>
  Beyond the buffer the offset of the polls is not moved with the trimmed text: after a
  first trim, polled to its end, a further chunk of less than a thousand characters is
  never delivered.
\<close>

lemma show_nat_3: "100 \<le> n \<Longrightarrow> n < 1000 \<Longrightarrow> length (show_nat n) = 3"
proof -
  assume n: "100 \<le> n" "n < 1000"
  then have "\<not> n < 10" "\<not> n div 10 < 10" "n div 10 div 10 < 10" by linarith+
  then show ?thesis
    by (simp only: show_nat.simps [of n] show_nat.simps [of "n div 10"]
        show_nat.simps [of "n div 10 div 10"] if_True if_False length_append list.size)
qed

lemma trimmed_poll_empty:
  assumes "tr_get k r = Some t" "length (bt_output t) = max_output_bytes + 20"
    "bt_outputOffset t = length (bt_output t)" "80 \<le> length chunk" "length chunk < 980"
  shows "undelivered k (appendOutput now k chunk r) = []"
proof -
  have "100 \<le> length chunk + 20" "length chunk + 20 < 1000" using assms(4,5) by simp_all
  from show_nat_3 [OF this]
  have "length (bounded_output (bt_output t @ chunk)) = max_output_bytes + 20"
    using assms(2,4) by (simp add: bounded_output_def line_break_def add.commute)
  then show ?thesis using get_append [OF assms(1), of now chunk] assms(2,3) by (simp add: undelivered_def)
qed

subsection \<open>No waiter misses a terminal state\<close>

fun waiter_ok :: "task_registry \<Rightarrow> wait_kind \<Rightarrow> bool" where
  "waiter_ok r (WaitAny known) \<longleftrightarrow> \<not> list_ex (terminal r) known"
| "waiter_ok r (WaitAll known) \<longleftrightarrow> \<not> allTerminal known r"
| "waiter_ok r WaitNext \<longleftrightarrow> True"

fun result_ok :: "wait_result \<Rightarrow> bool" where
  "result_ok (WTask (Some t)) \<longleftrightarrow> isTerminalStatus (bt_status t)"
| "result_ok _ \<longleftrightarrow> True"

definition waits_inv :: "task_registry \<Rightarrow> bool" where
  "waits_inv r \<longleftrightarrow> tasks_wf r \<and> list_all (\<lambda>(n, w). waiter_ok r w) (tr_waiters r)
     \<and> list_all (\<lambda>(n, v). result_ok v) (tr_resolved r)"

lemma terminal_iff:
  "tasks_wf r \<Longrightarrow> terminal r k \<longleftrightarrow> (\<exists>t \<in> set (tr_tasks r). bt_id t = k \<and> isTerminalStatus (bt_status t))"
proof (cases "tr_get k r")
  case None
  then have "\<not> (\<exists>t \<in> set (tr_tasks r). bt_id t = k)" by (auto simp: tr_get_def find_None_iff)
  with None show ?thesis by (auto simp: terminal_def)
next
  case (Some t)
  assume "tasks_wf r"
  then have "u = t" if "u \<in> set (tr_tasks r)" "bt_id u = k" for u
    using that get_Some [OF Some] by (auto simp: tasks_wf_def distinct_map dest: inj_onD)
  with Some get_Some [OF Some] show ?thesis by (auto simp: terminal_def)
qed

lemma terminal_back:
  "tasks_wf r \<Longrightarrow> tasks_wf r' \<Longrightarrow> evolves was_terminal r r' \<Longrightarrow> terminal r' k \<Longrightarrow> terminal r k"
  by (auto simp: terminal_iff evolves_def was_terminal_def)

lemma waiter_ok_mono: "(\<And>k. terminal r' k \<Longrightarrow> terminal r k) \<Longrightarrow> waiter_ok r w \<Longrightarrow> waiter_ok r' w"
  by (cases w) (auto simp: list_ex_iff allTerminal_def list_all_iff)

lemma waits_back:
  assumes "waits_inv r" "tasks_wf r'" "\<And>k. terminal r' k \<Longrightarrow> terminal r k"
    "tr_waiters r' = tr_waiters r" "tr_resolved r' = tr_resolved r"
  shows "waits_inv r'"
  using assms(1,2,4,5) waiter_ok_mono [of r' r] assms(3)
  unfolding waits_inv_def by (auto simp: list_all_iff)

lemma terminal_tasks: "tr_tasks r' = tr_tasks r \<Longrightarrow> terminal r' k = terminal r k"
  by (simp add: terminal_def tr_get_def)

lemma waiter_ok_tasks: "tr_tasks r' = tr_tasks r \<Longrightarrow> waiter_ok r' w \<longleftrightarrow> waiter_ok r w"
  using terminal_tasks [of r' r] by (cases w) (auto simp: list_ex_iff list_all_iff allTerminal_def)

lemma finish_waits:
  assumes I: "waits_inv r" and u: "u \<in> set (tr_tasks r)" "bt_id t = bt_id u" "isTerminalStatus (bt_status t)"
  shows "waits_inv (finish_task now t st r)"
proof -
  let ?r1 = "alter_task (bt_id t) (\<lambda>_. t) r"
  let ?r2 = "emitTaskEvent now t st ?r1"
  have wf: "tasks_wf r" "tasks_wf ?r1" using I by (auto simp: waits_inv_def intro: alter_wf)
  then have wf2: "tasks_wf ?r2" by (simp add: tasks_wf_def)
  have only_own: "terminal ?r2 k \<Longrightarrow> k = bt_id t \<or> terminal r k" for k
    unfolding terminal_iff [OF wf2] terminal_iff [OF wf(1)] by (auto simp: alter_task_def split: if_splits)
  have ok: "waiter_ok ?r2 w" if w: "waiter_ok r w" "on_terminal t ?r2 w = None" for w
  proof (cases w)
    case (WaitAny known)
    with w only_own show ?thesis by (auto simp: list_ex_iff split: if_splits)
  qed (use w in \<open>auto split: if_splits\<close>)
  have res: "result_ok v" if "on_terminal t ?r2 w = Some v" for v w
    using that u(3) by (cases w) (auto split: if_splits)
  have "list_all (\<lambda>(n, w). waiter_ok ?r2 w) (tr_waiters (finish_task now t st r))"
    using I ok by (auto simp: waits_inv_def finish_task_def notifyTerminalWaiters_def settle_def list_all_iff)
  moreover have "list_all (\<lambda>(n, v). result_ok v) (tr_resolved (finish_task now t st r))"
    using I res by (auto simp: waits_inv_def finish_task_def notifyTerminalWaiters_def settle_def
        list_all_iff List.map_filter_def)
  moreover have same: "tr_tasks (finish_task now t st r) = tr_tasks ?r2"
    by (simp add: finish_task_def notifyTerminalWaiters_def)
  ultimately show ?thesis
    using wf2 by (simp add: waits_inv_def waiter_ok_tasks [OF same] tasks_wf_def)
qed

lemma settle_one_waits:
  assumes I: "waits_inv r" and res: "\<And>w v. f w = Some v \<Longrightarrow> result_ok v"
  shows "waits_inv (settle_one n f r)"
proof -
  have same: "tr_tasks (settle_one n f r) = tr_tasks r" by simp
  have "list_all (\<lambda>(n, v). result_ok v) (tr_resolved (settle_one n f r))"
    using I res by (auto simp: waits_inv_def settle_one_def list_all_iff List.map_filter_def split: if_splits)
  then show ?thesis
    using I by (auto simp: waits_inv_def waiter_ok_tasks [OF same] tasks_wf_def list_all_iff)
      (auto simp: settle_one_def)
qed

lemma poll_result_ok: "poll_result r w = Some v \<Longrightarrow> result_ok v"
  by (cases w) (auto simp: find_Some_iff terminal_def split: option.splits if_splits)

lemma timeout_result_ok: "result_ok (timeout_result r w)"
  by (cases w) auto

lemma add_waiter_waits: "waits_inv r \<Longrightarrow> waiter_ok r w \<Longrightarrow> waits_inv (add_waiter n w r)"
proof -
  have same: "tr_tasks (add_waiter n w r) = tr_tasks r" by simp
  show "waits_inv r \<Longrightarrow> waiter_ok r w \<Longrightarrow> waits_inv (add_waiter n w r)"
    by (simp add: waits_inv_def waiter_ok_tasks [OF same] tasks_wf_def) (simp add: add_waiter_def)
qed

lemma find_terminal: "find (terminal r) ks = None \<Longrightarrow> \<not> list_ex (terminal r) ks"
  by (auto simp: find_None_iff list_ex_iff)

lemma quiet_waits:
  assumes "waits_inv r" "quiet_op p"
  shows "waits_inv (fst (reg_exec now p r))"
  using assms(2)
proof (cases p)
  case (RUnwatch s)
  have "tr_waiters (fst (tr_unwatch s r)) = tr_waiters r" "tr_resolved (fst (tr_unwatch s r)) = tr_resolved r"
    by (simp_all add: tr_unwatch_def Let_def split: option.splits)
  moreover have same: "tr_tasks (fst (tr_unwatch s r)) = tr_tasks r"
    using quiet_tasks [of "RUnwatch s"] by simp
  ultimately show ?thesis
    using RUnwatch assms(1) by (simp add: waits_inv_def waiter_ok_tasks [OF same] tasks_wf_def)
qed (use assms(1) in \<open>auto simp: waitAny_def waitAll_def waitForNextTerminal_def wait_poll_def
    wait_timeout_def Let_def intro!: add_waiter_waits settle_one_waits timeout_result_ok
    dest: find_terminal poll_result_ok split: option.splits\<close>)

lemma exec_waits:
  assumes I: "waits_inv r"
  shows "waits_inv (fst (reg_exec now p r))"
proof -
  note wf = exec_wf [of r now p]
  consider "quiet_op p" | "finishing_op p" | uid ty d where "p = RCreate uid ty d"
    | "\<not> quiet_op p" "\<not> finishing_op p" "\<not> is_create p"
    by (cases p) auto
  then show ?thesis
  proof cases
    case 1
    then show ?thesis using I by (rule quiet_waits [rotated])
  next
    case 2
    then show ?thesis using finishing_cases [OF 2, of r now] finish_waits [OF I] I by (auto simp: finishes_def)
  next
    case 3
    let ?t = "snd (tr_create uid now ty d r)" and ?r = "fst (tr_create uid now ty d r)"
    have t: "bt_status ?t = TRunning" by (simp add: tr_create_def Let_def)
    have r: "tr_tasks ?r = tr_tasks (put_task ?t r)" "tr_waiters ?r = tr_waiters r" "tr_resolved ?r = tr_resolved r"
      by (simp_all add: tr_create_def Let_def put_task_def)
    have wfs: "tasks_wf r" "tasks_wf ?r" using I wf 3 by (auto simp: waits_inv_def)
    have "terminal r k" if "terminal ?r k" for k
      using that put_ids [of ?t r] t unfolding terminal_iff [OF wfs(1)] terminal_iff [OF wfs(2)] r
      by (auto simp: isTerminalStatus_def)
    from waits_back [OF I wfs(2) this r(2,3)] show ?thesis using 3 by simp
  next
    case 4
    let ?r = "fst (reg_exec now p r)"
    have wfs: "tasks_wf r" "tasks_wf ?r" using I wf by (auto simp: waits_inv_def)
    have "tr_waiters ?r = tr_waiters r \<and> tr_resolved ?r = tr_resolved r"
      using 4 append_evolves [of was_terminal] watch_evolves
      by (cases p) (auto simp: monitorLine_def collectAttachments_def getOutput_def Let_def
          split: option.splits simp del: reg_exec.simps(2))
    then show ?thesis
      using waits_back [OF I wfs(2)] terminal_back [OF wfs was_terminal_exec [OF 4(3,2)]] by blast
  qed
qed

text \<open>
  No waiter misses a terminal state: in every reachable registry no pending wait-any has
  a terminal task among its tasks, no pending wait-all has only terminal ones, and every
  wait that resolved with a task resolved with a terminal one.
\<close>

theorem no_waiter_missed:
  "list_all (\<lambda>(n, w). waiter_ok (fst (reg_run listening evs)) w) (tr_waiters (fst (reg_run listening evs)))
   \<and> list_all (\<lambda>(n, v). result_ok v) (tr_resolved (fst (reg_run listening evs)))"
proof -
  have "waits_inv (fst (reg_run listening evs))"
    unfolding reg_run_def
  proof (rule foldl_invariant)
    show "waits_inv (fst (new_registry listening, []))"
      by (simp add: waits_inv_def new_registry_def tasks_wf_def)
    show "waits_inv (fst (reg_step s ev))" if "waits_inv (fst s)" for s ev
      using exec_waits [OF that, of "fst ev" "snd ev"]
      by (cases "reg_exec (fst ev) (snd ev) (fst s)") (simp add: reg_step_def)
  qed
  then show ?thesis by (simp add: waits_inv_def)
qed

text \<open>
  A wait for all tasks cannot end with true any more once one of them was pruned, although
  all of them are finished.
\<close>

lemma wait_all_pruned:
  "k \<in> set known \<Longrightarrow> tr_get k r = None \<Longrightarrow> poll_result r (WaitAll known) = None
     \<and> timeout_result r (WaitAll known) = WBool False"
  by (auto simp: allTerminal_def list_all_iff terminal_def intro!: bexI [of _ k])

end
