(* ===== verification/RepairBackoff.thy ===== *)
theory RepairBackoff
  imports BackoffSpec
begin

text \<open>
  The work queue of runtime repairs, \<open>src/src/daemon/runtime-reconcile-backoff.ts\<close>: one
  state per agent with the key of the desired repair (action and revision), the latch of the
  attempt in flight, the failure back-off and the settling window after a success.  A repair
  that runs is an entry of \<open>rw_running\<close>; it belongs to the environment of the queue.
\<close>

datatype repair_action = RepairStart | RepairRefresh

datatype defer_reason = InFlight | Backoff | Settling

record repair_admission =
  ra_allowed :: bool
  ra_reason :: "defer_reason option"
  ra_retryAfterMs :: int
  ra_failureCount :: nat
  ra_shouldLog :: bool
  ra_replacedAction :: "repair_action option"

record repair_failure =
  rf_action :: repair_action
  rf_failureCount :: nat
  rf_nextRetryAt :: time
  rf_delayMs :: int

record repair_state =
  rs_action :: repair_action
  rs_desiredRevision :: string
  rs_inFlightAction :: "repair_action option"
  rs_inFlightRevision :: "string option"
  rs_failureCount :: nat
  rs_nextRetryAt :: time
  rs_settlingUntil :: time
  rs_inFlightDeferralLogged :: bool
  rs_backoffDeferralLogged :: bool
  rs_settlingDeferralLogged :: bool

record repair_config =
  rc_baseDelayMs :: int
  rc_maxDelayMs :: int
  rc_settleDelayMs :: int

definition default_repair_config :: repair_config where
  "default_repair_config = \<lparr>rc_baseDelayMs = 60000, rc_maxDelayMs = 5 * 60000, rc_settleDelayMs = 2 * 60000\<rparr>"

datatype repair_error = BadBaseDelay | BadMaxDelay | BadSettleDelay

text \<open>The checks of the constructor; an \<open>int\<close> is always finite.\<close>

definition new_repair_backoff :: "int \<Rightarrow> int \<Rightarrow> int \<Rightarrow> repair_error + repair_config" where
  "new_repair_backoff base limit settle =
     (if base \<le> 0 then Inl BadBaseDelay
      else if limit < base then Inl BadMaxDelay
      else if settle < 0 then Inl BadSettleDelay
      else Inr \<lparr>rc_baseDelayMs = base, rc_maxDelayMs = limit, rc_settleDelayMs = settle\<rparr>)"

type_synonym repair_states = "string \<rightharpoonup> repair_state"

text \<open>The state that \<open>tryBegin\<close> works on, and the action that it replaces.\<close>

definition fresh_repair :: "repair_action \<Rightarrow> string \<Rightarrow> repair_state option \<Rightarrow> repair_state" where
  "fresh_repair action rvn old = \<lparr>rs_action = action, rs_desiredRevision = rvn,
     rs_inFlightAction = Option.bind old rs_inFlightAction,
     rs_inFlightRevision = Option.bind old rs_inFlightRevision,
     rs_failureCount = 0, rs_nextRetryAt = 0, rs_settlingUntil = 0,
     rs_inFlightDeferralLogged = False, rs_backoffDeferralLogged = False,
     rs_settlingDeferralLogged = False\<rparr>"

definition same_key :: "repair_action \<Rightarrow> string \<Rightarrow> repair_state \<Rightarrow> bool" where
  "same_key action rvn s \<longleftrightarrow> rs_action s = action \<and> rs_desiredRevision s = rvn"

definition rekey :: "repair_action \<Rightarrow> string \<Rightarrow> repair_state option \<Rightarrow> repair_state \<times> repair_action option" where
  "rekey action rvn old = (case old of
      None \<Rightarrow> (fresh_repair action rvn old, None)
    | Some s \<Rightarrow> if same_key action rvn s then (s, None)
               else (fresh_repair action rvn old, Some (rs_action s)))"

definition deferral :: "defer_reason \<Rightarrow> int \<Rightarrow> bool \<Rightarrow> repair_state \<Rightarrow> repair_action option \<Rightarrow> repair_admission" where
  "deferral reason retry logged s replaced = \<lparr>ra_allowed = False, ra_reason = Some reason,
     ra_retryAfterMs = retry, ra_failureCount = rs_failureCount s, ra_shouldLog = \<not> logged,
     ra_replacedAction = replaced\<rparr>"

definition tryBegin :: "string \<Rightarrow> repair_action \<Rightarrow> string \<Rightarrow> time \<Rightarrow> repair_states \<Rightarrow> repair_states \<times> repair_admission" where
  "tryBegin agentId action rvn now m =
     (case rekey action rvn (m agentId) of (s, replaced) \<Rightarrow>
        if rs_inFlightRevision s \<noteq> None
        then (m(agentId \<mapsto> s\<lparr>rs_inFlightDeferralLogged := True\<rparr>),
              deferral InFlight 0 (rs_inFlightDeferralLogged s) s replaced)
        else if now < rs_settlingUntil s
        then (m(agentId \<mapsto> s\<lparr>rs_settlingDeferralLogged := True\<rparr>),
              deferral Settling (rs_settlingUntil s - now) (rs_settlingDeferralLogged s) s replaced)
        else if now < rs_nextRetryAt s
        then (m(agentId \<mapsto> s\<lparr>rs_backoffDeferralLogged := True\<rparr>),
              deferral Backoff (rs_nextRetryAt s - now) (rs_backoffDeferralLogged s) s replaced)
        else (m(agentId \<mapsto> s\<lparr>rs_inFlightAction := Some action, rs_inFlightRevision := Some rvn,
                 rs_inFlightDeferralLogged := False, rs_settlingDeferralLogged := False\<rparr>),
              \<lparr>ra_allowed = True, ra_reason = None, ra_retryAfterMs = 0,
                ra_failureCount = rs_failureCount s, ra_shouldLog = False,
                ra_replacedAction = replaced\<rparr>))"

definition owns_latch :: "repair_action \<Rightarrow> string \<Rightarrow> repair_state \<Rightarrow> bool" where
  "owns_latch action rvn s \<longleftrightarrow> rs_inFlightAction s = Some action \<and> rs_inFlightRevision s = Some rvn"

definition repair_delay :: "repair_config \<Rightarrow> nat \<Rightarrow> int" where
  "repair_delay cfg n = exp_delay (rc_baseDelayMs cfg) (rc_maxDelayMs cfg) (n - 1)"

definition markFailed :: "repair_config \<Rightarrow> string \<Rightarrow> repair_action \<Rightarrow> string \<Rightarrow> time \<Rightarrow> repair_states \<Rightarrow>
    repair_states \<times> repair_failure option" where
  "markFailed cfg agentId action rvn now m = (case m agentId of
      None \<Rightarrow> (m, None)
    | Some s \<Rightarrow>
        if \<not> owns_latch action rvn s then (m, None)
        else let s = s\<lparr>rs_inFlightAction := None, rs_inFlightRevision := None, rs_settlingUntil := 0\<rparr> in
          if \<not> same_key action rvn s
          then (m(agentId \<mapsto> s\<lparr>rs_inFlightDeferralLogged := False\<rparr>), None)
          else let n = rs_failureCount s + 1;
                   delayMs = repair_delay cfg n in
            (m(agentId \<mapsto> s\<lparr>rs_failureCount := n, rs_nextRetryAt := now + delayMs,
                 rs_backoffDeferralLogged := False\<rparr>),
             Some \<lparr>rf_action = action, rf_failureCount = n, rf_nextRetryAt = now + delayMs,
               rf_delayMs = delayMs\<rparr>))"

definition markSucceeded :: "repair_config \<Rightarrow> string \<Rightarrow> repair_action \<Rightarrow> string \<Rightarrow> time \<Rightarrow> repair_states \<Rightarrow>
    repair_states \<times> bool" where
  "markSucceeded cfg agentId action rvn now m = (case m agentId of
      None \<Rightarrow> (m, False)
    | Some s \<Rightarrow>
        if \<not> owns_latch action rvn s then (m, False)
        else let s = s\<lparr>rs_inFlightAction := None, rs_inFlightRevision := None\<rparr> in
          if \<not> same_key action rvn s
          then (m(agentId \<mapsto> s\<lparr>rs_inFlightDeferralLogged := False\<rparr>), False)
          else (m(agentId \<mapsto> s\<lparr>rs_failureCount := 0, rs_nextRetryAt := 0,
                  rs_settlingUntil := now + rc_settleDelayMs cfg, rs_backoffDeferralLogged := False,
                  rs_settlingDeferralLogged := False\<rparr>), True))"

definition clear_repair :: "string \<Rightarrow> repair_states \<Rightarrow> repair_states \<times> repair_action option" where
  "clear_repair agentId m = (case m agentId of
      None \<Rightarrow> (m, None) | Some s \<Rightarrow> (m(agentId := None), Some (rs_action s)))"

text \<open>The delays of a valid configuration form a back-off schedule.\<close>

lemma repair_schedule:
  assumes "new_repair_backoff base limit settle = Inr cfg"
  shows "backoff_schedule (repair_delay cfg) (rc_maxDelayMs cfg)"
proof -
  have c: "0 \<le> rc_baseDelayMs cfg" "0 \<le> rc_maxDelayMs cfg"
    using assms by (auto simp: new_repair_backoff_def split: if_splits)
  note s = exp_delay_schedule [OF c]
  show ?thesis
  proof
    show "repair_delay cfg n \<le> repair_delay cfg (Suc n)" for n
      unfolding repair_delay_def by (rule backoff_schedule.delay_mono [OF s]) simp
  qed (simp_all add: repair_delay_def backoff_schedule.delay_nonneg [OF s] backoff_schedule.delay_cap [OF s])
qed

interpretation repair_backoff: backoff_schedule "repair_delay default_repair_config" "5 * 60000"
  using repair_schedule [of 60000 "5 * 60000" "2 * 60000" default_repair_config]
  by (simp add: new_repair_backoff_def default_repair_config_def)

subsection \<open>One repair at a time\<close>

text \<open>
  The queue and the repairs that run: a begin that is admitted starts one, and only a
  repair that runs reports its end.
\<close>

record repair_world =
  rw_states :: repair_states
  rw_running :: "(string \<times> repair_action \<times> string) list"

inductive repair_step :: "repair_config \<Rightarrow> repair_world \<Rightarrow> repair_world \<Rightarrow> bool" for cfg where
  admit: "tryBegin a act rvn now (rw_states w) = (m, adm) \<Longrightarrow> ra_allowed adm \<Longrightarrow>
     repair_step cfg w \<lparr>rw_states = m, rw_running = (a, act, rvn) # rw_running w\<rparr>"
| deny: "tryBegin a act rvn now (rw_states w) = (m, adm) \<Longrightarrow> \<not> ra_allowed adm \<Longrightarrow>
     repair_step cfg w (w\<lparr>rw_states := m\<rparr>)"
| fails: "(a, act, rvn) \<in> set (rw_running w) \<Longrightarrow>
     repair_step cfg w \<lparr>rw_states = fst (markFailed cfg a act rvn now (rw_states w)),
       rw_running = remove1 (a, act, rvn) (rw_running w)\<rparr>"
| succeeds: "(a, act, rvn) \<in> set (rw_running w) \<Longrightarrow>
     repair_step cfg w \<lparr>rw_states = fst (markSucceeded cfg a act rvn now (rw_states w)),
       rw_running = remove1 (a, act, rvn) (rw_running w)\<rparr>"

inductive_cases repair_stepE: "repair_step cfg w w'"

definition idle_world :: repair_world where
  "idle_world = \<lparr>rw_states = Map.empty, rw_running = []\<rparr>"

definition running_of :: "string \<Rightarrow> repair_world \<Rightarrow> (repair_action \<times> string) list" where
  "running_of a w = map snd (filter (\<lambda>x. fst x = a) (rw_running w))"

text \<open>The latch of a state: both fields or none, and the repair that they name.\<close>

definition coherent :: "repair_state option \<Rightarrow> bool" where
  "coherent s \<longleftrightarrow> (Option.bind s rs_inFlightAction = None \<longleftrightarrow> Option.bind s rs_inFlightRevision = None)"

fun latch_pair :: "repair_action option \<Rightarrow> string option \<Rightarrow> (repair_action \<times> string) list" where
  "latch_pair (Some act) (Some rvn) = [(act, rvn)]"
| "latch_pair _ _ = []"

definition latch :: "repair_state option \<Rightarrow> (repair_action \<times> string) list" where
  "latch s = latch_pair (Option.bind s rs_inFlightAction) (Option.bind s rs_inFlightRevision)"

lemma latch_pair_None [simp]: "latch_pair x None = []"
  by (cases x) simp_all

lemma latch_Some: "latch (Some s) = latch_pair (rs_inFlightAction s) (rs_inFlightRevision s)"
  "coherent (Some s) \<longleftrightarrow> (rs_inFlightAction s = None \<longleftrightarrow> rs_inFlightRevision s = None)"
  by (simp_all add: latch_def coherent_def)

definition latched :: "repair_world \<Rightarrow> bool" where
  "latched w \<longleftrightarrow> (\<forall>a. running_of a w = latch (rw_states w a) \<and> coherent (rw_states w a))"

lemma rekey_latch:
  "rekey act rvn old = (s, replaced) \<Longrightarrow>
     rs_inFlightAction s = Option.bind old rs_inFlightAction
   \<and> rs_inFlightRevision s = Option.bind old rs_inFlightRevision"
  by (auto simp: rekey_def fresh_repair_def split: option.splits if_splits)

lemma tryBegin_other: "b \<noteq> a \<Longrightarrow> fst (tryBegin a act rvn now m) b = m b"
  by (auto simp: tryBegin_def split: prod.splits)

lemma tryBegin_admits:
  assumes "tryBegin a act rvn now m = (m', adm)" "ra_allowed adm" "coherent (m a)"
  shows "latch (m a) = [] \<and> latch (m' a) = [(act, rvn)] \<and> coherent (m' a)"
proof -
  obtain s replaced where r: "rekey act rvn (m a) = (s, replaced)" by force
  note k = rekey_latch [OF r]
  have "rs_inFlightRevision s = None" "\<exists>u. m' a = Some u \<and> rs_inFlightAction u = Some act \<and> rs_inFlightRevision u = Some rvn"
    using assms(1,2) by (auto simp: tryBegin_def r deferral_def split: if_splits)
  with k show ?thesis by (auto simp: latch_Some) (simp add: latch_def)
qed

lemma tryBegin_denies:
  assumes "tryBegin a act rvn now m = (m', adm)" "\<not> ra_allowed adm"
  shows "latch (m' a) = latch (m a) \<and> coherent (m' a) = coherent (m a)"
proof -
  obtain s replaced where r: "rekey act rvn (m a) = (s, replaced)" by force
  note k = rekey_latch [OF r]
  have "\<exists>u. m' a = Some u \<and> rs_inFlightAction u = rs_inFlightAction s \<and> rs_inFlightRevision u = rs_inFlightRevision s"
    using assms by (auto simp: tryBegin_def r deferral_def split: if_splits)
  with k show ?thesis by (auto simp: latch_Some latch_def coherent_def)
qed

lemma latch_pair_set: "x \<in> set (latch_pair p q) \<longleftrightarrow> p = Some (fst x) \<and> q = Some (snd x)"
  by (cases p; cases q) auto

lemma latch_owner: "(act, rvn) \<in> set (latch s) \<longleftrightarrow> (\<exists>u. s = Some u \<and> owns_latch act rvn u)"
  by (cases s) (auto simp: latch_Some latch_pair_set owns_latch_def latch_def)

lemma completion_latch:
  assumes "m' = fst (markFailed cfg a act rvn now m) \<or> m' = fst (markSucceeded cfg a act rvn now m)"
    and "(act, rvn) \<in> set (latch (m a))"
  shows "(\<forall>b. b \<noteq> a \<longrightarrow> m' b = m b) \<and> latch (m' a) = [] \<and> coherent (m' a)"
  using assms
  by (auto simp: markFailed_def markSucceeded_def Let_def latch_Some latch_owner)

lemma latch_le: "length (latch s) \<le> 1" "x \<in> set (latch s) \<Longrightarrow> latch s = [x]"
  unfolding latch_def by (cases "Option.bind s rs_inFlightAction"; cases "Option.bind s rs_inFlightRevision"; simp)+

lemma latched_completion:
  assumes L: "latched w" and run: "(a, act, rvn) \<in> set (rw_running w)"
    and m: "m' = fst (markFailed cfg a act rvn now (rw_states w))
      \<or> m' = fst (markSucceeded cfg a act rvn now (rw_states w))"
  shows "latched \<lparr>rw_states = m', rw_running = remove1 (a, act, rvn) (rw_running w)\<rparr>"
proof -
  let ?w = "\<lparr>rw_states = m', rw_running = remove1 (a, act, rvn) (rw_running w)\<rparr>"
  have "(act, rvn) \<in> set (running_of a w)" using run by (force simp: running_of_def)
  then have l: "(act, rvn) \<in> set (latch (rw_states w a))" using L by (simp add: latched_def)
  note c = completion_latch [OF m l]
  have "filter (\<lambda>x. fst x = a) (rw_running w) = [(a, act, rvn)]"
  proof -
    have one: "map snd (filter (\<lambda>x. fst x = a) (rw_running w)) = [(act, rvn)]"
      using L latch_le(2) [OF l] by (simp add: latched_def running_of_def)
    then obtain x where "filter (\<lambda>x. fst x = a) (rw_running w) = [x]" "snd x = (act, rvn)" by auto
    moreover from this have "fst x = a" by (metis (mono_tags) filter_eq_ConsD)
    ultimately show ?thesis by (cases x) simp
  qed
  then have own: "running_of a ?w = []" by (simp add: running_of_def filter_remove1)
  have other: "running_of b ?w = running_of b w" if "b \<noteq> a" for b
    using that by (simp add: running_of_def filter_remove1 remove1_idem)
  show ?thesis
    unfolding latched_def
  proof
    fix b
    show "running_of b ?w = latch (rw_states ?w b) \<and> coherent (rw_states ?w b)"
      using own other [of b] c L by (cases "b = a") (simp_all add: latched_def)
  qed
qed

lemma latched_begin:
  assumes L: "latched w" and b: "tryBegin a act rvn now (rw_states w) = (m, adm)"
  shows "latched \<lparr>rw_states = m,
    rw_running = (if ra_allowed adm then (a, act, rvn) # rw_running w else rw_running w)\<rparr>"
    (is "latched ?w")
  unfolding latched_def
proof
  fix c
  have Lc: "running_of c w = latch (rw_states w c)" "coherent (rw_states w c)"
    using L by (simp_all add: latched_def)
  show "running_of c ?w = latch (rw_states ?w c) \<and> coherent (rw_states ?w c)"
  proof (cases "c = a")
    case False
    then have "m c = rw_states w c" using tryBegin_other [OF False, of act rvn now "rw_states w"] b by simp
    with False Lc show ?thesis by (simp add: running_of_def)
  next
    case True
    with Lc b show ?thesis
      using tryBegin_admits [OF b] tryBegin_denies [OF b]
      by (cases "ra_allowed adm") (auto simp: running_of_def)
  qed
qed

lemma repair_step_latched: "repair_step cfg w w' \<Longrightarrow> latched w \<Longrightarrow> latched w'"
proof (induction rule: repair_step.induct)
  case (admit a act rvn now w m adm)
  from latched_begin [OF admit(3,1)] admit(2) show ?case by simp
next
  case (deny a act rvn now w m adm)
  from latched_begin [OF deny(3,1)] deny(2) show ?case by (cases w) simp
qed (auto intro: latched_completion)

text \<open>
  C30. Repairs of an agent never overlap: in every reachable state of the queue, whatever
  actions, revisions and clock readings are asked for and in whatever order repairs end, at
  most one repair per agent runs, and it is the one that the latch names.
\<close>

theorem repairs_serialized:
  assumes "(repair_step cfg)\<^sup>*\<^sup>* idle_world w"
  shows "length (running_of a w) \<le> 1 \<and> running_of a w = latch (rw_states w a)"
proof -
  from assms have "latched w"
  proof (induction rule: rtranclp_induct)
    case base
    show ?case by (simp add: latched_def running_of_def latch_def coherent_def idle_world_def)
  qed (rule repair_step_latched)
  then have "running_of a w = latch (rw_states w a)" by (simp add: latched_def)
  then show ?thesis using latch_le(1) [of "rw_states w a"] by simp
qed

lemma repairs_serialized_witness:
  "\<exists>w. running_of ''a'' w = [(RepairStart, ''r1'')] \<and> length (running_of ''a'' w) \<le> 1"
proof -
  let ?b = "tryBegin ''a'' RepairStart ''r1'' 5 (rw_states idle_world)"
  let ?w = "\<lparr>rw_states = fst ?b, rw_running = (''a'', RepairStart, ''r1'') # rw_running idle_world\<rparr>"
  have "ra_allowed (snd ?b)"
    by (simp add: tryBegin_def idle_world_def rekey_def fresh_repair_def)
  then have "repair_step default_repair_config idle_world ?w"
    by (intro repair_step.admit [where adm = "snd ?b"]) simp_all
  then have "(repair_step default_repair_config)\<^sup>*\<^sup>* idle_world ?w" by (rule r_into_rtranclp)
  note s = repairs_serialized [OF this, of "''a''"]
  have "running_of ''a'' ?w = [(RepairStart, ''r1'')]" by (simp add: running_of_def idle_world_def)
  with s show ?thesis by blast
qed

text \<open>
  \<open>clear\<close> is no step of this relation: it forgets the latch, and a second repair is
  admitted while the first one runs.
\<close>

lemma clear_overlaps:
  "0 \<le> now \<Longrightarrow> ra_allowed (snd (tryBegin a act rvn now (fst (clear_repair a m))))"
  by (auto simp: clear_repair_def tryBegin_def rekey_def fresh_repair_def deferral_def split: option.splits)

subsection \<open>Back-off\<close>

lemma failed_state:
  assumes "markFailed cfg a act rvn now m = (m', Some f)"
  shows "\<exists>s. m' a = Some s \<and> same_key act rvn s \<and> rs_inFlightAction s = None
    \<and> rs_inFlightRevision s = None \<and> rs_settlingUntil s = 0 \<and> rs_nextRetryAt s = rf_nextRetryAt f
    \<and> rs_failureCount s = rf_failureCount f \<and> \<not> rs_backoffDeferralLogged s
    \<and> rf_nextRetryAt f = now + repair_delay cfg (rf_failureCount f) \<and> 0 < rf_failureCount f"
  using assms
  by (auto simp: markFailed_def Let_def same_key_def split: option.splits if_splits)

text \<open>
  A failed repair backs off: its delay is the capped exponential of the number of
  failures in a row, until it has passed the same repair is refused with the time that is
  left, afterwards it is admitted, and a repair with another action or revision does not
  wait for it.
\<close>

theorem failure_backs_off:
  assumes "markFailed cfg a act rvn now m = (m', Some f)" and "0 \<le> later"
  shows "rf_nextRetryAt f = now + min (rc_maxDelayMs cfg) (rc_baseDelayMs cfg * 2 ^ (rf_failureCount f - 1))
    \<and> ra_allowed (snd (tryBegin a act rvn later m')) = (rf_nextRetryAt f \<le> later)
    \<and> (later < rf_nextRetryAt f \<longrightarrow>
         ra_reason (snd (tryBegin a act rvn later m')) = Some Backoff
         \<and> ra_retryAfterMs (snd (tryBegin a act rvn later m')) = rf_nextRetryAt f - later)
    \<and> ((act', rvn') \<noteq> (act, rvn) \<longrightarrow> ra_allowed (snd (tryBegin a act' rvn' later m')))"
proof -
  obtain s where s: "m' a = Some s" "same_key act rvn s" "rs_inFlightAction s = None"
    "rs_inFlightRevision s = None" "rs_settlingUntil s = 0" "rs_nextRetryAt s = rf_nextRetryAt f"
    "rf_nextRetryAt f = now + repair_delay cfg (rf_failureCount f)"
    using failed_state [OF assms(1)] by blast
  have same: "rekey act rvn (m' a) = (s, None)" using s(1,2) by (simp add: rekey_def)
  have other: "fst (rekey act' rvn' (m' a)) = fresh_repair act' rvn' (Some s)"
    if "(act', rvn') \<noteq> (act, rvn)"
    using s(1,2) that by (auto simp: rekey_def same_key_def)
  have "ra_allowed (snd (tryBegin a act' rvn' later m'))" if "(act', rvn') \<noteq> (act, rvn)"
    using other [OF that] assms(2) s(4)
    by (cases "rekey act' rvn' (m' a)") (simp add: tryBegin_def fresh_repair_def)
  then show ?thesis
    using s(4-7) assms(2) by (auto simp: tryBegin_def same deferral_def repair_delay_def exp_delay_def)
qed

definition failed_once :: "repair_states \<times> repair_failure option" where
  "failed_once = markFailed default_repair_config ''a'' RepairStart ''r1'' 1000
     (fst (tryBegin ''a'' RepairStart ''r1'' 5 Map.empty))"

lemma failure_backs_off_witness:
  "ra_retryAfterMs (snd (tryBegin ''a'' RepairStart ''r1'' 2000 (fst failed_once))) = 59000
   \<and> ra_allowed (snd (tryBegin ''a'' RepairRefresh ''r1'' 2000 (fst failed_once)))"
proof -
  have f: "snd failed_once = Some \<lparr>rf_action = RepairStart, rf_failureCount = 1,
      rf_nextRetryAt = 61000, rf_delayMs = 60000\<rparr>"
    by (simp add: failed_once_def markFailed_def tryBegin_def rekey_def fresh_repair_def owns_latch_def
        same_key_def Let_def repair_delay_def exp_delay_def default_repair_config_def)
  then have "failed_once = (fst failed_once, Some \<lparr>rf_action = RepairStart, rf_failureCount = 1,
      rf_nextRetryAt = 61000, rf_delayMs = 60000\<rparr>)" by (metis prod.collapse)
  from failure_backs_off [OF this [unfolded failed_once_def], of 2000 RepairRefresh "''r1''"]
  show ?thesis by (simp add: failed_once_def)
qed

end
