(* ===== verification/RollDeferral.thy ===== *)
theory RollDeferral
  imports Prelude "HOL-Library.AList"
begin

text \<open>
  The deferrals of runtime rolls, \<open>src/src/daemon/runtime-roll-deferral.ts\<close>, with the metric
  sink that the daemon gives to the tracker, the two functions of
  \<open>src/src/metrics/daemon.ts\<close>: a gauge with one series per agent, reason and protocol, and the
  labels last used for an agent.  The sink is composed with the tracker, and the gauge is
  shown to be a function of the records.
\<close>

datatype deferral_reason = BridgeBusy | ProbeFailed

datatype deferral_protocol = DrainV1 | DrainV2 | LegacyHealth | UnknownProtocol

record roll_deferral =
  df_since :: time
  df_agent :: string
  df_reason :: deferral_reason
  df_protocol :: deferral_protocol
  df_alerted :: bool

subsection \<open>The metric sink\<close>

type_synonym series = "string \<times> deferral_reason \<times> deferral_protocol"

text \<open>The gauge holds seconds in the source; here it holds the milliseconds it is computed from.\<close>

record metric_sink =
  ms_gauge :: "series \<rightharpoonup> time"
  ms_labels :: "string \<rightharpoonup> deferral_reason \<times> deferral_protocol"

definition sink_set :: "string \<Rightarrow> deferral_reason \<Rightarrow> deferral_protocol \<Rightarrow> time \<Rightarrow> metric_sink \<Rightarrow> metric_sink" where
  "sink_set agent reason protocol sinceMs m =
     (let g = (case ms_labels m agent of
                 None \<Rightarrow> ms_gauge m
               | Some (r, p) \<Rightarrow> if r \<noteq> reason \<or> p \<noteq> protocol then (ms_gauge m)((agent, r, p) := None)
                               else ms_gauge m)
      in \<lparr>ms_gauge = g((agent, reason, protocol) \<mapsto> sinceMs),
          ms_labels = (ms_labels m)(agent \<mapsto> (reason, protocol))\<rparr>)"

definition sink_clear :: "string \<Rightarrow> metric_sink \<Rightarrow> metric_sink" where
  "sink_clear agent m = (case ms_labels m agent of
      None \<Rightarrow> m
    | Some (r, p) \<Rightarrow> \<lparr>ms_gauge = (ms_gauge m)((agent, r, p) := None),
                     ms_labels = (ms_labels m)(agent := None)\<rparr>)"

definition empty_sink :: metric_sink where
  "empty_sink = \<lparr>ms_gauge = Map.empty, ms_labels = Map.empty\<rparr>"

subsection \<open>The tracker\<close>

record tracker =
  tk_records :: "(string \<times> roll_deferral) list"
  tk_metrics :: metric_sink

definition new_tracker :: tracker where
  "new_tracker = \<lparr>tk_records = [], tk_metrics = empty_sink\<rparr>"

text \<open>\<open>metrics.set\<close> with the fields of a record.\<close>

definition publish :: "roll_deferral \<Rightarrow> metric_sink \<Rightarrow> metric_sink" where
  "publish d m = sink_set (df_agent d) (df_reason d) (df_protocol d) (df_since d) m"

definition tk_restore :: "(string \<times> roll_deferral) list \<Rightarrow> tracker \<Rightarrow> tracker" where
  "tk_restore snap t =
     (let cleared = foldl (\<lambda>m (k, d). sink_clear (df_agent d) m) (tk_metrics t) (tk_records t) in
      foldl (\<lambda>t (k, d). \<lparr>tk_records = AList.update k d (tk_records t),
                          tk_metrics = publish d (tk_metrics t)\<rparr>)
        \<lparr>tk_records = [], tk_metrics = cleared\<rparr> snap)"

definition tk_snapshot :: "tracker \<Rightarrow> (string \<times> roll_deferral) list" where
  "tk_snapshot t = tk_records t"

datatype roll_end = Admitted | Converged | Stopped | Ineligible

datatype roll_pass =
    Deferred string string time deferral_reason "deferral_protocol option"
  | Ended roll_end string string

record pass_result =
  pr_allowRoll :: bool
  pr_changed :: bool
  pr_elapsedMs :: int
  pr_shouldLogAlert :: bool

definition deferred_record :: "string \<Rightarrow> time \<Rightarrow> deferral_reason \<Rightarrow> deferral_protocol \<Rightarrow> roll_deferral option \<Rightarrow> roll_deferral" where
  "deferred_record agent now reason protocol old = (case old of
      Some d \<Rightarrow> d\<lparr>df_agent := agent, df_reason := reason, df_protocol := protocol\<rparr>
    | None \<Rightarrow> \<lparr>df_since = now, df_agent = agent, df_reason = reason, df_protocol = protocol,
              df_alerted = False\<rparr>)"

fun reconcilePass :: "int \<Rightarrow> roll_pass \<Rightarrow> tracker \<Rightarrow> tracker \<times> pass_result" where
  "reconcilePass alertAfterMs (Ended kind key agent) t =
     (case map_of (tk_records t) key of
        Some d \<Rightarrow>
          (\<lparr>tk_records = AList.delete key (tk_records t),
             tk_metrics = sink_clear (df_agent d) (tk_metrics t)\<rparr>,
           \<lparr>pr_allowRoll = True, pr_changed = True, pr_elapsedMs = 0, pr_shouldLogAlert = False\<rparr>)
      | None \<Rightarrow>
          (t\<lparr>tk_metrics := sink_clear agent (tk_metrics t)\<rparr>,
           \<lparr>pr_allowRoll = True, pr_changed = False, pr_elapsedMs = 0, pr_shouldLogAlert = False\<rparr>))"
| "reconcilePass alertAfterMs (Deferred key agent now reason protocol) t =
     (let existing = map_of (tk_records t) key;
          p = (case protocol of None \<Rightarrow> UnknownProtocol | Some p \<Rightarrow> p);
          d0 = deferred_record agent now reason p existing;
          elapsedMs = max 0 (now - df_since d0);
          alert = (0 < alertAfterMs \<and> alertAfterMs \<le> elapsedMs \<and> \<not> df_alerted d0);
          d = (if alert then d0\<lparr>df_alerted := True\<rparr> else d0)
      in (\<lparr>tk_records = AList.update key d (tk_records t), tk_metrics = publish d (tk_metrics t)\<rparr>,
          \<lparr>pr_allowRoll = False,
            pr_changed = (case existing of
               None \<Rightarrow> True
             | Some e \<Rightarrow> df_agent e \<noteq> df_agent d \<or> df_reason e \<noteq> df_reason d
                 \<or> df_protocol e \<noteq> df_protocol d \<or> df_alerted e \<noteq> df_alerted d),
            pr_elapsedMs = elapsedMs, pr_shouldLogAlert = alert\<rparr>))"

definition tk_prune :: "string list \<Rightarrow> tracker \<Rightarrow> tracker \<times> bool" where
  "tk_prune active t =
     (let gone = filter (\<lambda>(k, d). k \<notin> set active) (tk_records t) in
      (\<lparr>tk_records = filter (\<lambda>(k, d). k \<in> set active) (tk_records t),
         tk_metrics = foldl (\<lambda>m (k, d). sink_clear (df_agent d) m) (tk_metrics t) gone\<rparr>,
       gone \<noteq> []))"

subsection \<open>The gauge is a function of the records\<close>

text \<open>
  What the sink should hold: one series for each record.  It needs an agent to have at most
  one record, which the callers keep: a key is an agent and the desired image, and the keys
  of other images are pruned.
\<close>

type_synonym agent_series = "string \<rightharpoonup> roll_deferral"

definition by_agent :: "(string \<times> roll_deferral) list \<Rightarrow> agent_series" where
  "by_agent rs = map_of (map (\<lambda>(k, d). (df_agent d, d)) rs)"

definition series_of :: "agent_series \<Rightarrow> series \<rightharpoonup> time" where
  "series_of b = (\<lambda>(agent, reason, protocol). case b agent of
      None \<Rightarrow> None
    | Some d \<Rightarrow> if df_reason d = reason \<and> df_protocol d = protocol then Some (df_since d) else None)"

definition sink_of :: "agent_series \<Rightarrow> metric_sink" where
  "sink_of b = \<lparr>ms_gauge = series_of b,
     ms_labels = (\<lambda>agent. map_option (\<lambda>d. (df_reason d, df_protocol d)) (b agent))\<rparr>"

definition one_each :: "(string \<times> roll_deferral) list \<Rightarrow> bool" where
  "one_each rs \<longleftrightarrow> distinct (map fst rs) \<and> distinct (map (df_agent \<circ> snd) rs)"

definition tracked :: "tracker \<Rightarrow> bool" where
  "tracked t \<longleftrightarrow> one_each (tk_records t) \<and> tk_metrics t = sink_of (by_agent (tk_records t))"

text \<open>The agent of a pass has no record under another key, and its record has its name.\<close>

definition pass_ok :: "string \<Rightarrow> string \<Rightarrow> tracker \<Rightarrow> bool" where
  "pass_ok key agent t \<longleftrightarrow> (\<forall>(k, d) \<in> set (tk_records t). k = key \<longleftrightarrow> df_agent d = agent)"

inductive roll_reach :: "int \<Rightarrow> tracker \<Rightarrow> bool" for alertAfterMs where
  start: "one_each snap \<Longrightarrow> roll_reach alertAfterMs (tk_restore snap new_tracker)"
| deferred: "roll_reach alertAfterMs t \<Longrightarrow> pass_ok key agent t \<Longrightarrow>
    roll_reach alertAfterMs (fst (reconcilePass alertAfterMs (Deferred key agent now reason protocol) t))"
| ended: "roll_reach alertAfterMs t \<Longrightarrow> pass_ok key agent t \<Longrightarrow>
    roll_reach alertAfterMs (fst (reconcilePass alertAfterMs (Ended kind key agent) t))"
| pruned: "roll_reach alertAfterMs t \<Longrightarrow> roll_reach alertAfterMs (fst (tk_prune active t))"

lemma publish_sink: "publish d (sink_of b) = sink_of (b(df_agent d \<mapsto> d))"
  by (auto simp: publish_def sink_set_def sink_of_def series_of_def fun_eq_iff split: option.splits)

lemma clear_sink: "sink_clear agent (sink_of b) = sink_of (b(agent := None))"
  by (auto simp: sink_clear_def sink_of_def series_of_def fun_eq_iff split: option.splits)

lemma clear_sinks: "foldl (\<lambda>m (k, d). sink_clear (df_agent d) m) (sink_of b) rs
    = sink_of (\<lambda>a. if a \<in> (df_agent \<circ> snd) ` set rs then None else b a)"
proof (induction rs arbitrary: b)
  case (Cons x rs)
  obtain k d where x: "x = (k, d)" by force
  have "(\<lambda>a. if a \<in> (df_agent \<circ> snd) ` set rs then None else (b(df_agent d := None)) a)
      = (\<lambda>a. if a \<in> (df_agent \<circ> snd) ` set (x # rs) then None else b a)"
    by (auto simp: x)
  then show ?case by (simp add: x clear_sink Cons.IH)
qed simp

lemma empty_sink: "empty_sink = sink_of Map.empty"
  by (auto simp: empty_sink_def sink_of_def series_of_def fun_eq_iff)

lemma by_agent_Some:
  assumes "one_each rs"
  shows "by_agent rs a = Some d \<longleftrightarrow> (\<exists>k. (k, d) \<in> set rs) \<and> df_agent d = a"
proof -
  have "distinct (map fst (map (\<lambda>(k, d). (df_agent d, d)) rs))"
    using assms by (simp add: one_each_def comp_def case_prod_unfold)
  from map_of_eq_Some_iff [OF this] show ?thesis by (auto simp: by_agent_def)
qed

lemma by_agent_eqI: "(\<And>a d. f a = Some d \<longleftrightarrow> g a = Some d) \<Longrightarrow> f = g"
  by (metis ext option.exhaust)

lemma one_each_filter: "one_each rs \<Longrightarrow> one_each (filter P rs)"
  by (simp add: one_each_def distinct_map_filter)

lemma one_each_inj:
  assumes "one_each rs" "(k, d) \<in> set rs" "(k', d') \<in> set rs"
  shows "k = k' \<longleftrightarrow> d = d'" "df_agent d = df_agent d' \<longleftrightarrow> d = d'"
proof -
  have i: "inj_on fst (set rs)" "inj_on (df_agent \<circ> snd) (set rs)"
    using assms(1) by (simp_all add: one_each_def distinct_map)
  have "df_agent d = df_agent d' \<Longrightarrow> (k, d) = (k', d')" "k = k' \<Longrightarrow> (k, d) = (k', d')"
    using inj_onD [OF i(2), of "(k, d)" "(k', d')"] inj_onD [OF i(1), of "(k, d)" "(k', d')"] assms(2,3)
    by simp_all
  then show "k = k' \<longleftrightarrow> d = d'" "df_agent d = df_agent d' \<longleftrightarrow> d = d'" by blast+
qed

lemma delete_filter: "AList.delete k rs = filter (\<lambda>x. fst x \<noteq> k) rs"
  by (induction rs) auto

lemma by_agent_filter:
  assumes "one_each rs"
  shows "by_agent (filter P rs)
     = (\<lambda>a. if a \<in> (df_agent \<circ> snd) ` set (filter (\<lambda>x. \<not> P x) rs) then None else by_agent rs a)"
proof (rule by_agent_eqI)
  fix a d
  show "by_agent (filter P rs) a = Some d \<longleftrightarrow>
      (if a \<in> (df_agent \<circ> snd) ` set (filter (\<lambda>x. \<not> P x) rs) then None else by_agent rs a) = Some d"
  proof (cases "\<exists>k. (k, d) \<in> set rs \<and> df_agent d = a")
    case True
    then obtain k where k: "(k, d) \<in> set rs" "df_agent d = a" by blast
    have "a \<in> (df_agent \<circ> snd) ` set (filter (\<lambda>x. \<not> P x) rs) \<longleftrightarrow> \<not> P (k, d)"
      using k one_each_inj [OF assms _ k(1)] by (auto simp: image_iff) metis
    moreover have "(\<exists>k'. (k', d) \<in> set rs \<and> P (k', d)) \<longleftrightarrow> P (k, d)"
      using k one_each_inj [OF assms _ k(1)] by blast
    ultimately show ?thesis
      using k by (auto simp: by_agent_Some [OF assms] by_agent_Some [OF one_each_filter [OF assms]])
  next
    case False
    then show ?thesis
      by (auto simp: by_agent_Some [OF assms] by_agent_Some [OF one_each_filter [OF assms]])
  qed
qed

lemma update_set:
  assumes "distinct (map fst rs)"
  shows "set (AList.update k d rs) = insert (k, d) {x \<in> set rs. fst x \<noteq> k}"
  using assms by (induction rs) (auto simp: image_iff)

lemma update_new: "k \<notin> fst ` set rs \<Longrightarrow> AList.update k d rs = rs @ [(k, d)]"
  by (induction rs) auto

lemma update_agents:
  "k \<in> fst ` set rs \<Longrightarrow> \<forall>(k', d') \<in> set rs. k' = k \<longrightarrow> df_agent d' = df_agent d \<Longrightarrow>
     map (df_agent \<circ> snd) (AList.update k d rs) = map (df_agent \<circ> snd) rs"
  by (induction rs) auto

lemma update_one_each:
  assumes "one_each rs" and "\<forall>(k', d') \<in> set rs. k' = k \<longleftrightarrow> df_agent d' = df_agent d"
  shows "one_each (AList.update k d rs)"
proof (cases "k \<in> fst ` set rs")
  case True
  have "map (df_agent \<circ> snd) (AList.update k d rs) = map (df_agent \<circ> snd) rs"
    by (rule update_agents [OF True]) (use assms(2) in auto)
  then show ?thesis using assms(1) by (simp add: one_each_def AList.distinct_update)
next
  case False
  moreover have "df_agent d \<notin> (df_agent \<circ> snd) ` set rs"
    using assms(2) False by (force simp: image_iff)
  ultimately show ?thesis using assms(1) by (simp add: one_each_def update_new)
qed

lemma by_agent_update:
  assumes "one_each rs" and "\<forall>(k', d') \<in> set rs. k' = k \<longleftrightarrow> df_agent d' = df_agent d"
  shows "by_agent (AList.update k d rs) = (by_agent rs)(df_agent d \<mapsto> d)"
proof (rule by_agent_eqI)
  fix a e
  have o: "one_each (AList.update k d rs)" by (rule update_one_each) (use assms in auto)
  show "by_agent (AList.update k d rs) a = Some e \<longleftrightarrow> ((by_agent rs)(df_agent d \<mapsto> d)) a = Some e"
    using assms by (auto simp: by_agent_Some [OF o] by_agent_Some [OF assms(1)] update_set one_each_def)
qed

lemma by_agent_delete:
  assumes "one_each rs" "(k, d) \<in> set rs"
  shows "by_agent (AList.delete k rs) = (by_agent rs)(df_agent d := None)"
proof (rule by_agent_eqI)
  fix a e
  show "by_agent (AList.delete k rs) a = Some e \<longleftrightarrow> ((by_agent rs)(df_agent d := None)) a = Some e"
    using one_each_inj [OF assms(1) _ assms(2)]
    by (auto simp: delete_filter by_agent_Some [OF assms(1)] by_agent_Some [OF one_each_filter [OF assms(1)]])
qed

lemma pass_same_agent: "pass_ok key agent t \<Longrightarrow> map_of (tk_records t) key = Some d \<Longrightarrow> df_agent d = agent"
  by (auto simp: pass_ok_def dest: map_of_SomeD)

lemma deferred_tracked:
  assumes "tracked t" "pass_ok key agent t"
  shows "tracked (fst (reconcilePass a (Deferred key agent now reason protocol) t))"
proof -
  obtain d where d: "fst (reconcilePass a (Deferred key agent now reason protocol) t)
      = \<lparr>tk_records = AList.update key d (tk_records t), tk_metrics = publish d (tk_metrics t)\<rparr>"
    and agent: "df_agent d = agent"
    by (auto simp: Let_def deferred_record_def split: option.splits)
  have ok: "\<forall>(k', d') \<in> set (tk_records t). k' = key \<longleftrightarrow> df_agent d' = df_agent d"
    using assms(2) by (simp add: pass_ok_def agent)
  from assms(1) show ?thesis
    unfolding d tracked_def by (simp add: publish_sink by_agent_update [OF _ ok] update_one_each [OF _ ok])
qed

lemma ended_tracked:
  assumes "tracked t" "pass_ok key agent t"
  shows "tracked (fst (reconcilePass a (Ended kind key agent) t))"
proof (cases "map_of (tk_records t) key")
  case None
  have "by_agent (tk_records t) agent = None"
  proof (rule ccontr)
    assume "by_agent (tk_records t) agent \<noteq> None"
    then obtain k d where "(k, d) \<in> set (tk_records t)" "df_agent d = agent"
      using assms(1) by (auto simp: tracked_def by_agent_Some)
    moreover from this have "k = key" using assms(2) by (auto simp: pass_ok_def)
    ultimately show False using weak_map_of_SomeI [of k d] None by fastforce
  qed
  then have "(by_agent (tk_records t))(agent := None) = by_agent (tk_records t)" by auto
  with None assms(1) show ?thesis by (simp add: tracked_def clear_sink)
next
  case (Some d)
  from map_of_SomeD [OF Some] assms(1) Some show ?thesis
    by (simp add: tracked_def clear_sink by_agent_delete) (simp add: delete_filter one_each_filter)
qed

lemma prune_tracked: "tracked t \<Longrightarrow> tracked (fst (tk_prune active t))"
proof -
  assume t: "tracked t"
  have "filter (\<lambda>(k, d). k \<notin> set active) rs = filter (\<lambda>x. \<not> (case x of (k, d) \<Rightarrow> k \<in> set active)) rs" for rs :: "(string \<times> roll_deferral) list"
    by (rule filter_cong) auto
  with t show ?thesis
    unfolding tracked_def tk_prune_def Let_def
    by (simp add: clear_sinks by_agent_filter one_each_filter del: set_filter)
qed

lemma restore_loop:
  assumes "tracked t" "one_each (tk_records t @ snap)"
  shows "tracked (foldl (\<lambda>t (k, d). \<lparr>tk_records = AList.update k d (tk_records t),
      tk_metrics = publish d (tk_metrics t)\<rparr>) t snap)"
  using assms
proof (induction snap arbitrary: t)
  case (Cons x snap)
  obtain k d where x: "x = (k, d)" by force
  let ?t = "\<lparr>tk_records = AList.update k d (tk_records t), tk_metrics = publish d (tk_metrics t)\<rparr>"
  have ok: "\<forall>(k', d') \<in> set (tk_records t). k' = k \<longleftrightarrow> df_agent d' = df_agent d"
    and new: "k \<notin> fst ` set (tk_records t)"
    using Cons.prems(2) by (force simp: one_each_def x image_iff)+
  have "tracked ?t"
    using Cons.prems(1) by (simp add: tracked_def publish_sink by_agent_update [OF _ ok] update_one_each [OF _ ok])
  moreover have "one_each (tk_records ?t @ snap)"
    using Cons.prems(2) by (simp add: x update_new [OF new])
  ultimately show ?case using Cons.IH [of ?t] by (simp add: x)
qed simp

lemma restore_tracked: "one_each snap \<Longrightarrow> tracked (tk_restore snap new_tracker)"
  unfolding tk_restore_def Let_def
  by (rule restore_loop) (simp_all add: new_tracker_def tracked_def one_each_def empty_sink by_agent_def)

text \<open>
  The published gauge is exactly the records: after any restore and any passes and
  prunings, the sink holds one series per record, with its agent, reason and protocol and
  the time it waits since, and nothing else, as long as an agent has one key at a time.
\<close>

theorem gauge_refines_records:
  assumes "roll_reach alertAfterMs t"
  shows "one_each (tk_records t) \<and> tk_metrics t = sink_of (by_agent (tk_records t))"
proof -
  from assms have "tracked t"
    by induction (simp_all only: restore_tracked deferred_tracked ended_tracked prune_tracked)
  then show ?thesis by (simp add: tracked_def)
qed

lemma gauge_refines_records_witness:
  "\<exists>t :: tracker. ms_gauge (tk_metrics t) (''kai'', BridgeBusy, DrainV1) = Some 100 \<and> tk_metrics t = sink_of (by_agent (tk_records t))"
proof -
  let ?t0 = "tk_restore [] new_tracker"
  let ?t = "fst (reconcilePass 0 (Deferred ''k1'' ''kai'' 100 BridgeBusy (Some DrainV1)) ?t0)"
  have "roll_reach 0 ?t"
    by (intro roll_reach.deferred roll_reach.start)
      (simp_all add: one_each_def pass_ok_def tk_restore_def new_tracker_def)
  note g = gauge_refines_records [OF this]
  have "ms_gauge (tk_metrics ?t) (''kai'', BridgeBusy, DrainV1) = Some 100"
    by (simp add: Let_def deferred_record_def tk_restore_def new_tracker_def publish_def sink_set_def
        empty_sink_def)
  with g show ?thesis by blast
qed

text \<open>
  A pass that gives the record of a key another agent name publishes the new series and
  leaves the old one, which no later pass of the key removes.
\<close>

lemma renamed_agent_stale:
  "ms_gauge (tk_metrics (fst (reconcilePass 0 (Ended Converged ''k'' ''new'')
     (fst (reconcilePass 0 (Deferred ''k'' ''new'' 2 BridgeBusy None)
       (fst (reconcilePass 0 (Deferred ''k'' ''old'' 1 BridgeBusy None) new_tracker)))))))
     (''old'', BridgeBusy, UnknownProtocol) = Some 1"
  by (simp add: Let_def deferred_record_def new_tracker_def empty_sink_def publish_def sink_set_def
      sink_clear_def)

subsection \<open>The alert of a deferral\<close>

fun pass_results :: "int \<Rightarrow> string \<Rightarrow> string \<Rightarrow> (time \<times> deferral_reason \<times> deferral_protocol option) list \<Rightarrow>
    tracker \<Rightarrow> pass_result list" where
  "pass_results a key agent [] t = []"
| "pass_results a key agent ((now, reason, protocol) # ps) t =
     (case reconcilePass a (Deferred key agent now reason protocol) t of
        (t', r) \<Rightarrow> r # pass_results a key agent ps t')"

definition waited :: "time \<Rightarrow> time \<Rightarrow> int" where
  "waited since now = max 0 (now - since)"

lemma upt_Suc_map: "map f [0..<Suc n] = f 0 # map (\<lambda>i. f (Suc i)) [0..<n]"
  by (simp add: upt_conv_Cons map_Suc_upt [symmetric] comp_def del: upt_Suc)

lemma pass_existing:
  assumes "map_of (tk_records t) key = Some d"
  shows "\<exists>t' r d'. reconcilePass a (Deferred key agent now reason protocol) t = (t', r)
    \<and> pr_shouldLogAlert r = (0 < a \<and> a \<le> waited (df_since d) now \<and> \<not> df_alerted d)
    \<and> map_of (tk_records t') key = Some d' \<and> df_since d' = df_since d
    \<and> df_alerted d' = (df_alerted d \<or> 0 < a \<and> a \<le> waited (df_since d) now)"
  using assms by (auto simp add: Let_def deferred_record_def waited_def AList.update_conv')

lemma pass_first:
  assumes "map_of (tk_records t) key = None"
  shows "\<exists>t' r d. reconcilePass a (Deferred key agent now reason protocol) t = (t', r)
    \<and> \<not> pr_shouldLogAlert r \<and> map_of (tk_records t') key = Some d \<and> df_since d = now \<and> \<not> df_alerted d"
  using assms by (simp add: Let_def deferred_record_def AList.update_conv')

lemma alerts_from:
  assumes "map_of (tk_records t) key = Some d"
  shows "map pr_shouldLogAlert (pass_results a key agent ps t)
    = map (\<lambda>i. 0 < a \<and> \<not> df_alerted d \<and> a \<le> waited (df_since d) (fst (ps ! i))
        \<and> (\<forall>j < i. waited (df_since d) (fst (ps ! j)) < a)) [0..<length ps]"
  using assms
proof (induction ps arbitrary: t d)
  case (Cons p ps)
  obtain now reason protocol where p: "p = (now, reason, protocol)" by (cases p) auto
  from pass_existing [OF Cons.prems] obtain t' r d' where
    r: "reconcilePass a (Deferred key agent now reason protocol) t = (t', r)"
    "pr_shouldLogAlert r = (0 < a \<and> a \<le> waited (df_since d) now \<and> \<not> df_alerted d)"
    and d': "map_of (tk_records t') key = Some d'" "df_since d' = df_since d"
    "df_alerted d' = (df_alerted d \<or> 0 < a \<and> a \<le> waited (df_since d) now)" by blast
  show ?case
    using Cons.IH [OF d'(1)]
    by (auto simp: p r upt_Suc_map d'(2,3) All_less_Suc2 simp del: upt_Suc reconcilePass.simps)
qed simp

lemma denied_passes: "\<forall>r \<in> set (pass_results a key agent ps t). \<not> pr_allowRoll r"
  by (induction ps arbitrary: t) (auto simp: Let_def split: prod.splits)

text \<open>
  A deferral alerts once: over the passes of one wait exactly the first pass logs the
  alert at which the roll has waited \<open>alertAfterMs\<close> since the first deferral, if there is one
  and alerting is on, and no deferred pass ever allows the roll.
\<close>

theorem deferral_alerts_once:
  assumes "map_of (tk_records t) key = None"
  shows "map pr_shouldLogAlert (pass_results a key agent ps t)
    = map (\<lambda>i. 0 < a \<and> a \<le> waited (fst (ps ! 0)) (fst (ps ! i))
        \<and> (\<forall>j < i. waited (fst (ps ! 0)) (fst (ps ! j)) < a)) [0..<length ps]
    \<and> (\<forall>r \<in> set (pass_results a key agent ps t). \<not> pr_allowRoll r)"
proof (cases ps)
  case (Cons p ps')
  obtain now reason protocol where p: "p = (now, reason, protocol)" by (cases p) auto
  from pass_first [OF assms] obtain t' r d where
    r: "reconcilePass a (Deferred key agent now reason protocol) t = (t', r)" "\<not> pr_shouldLogAlert r"
    and d: "map_of (tk_records t') key = Some d" "df_since d = now" "\<not> df_alerted d" by blast
  have "waited now now = 0" by (simp add: waited_def)
  then show ?thesis
    using alerts_from [OF d(1), of a agent ps'] denied_passes [of a key agent ps t]
    by (auto simp: Cons p r d(2,3) upt_Suc_map All_less_Suc2 simp del: upt_Suc reconcilePass.simps)
qed simp

lemma deferral_alerts_once_witness:
  "map pr_shouldLogAlert (pass_results 1000 ''k'' ''kai'' [(5, BridgeBusy, None), (900, BridgeBusy, None),
     (1500, ProbeFailed, Some DrainV1), (2500, BridgeBusy, None)] new_tracker)
   = [False, False, True, False]"
proof -
  have "map_of (tk_records new_tracker) ''k'' = None" by (simp add: new_tracker_def)
  from deferral_alerts_once [OF this, of 1000 "''kai''" "[(5, BridgeBusy, None), (900, BridgeBusy, None),
     (1500, ProbeFailed, Some DrainV1), (2500, BridgeBusy, None)]"]
  show ?thesis by (simp add: upt_Suc_map waited_def All_less_Suc2 numeral_eq_Suc del: upt_Suc reconcilePass.simps)
qed

end
