(* ===== verification/RollDrain.thy ===== *)
theory RollDrain
  imports Prelude
begin

text \<open>
  The rollout fence of a bridge, \<open>src/src/shared/runtime-roll-drain.ts\<close>: a controller arms a
  drain with a lease, the bridge reports that it is ready, and the lease expires by its timer
  or by the next look at it.  Every operation reads the clock once.  The calls of
  \<open>onLeaseExpired\<close> are counted in \<open>dl_expiries\<close>.
\<close>

datatype drain_state = DrainIdle | Draining | DrainReady

record drain_request =
  dq_requestId :: string
  dq_targetImage :: string
  dq_leaseMs :: jsval

record drain_snapshot =
  ds_requestId :: string
  ds_targetImage :: string
  ds_ready :: bool
  ds_acceptingTurns :: bool
  ds_busy :: bool
  ds_pendingAcceptedTurns :: int
  ds_leaseUntil :: time

record drain_lease =
  dl_state :: drain_state
  dl_requestId :: string
  dl_targetImage :: string
  dl_leaseUntil :: time
  dl_timer :: "time option"
  dl_expiries :: nat

datatype drain_error = InvalidRequestId | InvalidTargetImage

definition default_lease_ms :: int where "default_lease_ms = 60000"
definition min_lease_ms :: int where "min_lease_ms = 5000"
definition max_lease_ms :: int where "max_lease_ms = 120000"

definition isLoopbackRuntimeRollCaller :: "string \<Rightarrow> bool" where
  "isLoopbackRuntimeRollCaller address \<longleftrightarrow>
     address = ''127.0.0.1'' \<or> address = ''::1'' \<or> address = ''::ffff:127.0.0.1''"

definition normalizeLeaseMs :: "jsval \<Rightarrow> int" where
  "normalizeLeaseMs v = (case js_number v of
      None \<Rightarrow> default_lease_ms
    | Some n \<Rightarrow> min max_lease_ms (max min_lease_ms n))"

definition new_lease :: drain_lease where
  "new_lease = \<lparr>dl_state = DrainIdle, dl_requestId = [], dl_targetImage = [], dl_leaseUntil = 0,
     dl_timer = None, dl_expiries = 0\<rparr>"

definition expire_lease :: "drain_lease \<Rightarrow> drain_lease" where
  "expire_lease l = (if dl_state l = DrainIdle then l
     else l\<lparr>dl_timer := None, dl_state := DrainIdle, dl_requestId := [], dl_targetImage := [],
            dl_leaseUntil := 0, dl_expiries := dl_expiries l + 1\<rparr>)"

definition expireIfNeeded :: "time \<Rightarrow> drain_lease \<Rightarrow> drain_lease" where
  "expireIfNeeded now l =
     (if dl_state l \<noteq> DrainIdle \<and> dl_leaseUntil l \<le> now then expire_lease l else l)"

text \<open>The getters: the state they leave, and their value.\<close>

definition drain_active :: "time \<Rightarrow> drain_lease \<Rightarrow> drain_lease \<times> bool" where
  "drain_active now l = (let l' = expireIfNeeded now l in (l', dl_state l' \<noteq> DrainIdle))"

definition drain_ready :: "time \<Rightarrow> drain_lease \<Rightarrow> drain_lease \<times> bool" where
  "drain_ready now l = (let l' = expireIfNeeded now l in (l', dl_state l' = DrainReady))"

definition armExpiryTimer :: "time \<Rightarrow> drain_lease \<Rightarrow> drain_lease" where
  "armExpiryTimer now l = l\<lparr>dl_timer := Some (now + max 1 (dl_leaseUntil l - now))\<rparr>"

definition drain_snapshot_of :: "time \<Rightarrow> bool \<Rightarrow> int \<Rightarrow> drain_lease \<Rightarrow> drain_lease \<times> drain_snapshot option" where
  "drain_snapshot_of now busy pending l = (case drain_active now l of
      (l', active) \<Rightarrow>
        (l', if \<not> active then None
             else Some \<lparr>ds_requestId = dl_requestId l', ds_targetImage = dl_targetImage l',
               ds_ready = (dl_state l' = DrainReady), ds_acceptingTurns = (dl_state l' \<noteq> DrainReady),
               ds_busy = busy, ds_pendingAcceptedTurns = max 0 pending,
               ds_leaseUntil = dl_leaseUntil l'\<rparr>))"

definition drain_arm :: "time \<Rightarrow> drain_request \<Rightarrow> drain_lease \<Rightarrow>
    drain_lease \<times> (drain_error + drain_snapshot option)" where
  "drain_arm now req l =
     (let requestId = js_trim (dq_requestId req); targetImage = js_trim (dq_targetImage req) in
      if requestId = [] \<or> 128 < length requestId then (l, Inl InvalidRequestId)
      else if targetImage = [] \<or> 512 < length targetImage then (l, Inl InvalidTargetImage)
      else case drain_active now l of
        (l1, active) \<Rightarrow>
          (let same = (active \<and> dl_requestId l1 = requestId \<and> dl_targetImage l1 = targetImage);
               l2 = (if same then l1
                     else l1\<lparr>dl_state := Draining, dl_requestId := requestId, dl_targetImage := targetImage\<rparr>);
               l3 = armExpiryTimer now (l2\<lparr>dl_leaseUntil := now + normalizeLeaseMs (dq_leaseMs req)\<rparr>)
           in case drain_snapshot_of now False 0 l3 of (l4, snap) \<Rightarrow> (l4, Inr snap)))"

definition drain_markReady :: "time \<Rightarrow> drain_lease \<Rightarrow> drain_lease" where
  "drain_markReady now l = (case drain_active now l of
      (l', active) \<Rightarrow> if active then l'\<lparr>dl_state := DrainReady\<rparr> else l')"

definition drain_dispose :: "drain_lease \<Rightarrow> drain_lease" where
  "drain_dispose l = l\<lparr>dl_timer := None, dl_state := DrainIdle\<rparr>"

text \<open>The callback of the timer.\<close>

definition drain_timer :: "time \<Rightarrow> drain_lease \<Rightarrow> drain_lease" where
  "drain_timer now l =
     (case dl_timer l of
        None \<Rightarrow> l
      | Some _ \<Rightarrow> let l' = l\<lparr>dl_timer := None\<rparr> in
          if now < dl_leaseUntil l' then armExpiryTimer now l' else expire_lease l')"

subsection \<open>Runs\<close>

datatype drain_op =
    DArm drain_request
  | DReady
  | DLook
  | DSnapshot bool int
  | DTimer
  | DDispose

fun drain_step :: "drain_lease \<Rightarrow> time \<times> drain_op \<Rightarrow> drain_lease" where
  "drain_step l (now, DArm req) = fst (drain_arm now req l)"
| "drain_step l (now, DReady) = drain_markReady now l"
| "drain_step l (now, DLook) = fst (drain_ready now l)"
| "drain_step l (now, DSnapshot busy n) = fst (drain_snapshot_of now busy n l)"
| "drain_step l (now, DTimer) = drain_timer now l"
| "drain_step l (now, DDispose) = drain_dispose l"

fun is_arm :: "drain_op \<Rightarrow> bool" where
  "is_arm (DArm req) \<longleftrightarrow> True"
| "is_arm _ \<longleftrightarrow> False"

lemma lease_bounds: "min_lease_ms \<le> normalizeLeaseMs v \<and> normalizeLeaseMs v \<le> max_lease_ms"
  by (auto simp: normalizeLeaseMs_def default_lease_ms_def min_lease_ms_def max_lease_ms_def
      split: option.splits)

lemmas drain_defs = drain_active_def drain_ready_def drain_markReady_def drain_snapshot_of_def
  drain_dispose_def drain_timer_def expireIfNeeded_def expire_lease_def armExpiryTimer_def Let_def

text \<open>Only an arm opens a lease or moves its end.\<close>

lemma step_lease:
  "\<not> is_arm p \<Longrightarrow> dl_state (drain_step l (now, p)) = DrainIdle
     \<or> dl_state l \<noteq> DrainIdle \<and> dl_leaseUntil (drain_step l (now, p)) = dl_leaseUntil l"
  by (cases p) (auto simp: drain_defs split: option.splits)

lemma run_lease:
  assumes "\<forall>e \<in> set es. \<not> is_arm (snd e)" "dl_state l = DrainIdle \<or> dl_leaseUntil l \<le> b"
  shows "dl_state (foldl drain_step l es) = DrainIdle \<or> dl_leaseUntil (foldl drain_step l es) \<le> b"
  using assms
proof (induction es arbitrary: l)
  case (Cons e es)
  then have "dl_state (drain_step l e) = DrainIdle \<or> dl_leaseUntil (drain_step l e) \<le> b"
    using step_lease [of "snd e" l "fst e"] by auto
  with Cons show ?case by simp
qed simp

lemma arm_result:
  assumes "drain_arm now req l = (l', Inr s)"
  shows "dl_state l' \<noteq> DrainIdle \<and> dl_leaseUntil l' = now + normalizeLeaseMs (dq_leaseMs req)
    \<and> dl_timer l' = Some (dl_leaseUntil l')"
proof -
  have "now < now + normalizeLeaseMs (dq_leaseMs req)"
    using lease_bounds [of "dq_leaseMs req"] by (simp add: min_lease_ms_def)
  with assms show ?thesis
    by (auto simp: drain_arm_def drain_defs split: if_splits)
qed

lemma step_before_end:
  assumes "\<not> is_arm p" "p \<noteq> DDispose" "t < dl_leaseUntil l" "dl_state l \<noteq> DrainIdle"
  shows "dl_leaseUntil (drain_step l (t, p)) = dl_leaseUntil l
    \<and> dl_state (drain_step l (t, p)) = (if p = DReady then DrainReady else dl_state l)"
  using assms by (cases p) (auto simp: drain_defs split: option.splits)

lemma run_before_end:
  assumes "\<forall>e \<in> set es. \<not> is_arm (snd e) \<and> snd e \<noteq> DDispose \<and> fst e < dl_leaseUntil l"
    and "dl_state l \<noteq> DrainIdle"
  shows "dl_leaseUntil (foldl drain_step l es) = dl_leaseUntil l
    \<and> dl_state (foldl drain_step l es) = (if DReady \<in> snd ` set es then DrainReady else dl_state l)"
  using assms
proof (induction es arbitrary: l)
  case (Cons e es)
  have s: "dl_leaseUntil (drain_step l e) = dl_leaseUntil l"
    "dl_state (drain_step l e) = (if snd e = DReady then DrainReady else dl_state l)"
    using step_before_end [of "snd e" "fst e" l] Cons.prems by auto
  then show ?case using Cons.IH [of "drain_step l e"] Cons.prems by auto
qed simp

text \<open>
  A fence holds for its lease and never longer: before the end of the lease it is up,
  whatever else happens but a disposal or another arm, and it is ready exactly when the
  bridge said so; two minutes after an arm it is down, whatever the controller does short of
  arming it again, so that no lost controller parks a bridge.
\<close>

theorem drain_fence_bounded:
  assumes "drain_arm now req l = (l', Inr s)" and "\<forall>e \<in> set es. \<not> is_arm (snd e)"
  shows "((\<forall>e \<in> set es. snd e \<noteq> DDispose \<and> fst e < dl_leaseUntil l') \<and> later < dl_leaseUntil l'
          \<longrightarrow> snd (drain_active later (foldl drain_step l' es))
            \<and> (snd (drain_ready later (foldl drain_step l' es))
               \<longleftrightarrow> dl_state l' = DrainReady \<or> DReady \<in> snd ` set es))
    \<and> now + 5000 \<le> dl_leaseUntil l' \<and> dl_leaseUntil l' \<le> now + 120000
    \<and> (now + 120000 \<le> later \<longrightarrow> \<not> snd (drain_active later (foldl drain_step l' es))
          \<and> snd (drain_snapshot_of later busy n (foldl drain_step l' es)) = None)"
proof -
  note r = arm_result [OF assms(1)]
  have b: "now + 5000 \<le> dl_leaseUntil l'" "dl_leaseUntil l' \<le> now + 120000"
    using r lease_bounds [of "dq_leaseMs req"] by (simp_all add: min_lease_ms_def max_lease_ms_def)
  have "dl_state (foldl drain_step l' es) = DrainIdle \<or> dl_leaseUntil (foldl drain_step l' es) \<le> now + 120000"
    using b(2) by (intro run_lease assms(2)) simp
  then have "now + 120000 \<le> later \<Longrightarrow> \<not> snd (drain_active later (foldl drain_step l' es))"
    by (auto simp: drain_defs)
  moreover have "snd (drain_active later (foldl drain_step l' es))
      \<and> (snd (drain_ready later (foldl drain_step l' es)) \<longleftrightarrow> dl_state l' = DrainReady \<or> DReady \<in> snd ` set es)"
    if "\<forall>e \<in> set es. snd e \<noteq> DDispose \<and> fst e < dl_leaseUntil l'" "later < dl_leaseUntil l'"
    using run_before_end [of es l'] that assms(2) r by (auto simp: drain_defs)
  ultimately show ?thesis
    using b by (auto simp: drain_snapshot_of_def split: prod.splits)
qed

definition sample_drain :: drain_request where
  "sample_drain = \<lparr>dq_requestId = ''r1 '', dq_targetImage = ''img:2'', dq_leaseMs = JNum 1\<rparr>"

lemma drain_fence_bounded_witness:
  "snd (drain_ready 4000 (foldl drain_step (fst (drain_arm 0 sample_drain new_lease)) [(100, DReady), (200, DLook)]))
   \<and> \<not> snd (drain_active 120000 (foldl drain_step (fst (drain_arm 0 sample_drain new_lease)) [(100, DReady), (200, DLook)]))"
proof -
  have t: "js_trim ''r1 '' = ''r1''" "js_trim ''img:2'' = ''img:2''" by code_simp+
  have "\<exists>s. drain_arm 0 sample_drain new_lease = (fst (drain_arm 0 sample_drain new_lease), Inr s)"
    "dl_leaseUntil (fst (drain_arm 0 sample_drain new_lease)) = 5000"
    by (simp_all add: drain_arm_def sample_drain_def t drain_defs new_lease_def normalizeLeaseMs_def
        min_lease_ms_def max_lease_ms_def)
  then obtain s where a: "drain_arm 0 sample_drain new_lease = (fst (drain_arm 0 sample_drain new_lease), Inr s)"
    and u: "dl_leaseUntil (fst (drain_arm 0 sample_drain new_lease)) = 5000" by blast
  note f = drain_fence_bounded [OF a, of "[(100, DReady), (200, DLook)]", unfolded u]
  from f [of 4000] f [of 120000] show ?thesis by simp
qed

lemma snapshot_live:
  "dl_state l \<noteq> DrainIdle \<Longrightarrow> now < dl_leaseUntil l \<Longrightarrow> drain_snapshot_of now busy n l =
     (l, Some \<lparr>ds_requestId = dl_requestId l, ds_targetImage = dl_targetImage l,
       ds_ready = (dl_state l = DrainReady), ds_acceptingTurns = (dl_state l \<noteq> DrainReady),
       ds_busy = busy, ds_pendingAcceptedTurns = max 0 n, ds_leaseUntil = dl_leaseUntil l\<rparr>)"
  by (simp add: drain_snapshot_of_def drain_active_def expireIfNeeded_def Let_def)

lemma expired_state:
  "dl_state (expireIfNeeded now l) = (if dl_state l \<noteq> DrainIdle \<and> dl_leaseUntil l \<le> now then DrainIdle else dl_state l)"
  "dl_state (expireIfNeeded now l) \<noteq> DrainIdle \<Longrightarrow> expireIfNeeded now l = l"
  by (auto simp: expireIfNeeded_def expire_lease_def split: if_splits)

lemma arm_error:
  "drain_arm now req l = (l', Inl e) \<Longrightarrow> l' = l
     \<and> (e = InvalidRequestId \<longleftrightarrow> js_trim (dq_requestId req) = [] \<or> 128 < length (js_trim (dq_requestId req)))
     \<and> (e = InvalidTargetImage \<longrightarrow> js_trim (dq_targetImage req) = [] \<or> 512 < length (js_trim (dq_targetImage req)))"
  by (auto simp: drain_arm_def Let_def split: prod.splits if_splits)

lemma arm_answer:
  assumes "drain_arm now req l = (l', Inr s)"
  shows "\<exists>v. s = Some v \<and> ds_requestId v = js_trim (dq_requestId req) \<and> ds_targetImage v = js_trim (dq_targetImage req)
    \<and> (ds_ready v \<longleftrightarrow> \<not> ds_acceptingTurns v)
    \<and> (ds_ready v \<longleftrightarrow> dl_state l = DrainReady \<and> now < dl_leaseUntil l
         \<and> dl_requestId l = js_trim (dq_requestId req) \<and> dl_targetImage l = js_trim (dq_targetImage req))"
proof -
  let ?l = "expireIfNeeded now l" and ?id = "js_trim (dq_requestId req)" and ?im = "js_trim (dq_targetImage req)"
  let ?same = "dl_state ?l \<noteq> DrainIdle \<and> dl_requestId ?l = ?id \<and> dl_targetImage ?l = ?im"
  let ?l2 = "if ?same then ?l else ?l\<lparr>dl_state := Draining, dl_requestId := ?id, dl_targetImage := ?im\<rparr>"
  let ?l3 = "armExpiryTimer now (?l2\<lparr>dl_leaseUntil := now + normalizeLeaseMs (dq_leaseMs req)\<rparr>)"
  have live: "dl_state ?l3 \<noteq> DrainIdle" "now < dl_leaseUntil ?l3"
    using lease_bounds [of "dq_leaseMs req"] by (simp_all add: armExpiryTimer_def min_lease_ms_def)
  from assms have "Inr s = (Inr (snd (drain_snapshot_of now False 0 ?l3)) :: drain_error + drain_snapshot option)"
    by (cases ?same) (auto simp: drain_arm_def drain_active_def Let_def split: if_splits prod.splits)
  then have s: "s = snd (drain_snapshot_of now False 0 ?l3)" by simp
  show ?thesis
    unfolding s snapshot_live [OF live]
    by (cases ?same) (auto simp: armExpiryTimer_def expired_state split: if_splits)
qed

text \<open>
  An arm with a bad request is an error and changes nothing; a good one answers with its
  trimmed request, keeps a ready fence ready only when the same request renews a lease that
  still runs, and otherwise starts to drain again with the bridge accepting turns.
\<close>

theorem drain_arm_outcomes:
  "(drain_arm now req l = (l', Inl e) \<longrightarrow> l' = l
      \<and> (e = InvalidRequestId \<longleftrightarrow> js_trim (dq_requestId req) = [] \<or> 128 < length (js_trim (dq_requestId req)))
      \<and> (e = InvalidTargetImage \<longrightarrow> js_trim (dq_targetImage req) = [] \<or> 512 < length (js_trim (dq_targetImage req))))
   \<and> (drain_arm now req l = (l', Inr s) \<longrightarrow>
       (\<exists>v. s = Some v \<and> ds_requestId v = js_trim (dq_requestId req) \<and> ds_targetImage v = js_trim (dq_targetImage req)
          \<and> (ds_ready v \<longleftrightarrow> \<not> ds_acceptingTurns v)
          \<and> (ds_ready v \<longleftrightarrow> dl_state l = DrainReady \<and> now < dl_leaseUntil l
               \<and> dl_requestId l = js_trim (dq_requestId req) \<and> dl_targetImage l = js_trim (dq_targetImage req))))"
  using arm_error [of now req l l' e] arm_answer [of now req l l' s] by blast

lemma drain_arm_outcomes_witness:
  "drain_arm 0 (sample_drain\<lparr>dq_requestId := ''  ''\<rparr>) new_lease = (new_lease, Inl InvalidRequestId)
   \<and> InvalidRequestId = InvalidRequestId"
proof -
  have t: "js_trim ''  '' = []" by code_simp
  have a: "drain_arm 0 (sample_drain\<lparr>dq_requestId := ''  ''\<rparr>) new_lease = (new_lease, Inl InvalidRequestId)"
    by (simp add: drain_arm_def sample_drain_def t)
  with drain_arm_outcomes [of 0 "sample_drain\<lparr>dq_requestId := ''  ''\<rparr>" new_lease new_lease InvalidRequestId]
  show ?thesis by blast
qed

end
