(* ===== verification/ToolRetry.thy ===== *)
theory ToolRetry
  imports JsRegex Json Complex_Main
begin

text \<open>
  The retries of tool calls, \<open>src/src/agent/tool-retry.ts\<close>: which errors are transient, the
  jittered back-off, the budget of a turn, and the retry loop, which in the source has no
  bound of its own.  A call that can be repeated is the function from the number of the call
  to its outcome; the random numbers are an argument.
\<close>

record retry_config =
  tc_maxRetries :: int
  tc_baseDelayMs :: int
  tc_maxDelayMs :: int
  tc_backoffFactor :: int

definition default_retry_config :: retry_config where
  "default_retry_config = \<lparr>tc_maxRetries = 2, tc_baseDelayMs = 500, tc_maxDelayMs = 8000,
     tc_backoffFactor = 2\<rparr>"

subsection \<open>Transient errors\<close>

text \<open>What a call throws: an \<open>Error\<close> with its message and further properties, or any value.\<close>

datatype thrown = ErrorObject string jsobj | ThrownValue jsval

text \<open>\<open>/\btimed?\s*-?\s*out\b|\btimeout\b|etimedout/i\<close>\<close>

definition timeout_re :: re where
  "timeout_re = RAlts
     [RSeqs [RWordB, RLit ''time'', ROpt (RLit ''d''), RStar RSpace, ROpt (RLit ''-''), RStar RSpace,
        RLit ''out'', RWordB],
      RSeqs [RWordB, RLit ''timeout'', RWordB],
      RLit ''etimedout'']"

text \<open>\<open>/rate.?limit|too many requests|\b429\b/i\<close>\<close>

definition rate_re :: re where
  "rate_re = RAlts [RSeqs [RLit ''rate'', ROpt RDot, RLit ''limit''], RLit ''too many requests'',
     RSeqs [RWordB, RLit ''429'', RWordB]]"

definition network_re :: re where
  "network_re = RAlts [RLit ''econnreset'', RLit ''econnrefused'', RLit ''enetunreach'', RLit ''ehostunreach'',
     RLit ''eai_again'', RLit ''epipe'', RSeqs [RLit ''socket hang'', ROpt (RLit '' ''), RLit ''up''],
     RLit ''network'',
     RSeqs [RLit ''connection '', RAlts [RLit ''reset'', RLit ''closed'', RLit ''refused'', RLit ''aborted'']]]"

definition unavailable_re :: re where
  "unavailable_re = RAlts [RLit ''temporarily unavailable'', RLit ''service unavailable'',
     RSeqs [RWordB, RLit ''50'', RCls False [(50, 52)], RWordB], RLit ''overloaded'', RLit ''try again'']"

definition retryable_patterns :: "re list" where
  "retryable_patterns = [timeout_re, rate_re, network_re, unavailable_re]"

definition retryable_status :: "int list" where
  "retryable_status = [429, 502, 503, 504]"

fun text_or_number :: "jsval \<Rightarrow> bool" where
  "text_or_number (JStr s) = True"
| "text_or_number (JNum n) = True"
| "text_or_number _ = False"

text \<open>The properties that are read of a value; only objects have them.\<close>

fun props_of :: "thrown \<Rightarrow> jsobj option" where
  "props_of (ErrorObject msg ps) = Some ps"
| "props_of (ThrownValue (JObj ps)) = Some ps"
| "props_of (ThrownValue (JArr vs)) = Some []"
| "props_of (ThrownValue _) = None"

fun errorText :: "thrown \<Rightarrow> string" where
  "errorText (ErrorObject msg ps) =
     msg @ '' '' @ (case js_get ps ''code'' of JUndef \<Rightarrow> [] | JNull \<Rightarrow> [] | v \<Rightarrow> js_string v)"
| "errorText (ThrownValue JUndef) = []"
| "errorText (ThrownValue JNull) = []"
| "errorText (ThrownValue (JStr s)) = s"
| "errorText (ThrownValue (JObj ps)) =
     (let parts = filter text_or_number
            (map (js_get ps) [''message'', ''code'', ''error'', ''reason'']) in
      if parts \<noteq> [] then js_join '' '' (map js_string parts)
      else case json_text (JObj ps) of None \<Rightarrow> [] | Some t \<Rightarrow> t)"
| "errorText (ThrownValue (JArr vs)) = (case json_text (JArr vs) of None \<Rightarrow> [] | Some t \<Rightarrow> t)"
| "errorText (ThrownValue v) = js_string v"

fun status_value :: "jsval \<Rightarrow> int option" where
  "status_value (JNum n) = Some n"
| "status_value (JStr s) = (if s \<noteq> [] \<and> list_all is_digit s then Some (int (parse_nat s)) else None)"
| "status_value _ = None"

definition statusOf :: "thrown \<Rightarrow> int option" where
  "statusOf e = (case props_of e of
      None \<Rightarrow> None
    | Some ps \<Rightarrow> (case List.map_filter (\<lambda>k. status_value (js_get ps k)) [''status'', ''statusCode'', ''code''] of
        [] \<Rightarrow> None | n # _ \<Rightarrow> Some n))"

definition isRetryableToolError :: "thrown \<Rightarrow> bool" where
  "isRetryableToolError e =
     (if (case statusOf e of None \<Rightarrow> False | Some n \<Rightarrow> n \<in> set retryable_status) then True
      else let text = errorText e in
        if text = [] then False else list_ex (\<lambda>r. re_test True r text) retryable_patterns)"

subsection \<open>Back-off and budget\<close>

text \<open>\<open>Math.round(x)\<close> is the floor of \<open>x + 1/2\<close>.\<close>

definition js_round :: "rat \<Rightarrow> int" where
  "js_round x = \<lfloor>x + 1 / 2\<rfloor>"

definition retry_backoff_ms :: "int \<Rightarrow> retry_config \<Rightarrow> rat \<Rightarrow> int" where
  "retry_backoff_ms attempt cfg rand =
     (let n = max 1 attempt;
          capped = min (tc_baseDelayMs cfg * tc_backoffFactor cfg ^ nat (n - 1)) (tc_maxDelayMs cfg)
      in js_round (max 0 (min 1 rand) * of_int capped))"

text \<open>The budget is the number of retries left.\<close>

definition new_budget :: "retry_config \<Rightarrow> nat" where
  "new_budget cfg = nat (max 0 (tc_maxRetries cfg))"

definition canRetry :: "nat \<Rightarrow> bool" where
  "canRetry budget \<longleftrightarrow> budget > 0"

definition consume_retry :: "nat \<Rightarrow> nat \<times> bool" where
  "consume_retry budget = (if budget = 0 then (budget, False) else (budget - 1, True))"

definition reset_budget :: "retry_config \<Rightarrow> nat \<Rightarrow> nat" where
  "reset_budget cfg budget = nat (max 0 (tc_maxRetries cfg))"

subsection \<open>The loop\<close>

record retry_info =
  ri_attempt :: nat
  ri_delayMs :: int
  ri_error :: thrown

text \<open>
  \<open>i\<close> counts the calls, which are also the attempts; \<open>infos\<close> are the reports of \<open>onRetry\<close>
  so far.  The loop gives the outcome (a rethrown error on the left), the budget left and
  the reports; it is \<open>None\<close> when it never ends.
\<close>

partial_function (option) retry_loop ::
  "(nat \<Rightarrow> thrown + 'a) \<Rightarrow> retry_config \<Rightarrow> (nat \<Rightarrow> rat) \<Rightarrow> nat \<Rightarrow> nat \<Rightarrow> retry_info list \<Rightarrow>
     ((thrown + 'a) \<times> nat \<times> retry_info list) option" where
  "retry_loop fn cfg rand i budget infos =
     (case fn i of
        Inr v \<Rightarrow> Some (Inr v, budget, infos)
      | Inl e \<Rightarrow>
          if \<not> isRetryableToolError e \<or> \<not> canRetry budget then Some (Inl e, budget, infos)
          else retry_loop fn cfg rand (Suc i) (fst (consume_retry budget))
                 (infos @ [\<lparr>ri_attempt = Suc i,
                    ri_delayMs = retry_backoff_ms (int (Suc i)) cfg (rand i), ri_error = e\<rparr>]))"

definition executeToolWithRetry ::
  "(nat \<Rightarrow> thrown + 'a) \<Rightarrow> nat \<Rightarrow> retry_config \<Rightarrow> (nat \<Rightarrow> rat) \<Rightarrow>
     ((thrown + 'a) \<times> nat \<times> retry_info list) option" where
  "executeToolWithRetry fn budget cfg rand = retry_loop fn cfg rand 0 budget []"

text \<open>A turn: its tool calls one after the other, on one budget.\<close>

fun retry_turn :: "(nat \<Rightarrow> thrown + 'a) list \<Rightarrow> nat \<Rightarrow> retry_config \<Rightarrow> (nat \<Rightarrow> rat) \<Rightarrow>
    ((thrown + 'a) list \<times> nat \<times> retry_info list) option" where
  "retry_turn [] budget cfg rand = Some ([], budget, [])"
| "retry_turn (fn # fns) budget cfg rand =
     (case executeToolWithRetry fn budget cfg rand of
        None \<Rightarrow> None
      | Some (r, b, infos) \<Rightarrow>
          (case retry_turn fns b cfg rand of
             None \<Rightarrow> None
           | Some (rs, b', infos') \<Rightarrow> Some (r # rs, b', infos @ infos')))"

subsection \<open>The loop ends\<close>

definition transient :: "thrown + 'a \<Rightarrow> bool" where
  "transient r \<longleftrightarrow> (\<exists>e. r = Inl e \<and> isRetryableToolError e)"

definition info_of :: "(nat \<Rightarrow> thrown + 'a) \<Rightarrow> retry_config \<Rightarrow> (nat \<Rightarrow> rat) \<Rightarrow> nat \<Rightarrow> retry_info" where
  "info_of fn cfg rand i = \<lparr>ri_attempt = Suc i, ri_delayMs = retry_backoff_ms (int (Suc i)) cfg (rand i),
     ri_error = projl (fn i)\<rparr>"

lemma retry_loop_ends:
  "\<exists>k \<le> budget. (\<forall>j < k. transient (fn (i + j))) \<and> (k = budget \<or> \<not> transient (fn (i + k)))
     \<and> retry_loop fn cfg rand i budget infos
       = Some (fn (i + k), budget - k, infos @ map (info_of fn cfg rand) [i..<i + k])"
proof (induction budget arbitrary: i infos)
  case 0
  show ?case
    by (intro exI [of _ 0]) (simp add: retry_loop.simps [of fn cfg rand i] canRetry_def split: sum.splits)
next
  case (Suc b)
  show ?case
  proof (cases "transient (fn i)")
    case False
    then show ?thesis
      by (intro exI [of _ 0])
        (auto simp: retry_loop.simps [of fn cfg rand i] transient_def split: sum.splits)
  next
    case True
    then obtain e where e: "fn i = Inl e" "isRetryableToolError e" by (auto simp: transient_def)
    from Suc [of "Suc i" "infos @ [info_of fn cfg rand i]"] obtain k where k: "k \<le> b"
      "\<forall>j < k. transient (fn (Suc i + j))" "k = b \<or> \<not> transient (fn (Suc i + k))"
      "retry_loop fn cfg rand (Suc i) b (infos @ [info_of fn cfg rand i])
        = Some (fn (Suc i + k), b - k, (infos @ [info_of fn cfg rand i]) @ map (info_of fn cfg rand) [Suc i..<Suc i + k])"
      by blast
    have "retry_loop fn cfg rand i (Suc b) infos = retry_loop fn cfg rand (Suc i) b (infos @ [info_of fn cfg rand i])"
      by (subst retry_loop.simps) (simp add: e canRetry_def consume_retry_def info_of_def)
    moreover have "\<forall>j < Suc k. transient (fn (i + j))"
      using True k(2) by (auto simp: less_Suc_eq_0_disj)
    ultimately show ?thesis
      using k by (intro exI [of _ "Suc k"]) (auto simp: upt_conv_Cons simp del: upt_Suc)
  qed
qed

lemma backoff_bounds:
  assumes "0 \<le> tc_baseDelayMs cfg" "0 \<le> tc_backoffFactor cfg" "0 \<le> tc_maxDelayMs cfg"
  shows "0 \<le> retry_backoff_ms n cfg x \<and> retry_backoff_ms n cfg x \<le> tc_maxDelayMs cfg"
proof -
  define c where "c = min (tc_baseDelayMs cfg * tc_backoffFactor cfg ^ nat (max 1 n - 1)) (tc_maxDelayMs cfg)"
  define u where "u = max 0 (min 1 x)"
  have c: "0 \<le> c" "c \<le> tc_maxDelayMs cfg" using assms by (simp_all add: c_def)
  have u: "0 \<le> u" "u \<le> 1" by (simp_all add: u_def)
  have le: "u * of_int c \<le> of_int c" using mult_right_mono [OF u(2), of "of_int c"] c(1) by simp
  have "0 \<le> u * of_int c" using u c(1) by simp
  then have "0 \<le> js_round (u * of_int c)" by (simp add: js_round_def)
  moreover have "js_round (u * of_int c) \<le> c"
  proof -
    have "u * of_int c + 1 / 2 < of_int (c + 1)" using le by simp
    then have "js_round (u * of_int c) < c + 1" unfolding js_round_def by (simp only: floor_less_iff)
    then show ?thesis by simp
  qed
  ultimately show ?thesis using c(2) by (simp add: retry_backoff_ms_def Let_def c_def u_def)
qed

lemma transient_retryable: "transient r \<Longrightarrow> isRetryableToolError (projl r)"
  by (auto simp: transient_def)

lemma retry_loop_reports:
  "executeToolWithRetry fn budget cfg rand = Some (r, b, infos)
     \<Longrightarrow> b + length infos = budget \<and> (\<forall>i \<in> set infos. isRetryableToolError (ri_error i))"
  using retry_loop_ends [of budget fn 0 cfg rand "[]"]
  by (auto simp: executeToolWithRetry_def info_of_def) (metis transient_retryable)+

lemma turn_retries:
  "\<exists>rs b infos. retry_turn fns budget cfg rand = Some (rs, b, infos)
     \<and> length rs = length fns \<and> b + length infos = budget
     \<and> (\<forall>i \<in> set infos. isRetryableToolError (ri_error i))"
proof (induction fns arbitrary: budget)
  case Nil
  show ?case by simp
next
  case (Cons fn fns)
  obtain r b infos where a: "executeToolWithRetry fn budget cfg rand = Some (r, b, infos)"
    using retry_loop_ends [of budget fn 0 cfg rand "[]"] by (auto simp: executeToolWithRetry_def)
  obtain rs b' infos' where "retry_turn fns b cfg rand = Some (rs, b', infos')"
    "length rs = length fns" "b' + length infos' = b" "\<forall>i \<in> set infos'. isRetryableToolError (ri_error i)"
    using Cons [of b] by blast
  then show ?case using a retry_loop_reports [OF a] by auto
qed

text \<open>
  C10. The retry loop has no bound of its own and still ends for every function it is given:
  it makes k + 1 calls with k at most the budget, every one of the first k fails with a
  transient error and is reported with its attempt number, the last is the one whose outcome
  is returned, and it is not a transient failure unless the budget is spent. Exactly k
  retries leave the budget, and no delay is negative or above the maximum.
\<close>

theorem retry_terminates:
  assumes "0 \<le> tc_baseDelayMs cfg" "0 \<le> tc_backoffFactor cfg" "0 \<le> tc_maxDelayMs cfg"
  shows "\<exists>k infos. k \<le> budget
     \<and> executeToolWithRetry fn budget cfg rand = Some (fn k, budget - k, infos)
     \<and> (\<forall>j < k. transient (fn j)) \<and> (k = budget \<or> \<not> transient (fn k))
     \<and> infos = map (info_of fn cfg rand) [0..<k]
     \<and> (\<forall>i \<in> set infos. 0 \<le> ri_delayMs i \<and> ri_delayMs i \<le> tc_maxDelayMs cfg)"
  using retry_loop_ends [of budget fn 0 cfg rand "[]"] backoff_bounds [OF assms]
  by (auto simp: executeToolWithRetry_def info_of_def)

definition flaky :: "nat \<Rightarrow> thrown + nat" where
  "flaky i = (if i < 2 then Inl (ThrownValue (JObj [(''status'', JNum 429)])) else Inr i)"

lemma retry_terminates_witness:
  "\<exists>k infos. executeToolWithRetry flaky (new_budget default_retry_config) default_retry_config (\<lambda>_. 1 / 2)
      = Some (flaky k, 2 - k, infos) \<and> k = 2 \<and> map ri_delayMs infos = [250, 500]"
proof -
  have t: "transient (flaky j) \<longleftrightarrow> j < 2" for j
    by (simp add: transient_def flaky_def isRetryableToolError_def statusOf_def retryable_status_def
        js_get_def map_filter_simps)
  obtain k infos where k: "k \<le> 2"
    "executeToolWithRetry flaky 2 default_retry_config (\<lambda>_. 1 / 2) = Some (flaky k, 2 - k, infos)"
    "\<forall>j < k. transient (flaky j)" "k = 2 \<or> \<not> transient (flaky k)"
    "infos = map (info_of flaky default_retry_config (\<lambda>_. 1 / 2)) [0..<k]"
    using retry_terminates [of default_retry_config 2 flaky "\<lambda>_. 1 / 2"]
    by (auto simp: default_retry_config_def)
  then have "k = 2" using t by auto
  moreover have "map ri_delayMs infos = [250, 500]"
    using k(5) \<open>k = 2\<close>
    by (simp add: info_of_def retry_backoff_ms_def default_retry_config_def js_round_def upt_rec floor_eq_iff)
  ultimately show ?thesis
    using k(2) by (auto simp: new_budget_def default_retry_config_def)
qed

end
