(* ===== verification/IsoTime.thy ===== *)
theory IsoTime
  imports Prelude
begin

text \<open>
  \<open>new Date(t).toISOString()\<close> for a time from the epoch on, and the fact that the components
  which keep such texts rely on: up to the end of the year 9999, comparing two of them as
  texts compares the times.  (Later years have six digits and a sign, which sorts first.)
\<close>

subsection \<open>The calendar\<close>

definition leap :: "nat \<Rightarrow> bool" where
  "leap y \<longleftrightarrow> y mod 4 = 0 \<and> (y mod 100 \<noteq> 0 \<or> y mod 400 = 0)"

definition month_days :: "nat \<Rightarrow> nat list" where
  "month_days y = [31, if leap y then 29 else 28, 31, 30, 31, 30, 31, 31, 30, 31, 30, 31]"

definition year_days :: "nat \<Rightarrow> nat" where
  "year_days y = (if leap y then 366 else 365)"

lemma year_days_pos [simp]: "0 < year_days y"
  by (simp add: year_days_def)

lemma sum_month_days: "sum_list (month_days y) = year_days y"
  by (simp add: month_days_def year_days_def)

text \<open>The year of a day counted from the first of January of \<open>y\<close>, and the day of that year.\<close>

function civil_year :: "nat \<Rightarrow> nat \<Rightarrow> nat \<times> nat" where
  "civil_year y d = (if d < year_days y then (y, d) else civil_year (y + 1) (d - year_days y))"
  by auto
termination
proof (relation "measure snd")
  fix y d
  assume "\<not> d < year_days y"
  then have "0 < d" using year_days_pos [of y] by linarith
  then show "((y + 1, d - year_days y), (y, d)) \<in> measure snd" by simp
qed simp

declare civil_year.simps [simp del]

fun civil_month :: "nat list \<Rightarrow> nat \<Rightarrow> nat \<Rightarrow> nat \<times> nat" where
  "civil_month [] m d = (m, d)"
| "civil_month (l # ls) m d = (if d < l then (m, d) else civil_month ls (m + 1) (d - l))"

fun pad :: "nat \<Rightarrow> nat \<Rightarrow> string" where
  "pad 0 n = []"
| "pad (Suc k) n = pad k (n div 10) @ [char_of (48 + n mod 10)]"

definition iso_year :: "time \<Rightarrow> nat" where
  "iso_year t = fst (civil_year 1970 (nat t div 86400000))"

definition iso_years :: "nat \<Rightarrow> string" where
  "iso_years y = (if y < 10000 then pad 4 y else ''+'' @ pad 6 y)"

definition iso_date :: "nat \<Rightarrow> string \<Rightarrow> string" where
  "iso_date day rest = (case civil_year 1970 day of (y, doy) \<Rightarrow>
     case civil_month (month_days y) 1 doy of (m, d) \<Rightarrow>
       iso_years y @ ''-'' @ pad 2 m @ ''-'' @ pad 2 (d + 1) @ rest)"

definition iso_clock :: "nat \<Rightarrow> string" where
  "iso_clock ms = ''T'' @ pad 2 (ms div 3600000) @ '':'' @ pad 2 (ms mod 3600000 div 60000)
     @ '':'' @ pad 2 (ms mod 3600000 mod 60000 div 1000)
     @ ''.'' @ pad 3 (ms mod 3600000 mod 60000 mod 1000) @ ''Z''"

definition toISOString :: "time \<Rightarrow> string" where
  "toISOString t = iso_date (nat t div 86400000) (iso_clock (nat t mod 86400000))"

subsection \<open>Order of the texts\<close>

lemma length_pad [simp]: "length (pad k n) = k"
  by (induction k arbitrary: n) auto

lemma less_append:
  fixes xs ys :: "'a::linorder list"
  shows "length xs = length ys \<Longrightarrow> xs < ys \<Longrightarrow> xs @ us < ys @ vs"
  by (induction xs ys rule: list_induct2) (auto simp: Cons_less_Cons)

lemma less_prefix: "us < vs \<Longrightarrow> xs @ us < xs @ (vs :: 'a::linorder list)"
  by (induction xs) (auto simp: Cons_less_Cons)

lemma digit_less: "m < n \<Longrightarrow> n < 10 \<Longrightarrow> (char_of (48 + m :: nat) :: char) < char_of (48 + n)"
  using code_char_of [of "48 + m"] code_char_of [of "48 + n"] by (simp add: less_char_def code_def)

lemma div_mod_less: "a < b \<Longrightarrow> a div k < b div k \<or> a div k = b div k \<and> a mod k < b mod (k::nat)"
  by (metis div_le_mono div_mult_mod_eq le_neq_implies_less less_imp_le nat_add_left_cancel_less)

lemma pad_less: "m < n \<Longrightarrow> n < 10 ^ k \<Longrightarrow> pad k m < pad k n"
proof (induction k arbitrary: m n)
  case (Suc k)
  have n: "n div 10 < 10 ^ k" using Suc.prems(2) by (simp add: less_mult_imp_div_less mult.commute)
  from div_mod_less [OF Suc.prems(1), of 10] show ?case
  proof
    assume "m div 10 < n div 10"
    then show ?thesis using Suc.IH [OF _ n] by (auto intro: less_append)
  next
    assume a: "m div 10 = n div 10 \<and> m mod 10 < n mod 10"
    then have "[char_of (48 + m mod 10)] < [char_of (48 + n mod 10) :: char]"
      using digit_less [of "m mod 10" "n mod 10"] by (simp add: Cons_less_Cons)
    from less_prefix [OF this, of "pad k (n div 10)"] show ?thesis using a by simp
  qed
qed simp

text \<open>One field of the text, and what follows it.\<close>

lemma field_less:
  "m < n \<and> n < 10 ^ k \<or> m = n \<and> us < vs \<Longrightarrow> pad k m @ us < pad k n @ vs"
  using pad_less by (auto intro: less_append less_prefix)

lemma clock_less:
  assumes "a < b" "b < 86400000"
  shows "iso_clock a < iso_clock b"
proof -
  define h h' r r' where "h = a div 3600000" and "h' = b div 3600000"
    and "r = a mod 3600000" and "r' = b mod 3600000"
  define m m' s s' where "m = r div 60000" and "m' = r' div 60000"
    and "s = r mod 60000" and "s' = r' mod 60000"
  have 1: "h < h' \<or> h = h' \<and> r < r'"
    unfolding h_def h'_def r_def r'_def by (rule div_mod_less [OF assms(1)])
  have 2: "r < r' \<Longrightarrow> m < m' \<or> m = m' \<and> s < s'"
    unfolding m_def m'_def s_def s'_def by (rule div_mod_less)
  have 3: "s < s' \<Longrightarrow> s div 1000 < s' div 1000 \<or> s div 1000 = s' div 1000 \<and> s mod 1000 < s' mod 1000"
    by (rule div_mod_less)
  have b: "h' < 10 ^ 2" "m' < 10 ^ 2" "s' div 1000 < 10 ^ 2" "s' mod 1000 < 10 ^ 3"
    using assms(2) by (auto simp: h'_def m'_def r'_def s'_def less_mult_imp_div_less)
  have ms: "s < s' \<Longrightarrow> s div 1000 = s' div 1000 \<Longrightarrow>
      ''.'' @ pad 3 (s mod 1000) @ ''Z'' < ''.'' @ pad 3 (s' mod 1000) @ ''Z''"
    using 3 b(4) by (intro less_prefix field_less) auto
  have sec: "s < s' \<Longrightarrow> '':'' @ pad 2 (s div 1000) @ ''.'' @ pad 3 (s mod 1000) @ ''Z''
      < '':'' @ pad 2 (s' div 1000) @ ''.'' @ pad 3 (s' mod 1000) @ ''Z''"
    using 3 b(3) ms by (intro less_prefix field_less) auto
  have mnt: "r < r' \<Longrightarrow> '':'' @ pad 2 m @ '':'' @ pad 2 (s div 1000) @ ''.'' @ pad 3 (s mod 1000) @ ''Z''
      < '':'' @ pad 2 m' @ '':'' @ pad 2 (s' div 1000) @ ''.'' @ pad 3 (s' mod 1000) @ ''Z''"
    using 2 b(2) sec by (intro less_prefix field_less) auto
  have "''T'' @ pad 2 h @ '':'' @ pad 2 m @ '':'' @ pad 2 (s div 1000) @ ''.'' @ pad 3 (s mod 1000) @ ''Z''
      < ''T'' @ pad 2 h' @ '':'' @ pad 2 m' @ '':'' @ pad 2 (s' div 1000) @ ''.'' @ pad 3 (s' mod 1000) @ ''Z''"
    using 1 b(1) mnt by (intro less_prefix field_less) auto
  then show ?thesis
    by (simp only: iso_clock_def h_def h'_def r_def r'_def m_def m'_def s_def s'_def)
qed

lemma civil_year_ge: "y \<le> fst (civil_year y d)"
proof (induction y d rule: civil_year.induct)
  case (1 y d)
  then show ?case by (cases "d < year_days y") (simp_all add: civil_year.simps [of y d])
qed

lemma civil_year_day: "snd (civil_year y d) < year_days (fst (civil_year y d))"
proof (induction y d rule: civil_year.induct)
  case (1 y d)
  then show ?case by (simp add: civil_year.simps [of y d])
qed

lemma civil_year_less:
  "d < d' \<Longrightarrow> fst (civil_year y d) < fst (civil_year y d')
     \<or> fst (civil_year y d) = fst (civil_year y d') \<and> snd (civil_year y d) < snd (civil_year y d')"
proof (induction y d arbitrary: d' rule: civil_year.induct)
  case (1 y d)
  show ?case
  proof (cases "d < year_days y")
    case True
    then show ?thesis
      using 1(2) civil_year_ge [of "y + 1" "d' - year_days y"]
      by (auto simp: civil_year.simps [of y d] civil_year.simps [of y d'])
  next
    case False
    then have "d - year_days y < d' - year_days y" using 1(2) by simp
    from 1(1) [OF False this] False 1(2) show ?thesis
      by (auto simp: civil_year.simps [of y d] civil_year.simps [of y d'])
  qed
qed

lemma civil_month_ge: "m \<le> fst (civil_month ls m d)"
  by (induction ls arbitrary: m d) (auto intro: Suc_leD)

lemma civil_month_less:
  "d < d' \<Longrightarrow> fst (civil_month ls m d) < fst (civil_month ls m d')
     \<or> fst (civil_month ls m d) = fst (civil_month ls m d') \<and> snd (civil_month ls m d) < snd (civil_month ls m d')"
proof (induction ls arbitrary: m d d')
  case (Cons l ls)
  show ?case
  proof (cases "d < l")
    case True
    then show ?thesis using Cons.prems civil_month_ge [of "m + 1" ls "d' - l"] by auto
  next
    case False
    then have "d - l < d' - l" using Cons.prems by simp
    with Cons.IH [OF this, of "m + 1"] False Cons.prems show ?thesis by auto
  qed
qed simp

lemma civil_month_bound:
  "d < sum_list ls \<Longrightarrow> fst (civil_month ls m d) < m + length ls \<and> (\<exists>l \<in> set ls. snd (civil_month ls m d) < l)"
proof (induction ls arbitrary: m d)
  case (Cons l ls)
  then show ?case using Cons.IH [of "d - l" "m + 1"] by auto
qed simp

lemma month_bounds:
  assumes "civil_month (month_days y) 1 doy = (m, d)" "doy < year_days y"
  shows "m < 13 \<and> d < 31"
proof -
  have "doy < sum_list (month_days y)" using assms(2) by (simp add: sum_month_days)
  from civil_month_bound [OF this, of 1] assms(1) have "m < 1 + length (month_days y)"
    and "\<exists>l \<in> set (month_days y). d < l" by simp_all
  then show ?thesis by (auto simp: month_days_def split: if_splits)
qed

text \<open>A date text and whatever follows it.\<close>

lemma date_less:
  assumes "day < day' \<or> day = day' \<and> us < vs" "fst (civil_year 1970 day') < 10000"
  shows "iso_date day us < iso_date day' vs"
proof -
  obtain y doy y' doy' where c: "civil_year 1970 day = (y, doy)" "civil_year 1970 day' = (y', doy')"
    by fastforce
  obtain m d m' d' where e: "civil_month (month_days y) 1 doy = (m, d)"
    "civil_month (month_days y') 1 doy' = (m', d')" by fastforce
  have b: "m' < 13 \<and> d' < 31"
    using month_bounds [OF e(2)] civil_year_day [of 1970 day'] c(2) by simp
  have y: "y < y' \<or> y = y' \<and> (doy < doy' \<or> doy = doy' \<and> us < vs)"
    using civil_year_less [of day day' 1970] assms(1) c by auto
  have m: "y = y' \<Longrightarrow> doy < doy' \<Longrightarrow> m < m' \<or> m = m' \<and> d < d'"
    using civil_month_less [of doy doy' "month_days y" 1] e by auto
  have yy: "y < 10000" "y' < 10000" using y assms(2) c(2) by auto
  have same: "y = y' \<Longrightarrow> doy = doy' \<Longrightarrow> m = m' \<and> d = d'" using e by simp
  have "pad 4 y @ ''-'' @ pad 2 m @ ''-'' @ pad 2 (d + 1) @ us
      < pad 4 y' @ ''-'' @ pad 2 m' @ ''-'' @ pad 2 (d' + 1) @ vs"
  proof (rule field_less)
    have dd: "m = m' \<Longrightarrow> d < d' \<or> d = d' \<and> us < vs \<Longrightarrow>
        ''-'' @ pad 2 (d + 1) @ us < ''-'' @ pad 2 (d' + 1) @ vs"
      using b by (intro less_prefix field_less) auto
    have "y = y' \<Longrightarrow> ''-'' @ pad 2 m @ ''-'' @ pad 2 (d + 1) @ us < ''-'' @ pad 2 m' @ ''-'' @ pad 2 (d' + 1) @ vs"
      using y m same b dd by (intro less_prefix field_less) auto
    then show "y < y' \<and> y' < 10 ^ 4 \<or> y = y' \<and>
        ''-'' @ pad 2 m @ ''-'' @ pad 2 (d + 1) @ us < ''-'' @ pad 2 m' @ ''-'' @ pad 2 (d' + 1) @ vs"
      using y assms(2) c(2) by auto
  qed
  then show ?thesis by (simp add: iso_date_def c e [simplified] iso_years_def yy)
qed

lemma toISOString_less:
  assumes "0 \<le> t" "t < t'" "iso_year t' < 10000"
  shows "toISOString t < toISOString t'"
proof -
  have "nat t < nat t'" using assms(1,2) by simp
  from div_mod_less [OF this, of 86400000]
  have "nat t div 86400000 < nat t' div 86400000 \<or>
      nat t div 86400000 = nat t' div 86400000 \<and>
      iso_clock (nat t mod 86400000) < iso_clock (nat t' mod 86400000)"
    using clock_less by auto
  then show ?thesis using assms(3) unfolding toISOString_def iso_year_def by (rule date_less)
qed

lemma toISOString_le:
  assumes "0 \<le> t" "0 \<le> t'" "iso_year t < 10000" "iso_year t' < 10000"
  shows "toISOString t \<le> toISOString t' \<longleftrightarrow> t \<le> t'"
  using toISOString_less [of t t'] toISOString_less [of t' t] assms
  by (metis leD le_less linorder_not_less)

lemma pad_numeral: "0 < k \<Longrightarrow> pad k n = pad (k - 1) (n div 10) @ [char_of (48 + n mod 10)]"
  by (cases k) simp_all

lemma pad_eval:
  "pad 2 n = [char_of (48 + n div 10 mod 10), char_of (48 + n mod 10)]"
  "pad 3 n = [char_of (48 + n div 10 div 10 mod 10), char_of (48 + n div 10 mod 10), char_of (48 + n mod 10)]"
  "pad 4 n = [char_of (48 + n div 10 div 10 div 10 mod 10), char_of (48 + n div 10 div 10 mod 10),
     char_of (48 + n div 10 mod 10), char_of (48 + n mod 10)]"
  by (simp_all add: pad_numeral del: div_mult2_eq One_nat_def)

lemmas iso_eval = toISOString_def iso_date_def iso_years_def iso_clock_def civil_year.simps year_days_def leap_def
  month_days_def pad_eval char_of_def bit_0

lemma toISOString_sample: "toISOString 951827696789 = ''2000-02-29T12:34:56.789Z''"
  by (simp add: iso_eval)

end
