(* ===== verification/PulseStore.thy ===== *)
theory PulseStore
  imports SqlTable IsoTime JsRegex
begin

text \<open>
  The local task store, \<open>src/src/pulse/local-store.ts\<close>: projects, tasks (with alerts and
  pending actions as modes of a task) and comments in three tables, and every operation that
  changes them.  The full-text index is not modelled, nor are the searches through it.  The
  clock readings of one operation are one reading, and a random identifier is an argument.
  The transitions of a task through its workflow are in \<open>PulseBoard\<close>.
\<close>

subsection \<open>Schedules\<close>

text \<open>\<open>/^(?:every\s+)?(\d+)\s*(s|m|h|d)$/i\<close>\<close>

definition schedule_re :: re where
  "schedule_re = RSeqs [RBol, ROpt (RSeqs [RLit ''every'', RPlus RSpace]), RGrp 1 (RPlus RDigit),
     RStar RSpace, RGrp 2 (RAlts [RLit ''s'', RLit ''m'', RLit ''h'', RLit ''d'']), REol]"

definition schedule_unit :: "string \<Rightarrow> int" where
  "schedule_unit u = (if u = ''s'' then 1000 else if u = ''h'' then 3600000
     else if u = ''d'' then 86400000 else 60000)"

definition parseScheduleMs :: "string \<Rightarrow> int option" where
  "parseScheduleMs schedule = (case re_match True schedule_re schedule of
      None \<Rightarrow> None
    | Some m \<Rightarrow> (case (rm_group m 1, rm_group m 2) of
        (Some n, Some u) \<Rightarrow> Some (int (parse_nat n) * schedule_unit (js_lower u))
      | _ \<Rightarrow> None))"

datatype pulse_error = ConstraintFailed | InvalidTimeValue

text \<open>The latest time a \<open>Date\<close> holds; beyond it \<open>toISOString\<close> throws.\<close>

definition max_date :: time where "max_date = 8640000000000000"

definition computeNextRun_pulse :: "string \<Rightarrow> time \<Rightarrow> pulse_error + string option" where
  "computeNextRun_pulse schedule from = (case parseScheduleMs schedule of
      None \<Rightarrow> Inr None
    | Some ms \<Rightarrow>
        if ms = 0 then Inr None
        else if max_date < from + ms then Inl InvalidTimeValue
        else Inr (Some (toISOString (from + ms))))"

subsection \<open>Rows\<close>

record pulse_project =
  pp_id :: string
  pp_name :: string
  pp_key :: string
  pp_description :: string
  pp_default_assignee :: "string option"
  pp_created_at :: string
  pp_remote_id :: "int option"

datatype item_mode = TaskMode | AlertMode | ActionMode

record pulse_task =
  pt_id :: string
  pt_project_id :: "string option"
  pt_project_key :: "string option"
  pt_item_key :: string
  pt_mode :: item_mode
  pt_item_type :: "string option"
  pt_title :: string
  pt_description :: string
  pt_status :: string
  pt_priority :: string
  pt_severity :: "string option"
  pt_assignee :: "string option"
  pt_created_by :: "string option"
  pt_labels :: "string list"
  pt_due_date :: "string option"
  pt_start_date :: "string option"
  pt_completed_at :: "string option"
  pt_created_at :: string
  pt_updated_at :: string
  pt_source :: "string option"
  pt_source_id :: "string option"
  pt_source_url :: "string option"
  pt_fingerprint :: "string option"
  pt_payload :: jsobj
  pt_acknowledged_at :: "string option"
  pt_acknowledged_by :: "string option"
  pt_is_recurring :: bool
  pt_schedule :: "string option"
  pt_next_run_at :: "string option"
  pt_last_triggered_at :: "string option"
  pt_workflow :: "string option"
  pt_workflow_status :: "string option"
  pt_rejection_reason :: "string option"
  pt_linked_task_id :: "string option"
  pt_transition_to :: "string option"
  pt_assignment_group :: "string option"
  pt_remote_id :: "string option"
  pt_remote_key :: "string option"
  pt_dirty :: bool
  pt_last_synced :: "string option"

record pulse_comment =
  pc_id :: string
  pc_task_id :: string
  pc_author :: string
  pc_content :: string
  pc_created_at :: string

record pulse_db =
  pd_projects :: "pulse_project list"
  pd_tasks :: "pulse_task list"
  pd_comments :: "pulse_comment list"

text \<open>An operation changes the tables and returns a value, or throws and changes nothing.\<close>

type_synonym 'a pulse_result = "pulse_error + pulse_db \<times> 'a"

definition alter_tasks :: "(pulse_task \<Rightarrow> bool) \<Rightarrow> (pulse_task \<Rightarrow> pulse_task) \<Rightarrow> pulse_db \<Rightarrow> pulse_db" where
  "alter_tasks p f db = db\<lparr>pd_tasks := sql_update p f (pd_tasks db)\<rparr>"

text \<open>\<open>UPDATE tasks SET ... WHERE id = ?\<close>\<close>

definition set_task :: "string \<Rightarrow> (pulse_task \<Rightarrow> pulse_task) \<Rightarrow> pulse_db \<Rightarrow> pulse_db" where
  "set_task k f db = alter_tasks (\<lambda>t. pt_id t = k) f db"

text \<open>\<open>x ?? y\<close> on optional texts, and \<open>!!x\<close>.\<close>

definition given_or :: "'a option \<Rightarrow> 'a option \<Rightarrow> 'a option" where
  "given_or a b = (case a of None \<Rightarrow> b | Some v \<Rightarrow> Some v)"

definition given_text :: "string option \<Rightarrow> bool" where
  "given_text a \<longleftrightarrow> (case a of None \<Rightarrow> False | Some s \<Rightarrow> s \<noteq> [])"

definition default_to :: "'a \<Rightarrow> 'a option \<Rightarrow> 'a" where
  "default_to d a = (case a of None \<Rightarrow> d | Some v \<Rightarrow> v)"

subsection \<open>Projects\<close>

definition getProject :: "string \<Rightarrow> pulse_db \<Rightarrow> pulse_project option" where
  "getProject idOrKey db = find (\<lambda>p. pp_id p = idOrKey \<or> pp_key p = js_upper idOrKey) (pd_projects db)"

record project_opts =
  po_name :: string
  po_key :: string
  po_description :: "string option"
  po_default_assignee :: "string option"
  po_remote_id :: "int option"

definition new_project :: "string \<Rightarrow> time \<Rightarrow> project_opts \<Rightarrow> pulse_project" where
  "new_project uuid now opts = \<lparr>pp_id = uuid, pp_name = po_name opts, pp_key = js_upper (po_key opts),
     pp_description = default_to [] (po_description opts), pp_default_assignee = po_default_assignee opts,
     pp_created_at = toISOString now, pp_remote_id = po_remote_id opts\<rparr>"

definition createProject :: "string \<Rightarrow> time \<Rightarrow> project_opts \<Rightarrow> pulse_db \<Rightarrow> pulse_project option pulse_result" where
  "createProject uuid now opts db =
     (if \<exists>p \<in> set (pd_projects db). pp_id p = uuid \<or> pp_key p = js_upper (po_key opts)
      then Inl ConstraintFailed
      else let db' = db\<lparr>pd_projects := pd_projects db @ [new_project uuid now opts]\<rparr> in
        Inr (db', getProject uuid db'))"

definition listProjects :: "pulse_db \<Rightarrow> pulse_project list" where
  "listProjects db = js_sort (ascending pp_name) (pd_projects db)"

text \<open>\<open>SELECT * FROM projects ORDER BY created_at LIMIT 1\<close>\<close>

definition first_project :: "pulse_db \<Rightarrow> pulse_project option" where
  "first_project db = (case js_sort (ascending pp_created_at) (pd_projects db) of
      [] \<Rightarrow> None | p # _ \<Rightarrow> Some p)"

text \<open>A new database file: the default project is seeded.\<close>

definition general_project :: project_opts where
  "general_project = \<lparr>po_name = ''General'', po_key = ''GEN'', po_description = Some ''Default project'',
     po_default_assignee = None, po_remote_id = None\<rparr>"

definition open_store :: "string \<Rightarrow> time \<Rightarrow> pulse_db \<Rightarrow> pulse_db" where
  "open_store uuid now db =
     (if pd_projects db = []
      then (case createProject uuid now general_project db of Inl e \<Rightarrow> db | Inr (db', p) \<Rightarrow> db')
      else db)"

definition empty_db :: pulse_db where
  "empty_db = \<lparr>pd_projects = [], pd_tasks = [], pd_comments = []\<rparr>"

subsection \<open>Creating tasks\<close>

text \<open>
  The row with the highest number in its key, as \<open>ORDER BY CAST(SUBSTR(...) AS INTEGER) DESC
  LIMIT 1\<close> gives it, and the key after it.
\<close>

definition key_number :: "string \<Rightarrow> pulse_task \<Rightarrow> int" where
  "key_number projectKey t = sql_int (drop (length projectKey + 1) (pt_item_key t))"

definition nextItemKey :: "string \<Rightarrow> pulse_db \<Rightarrow> string" where
  "nextItemKey projectKey db = projectKey @ ''-'' @
     (case js_sort (descending (key_number projectKey))
             (filter (\<lambda>t. pt_project_key t = Some projectKey) (pd_tasks db)) of
        [] \<Rightarrow> ''1''
      | t # _ \<Rightarrow>
          if pt_item_key t = [] then ''1''
          else (case js_parse_int (last (js_split CHR ''-'' (pt_item_key t))) of
                  None \<Rightarrow> ''NaN'' | Some n \<Rightarrow> show_int (n + 1)))"

text \<open>The columns an \<open>INSERT\<close> does not name have their declared defaults.\<close>

definition default_row :: "string \<Rightarrow> pulse_project option \<Rightarrow> string \<Rightarrow> string \<Rightarrow> time \<Rightarrow> pulse_task" where
  "default_row uuid project itemKey title now =
     \<lparr>pt_id = uuid, pt_project_id = map_option pp_id project, pt_project_key = map_option pp_key project,
      pt_item_key = itemKey, pt_mode = TaskMode, pt_item_type = None, pt_title = title,
      pt_description = [], pt_status = ''pending'', pt_priority = ''normal'', pt_severity = None,
      pt_assignee = None, pt_created_by = None, pt_labels = [], pt_due_date = None,
      pt_start_date = None, pt_completed_at = None, pt_created_at = toISOString now,
      pt_updated_at = toISOString now, pt_source = None, pt_source_id = None, pt_source_url = None,
      pt_fingerprint = None, pt_payload = [], pt_acknowledged_at = None, pt_acknowledged_by = None,
      pt_is_recurring = False, pt_schedule = None, pt_next_run_at = None, pt_last_triggered_at = None,
      pt_workflow = None, pt_workflow_status = None, pt_rejection_reason = None,
      pt_linked_task_id = None, pt_transition_to = None, pt_assignment_group = None,
      pt_remote_id = None, pt_remote_key = None, pt_dirty = True, pt_last_synced = None\<rparr>"

definition resolve_project :: "string option \<Rightarrow> pulse_db \<Rightarrow> pulse_project option" where
  "resolve_project p db =
     given_or (case p of None \<Rightarrow> None | Some k \<Rightarrow> if k = [] then None else getProject k db) (first_project db)"

definition project_key_of :: "pulse_project option \<Rightarrow> string" where
  "project_key_of p = (case p of None \<Rightarrow> ''GEN'' | Some q \<Rightarrow> pp_key q)"

definition default_assignee_of :: "pulse_project option \<Rightarrow> string option" where
  "default_assignee_of p = (case p of None \<Rightarrow> None | Some q \<Rightarrow> pp_default_assignee q)"

definition getTask :: "string \<Rightarrow> pulse_db \<Rightarrow> pulse_task option" where
  "getTask idOrKey db = find (\<lambda>t. pt_id t = idOrKey \<or> pt_item_key t = js_upper idOrKey
     \<or> pt_remote_key t = Some (js_upper idOrKey)) (pd_tasks db)"

definition insert_task :: "pulse_task \<Rightarrow> pulse_db \<Rightarrow> pulse_task option pulse_result" where
  "insert_task t db =
     (if \<exists>u \<in> set (pd_tasks db). pt_id u = pt_id t then Inl ConstraintFailed
      else let db' = db\<lparr>pd_tasks := pd_tasks db @ [t]\<rparr> in Inr (db', getTask (pt_id t) db'))"

record task_opts =
  to_title :: string
  to_description :: "string option"
  to_project :: "string option"
  to_status :: "string option"
  to_priority :: "string option"
  to_assignee :: "string option"
  to_created_by :: "string option"
  to_labels :: "string list option"
  to_due_date :: "string option"
  to_start_date :: "string option"
  to_schedule :: "string option"
  to_workflow :: "string option"
  to_workflow_status :: "string option"

definition task_row :: "string \<Rightarrow> time \<Rightarrow> task_opts \<Rightarrow> pulse_db \<Rightarrow> pulse_task" where
  "task_row uuid now opts db =
     (let project = resolve_project (to_project opts) db;
          workflow = default_to ''simple'' (to_workflow opts);
          recurring = given_text (to_schedule opts) in
      (default_row uuid project (nextItemKey (project_key_of project) db) (to_title opts) now)
       \<lparr>pt_description := default_to [] (to_description opts),
        pt_status := default_to ''pending'' (to_status opts),
        pt_priority := default_to ''normal'' (to_priority opts),
        pt_assignee := given_or (to_assignee opts) (given_or (default_assignee_of project) (to_created_by opts)),
        pt_created_by := to_created_by opts,
        pt_labels := default_to [] (to_labels opts),
        pt_due_date := to_due_date opts, pt_start_date := to_start_date opts,
        pt_is_recurring := recurring, pt_schedule := to_schedule opts,
        pt_next_run_at := (if recurring then Some (default_to (toISOString now) (to_due_date opts))
                           else to_due_date opts),
        pt_workflow := Some workflow,
        pt_workflow_status := given_or (to_workflow_status opts)
          (if workflow = ''simple'' then Some ''pending'' else None)\<rparr>)"

definition createTask :: "string \<Rightarrow> time \<Rightarrow> task_opts \<Rightarrow> pulse_db \<Rightarrow> pulse_task option pulse_result" where
  "createTask uuid now opts db = insert_task (task_row uuid now opts db) db"

subsection \<open>Updates\<close>

text \<open>\<open>undefined\<close> is \<open>None\<close>, and \<open>null\<close> of a nullable column is \<open>Some None\<close>.\<close>

record task_updates =
  tu_title :: "string option"
  tu_description :: "string option"
  tu_status :: "string option"
  tu_priority :: "string option"
  tu_assignee :: "string option"
  tu_labels :: "string list option"
  tu_due_date :: "string option option"
  tu_start_date :: "string option option"
  tu_schedule :: "string option option"
  tu_workflow :: "string option option"
  tu_workflow_status :: "string option option"
  tu_assignment_group :: "string option option"

definition no_updates :: task_updates where
  "no_updates = \<lparr>tu_title = None, tu_description = None, tu_status = None, tu_priority = None,
     tu_assignee = None, tu_labels = None, tu_due_date = None, tu_start_date = None,
     tu_schedule = None, tu_workflow = None, tu_workflow_status = None, tu_assignment_group = None\<rparr>"

definition set_columns :: "task_updates \<Rightarrow> pulse_task \<Rightarrow> pulse_task" where
  "set_columns u t = t
     \<lparr>pt_title := default_to (pt_title t) (tu_title u),
      pt_description := default_to (pt_description t) (tu_description u),
      pt_status := default_to (pt_status t) (tu_status u),
      pt_priority := default_to (pt_priority t) (tu_priority u),
      pt_assignee := given_or (tu_assignee u) (pt_assignee t),
      pt_labels := default_to (pt_labels t) (tu_labels u),
      pt_due_date := default_to (pt_due_date t) (tu_due_date u),
      pt_start_date := default_to (pt_start_date t) (tu_start_date u),
      pt_schedule := default_to (pt_schedule t) (tu_schedule u),
      pt_workflow := default_to (pt_workflow t) (tu_workflow u),
      pt_workflow_status := default_to (pt_workflow_status t) (tu_workflow_status u),
      pt_assignment_group := default_to (pt_assignment_group t) (tu_assignment_group u)\<rparr>"

text \<open>The columns that follow a changed schedule; a later assignment of a column wins.\<close>

definition set_schedule :: "string option option \<Rightarrow> time \<Rightarrow> pulse_error + (pulse_task \<Rightarrow> pulse_task)" where
  "set_schedule schedule now = (case schedule of
      None \<Rightarrow> Inr (\<lambda>t. t)
    | Some s \<Rightarrow>
        if given_text s
        then (case computeNextRun_pulse (the s) now of
                Inl e \<Rightarrow> Inl e
              | Inr None \<Rightarrow> Inr (\<lambda>t. t\<lparr>pt_is_recurring := True\<rparr>)
              | Inr (Some next) \<Rightarrow> Inr (\<lambda>t. t\<lparr>pt_is_recurring := True, pt_next_run_at := Some next\<rparr>))
        else Inr (\<lambda>t. t\<lparr>pt_is_recurring := False, pt_next_run_at := None\<rparr>))"

definition set_dates :: "string option \<Rightarrow> pulse_task \<Rightarrow> string \<Rightarrow> pulse_task \<Rightarrow> pulse_task" where
  "set_dates status old now t =
     (let t1 = (if status = Some ''completed'' \<and> pt_status old \<noteq> ''completed''
                then t\<lparr>pt_completed_at := Some now\<rparr> else t);
          t2 = (if status = Some ''in_progress'' \<and> \<not> given_text (pt_start_date old)
                then t1\<lparr>pt_start_date := Some now\<rparr> else t1)
      in t2\<lparr>pt_updated_at := now, pt_dirty := True\<rparr>)"

definition updateTask :: "string \<Rightarrow> task_updates \<Rightarrow> time \<Rightarrow> pulse_db \<Rightarrow> pulse_task option pulse_result" where
  "updateTask idOrKey u now db = (case getTask idOrKey db of
      None \<Rightarrow> Inr (db, None)
    | Some task \<Rightarrow>
        (case set_schedule (tu_schedule u) now of
           Inl e \<Rightarrow> Inl e
         | Inr sched \<Rightarrow>
             let db' = set_task (pt_id task)
               (\<lambda>t. set_dates (tu_status u) task (toISOString now) (sched (set_columns u t))) db
             in Inr (db', getTask (pt_id task) db')))"

definition completeTask :: "string \<Rightarrow> time \<Rightarrow> pulse_db \<Rightarrow> pulse_task option pulse_result" where
  "completeTask idOrKey now db = (case getTask idOrKey db of
      None \<Rightarrow> Inr (db, None)
    | Some task \<Rightarrow>
        if pt_is_recurring task \<and> given_text (pt_schedule task)
        then (case computeNextRun_pulse (the (pt_schedule task)) now of
                Inl e \<Rightarrow> Inl e
              | Inr next \<Rightarrow>
                  let db' = set_task (pt_id task) (\<lambda>t. t\<lparr>pt_status := ''pending'', pt_completed_at := None,
                    pt_next_run_at := next, pt_updated_at := toISOString now\<rparr>) db
                  in Inr (db', getTask (pt_id task) db'))
        else updateTask idOrKey (no_updates\<lparr>tu_status := Some ''completed''\<rparr>) now db)"

definition cancelRecurring :: "string \<Rightarrow> time \<Rightarrow> pulse_db \<Rightarrow> pulse_task option pulse_result" where
  "cancelRecurring idOrKey now db = (case getTask idOrKey db of
      None \<Rightarrow> Inr (db, None)
    | Some task \<Rightarrow>
        let db' = set_task (pt_id task) (\<lambda>t. t\<lparr>pt_status := ''cancelled'', pt_is_recurring := False,
          pt_schedule := None, pt_next_run_at := None, pt_completed_at := Some (toISOString now),
          pt_updated_at := toISOString now\<rparr>) db
        in Inr (db', getTask (pt_id task) db'))"

text \<open>Deleting a task deletes its comments (\<open>ON DELETE CASCADE\<close>).\<close>

definition deleteTask :: "string \<Rightarrow> pulse_db \<Rightarrow> bool pulse_result" where
  "deleteTask idOrKey db = (case getTask idOrKey db of
      None \<Rightarrow> Inr (db, False)
    | Some task \<Rightarrow> Inr (db\<lparr>pd_tasks := sql_delete (\<lambda>t. pt_id t = pt_id task) (pd_tasks db),
        pd_comments := sql_delete (\<lambda>c. pc_task_id c = pt_id task) (pd_comments db)\<rparr>, True))"

subsection \<open>Queries\<close>

record list_opts =
  lo_status :: "string option"
  lo_assignee :: "string option"
  lo_project :: "string option"
  lo_priority :: "string option"
  lo_limit :: "int option"
  lo_include_completed :: bool

definition closed_status :: "string \<Rightarrow> bool" where
  "closed_status s \<longleftrightarrow> s = ''completed'' \<or> s = ''cancelled''"

definition list_where :: "list_opts \<Rightarrow> pulse_task \<Rightarrow> bool" where
  "list_where opts t \<longleftrightarrow>
     (given_text (lo_status opts) \<longrightarrow> Some (pt_status t) = lo_status opts) \<and>
     (given_text (lo_assignee opts) \<longrightarrow> pt_assignee t = lo_assignee opts) \<and>
     (given_text (lo_project opts) \<longrightarrow> pt_project_key t = map_option js_upper (lo_project opts)
        \<or> pt_project_id t = lo_project opts) \<and>
     (given_text (lo_priority opts) \<longrightarrow> Some (pt_priority t) = lo_priority opts) \<and>
     (\<not> lo_include_completed opts \<and> \<not> given_text (lo_status opts) \<longrightarrow> \<not> closed_status (pt_status t))"

text \<open>The \<open>CASE\<close> of the priorities; it is \<open>NULL\<close> for any other text and sorts first.\<close>

definition priority_rank :: "pulse_task \<Rightarrow> int" where
  "priority_rank t = (if pt_priority t = ''urgent'' then 0 else if pt_priority t = ''high'' then 1
     else if pt_priority t = ''normal'' then 2 else if pt_priority t = ''low'' then 3 else - 1)"

definition list_order :: "pulse_task \<Rightarrow> pulse_task \<Rightarrow> int" where
  "list_order = order_by [ascending priority_rank,
     ascending (\<lambda>t. if pt_due_date t \<noteq> None then 0 else 1 :: int),
     ascending (\<lambda>t. nulls_first (pt_due_date t)), descending pt_created_at]"

definition listTasks :: "list_opts \<Rightarrow> pulse_db \<Rightarrow> pulse_task list" where
  "listTasks opts db = sql_limit (default_to 50 (lo_limit opts))
     (js_sort list_order (filter (list_where opts) (pd_tasks db)))"

definition getMyTasks :: "string \<Rightarrow> string option \<Rightarrow> int \<Rightarrow> pulse_db \<Rightarrow> pulse_task list" where
  "getMyTasks username status limit db = listTasks \<lparr>lo_status = status, lo_assignee = Some username,
     lo_project = None, lo_priority = None, lo_limit = Some limit,
     lo_include_completed = given_text status\<rparr> db"

definition overdue :: "string \<Rightarrow> pulse_task \<Rightarrow> bool" where
  "overdue now t \<longleftrightarrow> (case pt_due_date t of None \<Rightarrow> False | Some d \<Rightarrow> d < now) \<and> \<not> closed_status (pt_status t)"

definition getOverdueTasks :: "int \<Rightarrow> time \<Rightarrow> pulse_db \<Rightarrow> pulse_task list" where
  "getOverdueTasks limit now db = sql_limit limit
     (js_sort (ascending (\<lambda>t. nulls_first (pt_due_date t)))
       (filter (overdue (toISOString now)) (pd_tasks db)))"

definition count_by :: "(pulse_task \<Rightarrow> string) \<Rightarrow> pulse_task list \<Rightarrow> (string \<times> nat) list" where
  "count_by f ts = map (\<lambda>k. (k, length (filter (\<lambda>t. f t = k) ts)))
     (js_sort (ascending (\<lambda>k. k)) (remdups (map f ts)))"

record pulse_statistics =
  st_total :: nat
  st_by_status :: "(string \<times> nat) list"
  st_by_priority :: "(string \<times> nat) list"
  st_overdue :: nat

definition getStatistics :: "time \<Rightarrow> pulse_db \<Rightarrow> pulse_statistics" where
  "getStatistics now db = \<lparr>st_total = length (pd_tasks db),
     st_by_status = count_by pt_status (pd_tasks db),
     st_by_priority = count_by pt_priority (filter (\<lambda>t. \<not> closed_status (pt_status t)) (pd_tasks db)),
     st_overdue = length (filter (overdue (toISOString now)) (pd_tasks db))\<rparr>"

subsection \<open>Comments and synchronisation\<close>

definition addComment :: "string \<Rightarrow> string \<Rightarrow> string \<Rightarrow> string \<Rightarrow> time \<Rightarrow> pulse_db \<Rightarrow> pulse_comment option pulse_result" where
  "addComment taskIdOrKey author content uuid now db = (case getTask taskIdOrKey db of
      None \<Rightarrow> Inr (db, None)
    | Some task \<Rightarrow>
        if \<exists>c \<in> set (pd_comments db). pc_id c = uuid then Inl ConstraintFailed
        else let c = \<lparr>pc_id = uuid, pc_task_id = pt_id task, pc_author = author, pc_content = content,
                      pc_created_at = toISOString now\<rparr>
          in Inr (set_task (pt_id task) (\<lambda>t. t\<lparr>pt_updated_at := toISOString now, pt_dirty := True\<rparr>)
                (db\<lparr>pd_comments := pd_comments db @ [c]\<rparr>), Some c))"

definition listComments :: "string \<Rightarrow> pulse_db \<Rightarrow> pulse_comment list" where
  "listComments taskIdOrKey db = (case getTask taskIdOrKey db of
      None \<Rightarrow> []
    | Some task \<Rightarrow> js_sort (ascending pc_created_at)
        (filter (\<lambda>c. pc_task_id c = pt_id task) (pd_comments db)))"

definition getDirtyTasks :: "pulse_db \<Rightarrow> pulse_task list" where
  "getDirtyTasks db = filter pt_dirty (pd_tasks db)"

definition markSynced :: "string \<Rightarrow> string \<Rightarrow> string \<Rightarrow> time \<Rightarrow> pulse_db \<Rightarrow> pulse_db" where
  "markSynced taskId remoteId remoteKey now db = set_task taskId (\<lambda>t. t\<lparr>pt_remote_id := Some remoteId,
     pt_remote_key := Some remoteKey, pt_dirty := False, pt_last_synced := Some (toISOString now)\<rparr>) db"

subsection \<open>Due tasks\<close>

definition task_due :: "string \<Rightarrow> pulse_task \<Rightarrow> bool" where
  "task_due now t \<longleftrightarrow> (case pt_next_run_at t of None \<Rightarrow> False | Some r \<Rightarrow> r \<le> now)
     \<and> \<not> closed_status (pt_status t)"

definition getDueTasks :: "time \<Rightarrow> pulse_db \<Rightarrow> pulse_task list" where
  "getDueTasks now db = filter (task_due (toISOString now)) (pd_tasks db)"

definition markTriggered :: "string \<Rightarrow> time \<Rightarrow> pulse_db \<Rightarrow> unit pulse_result" where
  "markTriggered taskId now db = (case getTask taskId db of
      None \<Rightarrow> Inr (db, ())
    | Some task \<Rightarrow>
        let n = toISOString now in
        if pt_is_recurring task \<and> given_text (pt_schedule task)
        then (case computeNextRun_pulse (the (pt_schedule task)) now of
                Inl e \<Rightarrow> Inl e
              | Inr next \<Rightarrow> Inr (set_task taskId (\<lambda>t. t\<lparr>pt_last_triggered_at := Some n,
                  pt_next_run_at := next, pt_status := ''pending'', pt_updated_at := n\<rparr>) db, ()))
        else Inr (set_task taskId (\<lambda>t. t\<lparr>pt_last_triggered_at := Some n, pt_next_run_at := None,
                  pt_status := ''in_progress'', pt_updated_at := n\<rparr>) db, ()))"

subsection \<open>Alerts\<close>

record alert_opts =
  ao_title :: string
  ao_description :: "string option"
  ao_item_type :: "string option"
  ao_severity :: "string option"
  ao_assignee :: "string option"
  ao_source :: "string option"
  ao_source_id :: "string option"
  ao_source_url :: "string option"
  ao_payload :: "jsobj option"
  ao_labels :: "string list option"
  ao_project :: "string option"
  ao_created_by :: "string option"

text \<open>\<open>digest\<close> is the first half of the SHA-256 of a text in hexadecimal digits.\<close>

definition fingerprint :: "(string \<Rightarrow> string) \<Rightarrow> alert_opts \<Rightarrow> string option" where
  "fingerprint digest opts =
     (if given_text (ao_source_id opts)
      then Some (digest (default_to [] (ao_source opts) @ '':'' @ the (ao_source_id opts))) else None)"

definition open_alert :: "string \<Rightarrow> pulse_task \<Rightarrow> bool" where
  "open_alert fp t \<longleftrightarrow> pt_fingerprint t = Some fp \<and> pt_mode t = AlertMode
     \<and> pt_status t \<in> {''firing'', ''acknowledged''}"

definition alert_row :: "string option \<Rightarrow> string \<Rightarrow> time \<Rightarrow> alert_opts \<Rightarrow> pulse_db \<Rightarrow> pulse_task" where
  "alert_row fp uuid now opts db =
     (let project = resolve_project (ao_project opts) db in
      (default_row uuid project (nextItemKey (project_key_of project) db) (ao_title opts) now)
       \<lparr>pt_mode := AlertMode, pt_item_type := Some (default_to ''alert.generic'' (ao_item_type opts)),
        pt_description := default_to [] (ao_description opts), pt_status := ''firing'',
        pt_severity := Some (default_to ''info'' (ao_severity opts)),
        pt_assignee := given_or (ao_assignee opts) (given_or (default_assignee_of project) (ao_created_by opts)),
        pt_created_by := ao_created_by opts, pt_labels := default_to [] (ao_labels opts),
        pt_source := ao_source opts, pt_source_id := ao_source_id opts,
        pt_source_url := ao_source_url opts, pt_fingerprint := fp,
        pt_payload := default_to [] (ao_payload opts)\<rparr>)"

text \<open>A test of the text of the fingerprint precedes the search for an open alert.\<close>

definition fireAlert :: "(string \<Rightarrow> string) \<Rightarrow> string \<Rightarrow> time \<Rightarrow> alert_opts \<Rightarrow> pulse_db \<Rightarrow> pulse_task option pulse_result" where
  "fireAlert digest uuid now opts db =
     (let fp = fingerprint digest opts in
      case (if given_text fp then find (open_alert (the fp)) (pd_tasks db) else None) of
        Some existing \<Rightarrow>
          Inr (set_task (pt_id existing) (\<lambda>t. t\<lparr>pt_updated_at := toISOString now\<rparr>) db, Some existing)
      | None \<Rightarrow> insert_task (alert_row fp uuid now opts db) db)"

text \<open>An operation on an alert: nothing for any other item.\<close>

definition on_alert :: "string \<Rightarrow> (pulse_task \<Rightarrow> pulse_task) \<Rightarrow> pulse_db \<Rightarrow> pulse_task option pulse_result" where
  "on_alert idOrKey f db = (case getTask idOrKey db of
      None \<Rightarrow> Inr (db, None)
    | Some task \<Rightarrow>
        if pt_mode task \<noteq> AlertMode then Inr (db, None)
        else let db' = set_task (pt_id task) f db in Inr (db', getTask (pt_id task) db'))"

definition acknowledgeAlert :: "string \<Rightarrow> string option \<Rightarrow> time \<Rightarrow> pulse_db \<Rightarrow> pulse_task option pulse_result" where
  "acknowledgeAlert idOrKey by_user now db = on_alert idOrKey (\<lambda>t. t\<lparr>pt_status := ''acknowledged'',
     pt_acknowledged_at := Some (toISOString now), pt_acknowledged_by := by_user,
     pt_updated_at := toISOString now\<rparr>) db"

definition resolveAlert :: "string \<Rightarrow> time \<Rightarrow> pulse_db \<Rightarrow> pulse_task option pulse_result" where
  "resolveAlert idOrKey now db = on_alert idOrKey (\<lambda>t. t\<lparr>pt_status := ''resolved'',
     pt_completed_at := Some (toISOString now), pt_updated_at := toISOString now\<rparr>) db"

definition silenceAlert :: "string \<Rightarrow> time \<Rightarrow> pulse_db \<Rightarrow> pulse_task option pulse_result" where
  "silenceAlert idOrKey now db = on_alert idOrKey (\<lambda>t. t\<lparr>pt_status := ''silenced'',
     pt_updated_at := toISOString now\<rparr>) db"

definition getFiringAlerts :: "string option \<Rightarrow> pulse_db \<Rightarrow> pulse_task list" where
  "getFiringAlerts assignee db = sql_limit 50 (js_sort (descending pt_created_at)
     (filter (\<lambda>t. pt_mode t = AlertMode \<and> pt_status t = ''firing''
        \<and> (given_text assignee \<longrightarrow> pt_assignee t = assignee)) (pd_tasks db)))"

subsection \<open>Actions\<close>

record action_opts =
  co_title :: string
  co_description :: "string option"
  co_assignee :: "string option"
  co_created_by :: "string option"
  co_priority :: "string option"
  co_project :: "string option"
  co_labels :: "string list option"
  co_linked_task_id :: "string option"
  co_transition_to :: "string option"
  co_workflow :: "string option"
  co_workflow_status :: "string option"

definition action_row :: "string \<Rightarrow> time \<Rightarrow> action_opts \<Rightarrow> pulse_db \<Rightarrow> pulse_task" where
  "action_row uuid now opts db =
     (let project = resolve_project (co_project opts) db in
      (default_row uuid project (nextItemKey (project_key_of project) db) (co_title opts) now)
       \<lparr>pt_mode := ActionMode, pt_item_type := Some ''action.approval'',
        pt_description := default_to [] (co_description opts),
        pt_priority := default_to ''normal'' (co_priority opts),
        pt_assignee := given_or (co_assignee opts) (given_or (default_assignee_of project) (co_created_by opts)),
        pt_created_by := co_created_by opts, pt_labels := default_to [] (co_labels opts),
        pt_linked_task_id := co_linked_task_id opts, pt_transition_to := co_transition_to opts,
        pt_workflow := co_workflow opts, pt_workflow_status := co_workflow_status opts\<rparr>)"

definition createAction :: "string \<Rightarrow> time \<Rightarrow> action_opts \<Rightarrow> pulse_db \<Rightarrow> pulse_task option pulse_result" where
  "createAction uuid now opts db = insert_task (action_row uuid now opts db) db"

text \<open>A decision on a pending action; nothing for any other item.\<close>

definition decide :: "string \<Rightarrow> (pulse_task \<Rightarrow> pulse_task) \<Rightarrow> pulse_db \<Rightarrow> pulse_task option pulse_result" where
  "decide idOrKey f db = (case getTask idOrKey db of
      None \<Rightarrow> Inr (db, None)
    | Some task \<Rightarrow>
        if pt_mode task \<noteq> ActionMode then Inr (db, None)
        else if pt_status task \<noteq> ''pending'' then Inr (db, None)
        else let db' = set_task (pt_id task) f db in Inr (db', getTask (pt_id task) db'))"

definition approveAction :: "string \<Rightarrow> string option \<Rightarrow> time \<Rightarrow> pulse_db \<Rightarrow> pulse_task option pulse_result" where
  "approveAction idOrKey by_user now db = decide idOrKey (\<lambda>t. t\<lparr>pt_status := ''approved'',
     pt_acknowledged_by := by_user, pt_completed_at := Some (toISOString now),
     pt_updated_at := toISOString now\<rparr>) db"

definition rejectAction :: "string \<Rightarrow> string option \<Rightarrow> string option \<Rightarrow> time \<Rightarrow> pulse_db \<Rightarrow> pulse_task option pulse_result" where
  "rejectAction idOrKey by_user reason now db = decide idOrKey (\<lambda>t. t\<lparr>pt_status := ''rejected'',
     pt_acknowledged_by := by_user, pt_rejection_reason := reason,
     pt_completed_at := Some (toISOString now), pt_updated_at := toISOString now\<rparr>) db"

definition getPendingActions :: "string option \<Rightarrow> pulse_db \<Rightarrow> pulse_task list" where
  "getPendingActions assignee db = sql_limit 50 (js_sort (descending pt_created_at)
     (filter (\<lambda>t. pt_mode t = ActionMode \<and> pt_status t = ''pending''
        \<and> (given_text assignee \<longrightarrow> pt_assignee t = assignee)) (pd_tasks db)))"

end
