(* ===== verification/PulseFacts.thy ===== *)
theory PulseFacts
  imports PulseStore
begin

text \<open>
  What holds of the local task store in every state its operations can reach: the keys of
  the tasks, and the alerts that are open at the same time.
\<close>

subsection \<open>Decimal numbers\<close>

lemma digit_code: "n < 10 \<Longrightarrow> code (char_of (48 + n :: nat)) = 48 + n"
  by (simp add: code_char_of)

lemma show_nat_digits: "show_nat n \<noteq> [] \<and> list_all is_digit (show_nat n)"
proof (induction n rule: show_nat.induct)
  case (1 n)
  then show ?case
    by (cases "n < 10") (simp_all add: show_nat.simps [of n] is_digit_def digit_code)
qed

lemma parse_nat_snoc: "parse_nat (s @ [c]) = 10 * parse_nat s + (code c - 48)"
  by (simp add: parse_nat_def)

lemma parse_show_nat [simp]: "parse_nat (show_nat n) = n"
proof (induction n rule: show_nat.induct)
  case (1 n)
  show ?case
  proof (cases "n < 10")
    case True
    then show ?thesis by (simp add: show_nat.simps [of n] parse_nat_def digit_code)
  next
    case False
    then show ?thesis using 1 by (simp add: show_nat.simps [of n] parse_nat_snoc digit_code)
  qed
qed

lemma show_nat_inject: "show_nat m = show_nat n \<longleftrightarrow> m = n"
  by (metis parse_show_nat)

lemma digit_plain: "is_digit c \<Longrightarrow> \<not> js_ws c \<and> c \<noteq> CHR ''-'' \<and> c \<noteq> CHR ''+'' \<and> upper_char c = c"
  by (auto simp: is_digit_def js_ws_def upper_char_def is_lower_def code_def)

lemma digits_parse:
  assumes "s \<noteq> []" "list_all is_digit s"
  shows "js_parse_int s = Some (int (parse_nat s))"
proof -
  obtain c u where s: "s = c # u" using assms(1) by (cases s) auto
  have c: "\<not> js_ws c" "c \<noteq> CHR ''-''" "c \<noteq> CHR ''+''" using assms(2) s digit_plain [of c] by simp_all
  have "takeWhile is_digit s = s" using assms(2) by (simp add: list_all_iff)
  moreover have "js_trim_start s = s" using c by (simp add: s js_trim_start_def)
  moreover have "\<not> js_starts_with s ''-''" "\<not> js_starts_with s ''+''"
    using c by (simp_all add: s js_starts_with_def)
  ultimately show ?thesis using assms(1) by (simp add: js_parse_int_def Let_def del: takeWhile_eq_all_conv)
qed

lemma parse_int_show [simp]: "js_parse_int (show_nat n) = Some (int n)"
  using show_nat_digits [of n] by (simp add: digits_parse)

lemma show_nat_no_dash: "CHR ''-'' \<notin> set (show_nat n)"
  using show_nat_digits [of n] digit_plain by (auto simp: list_all_iff)

lemma split_tail: "c \<notin> set w \<Longrightarrow> \<exists>u v. js_split c (a @ c # w) = u # v @ [w]"
proof (induction a)
  case Nil
  then show ?case by (simp add: js_split_no_sep)
next
  case (Cons x a)
  then obtain u v where "js_split c (a @ c # w) = u # v @ [w]" by blast
  then show ?case by (cases "x = c") (auto intro: exI [of _ "[]"] exI [of _ "u # v"])
qed

lemma last_split: "c \<notin> set w \<Longrightarrow> last (js_split c (a @ c # w)) = w"
  using split_tail [of c w a] by auto

lemma upper_char_idem: "upper_char (upper_char c) = upper_char c"
proof -
  have "code (upper_char c) < 256" by (simp add: code_def)
  show ?thesis
    using code_char_of [of "code c - 32"]
    by (auto simp: upper_char_def is_lower_def code_def)
qed

lemma js_upper_idem [simp]: "js_upper (js_upper s) = js_upper s"
  by (simp add: js_upper_def upper_char_idem)

lemma js_upper_append: "js_upper (a @ b) = js_upper a @ js_upper b"
  by (simp add: js_upper_def)

lemma js_upper_show: "js_upper (show_nat n) = show_nat n"
  using show_nat_digits [of n] digit_plain
  unfolding js_upper_def list_all_iff by (intro map_idI) blast

subsection \<open>Operations\<close>

datatype pulse_op =
    OpCreateProject string time project_opts
  | OpCreateTask string time task_opts
  | OpUpdate string task_updates time
  | OpComplete string time
  | OpCancel string time
  | OpDelete string
  | OpComment string string string string time
  | OpSynced string string string time
  | OpTriggered string time
  | OpFire string time alert_opts
  | OpAcknowledge string "string option" time
  | OpResolve string time
  | OpSilence string time
  | OpCreateAction string time action_opts
  | OpApprove string "string option" time
  | OpReject string "string option" "string option" time

text \<open>The store after an operation: an operation that throws leaves it as it is.\<close>

definition db_after :: "pulse_db \<Rightarrow> 'a pulse_result \<Rightarrow> pulse_db" where
  "db_after db r = (case r of Inl e \<Rightarrow> db | Inr (db', x) \<Rightarrow> db')"

lemma db_after_simps [simp]: "db_after db (Inl e) = db" "db_after db (Inr (db', x)) = db'"
  by (simp_all add: db_after_def)

fun pulse_step :: "(string \<Rightarrow> string) \<Rightarrow> pulse_db \<Rightarrow> pulse_op \<Rightarrow> pulse_db" where
  "pulse_step digest db (OpCreateProject uuid now opts) = db_after db (createProject uuid now opts db)"
| "pulse_step digest db (OpCreateTask uuid now opts) = db_after db (createTask uuid now opts db)"
| "pulse_step digest db (OpUpdate k u now) = db_after db (updateTask k u now db)"
| "pulse_step digest db (OpComplete k now) = db_after db (completeTask k now db)"
| "pulse_step digest db (OpCancel k now) = db_after db (cancelRecurring k now db)"
| "pulse_step digest db (OpDelete k) = db_after db (deleteTask k db)"
| "pulse_step digest db (OpComment k author content uuid now) =
     db_after db (addComment k author content uuid now db)"
| "pulse_step digest db (OpSynced k rid rkey now) = markSynced k rid rkey now db"
| "pulse_step digest db (OpTriggered k now) = db_after db (markTriggered k now db)"
| "pulse_step digest db (OpFire uuid now opts) = db_after db (fireAlert digest uuid now opts db)"
| "pulse_step digest db (OpAcknowledge k u now) = db_after db (acknowledgeAlert k u now db)"
| "pulse_step digest db (OpResolve k now) = db_after db (resolveAlert k now db)"
| "pulse_step digest db (OpSilence k now) = db_after db (silenceAlert k now db)"
| "pulse_step digest db (OpCreateAction uuid now opts) = db_after db (createAction uuid now opts db)"
| "pulse_step digest db (OpApprove k u now) = db_after db (approveAction k u now db)"
| "pulse_step digest db (OpReject k u reason now) = db_after db (rejectAction k u reason now db)"

text \<open>
  What an operation does to the table of tasks: it alters the rows of one id without touching
  their identity, appends one row with the next key of its project, or removes the rows of an
  id.  Everything below is proved for these three.
\<close>

definition same_identity :: "(pulse_task \<Rightarrow> pulse_task) \<Rightarrow> bool" where
  "same_identity f \<longleftrightarrow> (\<forall>t. pt_id (f t) = pt_id t \<and> pt_item_key (f t) = pt_item_key t
     \<and> pt_project_key (f t) = pt_project_key t \<and> pt_mode (f t) = pt_mode t
     \<and> pt_fingerprint (f t) = pt_fingerprint t)"

definition new_row :: "pulse_db \<Rightarrow> pulse_task \<Rightarrow> bool" where
  "new_row db t \<longleftrightarrow> (\<exists>r. pt_item_key t = nextItemKey (project_key_of (resolve_project r db)) db
     \<and> pt_project_key t = map_option pp_key (resolve_project r db))"

inductive table_step :: "pulse_db \<Rightarrow> pulse_db \<Rightarrow> bool" where
  rows: "same_identity f \<Longrightarrow> pd_projects db' = pd_projects db \<Longrightarrow>
     pd_tasks db' = sql_update (\<lambda>t. pt_id t = k) f (pd_tasks db) \<Longrightarrow> table_step db db'"
| insert: "new_row db t \<Longrightarrow> pt_id t \<notin> pt_id ` set (pd_tasks db) \<Longrightarrow>
     pd_projects db' = pd_projects db \<Longrightarrow> pd_tasks db' = pd_tasks db @ [t] \<Longrightarrow> table_step db db'"
| delete: "pd_projects db' = pd_projects db \<Longrightarrow>
     pd_tasks db' = sql_delete (\<lambda>t. pt_id t = k) (pd_tasks db) \<Longrightarrow> table_step db db'"
| project: "pp_key p = js_upper k \<Longrightarrow> pd_projects db' = pd_projects db @ [p] \<Longrightarrow>
     pd_tasks db' = pd_tasks db \<Longrightarrow> table_step db db'"

inductive_cases table_stepE: "table_step db db'"

lemma table_same: "table_step db db"
  by (rule rows [of "\<lambda>t. t" _ _ "[]"]) (simp_all add: same_identity_def sql_update_same)

lemma table_set: "same_identity f \<Longrightarrow> table_step db (set_task k f db)"
  by (rule rows [of f _ _ k]) (simp_all add: set_task_def alter_tasks_def)

lemma table_comment: "same_identity f \<Longrightarrow> table_step db (set_task k f (db\<lparr>pd_comments := cs\<rparr>))"
  by (rule rows [of f _ _ k]) (simp_all add: set_task_def alter_tasks_def)

lemma set_columns_identity: "same_identity (set_columns u)"
  by (simp add: same_identity_def set_columns_def)

lemma set_dates_identity: "same_identity (set_dates st old n)"
  by (simp add: same_identity_def set_dates_def Let_def)

lemma set_schedule_identity: "set_schedule s now = Inr g \<Longrightarrow> same_identity g"
  by (auto simp: same_identity_def set_schedule_def split: option.splits if_splits sum.splits)

lemma update_identity:
  "set_schedule s now = Inr g \<Longrightarrow> same_identity (\<lambda>t. set_dates st old n (g (set_columns u t)))"
  using set_dates_identity [of st old n] set_columns_identity [of u] set_schedule_identity [of s now g]
  by (simp add: same_identity_def)

lemma default_row_new: "new_row db (default_row uuid (resolve_project r db)
    (nextItemKey (project_key_of (resolve_project r db)) db) title now)"
  by (auto simp: new_row_def default_row_def)

lemma rows_new:
  "new_row db (task_row uuid now opts db)" "new_row db (alert_row fp uuid now aopts db)"
  "new_row db (action_row uuid now copts db)"
  by (auto simp: new_row_def default_row_def task_row_def alert_row_def action_row_def Let_def)

lemma table_insert: "new_row db t \<Longrightarrow> table_step db (db_after db (insert_task t db))"
  by (auto simp: insert_task_def Let_def table_same intro!: insert)

lemma update_table: "table_step db (db_after db (updateTask k u now db))"
  using update_identity
  by (auto simp: updateTask_def Let_def table_same split: option.splits sum.splits intro!: table_set)

lemma on_alert_table: "same_identity f \<Longrightarrow> table_step db (db_after db (on_alert k f db))"
  by (auto simp: on_alert_def Let_def table_same split: option.splits intro!: table_set)

lemma decide_table: "same_identity f \<Longrightarrow> table_step db (db_after db (decide k f db))"
  by (auto simp: decide_def Let_def table_same split: option.splits intro!: table_set)

lemma complete_table: "table_step db (db_after db (completeTask k now db))"
  by (auto simp: completeTask_def Let_def table_same update_table same_identity_def
      split: option.splits sum.splits intro!: table_set)

lemma cancel_table: "table_step db (db_after db (cancelRecurring k now db))"
  by (auto simp: cancelRecurring_def Let_def table_same same_identity_def split: option.splits intro!: table_set)

lemma delete_table: "table_step db (db_after db (deleteTask k db))"
  by (auto simp: deleteTask_def table_same split: option.splits intro!: delete)

lemma comment_table: "table_step db (db_after db (addComment k a c uuid now db))"
  by (auto simp: addComment_def Let_def table_same same_identity_def split: option.splits intro!: table_comment)

lemma triggered_table: "table_step db (db_after db (markTriggered k now db))"
  by (auto simp: markTriggered_def Let_def table_same same_identity_def
      split: option.splits sum.splits intro!: table_set)

lemma fire_table: "table_step db (db_after db (fireAlert digest uuid now opts db))"
  by (auto simp: fireAlert_def Let_def same_identity_def
      split: option.splits intro!: table_set table_insert rows_new)

lemma project_table: "table_step db (db_after db (createProject uuid now opts db))"
  by (auto simp: createProject_def Let_def table_same new_project_def intro!: project)

lemma pulse_step_table: "table_step db (pulse_step digest db p)"
proof (cases p)
  case (OpSynced k rid rkey now)
  then show ?thesis by (simp add: markSynced_def table_set same_identity_def)
next
  case (OpAcknowledge k u now)
  then show ?thesis by (simp add: acknowledgeAlert_def on_alert_table same_identity_def)
next
  case (OpResolve k now)
  then show ?thesis by (simp add: resolveAlert_def on_alert_table same_identity_def)
next
  case (OpSilence k now)
  then show ?thesis by (simp add: silenceAlert_def on_alert_table same_identity_def)
next
  case (OpApprove k u now)
  then show ?thesis by (simp add: approveAction_def decide_table same_identity_def)
next
  case (OpReject k u reason now)
  then show ?thesis by (simp add: rejectAction_def decide_table same_identity_def)
qed (simp_all add: update_table complete_table cancel_table delete_table comment_table triggered_table
    fire_table project_table createTask_def createAction_def table_insert rows_new)

subsection \<open>Keys\<close>

definition key_of :: "string \<Rightarrow> nat \<Rightarrow> string" where
  "key_of k n = k @ ''-'' @ show_nat n"

definition upper_key :: "string \<Rightarrow> bool" where
  "upper_key k \<longleftrightarrow> js_upper k = k"

definition row_keyed :: "pulse_task \<Rightarrow> bool" where
  "row_keyed t \<longleftrightarrow> (\<exists>k n. pt_project_key t = Some k \<and> upper_key k \<and> 1 \<le> n \<and> pt_item_key t = key_of k n)"

definition keys_ok :: "pulse_db \<Rightarrow> bool" where
  "keys_ok db \<longleftrightarrow> pd_projects db \<noteq> [] \<and> (\<forall>p \<in> set (pd_projects db). upper_key (pp_key p))
     \<and> distinct (map pt_id (pd_tasks db)) \<and> distinct (map pt_item_key (pd_tasks db))
     \<and> (\<forall>t \<in> set (pd_tasks db). row_keyed t)"

lemma key_of_inject: "key_of k m = key_of l n \<longleftrightarrow> k = l \<and> m = n"
proof
  assume e: "key_of k m = key_of l n"
  have "last (js_split CHR ''-'' (key_of j i)) = show_nat i" for j i
    by (simp add: key_of_def last_split show_nat_no_dash)
  then have "show_nat m = show_nat n" using e by metis
  then show "k = l \<and> m = n" using e by (simp add: key_of_def show_nat_inject)
qed simp

lemma key_number_of: "pt_item_key t = key_of k n \<Longrightarrow> key_number k t = int n"
  by (simp add: key_number_def key_of_def sql_int_def)

lemma js_parse_1: "show_nat 1 = ''1''"
  by (simp add: show_nat.simps char_of_def bit_0)

text \<open>The next key is above all keys of its project.\<close>

lemma next_key:
  assumes "\<forall>t \<in> set (pd_tasks db). row_keyed t"
  shows "\<exists>n. 1 \<le> n \<and> nextItemKey k db = key_of k n \<and>
    (\<forall>t \<in> set (pd_tasks db). \<forall>m. pt_project_key t = Some k \<longrightarrow> pt_item_key t = key_of k m \<longrightarrow> m < n)"
proof -
  define rows where "rows = filter (\<lambda>t. pt_project_key t = Some k) (pd_tasks db)"
  show ?thesis
  proof (cases "js_sort (descending (key_number k)) rows")
    case Nil
    then have "rows = []" by (metis length_js_sort length_0_conv)
    then have "\<forall>t \<in> set (pd_tasks db). pt_project_key t \<noteq> Some k"
      by (simp add: rows_def filter_empty_conv)
    with Nil show ?thesis
      by (intro exI [of _ 1]) (simp add: nextItemKey_def rows_def key_of_def js_parse_1 [simplified])
  next
    case (Cons t ts)
    then have t: "t \<in> set rows" "\<forall>u \<in> set rows. key_number k u \<le> key_number k t"
      by (simp_all add: sort_greatest)
    then obtain n where n: "pt_item_key t = key_of k n" using assms by (auto simp: rows_def row_keyed_def)
    then have "js_parse_int (last (js_split CHR ''-'' (pt_item_key t))) = Some (int n)"
      by (simp add: key_of_def last_split show_nat_no_dash)
    moreover have "pt_item_key t \<noteq> []" using n by (simp add: key_of_def)
    ultimately have "nextItemKey k db = key_of k (n + 1)"
      using Cons by (simp add: nextItemKey_def rows_def key_of_def show_int_def nat_add_distrib)
    moreover have "m < n + 1"
      if "u \<in> set (pd_tasks db)" "pt_project_key u = Some k" "pt_item_key u = key_of k m" for u m
    proof -
      have "u \<in> set rows" using that by (simp add: rows_def)
      then have "key_number k u \<le> key_number k t" using t by blast
      then show ?thesis using key_number_of [OF that(3)] key_number_of [OF n] by simp
    qed
    ultimately show ?thesis by (intro exI [of _ "n + 1"]) auto
  qed
qed

lemma project_of_store:
  assumes "keys_ok db"
  shows "\<exists>p \<in> set (pd_projects db). resolve_project r db = Some p"
proof -
  obtain p where p: "first_project db = Some p" "p \<in> set (pd_projects db)"
  proof (cases "js_sort (ascending pp_created_at) (pd_projects db)")
    case Nil
    then have "pd_projects db = []" by (metis length_js_sort length_0_conv)
    then show ?thesis using assms by (simp add: keys_ok_def)
  next
    case (Cons p ps)
    then have "p \<in> set (pd_projects db)" by (metis list.set_intros(1) set_js_sort)
    then show ?thesis using that Cons by (simp add: first_project_def)
  qed
  have "getProject k db = Some q \<Longrightarrow> q \<in> set (pd_projects db)" for k q
    by (auto simp: getProject_def find_Some_iff)
  then show ?thesis
    using p by (auto simp: resolve_project_def given_or_def split: option.splits)
qed

lemma new_row_keyed:
  assumes "keys_ok db" "new_row db t"
  shows "row_keyed t \<and> pt_item_key t \<notin> pt_item_key ` set (pd_tasks db)"
proof -
  obtain r where r: "pt_item_key t = nextItemKey (project_key_of (resolve_project r db)) db"
    "pt_project_key t = map_option pp_key (resolve_project r db)" using assms(2) by (auto simp: new_row_def)
  obtain p where p: "p \<in> set (pd_projects db)" "resolve_project r db = Some p"
    using project_of_store [OF assms(1)] by blast
  have rows: "\<forall>u \<in> set (pd_tasks db). row_keyed u" using assms(1) by (simp add: keys_ok_def)
  obtain n where n: "1 \<le> n" "nextItemKey (pp_key p) db = key_of (pp_key p) n"
    "\<forall>u \<in> set (pd_tasks db). \<forall>m. pt_project_key u = Some (pp_key p) \<longrightarrow> pt_item_key u = key_of (pp_key p) m \<longrightarrow> m < n"
    using next_key [OF rows] by blast
  have t: "pt_item_key t = key_of (pp_key p) n" "pt_project_key t = Some (pp_key p)"
    using r p n by (simp_all add: project_key_of_def)
  have "pt_item_key u \<noteq> pt_item_key t" if u: "u \<in> set (pd_tasks db)" for u
  proof
    assume e: "pt_item_key u = pt_item_key t"
    obtain k m where "pt_project_key u = Some k" "pt_item_key u = key_of k m"
      using rows u by (auto simp: row_keyed_def)
    then show False using e t n(3) u by (auto simp: key_of_inject)
  qed
  then show ?thesis using t n(1) p(1) assms(1) by (auto simp: row_keyed_def keys_ok_def)
qed

lemma same_identity_maps:
  assumes "same_identity f"
  shows "map pt_id (sql_update p f ts) = map pt_id ts" "map pt_item_key (sql_update p f ts) = map pt_item_key ts"
    "(\<forall>t \<in> set ts. row_keyed t) \<Longrightarrow> \<forall>t \<in> set (sql_update p f ts). row_keyed t"
  using assms by (auto simp: same_identity_def map_sql_update set_sql_update row_keyed_def)

lemma distinct_map_filter: "distinct (map f xs) \<Longrightarrow> distinct (map f (filter p xs))"
  by (induction xs) auto

lemma table_step_keys: "table_step db db' \<Longrightarrow> keys_ok db \<Longrightarrow> keys_ok db'"
proof (induction rule: table_step.induct)
  case (rows f db' db k)
  then show ?case using same_identity_maps [OF rows(1), where p = "\<lambda>t. pt_id t = k" and ts = "pd_tasks db"]
    by (simp add: keys_ok_def)
next
  case (insert db t db')
  then show ?case using new_row_keyed [OF insert(5,1)] by (auto simp: keys_ok_def)
next
  case (delete db' db k)
  then show ?case by (auto simp: keys_ok_def sql_delete_def distinct_map_filter)
next
  case (project p k db' db)
  then show ?case by (auto simp: keys_ok_def upper_key_def)
qed

lemma open_store_keys: "keys_ok (open_store uuid now empty_db)"
  by (simp add: keys_ok_def open_store_def empty_db_def createProject_def new_project_def Let_def upper_key_def)

lemma store_keys: "keys_ok (foldl (pulse_step digest) (open_store uuid now empty_db) ps)"
  by (rule foldl_invariant [of keys_ok], rule open_store_keys) (rule table_step_keys [OF pulse_step_table])

lemma find_unique:
  assumes "t \<in> set ts" "P t" "\<And>u. u \<in> set ts \<Longrightarrow> P u \<Longrightarrow> u = t"
  shows "find P ts = Some t"
proof (cases "find P ts")
  case None
  then show ?thesis using assms(1,2) by (simp add: find_None_iff)
next
  case (Some u)
  then have "u \<in> set ts \<and> P u" by (auto simp: find_Some_iff)
  then show ?thesis using assms(3) Some by simp
qed

lemma upper_key_of: "upper_key k \<Longrightarrow> js_upper (key_of k n) = key_of k n"
proof -
  have "js_upper ''-'' = ''-''" by (simp add: js_upper_def upper_char_def is_lower_def code_def)
  then show "upper_key k \<Longrightarrow> ?thesis"
    unfolding key_of_def upper_key_def by (simp only: js_upper_append js_upper_show)
qed

lemma upper_item_key: "row_keyed t \<Longrightarrow> js_upper (pt_item_key t) = pt_item_key t"
  by (auto simp: row_keyed_def upper_key_of)

lemma row_keyed_key:
  "row_keyed t \<Longrightarrow> \<exists>k n. pt_project_key t = Some k \<and> 1 \<le> n \<and> pt_item_key t = k @ ''-'' @ show_nat n"
  by (auto simp: row_keyed_def key_of_def)

lemma item_key_unique:
  "distinct (map pt_item_key ts) \<Longrightarrow> t \<in> set ts \<Longrightarrow> u \<in> set ts \<Longrightarrow> pt_item_key t = pt_item_key u \<Longrightarrow> t = u"
  by (simp add: distinct_map inj_on_def)

text \<open>
  C35. In every store that operations can reach from a new database, whatever they are and
  whatever identifiers and clock readings they get, every task has a key made of its project's
  key and a positive number, no two tasks have the same id or the same key, and a key finds
  its task unless it is also an id or the remote key of a task.
\<close>

theorem item_keys_unique:
  fixes digest uuid now ps
  defines "db \<equiv> foldl (pulse_step digest) (open_store uuid now empty_db) ps"
  shows "distinct (map pt_id (pd_tasks db)) \<and> distinct (map pt_item_key (pd_tasks db))
    \<and> (\<forall>t \<in> set (pd_tasks db).
        (\<exists>k n. pt_project_key t = Some k \<and> 1 \<le> n \<and> pt_item_key t = k @ ''-'' @ show_nat n)
        \<and> ((\<forall>u \<in> set (pd_tasks db). pt_id u \<noteq> pt_item_key t \<and> pt_remote_key u \<noteq> Some (pt_item_key t))
           \<longrightarrow> getTask (pt_item_key t) db = Some t))"
proof -
  have ok: "keys_ok db" unfolding db_def by (rule store_keys)
  have "getTask (pt_item_key t) db = Some t"
    if t: "t \<in> set (pd_tasks db)" and
      free: "\<forall>u \<in> set (pd_tasks db). pt_id u \<noteq> pt_item_key t \<and> pt_remote_key u \<noteq> Some (pt_item_key t)" for t
  proof -
    have "row_keyed t" "distinct (map pt_item_key (pd_tasks db))" using ok t by (simp_all add: keys_ok_def)
    then show ?thesis unfolding getTask_def
      using t free by (intro find_unique) (auto simp: upper_item_key intro: item_key_unique)
  qed
  then show ?thesis using ok row_keyed_key by (simp add: keys_ok_def)
qed

definition plain_opts :: "string \<Rightarrow> task_opts" where
  "plain_opts title = \<lparr>to_title = title, to_description = None, to_project = None, to_status = None,
     to_priority = None, to_assignee = None, to_created_by = None, to_labels = None, to_due_date = None,
     to_start_date = None, to_schedule = None, to_workflow = None, to_workflow_status = None\<rparr>"

definition fresh_pulse :: pulse_db where
  "fresh_pulse = open_store ''p'' 0 empty_db"

definition store_of :: "pulse_op list \<Rightarrow> pulse_db" where
  "store_of ps = foldl (pulse_step (\<lambda>s. s)) fresh_pulse ps"

lemma fresh_pulse_simps [simp]:
  "pd_tasks fresh_pulse = []" "pd_comments fresh_pulse = []"
  "pd_projects fresh_pulse = [new_project ''p'' 0 general_project]"
  by (simp_all add: fresh_pulse_def open_store_def empty_db_def createProject_def Let_def)

lemma first_task: "nextItemKey k fresh_pulse = k @ ''-1''"
  by (simp add: nextItemKey_def)

lemma general_key: "resolve_project None fresh_pulse = Some (new_project ''p'' 0 general_project)"
  "pp_key (new_project ''p'' 0 general_project) = ''GEN''"
  by (simp_all add: resolve_project_def given_or_def first_project_def new_project_def general_project_def
      js_upper_def upper_char_def is_lower_def code_def)

definition one_task :: pulse_db where
  "one_task = store_of [OpCreateTask ''t1'' 0 (plain_opts ''A'')]"

lemma one_task_rows:
  "pd_tasks one_task = [task_row ''t1'' 0 (plain_opts ''A'') fresh_pulse]"
  by (simp add: one_task_def store_of_def createTask_def insert_task_def task_row_def Let_def default_row_def)

lemma first_row: "pt_id (task_row ''t1'' 0 (plain_opts ''A'') fresh_pulse) = ''t1''"
  "pt_item_key (task_row ''t1'' 0 (plain_opts ''A'') fresh_pulse) = ''GEN-1''"
  "pt_remote_key (task_row ''t1'' 0 (plain_opts ''A'') fresh_pulse) = None"
  by (simp_all add: task_row_def Let_def default_row_def first_task plain_opts_def general_key project_key_of_def)

lemma item_keys_unique_witness:
  "getTask ''GEN-1'' one_task = Some (task_row ''t1'' 0 (plain_opts ''A'') fresh_pulse)"
  using item_keys_unique [of "\<lambda>s. s" "''p''" 0 "[OpCreateTask ''t1'' 0 (plain_opts ''A'')]"] one_task_rows first_row
  by (simp add: one_task_def store_of_def fresh_pulse_def)

text \<open>
  A task that is synchronised gets the key of the platform; when that is the key of another
  local task, the key finds the older of the two rows, and completing the other completes it.
\<close>

lemma remote_key_shadows:
  assumes "pd_tasks db = [a, b]" "pt_id a \<noteq> pt_id b" "js_upper (pt_item_key b) = pt_item_key b"
    "\<not> pt_is_recurring a"
  shows "map pt_status (pd_tasks (db_after db
     (completeTask (pt_item_key b) later (markSynced (pt_id a) rid (pt_item_key b) now db))))
     = [''completed'', pt_status b]"
  using assms
  by (simp add: completeTask_def markSynced_def getTask_def set_task_def alter_tasks_def sql_update_def
      updateTask_def set_schedule_def no_updates_def Let_def set_dates_def set_columns_def default_to_def)

subsection \<open>Open alerts\<close>

abbreviation open_count :: "string \<Rightarrow> pulse_task list \<Rightarrow> nat" where
  "open_count fp ts \<equiv> length (filter (open_alert fp) ts)"

text \<open>Operations that open an alert again which was resolved or silenced.\<close>

fun reopens :: "pulse_db \<Rightarrow> pulse_op \<Rightarrow> bool" where
  "reopens db (OpUpdate k u now) \<longleftrightarrow> tu_status u \<in> {Some ''firing'', Some ''acknowledged''}"
| "reopens db (OpAcknowledge k u now) \<longleftrightarrow> (case getTask k db of None \<Rightarrow> False
     | Some t \<Rightarrow> pt_mode t = AlertMode \<and> pt_status t \<notin> {''firing'', ''acknowledged''})"
| "reopens db _ \<longleftrightarrow> False"

inductive alert_reach :: "(string \<Rightarrow> string) \<Rightarrow> pulse_db \<Rightarrow> bool" for digest where
  start: "alert_reach digest (open_store uuid now empty_db)"
| step: "alert_reach digest db \<Longrightarrow> \<not> reopens db p \<Longrightarrow> alert_reach digest (pulse_step digest db p)"

definition alerts_ok :: "pulse_db \<Rightarrow> bool" where
  "alerts_ok db \<longleftrightarrow> (\<forall>fp. fp \<noteq> [] \<longrightarrow> open_count fp (pd_tasks db) \<le> 1)"

lemma count_update:
  "(\<And>t. t \<in> set ts \<Longrightarrow> p t \<Longrightarrow> open_alert fp (f t) \<Longrightarrow> open_alert fp t) \<Longrightarrow>
     open_count fp (sql_update p f ts) \<le> open_count fp ts"
  by (induction ts) (auto simp: sql_update_def le_SucI)

text \<open>A change of a row that opens no alert: its status is kept, or not set to an open one.\<close>

definition opens_nothing :: "(pulse_task \<Rightarrow> pulse_task) \<Rightarrow> bool" where
  "opens_nothing f \<longleftrightarrow> (\<forall>t. pt_mode (f t) = pt_mode t \<and> pt_fingerprint (f t) = pt_fingerprint t
     \<and> (pt_status (f t) = pt_status t \<or> pt_status (f t) \<notin> {''firing'', ''acknowledged''}))"

lemma opens_nothing_alert: "opens_nothing f \<Longrightarrow> open_alert fp (f t) \<Longrightarrow> open_alert fp t"
  unfolding opens_nothing_def open_alert_def by metis

lemma alerts_set:
  assumes "alerts_ok db" "opens_nothing f"
  shows "alerts_ok (set_task k f db)"
proof -
  have "open_count fp (sql_update (\<lambda>t. pt_id t = k) f (pd_tasks db)) \<le> open_count fp (pd_tasks db)" for fp
    using opens_nothing_alert [OF assms(2)] by (intro count_update)
  then show ?thesis using assms(1) by (auto simp: alerts_ok_def set_task_def alter_tasks_def intro: le_trans)
qed

lemma alerts_comments: "alerts_ok (db\<lparr>pd_comments := cs\<rparr>) \<longleftrightarrow> alerts_ok db"
  by (simp add: alerts_ok_def)

lemma alerts_insert:
  "alerts_ok db \<Longrightarrow> (\<And>fp. fp \<noteq> [] \<Longrightarrow> open_alert fp t \<Longrightarrow> open_count fp (pd_tasks db) = 0) \<Longrightarrow>
     alerts_ok (db_after db (insert_task t db))"
  by (auto simp: insert_task_def Let_def alerts_ok_def)

lemma update_opens_nothing:
  assumes "set_schedule s now = Inr g" "tu_status u \<notin> {Some ''firing'', Some ''acknowledged''}"
  shows "opens_nothing (\<lambda>t. set_dates st old n (g (set_columns u t)))"
proof -
  have g: "pt_mode (g t) = pt_mode t \<and> pt_fingerprint (g t) = pt_fingerprint t \<and> pt_status (g t) = pt_status t" for t
    using assms(1) by (auto simp: set_schedule_def split: option.splits if_splits sum.splits)
  have d: "pt_mode (set_dates st old n t) = pt_mode t \<and> pt_fingerprint (set_dates st old n t) = pt_fingerprint t
      \<and> pt_status (set_dates st old n t) = pt_status t" for t
    by (simp add: set_dates_def Let_def)
  have "pt_mode (set_columns u t) = pt_mode t \<and> pt_fingerprint (set_columns u t) = pt_fingerprint t
      \<and> pt_status (set_columns u t) = default_to (pt_status t) (tu_status u)" for t
    by (simp add: set_columns_def)
  with g d show ?thesis using assms(2)
    by (auto simp: opens_nothing_def default_to_def split: option.splits)
qed

lemma alerts_update:
  "alerts_ok db \<Longrightarrow> tu_status u \<notin> {Some ''firing'', Some ''acknowledged''} \<Longrightarrow>
     alerts_ok (db_after db (updateTask k u now db))"
  by (auto simp: updateTask_def Let_def split: option.splits sum.splits
      intro!: alerts_set update_opens_nothing)

lemma alerts_on_alert: "alerts_ok db \<Longrightarrow> opens_nothing f \<Longrightarrow> alerts_ok (db_after db (on_alert k f db))"
  by (auto simp: on_alert_def Let_def split: option.splits intro!: alerts_set)

lemma alerts_decide: "alerts_ok db \<Longrightarrow> opens_nothing f \<Longrightarrow> alerts_ok (db_after db (decide k f db))"
  by (auto simp: decide_def Let_def split: option.splits intro!: alerts_set)

lemma getTask_in: "getTask k db = Some t \<Longrightarrow> t \<in> set (pd_tasks db)"
  by (auto simp: getTask_def find_Some_iff)

lemma acknowledge_open:
  assumes "alerts_ok db" "distinct (map pt_id (pd_tasks db))" "\<not> reopens db (OpAcknowledge k u now)"
  shows "alerts_ok (db_after db (acknowledgeAlert k u now db))"
proof (cases "getTask k db")
  case None
  then show ?thesis using assms(1) by (simp add: acknowledgeAlert_def on_alert_def)
next
  case (Some a)
  show ?thesis
  proof (cases "pt_mode a = AlertMode")
    case False
    then show ?thesis using assms(1) Some by (simp add: acknowledgeAlert_def on_alert_def)
  next
    case True
    have a: "pt_status a \<in> {''firing'', ''acknowledged''}" using assms(3) Some True by auto
    have "open_count fp (sql_update (\<lambda>t. pt_id t = pt_id a) (\<lambda>t. t\<lparr>pt_status := ''acknowledged'',
        pt_acknowledged_at := Some (toISOString now), pt_acknowledged_by := u,
        pt_updated_at := toISOString now\<rparr>) (pd_tasks db)) \<le> open_count fp (pd_tasks db)" for fp
    proof (rule count_update)
      fix t
      assume t: "t \<in> set (pd_tasks db)" "pt_id t = pt_id a"
      then have "t = a" using assms(2) getTask_in [OF Some] by (simp add: distinct_map inj_on_def)
      then show "open_alert fp (t\<lparr>pt_status := ''acknowledged'', pt_acknowledged_at := Some (toISOString now),
          pt_acknowledged_by := u, pt_updated_at := toISOString now\<rparr>) \<Longrightarrow> open_alert fp t"
        using a by (simp add: open_alert_def)
    qed
    then show ?thesis using assms(1) Some True
      by (auto simp: acknowledgeAlert_def on_alert_def Let_def set_task_def alter_tasks_def alerts_ok_def
          intro: le_trans)
  qed
qed

lemma alerts_fire: "alerts_ok db \<Longrightarrow> alerts_ok (db_after db (fireAlert digest uuid now opts db))"
proof (cases "if given_text (fingerprint digest opts)
    then find (open_alert (the (fingerprint digest opts))) (pd_tasks db) else None")
  case None
  assume ok: "alerts_ok db"
  have "open_count fp (pd_tasks db) = 0"
    if "fp \<noteq> []" "open_alert fp (alert_row (fingerprint digest opts) uuid now opts db)" for fp
  proof -
    have "fingerprint digest opts = Some fp" using that by (simp add: open_alert_def alert_row_def Let_def)
    then show ?thesis using None that(1) by (simp add: given_text_def find_None_iff filter_empty_conv)
  qed
  then show ?thesis using None ok by (auto simp: fireAlert_def Let_def intro!: alerts_insert)
next
  case (Some t)
  assume "alerts_ok db"
  then show ?thesis using Some by (auto simp: fireAlert_def Let_def opens_nothing_def intro!: alerts_set)
qed

lemma rows_closed:
  "\<not> open_alert fp (task_row uuid now opts db)" "\<not> open_alert fp (action_row uuid now copts db)"
  by (simp_all add: open_alert_def task_row_def action_row_def Let_def default_row_def)

lemma alerts_rows:
  "alerts_ok db \<Longrightarrow> alerts_ok (db_after db (insert_task (task_row uuid now opts db) db))"
  "alerts_ok db \<Longrightarrow> alerts_ok (db_after db (insert_task (action_row uuid now copts db) db))"
  by (rule alerts_insert, assumption, simp add: rows_closed)+

lemma alerts_complete: "alerts_ok db \<Longrightarrow> alerts_ok (db_after db (completeTask k now db))"
  by (auto simp: completeTask_def Let_def opens_nothing_def no_updates_def split: option.splits sum.splits
      intro!: alerts_set alerts_update)

lemma alerts_cancel: "alerts_ok db \<Longrightarrow> alerts_ok (db_after db (cancelRecurring k now db))"
  by (auto simp: cancelRecurring_def Let_def opens_nothing_def split: option.splits intro!: alerts_set)

lemma count_filter: "open_count fp (filter p ts) \<le> open_count fp ts"
  by (induction ts) auto

lemma alerts_delete: "alerts_ok db \<Longrightarrow> alerts_ok (db_after db (deleteTask k db))"
  by (auto simp: deleteTask_def alerts_ok_def sql_delete_def split: option.splits
      intro: le_trans [OF count_filter] simp del: filter_filter)

lemma alerts_comment: "alerts_ok db \<Longrightarrow> alerts_ok (db_after db (addComment k a c uuid now db))"
  by (auto simp: addComment_def Let_def opens_nothing_def alerts_comments split: option.splits
      intro!: alerts_set)

lemma alerts_triggered: "alerts_ok db \<Longrightarrow> alerts_ok (db_after db (markTriggered k now db))"
  by (auto simp: markTriggered_def Let_def opens_nothing_def split: option.splits sum.splits
      intro!: alerts_set)

lemma alerts_project: "alerts_ok db \<Longrightarrow> alerts_ok (db_after db (createProject uuid now opts db))"
  by (auto simp: createProject_def Let_def alerts_ok_def)

lemma pulse_step_alerts:
  assumes "alerts_ok db" "keys_ok db" "\<not> reopens db p"
  shows "alerts_ok (pulse_step digest db p)"
proof (cases p)
  case (OpUpdate k u now)
  then show ?thesis using assms by (auto intro!: alerts_update)
next
  case (OpSynced k rid rkey now)
  then show ?thesis using assms by (simp add: markSynced_def alerts_set opens_nothing_def)
next
  case (OpAcknowledge k u now)
  then show ?thesis using assms by (auto simp: keys_ok_def intro!: acknowledge_open)
next
  case (OpResolve k now)
  then show ?thesis using assms by (simp add: resolveAlert_def alerts_on_alert opens_nothing_def)
next
  case (OpSilence k now)
  then show ?thesis using assms by (simp add: silenceAlert_def alerts_on_alert opens_nothing_def)
next
  case (OpApprove k u now)
  then show ?thesis using assms by (simp add: approveAction_def alerts_decide opens_nothing_def)
next
  case (OpReject k u reason now)
  then show ?thesis using assms by (simp add: rejectAction_def alerts_decide opens_nothing_def)
qed (use assms in \<open>simp_all add: alerts_complete alerts_cancel alerts_delete alerts_comment alerts_triggered
    alerts_project alerts_fire createTask_def createAction_def alerts_rows\<close>)

lemma alert_reach_ok: "alert_reach digest db \<Longrightarrow> alerts_ok db \<and> keys_ok db"
proof (induction rule: alert_reach.induct)
  case (start uuid now)
  have "pd_tasks (open_store uuid now empty_db) = []"
    by (simp add: open_store_def empty_db_def createProject_def Let_def)
  then show ?case using open_store_keys by (simp add: alerts_ok_def)
next
  case (step db p)
  then show ?case using pulse_step_alerts table_step_keys [OF pulse_step_table] by blast
qed

lemma find_only:
  assumes "length (filter P ts) \<le> 1" "t \<in> set ts" "P t"
  shows "find P ts = Some t"
proof -
  obtain u where u: "filter P ts = [u]"
    using assms by (cases "filter P ts") (auto simp: filter_empty_conv)
  have "find P ts = Some (hd (filter P ts))" using assms(2,3) by (induction ts) auto
  moreover have "t \<in> set (filter P ts)" using assms(2,3) by simp
  ultimately show ?thesis using u by simp
qed

text \<open>
  As long as no operation opens a resolved or silenced alert again, every store that can
  be reached has at most one open alert per fingerprint, and firing an alert whose
  fingerprint has an open alert adds no row but returns that alert; without one it adds
  exactly one row, which is firing and carries the fingerprint.
\<close>

theorem alerts_deduplicated:
  assumes "alert_reach digest db" "fingerprint digest opts = Some fp" "fp \<noteq> []"
    and "uuid \<notin> pt_id ` set (pd_tasks db)"
  shows "open_count fp (pd_tasks db) \<le> 1
    \<and> (\<forall>t \<in> set (pd_tasks db). open_alert fp t \<longrightarrow>
         (\<exists>db'. fireAlert digest uuid now opts db = Inr (db', Some t)
            \<and> map pt_id (pd_tasks db') = map pt_id (pd_tasks db)))
    \<and> (open_count fp (pd_tasks db) = 0 \<longrightarrow>
         (\<exists>db' t. db' = db_after db (fireAlert digest uuid now opts db) \<and> pd_tasks db' = pd_tasks db @ [t]
            \<and> pt_id t = uuid \<and> open_alert fp t \<and> pt_status t = ''firing''))"
proof -
  have le: "open_count fp (pd_tasks db) \<le> 1"
    using alert_reach_ok [OF assms(1)] assms(3) by (simp add: alerts_ok_def)
  have "fireAlert digest uuid now opts db
      = Inr (set_task (pt_id t) (\<lambda>t. t\<lparr>pt_updated_at := toISOString now\<rparr>) db, Some t)"
    if "t \<in> set (pd_tasks db)" "open_alert fp t" for t
    using find_only [OF le that] assms(2,3) by (simp add: fireAlert_def Let_def given_text_def)
  then have 1: "\<forall>t \<in> set (pd_tasks db). open_alert fp t \<longrightarrow>
      (\<exists>db'. fireAlert digest uuid now opts db = Inr (db', Some t)
         \<and> map pt_id (pd_tasks db') = map pt_id (pd_tasks db))"
    by (auto simp: set_task_def alter_tasks_def map_sql_update)
  have "open_count fp (pd_tasks db) = 0 \<Longrightarrow> find (open_alert fp) (pd_tasks db) = None"
    by (simp add: find_None_iff filter_empty_conv)
  then have 2: "open_count fp (pd_tasks db) = 0 \<Longrightarrow>
      fireAlert digest uuid now opts db = insert_task (alert_row (Some fp) uuid now opts db) db"
    using assms(2,3) by (simp add: fireAlert_def Let_def given_text_def)
  have "pt_id (alert_row (Some fp) uuid now opts db) = uuid"
    "open_alert fp (alert_row (Some fp) uuid now opts db)"
    "pt_status (alert_row (Some fp) uuid now opts db) = ''firing''"
    by (simp_all add: alert_row_def default_row_def Let_def open_alert_def)
  with 2 have "open_count fp (pd_tasks db) = 0 \<longrightarrow>
      (\<exists>db' t. db' = db_after db (fireAlert digest uuid now opts db) \<and> pd_tasks db' = pd_tasks db @ [t]
         \<and> pt_id t = uuid \<and> open_alert fp t \<and> pt_status t = ''firing'')"
    using assms(4) by (auto simp: insert_task_def Let_def image_iff)
  with le 1 show ?thesis by blast
qed

definition mail_alert :: alert_opts where
  "mail_alert = \<lparr>ao_title = ''Mail'', ao_description = None, ao_item_type = None, ao_severity = None,
     ao_assignee = None, ao_source = Some ''gmail'', ao_source_id = Some ''m1'', ao_source_url = None,
     ao_payload = None, ao_labels = None, ao_project = None, ao_created_by = None\<rparr>"

lemma mail_fingerprint: "fingerprint (\<lambda>s. s) mail_alert = Some ''gmail:m1''"
  by (simp add: fingerprint_def mail_alert_def given_text_def default_to_def)

definition mail_row :: "string \<Rightarrow> pulse_db \<Rightarrow> pulse_task" where
  "mail_row uuid db = alert_row (Some ''gmail:m1'') uuid 0 mail_alert db"

lemma mail_row_simps [simp]:
  "pt_id (mail_row uuid db) = uuid" "pt_mode (mail_row uuid db) = AlertMode"
  "pt_status (mail_row uuid db) = ''firing''" "pt_fingerprint (mail_row uuid db) = Some ''gmail:m1''"
  by (simp_all add: mail_row_def alert_row_def default_row_def Let_def)

lemma mail_fired: "pulse_step (\<lambda>s. s) fresh_pulse (OpFire ''a1'' 0 mail_alert)
    = fresh_pulse\<lparr>pd_tasks := [mail_row ''a1'' fresh_pulse]\<rparr>"
  by (simp add: fireAlert_def Let_def mail_fingerprint given_text_def insert_task_def mail_row_def [symmetric])

lemma alerts_deduplicated_witness:
  "\<exists>db'. fireAlert (\<lambda>s. s) ''a2'' 5 mail_alert (pulse_step (\<lambda>s. s) fresh_pulse (OpFire ''a1'' 0 mail_alert))
      = Inr (db', Some (mail_row ''a1'' fresh_pulse)) \<and> map pt_id (pd_tasks db') = [''a1'']"
proof -
  let ?db = "pulse_step (\<lambda>s. s) fresh_pulse (OpFire ''a1'' 0 mail_alert)"
  have r: "alert_reach (\<lambda>s. s) ?db"
    unfolding fresh_pulse_def by (intro alert_reach.intros) simp
  have t: "pd_tasks ?db = [mail_row ''a1'' fresh_pulse]" by (simp only: mail_fired) simp
  have "open_alert ''gmail:m1'' (mail_row ''a1'' fresh_pulse)" by (simp add: open_alert_def)
  then show ?thesis
    using alerts_deduplicated [OF r mail_fingerprint, of "''a2''" 5] unfolding t by simp
qed

text \<open>
  Acknowledging a resolved alert makes it an open one again; when the condition fired anew in
  between there are then two open alerts of one fingerprint.
\<close>

lemma acknowledged_again:
  assumes "pd_tasks db = [a, b]" "pt_id a \<noteq> pt_id b" "pt_mode a = AlertMode" "pt_mode b = AlertMode"
    and "pt_fingerprint a = Some fp" "pt_fingerprint b = Some fp"
    and "pt_status a = ''resolved''" "pt_status b = ''firing''"
  shows "open_count fp (pd_tasks db) = 1
    \<and> open_count fp (pd_tasks (db_after db (acknowledgeAlert (pt_id a) u now db))) = 2"
  using assms by (simp add: acknowledgeAlert_def on_alert_def getTask_def set_task_def alter_tasks_def
      sql_update_def Let_def open_alert_def)

text \<open>
  A task that was synchronised and is then triggered, cancelled or, as a recurring one,
  completed is not marked as changed, so it is never listed for synchronisation again.
\<close>

lemma changes_not_dirty:
  assumes "pd_tasks db = [a]"
  shows "getDirtyTasks (db_after db (cancelRecurring (pt_id a) later (markSynced (pt_id a) rid rkey now db))) = []"
  using assms by (simp add: cancelRecurring_def markSynced_def getTask_def set_task_def alter_tasks_def
      sql_update_def Let_def getDirtyTasks_def)

end
