(* ===== verification/Workflows.thy ===== *)
theory Workflows
  imports IsoTime "HOL-Library.AList"
begin

text \<open>
  Workflow definitions, \<open>src/src/workflows/types.ts\<close> and \<open>store.ts\<close>: the files of the
  workflow directory, the checks on a definition, and the transitions between the statuses of
  a task.  A file holds a definition or something that does not parse; writing a definition
  as JSON and parsing it back gives the same definition.
\<close>

record wf_status =
  ws_id :: string
  ws_label :: string
  ws_category :: string
  ws_color :: "string option"

record transition_action =
  ta_assign_to :: "string option"
  ta_assign_team :: "string option"
  ta_add_label :: "string option"
  ta_remove_label :: "string option"
  ta_comment :: "string option"
  ta_notify :: "string list"

record wf_transition =
  wt_from :: string
  wt_to :: string
  wt_trigger :: string
  wt_label :: "string option"
  wt_description :: "string option"
  wt_on_transition :: "transition_action option"

record workflow =
  wf_name :: string
  wf_description :: "string option"
  wf_version :: "string option"
  wf_project :: "string option"
  wf_statuses :: "wf_status list"
  wf_initial_status :: string
  wf_transitions :: "wf_transition list"
  wf_created_at :: "string option"
  wf_created_by :: "string option"

record wf_info =
  wi_name :: string
  wi_description :: "string option"
  wi_version :: "string option"
  wi_project :: "string option"
  wi_statuses :: "wf_status list"
  wi_initial_status :: string
  wi_transition_count :: nat

datatype wf_error =
    WfExists string
  | WfNotFound string
  | WfNameRequired
  | WfStatusRequired
  | WfInitialUnknown string
  | WfStatusUnknown string
  | WfBadTrigger string string string
  | NoTransition string string "string list"
  | TriggerRequired string string string string

subsection \<open>Files\<close>

fun collapse_dashes :: "string \<Rightarrow> string" where
  "collapse_dashes (c # d # s) =
     (if c = CHR ''-'' \<and> d = CHR ''-'' then collapse_dashes (d # s) else c # collapse_dashes (d # s))"
| "collapse_dashes s = s"

definition name_char :: "char \<Rightarrow> bool" where
  "name_char c \<longleftrightarrow> is_lower c \<or> is_digit c \<or> c = CHR ''_'' \<or> c = CHR ''-''"

definition sanitizeName :: "string \<Rightarrow> string" where
  "sanitizeName name = collapse_dashes (map (\<lambda>c. if name_char c then c else CHR ''-'') (js_lower name))"

definition workflowPath :: "string \<Rightarrow> string" where
  "workflowPath name = sanitizeName name @ ''.json''"

datatype wf_file = WfJson workflow | WfMalformed

text \<open>The directory: file names with their contents, in the order \<open>readdirSync\<close> gives.\<close>

type_synonym wf_dir = "(string \<times> wf_file) list"

subsection \<open>Validation\<close>

definition wf_status_ids :: "workflow \<Rightarrow> string list" where
  "wf_status_ids w = map ws_id (wf_statuses w)"

definition wf_triggers :: "string list" where
  "wf_triggers = [''auto'', ''human'', ''agent'', ''any'']"

fun check_transitions :: "string list \<Rightarrow> wf_transition list \<Rightarrow> wf_error + unit" where
  "check_transitions ids [] = Inr ()"
| "check_transitions ids (t # ts) =
     (if wt_from t \<notin> set ids then Inl (WfStatusUnknown (wt_from t))
      else if wt_to t \<notin> set ids then Inl (WfStatusUnknown (wt_to t))
      else if wt_trigger t \<notin> set wf_triggers
      then Inl (WfBadTrigger (wt_trigger t) (wt_from t) (wt_to t))
      else check_transitions ids ts)"

definition validateWorkflowDefinition :: "workflow \<Rightarrow> wf_error + unit" where
  "validateWorkflowDefinition w =
     (if wf_name w = [] \<or> js_trim (wf_name w) = [] then Inl WfNameRequired
      else if wf_statuses w = [] then Inl WfStatusRequired
      else if wf_initial_status w = [] \<or> wf_initial_status w \<notin> set (wf_status_ids w)
      then Inl (WfInitialUnknown (wf_initial_status w))
      else check_transitions (wf_status_ids w) (wf_transitions w))"

subsection \<open>The operations on files\<close>

text \<open>\<open>a || b\<close> on an optional text.\<close>

definition text_or_default :: "string option \<Rightarrow> string \<Rightarrow> string" where
  "text_or_default a b = (case a of None \<Rightarrow> b | Some s \<Rightarrow> if s = [] then b else s)"

definition createWorkflow :: "time \<Rightarrow> workflow \<Rightarrow> wf_dir \<Rightarrow> wf_dir \<times> (wf_error + unit)" where
  "createWorkflow now def dir =
     (let safeName = sanitizeName (wf_name def);
          filePath = workflowPath safeName in
      if map_of dir filePath \<noteq> None then (dir, Inl (WfExists safeName))
      else case validateWorkflowDefinition def of
        Inl e \<Rightarrow> (dir, Inl e)
      | Inr u \<Rightarrow>
          (AList.update filePath (WfJson (def\<lparr>wf_name := safeName,
             wf_created_at := Some (text_or_default (wf_created_at def) (toISOString now))\<rparr>)) dir, Inr ()))"

definition getWorkflow :: "wf_dir \<Rightarrow> string \<Rightarrow> workflow option" where
  "getWorkflow dir name = (case map_of dir (workflowPath name) of
      Some (WfJson w) \<Rightarrow> Some w | _ \<Rightarrow> None)"

definition wf_info_of :: "workflow \<Rightarrow> wf_info" where
  "wf_info_of w = \<lparr>wi_name = wf_name w, wi_description = wf_description w, wi_version = wf_version w,
     wi_project = wf_project w, wi_statuses = wf_statuses w, wi_initial_status = wf_initial_status w,
     wi_transition_count = length (wf_transitions w)\<rparr>"

definition listWorkflows :: "wf_dir \<Rightarrow> wf_info list" where
  "listWorkflows dir = List.map_filter
     (\<lambda>(f, c). if \<not> js_ends_with f ''.json'' then None
               else case c of WfJson w \<Rightarrow> Some (wf_info_of w) | WfMalformed \<Rightarrow> None) dir"

text \<open>\<open>Partial<WorkflowDefinition>\<close>: an absent property is \<open>None\<close>.\<close>

record wf_updates =
  wu_name :: "string option"
  wu_description :: "string option"
  wu_version :: "string option"
  wu_project :: "string option"
  wu_statuses :: "wf_status list option"
  wu_initial_status :: "string option"
  wu_transitions :: "wf_transition list option"
  wu_created_at :: "string option"
  wu_created_by :: "string option"

definition given :: "'a option \<Rightarrow> 'a \<Rightarrow> 'a" where
  "given u old = (case u of None \<Rightarrow> old | Some v \<Rightarrow> v)"

definition given_opt :: "'a option \<Rightarrow> 'a option \<Rightarrow> 'a option" where
  "given_opt u old = (case u of None \<Rightarrow> old | Some v \<Rightarrow> Some v)"

definition merge_workflow :: "workflow \<Rightarrow> wf_updates \<Rightarrow> workflow" where
  "merge_workflow w u =
     \<lparr>wf_name = wf_name w,
      wf_description = given_opt (wu_description u) (wf_description w),
      wf_version = given_opt (wu_version u) (wf_version w),
      wf_project = given_opt (wu_project u) (wf_project w),
      wf_statuses = given (wu_statuses u) (wf_statuses w),
      wf_initial_status = given (wu_initial_status u) (wf_initial_status w),
      wf_transitions = given (wu_transitions u) (wf_transitions w),
      wf_created_at = given_opt (wu_created_at u) (wf_created_at w),
      wf_created_by = given_opt (wu_created_by u) (wf_created_by w)\<rparr>"

definition updateWorkflow :: "string \<Rightarrow> wf_updates \<Rightarrow> wf_dir \<Rightarrow> wf_dir \<times> (wf_error + unit)" where
  "updateWorkflow name updates dir = (case getWorkflow dir name of
      None \<Rightarrow> (dir, Inl (WfNotFound name))
    | Some existing \<Rightarrow>
        let merged = merge_workflow existing updates in
        (case validateWorkflowDefinition merged of
           Inl e \<Rightarrow> (dir, Inl e)
         | Inr u \<Rightarrow> (AList.update (workflowPath name) (WfJson merged) dir, Inr ())))"

definition deleteWorkflow :: "string \<Rightarrow> wf_dir \<Rightarrow> wf_dir \<times> (wf_error + unit)" where
  "deleteWorkflow name dir =
     (if map_of dir (workflowPath name) = None then (dir, Inl (WfNotFound name))
      else (AList.delete (workflowPath name) dir, Inr ()))"

subsection \<open>Transitions\<close>

definition validateTransition :: "workflow \<Rightarrow> string \<Rightarrow> string \<Rightarrow> string \<Rightarrow> wf_error + wf_transition" where
  "validateTransition w currentStatus targetStatus actorType =
     (case filter (\<lambda>t. wt_from t = currentStatus \<and> wt_to t = targetStatus) (wf_transitions w) of
        [] \<Rightarrow> Inl (NoTransition currentStatus targetStatus
                 (map wt_to (filter (\<lambda>t. wt_from t = currentStatus) (wf_transitions w))))
      | t # ts \<Rightarrow>
          if wt_trigger t \<noteq> ''any'' \<and> wt_trigger t \<noteq> actorType
          then Inl (TriggerRequired currentStatus targetStatus (wt_trigger t) actorType)
          else Inr t)"

definition getValidTransitions :: "workflow \<Rightarrow> string \<Rightarrow> string option \<Rightarrow> wf_transition list" where
  "getValidTransitions w currentStatus actorType =
     filter (\<lambda>t. wt_from t = currentStatus \<and>
       (case actorType of None \<Rightarrow> True
        | Some a \<Rightarrow> a = [] \<or> wt_trigger t = ''any'' \<or> wt_trigger t = a)) (wf_transitions w)"

text \<open>
  \<open>s.replace(new RegExp(pat, 'g'), value)\<close> for a pattern without special characters, as
  every variable name in the source is: the value's \<open>$$\<close>, \<open>$&\<close>, \<open>$`\<close> and \<open>$'\<close> are expanded.
  \<open>seen\<close> is the text before the rest.
\<close>

fun js_subst :: "string \<Rightarrow> string \<Rightarrow> string \<Rightarrow> string \<Rightarrow> string" where
  "js_subst seen pat rest (c # d # v) =
     (if c \<noteq> CHR ''$'' then c # js_subst seen pat rest (d # v)
      else if d = CHR ''$'' then CHR ''$'' # js_subst seen pat rest v
      else if d = CHR ''&'' then pat @ js_subst seen pat rest v
      else if d = CHR 0x60 then seen @ js_subst seen pat rest v
      else if d = CHR 0x27 then rest @ js_subst seen pat rest v
      else c # js_subst seen pat rest (d # v))"
| "js_subst seen pat rest v = v"

function replace_all :: "string \<Rightarrow> string \<Rightarrow> string \<Rightarrow> string \<Rightarrow> string" where
  "replace_all pat v seen [] = []"
| "replace_all pat v seen (c # s) =
     (if js_starts_with (c # s) pat
      then js_subst seen pat (drop (length pat - 1) s) v
             @ replace_all pat v (seen @ pat) (drop (length pat - 1) s)
      else c # replace_all pat v (seen @ [c]) s)"
  by pat_completeness auto
termination
  by (relation "measure (\<lambda>(pat, v, seen, s). length s)") auto

definition applyTemplate :: "string \<Rightarrow> (string \<times> string) list \<Rightarrow> string" where
  "applyTemplate template vars =
     foldl (\<lambda>result (key, v). replace_all (''{{'' @ key @ ''}}'') v [] result) template vars"

record action_result =
  ar_assign_to :: "string option"
  ar_assign_team :: "string option"
  ar_comment :: "string option"
  ar_add_label :: "string option"
  ar_remove_label :: "string option"

text \<open>The texts that count as given: not absent and not empty.\<close>

definition truthy_text :: "string option \<Rightarrow> string option" where
  "truthy_text x = (case x of None \<Rightarrow> None | Some s \<Rightarrow> if s = [] then None else Some s)"

definition executeTransitionActions :: "transition_action \<Rightarrow> (string \<times> string) list \<Rightarrow> action_result" where
  "executeTransitionActions action vars =
     (let tmpl = (\<lambda>x. map_option (\<lambda>s. applyTemplate s vars) (truthy_text x)) in
      \<lparr>ar_assign_to = tmpl (ta_assign_to action), ar_assign_team = tmpl (ta_assign_team action),
       ar_comment = tmpl (ta_comment action), ar_add_label = truthy_text (ta_add_label action),
       ar_remove_label = truthy_text (ta_remove_label action)\<rparr>)"

subsection \<open>Names\<close>

lemma collapse_set: "set (collapse_dashes s) \<subseteq> set s"
  by (induction s rule: collapse_dashes.induct) auto

lemma collapse_Nil [simp]: "collapse_dashes s = [] \<longleftrightarrow> s = []"
  by (induction s rule: collapse_dashes.induct) auto

lemma collapse_head: "s \<noteq> [] \<Longrightarrow> \<exists>u. collapse_dashes s = hd s # u"
  by (induction s rule: collapse_dashes.induct) auto

lemma collapse_idem: "collapse_dashes (collapse_dashes s) = collapse_dashes s"
proof (induction s rule: collapse_dashes.induct)
  case (1 c d s)
  obtain u where u: "collapse_dashes (d # s) = d # u" using collapse_head [of "d # s"] by auto
  show ?case using 1 u by auto
qed simp_all

lemma name_char_lower: "name_char c \<Longrightarrow> lower_char c = c"
  by (auto simp: name_char_def lower_char_def is_lower_def is_digit_def is_upper_def code_def)

lemma name_char_not_ws: "name_char c \<Longrightarrow> \<not> js_ws c"
  by (auto simp: name_char_def js_ws_def is_lower_def is_digit_def code_def)

lemma sanitize_chars: "\<forall>c \<in> set (sanitizeName n). name_char c"
  using collapse_set [of "map (\<lambda>c. if name_char c then c else CHR ''-'') (js_lower n)"]
  by (auto simp: sanitizeName_def name_char_def)

lemma map_same: "(\<And>x. x \<in> set xs \<Longrightarrow> f x = x) \<Longrightarrow> map f xs = xs"
  by (induction xs) auto

lemma sanitize_idem [simp]: "sanitizeName (sanitizeName n) = sanitizeName n"
proof -
  have "js_lower (sanitizeName n) = sanitizeName n"
    unfolding js_lower_def using sanitize_chars [of n] by (intro map_same) (auto simp: name_char_lower)
  moreover have "map (\<lambda>c. if name_char c then c else CHR ''-'') (sanitizeName n) = sanitizeName n"
    using sanitize_chars [of n] by (intro map_same) auto
  ultimately have "sanitizeName (sanitizeName n) = collapse_dashes (sanitizeName n)"
    by (simp add: sanitizeName_def [of "sanitizeName n"])
  then show ?thesis by (simp add: sanitizeName_def collapse_idem)
qed

lemma trim_no_ws: "\<forall>c \<in> set s. \<not> js_ws c \<Longrightarrow> js_trim s = s"
proof -
  assume a: "\<forall>c \<in> set s. \<not> js_ws c"
  have d: "\<forall>c \<in> set u. \<not> js_ws c \<Longrightarrow> dropWhile js_ws u = u" for u by (cases u) auto
  show ?thesis using a by (simp add: js_trim_def js_trim_start_def js_trim_end_def d)
qed

lemma sanitize_trim [simp]: "js_trim (sanitizeName n) = sanitizeName n"
  using sanitize_chars name_char_not_ws by (intro trim_no_ws) blast

lemma sanitize_Nil [simp]: "sanitizeName n = [] \<longleftrightarrow> n = []"
  by (simp add: sanitizeName_def js_lower_def)

subsection \<open>What is stored is well formed\<close>

definition wf_ok :: "workflow \<Rightarrow> bool" where
  "wf_ok w \<longleftrightarrow> js_trim (wf_name w) \<noteq> [] \<and> wf_initial_status w \<noteq> []
     \<and> wf_initial_status w \<in> set (wf_status_ids w)
     \<and> (\<forall>t \<in> set (wf_transitions w). wt_from t \<in> set (wf_status_ids w) \<and> wt_to t \<in> set (wf_status_ids w)
          \<and> wt_trigger t \<in> set wf_triggers)"

lemma check_transitions_ok:
  "check_transitions ids ts = Inr u \<longleftrightarrow>
     (\<forall>t \<in> set ts. wt_from t \<in> set ids \<and> wt_to t \<in> set ids \<and> wt_trigger t \<in> set wf_triggers)"
  by (induction ts) auto

lemma trim_Nil [simp]: "js_trim [] = []"
  by (simp add: js_trim_def js_trim_start_def js_trim_end_def)

lemma validate_ok: "validateWorkflowDefinition w = Inr u \<longleftrightarrow> wf_ok w"
  by (auto simp: validateWorkflowDefinition_def wf_ok_def check_transitions_ok wf_status_ids_def)

text \<open>The invariant of the directory: a readable file holds the checked definition of its name.\<close>

definition file_ok :: "string \<Rightarrow> wf_file \<Rightarrow> bool" where
  "file_ok f c = (case c of WfMalformed \<Rightarrow> True
     | WfJson w \<Rightarrow> wf_ok w \<and> sanitizeName (wf_name w) = wf_name w \<and> f = workflowPath (wf_name w))"

definition dir_ok :: "wf_dir \<Rightarrow> bool" where
  "dir_ok dir \<longleftrightarrow> (\<forall>f c. map_of dir f = Some c \<longrightarrow> file_ok f c)"

lemma dir_ok_update: "dir_ok dir \<Longrightarrow> file_ok f c \<Longrightarrow> dir_ok (AList.update f c dir)"
  by (simp add: dir_ok_def update_conv')

lemma dir_ok_delete: "dir_ok dir \<Longrightarrow> dir_ok (AList.delete f dir)"
  by (simp add: dir_ok_def delete_conv')

lemma create_ok [keeps]: "dir_ok dir \<Longrightarrow> dir_ok (fst (createWorkflow now def dir))"
  by (auto simp: createWorkflow_def Let_def validate_ok file_ok_def wf_ok_def wf_status_ids_def
      workflowPath_def split: sum.splits intro!: dir_ok_update)

lemma get_ok: "dir_ok dir \<Longrightarrow> getWorkflow dir name = Some w \<Longrightarrow>
    wf_ok w \<and> wf_name w = sanitizeName name"
proof -
  assume a: "dir_ok dir" "getWorkflow dir name = Some w"
  then have "map_of dir (workflowPath name) = Some (WfJson w)"
    by (auto simp: getWorkflow_def split: option.splits wf_file.splits)
  with a(1) have "file_ok (workflowPath name) (WfJson w)" by (simp add: dir_ok_def)
  then show ?thesis by (auto simp: file_ok_def workflowPath_def)
qed

lemma update_ok [keeps]: "dir_ok dir \<Longrightarrow> dir_ok (fst (updateWorkflow name u dir))"
  using get_ok [of dir name]
  by (auto simp: updateWorkflow_def Let_def validate_ok file_ok_def workflowPath_def merge_workflow_def
      split: option.splits sum.splits intro!: dir_ok_update)

lemma delete_ok [keeps]: "dir_ok dir \<Longrightarrow> dir_ok (fst (deleteWorkflow name dir))"
  by (auto simp: deleteWorkflow_def intro: dir_ok_delete)

datatype wf_op = WfCreate time workflow | WfUpdate string wf_updates | WfDelete string

fun wf_step :: "wf_dir \<Rightarrow> wf_op \<Rightarrow> wf_dir" where
  "wf_step dir (WfCreate now def) = fst (createWorkflow now def dir)"
| "wf_step dir (WfUpdate name u) = fst (updateWorkflow name u dir)"
| "wf_step dir (WfDelete name) = fst (deleteWorkflow name dir)"

lemma wf_step_ok: "dir_ok dir \<Longrightarrow> dir_ok (wf_step dir p)"
  by (cases p) (simp_all add: keeps)

lemma wf_steps_ok: "dir_ok (foldl wf_step [] ps)"
  by (rule foldl_invariant [of dir_ok]) (simp add: dir_ok_def, rule wf_step_ok)

subsection \<open>Transitions\<close>

lemma filter_hd: "filter P xs = t # ts \<Longrightarrow> t \<in> set xs \<and> P t"
  by (drule arg_cong [where f = set]) auto

lemma validateTransition_valid:
  "validateTransition w a b actor = Inr t \<Longrightarrow> t \<in> set (wf_transitions w) \<and> wt_from t = a \<and> wt_to t = b
     \<and> (wt_trigger t = ''any'' \<or> wt_trigger t = actor)"
  by (auto simp: validateTransition_def split: list.splits if_splits dest: filter_hd)

text \<open>The statuses a task can move to in one transition, whoever acts.\<close>

inductive wf_move :: "workflow \<Rightarrow> string \<Rightarrow> string \<Rightarrow> bool" for w where
  move: "validateTransition w a b actor = Inr t \<Longrightarrow> wf_move w a b"

inductive_cases wf_moveE: "wf_move w a b"

lemma move_declared: "wf_ok w \<Longrightarrow> wf_move w a b \<Longrightarrow> a \<in> set (wf_status_ids w) \<and> b \<in> set (wf_status_ids w)"
  by (auto elim!: wf_moveE dest!: validateTransition_valid simp: wf_ok_def)

lemma reach_declared:
  "(wf_move w)\<^sup>*\<^sup>* a s \<Longrightarrow> wf_ok w \<Longrightarrow> a \<in> set (wf_status_ids w) \<Longrightarrow> s \<in> set (wf_status_ids w)"
  by (induction rule: rtranclp_induct) (auto dest: move_declared)

text \<open>
  C40. Whatever sequence of creations, updates and deletions has run, a workflow that can be
  read is well typed: it is the one of the sanitised name, its initial status and both ends
  of every transition are declared statuses, and every trigger is one of the four. So a task
  that starts in the initial status and only makes transitions that are accepted, by any
  actors, is always in a declared status, and an accepted transition is a declared one whose
  trigger admits the actor.
\<close>

theorem workflow_typed:
  assumes "getWorkflow (foldl wf_step [] ps) name = Some w"
  shows "wf_ok w \<and> wf_name w = sanitizeName name
    \<and> (\<forall>s. (wf_move w)\<^sup>*\<^sup>* (wf_initial_status w) s \<longrightarrow> s \<in> set (wf_status_ids w))
    \<and> (\<forall>a b actor t. validateTransition w a b actor = Inr t \<longrightarrow>
         t \<in> set (wf_transitions w) \<and> wt_from t = a \<and> wt_to t = b
         \<and> (wt_trigger t = ''any'' \<or> wt_trigger t = actor))"
proof -
  have ok: "wf_ok w" "wf_name w = sanitizeName name"
    using get_ok [OF wf_steps_ok assms] by simp_all
  moreover have "wf_initial_status w \<in> set (wf_status_ids w)" using ok(1) by (simp add: wf_ok_def)
  ultimately show ?thesis using reach_declared validateTransition_valid by metis
qed

definition sample_workflow :: workflow where
  "sample_workflow = \<lparr>wf_name = ''Bug  Flow'', wf_description = None, wf_version = None, wf_project = None,
     wf_statuses = [\<lparr>ws_id = ''new'', ws_label = ''New'', ws_category = ''open'', ws_color = None\<rparr>,
       \<lparr>ws_id = ''fixed'', ws_label = ''Fixed'', ws_category = ''done'', ws_color = None\<rparr>],
     wf_initial_status = ''new'',
     wf_transitions = [
       \<lparr>wt_from = ''new'', wt_to = ''fixed'', wt_trigger = ''human'', wt_label = None,
         wt_description = None, wt_on_transition = None\<rparr>,
       \<lparr>wt_from = ''new'', wt_to = ''fixed'', wt_trigger = ''agent'', wt_label = None,
         wt_description = None, wt_on_transition = None\<rparr>],
     wf_created_at = Some ''2026-01-01T00:00:00.000Z'', wf_created_by = None\<rparr>"

lemma sample_name: "sanitizeName ''Bug  Flow'' = ''bug-flow''"
  by (simp add: sanitizeName_def js_lower_def lower_char_def name_char_def is_upper_def is_lower_def
      is_digit_def code_def char_of_def bit_0)

lemma sample_created:
  "getWorkflow (foldl wf_step [] [WfCreate 0 sample_workflow]) ''BUG-flow''
     = Some (sample_workflow\<lparr>wf_name := ''bug-flow''\<rparr>)"
proof -
  have "sanitizeName ''BUG-flow'' = ''bug-flow''"
    by (simp add: sanitizeName_def js_lower_def lower_char_def name_char_def is_upper_def is_lower_def
        is_digit_def code_def char_of_def bit_0)
  moreover have "validateWorkflowDefinition sample_workflow = Inr ()"
    by (simp add: validateWorkflowDefinition_def sample_workflow_def js_trim_def js_trim_start_def
        js_trim_end_def js_ws_def code_def wf_status_ids_def wf_triggers_def)
  moreover have "wf_name sample_workflow = ''Bug  Flow''"
    "wf_created_at sample_workflow = Some ''2026-01-01T00:00:00.000Z''"
    by (simp_all add: sample_workflow_def)
  moreover have "sanitizeName ''bug-flow'' = ''bug-flow''"
    using sanitize_idem [of "''Bug  Flow''"] by (simp only: sample_name)
  ultimately show ?thesis
    by (simp add: createWorkflow_def getWorkflow_def workflowPath_def sample_name text_or_default_def)
qed

lemma workflow_typed_witness:
  "\<exists>w. getWorkflow (foldl wf_step [] [WfCreate 0 sample_workflow]) ''BUG-flow'' = Some w
     \<and> wf_ok w \<and> wf_name w = ''bug-flow'' \<and> wf_move w ''new'' ''fixed''"
proof -
  from workflow_typed [OF sample_created] have
    "wf_ok (sample_workflow\<lparr>wf_name := ''bug-flow''\<rparr>)" by blast
  moreover have "validateTransition (sample_workflow\<lparr>wf_name := ''bug-flow''\<rparr>) ''new'' ''fixed'' ''human''
      = Inr (hd (wf_transitions sample_workflow))"
    by (simp add: validateTransition_def sample_workflow_def)
  ultimately show ?thesis using sample_created by (fastforce intro: wf_move.intros)
qed

text \<open>
  The list of valid transitions offers an agent the second of two transitions between the
  same statuses; the validation looks at the first only and refuses it.
\<close>

lemma first_transition_decides:
  "map wt_to (getValidTransitions sample_workflow ''new'' (Some ''agent'')) = [''fixed'']
     \<and> validateTransition sample_workflow ''new'' ''fixed'' ''agent''
         = Inl (TriggerRequired ''new'' ''fixed'' ''human'' ''agent'')"
  by (simp add: getValidTransitions_def validateTransition_def sample_workflow_def)

end
