(* ===== verification/PulseBoard.thy ===== *)
theory PulseBoard
  imports PulseFacts Workflows
begin

text \<open>
  What runs on top of the local task store: the transition of a task through its workflow
  (\<open>transitionTask\<close> of \<open>src/src/pulse/local-store.ts\<close>, which takes the functions of the
  workflow store as an argument), the handlers of \<open>src/src/daemon/dashboard.ts\<close> that create
  and transition tasks and fire automatic transitions, and the timer there that hands due
  tasks to their agents.
\<close>

subsection \<open>Teams\<close>

type_synonym team_config = "(string \<times> string \<times> string list) list"

definition default_teams :: team_config where
  "default_teams =
     [(''triage'', ''hritik'', [''hritik'']), (''security-triage'', ''hritik'', [''hritik'']),
      (''engineering'', ''kai'', [''kai'', ''ryo'']), (''security'', ''akira'', [''akira'', ''ren'']),
      (''review'', ''akira'', [''akira'', ''ren'']), (''qa'', ''zen'', [''zen'', ''mika'']),
      (''architecture'', ''sora'', [''sora'', ''aoi'']), (''documentation'', ''yuki'', [''yuki'', ''haru'']),
      (''research-analytics'', ''hana'', [''hana'', ''tomo'']), (''leads'', ''hritik'', [''hritik''])]"

text \<open>The configuration file, when there is one that parses.\<close>

definition loadTeamConfig :: "team_config option \<Rightarrow> team_config" where
  "loadTeamConfig file = default_to default_teams file"

definition resolveTeamLead :: "team_config option \<Rightarrow> string \<Rightarrow> string option" where
  "resolveTeamLead file teamName =
     (let canonical = (if teamName = ''research'' \<or> teamName = ''analytics'' then ''research-analytics''
                       else teamName)
      in map_option fst (map_of (loadTeamConfig file) canonical))"

subsection \<open>Transitions\<close>

datatype board_error =
    TaskNotFound string
  | NoWorkflow string
  | NoWorkflowStatus string
  | NoHelpers
  | WorkflowNotFound string
  | Refused wf_error
  | UpdateFailed
  | TargetRequired
  | TitleRequired
  | Threw pulse_error

text \<open>The functions of the workflow store that the caller passes.\<close>

record wf_helpers =
  wh_getWorkflow :: "string \<Rightarrow> workflow option"
  wh_validateTransition :: "workflow \<Rightarrow> string \<Rightarrow> string \<Rightarrow> string \<Rightarrow> wf_error + wf_transition"
  wh_executeTransitionActions :: "transition_action \<Rightarrow> (string \<times> string) list \<Rightarrow> action_result"

definition transition_vars :: "pulse_task \<Rightarrow> string \<Rightarrow> string \<Rightarrow> string \<Rightarrow> (string \<times> string) list" where
  "transition_vars task status target actor =
     [(''actor'', actor), (''assignee'', default_to ''unassigned'' (pt_assignee task)),
      (''from'', status), (''to'', target), (''creator'', default_to ''unknown'' (pt_created_by task))]"

definition assign_updates :: "team_config option \<Rightarrow> action_result \<Rightarrow> task_updates \<Rightarrow> task_updates" where
  "assign_updates cfg r u =
     (let u1 = (if given_text (ar_assign_team r) then u\<lparr>tu_assignment_group := Some (ar_assign_team r)\<rparr> else u);
          u2 = (if given_text (ar_assign_to r) then u1\<lparr>tu_assignee := ar_assign_to r\<rparr> else u1)
      in if given_text (ar_assign_team r) \<and> \<not> given_text (ar_assign_to r)
         then (let lead = resolveTeamLead cfg (the (ar_assign_team r)) in
               if given_text lead then u2\<lparr>tu_assignee := lead\<rparr> else u2)
         else u2)"

definition label_updates :: "action_result \<Rightarrow> string list \<Rightarrow> task_updates \<Rightarrow> task_updates" where
  "label_updates r labels u =
     (let u1 = (if given_text (ar_add_label r)
                then u\<lparr>tu_labels := Some (if the (ar_add_label r) \<in> set labels then labels
                                          else labels @ [the (ar_add_label r)])\<rparr> else u)
      in if given_text (ar_remove_label r)
         then u1\<lparr>tu_labels := Some (filter (\<lambda>l. l \<noteq> the (ar_remove_label r)) labels)\<rparr> else u1)"

definition category_status :: "string \<Rightarrow> string option" where
  "category_status c = map_of [(''open'', ''pending''), (''in_progress'', ''in_progress''),
     (''done'', ''completed''), (''cancelled'', ''cancelled'')] c"

definition status_update :: "workflow \<Rightarrow> string \<Rightarrow> task_updates \<Rightarrow> task_updates" where
  "status_update w target u = (case find (\<lambda>s. ws_id s = target) (wf_statuses w) of
      None \<Rightarrow> u
    | Some s \<Rightarrow> (case category_status (ws_category s) of
        None \<Rightarrow> u | Some st \<Rightarrow> u\<lparr>tu_status := Some st\<rparr>))"

text \<open>The update of a transition and its comment, if it has one.\<close>

definition transition_update :: "wf_helpers \<Rightarrow> team_config option \<Rightarrow> workflow \<Rightarrow> wf_transition \<Rightarrow>
    pulse_task \<Rightarrow> string \<Rightarrow> string \<Rightarrow> string \<Rightarrow> task_updates \<times> string option" where
  "transition_update h cfg w t task status target actor =
     (let u = no_updates\<lparr>tu_workflow_status := Some (Some target)\<rparr> in
      case wt_on_transition t of
        None \<Rightarrow> (status_update w target u, None)
      | Some action \<Rightarrow>
          let r = wh_executeTransitionActions h action (transition_vars task status target actor) in
          (status_update w target (label_updates r (pt_labels task) (assign_updates cfg r u)),
           truthy_text (ar_comment r)))"

definition transitionTask :: "wf_helpers option \<Rightarrow> team_config option \<Rightarrow> string \<Rightarrow> string \<Rightarrow> string \<Rightarrow>
    string option \<Rightarrow> string \<Rightarrow> time \<Rightarrow> pulse_db \<Rightarrow> pulse_db \<times> (board_error + pulse_task \<times> string option)" where
  "transitionTask helpers cfg idOrKey target actorType actorUsername uuid now db =
     (case getTask idOrKey db of
        None \<Rightarrow> (db, Inl (TaskNotFound idOrKey))
      | Some task \<Rightarrow>
          if \<not> given_text (pt_workflow task) then (db, Inl (NoWorkflow (pt_item_key task)))
          else if \<not> given_text (pt_workflow_status task) then (db, Inl (NoWorkflowStatus (pt_item_key task)))
          else (case helpers of
            None \<Rightarrow> (db, Inl NoHelpers)
          | Some h \<Rightarrow> (case wh_getWorkflow h (the (pt_workflow task)) of
              None \<Rightarrow> (db, Inl (WorkflowNotFound (the (pt_workflow task))))
            | Some w \<Rightarrow>
                let status = the (pt_workflow_status task) in
                (case wh_validateTransition h w status target actorType of
                   Inl e \<Rightarrow> (db, Inl (Refused e))
                 | Inr t \<Rightarrow>
                     let actor = default_to actorType actorUsername in
                     (case transition_update h cfg w t task status target actor of (u, comment) \<Rightarrow>
                       (case updateTask (pt_id task) u now db of
                          Inl e \<Rightarrow> (db, Inl (Threw e))
                        | Inr (db1, None) \<Rightarrow> (db1, Inl UpdateFailed)
                        | Inr (db1, Some updated) \<Rightarrow>
                            (case comment of
                               None \<Rightarrow> (db1, Inr (updated, None))
                             | Some c \<Rightarrow>
                                 (case addComment (pt_id task) actor c uuid now db1 of
                                    Inl e \<Rightarrow> (db1, Inl (Threw e))
                                  | Inr (db2, x) \<Rightarrow> (db2, Inr (updated, Some c))))))))))"

subsection \<open>The handlers of the dashboard\<close>

definition stored_helpers :: "wf_dir \<Rightarrow> wf_helpers" where
  "stored_helpers dir = \<lparr>wh_getWorkflow = getWorkflow dir, wh_validateTransition = validateTransition,
     wh_executeTransitionActions = executeTransitionActions\<rparr>"

text \<open>
  The one automatic transition out of the status of a task, when there is exactly one; its
  outcome is dropped unless it succeeds.
\<close>

definition auto_fire :: "wf_dir \<Rightarrow> team_config option \<Rightarrow> string \<Rightarrow> time \<Rightarrow> pulse_task \<Rightarrow> pulse_db \<Rightarrow>
    pulse_db \<times> (board_error + pulse_task option)" where
  "auto_fire dir cfg uuid now task db =
     (if given_text (pt_workflow task) \<and> given_text (pt_workflow_status task)
      then (case getWorkflow dir (the (pt_workflow task)) of
              None \<Rightarrow> (db, Inr None)
            | Some w \<Rightarrow>
                (case filter (\<lambda>t. wt_from t = the (pt_workflow_status task) \<and> wt_trigger t = ''auto'')
                        (wf_transitions w) of
                   [t] \<Rightarrow>
                     (case transitionTask (Some (stored_helpers dir)) cfg (pt_id task) (wt_to t) ''auto''
                             (Some ''system'') uuid now db of
                        (db1, Inl (Threw e)) \<Rightarrow> (db1, Inl (Threw e))
                      | (db1, Inl e) \<Rightarrow> (db1, Inr None)
                      | (db1, Inr (t', c)) \<Rightarrow> (db1, Inr (Some t')))
                 | _ \<Rightarrow> (db, Inr None)))
      else (db, Inr None))"

text \<open>\<open>POST /v1/local-pulse/tasks\<close>; the title is required and may not be empty.\<close>

definition post_task :: "wf_dir \<Rightarrow> team_config option \<Rightarrow> string \<Rightarrow> string \<Rightarrow> time \<Rightarrow> task_opts \<Rightarrow> pulse_db \<Rightarrow>
    pulse_db \<times> (board_error + pulse_task)" where
  "post_task dir cfg uuid cuuid now body db =
     (if to_title body = [] then (db, Inl TitleRequired)
      else let status = (if given_text (to_workflow body) \<and> \<not> given_text (to_workflow_status body)
                         then (case getWorkflow dir (the (to_workflow body)) of
                                 None \<Rightarrow> to_workflow_status body
                               | Some w \<Rightarrow> Some (wf_initial_status w))
                         else to_workflow_status body)
        in (case createTask uuid now (body\<lparr>to_workflow_status := status, to_start_date := None\<rparr>) db of
              Inl e \<Rightarrow> (db, Inl (Threw e))
            | Inr (db1, None) \<Rightarrow> (db1, Inl UpdateFailed)
            | Inr (db1, Some task) \<Rightarrow>
                (case auto_fire dir cfg cuuid now task db1 of
                   (db2, Inl e) \<Rightarrow> (db2, Inl e)
                 | (db2, Inr x) \<Rightarrow> (db2, Inr (default_to task (getTask (pt_id task) db2))))))"

text \<open>\<open>POST /v1/local-pulse/tasks/:id/transition\<close>\<close>

definition post_transition :: "wf_dir \<Rightarrow> team_config option \<Rightarrow> string \<Rightarrow> string \<Rightarrow> string option \<Rightarrow> string option \<Rightarrow>
    string option \<Rightarrow> string \<times> string \<times> string \<Rightarrow> time \<Rightarrow> pulse_db \<Rightarrow>
    pulse_db \<times> (board_error + pulse_task \<times> string option)" where
  "post_transition dir cfg idOrKey target actorType actor comment uuids now db =
     (case uuids of (u1, u2, u3) \<Rightarrow>
      if target = [] then (db, Inl TargetRequired)
      else (case transitionTask (Some (stored_helpers dir)) cfg idOrKey target
                   (default_to ''human'' actorType) actor u1 now db of
        (db1, Inl e) \<Rightarrow> (db1, Inl e)
      | (db1, Inr (task, auto_comment)) \<Rightarrow>
          (case (if given_text comment
                 then addComment (pt_id task) (default_to ''system'' actor) (the comment) u2 now db1
                 else Inr (db1, None)) of
             Inl e \<Rightarrow> (db1, Inl (Threw e))
           | Inr (db2, x) \<Rightarrow>
               (case auto_fire dir cfg u3 now task db2 of
                  (db3, Inl e) \<Rightarrow> (db3, Inl e)
                | (db3, Inr final) \<Rightarrow> (db3, Inr (default_to task final, auto_comment))))))"

subsection \<open>The timer of due tasks\<close>

definition due_prompt :: "pulse_task \<Rightarrow> string" where
  "due_prompt t =
     (let body = ''] \"'' @ pt_title t @ ''\"''
            @ (if pt_description t = [] then [] else [CHR 0x0A, CHR 0x0A] @ pt_description t)
            @ [CHR 0x0A, CHR 0x0A]
      in if pt_is_recurring t
         then ''[Scheduled Task '' @ pt_item_key t @ body @ ''This is a recurring task (''
                @ default_to ''null'' (pt_schedule t)
                @ ''). Please handle it now. When done, no need to mark it complete '' @ em_dash
                @ '' it will automatically recur.''
         else ''[Task '' @ pt_item_key t @ '' is due'' @ body
                @ ''Please handle this task. When complete, use pulse_local_complete_task(task=\"''
                @ pt_item_key t @ ''\") to mark it done.'')"

text \<open>
  One tick: \<open>ready\<close> tells of a user name whether it is an agent that runs and can be reached.
  An exception ends the tick.  The result is the store and the messages sent.
\<close>

fun dispatch_due :: "(string \<Rightarrow> bool) \<Rightarrow> time \<Rightarrow> pulse_task list \<Rightarrow> pulse_db \<Rightarrow> pulse_db \<times> (string \<times> string) list" where
  "dispatch_due ready now [] db = (db, [])"
| "dispatch_due ready now (t # ts) db =
     (if \<not> given_text (pt_assignee t) \<or> \<not> ready (the (pt_assignee t)) then dispatch_due ready now ts db
      else (case markTriggered (pt_id t) now db of
              Inl e \<Rightarrow> (db, [])
            | Inr (db1, x) \<Rightarrow>
                (case dispatch_due ready now ts db1 of (db2, ms) \<Rightarrow>
                   (db2, (the (pt_assignee t), due_prompt t) # ms))))"

definition scheduler_tick :: "(string \<Rightarrow> bool) \<Rightarrow> time \<Rightarrow> pulse_db \<Rightarrow> pulse_db \<times> (string \<times> string) list" where
  "scheduler_tick ready now db = dispatch_due ready now (getDueTasks now db) db"

subsection \<open>Transitions follow the workflow\<close>

text \<open>An id finds its own row: no key of another task is that text.\<close>

definition lookups_ok :: "pulse_db \<Rightarrow> bool" where
  "lookups_ok db \<longleftrightarrow> distinct (map pt_id (pd_tasks db))
     \<and> (\<forall>t \<in> set (pd_tasks db). \<forall>u \<in> set (pd_tasks db).
          pt_item_key u \<noteq> js_upper (pt_id t) \<and> pt_remote_key u \<noteq> Some (js_upper (pt_id t)))"

lemma getTask_id:
  assumes "lookups_ok db" "t \<in> set (pd_tasks db)"
  shows "getTask (pt_id t) db = Some t"
  unfolding getTask_def using assms
  by (intro find_unique) (auto simp: lookups_ok_def distinct_map inj_on_def)

lemma lookups_set:
  assumes "lookups_ok db" "same_identity f" "\<And>t. pt_remote_key (f t) = pt_remote_key t"
  shows "lookups_ok (set_task k f db)"
  using assms unfolding lookups_ok_def set_task_def alter_tasks_def same_identity_def
  by (auto simp: set_sql_update map_sql_update)

lemma set_task_found:
  assumes "lookups_ok db" "t \<in> set (pd_tasks db)" "same_identity f" "\<And>t. pt_remote_key (f t) = pt_remote_key t"
  shows "getTask (pt_id t) (set_task (pt_id t) f db) = Some (f t)"
proof -
  have "f t \<in> set (pd_tasks (set_task (pt_id t) f db))"
    using assms(2) by (auto simp: set_task_def alter_tasks_def set_sql_update)
  moreover have "pt_id (f t) = pt_id t" using assms(3) by (simp add: same_identity_def)
  ultimately show ?thesis
    using getTask_id [OF lookups_set [OF assms(1,3,4)], of "f t"] by metis
qed

definition updated_row :: "task_updates \<Rightarrow> string \<Rightarrow> pulse_task \<Rightarrow> pulse_task \<Rightarrow> pulse_task" where
  "updated_row u now old t = set_dates (tu_status u) old now (set_columns u t)"

lemma updated_row_simps [simp]:
  "pt_id (updated_row u now old t) = pt_id t"
  "pt_remote_key (updated_row u now old t) = pt_remote_key t"
  "pt_status (updated_row u now old t) = default_to (pt_status t) (tu_status u)"
  "pt_workflow (updated_row u now old t) = default_to (pt_workflow t) (tu_workflow u)"
  "pt_workflow_status (updated_row u now old t) = default_to (pt_workflow_status t) (tu_workflow_status u)"
  "same_identity (updated_row u now old)"
  by (simp_all add: updated_row_def set_dates_def Let_def set_columns_def same_identity_def)

lemma update_plain:
  assumes "lookups_ok db" "task \<in> set (pd_tasks db)" "tu_schedule u = None"
  shows "updateTask (pt_id task) u now db
    = Inr (set_task (pt_id task) (updated_row u (toISOString now) task) db,
           Some (updated_row u (toISOString now) task task))"
proof -
  have f: "(\<lambda>t. set_dates (tu_status u) task (toISOString now) (set_columns u t)) = updated_row u (toISOString now) task"
    by (intro ext) (simp add: updated_row_def)
  have "getTask (pt_id task) (set_task (pt_id task) (updated_row u (toISOString now) task) db)
      = Some (updated_row u (toISOString now) task task)"
    using assms(1,2) by (intro set_task_found) simp_all
  then show ?thesis
    using getTask_id [OF assms(1,2)] assms(3) by (simp add: updateTask_def set_schedule_def Let_def f)
qed

lemma label_updates_simps [simp]:
  "tu_schedule (label_updates r ls u) = tu_schedule u" "tu_workflow (label_updates r ls u) = tu_workflow u"
  "tu_workflow_status (label_updates r ls u) = tu_workflow_status u" "tu_status (label_updates r ls u) = tu_status u"
  by (simp_all add: label_updates_def Let_def)

lemma assign_updates_simps [simp]:
  "tu_schedule (assign_updates cfg r u) = tu_schedule u" "tu_workflow (assign_updates cfg r u) = tu_workflow u"
  "tu_workflow_status (assign_updates cfg r u) = tu_workflow_status u"
  "tu_status (assign_updates cfg r u) = tu_status u"
  by (simp_all add: assign_updates_def Let_def)

text \<open>The status the category of a workflow status stands for.\<close>

definition target_category :: "workflow \<Rightarrow> string \<Rightarrow> string option" where
  "target_category w target = (case find (\<lambda>s. ws_id s = target) (wf_statuses w) of
      None \<Rightarrow> None | Some s \<Rightarrow> category_status (ws_category s))"

lemma status_update_simps [simp]:
  "tu_schedule (status_update w g u) = tu_schedule u" "tu_workflow (status_update w g u) = tu_workflow u"
  "tu_workflow_status (status_update w g u) = tu_workflow_status u"
  "tu_status (status_update w g u) = given_or (target_category w g) (tu_status u)"
  by (simp_all add: status_update_def target_category_def given_or_def split: option.splits)

lemma transition_update_simps:
  assumes "transition_update h cfg w t task status target actor = (u, c)"
  shows "tu_schedule u = None" "tu_workflow u = None" "tu_workflow_status u = Some (Some target)"
    "tu_status u = target_category w target"
  using assms
  by (auto simp: transition_update_def Let_def no_updates_def given_or_def split: option.splits)

definition touch_row :: "string \<Rightarrow> pulse_task \<Rightarrow> pulse_task" where
  "touch_row now t = t\<lparr>pt_updated_at := now, pt_dirty := True\<rparr>"

lemma touch_row_simps [simp]:
  "pt_workflow_status (touch_row now t) = pt_workflow_status t"
  "pt_workflow (touch_row now t) = pt_workflow t" "pt_status (touch_row now t) = pt_status t"
  by (simp_all add: touch_row_def)

lemma comment_added:
  assumes "getTask k db = Some task" "uuid \<notin> pc_id ` set (pd_comments db)"
  shows "\<exists>c. pc_content c = x \<and> addComment k a x uuid now db
    = Inr (set_task (pt_id task) (touch_row (toISOString now)) (db\<lparr>pd_comments := pd_comments db @ [c]\<rparr>), Some c)"
  using assms by (auto simp: addComment_def Let_def touch_row_def [abs_def])

lemma transition_parts:
  assumes "transitionTask (Some h) cfg k target actorType actor uuid now db = (db', r)"
    and "\<not> (\<exists>e. r = Inl e \<and> db' = db)" "lookups_ok db"
  obtains task status w t u c f where
    "getTask k db = Some task" "pt_workflow_status task = Some status"
    "wh_getWorkflow h (the (pt_workflow task)) = Some w"
    "wh_validateTransition h w status target actorType = Inr t"
    "transition_update h cfg w t task status target (default_to actorType actor) = (u, c)"
    "f = updated_row u (toISOString now) task"
    "(db', r) = (case c of None \<Rightarrow> (set_task (pt_id task) f db, Inr (f task, None))
      | Some x \<Rightarrow> (case addComment (pt_id task) (default_to actorType actor) x uuid now (set_task (pt_id task) f db) of
          Inl e \<Rightarrow> (set_task (pt_id task) f db, Inl (Threw e)) | Inr (db2, y) \<Rightarrow> (db2, Inr (f task, Some x))))"
proof -
  obtain task where task: "getTask k db = Some task"
    using assms by (cases "getTask k db") (auto simp: transitionTask_def)
  then have g: "given_text (pt_workflow task)" "given_text (pt_workflow_status task)"
    using assms by (auto simp: transitionTask_def split: if_splits)
  then obtain status where status: "pt_workflow_status task = Some status"
    by (auto simp: given_text_def split: option.splits)
  obtain w where w: "wh_getWorkflow h (the (pt_workflow task)) = Some w"
    using assms task g by (cases "wh_getWorkflow h (the (pt_workflow task))") (auto simp: transitionTask_def)
  obtain t where t: "wh_validateTransition h w status target actorType = Inr t"
    using assms task g w status
    by (cases "wh_validateTransition h w status target actorType") (auto simp: transitionTask_def)
  obtain u c where u: "transition_update h cfg w t task status target (default_to actorType actor) = (u, c)"
    by fastforce
  have "updateTask (pt_id task) u now db
      = Inr (set_task (pt_id task) (updated_row u (toISOString now) task) db,
             Some (updated_row u (toISOString now) task task))"
    using assms(3) getTask_in [OF task] transition_update_simps(1) [OF u] by (rule update_plain)
  then show ?thesis
    using that [OF task status w t u refl] assms(1) task g w t u status by (simp add: transitionTask_def Let_def)
qed

text \<open>
  The contract of the functions a caller passes: an accepted transition is one of the workflow
  and fits the statuses and the actor, and the workflows read are well typed.
\<close>

locale workflow_helpers =
  fixes h :: wf_helpers
  assumes accepted: "wh_getWorkflow h n = Some w \<Longrightarrow> wh_validateTransition h w a b actor = Inr t \<Longrightarrow>
      t \<in> set (wf_transitions w) \<and> wt_from t = a \<and> wt_to t = b \<and> wt_trigger t \<in> {''any'', actor}"
    and declared: "wh_getWorkflow h n = Some w \<Longrightarrow> t \<in> set (wf_transitions w) \<Longrightarrow>
      wt_to t \<in> set (wf_status_ids w)"
begin

lemma transition_result:
  assumes "lookups_ok db" "uuid \<notin> pc_id ` set (pd_comments db)"
    and "transitionTask (Some h) cfg k target actorType actor uuid now db = (db', r)"
  shows "(\<exists>e. r = Inl e \<and> db' = db) \<or>
    (\<exists>task w t g t' c. getTask k db = Some task \<and> wh_getWorkflow h (the (pt_workflow task)) = Some w
       \<and> t \<in> set (wf_transitions w) \<and> pt_workflow_status task = Some (wt_from t) \<and> wt_to t = target
       \<and> wt_trigger t \<in> {''any'', actorType} \<and> target \<in> set (wf_status_ids w) \<and> r = Inr (t', c)
       \<and> pd_tasks db' = sql_update (\<lambda>t. pt_id t = pt_id task) g (pd_tasks db)
       \<and> (\<forall>x \<in> {t', g task}. pt_workflow_status x = Some target \<and> pt_workflow x = pt_workflow task
            \<and> pt_status x = default_to (pt_status task) (target_category w target))
       \<and> map pc_content (pd_comments db') = map pc_content (pd_comments db) @ (case c of None \<Rightarrow> [] | Some x \<Rightarrow> [x]))"
proof (cases "\<exists>e. r = Inl e \<and> db' = db")
  case False
  obtain task status w t u c f where
    task: "getTask k db = Some task" "pt_workflow_status task = Some status"
    and w: "wh_getWorkflow h (the (pt_workflow task)) = Some w"
    and t: "wh_validateTransition h w status target actorType = Inr t"
    and u: "transition_update h cfg w t task status target (default_to actorType actor) = (u, c)"
    and f: "f = updated_row u (toISOString now) task"
    and r: "(db', r) = (case c of None \<Rightarrow> (set_task (pt_id task) f db, Inr (f task, None))
      | Some x \<Rightarrow> (case addComment (pt_id task) (default_to actorType actor) x uuid now (set_task (pt_id task) f db) of
          Inl e \<Rightarrow> (set_task (pt_id task) f db, Inl (Threw e)) | Inr (db2, y) \<Rightarrow> (db2, Inr (f task, Some x))))"
    by (rule transition_parts [OF assms(3) False assms(1)])
  have fs: "pt_workflow_status (f task) = Some target" "pt_workflow (f task) = pt_workflow task"
    "pt_status (f task) = default_to (pt_status task) (target_category w target)"
    using transition_update_simps [OF u] by (simp_all add: f default_to_def)
  have acc: "t \<in> set (wf_transitions w)" "wt_from t = status" "wt_to t = target" "wt_trigger t \<in> {''any'', actorType}"
    using accepted [OF w t] by simp_all
  have in_ids: "target \<in> set (wf_status_ids w)" using declared [OF w acc(1)] acc(3) by simp
  show ?thesis
  proof (cases c)
    case None
    then show ?thesis using r task w acc in_ids fs
      by (intro disjI2 exI [of _ task] exI [of _ w] exI [of _ t] exI [of _ f] exI [of _ "f task"] exI [of _ c])
        (simp add: set_task_def alter_tasks_def)
  next
    case (Some x)
    have "getTask (pt_id task) (set_task (pt_id task) f db) = Some (f task)"
      using assms(1) getTask_in [OF task(1)] by (intro set_task_found) (simp_all add: f)
    moreover have "uuid \<notin> pc_id ` set (pd_comments (set_task (pt_id task) f db))"
      using assms(2) by (simp add: set_task_def alter_tasks_def)
    ultimately obtain cm where cm: "pc_content cm = x"
      "addComment (pt_id task) (default_to actorType actor) x uuid now (set_task (pt_id task) f db)
        = Inr (set_task (pt_id (f task)) (touch_row (toISOString now))
            ((set_task (pt_id task) f db)\<lparr>pd_comments := pd_comments (set_task (pt_id task) f db) @ [cm]\<rparr>), Some cm)"
      using comment_added by blast
    have "sql_update (\<lambda>t. pt_id t = pt_id task) (touch_row n) (sql_update (\<lambda>t. pt_id t = pt_id task) f ts)
        = sql_update (\<lambda>t. pt_id t = pt_id task) (touch_row n \<circ> f) ts" for n ts
      by (simp add: sql_update_def f)
    then show ?thesis using r Some cm task w acc in_ids fs
      by (intro disjI2 exI [of _ task] exI [of _ w] exI [of _ t] exI [of _ "touch_row (toISOString now) \<circ> f"]
          exI [of _ "f task"] exI [of _ c]) (simp add: set_task_def alter_tasks_def f)
  qed
qed simp

end

interpretation stored: workflow_helpers "stored_helpers (foldl wf_step [] ps)" for ps
proof
  show "t \<in> set (wf_transitions w) \<and> wt_from t = a \<and> wt_to t = b \<and> wt_trigger t \<in> {''any'', actor}"
    if "wh_validateTransition (stored_helpers (foldl wf_step [] ps)) w a b actor = Inr t" for w a b actor t
    using that validateTransition_valid by (auto simp: stored_helpers_def)
  show "wt_to t \<in> set (wf_status_ids w)"
    if "wh_getWorkflow (stored_helpers (foldl wf_step [] ps)) n = Some w" "t \<in> set (wf_transitions w)" for n w t
    using that get_ok [OF wf_steps_ok, of ps n w] by (simp add: stored_helpers_def wf_ok_def)
qed


definition flow_row :: pulse_task where
  "flow_row = (default_row ''t1'' None ''GEN-1'' ''A'' 0)
     \<lparr>pt_workflow := Some ''bug-flow'', pt_workflow_status := Some ''new''\<rparr>"

definition flow_db :: pulse_db where
  "flow_db = \<lparr>pd_projects = [], pd_tasks = [flow_row], pd_comments = []\<rparr>"

lemma flow_lookups: "lookups_ok flow_db"
  by (simp add: lookups_ok_def flow_db_def flow_row_def default_row_def js_upper_def upper_char_def
      is_lower_def code_def char_of_def bit_0)

lemma flow_workflow: "getWorkflow (foldl wf_step [] [WfCreate 0 sample_workflow]) ''bug-flow''
    = Some (sample_workflow\<lparr>wf_name := ''bug-flow''\<rparr>)"
proof -
  have "sanitizeName ''bug-flow'' = sanitizeName ''BUG-flow''"
    by (simp add: sanitizeName_def js_lower_def lower_char_def name_char_def is_upper_def is_lower_def
        is_digit_def code_def char_of_def bit_0)
  then show ?thesis using sample_created by (simp only: getWorkflow_def workflowPath_def)
qed

definition flow_dir :: wf_dir where
  "flow_dir = foldl wf_step [] [WfCreate 0 sample_workflow]"


text \<open>
  A transition that adds one label and removes another only removes: the second assignment
  starts from the labels of the task again.
\<close>

lemma added_label_lost:
  assumes "ar_add_label r = Some a" "a \<noteq> []" "ar_remove_label r = Some b" "b \<noteq> []" "a \<notin> set labels"
  shows "\<exists>ls. tu_labels (label_updates r labels u) = Some ls \<and> a \<notin> set ls"
  using assms by (simp add: label_updates_def given_text_def Let_def)

subsection \<open>A tick hands over what is due\<close>

definition dispatchable :: "(string \<Rightarrow> bool) \<Rightarrow> pulse_task \<Rightarrow> bool" where
  "dispatchable ready t \<longleftrightarrow> given_text (pt_assignee t) \<and> ready (the (pt_assignee t))"

definition recurs :: "pulse_task \<Rightarrow> bool" where
  "recurs t \<longleftrightarrow> pt_is_recurring t \<and> given_text (pt_schedule t)"

definition next_run_of :: "time \<Rightarrow> pulse_task \<Rightarrow> string option" where
  "next_run_of now t = (case computeNextRun_pulse (the (pt_schedule t)) now of Inl e \<Rightarrow> None | Inr n \<Rightarrow> n)"

text \<open>What a trigger makes of a row, and the schedules that do not throw.\<close>

definition triggered_row :: "time \<Rightarrow> pulse_task \<Rightarrow> pulse_task" where
  "triggered_row now t = t\<lparr>pt_last_triggered_at := Some (toISOString now),
     pt_next_run_at := (if recurs t then next_run_of now t else None),
     pt_status := (if recurs t then ''pending'' else ''in_progress''), pt_updated_at := toISOString now\<rparr>"

definition schedule_fits :: "time \<Rightarrow> pulse_task \<Rightarrow> bool" where
  "schedule_fits now t \<longleftrightarrow> (recurs t \<longrightarrow> (case computeNextRun_pulse (the (pt_schedule t)) now of
     Inl e \<Rightarrow> False | Inr n \<Rightarrow> True))"

lemma triggered_identity: "same_identity (triggered_row now)" "pt_remote_key (triggered_row now t) = pt_remote_key t"
  by (simp_all add: same_identity_def triggered_row_def)

lemma set_only:
  assumes "distinct (map pt_id (pd_tasks db))" "t \<in> set (pd_tasks db)" "f t = g t"
  shows "set_task (pt_id t) f db = set_task (pt_id t) g db"
proof -
  have "u = t" if "u \<in> set (pd_tasks db)" "pt_id u = pt_id t" for u
    using assms(1,2) that by (simp add: distinct_map inj_on_def)
  then have "sql_update (\<lambda>u. pt_id u = pt_id t) f (pd_tasks db) = sql_update (\<lambda>u. pt_id u = pt_id t) g (pd_tasks db)"
    unfolding sql_update_def using assms(3) by (intro map_cong) auto
  then show ?thesis by (simp add: set_task_def alter_tasks_def)
qed

lemma trigger_one:
  assumes "lookups_ok db" "t \<in> set (pd_tasks db)" "schedule_fits now t"
  shows "markTriggered (pt_id t) now db = Inr (set_task (pt_id t) (triggered_row now) db, ())"
proof -
  have d: "distinct (map pt_id (pd_tasks db))" using assms(1) by (simp add: lookups_ok_def)
  show ?thesis
  proof (cases "recurs t")
    case True
    then obtain n where n: "computeNextRun_pulse (the (pt_schedule t)) now = Inr n"
      using assms(3) by (auto simp: schedule_fits_def split: sum.splits)
    show ?thesis
      using getTask_id [OF assms(1,2)] True n
      by (simp add: markTriggered_def Let_def recurs_def)
        (rule set_only [OF d assms(2)], simp add: triggered_row_def recurs_def next_run_of_def)
  next
    case False
    then show ?thesis
      using getTask_id [OF assms(1,2)]
      by (auto simp: markTriggered_def Let_def recurs_def
          intro!: set_only [OF d assms(2)]) (simp_all add: triggered_row_def recurs_def)
  qed
qed

definition trigger_rows :: "time \<Rightarrow> string set \<Rightarrow> pulse_db \<Rightarrow> pulse_db" where
  "trigger_rows now ks db = alter_tasks (\<lambda>t. pt_id t \<in> ks) (triggered_row now) db"

lemma trigger_rows_insert:
  assumes "pt_id t \<notin> ks"
  shows "trigger_rows now ks (set_task (pt_id t) (triggered_row now) db) = trigger_rows now (insert (pt_id t) ks) db"
proof -
  have "pt_id (triggered_row now u) = pt_id u" for u by (simp add: triggered_row_def)
  then show ?thesis using assms
    by (auto simp: trigger_rows_def set_task_def alter_tasks_def sql_update_def)
qed

definition message_of :: "pulse_task \<Rightarrow> string \<times> string" where
  "message_of t = (the (pt_assignee t), due_prompt t)"

lemma dispatch_all:
  assumes "lookups_ok db" "distinct (map pt_id ts)" "set ts \<subseteq> set (pd_tasks db)"
    and "\<forall>t \<in> set ts. dispatchable ready t \<longrightarrow> schedule_fits now t"
  shows "dispatch_due ready now ts db = (trigger_rows now (pt_id ` set (filter (dispatchable ready) ts)) db,
     map message_of (filter (dispatchable ready) ts))"
  using assms
proof (induction ts arbitrary: db)
  case Nil
  then show ?case by (simp add: trigger_rows_def alter_tasks_def sql_update_def)
next
  case (Cons t ts)
  show ?case
  proof (cases "dispatchable ready t")
    case False
    then have "dispatch_due ready now (t # ts) db = dispatch_due ready now ts db"
      by (auto simp: dispatchable_def)
    then show ?thesis using Cons False by simp
  next
    case True
    let ?db = "set_task (pt_id t) (triggered_row now) db"
    have t: "t \<in> set (pd_tasks db)" "schedule_fits now t" using Cons.prems True by auto
    have "set ts \<subseteq> set (pd_tasks ?db)"
    proof
      fix u
      assume "u \<in> set ts"
      then have "u \<in> set (pd_tasks db)" "pt_id u \<noteq> pt_id t" using Cons.prems by (auto simp: image_iff)
      then show "u \<in> set (pd_tasks ?db)"
        by (force simp: set_task_def alter_tasks_def set_sql_update)
    qed
    then have "dispatch_due ready now ts ?db = (trigger_rows now (pt_id ` set (filter (dispatchable ready) ts)) ?db,
        map message_of (filter (dispatchable ready) ts))"
      using Cons.prems by (intro Cons.IH) (auto intro: lookups_set triggered_identity)
    moreover have "pt_id t \<notin> pt_id ` set (filter (dispatchable ready) ts)" using Cons.prems(2) by auto
    moreover have "dispatch_due ready now (t # ts) db
        = (case dispatch_due ready now ts ?db of (db2, ms) \<Rightarrow> (db2, message_of t # ms))"
      using True trigger_one [OF Cons.prems(1) t] by (simp add: dispatchable_def message_of_def)
    ultimately show ?thesis using True by (simp add: trigger_rows_insert)
  qed
qed

text \<open>The next run of a schedule that is read and stays within the calendar.\<close>

lemma next_run:
  assumes "parseScheduleMs s = Some ms" "0 < ms" "now + ms \<le> max_date"
  shows "computeNextRun_pulse s now = Inr (Some (toISOString (now + ms)))"
  using assms by (simp add: computeNextRun_pulse_def)

text \<open>
  A tick of the timer hands every due task whose agent can be reached to it exactly once,
  in the order of the rows, and changes no other row, provided no schedule overflows the
  calendar. A one-shot task that was handed over is never due again by itself. A recurring
  task with a readable schedule is not due before the interval is over, at whatever time the
  next ticks run, and is due again then.
\<close>

theorem tick_hands_over_due:
  assumes "lookups_ok db" "\<forall>t \<in> set (getDueTasks now db). dispatchable ready t \<longrightarrow> schedule_fits now t"
    and "scheduler_tick ready now db = (db', ms)"
  shows "ms = map message_of (filter (dispatchable ready) (getDueTasks now db))
    \<and> pd_tasks db' = map (\<lambda>t. if task_due (toISOString now) t \<and> dispatchable ready t
                              then triggered_row now t else t) (pd_tasks db)
    \<and> (\<forall>t later. \<not> recurs t \<longrightarrow> \<not> task_due later (triggered_row now t))
    \<and> (\<forall>t s d later. recurs t \<and> pt_schedule t = Some s \<and> parseScheduleMs s = Some d \<and> 0 < d \<and> 0 \<le> later
         \<and> iso_year later < 10000 \<and> iso_year (now + d) < 10000 \<and> now + d \<le> max_date \<and> 0 \<le> now + d \<longrightarrow>
         (task_due (toISOString later) (triggered_row now t) \<longleftrightarrow> now + d \<le> later))"
proof (intro conjI allI impI)
  have d: "distinct (map pt_id (pd_tasks db))" using assms(1) by (simp add: lookups_ok_def)
  have due: "distinct (map pt_id (getDueTasks now db))" "set (getDueTasks now db) \<subseteq> set (pd_tasks db)"
    using d by (auto simp: getDueTasks_def distinct_map_filter)
  from dispatch_all [OF assms(1) due assms(2)] assms(3)
  have r: "ms = map message_of (filter (dispatchable ready) (getDueTasks now db))"
    "db' = trigger_rows now (pt_id ` set (filter (dispatchable ready) (getDueTasks now db))) db"
    by (simp_all add: scheduler_tick_def)
  show "ms = map message_of (filter (dispatchable ready) (getDueTasks now db))" by (rule r(1))
  have "pt_id t \<in> pt_id ` set (filter (dispatchable ready) (getDueTasks now db))
      \<longleftrightarrow> task_due (toISOString now) t \<and> dispatchable ready t" if "t \<in> set (pd_tasks db)" for t
    using d that by (auto simp: getDueTasks_def distinct_map inj_on_def)
  then show "pd_tasks db' = map (\<lambda>t. if task_due (toISOString now) t \<and> dispatchable ready t
      then triggered_row now t else t) (pd_tasks db)"
    by (simp add: r(2) trigger_rows_def alter_tasks_def sql_update_def)
  show "\<not> recurs t \<Longrightarrow> \<not> task_due later (triggered_row now t)" for t later
    by (simp add: task_due_def triggered_row_def)
  show "task_due (toISOString later) (triggered_row now t) \<longleftrightarrow> now + d \<le> later"
    if "recurs t \<and> pt_schedule t = Some s \<and> parseScheduleMs s = Some d \<and> 0 < d \<and> 0 \<le> later
         \<and> iso_year later < 10000 \<and> iso_year (now + d) < 10000 \<and> now + d \<le> max_date \<and> 0 \<le> now + d" for t s d later
    using that next_run [of s d now] toISOString_le [of "now + d" later]
    by (simp add: task_due_def triggered_row_def next_run_of_def closed_status_def)
qed

definition due_row :: pulse_task where
  "due_row = (default_row ''t1'' None ''GEN-1'' ''A'' 0)\<lparr>pt_assignee := Some ''kai'',
     pt_is_recurring := True, pt_schedule := Some ''1h'', pt_next_run_at := Some (toISOString 0)\<rparr>"

definition due_db :: pulse_db where
  "due_db = \<lparr>pd_projects = [], pd_tasks = [due_row], pd_comments = []\<rparr>"

lemma hourly: "parseScheduleMs ''1h'' = Some 3600000"
  by (simp add: parseScheduleMs_def re_match_def re_at_def schedule_re_def RChr_def cls_holds_def
      rm_group_def parse_nat_def schedule_unit_def js_lower_def lower_char_def upper_char_def is_upper_def
      is_lower_def code_def numeral_2_eq_2)

lemma tick_hands_over_due_witness:
  "\<exists>db' ms. scheduler_tick (\<lambda>u. True) 1000 due_db = (db', ms) \<and> ms = [(''kai'', due_prompt due_row)]
     \<and> pd_tasks db' = [triggered_row 1000 due_row]"
proof -
  obtain db' ms where e: "scheduler_tick (\<lambda>u. True) 1000 due_db = (db', ms)" by fastforce
  have l: "lookups_ok due_db"
    by (simp add: lookups_ok_def due_db_def due_row_def default_row_def js_upper_def upper_char_def
        is_lower_def code_def char_of_def bit_0)
  have due: "task_due (toISOString 1000) due_row"
    using toISOString_le [of 0 1000]
    by (simp add: task_due_def due_row_def default_row_def closed_status_def iso_year_def civil_year.simps
        year_days_def leap_def)
  then have rows: "getDueTasks 1000 due_db = [due_row]" by (simp add: getDueTasks_def due_db_def)
  have s: "pt_schedule due_row = Some ''1h''" "dispatchable (\<lambda>u. True) due_row"
    "message_of due_row = (''kai'', due_prompt due_row)"
    by (simp_all add: due_row_def dispatchable_def given_text_def message_of_def)
  have "schedule_fits 1000 due_row"
    using next_run [OF hourly, of 1000] s(1) by (simp add: schedule_fits_def max_date_def)
  then have "\<forall>t \<in> set (getDueTasks 1000 due_db). dispatchable (\<lambda>u. True) t \<longrightarrow> schedule_fits 1000 t"
    by (simp add: rows)
  from tick_hands_over_due [OF l this e] have "ms = [(''kai'', due_prompt due_row)]"
    "pd_tasks db' = [triggered_row 1000 due_row]"
    using rows s due by (simp_all add: due_db_def)
  with e show ?thesis by blast
qed

text \<open>
  Schedules the store accepts and the timer cannot run.  A recurring task whose schedule is not
  an interval, as a cron expression, is triggered once and has no next run.  A task whose
  schedule leaves the calendar makes its trigger throw, which ends the tick, so no due task
  after it is ever handed over.  A next run after the year 9999 has a text that sorts before
  every other, so the task is due again at once.
\<close>

lemma unread_schedule_stops:
  "recurs t \<Longrightarrow> parseScheduleMs (the (pt_schedule t)) = None \<Longrightarrow> \<not> task_due later (triggered_row now t)"
  by (simp add: task_due_def triggered_row_def next_run_of_def computeNextRun_pulse_def)

lemma overflowing_schedule_blocks:
  assumes "lookups_ok db" "t \<in> set (pd_tasks db)" "recurs t" "dispatchable ready t"
    and "computeNextRun_pulse (the (pt_schedule t)) now = Inl e"
  shows "dispatch_due ready now (t # ts) db = (db, [])"
  using getTask_id [OF assms(1,2)] assms(3-5)
  by (simp add: markTriggered_def recurs_def dispatchable_def Let_def)

lemma late_text_sorts_first:
  assumes "iso_year t < 10000" "10000 \<le> iso_year u"
  shows "toISOString u < toISOString t"
proof -
  have y: "iso_years (iso_year t) = pad 4 (iso_year t)" "iso_years (iso_year u) = ''+'' @ pad 6 (iso_year u)"
    using assms by (simp_all add: iso_years_def)
  have "CHR ''+'' < hd (pad 4 (iso_year t))"
  proof -
    have "hd (pad 4 (iso_year t)) = char_of (48 + iso_year t div 10 div 10 div 10 mod 10)" by (simp add: pad_eval)
    moreover have "code (char_of (48 + iso_year t div 10 div 10 div 10 mod 10)) \<ge> 48"
      using digit_code [of "iso_year t div 10 div 10 div 10 mod 10"] by simp
    ultimately show ?thesis by (simp add: less_char_def code_def)
  qed
  moreover obtain c r where "pad 4 (iso_year t) = c # r" by (cases "pad 4 (iso_year t)") (auto dest: arg_cong [where f = length])
  ultimately show ?thesis using y
    by (auto simp: toISOString_def iso_date_def iso_year_def Cons_less_Cons split: prod.splits)
qed

lemma late_run_due_again:
  assumes "recurs t" "pt_schedule t = Some s" "parseScheduleMs s = Some d" "0 < d" "now + d \<le> max_date"
    and "iso_year later < 10000" "10000 \<le> iso_year (now + d)"
  shows "task_due (toISOString later) (triggered_row now t)"
  using late_text_sorts_first [OF assms(6,7)] next_run [OF assms(3-5)] assms(1,2)
  by (simp add: task_due_def triggered_row_def next_run_of_def closed_status_def)

end
