(* ===== verification/RecoveryActions.thy ===== *)
theory RecoveryActions
  imports JsRegex JsSort Json SqlTable
begin

text \<open>
  The evaluation of recovery actions, \<open>src/src/daemon/recovery-actions.ts\<close>: which actions the
  daemon would take, what it refuses, and the redaction of everything it answers.  Finding an
  agent may throw, as an argument; reading a date is an argument too.
\<close>

datatype recovery_state = WouldApply | Applied | Skipped | Denied | RecoveryFailed

record recovery_frame =
  rf_action_id :: "string option"
  rf_correlation_id :: "string option"
  rf_action_type :: "string option"
  rf_mode :: "string option"
  rf_target_runtime_id :: "string option"
  rf_agent_username :: "string option"
  rf_params :: jsval
  rf_expires_at :: "string option"

record recovery_result =
  rr_action_id :: string
  rr_correlation_id :: string
  rr_action_type :: string
  rr_mode :: string
  rr_result :: recovery_state
  rr_reason :: string
  rr_before :: jsval
  rr_after :: jsval

record managed_agent =
  ma_id :: string
  ma_username :: string
  ma_email :: string
  ma_grantScopes :: "string list"
  ma_effectiveScopes :: "string list"

text \<open>\<open>findAgent\<close>: an exception with its message, or the agent if there is one.\<close>

type_synonym find_agent = "string \<Rightarrow> string + managed_agent option"

definition safe_actions :: "string list" where
  "safe_actions = [''pull_desired_state_now'', ''reconcile_identity_alias'', ''refresh_credential_grants'',
     ''refresh_team_roster_cache'', ''apply_effective_runtime_config'', ''restart_agent'']"

definition gated_actions :: "string list" where
  "gated_actions = [''cross_org_identity_change'', ''create_user'', ''delete_user'',
     ''grant_external_credential'', ''grant_billing_credential'', ''mutate_team_roster'',
     ''disable_agent'', ''delete_agent'', ''restart_fleet'', ''restart_daemon'', ''expand_privileges'']"

definition broad_targets :: "string list" where
  "broad_targets = ['''', ''*'', ''all'', ''fleet'', ''daemon'']"

subsection \<open>Patterns\<close>

definition external_scope_re :: re where
  "external_scope_re = RAlts [RLit ''external'', RLit ''billing'', RLit ''payment'', RLit ''stripe'',
     RLit ''razorpay'', RLit ''paypal'', RLit ''aws'', RLit ''gcp'', RLit ''azure'']"

definition privilege_field_re :: re where
  "privilege_field_re = RSeqs [RAlts [RBol, RLit ''_''],
     RAlts [RLit ''credential'', RLit ''privilege'', RLit ''sensitive'', RLit ''ssh'', RLit ''host_access'',
       RLit ''capabilit'']]"

definition secret_prefix_re :: re where
  "secret_prefix_re = RSeqs [RBol, RAlts [RLit ''ghp_'', RLit ''gho_'', RLit ''ghu_'', RLit ''ghs_'',
     RLit ''ghr_'', RLit ''github_pat_'', RLit ''sk-'', RLit ''xoxb-'', RLit ''xoxp-'', RLit ''glpat-'',
     RLit ''pat_'', RLit ''eyJ'']]"

text \<open>The classes \<open>[A-Za-z0-9_-]\<close>, \<open>[A-Za-z0-9_+/=.-]\<close> and \<open>[A-Za-z0-9_+/=-]\<close>.\<close>

definition jwt_class :: re where
  "jwt_class = RCls False [(65, 90), (97, 122), (48, 57), (95, 95), (45, 45)]"

definition secret_class :: re where
  "secret_class = RCls False [(65, 90), (97, 122), (48, 57), (95, 95), (43, 43), (47, 47), (61, 61),
     (46, 46), (45, 45)]"

definition entropy_class :: re where
  "entropy_class = RCls False [(65, 90), (97, 122), (48, 57), (95, 95), (43, 43), (47, 47), (61, 61), (45, 45)]"

definition embedded_secret_re :: re where
  "embedded_secret_re = RSeqs [RAlts [RSeqs [RLit ''gh'', RCls False [(112, 112), (111, 111), (117, 117),
       (115, 115), (114, 114)], RLit ''_''], RLit ''github_pat_'', RLit ''sk-'',
       RSeqs [RLit ''xox'', RCls False [(97, 97), (98, 98), (111, 111), (112, 112), (114, 114), (115, 115)],
         RLit ''-''], RLit ''glpat-'', RLit ''pat_''],
     RRep 12 None secret_class]"

definition jwt_re :: re where
  "jwt_re = RSeqs [RBol, RPlus jwt_class, RLit ''.'', RPlus jwt_class, RLit ''.'', RPlus jwt_class, REol]"

definition embedded_jwt_re :: re where
  "embedded_jwt_re = RSeqs [RWordB, RRep 8 None jwt_class, RLit ''.'', RRep 8 None jwt_class, RLit ''.'',
     RRep 8 None jwt_class, RWordB]"

definition hex_digest_re :: re where
  "hex_digest_re = RSeqs [RBol, RRep 32 (Some 64) (RCls False [(48, 57), (97, 102)]), REol]"

definition high_entropy_re :: re where
  "high_entropy_re = RSeqs [RBol, RRep 32 None entropy_class, REol]"

definition pem_re :: re where
  "pem_re = RSeqs [RLit ''-----BEGIN '', RPlus (RCls True [(45, 45)]), RLit ''-----'',
     RLazy (RCls True []), RLit ''-----END '', RPlus (RCls True [(45, 45)]), RLit ''-----'']"

definition redacted :: string where "redacted = ''[redacted-secret]''"

subsection \<open>Redaction\<close>

definition looksLikeSecret :: "string \<Rightarrow> bool" where
  "looksLikeSecret v =
     (let candidate = js_trim v; lowered = js_lower candidate in
      if candidate = [] then False
      else if js_includes lowered ''-----begin '' \<or> js_includes lowered ''-----end '' then True
      else if re_test False secret_prefix_re candidate then True
      else if re_test False jwt_re candidate then True
      else if re_test False hex_digest_re lowered then False
      else re_test False high_entropy_re candidate \<and> \<not> js_includes candidate ''://'')"

definition sanitizeString :: "string \<Rightarrow> string" where
  "sanitizeString v =
     (if looksLikeSecret v then redacted
      else re_replace_all False embedded_jwt_re redacted
        (re_replace_all False embedded_secret_re redacted (re_replace_all False pem_re redacted v)))"

fun sanitizeSummary :: "jsval \<Rightarrow> jsval" where
  "sanitizeSummary (JStr s) = JStr (sanitizeString s)"
| "sanitizeSummary (JArr vs) = JArr (map sanitizeSummary vs)"
| "sanitizeSummary (JObj ob) = JObj (map (\<lambda>(k, v). (k, sanitizeSummary v)) ob)"
| "sanitizeSummary v = v"

text \<open>\<open>String(v ?? '').trim()\<close>\<close>

definition text_of :: "string option \<Rightarrow> string" where
  "text_of x = js_trim (case x of None \<Rightarrow> [] | Some s \<Rightarrow> s)"

definition safeEcho :: "string option \<Rightarrow> string" where
  "safeEcho x = sanitizeString (text_of x)"

text \<open>\<open>a || b\<close> on texts.\<close>

definition first_text :: "string option \<Rightarrow> string option \<Rightarrow> string option" where
  "first_text a b = (case a of None \<Rightarrow> b | Some s \<Rightarrow> if s = [] then b else a)"

definition baseResult :: "recovery_frame \<Rightarrow> recovery_result" where
  "baseResult f = \<lparr>rr_action_id = safeEcho (rf_action_id f), rr_correlation_id = safeEcho (rf_correlation_id f),
     rr_action_type = safeEcho (rf_action_type f), rr_mode = safeEcho (first_text (rf_mode f) (Some ''dry_run'')),
     rr_result = RecoveryFailed, rr_reason = [], rr_before = JObj [], rr_after = JObj []\<rparr>"

definition finish_with :: "recovery_result \<Rightarrow> recovery_state \<Rightarrow> string \<Rightarrow> jsobj \<Rightarrow> jsobj \<Rightarrow> recovery_result" where
  "finish_with r st reason before after = r\<lparr>rr_result := st, rr_reason := sanitizeString reason,
     rr_before := sanitizeSummary (JObj before), rr_after := sanitizeSummary (JObj after)\<rparr>"

definition finish :: "recovery_result \<Rightarrow> recovery_state \<Rightarrow> string \<Rightarrow> recovery_result" where
  "finish r st reason = finish_with r st reason [] []"

subsection \<open>Targets, scopes and fields\<close>

fun resolve_keys :: "find_agent \<Rightarrow> string option list \<Rightarrow> string + managed_agent option" where
  "resolve_keys findAgent [] = Inr None"
| "resolve_keys findAgent (k # ks) =
     (let trimmed = text_of k in
      if trimmed = [] then resolve_keys findAgent ks
      else (case findAgent trimmed of
              Inl e \<Rightarrow> Inl e
            | Inr (Some a) \<Rightarrow> Inr (Some a)
            | Inr None \<Rightarrow> resolve_keys findAgent ks))"

definition resolveTargetAgent :: "recovery_frame \<Rightarrow> find_agent \<Rightarrow> string + managed_agent option" where
  "resolveTargetAgent f findAgent = resolve_keys findAgent [rf_target_runtime_id f, rf_agent_username f]"

definition stringSet :: "jsval \<Rightarrow> string list" where
  "stringSet v = (case v of
      JArr vs \<Rightarrow> js_unique (filter (\<lambda>s. s \<noteq> []) (map (\<lambda>x. js_trim (js_string x)) vs))
    | _ \<Rightarrow> [])"

definition agentGrantScopes :: "managed_agent \<Rightarrow> string list" where
  "agentGrantScopes a = js_unique (ma_grantScopes a @ ma_effectiveScopes a)"

fun privilegeExpandingPaths :: "jsval \<Rightarrow> string \<Rightarrow> string list" and
    element_paths :: "jsval list \<Rightarrow> nat \<Rightarrow> string \<Rightarrow> string list" and
    field_paths :: "(string \<times> jsval) list \<Rightarrow> string \<Rightarrow> string list" where
  "privilegeExpandingPaths (JArr vs) pre = element_paths vs 0 pre"
| "privilegeExpandingPaths (JObj ob) pre = field_paths ob pre"
| "privilegeExpandingPaths _ pre = []"
| "element_paths [] i pre = []"
| "element_paths (v # vs) i pre =
     privilegeExpandingPaths v (pre @ ''['' @ show_nat i @ '']'') @ element_paths vs (Suc i) pre"
| "field_paths [] pre = []"
| "field_paths ((k, v) # ob) pre =
     (let path = (if pre \<noteq> [] then pre @ ''.'' @ k else k) in
      (if re_test True privilege_field_re k then [path] else [])
        @ privilegeExpandingPaths v path @ field_paths ob pre)"

definition targetLabel :: "recovery_frame \<Rightarrow> string" where
  "targetLabel f = safeEcho (first_text (rf_target_runtime_id f) (first_text (rf_agent_username f) (Some [])))"

definition sorted_texts :: "string list \<Rightarrow> string list" where
  "sorted_texts xs = js_sort (ascending (\<lambda>s. s)) xs"

definition js_strings :: "string list \<Rightarrow> jsval" where
  "js_strings xs = JArr (map JStr xs)"

text \<open>\<open>String(params.key ?? '').trim()\<close>\<close>

definition param_text :: "jsobj \<Rightarrow> string \<Rightarrow> string" where
  "param_text ps k = (case js_get ps k of JUndef \<Rightarrow> [] | JNull \<Rightarrow> [] | v \<Rightarrow> js_trim (js_string v))"

subsection \<open>The evaluation\<close>

definition quoted :: "string \<Rightarrow> string" where
  "quoted s = CHR 0x27 # s @ [CHR 0x27]"

text \<open>The target of an action, or why there is none; an exception becomes a failed result.\<close>

definition with_target :: "recovery_frame \<Rightarrow> find_agent \<Rightarrow> recovery_result \<Rightarrow>
    (managed_agent \<Rightarrow> recovery_result) \<Rightarrow> recovery_result" where
  "with_target f findAgent r k = (case resolveTargetAgent f findAgent of
      Inl msg \<Rightarrow> finish r RecoveryFailed (''recovery handler error: '' @ msg)
    | Inr None \<Rightarrow> finish r Skipped (''target '' @ quoted (targetLabel f) @ '' is not managed by this daemon'')
    | Inr (Some a) \<Rightarrow> k a)"

definition eval_pull :: "recovery_result \<Rightarrow> managed_agent \<Rightarrow> recovery_result" where
  "eval_pull r a = finish_with r WouldApply
     ''dry-run: would pull current Hive desired state and report the observed generation''
     [(''agent'', JStr (ma_username a))] []"

definition eval_alias :: "jsobj \<Rightarrow> recovery_result \<Rightarrow> managed_agent \<Rightarrow> recovery_result" where
  "eval_alias ps r a =
     (let canonicalEmail = js_lower (param_text ps ''canonical_email'');
          platformUserId = param_text ps ''canonical_platform_user_id'' in
      if canonicalEmail = [] \<or> platformUserId = [] \<or> js_get ps ''same_platform_user'' \<noteq> JBool True
      then finish r Denied ''alias is not proven to resolve to the same platform user''
      else finish_with r WouldApply
        ''dry-run: alias is proven to be the same platform user; would update runtime identity metadata''
        [(''agent'', JStr (ma_username a)), (''runtime_email'', JStr (ma_email a))]
        [(''canonical_email'', JStr canonicalEmail), (''platform_user_id'', JStr platformUserId)])"

definition requested_scopes :: "jsobj \<Rightarrow> managed_agent \<Rightarrow> string list" where
  "requested_scopes ps a = (if js_get ps ''grant_scopes'' = JUndef then agentGrantScopes a
     else stringSet (js_get ps ''grant_scopes''))"

fun is_array :: "jsval \<Rightarrow> bool" where
  "is_array (JArr vs) = True"
| "is_array _ = False"

definition eval_grants :: "jsobj \<Rightarrow> recovery_result \<Rightarrow> managed_agent \<Rightarrow> recovery_result" where
  "eval_grants ps r a =
     (if js_get ps ''grant_scopes'' \<noteq> JUndef \<and> \<not> is_array (js_get ps ''grant_scopes'')
      then finish r RecoveryFailed ''params.grant_scopes must be an array when provided''
      else let current = agentGrantScopes a; requested = requested_scopes ps a;
               external = filter (re_test True external_scope_re) requested;
               expansion = filter (\<lambda>s. s \<notin> set current) requested in
        if external \<noteq> []
        then finish r Denied (''external/billing credential scopes are gated in v1: ''
               @ js_join '', '' (sorted_texts external))
        else if expansion \<noteq> []
        then finish r Denied (''credential refresh cannot expand grant scope: ''
               @ js_join '', '' (sorted_texts expansion))
        else if requested = []
        then finish r Skipped ''no existing internal credential grant scopes to refresh''
        else finish_with r WouldApply
          ''dry-run: would refresh existing internal credential grants through the scoped broker''
          [(''agent'', JStr (ma_username a)), (''grant_scopes'', js_strings (sorted_texts requested))] [])"

text \<open>\<open>v ?? null\<close>\<close>

definition or_null :: "jsval \<Rightarrow> jsval" where
  "or_null v = (if v = JUndef then JNull else v)"

definition eval_config :: "jsobj \<Rightarrow> recovery_result \<Rightarrow> managed_agent \<Rightarrow> recovery_result" where
  "eval_config ps r a = (case js_get ps ''desired'' of
      JObj desired \<Rightarrow>
        (let paths = privilegeExpandingPaths (JObj desired) [] in
         if paths \<noteq> []
         then finish r Denied (''desired config contains privilege-expanding fields: ''
                @ js_join '', '' (sorted_texts paths))
         else finish_with r WouldApply
           ''dry-run: would apply the Hive desired generation through the daemon-owned config gate''
           [(''agent'', JStr (ma_username a)), (''config_fields'', js_strings (sorted_texts (map fst desired)))]
           [(''desired_generation'', or_null (js_get ps ''desired_generation''))])
    | _ \<Rightarrow> finish r RecoveryFailed ''params.desired must be the desired runtime-config object'')"

definition eval_restart :: "recovery_result \<Rightarrow> managed_agent \<Rightarrow> recovery_result" where
  "eval_restart r a = finish_with r WouldApply ''dry-run: would restart this single named agent runtime''
     [(''agent'', JStr (ma_username a)), (''runtime_id'', JStr (ma_id a))] []"

text \<open>\<open>frame.target_runtime_id ?? frame.agent_username ?? ''\<close>, trimmed.\<close>

definition raw_target :: "recovery_frame \<Rightarrow> string" where
  "raw_target f = text_of (case rf_target_runtime_id f of None \<Rightarrow> rf_agent_username f | Some s \<Rightarrow> Some s)"

definition eval_action :: "string \<Rightarrow> recovery_frame \<Rightarrow> jsobj \<Rightarrow> find_agent \<Rightarrow> recovery_result \<Rightarrow> recovery_result" where
  "eval_action actionType f ps findAgent r =
     (if actionType = ''refresh_team_roster_cache''
      then finish r WouldApply
        ''dry-run: would re-pull the daemon team-roster cache; no roster mutation path is exposed''
      else if actionType = ''pull_desired_state_now'' then with_target f findAgent r (eval_pull r)
      else if actionType = ''reconcile_identity_alias'' then with_target f findAgent r (eval_alias ps r)
      else if actionType = ''refresh_credential_grants'' then with_target f findAgent r (eval_grants ps r)
      else if actionType = ''apply_effective_runtime_config'' then with_target f findAgent r (eval_config ps r)
      else if actionType = ''restart_agent''
      then (if js_lower (raw_target f) \<in> set broad_targets
            then finish r Denied
              ''broad daemon/fleet restart is gated; restart_agent requires one concrete runtime id''
            else with_target f findAgent r (eval_restart r))
      else finish r Denied (''unhandled action type '' @ quoted (safeEcho (Some actionType)) @ '' - default-deny''))"

text \<open>What the expiry of a frame decides before the action is looked at.\<close>

definition expiry_result :: "(string \<Rightarrow> time option) \<Rightarrow> time \<Rightarrow> recovery_frame \<Rightarrow> recovery_result \<Rightarrow> recovery_result option" where
  "expiry_result dateParse now f r = (case first_text (rf_expires_at f) None of
      None \<Rightarrow> None
    | Some e \<Rightarrow> (case dateParse e of
        None \<Rightarrow> Some (finish r RecoveryFailed ''expires_at must be a valid ISO timestamp'')
      | Some t \<Rightarrow>
          if t \<le> now
          then Some (finish r Skipped (''action expired at '' @ safeEcho (Some e) @ '' before execution''))
          else None))"

definition executeRecoveryAction :: "(string \<Rightarrow> time option) \<Rightarrow> time \<Rightarrow> find_agent \<Rightarrow> recovery_frame \<Rightarrow> recovery_result" where
  "executeRecoveryAction dateParse now findAgent f =
     (let r0 = baseResult f in
      if text_of (rf_action_id f) = [] \<or> text_of (rf_correlation_id f) = []
      then finish r0 RecoveryFailed ''action_id and correlation_id are required''
      else
        let actionType = text_of (rf_action_type f);
            m = js_trim (case rf_mode f of None \<Rightarrow> ''dry_run'' | Some s \<Rightarrow> s);
            mode = (if m = [] then ''dry_run'' else m);
            r = r0\<lparr>rr_mode := safeEcho (Some mode)\<rparr> in
        if actionType \<in> set gated_actions
        then finish r Denied (''action '' @ quoted actionType @ '' is unsafe/privilege-expanding and gated in v1'')
        else if actionType \<notin> set safe_actions
        then finish r Denied (''unknown action type '' @ quoted (safeEcho (Some actionType)) @ '' - default-deny'')
        else if mode \<noteq> ''dry_run''
        then finish r Denied ''apply mode is separately approval-gated; daemon recovery v1 is dry-run only''
        else (case expiry_result dateParse now f r of
          Some out \<Rightarrow> out
        | None \<Rightarrow> (case rf_params f of
            JUndef \<Rightarrow> eval_action actionType f [] findAgent r
          | JObj ps \<Rightarrow> eval_action actionType f ps findAgent r
          | _ \<Rightarrow> finish r RecoveryFailed ''params must be an object'')))"

subsection \<open>Nothing is applied\<close>

text \<open>The property names of a value, at every depth.\<close>

fun keys_within :: "jsval \<Rightarrow> string set" and
    element_keys :: "jsval list \<Rightarrow> string set" and
    field_keys :: "(string \<times> jsval) list \<Rightarrow> string set" where
  "keys_within (JArr vs) = element_keys vs"
| "keys_within (JObj ob) = field_keys ob"
| "keys_within _ = {}"
| "element_keys [] = {}"
| "element_keys (v # vs) = keys_within v \<union> element_keys vs"
| "field_keys [] = {}"
| "field_keys ((k, v) # ob) = insert k (keys_within v \<union> field_keys ob)"

lemma no_privileged_keys:
  "privilegeExpandingPaths v pre = [] \<longleftrightarrow> (\<forall>k \<in> keys_within v. \<not> re_test True privilege_field_re k)"
  "element_paths vs i pre = [] \<longleftrightarrow> (\<forall>k \<in> element_keys vs. \<not> re_test True privilege_field_re k)"
  "field_paths ob pre = [] \<longleftrightarrow> (\<forall>k \<in> field_keys ob. \<not> re_test True privilege_field_re k)"
  by (induction v pre and vs i pre and ob pre rule: privilegeExpandingPaths_element_paths_field_paths.induct)
    (auto simp: Let_def)

lemma finish_result [simp]: "rr_result (finish r st m) = st" "rr_result (finish_with r st m b a) = st"
  by (simp_all add: finish_def finish_with_def)

text \<open>What an agent's part of an action guarantees when it would be applied.\<close>

definition grants_safe :: "jsobj \<Rightarrow> managed_agent \<Rightarrow> bool" where
  "grants_safe ps a \<longleftrightarrow> requested_scopes ps a \<noteq> [] \<and> set (requested_scopes ps a) \<subseteq> set (agentGrantScopes a)
     \<and> (\<forall>s \<in> set (requested_scopes ps a). \<not> re_test True external_scope_re s)"

definition config_safe :: "jsobj \<Rightarrow> bool" where
  "config_safe ps \<longleftrightarrow> (\<exists>desired. js_get ps ''desired'' = JObj desired \<and>
     (\<forall>k \<in> keys_within (JObj desired). \<not> re_test True privilege_field_re k))"

definition alias_proven :: "jsobj \<Rightarrow> bool" where
  "alias_proven ps \<longleftrightarrow> js_get ps ''same_platform_user'' = JBool True
     \<and> param_text ps ''canonical_email'' \<noteq> [] \<and> param_text ps ''canonical_platform_user_id'' \<noteq> []"

lemma eval_results:
  "rr_result (eval_alias ps r a) \<in> {Denied, WouldApply} \<and> (rr_result (eval_alias ps r a) = WouldApply \<longrightarrow> alias_proven ps)"
  "rr_result (eval_grants ps r a) \<noteq> Applied \<and> (rr_result (eval_grants ps r a) = WouldApply \<longrightarrow> grants_safe ps a)"
  "rr_result (eval_config ps r a) \<noteq> Applied \<and> (rr_result (eval_config ps r a) = WouldApply \<longrightarrow> config_safe ps)"
  "rr_result (eval_pull r a) = WouldApply" "rr_result (eval_restart r a) = WouldApply"
proof -
  show "rr_result (eval_alias ps r a) \<in> {Denied, WouldApply} \<and> (rr_result (eval_alias ps r a) = WouldApply \<longrightarrow> alias_proven ps)"
    by (auto simp: eval_alias_def alias_proven_def Let_def js_lower_def)
  show "rr_result (eval_grants ps r a) \<noteq> Applied \<and> (rr_result (eval_grants ps r a) = WouldApply \<longrightarrow> grants_safe ps a)"
    by (auto simp: eval_grants_def grants_safe_def Let_def filter_empty_conv)
  show "rr_result (eval_config ps r a) \<noteq> Applied \<and> (rr_result (eval_config ps r a) = WouldApply \<longrightarrow> config_safe ps)"
    using no_privileged_keys(3) by (auto simp: eval_config_def config_safe_def Let_def split: jsval.splits)
qed (simp_all add: eval_pull_def eval_restart_def)

lemma with_target_result:
  "rr_result (with_target f findAgent r k) = (case resolveTargetAgent f findAgent of
      Inl m \<Rightarrow> RecoveryFailed | Inr None \<Rightarrow> Skipped | Inr (Some a) \<Rightarrow> rr_result (k a))"
  by (auto simp: with_target_def split: sum.splits option.splits)

text \<open>The parameters of a frame that has passed their check.\<close>

definition frame_params :: "recovery_frame \<Rightarrow> jsobj" where
  "frame_params f = (case rf_params f of JObj ps \<Rightarrow> ps | _ \<Rightarrow> [])"

definition target_allowed :: "string \<Rightarrow> recovery_frame \<Rightarrow> managed_agent \<Rightarrow> bool" where
  "target_allowed actionType f a \<longleftrightarrow>
     (actionType = ''reconcile_identity_alias'' \<longrightarrow> alias_proven (frame_params f)) \<and>
     (actionType = ''refresh_credential_grants'' \<longrightarrow> grants_safe (frame_params f) a) \<and>
     (actionType = ''apply_effective_runtime_config'' \<longrightarrow> config_safe (frame_params f)) \<and>
     (actionType = ''restart_agent'' \<longrightarrow> js_lower (raw_target f) \<notin> set broad_targets)"

lemma eval_action_each:
  "eval_action ''refresh_team_roster_cache'' f ps findAgent r = finish r WouldApply
     ''dry-run: would re-pull the daemon team-roster cache; no roster mutation path is exposed''"
  "eval_action ''pull_desired_state_now'' f ps findAgent r = with_target f findAgent r (eval_pull r)"
  "eval_action ''reconcile_identity_alias'' f ps findAgent r = with_target f findAgent r (eval_alias ps r)"
  "eval_action ''refresh_credential_grants'' f ps findAgent r = with_target f findAgent r (eval_grants ps r)"
  "eval_action ''apply_effective_runtime_config'' f ps findAgent r = with_target f findAgent r (eval_config ps r)"
  "eval_action ''restart_agent'' f ps findAgent r = (if js_lower (raw_target f) \<in> set broad_targets
     then finish r Denied
       ''broad daemon/fleet restart is gated; restart_agent requires one concrete runtime id''
     else with_target f findAgent r (eval_restart r))"
  by (simp_all add: eval_action_def)

lemma target_allowed_each:
  "target_allowed ''pull_desired_state_now'' f a"
  "target_allowed ''reconcile_identity_alias'' f a \<longleftrightarrow> alias_proven (frame_params f)"
  "target_allowed ''refresh_credential_grants'' f a \<longleftrightarrow> grants_safe (frame_params f) a"
  "target_allowed ''apply_effective_runtime_config'' f a \<longleftrightarrow> config_safe (frame_params f)"
  "target_allowed ''restart_agent'' f a \<longleftrightarrow> js_lower (raw_target f) \<notin> set broad_targets"
  by (simp_all add: target_allowed_def)

lemma target_case:
  assumes "\<And>a. rr_result (k a) \<noteq> Applied" "\<And>a. rr_result (k a) = WouldApply \<Longrightarrow> P a"
  shows "rr_result (with_target f findAgent r k) \<noteq> Applied \<and>
    (rr_result (with_target f findAgent r k) = WouldApply \<longrightarrow>
       (\<exists>a. resolveTargetAgent f findAgent = Inr (Some a) \<and> P a))"
  using assms by (auto simp: with_target_result split: sum.splits option.splits)

lemma alias_not_applied: "rr_result (eval_alias ps r a) \<noteq> Applied"
  using eval_results(1) [of ps r a] by auto

text \<open>What the evaluation of one action may answer.\<close>

definition action_ok :: "recovery_frame \<Rightarrow> find_agent \<Rightarrow> recovery_result \<Rightarrow> string \<Rightarrow> bool" where
  "action_ok f findAgent r t \<longleftrightarrow> rr_result (eval_action t f (frame_params f) findAgent r) \<noteq> Applied
     \<and> (rr_result (eval_action t f (frame_params f) findAgent r) = WouldApply \<longrightarrow>
          t = ''refresh_team_roster_cache'' \<or>
          (\<exists>a. resolveTargetAgent f findAgent = Inr (Some a) \<and> target_allowed t f a))"

lemma action_ok_each:
  "action_ok f findAgent r ''pull_desired_state_now''"
  "action_ok f findAgent r ''reconcile_identity_alias''"
  "action_ok f findAgent r ''refresh_credential_grants''"
  "action_ok f findAgent r ''refresh_team_roster_cache''"
  "action_ok f findAgent r ''apply_effective_runtime_config''"
  "action_ok f findAgent r ''restart_agent''"
proof -
  show "action_ok f findAgent r ''pull_desired_state_now''"
    using target_case [of "eval_pull r" "\<lambda>a. True" f findAgent r] eval_results(4)
    by (simp add: action_ok_def eval_action_each target_allowed_each)
  show "action_ok f findAgent r ''reconcile_identity_alias''"
    using target_case [of "eval_alias (frame_params f) r" "\<lambda>a. alias_proven (frame_params f)" f findAgent r]
      eval_results(1) alias_not_applied by (simp add: action_ok_def eval_action_each target_allowed_each)
  show "action_ok f findAgent r ''refresh_credential_grants''"
    using target_case [of "eval_grants (frame_params f) r" "grants_safe (frame_params f)" f findAgent r]
      eval_results(2) by (simp add: action_ok_def eval_action_each target_allowed_each)
  show "action_ok f findAgent r ''apply_effective_runtime_config''"
    using target_case [of "eval_config (frame_params f) r" "\<lambda>a. config_safe (frame_params f)" f findAgent r]
      eval_results(3) by (simp add: action_ok_def eval_action_each target_allowed_each)
  show "action_ok f findAgent r ''restart_agent''"
    using target_case [of "eval_restart r" "\<lambda>a. True" f findAgent r] eval_results(5)
    by (simp add: action_ok_def eval_action_each target_allowed_each)
qed (simp add: action_ok_def eval_action_each)

lemma eval_action_safe: "t \<in> set safe_actions \<Longrightarrow> action_ok f findAgent r t"
  unfolding safe_actions_def list.set by (elim insertE) (simp_all only: action_ok_each empty_iff)

lemma finish_ids [simp]:
  "rr_action_id (finish r st m) = rr_action_id r" "rr_correlation_id (finish r st m) = rr_correlation_id r"
  "rr_action_id (finish_with r st m b a) = rr_action_id r"
  "rr_correlation_id (finish_with r st m b a) = rr_correlation_id r"
  by (simp_all add: finish_def finish_with_def)

definition same_ids :: "recovery_result \<Rightarrow> recovery_result \<Rightarrow> bool" where
  "same_ids x r \<longleftrightarrow> rr_action_id x = rr_action_id r \<and> rr_correlation_id x = rr_correlation_id r"

lemma same_ids_finish [simp]: "same_ids (finish r st m) r" "same_ids (finish_with r st m b a) r"
  by (simp_all add: same_ids_def)

lemma same_ids_each:
  "same_ids (eval_pull r a) r" "same_ids (eval_alias ps r a) r" "same_ids (eval_grants ps r a) r"
  "same_ids (eval_config ps r a) r" "same_ids (eval_restart r a) r"
  by (simp_all add: eval_pull_def eval_alias_def eval_grants_def eval_config_def eval_restart_def Let_def
      split: jsval.splits)

lemma same_ids_target: "(\<And>a. same_ids (k a) r) \<Longrightarrow> same_ids (with_target f findAgent r k) r"
  by (simp add: with_target_def split: sum.splits option.splits)

lemma eval_ids: "same_ids (eval_action actionType f ps findAgent r) r"
  unfolding eval_action_def by (simp add: same_ids_target same_ids_each)

lemma expiry_passed:
  "expiry_result dateParse now f r = None \<Longrightarrow> rf_expires_at f = Some e \<Longrightarrow> e \<noteq> [] \<Longrightarrow>
     \<exists>t. dateParse e = Some t \<and> now < t"
  by (auto simp: expiry_result_def first_text_def split: option.splits if_splits)

lemma expiry_stops:
  "expiry_result dateParse now f r = Some out \<Longrightarrow> rr_result out \<in> {RecoveryFailed, Skipped}
     \<and> rr_action_id out = rr_action_id r \<and> rr_correlation_id out = rr_correlation_id r"
  by (auto simp: expiry_result_def split: option.splits if_splits)

text \<open>
  No recovery action is ever applied: whatever frame arrives, whatever agents are found
  and however the lookup fails, the answer is not "applied". It is "would apply" only for an
  action on the list of safe ones, in dry-run mode, with both identifiers and not expired, and
  - unless it only refreshes the roster - for one agent that was found, where a refresh of
  grants asks for existing scopes none of which is external, a configuration has no privileged
  field at any depth, a restart names one runtime and an alias is proven. The answer carries
  the identifiers of the frame, redacted.
\<close>

theorem recovery_never_applies:
  fixes f findAgent now dateParse
  defines "out \<equiv> executeRecoveryAction dateParse now findAgent f"
    and "actionType \<equiv> text_of (rf_action_type f)"
  shows "rr_result out \<noteq> Applied
    \<and> rr_action_id out = safeEcho (rf_action_id f) \<and> rr_correlation_id out = safeEcho (rf_correlation_id f)
    \<and> (rr_result out = WouldApply \<longrightarrow>
         actionType \<in> set safe_actions \<and> actionType \<notin> set gated_actions
         \<and> text_of (rf_action_id f) \<noteq> [] \<and> text_of (rf_correlation_id f) \<noteq> []
         \<and> (\<forall>m. rf_mode f = Some m \<longrightarrow> js_trim m \<in> {'''', ''dry_run''})
         \<and> (\<forall>e. rf_expires_at f = Some e \<and> e \<noteq> [] \<longrightarrow> (\<exists>t. dateParse e = Some t \<and> now < t))
         \<and> (actionType = ''refresh_team_roster_cache'' \<or>
            (\<exists>a. resolveTargetAgent f findAgent = Inr (Some a) \<and> target_allowed actionType f a)))"
proof -
  define mode where "mode = js_trim (case rf_mode f of None \<Rightarrow> ''dry_run'' | Some s \<Rightarrow> s)"
  define r where "r = (baseResult f)\<lparr>rr_mode := safeEcho (Some (if mode = [] then ''dry_run'' else mode))\<rparr>"
  have ids: "rr_action_id r = safeEcho (rf_action_id f)" "rr_correlation_id r = safeEcho (rf_correlation_id f)"
    "rr_action_id (baseResult f) = safeEcho (rf_action_id f)"
    "rr_correlation_id (baseResult f) = safeEcho (rf_correlation_id f)"
    by (simp_all add: r_def baseResult_def)
  define stopped :: "recovery_result \<Rightarrow> bool" where "stopped x \<longleftrightarrow> rr_result x \<in> {RecoveryFailed, Skipped, Denied}
     \<and> rr_action_id x = safeEcho (rf_action_id f) \<and> rr_correlation_id x = safeEcho (rf_correlation_id f)" for x
  have s: "stopped (finish (baseResult f) RecoveryFailed m)" "stopped (finish r RecoveryFailed m)"
    "stopped (finish r Denied m)" for m by (simp_all add: stopped_def ids)
  have e: "expiry_result dateParse now f r = Some x \<Longrightarrow> stopped x" for x
    using expiry_stops [of dateParse now f r x] by (auto simp: stopped_def ids)
  have out: "out = (if text_of (rf_action_id f) = [] \<or> text_of (rf_correlation_id f) = []
      then finish (baseResult f) RecoveryFailed ''action_id and correlation_id are required''
      else if actionType \<in> set gated_actions
      then finish r Denied (''action '' @ quoted actionType @ '' is unsafe/privilege-expanding and gated in v1'')
      else if actionType \<notin> set safe_actions
      then finish r Denied (''unknown action type '' @ quoted (safeEcho (Some actionType)) @ '' - default-deny'')
      else if (if mode = [] then ''dry_run'' else mode) \<noteq> ''dry_run''
      then finish r Denied ''apply mode is separately approval-gated; daemon recovery v1 is dry-run only''
      else (case expiry_result dateParse now f r of Some x \<Rightarrow> x
        | None \<Rightarrow> (case rf_params f of
            JUndef \<Rightarrow> eval_action actionType f [] findAgent r
          | JObj ps \<Rightarrow> eval_action actionType f ps findAgent r
          | _ \<Rightarrow> finish r RecoveryFailed ''params must be an object'')))"
    unfolding out_def executeRecoveryAction_def Let_def actionType_def r_def mode_def by (rule refl)
  show ?thesis
  proof (cases "text_of (rf_action_id f) = [] \<or> text_of (rf_correlation_id f) = []
      \<or> actionType \<in> set gated_actions \<or> actionType \<notin> set safe_actions \<or> mode \<notin> {[], ''dry_run''}
      \<or> expiry_result dateParse now f r \<noteq> None \<or> \<not> (rf_params f = JUndef \<or> (\<exists>ps. rf_params f = JObj ps))")
    case True
    then have "stopped out" unfolding out using s e by (auto split: option.splits jsval.splits)
    then show ?thesis by (auto simp: stopped_def)
  next
    case False
    then have "out = eval_action actionType f (frame_params f) findAgent r"
      unfolding out by (auto simp: frame_params_def)
    moreover have "\<forall>m. rf_mode f = Some m \<longrightarrow> js_trim m \<in> {'''', ''dry_run''}"
      using False by (auto simp: mode_def)
    moreover have "\<forall>e. rf_expires_at f = Some e \<and> e \<noteq> [] \<longrightarrow> (\<exists>t. dateParse e = Some t \<and> now < t)"
      using False expiry_passed by blast
    ultimately show ?thesis
      using eval_action_safe [of actionType f findAgent r] eval_ids [of actionType f "frame_params f" findAgent r]
        ids False by (simp add: action_ok_def same_ids_def)
  qed
qed

definition sample_agent :: managed_agent where
  "sample_agent = \<lparr>ma_id = ''r1'', ma_username = ''kai'', ma_email = ''kai@x'', ma_grantScopes = [],
     ma_effectiveScopes = []\<rparr>"

definition restart_frame :: recovery_frame where
  "restart_frame = \<lparr>rf_action_id = Some ''a1'', rf_correlation_id = Some ''c1'',
     rf_action_type = Some ''restart_agent'', rf_mode = None, rf_target_runtime_id = Some ''r1'',
     rf_agent_username = None, rf_params = JUndef, rf_expires_at = None\<rparr>"

definition find_sample :: find_agent where
  "find_sample k = (if k = ''r1'' then Inr (Some sample_agent) else Inr None)"

lemma recovery_never_applies_witness:
  "rr_result (executeRecoveryAction (\<lambda>s. None) 0 find_sample restart_frame) = WouldApply
     \<and> target_allowed ''restart_agent'' restart_frame sample_agent"
proof -
  have texts: "text_of (rf_action_id restart_frame) = ''a1''" "text_of (rf_correlation_id restart_frame) = ''c1''"
    "text_of (rf_action_type restart_frame) = ''restart_agent''" "text_of (Some ''r1'') = ''r1''"
    "js_trim ''dry_run'' = ''dry_run''"
    by (simp_all add: restart_frame_def text_of_def js_trim_def js_trim_start_def js_trim_end_def js_ws_def code_def)
  have r: "resolveTargetAgent restart_frame find_sample = Inr (Some sample_agent)"
    using texts(4) by (simp add: resolveTargetAgent_def restart_frame_def find_sample_def)
  have broad: "js_lower (raw_target restart_frame) \<notin> set broad_targets"
    using texts(4) by (simp add: raw_target_def restart_frame_def broad_targets_def js_lower_def lower_char_def
        is_upper_def code_def)
  have w: "rr_result (executeRecoveryAction (\<lambda>s. None) 0 find_sample restart_frame) = WouldApply"
    using texts broad r
    by (simp add: executeRecoveryAction_def Let_def gated_actions_def safe_actions_def expiry_result_def
        first_text_def eval_action_each with_target_result eval_results restart_frame_def [THEN arg_cong, of rf_mode]
        restart_frame_def [THEN arg_cong, of rf_expires_at] restart_frame_def [THEN arg_cong, of rf_params])
  from recovery_never_applies [where f = restart_frame and findAgent = find_sample and now = 0
      and dateParse = "\<lambda>s. None"] w r texts(3)
  show ?thesis by simp
qed

end
