(* ===== verification/AgentCredential.thy ===== *)
theory AgentCredential
  imports JsRegex Json IsoTime "HOL-Library.AList"
begin

text \<open>
  Agent credentials, \<open>src/src/daemon/agent-credential.ts\<close> with the types of
  \<open>src/src/daemon/types.ts\<close>: the closed set of scopes, the read-side validation of persisted
  credentials, the derivation of the fleet SSH grant, the authorities an agent holds, and the
  migration that seeds those authorities from a fixed set of trusted identities.

  An agent record has the fields that the credential code reads; a list that is absent reads
  as the empty one.  The scope of a persisted credential is an arbitrary JSON value, as the
  code checks it on every read.  \<open>Date.parse\<close>, \<open>JSON.parse\<close> and the SHA-1 digest in
  hexadecimal are the arguments \<open>parse_date\<close>, \<open>json_parse\<close> and \<open>sha1_hex\<close>, \<open>None\<close> standing
  for \<open>NaN\<close> and for an exception.
\<close>

subsection \<open>Data\<close>

record agent_credential =
  ac_id :: "string option"
  ac_grantId :: "string option"
  ac_grantorId :: "string option"
  ac_scope :: jsval
  ac_service :: jsval
  ac_customService :: "string option"
  ac_label :: string
  ac_data :: "(string \<times> string) list"
  ac_expiresAt :: "string option option"
  ac_injectAsEnv :: bool
  ac_envMapping :: "(string \<times> string) list option"
  ac_isActive :: bool

text \<open>In \<open>ac_expiresAt\<close>, \<open>None\<close> is \<open>undefined\<close> and \<open>Some None\<close> is \<open>null\<close>.\<close>

datatype request_status = Pending | Fulfilled | Denied | Expired

record credential_request =
  cr_id :: string
  cr_requesterId :: string
  cr_requesterUsername :: string
  cr_requesterRole :: "string option"
  cr_scope :: string
  cr_reason :: string
  cr_requestedAt :: string
  cr_expiry :: "string option"
  cr_status :: request_status

record ssh_keys =
  sk_enabled :: bool
  sk_sshDir :: "string option"
  sk_keyFiles :: "string list option"
  sk_remoteUser :: "string option"

record agent_info =
  ag_id :: string
  ag_username :: string
  ag_email :: string
  ag_role :: "string option"
  ag_runtime :: "string option"
  ag_skills :: "string list"
  ag_sshKeys :: "ssh_keys option"
  ag_credentials :: "agent_credential list"
  ag_requests :: "credential_request list"
  ag_grantScopes :: "string list"
  ag_customServices :: "string list"
  ag_payloadScopes :: "string list"
  ag_auditRoles :: "string list"
  ag_peerUid :: "int option"
  ag_seedVersion :: "string option"

datatype credential_error =
    ReservedScope
  | UnknownScope jsval
  | UnknownAuditRole string
  | BadCustomService jsval
  | SeedInvariant string
  | KeyFilesNotArray
  | KeyFilesBadEntry
  | KeyFilesNotText
  | KeyFilesNotJson

subsection \<open>Scopes and roles\<close>

definition agent_credential_scopes :: "string list" where
  "agent_credential_scopes = [''fleet-ssh'', ''kubeconfig'', ''vault-token'', ''shizuha-id'', ''github'',
     ''gitlab'', ''aws'', ''npm'', ''docker'', ''custom'']"

definition reserved_scope :: string where
  "reserved_scope = ''reserved''"

definition agent_credential_audit_roles :: "string list" where
  "agent_credential_audit_roles = [''metadata-audit'', ''security-lead'']"

definition isAgentCredentialScope :: "jsval \<Rightarrow> bool" where
  "isAgentCredentialScope v = (case v of JStr s \<Rightarrow> s \<in> set agent_credential_scopes | _ \<Rightarrow> False)"

definition assertAgentCredentialScope :: "jsval \<Rightarrow> credential_error + string" where
  "assertAgentCredentialScope v =
     (if v = JStr reserved_scope then Inl ReservedScope
      else case v of
        JStr s \<Rightarrow> if s \<in> set agent_credential_scopes then Inr s else Inl (UnknownScope v)
      | _ \<Rightarrow> Inl (UnknownScope v))"

definition assertAgentCredentialAuditRole :: "string \<Rightarrow> credential_error + string" where
  "assertAgentCredentialAuditRole r =
     (if r \<in> set agent_credential_audit_roles then Inr r else Inl (UnknownAuditRole r))"

lemma reserved_not_scope [simp]: "reserved_scope \<notin> set agent_credential_scopes"
  by code_simp

lemma assert_scope_Inr [simp]:
  "assertAgentCredentialScope v = Inr s \<longleftrightarrow> v = JStr s \<and> s \<in> set agent_credential_scopes"
  by (auto simp: assertAgentCredentialScope_def split: jsval.splits if_splits)

lemma assert_role_Inr [simp]:
  "assertAgentCredentialAuditRole r = Inr r' \<longleftrightarrow> r' = r \<and> r \<in> set agent_credential_audit_roles"
  by (auto simp: assertAgentCredentialAuditRole_def)

text \<open>\<open>a || b\<close> on texts, and \<open>a ?? b\<close> on the raw values of a credential.\<close>

definition or_text :: "string \<Rightarrow> string \<Rightarrow> string" where
  "or_text a b = (if a = [] then b else a)"

definition js_nullish :: "jsval \<Rightarrow> jsval \<Rightarrow> jsval" where
  "js_nullish a b = (if a = JUndef \<or> a = JNull then b else a)"

definition deriveGrantorId :: "agent_info \<Rightarrow> string" where
  "deriveGrantorId agent = or_text (ag_email agent) (or_text (ag_username agent) (ag_id agent))"

text \<open>\<open>stableGrantId\<close>: the digest in the form of a version 5 UUID.\<close>

definition hex_value :: "char \<Rightarrow> nat" where
  "hex_value c = (if is_digit c then code c - 48 else code c - 87)"

definition slice :: "nat \<Rightarrow> nat \<Rightarrow> 'a list \<Rightarrow> 'a list" where
  "slice i j xs = take (j - i) (drop i xs)"

definition variant_byte :: "string \<Rightarrow> string" where
  "variant_byte h =
     (let n = 16 * hex_value (h ! 16) + hex_value (h ! 17); m = n mod 64 + 128
      in [hex_digit (m div 16), hex_digit (m mod 16)])"

definition stableGrantId :: "(string \<Rightarrow> string) \<Rightarrow> string \<Rightarrow> string \<Rightarrow> string \<Rightarrow> string" where
  "stableGrantId sha1_hex agentId scope label =
     (let h = sha1_hex (''agent-credential:'' @ agentId @ '':'' @ scope @ '':'' @ label) in
      js_join ''-'' [slice 0 8 h, slice 8 12 h, ''5'' @ slice 13 16 h, variant_byte h @ slice 18 20 h,
        slice 20 32 h])"

subsection \<open>Reading a persisted credential\<close>

definition preserveLegacyCustomServiceLabel :: "string \<Rightarrow> string option \<Rightarrow> string" where
  "preserveLegacyCustomServiceLabel label legacyService = (case legacyService of
      None \<Rightarrow> label
    | Some s \<Rightarrow>
        if s = [] \<or> isAgentCredentialScope (JStr s) then label
        else if label = s \<or> js_ends_with label (''('' @ s @ '')'') then label
        else label @ '' ('' @ s @ '')'')"

definition normalizeCredentialScope :: "agent_credential \<Rightarrow> credential_error + string" where
  "normalizeCredentialScope c =
     (if ac_scope c \<noteq> JUndef then assertAgentCredentialScope (ac_scope c)
      else case ac_service c of
        JStr s \<Rightarrow>
          if s = reserved_scope then assertAgentCredentialScope (JStr s)
          else if \<not> isAgentCredentialScope (JStr s) then Inr ''custom''
          else assertAgentCredentialScope (JStr s)
      | v \<Rightarrow> assertAgentCredentialScope v)"

fun or_else_opt :: "'a option \<Rightarrow> 'a option \<Rightarrow> 'a option" where
  "or_else_opt (Some x) y = Some x"
| "or_else_opt None y = y"

definition normalizeAgentCredential ::
  "(string \<Rightarrow> string) \<Rightarrow> agent_credential \<Rightarrow> agent_info \<Rightarrow> credential_error + agent_credential" where
  "normalizeAgentCredential sha1_hex c agent = and_then (normalizeCredentialScope c) (\<lambda>scope.
     let label = preserveLegacyCustomServiceLabel (ac_label c)
           (case ac_service c of JStr s \<Rightarrow> Some s | _ \<Rightarrow> None);
         grantId = (case or_else_opt (ac_grantId c) (ac_id c) of
             Some g \<Rightarrow> g | None \<Rightarrow> stableGrantId sha1_hex (ag_id agent) scope label)
     in Inr (c\<lparr>ac_id := Some grantId, ac_grantId := Some grantId,
          ac_grantorId := Some (case ac_grantorId c of Some g \<Rightarrow> g | None \<Rightarrow> deriveGrantorId agent),
          ac_scope := JStr scope, ac_service := JStr scope, ac_label := label,
          ac_expiresAt := Some (case ac_expiresAt c of Some e \<Rightarrow> e | None \<Rightarrow> None)\<rparr>))"

definition isAgentCredentialGrantCurrentlyActive ::
  "(string \<Rightarrow> time option) \<Rightarrow> time \<Rightarrow> agent_credential \<Rightarrow> bool" where
  "isAgentCredentialGrantCurrentlyActive parse_date now c =
     (if \<not> ac_isActive c then False
      else case ac_expiresAt c of
        None \<Rightarrow> True
      | Some None \<Rightarrow> True
      | Some (Some e) \<Rightarrow>
          if e = [] then True
          else (case parse_date e of None \<Rightarrow> False | Some t \<Rightarrow> t > now))"

record read_refusal =
  rr_credentialId :: string
  rr_scope :: jsval
  rr_reason :: credential_error

definition refusal_of :: "agent_credential \<Rightarrow> credential_error \<Rightarrow> read_refusal" where
  "refusal_of c e = \<lparr>
     rr_credentialId = (case or_else_opt (ac_grantId c) (ac_id c) of Some g \<Rightarrow> g | None \<Rightarrow> ''<unknown>''),
     rr_scope = js_nullish (ac_scope c) (ac_service c), rr_reason = e\<rparr>"

text \<open>\<open>clk i\<close> is the reading of the clock for the i-th credential.\<close>

fun readActiveAgentCredentialGrants ::
  "(string \<Rightarrow> string) \<Rightarrow> (string \<Rightarrow> time option) \<Rightarrow> (nat \<Rightarrow> time) \<Rightarrow> agent_info \<Rightarrow>
   agent_credential list \<Rightarrow> agent_credential list \<times> read_refusal list" where
  "readActiveAgentCredentialGrants sha1_hex parse_date clk agent [] = ([], [])"
| "readActiveAgentCredentialGrants sha1_hex parse_date clk agent (c # cs) =
     (let (creds, refusals) = readActiveAgentCredentialGrants sha1_hex parse_date (clk \<circ> Suc) agent cs in
      case normalizeAgentCredential sha1_hex c agent of
        Inl e \<Rightarrow> (creds, refusal_of c e # refusals)
      | Inr n \<Rightarrow>
          if isAgentCredentialGrantCurrentlyActive parse_date (clk 0) n then (n # creds, refusals)
          else (creds, refusals))"

subsection \<open>The fleet SSH grant\<close>

definition fleet_label :: string where
  "fleet_label = ''Fleet SSH key mount grant''"

definition json_of :: "jsval \<Rightarrow> string" where
  "json_of v = (case json_text v of None \<Rightarrow> ''undefined'' | Some t \<Rightarrow> t)"

definition key_files_text :: "ssh_keys option \<Rightarrow> string" where
  "key_files_text k = json_of (JArr (map JStr (case k of None \<Rightarrow> []
     | Some k \<Rightarrow> (case sk_keyFiles k of None \<Rightarrow> [] | Some fs \<Rightarrow> fs))))"

definition remote_user_text :: "ssh_keys option \<Rightarrow> string" where
  "remote_user_text k = (case k of None \<Rightarrow> []
     | Some k \<Rightarrow> (case sk_remoteUser k of None \<Rightarrow> [] | Some u \<Rightarrow> u))"

definition fleet_grant_with ::
  "(string \<Rightarrow> string) \<Rightarrow> agent_info \<Rightarrow> (string \<times> string) list \<Rightarrow> agent_credential" where
  "fleet_grant_with sha1_hex agent data =
     (let grantId = stableGrantId sha1_hex (ag_id agent) ''fleet-ssh'' fleet_label in
      \<lparr>ac_id = Some grantId, ac_grantId = Some grantId, ac_grantorId = Some (deriveGrantorId agent),
       ac_scope = JStr ''fleet-ssh'', ac_service = JStr ''fleet-ssh'', ac_customService = None,
       ac_label = fleet_label, ac_data = data, ac_expiresAt = Some None, ac_injectAsEnv = False,
       ac_envMapping = None, ac_isActive = True\<rparr>)"

text \<open>\<open>{...data, ...extra}\<close>\<close>

definition put_all :: "(string \<times> string) list \<Rightarrow> (string \<times> string) list \<Rightarrow> (string \<times> string) list" where
  "put_all extra data = foldl (\<lambda>d (k, v). AList.update k v d) data extra"

definition createFleetSshCredentialGrant ::
  "(string \<Rightarrow> string) \<Rightarrow> agent_info \<Rightarrow> (string \<times> string) list \<Rightarrow> agent_credential option" where
  "createFleetSshCredentialGrant sha1_hex agent extra = (case ag_sshKeys agent of
      None \<Rightarrow> None
    | Some k \<Rightarrow>
        if \<not> sk_enabled k then None
        else Some (fleet_grant_with sha1_hex agent (put_all extra
          [(''sshDir'', case sk_sshDir k of None \<Rightarrow> ''~/.ssh'' | Some d \<Rightarrow> d),
           (''keyFiles'', key_files_text (Some k)), (''remoteUser'', remote_user_text (Some k))])))"

definition isHostPlaneAgent :: "agent_info \<Rightarrow> bool" where
  "isHostPlaneAgent agent \<longleftrightarrow> ''devops'' \<in> set (ag_skills agent)"

definition hostPlaneFleetSshSourceDir :: "agent_info \<Rightarrow> string" where
  "hostPlaneFleetSshSourceDir agent = ''~/.shizuha/ssh-keys/'' @ ag_username agent"

definition createHostPlaneFleetSshCredentialGrant :: "(string \<Rightarrow> string) \<Rightarrow> agent_info \<Rightarrow> agent_credential" where
  "createHostPlaneFleetSshCredentialGrant sha1_hex agent = fleet_grant_with sha1_hex agent
     [(''sshDir'', hostPlaneFleetSshSourceDir agent), (''keyFiles'', key_files_text (ag_sshKeys agent)),
      (''remoteUser'', remote_user_text (ag_sshKeys agent))]"

definition text_items :: "jsval list \<Rightarrow> string list" where
  "text_items vs = concat (map (\<lambda>v. case v of JStr s \<Rightarrow> [s] | _ \<Rightarrow> []) vs)"

definition validate_key_array :: "jsval \<Rightarrow> credential_error + string list option" where
  "validate_key_array v = (case v of
      JArr vs \<Rightarrow>
        if list_all (\<lambda>x. case x of JStr s \<Rightarrow> s \<noteq> [] | _ \<Rightarrow> False) vs then Inr (Some (text_items vs))
        else Inl KeyFilesBadEntry
    | _ \<Rightarrow> Inl KeyFilesNotArray)"

definition parseCredentialKeyFiles ::
  "(string \<Rightarrow> jsval option) \<Rightarrow> jsval \<Rightarrow> credential_error + string list option" where
  "parseCredentialKeyFiles json_parse v = (case v of
      JUndef \<Rightarrow> Inr None
    | JNull \<Rightarrow> Inr None
    | JArr vs \<Rightarrow> validate_key_array v
    | JStr s \<Rightarrow>
        if s = [] then Inr None
        else (case json_parse s of None \<Rightarrow> Inl KeyFilesNotJson | Some w \<Rightarrow> validate_key_array w)
    | _ \<Rightarrow> Inl KeyFilesNotText)"

record fleet_grant =
  fg_grantId :: string
  fg_sshDir :: "string option"
  fg_keyFiles :: "string list option"
  fg_remoteUser :: "string option"

definition data_text :: "string \<Rightarrow> agent_credential \<Rightarrow> string option" where
  "data_text k c = (case map_of (ac_data c) k of None \<Rightarrow> None | Some v \<Rightarrow> if v = [] then None else Some v)"

definition data_value :: "string \<Rightarrow> agent_credential \<Rightarrow> jsval" where
  "data_value k c = (case map_of (ac_data c) k of None \<Rightarrow> JUndef | Some v \<Rightarrow> JStr v)"

definition credential_key :: "agent_credential \<Rightarrow> string" where
  "credential_key c = (case or_else_opt (ac_grantId c) (ac_id c) of None \<Rightarrow> [] | Some g \<Rightarrow> g)"

definition resolveFleetSshCredentialGrant ::
  "(string \<Rightarrow> string) \<Rightarrow> (string \<Rightarrow> time option) \<Rightarrow> (string \<Rightarrow> jsval option) \<Rightarrow> (nat \<Rightarrow> time) \<Rightarrow>
   agent_info \<Rightarrow> fleet_grant option \<times> read_refusal list" where
  "resolveFleetSshCredentialGrant sha1_hex parse_date json_parse clk agent =
     (let (creds, refusals) =
            readActiveAgentCredentialGrants sha1_hex parse_date clk agent (ag_credentials agent)
      in if refusals \<noteq> [] then (None, refusals)
         else case find (\<lambda>c. ac_scope c = JStr ''fleet-ssh'') creds of
           None \<Rightarrow> (None, refusals)
         | Some c \<Rightarrow>
             (case parseCredentialKeyFiles json_parse (data_value ''keyFiles'' c) of
                Inl e \<Rightarrow> (None, [\<lparr>rr_credentialId = credential_key c, rr_scope = ac_scope c, rr_reason = e\<rparr>])
              | Inr files \<Rightarrow> (Some \<lparr>fg_grantId = credential_key c, fg_sshDir = data_text ''sshDir'' c,
                    fg_keyFiles = files, fg_remoteUser = data_text ''remoteUser'' c\<rparr>, refusals)))"

definition isFleetSshCredentialLike :: "agent_credential \<Rightarrow> bool" where
  "isFleetSshCredentialLike c \<longleftrightarrow> js_nullish (ac_scope c) (ac_service c) = JStr ''fleet-ssh''"

text \<open>The result is the list of credentials; an absent list and an empty one are the same here.\<close>

definition reconcileFleetSshCredentialGrantFromLegacySshKeys ::
  "(string \<Rightarrow> string) \<Rightarrow> agent_info \<Rightarrow> ssh_keys option \<Rightarrow> agent_credential list" where
  "reconcileFleetSshCredentialGrantFromLegacySshKeys sha1_hex agent keys =
     filter (\<lambda>c. \<not> isFleetSshCredentialLike c) (ag_credentials agent)
     @ (case createFleetSshCredentialGrant sha1_hex (agent\<lparr>ag_sshKeys := keys\<rparr>) [] of
          None \<Rightarrow> [] | Some g \<Rightarrow> [g])"

definition active_fleet :: "(string \<Rightarrow> time option) \<Rightarrow> (nat \<Rightarrow> time) \<Rightarrow> agent_credential list \<Rightarrow> nat option" where
  "active_fleet parse_date clk cs = find_index
     (\<lambda>(i, c). isFleetSshCredentialLike c \<and> isAgentCredentialGrantCurrentlyActive parse_date (clk i) c)
     (enumerate 0 cs)"

definition repoint :: "agent_info \<Rightarrow> agent_credential \<Rightarrow> agent_credential" where
  "repoint agent c = c\<lparr>ac_data := AList.update ''sshDir'' (hostPlaneFleetSshSourceDir agent) (ac_data c)\<rparr>"

definition materializeMissingFleetSshCredentialGrantFromLegacySshKeys ::
  "(string \<Rightarrow> string) \<Rightarrow> (string \<Rightarrow> time option) \<Rightarrow> (nat \<Rightarrow> time) \<Rightarrow> agent_info \<Rightarrow> agent_credential list" where
  "materializeMissingFleetSshCredentialGrantFromLegacySshKeys sha1_hex parse_date clk agent =
     (let cs = ag_credentials agent; hostPlane = isHostPlaneAgent agent in
      case active_fleet parse_date clk cs of
        Some i \<Rightarrow>
          if hostPlane \<and> map_of (ac_data (cs ! i)) ''sshDir'' \<noteq> Some (hostPlaneFleetSshSourceDir agent)
          then cs[i := repoint agent (cs ! i)]
          else cs
      | None \<Rightarrow>
          if list_ex isFleetSshCredentialLike cs then cs
          else if hostPlane then cs @ [createHostPlaneFleetSshCredentialGrant sha1_hex agent]
          else if (case ag_sshKeys agent of None \<Rightarrow> False | Some k \<Rightarrow> sk_enabled k)
          then reconcileFleetSshCredentialGrantFromLegacySshKeys sha1_hex agent (ag_sshKeys agent)
          else cs)"

subsection \<open>What a host-plane agent is given\<close>

abbreviation fleet_active :: "(string \<Rightarrow> time option) \<Rightarrow> time \<Rightarrow> agent_credential \<Rightarrow> bool" where
  "fleet_active parse_date now c \<equiv>
     isFleetSshCredentialLike c \<and> isAgentCredentialGrantCurrentlyActive parse_date now c"

lemma fleet_is_scope: "''fleet-ssh'' \<in> set agent_credential_scopes" "''fleet-ssh'' \<noteq> ''custom''"
    "''fleet-ssh'' \<noteq> reserved_scope"
  by code_simp+

lemma normal_scope_like:
  assumes "normalizeCredentialScope c = Inr s"
  shows "s = ''fleet-ssh'' \<longleftrightarrow> isFleetSshCredentialLike c"
proof (cases "ac_scope c = JUndef")
  case False
  then have "ac_scope c = JStr s" using assms by (simp add: normalizeCredentialScope_def)
  then show ?thesis by (simp add: isFleetSshCredentialLike_def js_nullish_def)
next
  case True
  then have like: "isFleetSshCredentialLike c \<longleftrightarrow> ac_service c = JStr ''fleet-ssh''"
    by (simp add: isFleetSshCredentialLike_def js_nullish_def)
  show ?thesis
  proof (cases "ac_service c")
    case (JStr v)
    then show ?thesis using True assms like fleet_is_scope
      by (auto simp: normalizeCredentialScope_def isAgentCredentialScope_def split: if_splits)
  qed (use True assms in \<open>auto simp: normalizeCredentialScope_def\<close>)
qed

lemma normalized_fields:
  assumes "normalizeAgentCredential sha1_hex c agent = Inr n"
  shows "ac_scope n = JStr ''fleet-ssh'' \<longleftrightarrow> isFleetSshCredentialLike c" "ac_data n = ac_data c"
    "isAgentCredentialGrantCurrentlyActive parse_date now n
       = isAgentCredentialGrantCurrentlyActive parse_date now c"
proof -
  obtain s i g l where s: "normalizeCredentialScope c = Inr s"
    and n: "n = c\<lparr>ac_id := i, ac_grantId := i, ac_grantorId := g, ac_scope := JStr s, ac_service := JStr s,
      ac_label := l, ac_expiresAt := Some (case ac_expiresAt c of Some e \<Rightarrow> e | None \<Rightarrow> None)\<rparr>"
    using assms unfolding normalizeAgentCredential_def and_then_Inr Let_def by blast
  show "ac_scope n = JStr ''fleet-ssh'' \<longleftrightarrow> isFleetSshCredentialLike c"
    using normal_scope_like [OF s] by (simp add: n)
  show "ac_data n = ac_data c" by (simp add: n)
  show "isAgentCredentialGrantCurrentlyActive parse_date now n
       = isAgentCredentialGrantCurrentlyActive parse_date now c"
    by (simp add: n isAgentCredentialGrantCurrentlyActive_def split: option.split)
qed

lemma read_finds_first:
  assumes "readActiveAgentCredentialGrants sha1_hex parse_date (\<lambda>_. now) agent cs = (ns, [])"
    and "find (\<lambda>n. ac_scope n = JStr ''fleet-ssh'') ns = Some n"
  shows "\<exists>c. find (fleet_active parse_date now) cs = Some c \<and> ac_data n = ac_data c"
  using assms
proof (induction cs arbitrary: ns)
  case (Cons c cs)
  obtain m ms where m: "normalizeAgentCredential sha1_hex c agent = Inr m"
      "readActiveAgentCredentialGrants sha1_hex parse_date (\<lambda>_. now) agent cs = (ms, [])"
      "ns = (if isAgentCredentialGrantCurrentlyActive parse_date now c then m # ms else ms)"
    using Cons.prems(1) normalized_fields(3)
    by (auto simp: o_def split: sum.splits prod.splits if_splits)
  note nf = normalized_fields [OF m(1)]
  show ?case
  proof (cases "fleet_active parse_date now c")
    case True
    then show ?thesis using m(3) nf Cons.prems(2) by auto
  next
    case False
    then have "find (\<lambda>n. ac_scope n = JStr ''fleet-ssh'') ms = Some n"
      using m(3) nf Cons.prems(2) by (auto split: if_splits)
    with Cons.IH [OF m(2)] False show ?thesis by auto
  qed
qed simp

lemma enumerate_find_index: "find_index (\<lambda>(i, c). P c) (enumerate n cs) = find_index P cs"
  by (induction cs arbitrary: n) auto

lemma find_index_find: "find_index P cs = Some i \<Longrightarrow> find P cs = Some (cs ! i)"
  by (induction cs arbitrary: i) (auto split: if_splits)

lemma find_update: "find_index P cs = Some i \<Longrightarrow> P x \<Longrightarrow> find P (cs[i := x]) = Some x"
proof (induction cs arbitrary: i)
  case (Cons c cs)
  then show ?case by (cases i) (auto split: if_splits)
qed simp

lemma repoint_active: "fleet_active parse_date now (repoint agent c) = fleet_active parse_date now c"
  by (simp add: repoint_def isFleetSshCredentialLike_def isAgentCredentialGrantCurrentlyActive_def
      split: option.splits)

lemma store_dir_not_empty [simp]: "hostPlaneFleetSshSourceDir agent \<noteq> []"
  by (simp add: hostPlaneFleetSshSourceDir_def)

lemma materialized_source:
  assumes "isHostPlaneAgent agent"
    and "find (fleet_active parse_date now) (materializeMissingFleetSshCredentialGrantFromLegacySshKeys
           sha1_hex parse_date (\<lambda>_. now) agent) = Some c"
  shows "map_of (ac_data c) ''sshDir'' = Some (hostPlaneFleetSshSourceDir agent)
    \<and> (list_ex isFleetSshCredentialLike (ag_credentials agent)
         \<longrightarrow> list_ex (fleet_active parse_date now) (ag_credentials agent))"
proof (cases "find_index (fleet_active parse_date now) (ag_credentials agent)")
  case (Some i)
  note at = find_index_Some [OF this]
  let ?x = "ag_credentials agent ! i"
  have "list_ex (fleet_active parse_date now) (ag_credentials agent)"
    using at by (auto simp: list_ex_iff intro!: bexI [of _ ?x])
  moreover have "find (fleet_active parse_date now) ((ag_credentials agent)[i := repoint agent ?x])
      = Some (repoint agent ?x)"
    by (rule find_update [OF Some]) (use at repoint_active in blast)
  ultimately show ?thesis using assms Some find_index_find [OF Some]
    by (auto simp: materializeMissingFleetSshCredentialGrantFromLegacySshKeys_def active_fleet_def
        enumerate_find_index Let_def repoint_def update_conv split: if_splits)
next
  case None
  then have none: "find (fleet_active parse_date now) (ag_credentials agent) = None"
    by (simp add: find_index_None find_None_iff)
  then have "\<not> list_ex isFleetSshCredentialLike (ag_credentials agent)"
    using assms None
    by (auto simp: materializeMissingFleetSshCredentialGrantFromLegacySshKeys_def active_fleet_def
        enumerate_find_index Let_def split: if_splits)
  moreover have "find p (xs @ ys) = (case find p xs of None \<Rightarrow> find p ys | Some x \<Rightarrow> Some x)"
    for p :: "agent_credential \<Rightarrow> bool" and xs ys by (induction xs) auto
  ultimately show ?thesis using assms None none
    by (auto simp: materializeMissingFleetSshCredentialGrantFromLegacySshKeys_def active_fleet_def
        enumerate_find_index Let_def createHostPlaneFleetSshCredentialGrant_def fleet_grant_with_def
        split: if_splits)
qed

text \<open>
  An agent of the host plane never stages SSH keys from anywhere but its own store: when
  the missing grant is materialised and the grants are then read at the same time, whatever
  fleet grant results names the agent's store as its source, and when all of the agent's
  fleet grants are revoked or expired there is no grant, so a revocation is never undone.
\<close>

theorem host_plane_grant_sourced:
  assumes "isHostPlaneAgent agent"
    and "resolveFleetSshCredentialGrant sha1_hex parse_date json_parse (\<lambda>_. now)
           (agent\<lparr>ag_credentials := materializeMissingFleetSshCredentialGrantFromLegacySshKeys
              sha1_hex parse_date (\<lambda>_. now) agent\<rparr>) = (Some g, rs)"
  shows "fg_sshDir g = Some (hostPlaneFleetSshSourceDir agent) \<and> rs = []
    \<and> (list_ex isFleetSshCredentialLike (ag_credentials agent)
         \<longrightarrow> list_ex (fleet_active parse_date now) (ag_credentials agent))"
proof -
  let ?cs = "materializeMissingFleetSshCredentialGrantFromLegacySshKeys sha1_hex parse_date (\<lambda>_. now) agent"
  let ?agent = "agent\<lparr>ag_credentials := ?cs\<rparr>"
  obtain ns n where n: "readActiveAgentCredentialGrants sha1_hex parse_date (\<lambda>_. now) ?agent ?cs = (ns, [])"
      "find (\<lambda>n. ac_scope n = JStr ''fleet-ssh'') ns = Some n" "fg_sshDir g = data_text ''sshDir'' n" "rs = []"
    using assms(2)
    by (auto simp: resolveFleetSshCredentialGrant_def Let_def split: prod.splits option.splits sum.splits if_splits)
  then obtain c where c: "find (fleet_active parse_date now) ?cs = Some c" "ac_data n = ac_data c"
    using read_finds_first [OF n(1,2)] by blast
  from materialized_source [OF assms(1) c(1)] c(2) n(3,4) show ?thesis by (simp add: data_text_def)
qed

definition plain_agent :: "string \<Rightarrow> string \<Rightarrow> string \<Rightarrow> agent_info" where
  "plain_agent key name email = \<lparr>ag_id = key, ag_username = name, ag_email = email, ag_role = None,
     ag_runtime = None, ag_skills = [], ag_sshKeys = None, ag_credentials = [], ag_requests = [],
     ag_grantScopes = [], ag_customServices = [], ag_payloadScopes = [], ag_auditRoles = [],
     ag_peerUid = None, ag_seedVersion = None\<rparr>"

definition devops_agent :: agent_info where
  "devops_agent = (plain_agent ''a-88'' ''ichi'' ''ichi@shizuha.com'')\<lparr>ag_skills := [''devops'']\<rparr>"

lemma host_plane_grant_sourced_witness:
  "\<exists>g rs. resolveFleetSshCredentialGrant (\<lambda>_. replicate 40 CHR ''a'') (\<lambda>_. None) (\<lambda>_. Some (JArr [])) (\<lambda>_. 0)
     (devops_agent\<lparr>ag_credentials := materializeMissingFleetSshCredentialGrantFromLegacySshKeys
        (\<lambda>_. replicate 40 CHR ''a'') (\<lambda>_. None) (\<lambda>_. 0) devops_agent\<rparr>) = (Some g, rs)
     \<and> fg_sshDir g = Some ''~/.shizuha/ssh-keys/ichi''"
proof -
  let ?h = "\<lambda>_ :: string. replicate 40 CHR ''a''"
  let ?a = "devops_agent\<lparr>ag_credentials := materializeMissingFleetSshCredentialGrantFromLegacySshKeys
        ?h (\<lambda>_. None) (\<lambda>_. 0) devops_agent\<rparr>"
  have "fst (resolveFleetSshCredentialGrant ?h (\<lambda>_. None) (\<lambda>_. Some (JArr [])) (\<lambda>_. 0) ?a) \<noteq> None"
    by code_simp
  then obtain g rs where g: "resolveFleetSshCredentialGrant ?h (\<lambda>_. None) (\<lambda>_. Some (JArr [])) (\<lambda>_. 0) ?a
      = (Some g, rs)" by (metis not_None_eq prod.collapse)
  have "isHostPlaneAgent devops_agent" "hostPlaneFleetSshSourceDir devops_agent = ''~/.shizuha/ssh-keys/ichi''"
    by code_simp+
  with host_plane_grant_sourced [OF _ g] g show ?thesis by auto
qed

subsection \<open>The authorities of an agent\<close>

definition resolveCredentialGrantScopes :: "agent_info \<Rightarrow> credential_error + string list" where
  "resolveCredentialGrantScopes agent =
     and_then (map_throw (\<lambda>s. assertAgentCredentialScope (JStr s)) (ag_grantScopes agent))
       (\<lambda>ss. Inr (js_unique ss))"

definition custom_service_re :: re where
  "custom_service_re = RSeqs [RBol, RCls False [(97, 122), (48, 57)],
     RRep 0 (Some 127) (RCls False [(97, 122), (48, 57), (95, 95), (46, 46), (45, 45)]), REol]"

definition normalizeCredentialCustomService :: "jsval \<Rightarrow> credential_error + string" where
  "normalizeCredentialCustomService v = (case v of
      JStr s \<Rightarrow>
        let service = js_lower (js_trim s) in
        if js_trim s = [] then Inl (BadCustomService v)
        else if service = ''*'' then Inr service
        else if re_test False custom_service_re service then Inr service
        else Inl (BadCustomService v)
    | _ \<Rightarrow> Inl (BadCustomService v))"

definition resolveCredentialCustomGrantServices :: "agent_info \<Rightarrow> credential_error + string list" where
  "resolveCredentialCustomGrantServices agent =
     and_then (map_throw (\<lambda>s. normalizeCredentialCustomService (JStr s)) (ag_customServices agent))
       (\<lambda>ss. Inr (js_unique ss))"

definition resolveCredentialAuditRoles :: "agent_info \<Rightarrow> credential_error + string list" where
  "resolveCredentialAuditRoles agent =
     and_then (map_throw assertAgentCredentialAuditRole (ag_auditRoles agent)) (\<lambda>rs. Inr (js_unique rs))"

definition resolveCredentialPayloadReadScopes :: "agent_info \<Rightarrow> credential_error + string list" where
  "resolveCredentialPayloadReadScopes agent =
     and_then (resolveCredentialAuditRoles agent) (\<lambda>roles.
     and_then (map_throw (\<lambda>s. if s = ''*'' then Inr s else assertAgentCredentialScope (JStr s))
                (ag_payloadScopes agent)) (\<lambda>ss.
       Inr (js_unique ((if ''security-lead'' \<in> set roles then [''*''] else []) @ ss))))"

subsection \<open>The seeds of the authorities\<close>

record seed_identity =
  si_email :: string
  si_userId :: int

record verified_identity =
  vi_email :: string
  vi_userId :: int
  vi_username :: string

definition platform_grant_identities :: "(string \<times> seed_identity) list" where
  "platform_grant_identities =
     [(''kai'', \<lparr>si_email = ''kai@shizuha.com'', si_userId = 13\<rparr>),
      (''ryo'', \<lparr>si_email = ''ryo@shizuha.com'', si_userId = 14\<rparr>),
      (''ichi'', \<lparr>si_email = ''ichi@shizuha.com'', si_userId = 88\<rparr>),
      (''ni'', \<lparr>si_email = ''ni@shizuha.com'', si_userId = 89\<rparr>)]"

definition security_metadata_identities :: "(string \<times> seed_identity) list" where
  "security_metadata_identities =
     [(''akira'', \<lparr>si_email = ''akira@shizuha.com'', si_userId = 17\<rparr>),
      (''ren'', \<lparr>si_email = ''ren@shizuha.com'', si_userId = 18\<rparr>)]"

definition bootstrap_grant_scopes :: "string list" where
  "bootstrap_grant_scopes = [''fleet-ssh'', ''kubeconfig'']"

definition security_audit_roles :: "string list" where
  "security_audit_roles = [''metadata-audit'']"

definition seed_version :: string where
  "seed_version = ''adr-plat-001-s10''"

text \<open>\<open>mo_trusted\<close> is the map of verified identities by agent id; an absent map is the empty one.\<close>

record migration_options =
  mo_trusted :: "string \<Rightarrow> verified_identity option"
  mo_authoritative :: bool
  mo_migratedAt :: "string option"

definition sameStringSet :: "string list \<Rightarrow> string list \<Rightarrow> bool" where
  "sameStringSet actual expected \<longleftrightarrow>
     length actual = length expected \<and> list_all (\<lambda>v. v \<in> set actual) expected"

definition breakGlassAuditRoles :: "agent_info \<Rightarrow> string list" where
  "breakGlassAuditRoles agent = filter (\<lambda>r. r = ''security-lead'') (ag_auditRoles agent)"

definition seedManagedAuditRoles :: "agent_info \<Rightarrow> string list" where
  "seedManagedAuditRoles agent = filter (\<lambda>r. r \<noteq> ''security-lead'') (ag_auditRoles agent)"

definition identity_matches :: "seed_identity \<Rightarrow> verified_identity option \<Rightarrow> agent_info \<Rightarrow> bool" where
  "identity_matches trusted verified agent = (case verified of
      None \<Rightarrow> False
    | Some v \<Rightarrow> si_userId trusted = vi_userId v \<and> si_email trusted = vi_email v
        \<and> ag_username agent = vi_username v)"

definition matchesTrustedAgentIdentity ::
  "agent_info \<Rightarrow> (string \<times> seed_identity) list \<Rightarrow> migration_options \<Rightarrow> bool" where
  "matchesTrustedAgentIdentity agent identities opts = (case map_of identities (ag_username agent) of
      None \<Rightarrow> False
    | Some t \<Rightarrow> si_email t = ag_email agent \<and> identity_matches t (mo_trusted opts (ag_id agent)) agent)"

definition seed_candidate :: "agent_info \<Rightarrow> seed_identity option" where
  "seed_candidate agent = or_else_opt (map_of platform_grant_identities (ag_username agent))
     (map_of security_metadata_identities (ag_username agent))"

definition isUnverifiedTrustedSeedCandidate :: "agent_info \<Rightarrow> migration_options \<Rightarrow> bool" where
  "isUnverifiedTrustedSeedCandidate agent opts =
     (if \<not> mo_authoritative opts then False
      else case seed_candidate agent of
        None \<Rightarrow> False
      | Some t \<Rightarrow> si_email t = ag_email agent
          \<and> \<not> identity_matches t (mo_trusted opts (ag_id agent)) agent)"

definition isTrustedSeedCandidate :: "agent_info \<Rightarrow> bool" where
  "isTrustedSeedCandidate agent = (case seed_candidate agent of
      None \<Rightarrow> False | Some t \<Rightarrow> si_email t = ag_email agent)"

definition has_identity :: "(string \<times> seed_identity) list \<Rightarrow> agent_info \<Rightarrow> bool" where
  "has_identity identities agent = (case map_of identities (ag_username agent) of
      None \<Rightarrow> False | Some t \<Rightarrow> si_email t = ag_email agent)"

definition hasValidNonAuthoritativeSeedBaseline :: "agent_info \<Rightarrow> bool" where
  "hasValidNonAuthoritativeSeedBaseline agent =
     (if ag_seedVersion agent \<noteq> Some seed_version then False
      else if has_identity platform_grant_identities agent then
        sameStringSet (ag_grantScopes agent) bootstrap_grant_scopes \<and> seedManagedAuditRoles agent = []
      else if has_identity security_metadata_identities agent then
        ag_grantScopes agent = [] \<and> sameStringSet (seedManagedAuditRoles agent) security_audit_roles
      else False)"

definition isPlatformGrantAgent :: "agent_info \<Rightarrow> migration_options \<Rightarrow> bool" where
  "isPlatformGrantAgent agent opts = matchesTrustedAgentIdentity agent platform_grant_identities opts"

definition isSecurityMetadataAuditAgent :: "agent_info \<Rightarrow> migration_options \<Rightarrow> bool" where
  "isSecurityMetadataAuditAgent agent opts =
     matchesTrustedAgentIdentity agent security_metadata_identities opts"

text \<open>The counters of a migration; one agent's share of them is a record of the same type.\<close>

record migration_counts =
  mc_inserted :: nat
  mc_dogfood :: nat
  mc_normalized :: nat
  mc_refused :: nat
  mc_grants :: nat
  mc_roles :: nat
  mc_baselines :: nat

definition no_counts :: migration_counts where
  "no_counts = \<lparr>mc_inserted = 0, mc_dogfood = 0, mc_normalized = 0, mc_refused = 0,
     mc_grants = 0, mc_roles = 0, mc_baselines = 0\<rparr>"

definition count_if :: "bool \<Rightarrow> nat" where
  "count_if b = (if b then 1 else 0)"

definition seeded :: "agent_info \<Rightarrow> string list \<Rightarrow> string list \<Rightarrow> string option \<Rightarrow> bool \<Rightarrow> bool \<Rightarrow> bool \<Rightarrow>
    agent_info \<times> migration_counts" where
  "seeded agent scopes roles version g r b =
     (agent\<lparr>ag_grantScopes := scopes, ag_auditRoles := roles, ag_seedVersion := version\<rparr>,
      no_counts\<lparr>mc_grants := count_if g, mc_roles := count_if r, mc_baselines := count_if b\<rparr>)"

text \<open>The break-glass roles that a record of the current version keeps.\<close>

definition versioned_break_glass :: "agent_info \<Rightarrow> string list" where
  "versioned_break_glass agent =
     (if ag_seedVersion agent = Some seed_version then breakGlassAuditRoles agent else [])"

definition seedAgentCredentialPermissionRoles ::
  "agent_info \<Rightarrow> migration_options \<Rightarrow> agent_info \<times> migration_counts" where
  "seedAgentCredentialPermissionRoles agent opts =
     (let hadGrantScopes = ag_grantScopes agent \<noteq> [];
          kept = versioned_break_glass agent;
          hadAuditRoles = (seedManagedAuditRoles agent \<noteq> []
            \<or> length kept < length (ag_auditRoles agent));
          hadSeedVersion = (ag_seedVersion agent \<noteq> None);
          current = (ag_seedVersion agent = Some seed_version)
      in if isTrustedSeedCandidate agent \<and> \<not> isPlatformGrantAgent agent opts
            \<and> \<not> isSecurityMetadataAuditAgent agent opts \<and> \<not> mo_authoritative opts
      then (if hasValidNonAuthoritativeSeedBaseline agent then (agent, no_counts)
            else if \<not> hadGrantScopes \<and> \<not> hadAuditRoles \<and> \<not> hadSeedVersion then (agent, no_counts)
            else seeded agent [] kept None hadGrantScopes hadAuditRoles hadSeedVersion)
      else if isUnverifiedTrustedSeedCandidate agent opts
      then seeded agent [] kept None hadGrantScopes hadAuditRoles hadSeedVersion
      else if isPlatformGrantAgent agent opts
      then seeded agent bootstrap_grant_scopes kept (Some seed_version)
             (\<not> sameStringSet (ag_grantScopes agent) bootstrap_grant_scopes)
             (\<not> sameStringSet (ag_auditRoles agent) kept) (\<not> current)
      else if isSecurityMetadataAuditAgent agent opts
      then seeded agent [] (security_audit_roles @ kept) (Some seed_version) hadGrantScopes
             (\<not> sameStringSet (ag_auditRoles agent) (security_audit_roles @ kept)) (\<not> current)
      else if current
      then (if \<not> hadGrantScopes \<and> seedManagedAuditRoles agent = [] then (agent, no_counts)
            else seeded agent [] (breakGlassAuditRoles agent) (Some seed_version) hadGrantScopes
                   (seedManagedAuditRoles agent \<noteq> []) False)
      else seeded agent [] (breakGlassAuditRoles agent) (Some seed_version) hadGrantScopes
             (ag_auditRoles agent \<noteq> []
              \<and> length (breakGlassAuditRoles agent) \<noteq> length (ag_auditRoles agent)) True)"

definition seed_invariant :: "migration_options \<Rightarrow> agent_info \<Rightarrow> credential_error + unit" where
  "seed_invariant opts agent =
     and_then (map_throw assertAgentCredentialAuditRole (ag_auditRoles agent)) (\<lambda>_.
     and_then (map_throw (\<lambda>s. assertAgentCredentialScope (JStr s)) (ag_grantScopes agent)) (\<lambda>_.
       let bad = Inl (SeedInvariant (ag_username agent)); other = seedManagedAuditRoles agent;
           grants = ag_grantScopes agent
       in if isPlatformGrantAgent agent opts
          then (if \<not> sameStringSet grants bootstrap_grant_scopes \<or> other \<noteq> [] then bad else Inr ())
          else if isSecurityMetadataAuditAgent agent opts
          then (if \<not> sameStringSet other security_audit_roles \<or> grants \<noteq> [] then bad else Inr ())
          else if isTrustedSeedCandidate agent \<and> \<not> mo_authoritative opts
          then (if \<not> hasValidNonAuthoritativeSeedBaseline agent \<and> (grants \<noteq> [] \<or> other \<noteq> [])
                then bad else Inr ())
          else if grants \<noteq> [] then bad
          else if other \<noteq> [] then bad
          else Inr ()))"

definition assertAgentCredentialPermissionSeedInvariants ::
  "agent_info list \<Rightarrow> migration_options \<Rightarrow> credential_error + unit" where
  "assertAgentCredentialPermissionSeedInvariants agents opts =
     and_then (map_throw (seed_invariant opts) agents) (\<lambda>_. Inr ())"

subsection \<open>The migration\<close>

definition dogfood_usernames :: "string list" where
  "dogfood_usernames = [''kai'', ''ichi'', ''ni'']"

definition isDogfoodPhoenixFleetSshAgent :: "agent_info \<Rightarrow> bool" where
  "isDogfoodPhoenixFleetSshAgent agent \<longleftrightarrow> js_lower (ag_username agent) \<in> set dogfood_usernames"

text \<open>\<open>dir\<close> and \<open>user\<close> are the values of the mount, \<open>None\<close> for \<open>undefined\<close>.\<close>

definition isPhoenixFleetSshMountData :: "environ \<Rightarrow> string option \<Rightarrow> string option \<Rightarrow> bool" where
  "isPhoenixFleetSshMountData env dir user =
     (case (env ''SHIZUHA_LEGACY_FLEET_SSH_DIR'', env ''SHIZUHA_LEGACY_FLEET_SSH_USER'') of
        (Some sshDir, Some remoteUser) \<Rightarrow> sshDir \<noteq> [] \<and> remoteUser \<noteq> [] \<and> js_starts_with sshDir ''/''
          \<and> dir = Some sshDir \<and> user = Some remoteUser
      | _ \<Rightarrow> False)"

definition dogfoodPhoenixCredentialData :: "agent_info \<Rightarrow> string \<Rightarrow> (string \<times> string) list" where
  "dogfoodPhoenixCredentialData agent migratedAt =
     [(''auditMigrationTask'', ''PLAT-111''), (''auditMigrationKind'', ''record-only-dogfood''),
      (''auditMigrationSubject'', ''phoenix-mounted-fleet-ssh''),
      (''auditMigrationAgent'', ag_username agent), (''auditMigratedAt'', migratedAt),
      (''auditMigrationNote'', ''Retro-migrated existing phoenix-mounted fleet SSH grant; no key material issued, rotated, logged, or copied.'')]"

definition ensureDogfoodPhoenixFleetSshMetadata ::
  "environ \<Rightarrow> agent_info \<Rightarrow> string \<Rightarrow> agent_credential \<Rightarrow> agent_credential \<times> bool" where
  "ensureDogfoodPhoenixFleetSshMetadata env agent migratedAt c =
     (if \<not> isDogfoodPhoenixFleetSshAgent agent \<or> \<not> isFleetSshCredentialLike c then (c, False)
      else if \<not> isPhoenixFleetSshMountData env (map_of (ac_data c) ''sshDir'') (map_of (ac_data c) ''remoteUser'')
      then (c, False)
      else let metadata = dogfoodPhoenixCredentialData agent
                 (case data_text ''auditMigratedAt'' c of None \<Rightarrow> migratedAt | Some t \<Rightarrow> t)
           in if list_ex (\<lambda>(k, v). map_of (ac_data c) k \<noteq> Some v) metadata
              then (c\<lparr>ac_data := put_all metadata (ac_data c)\<rparr>, True)
              else (c, False))"

definition add_counts :: "migration_counts \<Rightarrow> migration_counts \<Rightarrow> migration_counts" where
  "add_counts a b = \<lparr>mc_inserted = mc_inserted a + mc_inserted b, mc_dogfood = mc_dogfood a + mc_dogfood b,
     mc_normalized = mc_normalized a + mc_normalized b, mc_refused = mc_refused a + mc_refused b,
     mc_grants = mc_grants a + mc_grants b, mc_roles = mc_roles a + mc_roles b,
     mc_baselines = mc_baselines a + mc_baselines b\<rparr>"

text \<open>
  The loop over the credentials of an agent.  A scope that is not \<open>undefined\<close> changes only by
  being absent before, as the normal form keeps it.
\<close>

fun migrate_credentials ::
  "(string \<Rightarrow> string) \<Rightarrow> environ \<Rightarrow> agent_info \<Rightarrow> string \<Rightarrow> agent_credential list \<Rightarrow>
   agent_credential list \<times> migration_counts" where
  "migrate_credentials sha1_hex env agent migratedAt [] = ([], no_counts)"
| "migrate_credentials sha1_hex env agent migratedAt (c # cs) =
     (let (ns, k) = migrate_credentials sha1_hex env agent migratedAt cs in
      case normalizeAgentCredential sha1_hex c agent of
        Inl e \<Rightarrow> (ns, k\<lparr>mc_refused := mc_refused k + 1\<rparr>)
      | Inr n \<Rightarrow>
          let changed = (ac_grantId n \<noteq> ac_grantId c \<or> ac_scope n \<noteq> ac_scope c
                 \<or> ac_grantorId n \<noteq> ac_grantorId c \<or> ac_expiresAt n \<noteq> ac_expiresAt c);
              (m, dogfood) = ensureDogfoodPhoenixFleetSshMetadata env agent migratedAt n
          in (m # ns, k\<lparr>mc_normalized := mc_normalized k + count_if changed,
                mc_dogfood := mc_dogfood k + count_if dogfood\<rparr>))"

definition insert_fleet_grant ::
  "(string \<Rightarrow> string) \<Rightarrow> environ \<Rightarrow> bool \<Rightarrow> agent_info \<Rightarrow> string \<Rightarrow> agent_credential list \<Rightarrow>
   agent_credential list \<times> migration_counts" where
  "insert_fleet_grant sha1_hex env enabled agent migratedAt ns =
     (let dogfood = isDogfoodPhoenixFleetSshAgent agent
            \<and> isPhoenixFleetSshMountData env
                (case ag_sshKeys agent of None \<Rightarrow> None | Some k \<Rightarrow> sk_sshDir k)
                (case ag_sshKeys agent of None \<Rightarrow> None | Some k \<Rightarrow> sk_remoteUser k);
          grant = createFleetSshCredentialGrant sha1_hex agent
            (if dogfood then dogfoodPhoenixCredentialData agent migratedAt else [])
      in if \<not> enabled then (ns, no_counts)
         else case grant of
           None \<Rightarrow> (ns, no_counts)
         | Some g \<Rightarrow>
             if list_ex (\<lambda>c. ac_scope c = JStr ''fleet-ssh'') ns then (ns, no_counts)
             else (ns @ [g], no_counts\<lparr>mc_inserted := 1, mc_dogfood := count_if dogfood\<rparr>))"

definition migrate_agent ::
  "(string \<Rightarrow> string) \<Rightarrow> environ \<Rightarrow> string set \<Rightarrow> migration_options \<Rightarrow> string \<Rightarrow> agent_info \<Rightarrow>
   agent_info \<times> migration_counts" where
  "migrate_agent sha1_hex env enabledAgentIds opts migratedAt agent =
     (let (ns, k1) = migrate_credentials sha1_hex env agent migratedAt (ag_credentials agent);
          (cs, k2) = insert_fleet_grant sha1_hex env (ag_id agent \<in> enabledAgentIds) agent migratedAt ns;
          (agent', k3) = seedAgentCredentialPermissionRoles (agent\<lparr>ag_credentials := cs\<rparr>) opts
      in (agent', add_counts k1 (add_counts k2 k3)))"

record migration_result =
  mr_agents :: "agent_info list"
  mr_counts :: migration_counts

definition migrateAgentCredentialGrants ::
  "(string \<Rightarrow> string) \<Rightarrow> environ \<Rightarrow> time \<Rightarrow> agent_info list \<Rightarrow> string set \<Rightarrow> migration_options \<Rightarrow>
   credential_error + migration_result" where
  "migrateAgentCredentialGrants sha1_hex env now agents enabledAgentIds opts =
     (let migratedAt = (case mo_migratedAt opts of None \<Rightarrow> toISOString now | Some t \<Rightarrow> t);
          results = map (migrate_agent sha1_hex env enabledAgentIds opts migratedAt) agents
      in and_then (assertAgentCredentialPermissionSeedInvariants (map fst results) opts) (\<lambda>_.
           Inr \<lparr>mr_agents = map fst results, mr_counts = foldl add_counts no_counts (map snd results)\<rparr>))"

definition shouldPersistAgentCredentialMigration :: "migration_result \<Rightarrow> bool" where
  "shouldPersistAgentCredentialMigration r \<longleftrightarrow>
     (let k = mr_counts r in mc_inserted k > 0 \<or> mc_dogfood k > 0 \<or> mc_normalized k > 0
        \<or> mc_refused k > 0 \<or> mc_grants k > 0 \<or> mc_roles k > 0 \<or> mc_baselines k > 0)"

subsection \<open>What the migration promises\<close>

text \<open>
  Authority over the built-in scopes and the metadata roles comes from the fixed identities
  alone: a verified one, or one that was seeded before and could not be verified this time.
\<close>

definition authority_rooted :: "migration_options \<Rightarrow> agent_info \<Rightarrow> bool" where
  "authority_rooted opts agent \<longleftrightarrow>
     (ag_grantScopes agent \<noteq> [] \<longrightarrow>
        set (ag_grantScopes agent) = {''fleet-ssh'', ''kubeconfig''} \<and>
        (isPlatformGrantAgent agent opts
         \<or> \<not> mo_authoritative opts \<and> has_identity platform_grant_identities agent
            \<and> ag_seedVersion agent = Some seed_version)) \<and>
     (''metadata-audit'' \<in> set (ag_auditRoles agent) \<longrightarrow>
        (isSecurityMetadataAuditAgent agent opts
         \<or> \<not> mo_authoritative opts \<and> has_identity security_metadata_identities agent
            \<and> ag_seedVersion agent = Some seed_version))"

lemma same_set: "sameStringSet xs bootstrap_grant_scopes \<Longrightarrow> set xs = {''fleet-ssh'', ''kubeconfig''}"
proof -
  assume "sameStringSet xs bootstrap_grant_scopes"
  then have "length xs = 2" "''fleet-ssh'' \<in> set xs" "''kubeconfig'' \<in> set xs"
    by (simp_all add: sameStringSet_def bootstrap_grant_scopes_def)
  moreover obtain a b where "xs = [a, b]" using \<open>length xs = 2\<close>
    by (auto simp: length_Suc_conv numeral_2_eq_2)
  ultimately show ?thesis by auto
qed

lemma seeded_agent [simp]:
  "fst (seeded agent scopes roles version g r b)
     = agent\<lparr>ag_grantScopes := scopes, ag_auditRoles := roles, ag_seedVersion := version\<rparr>"
  by (simp add: seeded_def)

lemma identity_fields:
  "isPlatformGrantAgent (agent\<lparr>ag_grantScopes := s, ag_auditRoles := r, ag_seedVersion := v\<rparr>) opts
     = isPlatformGrantAgent agent opts"
  "isSecurityMetadataAuditAgent (agent\<lparr>ag_grantScopes := s, ag_auditRoles := r, ag_seedVersion := v\<rparr>) opts
     = isSecurityMetadataAuditAgent agent opts"
  "isTrustedSeedCandidate (agent\<lparr>ag_grantScopes := s, ag_auditRoles := r, ag_seedVersion := v\<rparr>)
     = isTrustedSeedCandidate agent"
  "has_identity ids (agent\<lparr>ag_grantScopes := s, ag_auditRoles := r, ag_seedVersion := v\<rparr>)
     = has_identity ids agent"
  by (simp_all add: isPlatformGrantAgent_def isSecurityMetadataAuditAgent_def matchesTrustedAgentIdentity_def
      identity_matches_def isTrustedSeedCandidate_def seed_candidate_def has_identity_def
      split: option.splits)

lemma security_not_platform:
  "map_of security_metadata_identities u = Some t \<Longrightarrow> map_of platform_grant_identities u = None"
proof -
  assume "map_of security_metadata_identities u = Some t"
  then have "u = ''akira'' \<or> u = ''ren''"
    by (auto simp: security_metadata_identities_def split: if_splits)
  moreover have "map_of platform_grant_identities ''akira'' = None" "map_of platform_grant_identities ''ren'' = None"
    by (simp_all add: platform_grant_identities_def)
  ultimately show ?thesis by auto
qed

lemma unverified_not_matched:
  assumes "isUnverifiedTrustedSeedCandidate agent opts"
  shows "\<not> isPlatformGrantAgent agent opts" "\<not> isSecurityMetadataAuditAgent agent opts"
    "mo_authoritative opts"
  using assms security_not_platform [of "ag_username agent"]
  by (auto simp: isUnverifiedTrustedSeedCandidate_def isPlatformGrantAgent_def isSecurityMetadataAuditAgent_def
      matchesTrustedAgentIdentity_def seed_candidate_def split: option.splits if_splits)

text \<open>What a seeded record looks like in each of the cases, and what it shares with the old one.\<close>

definition plain_roles :: "agent_info \<Rightarrow> bool" where
  "plain_roles a \<longleftrightarrow> ag_grantScopes a = [] \<and> seedManagedAuditRoles a = []"

definition seed_shape :: "migration_options \<Rightarrow> agent_info \<Rightarrow> agent_info \<Rightarrow> bool" where
  "seed_shape opts agent a \<longleftrightarrow>
     (\<exists>s r v. a = agent\<lparr>ag_grantScopes := s, ag_auditRoles := r, ag_seedVersion := v\<rparr>) \<and>
     (if isPlatformGrantAgent agent opts
      then ag_grantScopes a = bootstrap_grant_scopes \<and> seedManagedAuditRoles a = []
      else if isSecurityMetadataAuditAgent agent opts
      then ag_grantScopes a = [] \<and> seedManagedAuditRoles a = security_audit_roles
      else if isTrustedSeedCandidate agent \<and> \<not> mo_authoritative opts
      then hasValidNonAuthoritativeSeedBaseline a \<or> plain_roles a
      else plain_roles a)"

lemma managed_break_glass [simp]:
  "filter (\<lambda>r. r \<noteq> ''security-lead'') (breakGlassAuditRoles agent) = []"
  "filter (\<lambda>r. r \<noteq> ''security-lead'') (versioned_break_glass agent) = []"
  by (simp_all add: breakGlassAuditRoles_def versioned_break_glass_def)

lemma same_agent: "\<exists>s r v. agent = agent\<lparr>ag_grantScopes := s, ag_auditRoles := r, ag_seedVersion := v\<rparr>"
  by (intro exI [of _ "ag_grantScopes agent"] exI [of _ "ag_auditRoles agent"] exI [of _ "ag_seedVersion agent"]) simp

lemma seed_has_shape: "seed_shape opts agent (fst (seedAgentCredentialPermissionRoles agent opts))"
proof (cases "isTrustedSeedCandidate agent \<and> \<not> isPlatformGrantAgent agent opts
    \<and> \<not> isSecurityMetadataAuditAgent agent opts \<and> \<not> mo_authoritative opts")
  case True
  then show ?thesis using same_agent [of agent]
    by (auto simp: seedAgentCredentialPermissionRoles_def seed_shape_def Let_def plain_roles_def
        seedManagedAuditRoles_def)
next
  case outer: False
  show ?thesis
  proof (cases "isUnverifiedTrustedSeedCandidate agent opts")
    case True
    then show ?thesis using unverified_not_matched [OF True]
      by (auto simp: seedAgentCredentialPermissionRoles_def seed_shape_def Let_def plain_roles_def
          seedManagedAuditRoles_def)
  next
    case False
    have other: "\<not> isPlatformGrantAgent agent opts \<Longrightarrow> \<not> isSecurityMetadataAuditAgent agent opts \<Longrightarrow>
        \<not> (isTrustedSeedCandidate agent \<and> \<not> mo_authoritative opts)" using outer by blast
    show ?thesis
      unfolding seedAgentCredentialPermissionRoles_def Let_def if_not_P [OF outer] if_not_P [OF False] seed_shape_def
      using other same_agent [of agent]
      by (auto simp: plain_roles_def seedManagedAuditRoles_def security_audit_roles_def)
  qed
qed

lemma known_roles: "seedManagedAuditRoles a = [] \<or> seedManagedAuditRoles a = [''metadata-audit''] \<Longrightarrow>
    map_throw assertAgentCredentialAuditRole (ag_auditRoles a) = Inr (ag_auditRoles a)"
proof -
  assume a: "seedManagedAuditRoles a = [] \<or> seedManagedAuditRoles a = [''metadata-audit'']"
  have k: "''metadata-audit'' \<in> set agent_credential_audit_roles" "''security-lead'' \<in> set agent_credential_audit_roles"
    by (simp_all add: agent_credential_audit_roles_def)
  have "r \<in> set agent_credential_audit_roles" if "r \<in> set (ag_auditRoles a)" for r
  proof (cases "r = ''security-lead''")
    case False
    then have "r \<in> set (seedManagedAuditRoles a)" using that by (simp add: seedManagedAuditRoles_def)
    then show ?thesis using a k by auto
  qed (use k in simp)
  then show ?thesis by (simp add: map_throw_Inr list_all2_same)
qed

lemma known_scopes: "set xs \<subseteq> {''fleet-ssh'', ''kubeconfig''} \<Longrightarrow>
    map_throw (\<lambda>s. assertAgentCredentialScope (JStr s)) xs = Inr xs"
proof -
  assume "set xs \<subseteq> {''fleet-ssh'', ''kubeconfig''}"
  moreover have "''fleet-ssh'' \<in> set agent_credential_scopes" "''kubeconfig'' \<in> set agent_credential_scopes"
    by (simp_all add: agent_credential_scopes_def)
  ultimately show ?thesis by (auto simp: map_throw_Inr list_all2_same)
qed

lemma one_role: "sameStringSet rs security_audit_roles \<Longrightarrow> rs = [''metadata-audit'']"
  by (cases rs) (auto simp: sameStringSet_def security_audit_roles_def)

lemma same_refl [simp]: "sameStringSet xs xs"
  by (simp add: sameStringSet_def list_all_iff)

lemma baseline_shape:
  assumes "hasValidNonAuthoritativeSeedBaseline a"
  shows "set (ag_grantScopes a) \<subseteq> {''fleet-ssh'', ''kubeconfig''}"
    "seedManagedAuditRoles a = [] \<or> seedManagedAuditRoles a = [''metadata-audit'']"
  using assms same_set one_role
  by (auto simp: hasValidNonAuthoritativeSeedBaseline_def split: if_splits)

lemma shape_invariant:
  assumes "seed_shape opts agent a"
  shows "seed_invariant opts a = Inr ()"
proof -
  obtain s r v where a: "a = agent\<lparr>ag_grantScopes := s, ag_auditRoles := r, ag_seedVersion := v\<rparr>"
    using assms unfolding seed_shape_def by blast
  have same: "isPlatformGrantAgent a opts = isPlatformGrantAgent agent opts"
      "isSecurityMetadataAuditAgent a opts = isSecurityMetadataAuditAgent agent opts"
      "isTrustedSeedCandidate a = isTrustedSeedCandidate agent"
    unfolding a by (rule identity_fields)+
  have b: "set bootstrap_grant_scopes \<subseteq> {''fleet-ssh'', ''kubeconfig''}"
    by (simp add: bootstrap_grant_scopes_def)
  have sh: "set (ag_grantScopes a) \<subseteq> {''fleet-ssh'', ''kubeconfig''}"
      "seedManagedAuditRoles a = [] \<or> seedManagedAuditRoles a = [''metadata-audit'']"
    using assms b baseline_shape [of a]
    unfolding seed_shape_def by (auto simp: plain_roles_def security_audit_roles_def split: if_splits)
  have "map_throw assertAgentCredentialAuditRole (ag_auditRoles a) = Inr (ag_auditRoles a)"
      "map_throw (\<lambda>s. assertAgentCredentialScope (JStr s)) (ag_grantScopes a) = Inr (ag_grantScopes a)"
    by (rule known_roles [OF sh(2)], rule known_scopes [OF sh(1)])
  then show ?thesis using assms
    by (auto simp: seed_invariant_def Let_def same seed_shape_def plain_roles_def split: if_splits)
qed

lemma shape_rooted:
  assumes "seed_shape opts agent a"
  shows "authority_rooted opts a"
proof -
  obtain s r v where a: "a = agent\<lparr>ag_grantScopes := s, ag_auditRoles := r, ag_seedVersion := v\<rparr>"
    using assms unfolding seed_shape_def by blast
  have same: "isPlatformGrantAgent a opts = isPlatformGrantAgent agent opts"
      "isSecurityMetadataAuditAgent a opts = isSecurityMetadataAuditAgent agent opts"
    unfolding a by (rule identity_fields)+
  have m: "''metadata-audit'' \<in> set (ag_auditRoles a) \<longleftrightarrow> ''metadata-audit'' \<in> set (seedManagedAuditRoles a)"
    by (simp add: seedManagedAuditRoles_def)
  have b: "set bootstrap_grant_scopes = {''fleet-ssh'', ''kubeconfig''}" by (simp add: bootstrap_grant_scopes_def)
  consider (platform) "isPlatformGrantAgent agent opts" | (security) "\<not> isPlatformGrantAgent agent opts"
      "isSecurityMetadataAuditAgent agent opts"
    | (base) "\<not> mo_authoritative opts" "hasValidNonAuthoritativeSeedBaseline a"
    | (plain) "plain_roles a"
    using assms unfolding seed_shape_def by (auto split: if_splits)
  then show ?thesis
  proof cases
    case platform
    then show ?thesis using assms b unfolding authority_rooted_def m same by (simp add: seed_shape_def)
  next
    case security
    then show ?thesis using assms unfolding authority_rooted_def m same by (simp add: seed_shape_def)
  next
    case base
    then show ?thesis unfolding authority_rooted_def m
      using same_set [of "ag_grantScopes a"]
      by (auto simp: hasValidNonAuthoritativeSeedBaseline_def split: if_splits)
  next
    case plain
    then show ?thesis unfolding authority_rooted_def m by (simp add: plain_roles_def)
  qed
qed

text \<open>
  C29. The migration always succeeds: the invariants it asserts at its end hold of whatever it
  has seeded, for any persisted agents and any identities.  In its result a built-in grant
  scope or the metadata audit role is held only by one of the fixed identities, verified by
  the platform, or, when the platform was not consulted, seeded before; and the grant scopes
  are then exactly the two of the bootstrap.
\<close>

theorem migration_trust_root:
  "\<exists>r. migrateAgentCredentialGrants sha1_hex env now agents enabledAgentIds opts = Inr r
     \<and> map ag_id (mr_agents r) = map ag_id agents
     \<and> list_all (authority_rooted opts) (mr_agents r)"
proof -
  define at where "at = (case mo_migratedAt opts of None \<Rightarrow> toISOString now | Some t \<Rightarrow> t)"
  define results where "results = map (migrate_agent sha1_hex env enabledAgentIds opts at) agents"
  have shape: "\<exists>cs. seed_shape opts (agent\<lparr>ag_credentials := cs\<rparr>)
      (fst (migrate_agent sha1_hex env enabledAgentIds opts at agent))" for agent
    by (auto simp: migrate_agent_def Let_def split: prod.splits)
      (metis fst_conv seed_has_shape)
  have ok: "seed_invariant opts a = Inr ()" "authority_rooted opts a" if "a \<in> set (map fst results)" for a
    using that shape shape_invariant shape_rooted unfolding results_def by (auto, blast+)
  have ids: "ag_id (fst (migrate_agent sha1_hex env enabledAgentIds opts at agent)) = ag_id agent" for agent
    using shape [of agent] by (auto simp: seed_shape_def)
  have "map_throw f xs = Inr (replicate (length xs) ())" if "\<forall>x \<in> set xs. f x = Inr ()"
    for f :: "agent_info \<Rightarrow> credential_error + unit" and xs using that by (induction xs) auto
  then have "map_throw (seed_invariant opts) (map fst results) = Inr (replicate (length (map fst results)) ())"
    using ok(1) by blast
  moreover have "list_all (authority_rooted opts) (map fst results)"
    using ok(2) unfolding list_all_iff by blast
  moreover have "map ag_id (map fst results) = map ag_id agents"
    by (simp add: results_def ids)
  ultimately show ?thesis
    unfolding migrateAgentCredentialGrants_def assertAgentCredentialPermissionSeedInvariants_def Let_def
      at_def [symmetric] results_def [symmetric] by auto
qed

text \<open>
  A security-lead role that was edited into a record survives the migration, and does so with
  the seed version that marks the record as clean.
\<close>

lemma security_lead_survives:
  assumes "\<not> isTrustedSeedCandidate agent" "ag_auditRoles agent = [''security-lead'']"
  shows "ag_auditRoles (fst (seedAgentCredentialPermissionRoles agent opts)) = [''security-lead'']"
proof -
  have "\<not> isPlatformGrantAgent agent opts" "\<not> isSecurityMetadataAuditAgent agent opts"
      "\<not> isUnverifiedTrustedSeedCandidate agent opts"
    using assms(1) security_not_platform [of "ag_username agent"]
    by (auto simp: isTrustedSeedCandidate_def isPlatformGrantAgent_def isSecurityMetadataAuditAgent_def
        matchesTrustedAgentIdentity_def seed_candidate_def isUnverifiedTrustedSeedCandidate_def
        split: option.splits)
  then show ?thesis using assms
    by (simp add: seedAgentCredentialPermissionRoles_def Let_def breakGlassAuditRoles_def
        seedManagedAuditRoles_def)
qed

text \<open>
  A record that loses its seed version in a pass that could not verify it keeps its break-glass
  role in that pass and loses it in the next one.
\<close>

lemma break_glass_lost_later:
  assumes "isTrustedSeedCandidate agent" "\<not> isPlatformGrantAgent agent opts"
    "\<not> isSecurityMetadataAuditAgent agent opts" "\<not> mo_authoritative opts"
    and "ag_seedVersion agent = Some seed_version" "ag_auditRoles agent = [''security-lead'']"
    "ag_grantScopes agent = [''github'']"
  shows "ag_auditRoles (fst (seedAgentCredentialPermissionRoles agent opts)) = [''security-lead'']"
    "ag_auditRoles (fst (seedAgentCredentialPermissionRoles
       (fst (seedAgentCredentialPermissionRoles agent opts)) opts)) = []"
proof -
  have nb: "\<not> hasValidNonAuthoritativeSeedBaseline agent"
    using assms(7) by (simp add: hasValidNonAuthoritativeSeedBaseline_def sameStringSet_def bootstrap_grant_scopes_def)
  have one: "fst (seedAgentCredentialPermissionRoles agent opts)
      = agent\<lparr>ag_grantScopes := [], ag_auditRoles := [''security-lead''], ag_seedVersion := None\<rparr>"
    using assms nb by (simp add: seedAgentCredentialPermissionRoles_def Let_def versioned_break_glass_def
        breakGlassAuditRoles_def)
  then show "ag_auditRoles (fst (seedAgentCredentialPermissionRoles agent opts)) = [''security-lead'']"
    by simp
  let ?a = "agent\<lparr>ag_grantScopes := [], ag_auditRoles := [''security-lead''], ag_seedVersion := None\<rparr>"
  have "\<not> hasValidNonAuthoritativeSeedBaseline ?a" by (simp add: hasValidNonAuthoritativeSeedBaseline_def)
  then have "fst (seedAgentCredentialPermissionRoles ?a opts)
      = ?a\<lparr>ag_grantScopes := [], ag_auditRoles := [], ag_seedVersion := None\<rparr>"
    using assms(1-4) by (simp add: seedAgentCredentialPermissionRoles_def Let_def versioned_break_glass_def
        identity_fields)
  then show "ag_auditRoles (fst (seedAgentCredentialPermissionRoles
       (fst (seedAgentCredentialPermissionRoles agent opts)) opts)) = []"
    unfolding one by simp
qed

end
