(* ===== verification/CredentialAudit.thy ===== *)
theory CredentialAudit
  imports AgentCredential
begin

text \<open>
  The credential audit log, \<open>src/src/daemon/credential-audit.ts\<close>: the append-only log file, the
  two sidecar indexes by grantor and by grantee, and the queries over both.

  A file of JSON lines is the list of the objects on its lines, and a property that is
  \<open>undefined\<close> reads like an absent one, so writing and reading a line is the identity; torn
  lines are not modelled.  The key index is a file per key, named by the key's digest; here
  it is the function from the key to the lines of its file, empty where there is no file.
  \<open>Date.parse\<close> is the argument \<open>parse_date\<close>.  The file system may fail: an append is given
  whether the log can be written, and after how many of the writes to the indexes it fails.
\<close>

subsection \<open>Events\<close>

definition credential_audit_event_types :: "string list" where
  "credential_audit_event_types = [''grant_issued'', ''grant_staged'', ''grant_revoked'', ''request_opened'',
     ''request_approved'', ''request_denied'', ''request_expired'', ''payload_read'']"

definition audit_retention_ms :: int where
  "audit_retention_ms = 366 * 24 * 60 * 60 * 1000"

text \<open>\<open>SECRET_FIELD_PATTERN.test(key)\<close>: the pattern is a choice of words without regard to case.\<close>

definition secret_field :: "string \<Rightarrow> bool" where
  "secret_field key = list_ex (\<lambda>w. js_includes (js_lower key) (js_lower w))
     [''credentialData'', ''payload'', ''token'', ''secret'', ''password'', ''privateKey'', ''accessKey'',
      ''refreshToken'']"

datatype audit_error =
    UnsupportedEvent jsval
  | LogAppendFailed
  | IndexAppendFailed
  | BadAuditDate string
  | CombinedIndexQuery
  | IndexUnavailable

definition normalizeEventType :: "jsval \<Rightarrow> audit_error + string" where
  "normalizeEventType v = (case v of
      JStr s \<Rightarrow> if s \<in> set credential_audit_event_types then Inr s else Inl (UnsupportedEvent v)
    | _ \<Rightarrow> Inl (UnsupportedEvent v))"

definition date_text :: "(string \<Rightarrow> time option) \<Rightarrow> jsval \<Rightarrow> string option" where
  "date_text parse_date v = (case v of
      JStr s \<Rightarrow> if parse_date s \<noteq> None then Some s else None | _ \<Rightarrow> None)"

definition shift_date :: "(string \<Rightarrow> time option) \<Rightarrow> string \<Rightarrow> int \<Rightarrow> string" where
  "shift_date parse_date s ms = (case parse_date s of None \<Rightarrow> [] | Some t \<Rightarrow> toISOString (t + ms))"

definition copied_field :: "string \<times> jsval \<Rightarrow> bool" where
  "copied_field f \<longleftrightarrow> fst f \<notin> {''id'', ''event'', ''at'', ''retentionExpiresAt''}
     \<and> fst f \<noteq> ''requireAuditIndex'' \<and> \<not> secret_field (fst f) \<and> snd f \<noteq> JUndef"

definition sanitizeAuditEvent ::
  "(string \<Rightarrow> time option) \<Rightarrow> time \<Rightarrow> string \<Rightarrow> jsobj \<Rightarrow> audit_error + jsobj" where
  "sanitizeAuditEvent parse_date now uuid input =
     (let at = (case date_text parse_date (js_get input ''at'') of Some s \<Rightarrow> s | None \<Rightarrow> toISOString now);
          keep = (case date_text parse_date (js_get input ''retentionExpiresAt'') of
              Some s \<Rightarrow> s | None \<Rightarrow> shift_date parse_date at audit_retention_ms);
          key = (case js_get input ''id'' of
              JStr s \<Rightarrow> if js_trim s \<noteq> [] then js_trim s else uuid | _ \<Rightarrow> uuid)
      in and_then (normalizeEventType (js_get input ''event'')) (\<lambda>event.
           Inr ([(''id'', JStr key), (''event'', JStr event), (''at'', JStr at),
                 (''retentionExpiresAt'', JStr keep)] @ filter copied_field input)))"

subsection \<open>Identities and index rows\<close>

datatype audit_side = ByGrantor | ByGrantee

fun side_keys :: "audit_side \<Rightarrow> string list" where
  "side_keys ByGrantor = [''grantorId'', ''grantorAgentId'', ''grantorUsername'', ''actor'',
     ''actorAgentId'', ''actorUsername'']"
| "side_keys ByGrantee = [''granteeId'', ''granteeUsername'', ''targetAgentId'', ''targetAgent'',
     ''targetUsername'']"

definition identities :: "jsobj \<Rightarrow> string list \<Rightarrow> string list" where
  "identities event keys = map js_lower (filter (\<lambda>s. js_trim s \<noteq> [])
     (text_items (concat (map (\<lambda>k. case js_get event k of JArr vs \<Rightarrow> vs | v \<Rightarrow> [v]) keys))))"

definition array_or_undef :: "jsval \<Rightarrow> jsval" where
  "array_or_undef v = (case v of JArr vs \<Rightarrow> v | _ \<Rightarrow> JUndef)"

definition index_row :: "string \<Rightarrow> jsobj \<Rightarrow> jsobj" where
  "index_row key event =
     [(''key'', JStr key), (''eventId'', js_get event ''id''), (''event'', js_get event ''event''),
      (''at'', js_get event ''at''), (''scope'', js_nullish (js_get event ''scope'') JNull),
      (''scopes'', array_or_undef (js_get event ''scopes'')),
      (''customService'', js_get event ''customService''), (''grantId'', js_get event ''grantId''),
      (''requestId'', js_get event ''requestId'')]"

definition index_keys :: "string list \<Rightarrow> string list" where
  "index_keys keys = js_unique (filter (\<lambda>k. k \<noteq> []) (map (\<lambda>k. js_lower (js_trim k)) keys))"

definition credentialAuditIndexEntries :: "string list \<Rightarrow> jsobj \<Rightarrow> (string \<times> jsobj) list" where
  "credentialAuditIndexEntries keys event = map (\<lambda>k. (k, index_row k event)) (index_keys keys)"

definition side_entries :: "audit_side \<Rightarrow> jsobj \<Rightarrow> (string \<times> jsobj) list" where
  "side_entries side event = credentialAuditIndexEntries (identities event (side_keys side)) event"

subsection \<open>The files\<close>

text \<open>
  \<open>au_meta\<close> is the log size of the index metadata, \<open>None\<close> when there is no metadata of the
  current version; \<open>au_flat\<close> is the index file of a side, of which only the existence is ever
  read, and \<open>au_keys\<close> its directory of key files.
\<close>

record audit_files =
  au_log :: "jsobj list option"
  au_meta :: "nat option"
  au_flat :: "audit_side \<Rightarrow> jsobj list option"
  au_keys :: "audit_side \<Rightarrow> (string \<Rightarrow> jsobj list) option"

definition no_files :: audit_files where
  "no_files = \<lparr>au_log = None, au_meta = None, au_flat = (\<lambda>_. None), au_keys = (\<lambda>_. None)\<rparr>"

definition utf8_length :: "string \<Rightarrow> nat" where
  "utf8_length s = sum_list (map (\<lambda>c. if code c < 128 then 1 else 2) s)"

definition line_size :: "jsobj \<Rightarrow> nat" where
  "line_size event = utf8_length (json_of (JObj event)) + 1"

definition log_size :: "jsobj list \<Rightarrow> nat" where
  "log_size log = sum_list (map line_size log)"

definition credentialAuditIndexesCurrent :: "audit_files \<Rightarrow> bool" where
  "credentialAuditIndexesCurrent f = (case au_log f of
      None \<Rightarrow> True
    | Some log \<Rightarrow>
        if au_flat f ByGrantor = None \<or> au_flat f ByGrantee = None then False
        else if au_keys f ByGrantor = None \<or> au_keys f ByGrantee = None then False
        else au_meta f = Some (log_size log))"

definition writeCredentialAuditIndexMeta :: "audit_files \<Rightarrow> audit_files" where
  "writeCredentialAuditIndexMeta f = (case au_log f of
      None \<Rightarrow> f | Some log \<Rightarrow> f\<lparr>au_meta := Some (log_size log)\<rparr>)"

text \<open>The writes of \<open>appendCredentialAuditIndex\<close>, one function on the files each.\<close>

definition rows_of :: "'a list option \<Rightarrow> 'a list" where
  "rows_of r = (case r of None \<Rightarrow> [] | Some rows \<Rightarrow> rows)"

definition append_flat :: "audit_side \<Rightarrow> jsobj list \<Rightarrow> audit_files \<Rightarrow> audit_files" where
  "append_flat side rows f = f\<lparr>au_flat := (au_flat f)(side := Some (rows_of (au_flat f side) @ rows))\<rparr>"

definition make_key_dir :: "audit_side \<Rightarrow> audit_files \<Rightarrow> audit_files" where
  "make_key_dir side f = (case au_keys f side of
      Some m \<Rightarrow> f | None \<Rightarrow> f\<lparr>au_keys := (au_keys f)(side := Some (\<lambda>_. []))\<rparr>)"

definition append_key :: "audit_side \<Rightarrow> string \<times> jsobj \<Rightarrow> audit_files \<Rightarrow> audit_files" where
  "append_key side entry f = (case au_keys f side of
      None \<Rightarrow> f
    | Some m \<Rightarrow> f\<lparr>au_keys := (au_keys f)(side := Some (m(fst entry := m (fst entry) @ [snd entry])))\<rparr>)"

definition appendCredentialAuditIndex :: "audit_side \<Rightarrow> jsobj \<Rightarrow> (audit_files \<Rightarrow> audit_files) list" where
  "appendCredentialAuditIndex side event =
     (let entries = side_entries side event
      in append_flat side [] #
         (if entries = [] then []
          else [append_flat side (map snd entries), make_key_dir side] @ map (append_key side) entries))"

definition index_writes :: "bool \<Rightarrow> jsobj \<Rightarrow> (audit_files \<Rightarrow> audit_files) list" where
  "index_writes current event =
     appendCredentialAuditIndex ByGrantor event @ appendCredentialAuditIndex ByGrantee event
     @ (if current then [writeCredentialAuditIndexMeta] else [])"

definition run_writes :: "(audit_files \<Rightarrow> audit_files) list \<Rightarrow> audit_files \<Rightarrow> audit_files" where
  "run_writes ws f = fold (\<lambda>w f. w f) ws f"

definition append_line :: "jsobj \<Rightarrow> audit_files \<Rightarrow> audit_files" where
  "append_line event f = f\<lparr>au_log := Some (rows_of (au_log f) @ [event])\<rparr>"

text \<open>
  \<open>fault\<close> is the number of index writes that succeed before one throws, if one does.
\<close>

record append_env =
  ae_logWritable :: bool
  ae_fault :: "nat option"

definition appendCredentialAuditEvent ::
  "(string \<Rightarrow> time option) \<Rightarrow> time \<Rightarrow> string \<Rightarrow> append_env \<Rightarrow> jsobj \<Rightarrow> audit_files \<Rightarrow>
   audit_files \<times> (audit_error + jsobj)" where
  "appendCredentialAuditEvent parse_date now uuid env input f =
     (case sanitizeAuditEvent parse_date now uuid input of
        Inl e \<Rightarrow> (f, Inl e)
      | Inr event \<Rightarrow>
          let current = credentialAuditIndexesCurrent f; writes = index_writes current event in
          if \<not> ae_logWritable env then (f, Inl LogAppendFailed)
          else let logged = append_line event f in
            case ae_fault env of
              None \<Rightarrow> (run_writes writes logged, Inr event)
            | Some n \<Rightarrow>
                if length writes \<le> n then (run_writes writes logged, Inr event)
                else (run_writes (take n writes) logged,
                      if js_get input ''requireAuditIndex'' = JBool True then Inl IndexAppendFailed
                      else Inr event))"

definition rebuild_keys :: "audit_side \<Rightarrow> jsobj list \<Rightarrow> string \<Rightarrow> jsobj list" where
  "rebuild_keys side log k =
     map snd (filter (\<lambda>entry. fst entry = k) (concat (map (side_entries side) log)))"

definition rebuildCredentialAuditIndexes :: "audit_files \<Rightarrow> audit_files" where
  "rebuildCredentialAuditIndexes f = (case au_log f of
      None \<Rightarrow> f
    | Some log \<Rightarrow> writeCredentialAuditIndexMeta (f\<lparr>
        au_flat := (\<lambda>side. Some (map snd (concat (map (side_entries side) log)))),
        au_keys := (\<lambda>side. Some (rebuild_keys side log))\<rparr>))"

subsection \<open>Queries\<close>

text \<open>A text of a query that is empty counts as absent, as the code tests its truth.\<close>

record audit_query =
  aq_event :: string
  aq_grantor :: string
  aq_grantee :: string
  aq_scope :: string
  aq_scopes :: "string list"
  aq_customService :: string
  aq_from :: string
  aq_to :: string
  aq_limit :: "int option"
  aq_useIndex :: bool
  aq_requireIndex :: bool

definition no_query :: audit_query where
  "no_query = \<lparr>aq_event = [], aq_grantor = [], aq_grantee = [], aq_scope = [], aq_scopes = [],
     aq_customService = [], aq_from = [], aq_to = [], aq_limit = None, aq_useIndex = False,
     aq_requireIndex = False\<rparr>"

definition parsedDate :: "(string \<Rightarrow> time option) \<Rightarrow> string \<Rightarrow> string \<Rightarrow> audit_error + time option" where
  "parsedDate parse_date v field =
     (if v = [] then Inr None
      else case parse_date v of None \<Rightarrow> Inl (BadAuditDate field) | Some t \<Rightarrow> Inr (Some t))"

definition row_scopes :: "jsobj \<Rightarrow> string list" where
  "row_scopes r = map js_string (filter js_truthy (js_get r ''scope'' #
     (case js_get r ''scopes'' of JArr vs \<Rightarrow> vs | _ \<Rightarrow> [])))"

text \<open>The conditions that \<open>queryMatches\<close> and \<open>indexRowMatches\<close> share.\<close>

definition in_period :: "time option \<Rightarrow> time option \<Rightarrow> time \<Rightarrow> bool" where
  "in_period from to t \<longleftrightarrow> (case from of None \<Rightarrow> True | Some a \<Rightarrow> a \<le> t)
     \<and> (case to of None \<Rightarrow> True | Some b \<Rightarrow> t \<le> b)"

definition fields_match :: "audit_query \<Rightarrow> jsobj \<Rightarrow> bool" where
  "fields_match q r \<longleftrightarrow>
     (aq_event q \<noteq> [] \<longrightarrow> js_get r ''event'' = JStr (aq_event q)) \<and>
     (aq_scope q \<noteq> [] \<longrightarrow> aq_scope q \<in> set (row_scopes r)) \<and>
     (aq_scopes q \<noteq> [] \<longrightarrow> row_scopes r \<noteq> [] \<and> set (row_scopes r) \<subseteq> set (aq_scopes q)) \<and>
     (aq_customService q \<noteq> [] \<longrightarrow> js_get r ''customService'' = JStr (aq_customService q))"

definition queryMatches ::
  "(string \<Rightarrow> time option) \<Rightarrow> jsobj \<Rightarrow> audit_query \<Rightarrow> time option \<Rightarrow> time option \<Rightarrow> bool" where
  "queryMatches parse_date event q from to =
     (case parse_date (js_string (js_get event ''at'')) of
        None \<Rightarrow> False
      | Some t \<Rightarrow> in_period from to t \<and> fields_match q event
          \<and> (aq_grantor q \<noteq> [] \<longrightarrow> js_lower (aq_grantor q) \<in> set (identities event (side_keys ByGrantor)))
          \<and> (aq_grantee q \<noteq> [] \<longrightarrow> js_lower (aq_grantee q) \<in> set (identities event (side_keys ByGrantee))))"

definition row_time :: "(string \<Rightarrow> time option) \<Rightarrow> jsobj \<Rightarrow> time option" where
  "row_time parse_date r = (case js_get r ''at'' of JStr s \<Rightarrow> parse_date s | _ \<Rightarrow> None)"

definition indexRowMatches ::
  "(string \<Rightarrow> time option) \<Rightarrow> jsobj \<Rightarrow> audit_query \<Rightarrow> time option \<Rightarrow> time option \<Rightarrow> bool" where
  "indexRowMatches parse_date r q from to =
     (case js_get r ''key'' of
        JStr k \<Rightarrow> (case row_time parse_date r of
            None \<Rightarrow> False | Some t \<Rightarrow> in_period from to t \<and> fields_match q r)
      | _ \<Rightarrow> False)"

definition side_identity :: "audit_side \<Rightarrow> string \<Rightarrow> jsobj" where
  "side_identity side identity = (case side of
      ByGrantor \<Rightarrow> [(''grantorId'', JStr identity), (''grantorAgentId'', JStr identity),
        (''grantorUsername'', JStr identity)]
    | ByGrantee \<Rightarrow> [(''granteeId'', JStr identity), (''granteeUsername'', JStr identity)])"

text \<open>\<open>uuid\<close> is used for a row whose event has no identifier.\<close>

definition indexedAuditEvent :: "string \<Rightarrow> jsobj \<Rightarrow> audit_side \<Rightarrow> string \<Rightarrow> jsobj" where
  "indexedAuditEvent uuid r side identity =
     [(''id'', case js_get r ''eventId'' of JStr s \<Rightarrow> if js_trim s \<noteq> [] then JStr s else JStr uuid
               | _ \<Rightarrow> JStr uuid),
      (''event'', js_get r ''event''), (''at'', js_get r ''at''), (''retentionExpiresAt'', js_get r ''at''),
      (''scope'', js_get r ''scope''), (''scopes'', js_get r ''scopes''),
      (''customService'', js_get r ''customService''), (''grantId'', js_get r ''grantId''),
      (''requestId'', js_get r ''requestId'')] @ side_identity side identity"

text \<open>
  The walk over the lines of a key file from its end, with the number of events that may still
  be collected.  It stops at a line older than the window, and when the limit is reached.
\<close>

fun tail_scan ::
  "(string \<Rightarrow> time option) \<Rightarrow> string \<Rightarrow> audit_query \<Rightarrow> time option \<Rightarrow> time option \<Rightarrow> nat \<Rightarrow>
   jsobj list \<Rightarrow> jsobj list" where
  "tail_scan parse_date k q from to room [] = []"
| "tail_scan parse_date k q from to room (r # rs) =
     (if (case (from, row_time parse_date r) of (Some a, Some t) \<Rightarrow> t < a | _ \<Rightarrow> False) then []
      else if (case js_get r ''key'' of JStr k' \<Rightarrow> js_lower k' \<noteq> k | _ \<Rightarrow> True)
      then tail_scan parse_date k q from to room rs
      else if indexRowMatches parse_date r q from to
      then (if room \<le> 1 then [r] else r # tail_scan parse_date k q from to (room - 1) rs)
      else if room = 0 then []
      else tail_scan parse_date k q from to room rs)"

definition queryCredentialAuditIndex ::
  "(string \<Rightarrow> time option) \<Rightarrow> string \<Rightarrow> audit_side \<Rightarrow> string \<Rightarrow> audit_query \<Rightarrow> time option \<Rightarrow> time option \<Rightarrow>
   nat \<Rightarrow> audit_files \<Rightarrow> audit_files \<times> (audit_error + jsobj list)" where
  "queryCredentialAuditIndex parse_date uuid side identity q from to limit f =
     (let rebuild = (aq_requireIndex q \<and> \<not> credentialAuditIndexesCurrent f);
          f' = (if rebuild then rebuildCredentialAuditIndexes f else f)
      in if \<not> rebuild \<and> au_flat f' side = None \<and> au_log f' = None then (f', Inr [])
         else if au_flat f' side = None
         then (f', if aq_requireIndex q then Inl IndexUnavailable else Inr [])
         else let k = js_lower identity;
                  rows = (case au_keys f' side of None \<Rightarrow> [] | Some m \<Rightarrow> m (js_lower (js_trim k)))
              in (f', Inr (map (\<lambda>r. indexedAuditEvent uuid r side identity)
                       (rev (tail_scan parse_date k q from to limit (rev rows))))))"

definition query_limit :: "audit_query \<Rightarrow> nat" where
  "query_limit q = nat (min (max (case aq_limit q of None \<Rightarrow> 100 | Some n \<Rightarrow> n) 1) 1000)"

definition queryCredentialAuditLog ::
  "(string \<Rightarrow> time option) \<Rightarrow> string \<Rightarrow> audit_query \<Rightarrow> audit_files \<Rightarrow>
   audit_files \<times> (audit_error + jsobj list)" where
  "queryCredentialAuditLog parse_date uuid q f =
     (case and_then (parsedDate parse_date (aq_from q) ''from'') (\<lambda>from.
             and_then (parsedDate parse_date (aq_to q) ''to'') (\<lambda>to. Inr (from, to))) of
        Inl e \<Rightarrow> (f, Inl e)
      | Inr (from, to) \<Rightarrow>
          let limit = query_limit q in
          if aq_useIndex q \<and> aq_grantor q \<noteq> [] then
            (if aq_grantee q \<noteq> [] then (f, Inl CombinedIndexQuery)
             else queryCredentialAuditIndex parse_date uuid ByGrantor (aq_grantor q) q from to limit f)
          else if aq_useIndex q \<and> aq_grantee q \<noteq> [] then
            queryCredentialAuditIndex parse_date uuid ByGrantee (aq_grantee q) q from to limit f
          else (f, Inr (js_slice_end limit
                 (filter (\<lambda>e. queryMatches parse_date e q from to) (rows_of (au_log f))))))"

definition audit_log_path :: "string \<Rightarrow> environ \<Rightarrow> string" where
  "audit_log_path fallback env = (case env ''SHIZUHA_CREDENTIAL_AUDIT_LOG'' of
      None \<Rightarrow> fallback | Some s \<Rightarrow> if js_trim s \<noteq> [] then js_trim s else fallback)"

text \<open>\<open>recordFleetSshGrantStagedAuditEvent\<close>: the event it hands to the logger.\<close>

definition fleet_staged_event :: "agent_info \<Rightarrow> fleet_grant \<Rightarrow> int \<Rightarrow> string \<Rightarrow> jsobj" where
  "fleet_staged_event agent grant stagedFiles at =
     [(''event'', JStr ''grant_staged''), (''grantId'', JStr (fg_grantId grant)),
      (''granteeId'', JStr (ag_id agent)), (''granteeUsername'', JStr (ag_username agent)),
      (''scope'', JStr ''fleet-ssh''), (''stagedFiles'', JNum stagedFiles), (''at'', JStr at)]"

subsection \<open>The indexes follow the log\<close>

lemma run_writes_append: "run_writes (ws @ vs) f = run_writes vs (run_writes ws f)"
  by (simp add: run_writes_def)

lemma run_writes_simps [simp]: "run_writes [] f = f" "run_writes (w # ws) f = run_writes ws (w f)"
  by (simp_all add: run_writes_def)

text \<open>The files of an index are touched by its own writes only, the log and the metadata by none.\<close>

definition index_write :: "(audit_files \<Rightarrow> audit_files) \<Rightarrow> bool" where
  "index_write w \<longleftrightarrow> (\<forall>f. au_log (w f) = au_log f \<and> au_meta (w f) = au_meta f)"

lemma index_writes_only:
  "\<forall>w \<in> set (appendCredentialAuditIndex side event). index_write w"
  by (auto simp: appendCredentialAuditIndex_def index_write_def append_flat_def make_key_dir_def
      append_key_def Let_def split: option.split)

lemma run_index_writes:
  "\<forall>w \<in> set ws. index_write w \<Longrightarrow> au_log (run_writes ws f) = au_log f \<and> au_meta (run_writes ws f) = au_meta f"
  by (induction ws arbitrary: f) (auto simp: index_write_def)

definition key_map :: "audit_files \<Rightarrow> audit_side \<Rightarrow> string \<Rightarrow> jsobj list" where
  "key_map f side k = (case au_keys f side of None \<Rightarrow> [] | Some m \<Rightarrow> m k)"

lemma run_append_keys:
  "au_keys f side = Some m \<Longrightarrow>
     au_keys (run_writes (map (append_key side) entries) f) =
       (au_keys f)(side := Some (\<lambda>k. m k @ map snd (filter (\<lambda>e. fst e = k) entries)))"
proof (induction entries arbitrary: f m)
  case (Cons e entries)
  let ?m = "m(fst e := m (fst e) @ [snd e])"
  have s: "au_keys (append_key side e f) side = Some ?m"
    using Cons.prems by (simp add: append_key_def)
  have "(\<lambda>k. ?m k @ map snd (filter (\<lambda>e. fst e = k) entries))
      = (\<lambda>k. m k @ map snd (filter (\<lambda>e. fst e = k) (e # entries)))" by auto
  moreover have "(au_keys (append_key side e f))(side := x) = (au_keys f)(side := x)" for x
    using Cons.prems by (auto simp: append_key_def)
  ultimately show ?case using Cons.IH [OF s] by simp
qed auto

lemma run_append_index:
  "au_keys (run_writes (appendCredentialAuditIndex side event) f) =
     (if side_entries side event = [] then au_keys f
      else (au_keys f)(side := Some (\<lambda>k. key_map f side k
             @ map snd (filter (\<lambda>e. fst e = k) (side_entries side event)))))"
proof (cases "side_entries side event = []")
  case False
  let ?g = "make_key_dir side (append_flat side (map snd (side_entries side event)) (append_flat side [] f))"
  have k: "au_keys ?g = (au_keys f)(side := Some (key_map f side))"
    by (auto simp: make_key_dir_def append_flat_def key_map_def fun_eq_iff split: option.split)
  then have s: "au_keys ?g side = Some (key_map f side)" by simp
  from run_append_keys [OF s] k False show ?thesis
    by (simp add: appendCredentialAuditIndex_def Let_def)
qed (simp add: appendCredentialAuditIndex_def append_flat_def)

lemma rebuild_keys_snoc:
  "rebuild_keys side (log @ [e]) k =
     rebuild_keys side log k @ map snd (filter (\<lambda>x. fst x = k) (side_entries side e))"
  by (simp add: rebuild_keys_def)

definition index_ok :: "audit_files \<Rightarrow> bool" where
  "index_ok f \<longleftrightarrow> (case au_log f of
      None \<Rightarrow> au_meta f = None \<and> (\<forall>side. au_keys f side = None \<and> au_flat f side = None)
    | Some log \<Rightarrow> (\<forall>n. au_meta f = Some n \<longrightarrow> n \<le> log_size log \<and> (n = log_size log \<longrightarrow>
        (\<forall>side m. au_keys f side = Some m \<longrightarrow> m = rebuild_keys side log))))"

lemma log_size_snoc: "log_size (log @ [e]) = log_size log + line_size e"
  by (simp add: log_size_def)

lemma line_size_pos: "0 < line_size e"
  by (simp add: line_size_def)

lemma stale_index_ok:
  assumes "index_ok f" "au_log g = Some (rows_of (au_log f) @ [e])" "au_meta g = au_meta f"
  shows "index_ok g"
  using assms line_size_pos [of e]
  by (auto simp: index_ok_def rows_of_def log_size_snoc split: option.splits)

lemma index_step:
  "au_keys (run_writes (appendCredentialAuditIndex side e) f) side = Some m \<Longrightarrow>
     m = (\<lambda>k. key_map f side k @ map snd (filter (\<lambda>x. fst x = k) (side_entries side e)))"
  "side' \<noteq> side \<Longrightarrow> au_keys (run_writes (appendCredentialAuditIndex side e) f) side' = au_keys f side'"
  by (auto simp: run_append_index key_map_def split: if_splits)

lemma appended_keys:
  assumes "au_keys g = au_keys f"
    and h: "h = run_writes (appendCredentialAuditIndex ByGrantor e @ appendCredentialAuditIndex ByGrantee e) g"
    and "index_ok f" "credentialAuditIndexesCurrent f" "au_keys h side = Some m"
  shows "m = rebuild_keys side (rows_of (au_log f) @ [e])"
proof -
  have "key_map f side = rebuild_keys side (rows_of (au_log f))"
  proof (cases "au_log f")
    case None
    then show ?thesis using assms(3)
      by (auto simp: index_ok_def key_map_def rows_of_def rebuild_keys_def fun_eq_iff)
  next
    case (Some log)
    then obtain m where "au_keys f side = Some m" "au_meta f = Some (log_size log)"
      using assms(4) by (cases side) (auto simp: credentialAuditIndexesCurrent_def split: if_splits)
    then show ?thesis using assms(3) Some by (auto simp: index_ok_def key_map_def rows_of_def fun_eq_iff)
  qed
  then have old: "key_map g side k = rebuild_keys side (rows_of (au_log f)) k" for k
    using assms(1) by (auto simp: key_map_def fun_eq_iff)
  let ?g = "run_writes (appendCredentialAuditIndex ByGrantor e) g"
  have "m = (\<lambda>k. key_map g side k @ map snd (filter (\<lambda>x. fst x = k) (side_entries side e)))"
  proof (cases side)
    case ByGrantor
    then have "au_keys ?g ByGrantor = Some m"
      using assms(5) index_step(2) [of ByGrantor ByGrantee e ?g] unfolding h run_writes_append by simp
    from index_step(1) [OF this] show ?thesis using ByGrantor by simp
  next
    case ByGrantee
    have "key_map ?g ByGrantee = key_map g ByGrantee"
      using index_step(2) [of ByGrantee ByGrantor e g] by (simp add: key_map_def fun_eq_iff)
    with index_step(1) [of ByGrantee e ?g m] assms(5) ByGrantee show ?thesis
      unfolding h run_writes_append by simp
  qed
  then show ?thesis by (simp add: fun_eq_iff rebuild_keys_snoc old)
qed

lemma append_index_ok [keeps]:
  assumes "index_ok f"
  shows "index_ok (fst (appendCredentialAuditEvent parse_date now uuid env input f))"
proof (cases "sanitizeAuditEvent parse_date now uuid input")
  case (Inr e)
  let ?ix = "appendCredentialAuditIndex ByGrantor e @ appendCredentialAuditIndex ByGrantee e"
  let ?cur = "credentialAuditIndexesCurrent f" and ?l = "append_line e f"
  have only: "\<forall>w \<in> set ?ix. index_write w" using index_writes_only by auto
  have log: "au_log ?l = Some (rows_of (au_log f) @ [e])" "au_meta ?l = au_meta f" "au_keys ?l = au_keys f"
    by (simp_all add: append_line_def)
  have stale: "index_ok (run_writes (take n ?ix) ?l)" for n
  proof -
    have "\<forall>w \<in> set (take n ?ix). index_write w" using only by (auto dest: in_set_takeD)
    from run_index_writes [OF this, of ?l] log show ?thesis
      by (intro stale_index_ok [OF assms]) auto
  qed
  have full: "index_ok (run_writes (index_writes ?cur e) ?l)"
  proof (cases ?cur)
    case False
    then show ?thesis using stale [of "length ?ix"] by (simp add: index_writes_def)
  next
    case True
    let ?h = "run_writes ?ix ?l"
    have l: "au_log ?h = Some (rows_of (au_log f) @ [e])" using run_index_writes [OF only, of ?l] log by simp
    have k: "au_keys ?h side = Some m \<Longrightarrow> m = rebuild_keys side (rows_of (au_log f) @ [e])" for side m
      using appended_keys [OF log(3) refl assms True] by blast
    have "run_writes (index_writes ?cur e) ?l = writeCredentialAuditIndexMeta ?h"
      using True by (simp add: index_writes_def run_writes_append)
    then show ?thesis using l k by (simp add: index_ok_def writeCredentialAuditIndexMeta_def)
  qed
  have "index_ok (run_writes (take n (index_writes ?cur e)) ?l)" if "n < length (index_writes ?cur e)" for n
  proof -
    have "take n (index_writes ?cur e) = take n ?ix"
      using that by (cases ?cur) (auto simp: index_writes_def)
    then show ?thesis using stale by simp
  qed
  then show ?thesis using Inr full assms
    by (simp add: appendCredentialAuditEvent_def Let_def split: option.split)
qed (simp add: appendCredentialAuditEvent_def assms)

lemma rebuild_index_ok [keeps]: "index_ok f \<Longrightarrow> index_ok (rebuildCredentialAuditIndexes f)"
  by (auto simp: rebuildCredentialAuditIndexes_def writeCredentialAuditIndexMeta_def index_ok_def
      split: option.split)

subsection \<open>An indexed query answers like a scan of the log\<close>

lemma distinct_index_keys: "distinct (index_keys keys)"
  by (simp add: index_keys_def)

lemma filter_key: "distinct ks \<Longrightarrow> filter (\<lambda>x. fst x = k) (map (\<lambda>k. (k, f k)) ks) = (if k \<in> set ks then [(k, f k)] else [])"
  by (induction ks) auto

text \<open>The keys under which the index of a side files an event.\<close>

definition filed_under :: "audit_side \<Rightarrow> jsobj \<Rightarrow> string set" where
  "filed_under side e = set (index_keys (identities e (side_keys side)))"

lemma rebuild_keys_rows:
  "rebuild_keys side log k = map (index_row k) (filter (\<lambda>e. k \<in> filed_under side e) log)"
proof (induction log)
  case (Cons e log)
  have "rebuild_keys side (e # log) k
      = map snd (filter (\<lambda>x. fst x = k) (side_entries side e)) @ rebuild_keys side log k"
    by (simp add: rebuild_keys_def)
  moreover have "filter (\<lambda>x. fst x = k) (side_entries side e)
      = (if k \<in> filed_under side e then [(k, index_row k e)] else [])"
    unfolding side_entries_def credentialAuditIndexEntries_def filed_under_def
    by (rule filter_key [OF distinct_index_keys])
  ultimately show ?case using Cons by simp
qed (simp add: rebuild_keys_def)

lemma index_row_fields:
  "js_get (index_row k e) ''key'' = JStr k" "js_get (index_row k e) ''event'' = js_get e ''event''"
  "js_get (index_row k e) ''at'' = js_get e ''at''" "js_get (index_row k e) ''eventId'' = js_get e ''id''"
  "js_get (index_row k e) ''customService'' = js_get e ''customService''"
  "js_get (index_row k e) ''scope'' = js_nullish (js_get e ''scope'') JNull"
  "js_get (index_row k e) ''scopes'' = array_or_undef (js_get e ''scopes'')"
  "js_get (index_row k e) ''grantId'' = js_get e ''grantId''"
  by (simp_all add: index_row_def js_get_def)

lemma index_row_scopes: "row_scopes (index_row k e) = row_scopes e"
  by (simp add: row_scopes_def index_row_fields js_nullish_def js_truthy_def array_or_undef_def
      split: jsval.split)

lemma index_row_match:
  "fields_match q (index_row k e) = fields_match q e" "row_time parse_date (index_row k e) = row_time parse_date e"
  by (simp_all add: fields_match_def row_time_def index_row_scopes index_row_fields)

text \<open>A log that is in the order of its times, where they are readable.\<close>

definition older :: "(string \<Rightarrow> time option) \<Rightarrow> jsobj \<Rightarrow> jsobj \<Rightarrow> bool" where
  "older parse_date r s \<longleftrightarrow> (case (row_time parse_date r, row_time parse_date s) of
      (Some t, Some u) \<Rightarrow> t \<le> u | _ \<Rightarrow> True)"

definition chronological :: "(string \<Rightarrow> time option) \<Rightarrow> jsobj list \<Rightarrow> bool" where
  "chronological parse_date rows \<longleftrightarrow> sorted_wrt (older parse_date) rows"

definition row_hit :: "(string \<Rightarrow> time option) \<Rightarrow> string \<Rightarrow> audit_query \<Rightarrow> time option \<Rightarrow> time option \<Rightarrow> jsobj \<Rightarrow> bool" where
  "row_hit parse_date k q from to r \<longleftrightarrow>
     (case js_get r ''key'' of JStr k' \<Rightarrow> js_lower k' = k | _ \<Rightarrow> False) \<and> indexRowMatches parse_date r q from to"

lemma before_window_no_hit:
  assumes "row_time parse_date r = Some t" "t < a" "older parse_date s r"
  shows "\<not> row_hit parse_date k q (Some a) to s"
  using assms by (auto simp: row_hit_def indexRowMatches_def in_period_def older_def split: jsval.splits option.splits)

lemma tail_scan_hits:
  assumes "sorted_wrt (\<lambda>r s. older parse_date s r) rs" "1 \<le> room"
  shows "tail_scan parse_date k q from to room rs = take room (filter (row_hit parse_date k q from to) rs)"
  using assms
proof (induction rs arbitrary: room)
  case (Cons r rs)
  show ?case
  proof (cases "\<exists>a t. from = Some a \<and> row_time parse_date r = Some t \<and> t < a")
    case True
    then obtain a t where a: "from = Some a" "row_time parse_date r = Some t" "t < a" by blast
    have "older parse_date r r" using a(2) by (simp add: older_def)
    then have "\<forall>s \<in> set (r # rs). \<not> row_hit parse_date k q from to s"
      using before_window_no_hit [OF a(2,3)] a(1) Cons.prems(1) by auto
    then have "filter (row_hit parse_date k q from to) (r # rs) = []" by (simp add: filter_empty_conv)
    then show ?thesis using a by simp
  next
    case False
    then have stop: "(case (from, row_time parse_date r) of (Some a, Some t) \<Rightarrow> t < a | _ \<Rightarrow> False) = False"
      by (auto split: option.splits)
    have IH: "1 \<le> n \<Longrightarrow> tail_scan parse_date k q from to n rs = take n (filter (row_hit parse_date k q from to) rs)" for n
      using Cons by simp
    let ?key = "case js_get r ''key'' of JStr k' \<Rightarrow> js_lower k' = k | _ \<Rightarrow> False"
    have key: "(case js_get r ''key'' of JStr k' \<Rightarrow> js_lower k' \<noteq> k | _ \<Rightarrow> True) = (\<not> ?key)"
      by (simp split: jsval.split)
    have hit: "row_hit parse_date k q from to r \<longleftrightarrow> ?key \<and> indexRowMatches parse_date r q from to"
      by (simp add: row_hit_def)
    have one: "\<not> room \<le> 1 \<Longrightarrow> take room (r # xs) = r # take (room - 1) xs" for xs
      by (cases room) auto
    have zero: "room \<le> 1 \<Longrightarrow> take room (r # xs) = [r]" for xs
      using Cons.prems(2) by (cases room) auto
    show ?thesis
    proof (cases "row_hit parse_date k q from to r")
      case True
      then show ?thesis
        unfolding tail_scan.simps stop key if_False using IH [of "room - 1"] one zero hit by simp
    next
      case False
      then show ?thesis
        unfolding tail_scan.simps stop key if_False using IH [of room] Cons.prems(2) hit by simp
    qed
  qed
qed simp

lemma rev_take_rev: "rev (take n (rev xs)) = js_slice_end n xs"
  by (simp add: js_slice_end_def take_rev)

lemma lower_idem [simp]: "js_lower (js_lower s) = js_lower s"
proof -
  have "lower_char (lower_char c) = lower_char c" for c
  proof (cases "is_upper c \<or> (192 \<le> code c \<and> code c \<le> 222 \<and> code c \<noteq> 215)")
    case True
    then have "code (char_of (code c + 32)) = code c + 32"
      by (intro code_char_of) (auto simp: is_upper_def)
    then show ?thesis using True by (auto simp: lower_char_def is_upper_def)
  next
    case False
    then have "lower_char c = c" unfolding lower_char_def by (rule if_not_P)
    then show ?thesis by simp
  qed
  then show ?thesis by (simp add: js_lower_def)
qed

lemma lower_Nil [simp]: "js_lower s = [] \<longleftrightarrow> s = []"
  by (simp add: js_lower_def)

lemma lower_ws: "js_ws (lower_char c) = js_ws c"
proof (cases "is_upper c \<or> (192 \<le> code c \<and> code c \<le> 222 \<and> code c \<noteq> 215)")
  case True
  then have "code (char_of (code c + 32)) = code c + 32"
    by (intro code_char_of) (auto simp: is_upper_def)
  then show ?thesis using True by (auto simp: lower_char_def is_upper_def js_ws_def)
next
  case False
  then have "lower_char c = c" unfolding lower_char_def by (rule if_not_P)
  then show ?thesis by simp
qed

lemma lower_trim: "js_trim (js_lower s) = js_lower (js_trim s)"
  by (simp add: js_trim_def js_trim_start_def js_trim_end_def js_lower_def dropWhile_map rev_map
      o_def lower_ws)

text \<open>An event as the log keeps it: its time is a text and its identities have no outer blanks.\<close>

definition tidy_event :: "jsobj \<Rightarrow> bool" where
  "tidy_event e \<longleftrightarrow> (case js_get e ''at'' of JStr s \<Rightarrow> True | _ \<Rightarrow> False) \<and>
     list_all (\<lambda>side. list_all (\<lambda>i. js_trim i = i) (identities e (side_keys side))) [ByGrantor, ByGrantee]"

lemma tidy_identity: "tidy_event e \<Longrightarrow> i \<in> set (identities e (side_keys side)) \<Longrightarrow> js_trim i = i"
  by (cases side) (auto simp: tidy_event_def list_all_iff)

lemma tidy_at: "tidy_event e \<Longrightarrow> \<exists>s. js_get e ''at'' = JStr s"
  by (auto simp: tidy_event_def split: jsval.splits)

lemma tidy_filed:
  assumes "tidy_event e"
  shows "filed_under side e = set (identities e (side_keys side))"
proof -
  have "i \<noteq> [] \<and> js_lower (js_trim i) = i" if i: "i \<in> set (identities e (side_keys side))" for i
  proof -
    have "js_trim i = i" by (rule tidy_identity [OF assms i])
    moreover obtain s where s: "i = js_lower s" "js_trim s \<noteq> []" using i by (auto simp: identities_def)
    moreover have "s \<noteq> []" using s(2) by (auto simp: js_trim_def js_trim_start_def js_trim_end_def)
    ultimately show ?thesis by simp
  qed
  then show ?thesis by (force simp: filed_under_def index_keys_def)
qed

lemma current_keys:
  assumes "index_ok f" "au_log f = Some log" "credentialAuditIndexesCurrent f"
  shows "au_keys f side = Some (rebuild_keys side log) \<and> au_flat f side \<noteq> None"
  using assms by (cases side) (auto simp: index_ok_def credentialAuditIndexesCurrent_def split: if_splits)

lemma rebuilt_keys:
  "au_log f = Some log \<Longrightarrow> au_keys (rebuildCredentialAuditIndexes f) side = Some (rebuild_keys side log)
     \<and> au_flat (rebuildCredentialAuditIndexes f) side \<noteq> None"
  by (simp add: rebuildCredentialAuditIndexes_def writeCredentialAuditIndexMeta_def)

lemma row_hit_event:
  assumes "tidy_event e"
    and "side = ByGrantor \<and> aq_grantor q = identity \<and> aq_grantee q = []
      \<or> side = ByGrantee \<and> aq_grantee q = identity \<and> aq_grantor q = []" "identity \<noteq> []"
  shows "js_lower identity \<in> filed_under side e \<and> row_hit parse_date (js_lower identity) q from to (index_row (js_lower identity) e)
    \<longleftrightarrow> queryMatches parse_date e (q\<lparr>aq_useIndex := False\<rparr>) from to"
proof -
  obtain s where s: "js_get e ''at'' = JStr s" using tidy_at [OF assms(1)] by blast
  have f: "fields_match (q\<lparr>aq_useIndex := False\<rparr>) e = fields_match q e" by (simp add: fields_match_def)
  have t: "row_time parse_date e = parse_date s" using s by (simp add: row_time_def)
  show ?thesis unfolding tidy_filed [OF assms(1)]
    using assms(2,3) s
    by (auto simp: row_hit_def indexRowMatches_def queryMatches_def index_row_fields index_row_match t f
        split: option.splits)
qed

lemma scanned_rows:
  assumes "chronological parse_date log" "list_all tidy_event log" "1 \<le> limit"
    and "side = ByGrantor \<and> aq_grantor q = identity \<and> aq_grantee q = []
      \<or> side = ByGrantee \<and> aq_grantee q = identity \<and> aq_grantor q = []" "identity \<noteq> []"
  shows "rev (tail_scan parse_date (js_lower identity) q from to limit
      (rev (map (index_row (js_lower identity)) (filter (\<lambda>e. js_lower identity \<in> filed_under side e) log))))
    = js_slice_end limit (map (index_row (js_lower identity))
        (filter (\<lambda>e. queryMatches parse_date e (q\<lparr>aq_useIndex := False\<rparr>) from to) log))"
proof -
  let ?k = "js_lower identity"
  let ?rows = "map (index_row ?k) (filter (\<lambda>e. ?k \<in> filed_under side e) log)"
  have old: "older parse_date (index_row ?k r) (index_row ?k s) = older parse_date r s" for r s
    by (simp add: older_def index_row_match)
  have "sorted_wrt (older parse_date) ?rows"
    using assms(1) by (simp add: chronological_def sorted_wrt_map old sorted_wrt_filter)
  then have "sorted_wrt (\<lambda>r s. older parse_date s r) (rev ?rows)" by (simp add: sorted_wrt_rev)
  note scan = tail_scan_hits [OF this assms(3), of ?k q "from" to]
  have "filter (row_hit parse_date ?k q from to) ?rows
      = map (index_row ?k) (filter (\<lambda>e. queryMatches parse_date e (q\<lparr>aq_useIndex := False\<rparr>) from to) log)"
    unfolding filter_map filter_filter o_def
    by (rule arg_cong [of _ _ "map _"], rule filter_cong [OF refl])
      (use assms(2) row_hit_event [OF _ assms(4,5)] in \<open>auto simp: list_all_iff\<close>)
  then show ?thesis unfolding scan rev_filter [symmetric] rev_take_rev by simp
qed


definition sample_parse :: "string \<Rightarrow> time option" where
  "sample_parse s = (if s = ''t1'' then Some 3600000 else if s = ''t2'' then Some 3600500 else None)"

definition sample_row :: "string \<Rightarrow> string \<Rightarrow> string \<Rightarrow> jsobj" where
  "sample_row key at grantee = [(''id'', JStr key), (''event'', JStr ''grant_issued''), (''at'', JStr at),
     (''grantorAgentId'', JStr ''Kai''), (''granteeId'', JStr grantee), (''scope'', JStr ''npm'')]"

text \<open>A log of two rows without index files, as after an upgrade.\<close>

definition sample_files :: audit_files where
  "sample_files = no_files\<lparr>au_log := Some [sample_row ''u1'' ''t1'' ''ichi'', sample_row ''u2'' ''t2'' ''ni'']\<rparr>"

definition sample_query :: audit_query where
  "sample_query = no_query\<lparr>aq_event := ''grant_issued'', aq_grantor := ''Kai'', aq_useIndex := True,
     aq_requireIndex := True\<rparr>"


text \<open>
  The order of the log matters: when the last row of a key is older than the window, as after
  a step of the clock, the walk from the end stops there and finds nothing, whatever rows of
  the window come before it.
\<close>

lemma late_row_hides_earlier:
  assumes "credentialAuditIndexesCurrent f" "au_log f = Some log" "au_keys f side = Some m"
    and "m (js_lower (js_trim (js_lower identity))) = rows @ [late]"
    and "row_time parse_date late = Some t" "t < a"
  shows "snd (queryCredentialAuditIndex parse_date uuid side identity q (Some a) to limit f) = Inr []"
proof -
  have "au_flat f side \<noteq> None"
    using assms(1,2) by (cases side) (auto simp: credentialAuditIndexesCurrent_def split: if_splits)
  then show ?thesis using assms by (auto simp: queryCredentialAuditIndex_def Let_def)
qed

end
