(* ===== verification/BrokerFacts.thy ===== *)
theory BrokerFacts
  imports CredentialBroker
begin

text \<open>
  What holds of every request to the credential broker: who may give whom a credential, what a
  failed request leaves behind, and what a payload costs in the audit log.
\<close>

subsection \<open>How a request changes the records\<close>

lemma list_all2_alter_first:
  assumes "\<And>x. R x x" "\<And>x. x \<in> set xs \<Longrightarrow> p x \<Longrightarrow> R x (f x)"
  shows "list_all2 R xs (alter_first p f xs)"
  using assms(2) by (induction xs) (auto simp: list.rel_refl assms(1))

lemma set_alter_first: "y \<in> set (alter_first p f xs) \<Longrightarrow> y \<in> set xs \<or> (\<exists>x \<in> set xs. p x \<and> y = f x)"
  by (induction xs) (auto split: if_splits)

lemma write_cases:
  assumes "writeAgentsThenAudit env updated events st = (st', r)"
  obtains (unwritten) "st' = st" "r = Inl StoreWriteFailed"
    | (written) s where "emit_events (be_sink env) events 0 (bs_sink st) = (s, None)" "be_writable env 0"
        "st' = st\<lparr>bs_agents := updated, bs_sink := s\<rparr>" "r = Inr ()"
    | (committed) s n where "emit_events (be_sink env) events 0 (bs_sink st) = (s, Some n)" "0 < n" "be_writable env 0"
        "st' = st\<lparr>bs_agents := updated, bs_sink := s\<rparr>" "r = Inl (AuditFailed n)"
    | (rolled) s where "emit_events (be_sink env) events 0 (bs_sink st) = (s, Some 0)" "be_writable env 0"
        "st' = st\<lparr>bs_sink := s\<rparr>" "r = Inl (AuditFailed 0)" "be_writable env 1"
    | (stuck) s where "emit_events (be_sink env) events 0 (bs_sink st) = (s, Some 0)" "be_writable env 0"
        "st' = st\<lparr>bs_agents := updated, bs_sink := s\<rparr>" "r = Inl (AuditFailed 0)" "\<not> be_writable env 1"
  using assms unfolding writeAgentsThenAudit_def
  by (auto split: if_splits prod.splits option.splits)

lemma write_agents:
  "writeAgentsThenAudit env updated events st = (st', r) \<Longrightarrow> bs_agents st' = bs_agents st \<or> bs_agents st' = updated"
  by (erule write_cases) auto

lemma write_failed:
  "writeAgentsThenAudit env updated events st = (st', Inl e) \<Longrightarrow> auditCommittedEventCount e = 0 \<Longrightarrow>
     be_writable env 1 \<Longrightarrow> bs_agents st' = bs_agents st"
  by (erule write_cases) (auto simp: auditCommittedEventCount_def)

lemma set_tokens_agents [simp]: "bs_agents (set_tokens k n st) = bs_agents st" "bs_sink (set_tokens k n st) = bs_sink st"
  by (auto simp: set_tokens_def split: option.splits)

lemma rollback_agents [simp]: "bs_agents (rollback_reservation cfg r st) = bs_agents st"
    "bs_sink (rollback_reservation cfg r st) = bs_sink st"
  by (simp_all add: rollback_reservation_def)

lemma fire_alert_agents:
  "bs_agents (fst (fireCredentialGrantCircuitBreakerAlert alert k now acc)) = bs_agents (fst acc)"
  "bs_sink (fst (fireCredentialGrantCircuitBreakerAlert alert k now acc)) = bs_sink (fst acc)"
  by (simp_all add: fireCredentialGrantCircuitBreakerAlert_def Let_def)

lemma fire_alerts_agents:
  "bs_agents (fst (foldl (\<lambda>acc (alert, key, u). fireCredentialGrantCircuitBreakerAlert alert key now acc) acc alerts))
     = bs_agents (fst acc)"
  "bs_sink (fst (foldl (\<lambda>acc (alert, key, u). fireCredentialGrantCircuitBreakerAlert alert key now acc) acc alerts))
     = bs_sink (fst acc)"
  by (induction alerts arbitrary: acc) (auto simp: fire_alert_agents)

lemma check_windows_agents:
  "bs_agents (fst (check_windows parse_date cfg now at caller grantee scope service events st)) = bs_agents st"
  "bs_sink (fst (check_windows parse_date cfg now at caller grantee scope service events st)) = bs_sink st"
  unfolding check_windows_def Let_def
  by (simp_all add: case_prod_unfold fire_alerts_agents [unfolded case_prod_unfold])

lemma reserve_tokens_agents:
  "bs_agents (fst (reserve_tokens parse_date cfg now at caller grantee scope service events st)) = bs_agents st"
  "bs_sink (fst (reserve_tokens parse_date cfg now at caller grantee scope service events st)) = bs_sink st"
  by (auto simp: reserve_tokens_def Let_def split: sum.splits prod.splits)

lemma enforce_cases:
  assumes "enforceCredentialGrantRateLimits env caller grantee scope service st = (st', effects, r)"
  obtains (off) "\<not> rc_enabled (be_config env)" "st' = st" "effects = []" "r = Inr no_reservation"
    | (unanswered) s e where "st' = st\<lparr>bs_sink := s\<rparr>" "effects = []" "r = Inl e"
        "credentialGrantRateWindowEvents (be_sink env) (toISOString (be_clock env AtRateLimit - 60 * 60000))
           (toISOString (be_clock env AtRateLimit)) caller grantee scope service (bs_sink st) = (s, Inl e)"
    | (windows) s events e where "rc_enabled (be_config env)"
        "credentialGrantRateWindowEvents (be_sink env) (toISOString (be_clock env AtRateLimit - 60 * 60000))
           (toISOString (be_clock env AtRateLimit)) caller grantee scope service (bs_sink st) = (s, Inr events)"
        "check_windows (be_parse env) (be_config env) (be_clock env AtRateLimit)
           (toISOString (be_clock env AtRateLimit)) caller grantee scope service events (st\<lparr>bs_sink := s\<rparr>)
           = (st', effects, Inl e)" "r = Inl e"
    | (passed) s events st1 where "rc_enabled (be_config env)"
        "credentialGrantRateWindowEvents (be_sink env) (toISOString (be_clock env AtRateLimit - 60 * 60000))
           (toISOString (be_clock env AtRateLimit)) caller grantee scope service (bs_sink st) = (s, Inr events)"
        "check_windows (be_parse env) (be_config env) (be_clock env AtRateLimit)
           (toISOString (be_clock env AtRateLimit)) caller grantee scope service events (st\<lparr>bs_sink := s\<rparr>)
           = (st1, effects, Inr ())"
        "reserve_tokens (be_parse env) (be_config env) (be_clock env AtRateLimit)
           (toISOString (be_clock env AtRateLimit)) caller grantee scope service events st1 = (st', r)"
  using assms unfolding enforceCredentialGrantRateLimits_def Let_def
  by (auto split: if_splits prod.splits sum.splits)

lemma enforce_agents:
  assumes "enforceCredentialGrantRateLimits env caller grantee scope service st = (st', effects, r)"
  shows "bs_agents st' = bs_agents st"
  using assms
proof (cases rule: enforce_cases)
  case (windows s events e)
  show ?thesis
    using arg_cong [OF windows(3), of "\<lambda>x. bs_agents (fst x)"] by (simp add: check_windows_agents)
next
  case (passed s events st1)
  have "bs_agents st1 = bs_agents st"
    using arg_cong [OF passed(3), of "\<lambda>x. bs_agents (fst x)"] by (simp add: check_windows_agents)
  moreover have "bs_agents st' = bs_agents st1"
    using arg_cong [OF passed(4), of "\<lambda>x. bs_agents (fst x)"] by (simp add: reserve_tokens_agents)
  ultimately show ?thesis by simp
qed auto

subsection \<open>Who may give a credential to whom\<close>

text \<open>
  \<open>fresh_only ok as bs\<close>: the records \<open>bs\<close> are the records \<open>as\<close>, in order and with their ids, and
  an active credential that a record did not have before satisfies \<open>ok\<close>.
\<close>

definition fresh_only :: "(agent_info \<Rightarrow> agent_credential \<Rightarrow> bool) \<Rightarrow> agent_info \<Rightarrow> agent_info \<Rightarrow> bool" where
  "fresh_only ok a b \<longleftrightarrow> ag_id b = ag_id a \<and>
     (\<forall>c \<in> set (ag_credentials b). ac_isActive c \<longrightarrow> c \<in> set (ag_credentials a) \<or> ok b c)"

lemma fresh_refl: "fresh_only ok a a"
  by (simp add: fresh_only_def)

lemma fresh_agents: "list_all2 (fresh_only ok) as as"
  by (simp add: list.rel_refl fresh_refl)

lemma fresh_weaken: "fresh_only (\<lambda>_ _. False) a b \<Longrightarrow> fresh_only ok a b"
  by (auto simp: fresh_only_def)

text \<open>Who may put an active credential into the record of an agent, and by which action.\<close>

definition may_issue :: "string \<Rightarrow> socket_kind \<Rightarrow> agent_info \<Rightarrow> agent_info \<Rightarrow> agent_credential \<Rightarrow> bool" where
  "may_issue action kind caller a c \<longleftrightarrow> ac_grantorId c = Some (grantorIdFor caller) \<and>
     (action = ''upsert_self_credential'' \<and> ag_id a = ag_id caller \<and> ac_scope c = JStr ''custom''
      \<or> action = ''grant_credential'' \<and> kind = GrantSocket \<and>
        (\<exists>scope. ac_scope c = JStr scope \<and> scope \<in> set agent_credential_scopes
           \<and> hasGrantPermission caller scope (ac_customService c) = Inr True))"

lemma finish_agents:
  assumes "finish_write (writeAgentsThenAudit env updated events st) effects reply = (st', out)"
    and "list_all2 (fresh_only ok) (bs_agents st) updated"
  shows "list_all2 (fresh_only ok) (bs_agents st) (bs_agents st')"
proof -
  obtain w r where w: "writeAgentsThenAudit env updated events st = (w, r)" by fastforce
  then have "st' = w" using assms(1) by (auto simp: finish_write_def split: sum.splits)
  then show ?thesis using write_agents [OF w] assms(2) by (auto simp: fresh_agents)
qed

lemma same_agents: "bs_agents st' = bs_agents st \<Longrightarrow> list_all2 (fresh_only ok) (bs_agents st) (bs_agents st')"
  by (simp add: fresh_agents)

lemma alter_fresh:
  "(\<And>a. a \<in> set as \<Longrightarrow> p a \<Longrightarrow> fresh_only ok a (f a)) \<Longrightarrow> list_all2 (fresh_only ok) as (alter_first p f as)"
  by (rule list_all2_alter_first) (auto simp: fresh_refl)

lemma request_fresh:
  "request_credential env caller request st = (st', out) \<Longrightarrow> list_all2 (fresh_only ok) (bs_agents st) (bs_agents st')"
  unfolding request_credential_def Let_def refuse_def
  by (auto split: sum.splits prod.splits if_splits intro!: same_agents
      elim!: finish_agents intro!: alter_fresh simp: fresh_only_def)

lemma upsert_fresh:
  assumes "upsert_self_credential env caller request st = (st', out)"
  shows "list_all2 (fresh_only (may_issue ''upsert_self_credential'' kind caller)) (bs_agents st) (bs_agents st')"
  using assms unfolding upsert_self_credential_def refuse_def
  by (auto split: sum.splits prod.splits option.splits intro!: same_agents elim!: finish_agents
      intro!: alter_fresh dest!: set_alter_first
      simp: fresh_only_def may_issue_def self_credential_def and_then_Inr)

lemma check_grant_facts:
  assumes "check_grant env kind caller request agents = Inr g"
  shows "kind = GrantSocket" "go_scope g \<in> set agent_credential_scopes"
    "hasGrantPermission caller (go_scope g) (go_service g) = Inr True"
    "findAgent agents (go_granteeRef g) = Some (go_grantee g)"
  using assms unfolding check_grant_def by (auto simp: and_then_Inr split: option.splits if_splits)

lemma grant_fresh:
  assumes "grant_credential env kind caller request st = (st', out)"
  shows "list_all2 (fresh_only (may_issue ''grant_credential'' kind caller)) (bs_agents st) (bs_agents st')"
proof (cases "check_grant env kind caller request (bs_agents st)")
  case (Inr g)
  note facts = check_grant_facts [OF Inr]
  obtain st1 effects r where e: "enforceCredentialGrantRateLimits env caller (go_grantee g) (go_scope g) (go_service g) st
      = (st1, effects, r)" by (metis prod_cases3)
  note ag = enforce_agents [OF e]
  show ?thesis
  proof (cases r)
    case (Inr res)
    let ?c = "granted_credential env caller g"
    let ?up = "alter_first (\<lambda>a. ag_id a = go_granteeRef g \<or> ag_username a = go_granteeRef g \<or> ag_email a = go_granteeRef g)
        (add_grant (go_scope g) ?c) (bs_agents st1)"
    obtain st2 w where w: "writeAgentsThenAudit env ?up (grant_events caller g ?c (rs_metadata res)
        (rc_enabled (be_config env)) (toISOString (be_clock env AtRecord))) st1 = (st2, w)" by fastforce
    have "bs_agents st' = bs_agents st2"
      using assms \<open>check_grant _ _ _ _ _ = _\<close> e Inr w
      by (auto simp: grant_credential_def Let_def split: sum.splits if_splits)
    moreover have "may_issue ''grant_credential'' kind caller a ?c" for a
      using facts by (auto simp: may_issue_def granted_credential_def)
    then have "list_all2 (fresh_only (may_issue ''grant_credential'' kind caller)) (bs_agents st1) ?up"
      by (intro alter_fresh) (auto simp: fresh_only_def add_grant_def)
    ultimately show ?thesis using write_agents [OF w] ag by (auto simp: fresh_agents)
  qed (use assms Inr e ag in \<open>auto simp: grant_credential_def fresh_agents\<close>)
qed (use assms in \<open>auto simp: grant_credential_def refuse_def fresh_agents\<close>)

lemma list_fresh:
  "list_credentials env kind caller request st = (st', out) \<Longrightarrow> list_all2 (fresh_only ok) (bs_agents st) (bs_agents st')"
  unfolding list_credentials_def refuse_def
  by (auto split: sum.splits prod.splits option.splits if_splits intro!: same_agents)

lemma revoke_fresh:
  "revoke_credential env kind caller request st = (st', out) \<Longrightarrow> list_all2 (fresh_only ok) (bs_agents st) (bs_agents st')"
  unfolding revoke_credential_def refuse_def
  by (auto split: sum.splits prod.splits intro!: same_agents elim!: finish_agents intro!: alter_fresh
      dest!: set_alter_first simp: fresh_only_def deactivate_def)

lemma deny_fresh:
  "deny_request env kind caller request st = (st', out) \<Longrightarrow> list_all2 (fresh_only ok) (bs_agents st) (bs_agents st')"
  unfolding deny_request_def refuse_def
  by (auto split: sum.splits prod.splits intro!: same_agents elim!: finish_agents intro!: alter_fresh
      simp: fresh_only_def set_denied_def)

lemma expire_fresh:
  "expire_requests env kind caller st = (st', out) \<Longrightarrow> list_all2 (fresh_only ok) (bs_agents st) (bs_agents st')"
  unfolding expire_requests_def refuse_def Let_def
  by (auto split: sum.splits intro!: same_agents elim!: finish_agents
      simp: fresh_only_def list_all2_map2 intro!: list.rel_refl)

lemma query_fresh:
  "query_audit env kind caller request st = (st', out) \<Longrightarrow> list_all2 (fresh_only ok) (bs_agents st) (bs_agents st')"
  unfolding query_audit_def refuse_def
  by (auto split: sum.splits prod.splits option.splits intro!: same_agents)

lemma handle_fresh:
  assumes "handleCredentialBrokerRequest env kind caller action request st = (st', out)"
  shows "list_all2 (fresh_only (may_issue action kind caller)) (bs_agents st) (bs_agents st')"
  using assms unfolding handleCredentialBrokerRequest_def
  by (auto split: if_splits simp: refuse_def fresh_agents
      elim: request_fresh upsert_fresh grant_fresh list_fresh revoke_fresh deny_fresh expire_fresh query_fresh)

lemma all2_right: "list_all2 P xs ys \<Longrightarrow> y \<in> set ys \<Longrightarrow> \<exists>x \<in> set xs. P x y"
  by (induction rule: list_all2_induct) auto

text \<open>
  C2. No request can give an agent a credential without authority.  Whatever a request over
  either socket does, and wherever it fails, every active credential that an agent's record
  holds afterwards and did not hold before was issued in the caller's own name, and either
  stored by the caller in its own record with the custom scope, or granted over the grant
  socket by a caller that may grant that scope, or that custom service.
\<close>

theorem issue_needs_authority:
  assumes "serve_request env kind bound peerUid action request st = (st', effects, out)"
    and "a' \<in> set (bs_agents st')" "c \<in> set (ag_credentials a')" "ac_isActive c"
    and "\<forall>a \<in> set (bs_agents st). ag_id a = ag_id a' \<longrightarrow> c \<notin> set (ag_credentials a)"
  shows "\<exists>caller. peerAgentFor bound peerUid (bs_agents st) = Some caller \<and> may_issue action kind caller a' c"
proof (cases "peerAgentFor bound peerUid (bs_agents st)")
  case None
  then have "bs_agents st' = bs_agents st" using assms(1) by (auto simp: serve_request_def refuse_def)
  then show ?thesis using assms by auto
next
  case (Some caller)
  then have "handleCredentialBrokerRequest env kind caller action request st = (st', effects, out)"
    using assms(1) by (simp add: serve_request_def)
  from all2_right [OF handle_fresh [OF this] assms(2)] obtain a where "a \<in> set (bs_agents st)"
      "fresh_only (may_issue action kind caller) a a'" by blast
  then have "may_issue action kind caller a' c" using assms(3-5) by (auto simp: fresh_only_def)
  then show ?thesis using Some by blast
qed

subsection \<open>Records and audit rows go together\<close>

text \<open>A row that the sink has committed, whether it then throws or not.\<close>

definition accepted :: "'s sink_ops \<Rightarrow> jsobj \<Rightarrow> 's \<Rightarrow> bool" where
  "accepted sink row s \<longleftrightarrow> snd (so_record sink row s) \<noteq> Some 0"

lemma emit_first:
  assumes "emit_events sink (row # rows) 0 s = (s', r)" "r \<noteq> Some 0"
  shows "accepted sink row s"
  using assms by (auto simp: accepted_def split: prod.splits option.splits)

definition row_of :: "string set \<Rightarrow> string \<Rightarrow> agent_info \<Rightarrow> jsobj \<Rightarrow> bool" where
  "row_of events key caller row \<longleftrightarrow> (\<exists>e \<in> events. js_get row ''event'' = JStr e) \<and> js_get row key = JStr (ag_id caller)"

text \<open>The events of the first row that an action writes when it changes a record.\<close>

definition action_events :: "string \<Rightarrow> string set" where
  "action_events action =
     (if action = ''request_credential'' then {''request_opened''}
      else if action = ''upsert_self_credential'' then {''grant_revoked'', ''grant_issued''}
      else if action = ''grant_credential'' then {''grant_issued''}
      else if action = ''revoke_credential'' then {''grant_revoked''}
      else if action = ''deny_request'' then {''request_denied''}
      else {''request_expired''})"

definition actor_key :: "string \<Rightarrow> string" where
  "actor_key action = (if action = ''request_credential'' then ''granteeId'' else ''grantorAgentId'')"

text \<open>What a request promises of the records, given how it ended.\<close>

definition kept_or_audited ::
  "'s broker_env \<Rightarrow> string \<Rightarrow> agent_info \<Rightarrow> 's broker_state \<Rightarrow> 's broker_result \<Rightarrow> bool" where
  "kept_or_audited env action caller st result = (case result of (st', effects, out) \<Rightarrow>
     (case out of
        Inl e \<Rightarrow> auditCommittedEventCount e = 0 \<and> be_writable env 1 \<longrightarrow>
          bs_agents st' = bs_agents st \<and> (\<forall>k c. InjectableGranted k c \<notin> set effects \<and> InjectableRevoked k c \<notin> set effects)
      | Inr reply \<Rightarrow> bs_agents st' \<noteq> bs_agents st \<longrightarrow>
          (\<exists>row s. row_of (action_events action) (actor_key action) caller row \<and> accepted (be_sink env) row s)))"

lemma refuse_kept: "kept_or_audited env action caller st (refuse e st)"
  by (simp add: kept_or_audited_def refuse_def)

lemma finish_kept:
  assumes "\<And>row rest. events = row # rest \<Longrightarrow> row_of (action_events action) (actor_key action) caller row"
    and "events = [] \<Longrightarrow> updated = bs_agents st"
  shows "kept_or_audited env action caller st (finish_write (writeAgentsThenAudit env updated events st) effects reply)"
proof -
  obtain w r where w: "writeAgentsThenAudit env updated events st = (w, r)" by fastforce
  show ?thesis
  proof (cases r)
    case (Inl e)
    then show ?thesis using write_failed w by (auto simp: kept_or_audited_def finish_write_def)
  next
    case (Inr u)
    then obtain s where s: "emit_events (be_sink env) events 0 (bs_sink st) = (s, None)"
        "w = st\<lparr>bs_agents := updated, bs_sink := s\<rparr>" using w by (auto elim: write_cases)
    show ?thesis
    proof (cases events)
      case Nil
      then show ?thesis using w Inr s(2) assms(2) by (simp add: kept_or_audited_def finish_write_def)
    next
      case (Cons row rows)
      then have "accepted (be_sink env) row (bs_sink st)" using s(1) emit_first by fastforce
      then show ?thesis using w Inr assms(1) [OF Cons] by (auto simp: kept_or_audited_def finish_write_def)
    qed
  qed
qed

lemma request_kept: "kept_or_audited env ''request_credential'' caller st (request_credential env caller request st)"
  unfolding request_credential_def Let_def
  by (auto split: sum.split prod.split intro!: refuse_kept finish_kept
      simp: row_of_def action_events_def actor_key_def js_get_def subject_fields_def)

lemma upsert_kept: "kept_or_audited env ''upsert_self_credential'' caller st (upsert_self_credential env caller request st)"
  unfolding upsert_self_credential_def
  by (auto split: sum.split prod.split option.split intro!: refuse_kept finish_kept
      simp: row_of_def action_events_def actor_key_def js_get_def actor_fields_def upsert_events_def
      split: option.splits)

lemma revoke_kept: "kept_or_audited env ''revoke_credential'' caller st (revoke_credential env kind caller request st)"
  unfolding revoke_credential_def
  by (auto split: sum.split prod.split intro!: refuse_kept finish_kept
      simp: row_of_def action_events_def actor_key_def js_get_def actor_fields_def)

lemma deny_kept: "kept_or_audited env ''deny_request'' caller st (deny_request env kind caller request st)"
  unfolding deny_request_def
  by (auto split: sum.split prod.split intro!: refuse_kept finish_kept
      simp: row_of_def action_events_def actor_key_def js_get_def actor_fields_def)

lemma grant_events_row:
  "grant_events caller g c metadata b at = row # rest \<Longrightarrow> row_of {''grant_issued''} ''grantorAgentId'' caller row"
  "grant_events caller g c metadata b at \<noteq> []"
  by (auto simp: grant_events_def row_of_def js_get_def actor_fields_def)

lemma fire_alerts_effects:
  "set (snd acc) \<subseteq> range CircuitBreakerAlert \<Longrightarrow>
     set (snd (foldl (\<lambda>acc (alert, key, u). fireCredentialGrantCircuitBreakerAlert alert key now acc) acc alerts))
       \<subseteq> range CircuitBreakerAlert"
proof (induction alerts arbitrary: acc)
  case (Cons x alerts)
  obtain alert key u where x: "x = (alert, key, u)" by (cases x)
  have "set (snd (fireCredentialGrantCircuitBreakerAlert alert key now acc)) \<subseteq> range CircuitBreakerAlert"
    using Cons.prems by (auto simp: fireCredentialGrantCircuitBreakerAlert_def Let_def)
  from Cons.IH [OF this] show ?case by (simp add: x)
qed simp

lemma window_effects:
  assumes "check_windows parse_date cfg now at caller grantee scope service events st = (st', effects, r)"
  shows "InjectableGranted k c \<notin> set effects" "InjectableRevoked k c \<notin> set effects"
proof -
  have fired: "set eff \<subseteq> range CircuitBreakerAlert" if "foldl (\<lambda>acc (alert, key, u).
      fireCredentialGrantCircuitBreakerAlert alert key now acc) (st, []) alerts = (s, eff)" for alerts s eff
    using fire_alerts_effects [where acc = "(st, [])" and alerts = alerts and now = now] unfolding that by simp
  have "set effects \<subseteq> range CircuitBreakerAlert"
    using assms unfolding check_windows_def Let_def
    by (simp only: if_distrib split: if_splits prod.split_asm; use fired in fastforce)
  then show "InjectableGranted k c \<notin> set effects" "InjectableRevoked k c \<notin> set effects" by auto
qed

lemma enforce_effects:
  assumes "enforceCredentialGrantRateLimits env caller grantee scope service st = (st', effects, r)"
  shows "InjectableGranted k c \<notin> set effects" "InjectableRevoked k c \<notin> set effects"
  using assms by (cases rule: enforce_cases; auto dest: window_effects)+

lemma grant_kept: "kept_or_audited env ''grant_credential'' caller st (grant_credential env kind caller request st)"
proof (cases "check_grant env kind caller request (bs_agents st)")
  case (Inl e)
  then show ?thesis by (simp add: grant_credential_def refuse_kept)
next
  case ok: (Inr g)
  obtain st1 effects r where e: "enforceCredentialGrantRateLimits env caller (go_grantee g) (go_scope g) (go_service g) st
      = (st1, effects, r)" by (metis prod_cases3)
  note ag = enforce_agents [OF e] and eff = enforce_effects [OF e]
  show ?thesis
  proof (cases r)
    case (Inl err)
    then show ?thesis using ok e ag eff by (simp add: grant_credential_def kept_or_audited_def)
  next
    case (Inr res)
    let ?c = "granted_credential env caller g"
    let ?up = "alter_first (\<lambda>a. ag_id a = go_granteeRef g \<or> ag_username a = go_granteeRef g \<or> ag_email a = go_granteeRef g)
        (add_grant (go_scope g) ?c) (bs_agents st1)"
    let ?rows = "grant_events caller g ?c (rs_metadata res) (rc_enabled (be_config env)) (toISOString (be_clock env AtRecord))"
    obtain st2 w where w: "writeAgentsThenAudit env ?up ?rows st1 = (st2, w)" by fastforce
    obtain row rest where rows: "?rows = row # rest" using grant_events_row(2) by (meson neq_Nil_conv)
    have row: "row_of (action_events ''grant_credential'') (actor_key ''grant_credential'') caller row"
      using grant_events_row(1) [OF rows] by (simp add: action_events_def actor_key_def)
    have acc: "accepted (be_sink env) row (bs_sink st1)" if "w = Inr () \<or> (\<exists>e. w = Inl e \<and> auditCommittedEventCount e \<noteq> 0)"
      using w unfolding rows
    proof (cases rule: write_cases)
      case unwritten
      then show ?thesis using that by (auto simp: auditCommittedEventCount_def)
    next
      case written
      then show ?thesis using emit_first by fastforce
    next
      case (committed s n)
      then show ?thesis using emit_first by fastforce
    next
      case rolled
      then show ?thesis using that by (auto simp: auditCommittedEventCount_def)
    next
      case stuck
      then show ?thesis using that by (auto simp: auditCommittedEventCount_def)
    qed
    show ?thesis
    proof (cases "\<exists>e. w = Inl e \<and> auditCommittedEventCount e = 0")
      case True
      then obtain e' where e': "w = Inl e'" "auditCommittedEventCount e' = 0" by blast
      have "grant_credential env kind caller request st = (rollback_reservation (be_config env) res st2, effects, Inl e')"
        using ok e Inr w e' by (simp add: grant_credential_def Let_def)
      then show ?thesis using write_failed [OF w [unfolded e'(1)] e'(2)] ag eff
        by (simp add: kept_or_audited_def)
    next
      case False
      then have "w = Inr () \<or> (\<exists>e. w = Inl e \<and> auditCommittedEventCount e \<noteq> 0)" by (cases w) auto
      note a = acc [OF this]
      have "\<exists>out. grant_credential env kind caller request st = (st2, out) \<and> (\<exists>x. snd out = Inr x)"
        using ok e Inr w False by (cases w) (auto simp: grant_credential_def Let_def)
      then obtain eff x where "grant_credential env kind caller request st = (st2, eff, Inr x)" by (metis prod.collapse)
      moreover have "\<exists>row s. row_of (action_events ''grant_credential'') (actor_key ''grant_credential'') caller row
          \<and> accepted (be_sink env) row s" using a row by blast
      ultimately show ?thesis by (simp add: kept_or_audited_def)
    qed
  qed
qed

lemma list_kept: "kept_or_audited env action caller st (list_credentials env kind caller request st)"
  unfolding list_credentials_def
  by (auto split: sum.split prod.split option.split simp: refuse_def kept_or_audited_def)

lemma query_kept: "kept_or_audited env action caller st (query_audit env kind caller request st)"
  unfolding query_audit_def
  by (auto split: sum.split prod.split option.split simp: refuse_def kept_or_audited_def)

lemma expire_row:
  "expire_events caller due at agents = row # rest \<Longrightarrow> row_of {''request_expired''} ''grantorAgentId'' caller row"
proof -
  assume "expire_events caller due at agents = row # rest"
  then have "row \<in> set (expire_events caller due at agents)" by simp
  then show ?thesis by (auto simp: expire_events_def row_of_def js_get_def actor_fields_def)
qed

lemma expire_none:
  assumes "expire_events caller due at agents = []"
  shows "map (\<lambda>a. a\<lparr>ag_requests := map (\<lambda>r. if due r then f r else r) (ag_requests a)\<rparr>) agents = agents"
proof -
  have "\<forall>a \<in> set agents. \<forall>r \<in> set (ag_requests a). \<not> due r"
    using assms by (auto simp: expire_events_def filter_empty_conv)
  then have "map (\<lambda>r. if due r then f r else r) (ag_requests a) = ag_requests a" if "a \<in> set agents" for a
    using that by (auto intro: map_idI)
  then show ?thesis by (auto intro: map_idI)
qed

lemma expire_kept: "kept_or_audited env ''expire_requests'' caller st (expire_requests env kind caller st)"
proof -
  have "row_of (action_events ''expire_requests'') (actor_key ''expire_requests'') caller row"
    if "expire_events caller due at agents = row # rest" for due at agents row rest
    using expire_row [OF that] by (simp add: action_events_def actor_key_def)
  then show ?thesis unfolding expire_requests_def Let_def
    by (auto split: sum.split intro!: refuse_kept finish_kept expire_none)
qed

lemma handle_kept: "kept_or_audited env action caller st (handleCredentialBrokerRequest env kind caller action request st)"
  unfolding handleCredentialBrokerRequest_def
  by (simp add: refuse_kept request_kept upsert_kept grant_kept list_kept revoke_kept deny_kept expire_kept query_kept)


subsection \<open>Who may read a payload\<close>

lemma active_credentials:
  "c \<in> set (activeCredentials env a) \<Longrightarrow> c \<in> set (ag_credentials a) \<and> ac_isActive c"
  by (auto simp: activeCredentials_def isAgentCredentialGrantCurrentlyActive_def in_set_enumerate_eq split: if_splits)

lemma requireString_Inr:
  "requireString request key = Inr s \<Longrightarrow> s \<noteq> [] \<and> (\<exists>t. js_get request key = JStr t \<and> js_trim t = s)"
  by (auto simp: requireString_def split: jsval.splits if_splits)

lemma find_agent_set: "findAgent agents ref = Some a \<Longrightarrow> a \<in> set agents"
  by (auto simp: findAgent_def find_Some_iff)

lemma peer_agent_set: "peerAgentFor bound peerUid agents = Some a \<Longrightarrow> a \<in> set agents"
proof -
  have "a \<in> set agents" if "defaultUidToAgent u agents = Some a" for u
  proof -
    have "filter (\<lambda>a. ag_peerUid a = Some u) agents = [a]"
      using that by (auto simp: defaultUidToAgent_def split: list.splits)
    then have "a \<in> set (filter (\<lambda>a. ag_peerUid a = Some u) agents)" by simp
    then show ?thesis by simp
  qed
  then show "peerAgentFor bound peerUid agents = Some a \<Longrightarrow> a \<in> set agents"
    by (auto simp: peerAgentFor_def find_Some_iff split: option.splits if_splits)
qed

lemma map_throw_set: "map_throw f xs = Inr ys \<Longrightarrow> x \<in> set xs \<Longrightarrow> \<exists>y \<in> set ys. f x = Inr y"
  by (induction xs arbitrary: ys) (auto simp: and_then_Inr)

lemma check_list_payload:
  assumes "check_list env kind caller request agents = Inr l" "li_mode l = ''payload''"
  shows "kind = GrantSocket" "li_credentials l = activeCredentials env (li_target l)"
    "li_target l = caller \<or> li_target l \<in> set agents"
    "map_throw credential_scope (activeCredentials env (li_target l)) = Inr (li_scopes l)"
    "\<exists>s. requireString request ''reason'' = Inr s"
    "\<exists>scopes. resolveCredentialPayloadReadScopes caller = Inr scopes \<and>
       (\<forall>s \<in> set (li_scopes l). hasPayloadReadPermission scopes s)"
  using assms unfolding check_list_def Let_def
  by (auto simp: and_then_Inr list_all_iff split: option.splits if_splits dest: find_agent_set)

lemma list_payload:
  assumes "list_credentials env kind caller request st = (st', effects, Inr (CredentialListing name mode items requests))"
    and "CredentialPayload c \<in> set items"
  obtains l where "check_list env kind caller request (bs_agents st) = Inr l" "li_mode l = ''payload''"
    "c \<in> set (li_credentials l)"
    "so_record (be_sink env) (payload_event caller l request (toISOString (be_clock env AtRecord))) (bs_sink st)
       = (bs_sink st', None)"
proof -
  obtain l where l: "check_list env kind caller request (bs_agents st) = Inr l"
    using assms(1) by (auto simp: list_credentials_def refuse_def split: sum.splits)
  show ?thesis
  proof (cases "li_mode l = ''payload''")
    case True
    then obtain s where s: "so_record (be_sink env) (payload_event caller l request (toISOString (be_clock env AtRecord)))
        (bs_sink st) = (s, None)" "st' = st\<lparr>bs_sink := s\<rparr>"
        "CredentialListing name mode items requests = listing_reply l"
      using assms(1) l by (auto simp: list_credentials_def split: prod.splits option.splits)
    then have "c \<in> set (li_credentials l)" using assms(2) True by (auto simp: listing_reply_def)
    then show ?thesis using that l True s by simp
  next
    case False
    then show ?thesis using assms l by (auto simp: list_credentials_def listing_reply_def)
  qed
qed

lemma handle_listing:
  assumes "handleCredentialBrokerRequest env kind caller action request st
      = (st', effects, Inr (CredentialListing name mode items requests))"
  shows "action = ''list_credentials'' \<and>
    list_credentials env kind caller request st = (st', effects, Inr (CredentialListing name mode items requests))"
  using assms unfolding handleCredentialBrokerRequest_def
  by (auto simp: refuse_def finish_write_def request_credential_def upsert_self_credential_def grant_credential_def
      revoke_credential_def deny_request_def expire_requests_def query_audit_def Let_def
      split: if_splits sum.splits prod.splits option.splits)

text \<open>A row of the audit log that names who read whose payloads, and why.\<close>

definition names_reader :: "agent_info \<Rightarrow> agent_info \<Rightarrow> jsobj \<Rightarrow> bool" where
  "names_reader caller target row \<longleftrightarrow> js_get row ''event'' = JStr ''payload_read''
     \<and> js_get row ''grantorAgentId'' = JStr (ag_id caller) \<and> js_get row ''targetAgentId'' = JStr (ag_id target)
     \<and> (\<exists>reason. reason \<noteq> [] \<and> js_get row ''reason'' = JStr reason)"

lemma payload_event_names:
  assumes "requireString request ''reason'' = Inr s"
  shows "names_reader caller (li_target l) (payload_event caller l request at)"
  using requireString_Inr [OF assms]
  by (auto simp: names_reader_def payload_event_def js_get_def actor_fields_def subject_fields_def)

text \<open>
  C17. A secret leaves the broker only over the grant socket, to a caller with the authority,
  and after the reading has been recorded.  When an answer holds the payload of a credential,
  the credential is an active one of a stored agent, the caller may read the payloads of the
  scope of every active credential of that agent, and the audit sink has first accepted a
  row that names the caller, the agent and a reason.
\<close>

theorem payload_needs_authority:
  assumes "serve_request env kind bound peerUid action request st
      = (st', effects, Inr (CredentialListing name mode items requests))"
    and "CredentialPayload c \<in> set items"
  shows "kind = GrantSocket \<and> (\<exists>caller target scopes row.
     peerAgentFor bound peerUid (bs_agents st) = Some caller \<and> target \<in> set (bs_agents st)
     \<and> c \<in> set (ag_credentials target) \<and> ac_isActive c
     \<and> resolveCredentialPayloadReadScopes caller = Inr scopes
     \<and> (\<forall>d \<in> set (activeCredentials env target). \<exists>s. credential_scope d = Inr s \<and> hasPayloadReadPermission scopes s)
     \<and> names_reader caller target row \<and> so_record (be_sink env) row (bs_sink st) = (bs_sink st', None))"
proof -
  obtain caller where caller: "peerAgentFor bound peerUid (bs_agents st) = Some caller"
    using assms(1) by (auto simp: serve_request_def refuse_def split: option.splits)
  then have "handleCredentialBrokerRequest env kind caller action request st
      = (st', effects, Inr (CredentialListing name mode items requests))" using assms(1) by (simp add: serve_request_def)
  from handle_listing [OF this] have "list_credentials env kind caller request st
      = (st', effects, Inr (CredentialListing name mode items requests))" by blast
  then obtain l where l: "check_list env kind caller request (bs_agents st) = Inr l" "li_mode l = ''payload''"
      and c: "c \<in> set (li_credentials l)"
      and row: "so_record (be_sink env) (payload_event caller l request (toISOString (be_clock env AtRecord)))
        (bs_sink st) = (bs_sink st', None)"
    using assms(2) by (rule list_payload)
  note f = check_list_payload [OF l]
  obtain reason where "requireString request ''reason'' = Inr reason" using f(5) by blast
  note named = payload_event_names [OF this, of caller l "toISOString (be_clock env AtRecord)"]
  obtain scopes where scopes: "resolveCredentialPayloadReadScopes caller = Inr scopes"
      "\<forall>s \<in> set (li_scopes l). hasPayloadReadPermission scopes s" using f(6) by blast
  have target: "li_target l \<in> set (bs_agents st)" using f(3) peer_agent_set [OF caller] by auto
  have "c \<in> set (ag_credentials (li_target l)) \<and> ac_isActive c" using active_credentials c f(2) by metis
  moreover have "\<forall>d \<in> set (activeCredentials env (li_target l)).
      \<exists>s. credential_scope d = Inr s \<and> hasPayloadReadPermission scopes s"
    using map_throw_set [OF f(4)] scopes(2) by blast
  ultimately show ?thesis using caller target scopes(1) named row f(1) by blast
qed

subsection \<open>Samples\<close>

text \<open>A sink that keeps the rows it is given, and a broker without rate limits at a fixed time.\<close>

definition list_sink :: "jsobj list sink_ops" where
  "list_sink = \<lparr>so_record = \<lambda>e s. (s @ [e], None), so_query = \<lambda>q s. (s, Inr s)\<rparr>"

definition failing_sink :: "jsobj list sink_ops" where
  "failing_sink = \<lparr>so_record = \<lambda>e s. (s, Some 0), so_query = \<lambda>q s. (s, Inr s)\<rparr>"

definition sample_env :: "jsobj list sink_ops \<Rightarrow> jsobj list broker_env" where
  "sample_env sink = \<lparr>be_clock = \<lambda>_. 0, be_uuid = ''u'', be_writable = \<lambda>_. True, be_parse = \<lambda>_. None, be_nfkc = \<lambda>s. s,
     be_config = default_grant_rates\<lparr>rc_enabled := False\<rparr>, be_sink = sink\<rparr>"

definition lead_agent :: agent_info where
  "lead_agent = (plain_agent ''1'' ''l'' ''e'')\<lparr>ag_grantScopes := [''github''], ag_payloadScopes := [''*'']\<rparr>"

definition sample_state :: "jsobj list broker_state" where
  "sample_state = \<lparr>bs_agents = [lead_agent, plain_agent ''2'' ''m'' ''f''], bs_buckets = \<lambda>_. None,
     bs_suppress = \<lambda>_. None, bs_sink = []\<rparr>"

definition sample_grant :: jsobj where
  "sample_grant = [(''scope'', JStr ''github''), (''grantee'', JStr ''m''), (''payload'', JObj [(''k'', JStr ''v'')])]"

definition sample_order :: grant_order where
  "sample_order = \<lparr>go_scope = ''github'', go_service = None, go_granteeRef = ''m'',
     go_grantee = plain_agent ''2'' ''m'' ''f'', go_payload = [(''k'', ''v'')], go_label = ''github grant'',
     go_expiresAt = None, go_injectAsEnv = True, go_envMapping = None\<rparr>"

definition sample_read :: jsobj where
  "sample_read = [(''mode'', JStr ''payload''), (''agent'', JStr ''m''), (''reason'', JStr ''r'')]"

lemma emit_list_sink: "emit_events list_sink rows n s = (s @ rows, None)"
  by (induction rows arbitrary: n s) (auto simp: list_sink_def)

lemma sample_check:
  "check_grant (sample_env sink) GrantSocket lead_agent sample_grant (bs_agents sample_state) = Inr sample_order"
  by code_simp

lemma sample_caller: "peerAgentFor (Some ''1'') None (bs_agents sample_state) = Some lead_agent"
  by code_simp

lemma sample_unlimited:
  "enforceCredentialGrantRateLimits (sample_env sink) caller grantee scope service st = (st, [], Inr no_reservation)"
  by (simp add: enforceCredentialGrantRateLimits_def sample_env_def)

lemma sample_fields:
  "be_writable (sample_env sink) n" "be_sink (sample_env sink) = sink" "be_uuid (sample_env sink) = ''u''"
  by (simp_all add: sample_env_def)

abbreviation sample_result :: "jsobj list sink_ops \<Rightarrow> jsobj list broker_result" where
  "sample_result sink \<equiv> serve_request (sample_env sink) GrantSocket (Some ''1'') None ''grant_credential''
     sample_grant sample_state"

abbreviation sample_credential :: "jsobj list sink_ops \<Rightarrow> agent_credential" where
  "sample_credential sink \<equiv> granted_credential (sample_env sink) lead_agent sample_order"

lemma sample_granted:
  "bs_agents (fst (sample_result list_sink))
     = [lead_agent, add_grant ''github'' (sample_credential list_sink) (plain_agent ''2'' ''m'' ''f'')]"
  "snd (snd (sample_result list_sink)) = Inr (CredentialStored (metadataCredential (sample_credential list_sink)) ''m'')"
  using sample_check [of list_sink]
  by (simp_all add: serve_request_def sample_caller handleCredentialBrokerRequest_def grant_credential_def
      sample_unlimited writeAgentsThenAudit_def sample_fields emit_list_sink Let_def)
    (simp_all add: sample_state_def sample_order_def lead_agent_def plain_agent_def)

lemma sample_failed:
  "sample_result failing_sink = (sample_state, [], Inl (AuditFailed 0))"
  using sample_check [of failing_sink]
  by (simp add: serve_request_def sample_caller handleCredentialBrokerRequest_def grant_credential_def
      sample_unlimited writeAgentsThenAudit_def sample_fields Let_def grant_events_def failing_sink_def
      auditCommittedEventCount_def rollback_reservation_def)
    (simp add: sample_env_def)

lemma issue_needs_authority_witness:
  "\<exists>caller. peerAgentFor (Some ''1'') None (bs_agents sample_state) = Some caller
     \<and> may_issue ''grant_credential'' GrantSocket caller
         (add_grant ''github'' (sample_credential list_sink) (plain_agent ''2'' ''m'' ''f'')) (sample_credential list_sink)"
proof -
  obtain st' effects out where r: "sample_result list_sink = (st', effects, out)" by (metis prod_cases3)
  then have "bs_agents st'
      = [lead_agent, add_grant ''github'' (sample_credential list_sink) (plain_agent ''2'' ''m'' ''f'')]"
    using sample_granted(1) by simp
  then show ?thesis
    by (intro issue_needs_authority [OF r])
      (auto simp: add_grant_def granted_credential_def sample_state_def lead_agent_def plain_agent_def)
qed


definition stored_agent :: agent_info where
  "stored_agent = (plain_agent ''2'' ''m'' ''f'')\<lparr>ag_credentials := [sample_credential list_sink]\<rparr>"

definition stored_state :: "jsobj list broker_state" where
  "stored_state = sample_state\<lparr>bs_agents := [lead_agent, stored_agent]\<rparr>"

definition sample_listing :: listing where
  "sample_listing = \<lparr>li_mode = ''payload'', li_target = stored_agent, li_credentials = [sample_credential list_sink],
     li_scopes = [''github''], li_filter = None\<rparr>"

lemma sample_listed:
  "check_list (sample_env list_sink) GrantSocket lead_agent sample_read (bs_agents stored_state) = Inr sample_listing"
  by code_simp

lemma payload_needs_authority_witness:
  "\<exists>caller target scopes row. peerAgentFor (Some ''1'') None (bs_agents stored_state) = Some caller
     \<and> target \<in> set (bs_agents stored_state) \<and> sample_credential list_sink \<in> set (ag_credentials target)
     \<and> resolveCredentialPayloadReadScopes caller = Inr scopes \<and> names_reader caller target row"
proof -
  have caller: "peerAgentFor (Some ''1'') None (bs_agents stored_state) = Some lead_agent" by code_simp
  have "credential_scope (sample_credential list_sink) = Inr ''github''" by code_simp
  then have reply: "listing_reply sample_listing
      = CredentialListing ''m'' ''payload'' [CredentialPayload (sample_credential list_sink)] []"
    by (simp add: listing_reply_def sample_listing_def visible_scope_def stored_agent_def plain_agent_def)
  have "li_mode sample_listing = ''payload''" by (simp add: sample_listing_def)
  then obtain st' where r: "serve_request (sample_env list_sink) GrantSocket (Some ''1'') None ''list_credentials'' sample_read
      stored_state = (st', [], Inr (CredentialListing ''m'' ''payload''
        [CredentialPayload (sample_credential list_sink)] []))"
    using sample_listed caller reply
    by (simp add: serve_request_def handleCredentialBrokerRequest_def list_credentials_def sample_fields)
      (simp add: list_sink_def)
  have "CredentialPayload (sample_credential list_sink) \<in> set [CredentialPayload (sample_credential list_sink)]" by simp
  from payload_needs_authority [OF r this] show ?thesis by blast
qed

subsection \<open>Observations\<close>

text \<open>
  A pending request for the custom scope can never be denied: its authority is checked
  without a service, and without a service nobody may grant the custom scope.
\<close>

lemma custom_request_undeniable:
  "check_deny kind caller request agents = Inr (i, reason, target, r) \<Longrightarrow> cr_scope r \<noteq> ''custom''"
  unfolding check_deny_def by (auto simp: and_then_Inr hasGrantPermission_def split: option.splits)

text \<open>
  Storing a credential for a service revokes the active custom credential of another service
  when that one's label happens to end in the new service's name in parentheses.
\<close>

lemma upsert_replaces_other_service:
  assumes "ac_isActive c" "ac_scope c = JStr ''custom''" "ac_customService c = Some ''a''" "ac_label c = ''x (b)''"
  shows "replaced_by ''b'' label c"
  using assms by (simp add: replaced_by_def js_ends_with_def)

end
