(* ===== verification/BrokerLimits.thy ===== *)
theory BrokerLimits
  imports BrokerFacts
begin

text \<open>
  The sustained limit of the credential broker over runs: the tokens of the bucket of a
  grantee are a potential that every granted request pays for and that only the passing of
  time raises, so the grants to one agent in any part of a run are bounded.
\<close>

subsection \<open>The level of a bucket\<close>

text \<open>The tokens that a bucket would hold now; one that does not exist yet is taken as full.\<close>

definition bucket_level :: "grant_rate_config \<Rightarrow> time \<Rightarrow> rate_bucket option \<Rightarrow> int" where
  "bucket_level cfg now b = (case b of
      None \<Rightarrow> rc_burst cfg * token
    | Some b \<Rightarrow> refillTokenCount cfg (rb_tokens b) (rb_lastRefill b) now)"

definition sane_config :: "grant_rate_config \<Rightarrow> bool" where
  "sane_config cfg \<longleftrightarrow> rc_enabled cfg \<and> 0 \<le> rc_sustained cfg \<and> 0 \<le> rc_burst cfg"

text \<open>No bucket is overdrawn.\<close>

definition paid :: "rate_bucket option \<Rightarrow> bool" where
  "paid b \<longleftrightarrow> (case b of None \<Rightarrow> True | Some b \<Rightarrow> 0 \<le> rb_tokens b)"

lemma token_pos: "0 < token"
  by (simp add: token_def)

lemma level_full: "bucket_level cfg now b \<le> rc_burst cfg * token"
  by (simp add: bucket_level_def refillTokenCount_def split: option.splits)

lemma level_waits:
  assumes "sane_config cfg" "now \<le> later"
  shows "bucket_level cfg later b \<le> bucket_level cfg now b + (later - now) * rc_sustained cfg"
proof (cases b)
  case None
  then show ?thesis using assms by (simp add: bucket_level_def sane_config_def)
next
  case (Some x)
  have "max 0 (later - rb_lastRefill x) \<le> max 0 (now - rb_lastRefill x) + (later - now)" using assms(2) by linarith
  from mult_right_mono [OF this, of "rc_sustained cfg"]
  have "max 0 (later - rb_lastRefill x) * rc_sustained cfg
      \<le> max 0 (now - rb_lastRefill x) * rc_sustained cfg + (later - now) * rc_sustained cfg"
    using assms(1) by (simp add: sane_config_def distrib_right)
  moreover have "0 \<le> (later - now) * rc_sustained cfg" using assms by (simp add: sane_config_def)
  ultimately show ?thesis using Some by (simp add: bucket_level_def refillTokenCount_def)
qed

lemma level_paid: "sane_config cfg \<Longrightarrow> paid b \<Longrightarrow> 0 \<le> bucket_level cfg now b"
  using token_pos by (auto simp: bucket_level_def refillTokenCount_def sane_config_def paid_def split: option.splits)

lemma level_now:
  "bucket_level cfg now (Some \<lparr>rb_tokens = n, rb_lastRefill = now\<rparr>) = min (rc_burst cfg * token) n"
  by (simp add: bucket_level_def refillTokenCount_def)

lemma replay_paid: "0 \<le> tokens \<Longrightarrow> 0 \<le> fst (replay_grants cfg tokens t ts)"
  by (induction cfg tokens t ts rule: replay_grants.induct) auto

text \<open>A refill leaves the level as it is, or below it when the bucket is rebuilt from the log.\<close>

lemma refill_level:
  assumes "refillBucket parse_date cfg now matches events old = b"
  shows "rb_lastRefill b = now" "rb_tokens b \<le> bucket_level cfg now old"
    "sane_config cfg \<Longrightarrow> paid old \<Longrightarrow> 0 \<le> rb_tokens b"
proof -
  show "rb_lastRefill b = now" using assms
    by (auto simp: refillBucket_def Let_def split: option.splits prod.splits)
  show "rb_tokens b \<le> bucket_level cfg now old" using assms
    by (auto simp: refillBucket_def bucket_level_def refillTokenCount_def Let_def split: option.splits prod.splits)
  assume sane: "sane_config cfg" and "paid old"
  show "0 \<le> rb_tokens b"
  proof (cases old)
    case (Some x)
    then show ?thesis using assms \<open>paid old\<close> sane token_pos
      by (auto simp: refillBucket_def paid_def refillTokenCount_def sane_config_def)
  next
    case None
    let ?ts = "sort (event_times parse_date (now - 60 * 60000) now matches events)"
    let ?start = "if ?ts = [] then rc_burst cfg * token else 0"
    let ?first = "case ?ts of [] \<Rightarrow> now - 60 * 60000 | t # _ \<Rightarrow> t"
    obtain n t where r: "replay_grants cfg ?start ?first ?ts = (n, t)" by fastforce
    have "0 \<le> n" using replay_paid [of ?start cfg ?first ?ts] sane token_pos r by (simp add: sane_config_def)
    moreover have "b = \<lparr>rb_tokens = refillTokenCount cfg n t now, rb_lastRefill = now\<rparr>"
      using assms unfolding refillBucket_def None Let_def option.case r prod.case by simp
    ultimately show ?thesis using sane token_pos by (simp add: refillTokenCount_def sane_config_def)
  qed
qed

subsection \<open>One request\<close>

text \<open>
  \<open>pays cfg now n old new\<close>: from one bucket to the other at least \<open>n\<close> tokens have been paid,
  and a bucket that was not overdrawn is not.
\<close>

definition pays :: "grant_rate_config \<Rightarrow> time \<Rightarrow> int \<Rightarrow> rate_bucket option \<Rightarrow> rate_bucket option \<Rightarrow> bool" where
  "pays cfg now n old new \<longleftrightarrow> bucket_level cfg now new + n \<le> bucket_level cfg now old \<and> (paid old \<longrightarrow> paid new)"

lemma pays_same [simp]: "pays cfg now 0 b b"
  by (simp add: pays_def)

lemma bucket_keys [simp]:
  "grantor_bucket_key i scope service \<noteq> grantee_bucket_key k" "grantee_bucket_key k \<noteq> grantor_bucket_key i scope service"
  "grantee_bucket_key k = grantee_bucket_key k' \<longleftrightarrow> k = k'"
  by (auto simp: grantor_bucket_key_def grantee_bucket_key_def)

lemma set_tokens_bucket:
  "bs_buckets (set_tokens key n st) k =
     (if k = key then map_option (\<lambda>b. b\<lparr>rb_tokens := n\<rparr>) (bs_buckets st k) else bs_buckets st k)"
  by (simp add: set_tokens_def split: option.splits)

lemma take_tokens_Inr:
  "take_tokens caller grantee scopeKey g r = Inr (g', r', exempt) \<Longrightarrow> token \<le> r \<and> r' = r - token"
  by (auto simp: take_tokens_def and_then_Inr split: if_splits)

lemma reserve_pays:
  assumes "reserve_tokens parse_date cfg now at caller grantee scope service events st = (st', r)" "sane_config cfg"
  shows "(\<forall>e. r = Inl e \<longrightarrow> pays cfg now 0 (bs_buckets st (grantee_bucket_key k)) (bs_buckets st' (grantee_bucket_key k)))
    \<and> (\<forall>res. r = Inr res \<longrightarrow>
        pays cfg now (if k = ag_id grantee then token else 0)
          (bs_buckets st (grantee_bucket_key k)) (bs_buckets st' (grantee_bucket_key k))
        \<and> pays cfg now 0 (bs_buckets st (grantee_bucket_key k))
          (bs_buckets (rollback_reservation cfg res st') (grantee_bucket_key k)))"
proof -
  let ?gk = "grantor_bucket_key (grantorIdFor caller) scope service"
  let ?rk = "grantee_bucket_key (ag_id grantee)"
  define gb where "gb = refillBucket parse_date cfg now
      (grantorScopeEventMatches caller (grantorIdFor caller) scope service) events (bs_buckets st ?gk)"
  define rb where "rb = refillBucket parse_date cfg now (granteeEventMatches grantee) events (bs_buckets st ?rk)"
  note level = refill_level [OF rb_def [symmetric]]
  define old where "old = bs_buckets st ?rk"
  have rb: "rb = \<lparr>rb_tokens = rb_tokens rb, rb_lastRefill = now\<rparr>" using level(1) by (cases rb) simp
  have same: "pays cfg now 0 old (Some rb)"
    using level(2,3) assms(2) by (subst rb) (auto simp: pays_def level_now paid_def old_def)
  have spent: "pays cfg now token old (Some \<lparr>rb_tokens = rb_tokens rb - token, rb_lastRefill = now\<rparr>)" if "token \<le> rb_tokens rb"
    using level(2) that token_pos by (auto simp: pays_def level_now paid_def old_def)
  have st': "(r = Inl e \<longrightarrow> bs_buckets st' = (bs_buckets st)(?gk \<mapsto> gb, ?rk \<mapsto> rb))" for e
    using assms(1) unfolding reserve_tokens_def Let_def
    by (auto simp: gb_def rb_def split: sum.splits prod.splits)
  show ?thesis
  proof (cases r)
    case (Inl e)
    then show ?thesis using st' [of e] same by (cases "k = ag_id grantee") (auto simp: old_def)
  next
    case (Inr res)
    then obtain g r' exempt where t: "take_tokens caller grantee (scope_key scope service) (rb_tokens gb) (rb_tokens rb)
          = Inr (g, r', exempt)"
        and s: "st' = set_tokens ?rk r' (set_tokens ?gk g (st\<lparr>bs_buckets := (bs_buckets st)(?gk \<mapsto> gb, ?rk \<mapsto> rb)\<rparr>))"
        and res: "rs_granteeKey res = ?rk" "rs_granteeTokens res = rb_tokens rb" "rs_grantorKey res = ?gk"
      using assms(1) unfolding reserve_tokens_def Let_def
      by (auto simp: gb_def rb_def split: sum.splits prod.splits)
    note tt = take_tokens_Inr [OF t]
    have new: "bs_buckets st' ?rk = Some \<lparr>rb_tokens = rb_tokens rb - token, rb_lastRefill = now\<rparr>"
      using tt level(1) by (simp add: s set_tokens_bucket)
    moreover have "bs_buckets (rollback_reservation cfg res st') ?rk = Some rb"
      using assms(2) new level(1) by (subst rb) (simp add: rollback_reservation_def sane_config_def res set_tokens_bucket)
    moreover have "bs_buckets st' (grantee_bucket_key k) = bs_buckets st (grantee_bucket_key k)"
        "bs_buckets (rollback_reservation cfg res st') (grantee_bucket_key k) = bs_buckets st (grantee_bucket_key k)"
      if "k \<noteq> ag_id grantee"
      using assms(2) that by (simp_all add: s rollback_reservation_def sane_config_def res set_tokens_bucket)
    ultimately show ?thesis using Inr same spent tt by (cases "k = ag_id grantee") (auto simp: old_def)
  qed
qed


lemma write_buckets:
  "writeAgentsThenAudit env updated events st = (st', r) \<Longrightarrow> bs_buckets st' = bs_buckets st"
  by (erule write_cases) auto

lemma finish_buckets:
  "finish_write (writeAgentsThenAudit env updated events st) effects reply = (st', out) \<Longrightarrow> bs_buckets st' = bs_buckets st"
  by (cases "writeAgentsThenAudit env updated events st")
    (auto simp: finish_write_def dest!: write_buckets split: sum.splits)

lemma fire_alerts_buckets:
  "bs_buckets (fst (foldl (\<lambda>acc (alert, key, u). fireCredentialGrantCircuitBreakerAlert alert key now acc) acc alerts))
     = bs_buckets (fst acc)"
  by (induction alerts arbitrary: acc) (auto simp: fireCredentialGrantCircuitBreakerAlert_def Let_def)

lemma check_windows_buckets:
  "bs_buckets (fst (check_windows parse_date cfg now at caller grantee scope service events st)) = bs_buckets st"
  unfolding check_windows_def Let_def
  by (simp add: case_prod_unfold fire_alerts_buckets [unfolded case_prod_unfold])

lemma enforce_pays:
  assumes "enforceCredentialGrantRateLimits env caller grantee scope service st = (st', effects, r)"
    and "sane_config (be_config env)"
  shows "(\<forall>e. r = Inl e \<longrightarrow> pays (be_config env) (be_clock env AtRateLimit) 0
      (bs_buckets st (grantee_bucket_key k)) (bs_buckets st' (grantee_bucket_key k)))
    \<and> (\<forall>res. r = Inr res \<longrightarrow>
        pays (be_config env) (be_clock env AtRateLimit) (if k = ag_id grantee then token else 0)
          (bs_buckets st (grantee_bucket_key k)) (bs_buckets st' (grantee_bucket_key k))
        \<and> pays (be_config env) (be_clock env AtRateLimit) 0 (bs_buckets st (grantee_bucket_key k))
          (bs_buckets (rollback_reservation (be_config env) res st') (grantee_bucket_key k)))"
  using assms(1)
proof (cases rule: enforce_cases)
  case off
  then show ?thesis using assms(2) by (simp add: sane_config_def)
next
  case unanswered
  then show ?thesis by simp
next
  case (windows s events e)
  have "bs_buckets st' = bs_buckets st"
    using arg_cong [OF windows(3), of "\<lambda>x. bs_buckets (fst x)"] by (simp add: check_windows_buckets)
  then show ?thesis using windows(4) by simp
next
  case (passed s events st1)
  have "bs_buckets st1 = bs_buckets st"
    using arg_cong [OF passed(3), of "\<lambda>x. bs_buckets (fst x)"] by (simp add: check_windows_buckets)
  then show ?thesis using reserve_pays [OF passed(4) assms(2), of k] by simp
qed

lemma rollback_buckets:
  "bs_buckets s = bs_buckets t \<Longrightarrow> bs_buckets (rollback_reservation cfg r s) = bs_buckets (rollback_reservation cfg r t)"
  by (simp add: rollback_reservation_def set_tokens_bucket fun_eq_iff)

text \<open>A request that is answered: which agent is given a credential by it, if any.\<close>

type_synonym 's broker_call = "'s broker_env \<times> socket_kind \<times> string option \<times> int option \<times> string \<times> jsobj"

definition call_time :: "'s broker_call \<Rightarrow> time" where
  "call_time = (\<lambda>(env, _). be_clock env AtRateLimit)"

definition serve_call :: "'s broker_call \<Rightarrow> 's broker_state \<Rightarrow> 's broker_result" where
  "serve_call = (\<lambda>(env, kind, bound, peerUid, action, request) st. serve_request env kind bound peerUid action request st)"

definition grants_to :: "string \<Rightarrow> 's broker_call \<Rightarrow> 's broker_state \<Rightarrow> bool" where
  "grants_to key = (\<lambda>(env, kind, bound, peerUid, action, request) st.
     action = ''grant_credential''
     \<and> (case requireString request ''grantee'' of Inl e \<Rightarrow> False
        | Inr ref \<Rightarrow> (case findAgent (bs_agents st) ref of None \<Rightarrow> False | Some a \<Rightarrow> ag_id a = key))
     \<and> (case serve_request env kind bound peerUid action request st of
          (_, _, Inl e) \<Rightarrow> False | (_, _, Inr reply) \<Rightarrow> True))"

lemma check_grant_grantee:
  "check_grant env kind caller request agents = Inr g \<Longrightarrow>
     \<exists>ref. requireString request ''grantee'' = Inr ref \<and> findAgent agents ref = Some (go_grantee g)"
  unfolding check_grant_def by (auto simp: and_then_Inr split: option.splits if_splits)

lemma grant_pays:
  assumes "grant_credential env kind caller request st = (st', effects, out)" "sane_config (be_config env)"
  shows "pays (be_config env) (be_clock env AtRateLimit)
    (if (\<exists>reply. out = Inr reply) \<and> (\<exists>g. check_grant env kind caller request (bs_agents st) = Inr g \<and> ag_id (go_grantee g) = k)
     then token else 0)
    (bs_buckets st (grantee_bucket_key k)) (bs_buckets st' (grantee_bucket_key k))"
proof (cases "check_grant env kind caller request (bs_agents st)")
  case (Inl e)
  then show ?thesis using assms(1) by (auto simp: grant_credential_def refuse_def)
next
  case ok: (Inr g)
  obtain st1 eff r where e: "enforceCredentialGrantRateLimits env caller (go_grantee g) (go_scope g) (go_service g) st
      = (st1, eff, r)" by (metis prod_cases3)
  note limits = enforce_pays [OF e assms(2), of k]
  show ?thesis
  proof (cases r)
    case (Inl err)
    then show ?thesis using assms(1) ok e limits by (auto simp: grant_credential_def)
  next
    case (Inr res)
    let ?c = "granted_credential env caller g"
    obtain st2 w where w: "writeAgentsThenAudit env (alter_first (\<lambda>a. ag_id a = go_granteeRef g
            \<or> ag_username a = go_granteeRef g \<or> ag_email a = go_granteeRef g) (add_grant (go_scope g) ?c) (bs_agents st1))
          (grant_events caller g ?c (rs_metadata res) (rc_enabled (be_config env)) (toISOString (be_clock env AtRecord)))
          st1 = (st2, w)" by fastforce
    note same = write_buckets [OF w]
    show ?thesis
    proof (cases "\<exists>e. w = Inl e \<and> auditCommittedEventCount e = 0")
      case True
      then obtain e' where "w = Inl e'" "auditCommittedEventCount e' = 0" by blast
      then have "st' = rollback_reservation (be_config env) res st2" "out = Inl e'"
        using assms(1) ok e Inr w by (simp_all add: grant_credential_def Let_def)
      then show ?thesis using limits Inr rollback_buckets [OF same, of "be_config env" res] by simp
    next
      case False
      then have "st' = st2 \<and> (\<exists>reply. out = Inr reply)"
        using assms(1) ok e Inr w by (cases w) (auto simp: grant_credential_def Let_def)
      then show ?thesis using limits Inr same ok by (cases "k = ag_id (go_grantee g)") auto
    qed
  qed
qed

lemma other_actions_buckets:
  assumes "handleCredentialBrokerRequest env kind caller action request st = (st', out)" "action \<noteq> ''grant_credential''"
  shows "bs_buckets st' = bs_buckets st"
  using assms unfolding handleCredentialBrokerRequest_def request_credential_def upsert_self_credential_def
    list_credentials_def revoke_credential_def deny_request_def expire_requests_def query_audit_def Let_def refuse_def
  by (auto split: if_splits sum.splits option.splits prod.splits dest: finish_buckets)

lemma serve_pays:
  assumes "sane_config (be_config (fst call))"
  shows "pays (be_config (fst call)) (call_time call) (if grants_to k call st then token else 0)
    (bs_buckets st (grantee_bucket_key k)) (bs_buckets (fst (serve_call call st)) (grantee_bucket_key k))"
proof -
  obtain env kind bound peerUid action request where call: "call = (env, kind, bound, peerUid, action, request)"
    by (metis prod_cases6)
  obtain st' effects out where s: "serve_request env kind bound peerUid action request st = (st', effects, out)"
    by (metis prod_cases3)
  show ?thesis
  proof (cases "peerAgentFor bound peerUid (bs_agents st)")
    case None
    then show ?thesis by (simp add: call serve_call_def grants_to_def serve_request_def refuse_def)
  next
    case (Some caller)
    then have h: "handleCredentialBrokerRequest env kind caller action request st = (st', effects, out)"
      using s by (simp add: serve_request_def)
    show ?thesis
    proof (cases "action = ''grant_credential''")
      case True
      have g: "grant_credential env kind caller request st = (st', effects, out)"
        using h True by (simp add: handleCredentialBrokerRequest_def)
      have "grants_to k call st \<longleftrightarrow> (\<exists>reply. out = Inr reply)
          \<and> (\<exists>g. check_grant env kind caller request (bs_agents st) = Inr g \<and> ag_id (go_grantee g) = k)"
        using g s check_grant_grantee [of env kind caller request "bs_agents st"] True
        by (auto simp: grants_to_def call grant_credential_def refuse_def split: sum.splits option.splits)
      then show ?thesis using grant_pays [OF g, of k] assms s by (simp add: call serve_call_def call_time_def)
    next
      case False
      then show ?thesis using other_actions_buckets [OF h] s by (simp add: call serve_call_def grants_to_def)
    qed
  qed
qed

subsection \<open>Runs\<close>

fun run_calls :: "'s broker_call list \<Rightarrow> 's broker_state \<Rightarrow> 's broker_state" where
  "run_calls [] st = st"
| "run_calls (call # calls) st = run_calls calls (fst (serve_call call st))"

fun count_grants :: "string \<Rightarrow> 's broker_call list \<Rightarrow> 's broker_state \<Rightarrow> int" where
  "count_grants key [] st = 0"
| "count_grants key (call # calls) st =
     (if grants_to key call st then 1 else 0) + count_grants key calls (fst (serve_call call st))"

lemma run_paid:
  assumes "\<forall>call \<in> set calls. be_config (fst call) = cfg" "sane_config cfg" "paid (bs_buckets st (grantee_bucket_key k))"
  shows "paid (bs_buckets (run_calls calls st) (grantee_bucket_key k))"
  using assms
proof (induction calls arbitrary: st)
  case (Cons call calls)
  then show ?case using serve_pays [of call k st] by (auto simp: pays_def)
qed simp

lemma run_pays:
  assumes "\<forall>call \<in> set calls. be_config (fst call) = cfg" "sane_config cfg"
    and "sorted (start # map call_time calls)" "paid (bs_buckets st (grantee_bucket_key k))"
  shows "count_grants k calls st * token
    \<le> bucket_level cfg start (bs_buckets st (grantee_bucket_key k))
       + (last (start # map call_time calls) - start) * rc_sustained cfg"
  using assms
proof (induction calls arbitrary: st start)
  case Nil
  then show ?case by (simp add: level_paid)
next
  case (Cons call calls)
  let ?st = "fst (serve_call call st)" and ?t = "call_time call" and ?key = "grantee_bucket_key k"
  let ?stop = "last (?t # map call_time calls)"
  have pay: "pays cfg ?t (if grants_to k call st then token else 0) (bs_buckets st ?key) (bs_buckets ?st ?key)"
    using serve_pays [of call k st] Cons.prems by simp
  have "count_grants k calls ?st * token
      \<le> bucket_level cfg ?t (bs_buckets ?st ?key) + (?stop - ?t) * rc_sustained cfg"
    using Cons.IH [of ?t ?st] Cons.prems pay by (simp add: pays_def)
  moreover have "bucket_level cfg ?t (bs_buckets st ?key)
      \<le> bucket_level cfg start (bs_buckets st ?key) + (?t - start) * rc_sustained cfg"
    using level_waits [of cfg start ?t] Cons.prems by simp
  moreover have "bucket_level cfg ?t (bs_buckets ?st ?key) + (if grants_to k call st then token else 0)
      \<le> bucket_level cfg ?t (bs_buckets st ?key)" using pay by (simp add: pays_def)
  moreover have "(?stop - ?t) * rc_sustained cfg + (?t - start) * rc_sustained cfg = (?stop - start) * rc_sustained cfg"
    by (simp add: algebra_simps)
  moreover have "count_grants k (call # calls) st * token
      = (if grants_to k call st then token else 0) + count_grants k calls ?st * token" by (simp add: distrib_right)
  ultimately show ?case by simp
qed

text \<open>
  C12. The sustained limit holds over runs.  After any requests to a broker that started with
  no buckets, take any further requests whose clock does not run backwards, with the same
  limits throughout: however they interleave, whoever sends them, and whichever of them the
  store or the audit sink fails, an agent is given at most \<open>burst\<close> credentials and
  \<open>sustained\<close> more for every minute between the first and the last of them.
\<close>

theorem sustained_grants_bounded:
  assumes "bs_buckets st = (\<lambda>_. None)" "\<forall>call \<in> set (earlier @ calls). be_config (fst call) = cfg"
    and "rc_enabled cfg" "0 \<le> rc_sustained cfg" "0 \<le> rc_burst cfg"
    and "calls \<noteq> []" "sorted (map call_time calls)"
  shows "60000 * count_grants key calls (run_calls earlier st)
    \<le> 60000 * rc_burst cfg + (call_time (last calls) - call_time (hd calls)) * rc_sustained cfg"
proof -
  let ?st = "run_calls earlier st" and ?start = "call_time (hd calls)"
  have sane: "sane_config cfg" using assms(3-5) by (simp add: sane_config_def)
  have "paid (bs_buckets ?st (grantee_bucket_key key))"
    using run_paid [of earlier cfg st key] assms(1,2) sane by (simp add: paid_def)
  moreover have "sorted (?start # map call_time calls)" using assms(6,7) by (cases calls) auto
  ultimately have "count_grants key calls ?st * token
      \<le> bucket_level cfg ?start (bs_buckets ?st (grantee_bucket_key key))
         + (last (?start # map call_time calls) - ?start) * rc_sustained cfg"
    using run_pays [of calls cfg ?start ?st key] assms(2) sane by simp
  moreover have "last (?start # map call_time calls) = call_time (last calls)"
    using assms(6) by (simp add: last_map)
  ultimately show ?thesis using level_full [of cfg ?start "bs_buckets ?st (grantee_bucket_key key)"]
    by (simp add: token_def)
qed

subsection \<open>Samples\<close>

definition limited_env :: "jsobj list broker_env" where
  "limited_env = (sample_env list_sink)\<lparr>be_config := default_grant_rates\<rparr>"

definition limited_call :: "jsobj list broker_call" where
  "limited_call = (limited_env, GrantSocket, Some ''1'', None, ''grant_credential'', sample_grant)"

lemma limited_enforced:
  "\<exists>st1 res. enforceCredentialGrantRateLimits limited_env lead_agent (go_grantee sample_order) ''github'' None sample_state
     = (st1, [], Inr res) \<and> bs_sink st1 = []"
  by (simp add: enforceCredentialGrantRateLimits_def limited_env_def sample_env_def default_grant_rates_def Let_def
    credentialGrantRateWindowEvents_def list_sink_def sample_state_def check_windows_def recentEventCount_def
    reserve_tokens_def refillBucket_def event_times_def take_tokens_def refillTokenCount_def token_def and_then_def set_tokens_agents)

lemma limited_granted: "grants_to ''2'' limited_call sample_state"
proof -
  obtain st1 res where e: "enforceCredentialGrantRateLimits limited_env lead_agent (go_grantee sample_order) ''github'' None
      sample_state = (st1, [], Inr res)" using limited_enforced by blast
  have c: "check_grant limited_env GrantSocket lead_agent sample_grant (bs_agents sample_state) = Inr sample_order"
    by code_simp
  have "requireString sample_grant ''grantee'' = Inr ''m''"
    "findAgent (bs_agents sample_state) ''m'' = Some (plain_agent ''2'' ''m'' ''f'')"
    by code_simp+
  moreover have "go_scope sample_order = ''github''" "go_service sample_order = None" by (simp_all add: sample_order_def)
  ultimately show ?thesis using c e
    by (simp add: grants_to_def limited_call_def serve_request_def sample_caller handleCredentialBrokerRequest_def
      grant_credential_def Let_def writeAgentsThenAudit_def)
     (simp add: limited_env_def sample_fields emit_list_sink plain_agent_def)
qed

lemma sustained_grants_bounded_witness:
  "count_grants ''2'' [limited_call] sample_state = 1
   \<and> 60000 * count_grants ''2'' [limited_call] (run_calls [] sample_state) \<le> 60000 * rc_burst default_grant_rates"
proof
  show "count_grants ''2'' [limited_call] sample_state = 1" using limited_granted by simp
  have "bs_buckets sample_state = (\<lambda>_. None)" by (simp add: sample_state_def)
  from sustained_grants_bounded [OF this, of "[]" "[limited_call]" default_grant_rates "''2''"]
  show "60000 * count_grants ''2'' [limited_call] (run_calls [] sample_state) \<le> 60000 * rc_burst default_grant_rates"
    by (simp add: limited_call_def limited_env_def default_grant_rates_def)
qed

end
