(* ===== verification/BrokerSockets.thy ===== *)
theory BrokerSockets
  imports BrokerFacts JsPath
begin

text \<open>
  The sockets of the credential broker, \<open>src/src/daemon/credential-broker.ts\<close>: what one
  connection reads and answers, and the sockets that the broker opens for each agent as the
  store changes.  \<open>JSON.parse\<close> is an argument.
\<close>

subsection \<open>An envelope\<close>

text \<open>
  The shape of an envelope: \<open>None\<close> when it is refused before the caller is resolved.  The
  fields of an array are read as those of an empty object.
\<close>

definition envelope_parts :: "jsval \<Rightarrow> (jsval \<times> jsobj) option" where
  "envelope_parts v = (case v of
      JObj ob \<Rightarrow>
        if \<not> js_truthy (js_get ob ''action'') then None
        else (case js_get ob ''request'' of
            JObj request \<Rightarrow> Some (js_get ob ''action'', request)
          | JArr _ \<Rightarrow> Some (js_get ob ''action'', [])
          | JNull \<Rightarrow> Some (js_get ob ''action'', [])
          | _ \<Rightarrow> None)
    | _ \<Rightarrow> None)"

datatype socket_answer =
    TooLarge
  | TimedOut
  | NotJson
  | BadEnvelope
  | Answered "broker_error + broker_reply"

definition serve_envelope ::
  "'s broker_env \<Rightarrow> socket_kind \<Rightarrow> string option \<Rightarrow> int option \<Rightarrow> jsval option \<Rightarrow> 's broker_state \<Rightarrow>
   's broker_state \<times> broker_effect list \<times> socket_answer" where
  "serve_envelope env kind bound peerUid v st = (case v of
      None \<Rightarrow> (st, [], NotJson)
    | Some v \<Rightarrow>
        (case envelope_parts v of
           None \<Rightarrow> (st, [], BadEnvelope)
         | Some (action, request) \<Rightarrow>
             (case peerAgentFor bound peerUid (bs_agents st) of
                None \<Rightarrow> (st, [], Answered (Inl UnknownAgent))
              | Some caller \<Rightarrow>
                  (case action of
                     JStr a \<Rightarrow> (case handleCredentialBrokerRequest env kind caller a request st of
                        (st', effects, out) \<Rightarrow> (st', effects, Answered out))
                   | _ \<Rightarrow> (st, [], Answered (Inl (UnknownAction (js_string action))))))))"

subsection \<open>One connection\<close>

definition max_envelope :: nat where
  "max_envelope = 64 * 1024"

datatype socket_event = Chunk string | IdleTimeout | Closed

text \<open>
  What a connection has read, whether it has been handled, whether its timer runs, and the
  answers it has been ended with.  \<open>'w\<close> is the state behind the handler.
\<close>

record 'w connection =
  cn_raw :: string
  cn_handled :: bool
  cn_timer :: bool
  cn_sent :: "socket_answer list"
  cn_world :: 'w

definition new_connection :: "'w \<Rightarrow> 'w connection" where
  "new_connection w = \<lparr>cn_raw = [], cn_handled = False, cn_timer = True, cn_sent = [], cn_world = w\<rparr>"

definition line_end :: char where
  "line_end = CHR 0x0A"

definition first_line :: "string \<Rightarrow> string" where
  "first_line raw = js_trim (takeWhile (\<lambda>c. c \<noteq> line_end) raw)"

definition on_chunk :: "(string \<Rightarrow> 'w \<Rightarrow> 'w \<times> socket_answer) \<Rightarrow> string \<Rightarrow> 'w connection \<Rightarrow> 'w connection" where
  "on_chunk handler chunk cn =
     (if cn_handled cn then cn
      else let raw = cn_raw cn @ chunk in
        if max_envelope < utf8_length raw
        then cn\<lparr>cn_raw := raw, cn_handled := True, cn_timer := False, cn_sent := cn_sent cn @ [TooLarge]\<rparr>
        else if line_end \<notin> set raw then cn\<lparr>cn_raw := raw\<rparr>
        else (case handler (first_line raw) (cn_world cn) of (w, answer) \<Rightarrow>
          cn\<lparr>cn_raw := raw, cn_handled := True, cn_timer := False, cn_sent := cn_sent cn @ [answer], cn_world := w\<rparr>))"

definition connection_step ::
  "(string \<Rightarrow> 'w \<Rightarrow> 'w \<times> socket_answer) \<Rightarrow> 'w connection \<Rightarrow> socket_event \<Rightarrow> 'w connection" where
  "connection_step handler cn e = (case e of
      Chunk chunk \<Rightarrow> on_chunk handler chunk cn
    | IdleTimeout \<Rightarrow>
        if cn_timer cn \<and> \<not> cn_handled cn
        then cn\<lparr>cn_handled := True, cn_timer := False, cn_sent := cn_sent cn @ [TimedOut]\<rparr> else cn\<lparr>cn_timer := False\<rparr>
    | Closed \<Rightarrow> cn\<lparr>cn_timer := False\<rparr>)"

abbreviation connection_run ::
  "(string \<Rightarrow> 'w \<Rightarrow> 'w \<times> socket_answer) \<Rightarrow> 'w connection \<Rightarrow> socket_event list \<Rightarrow> 'w connection" where
  "connection_run handler \<equiv> foldl (connection_step handler)"

text \<open>A handled connection has one answer and an unhandled one has none and has changed nothing.\<close>

definition answered_once :: "'w \<Rightarrow> 'w connection \<Rightarrow> bool" where
  "answered_once w cn \<longleftrightarrow> (if cn_handled cn then length (cn_sent cn) = 1 else cn_sent cn = [] \<and> cn_world cn = w)"

lemma answered_once_step: "answered_once w cn \<Longrightarrow> answered_once w (connection_step handler cn e)"
  by (auto simp: answered_once_def connection_step_def on_chunk_def Let_def split: socket_event.splits prod.splits)

lemma handled_stays:
  "cn_handled cn \<Longrightarrow> cn_handled (connection_step handler cn e) \<and> cn_sent (connection_step handler cn e) = cn_sent cn
     \<and> cn_world (connection_step handler cn e) = cn_world cn"
  by (auto simp: connection_step_def on_chunk_def split: socket_event.splits)

lemma handled_run:
  "cn_handled cn \<Longrightarrow> cn_handled (connection_run handler cn es) \<and> cn_sent (connection_run handler cn es) = cn_sent cn
     \<and> cn_world (connection_run handler cn es) = cn_world cn"
proof (induction es arbitrary: cn)
  case (Cons e es)
  then show ?case using Cons.IH [of "connection_step handler cn e"] handled_stays [OF Cons.prems, of handler e] by simp
qed simp

lemma utf8_length_append: "utf8_length (a @ b) = utf8_length a + utf8_length b"
  by (simp add: utf8_length_def)

lemma takeWhile_hit: "x \<in> set xs \<Longrightarrow> \<not> P x \<Longrightarrow> takeWhile P (xs @ ys) = takeWhile P xs"
  by (induction xs) auto

lemma chunks_answer:
  assumes "\<not> cn_handled cn" "line_end \<notin> set (cn_raw cn)" "line_end \<in> set (cn_raw cn @ concat chunks)"
    "utf8_length (cn_raw cn @ concat chunks) \<le> max_envelope"
  shows "cn_sent (connection_run handler cn (map Chunk chunks))
      = cn_sent cn @ [snd (handler (first_line (cn_raw cn @ concat chunks)) (cn_world cn))]
    \<and> cn_world (connection_run handler cn (map Chunk chunks))
      = fst (handler (first_line (cn_raw cn @ concat chunks)) (cn_world cn))"
  using assms
proof (induction chunks arbitrary: cn)
  case (Cons chunk chunks)
  let ?raw = "cn_raw cn @ chunk"
  have small: "\<not> max_envelope < utf8_length ?raw" using Cons.prems(4) by (simp add: utf8_length_append)
  show ?case
  proof (cases "line_end \<in> set ?raw")
    case True
    have line: "first_line (cn_raw cn @ concat (chunk # chunks)) = first_line ?raw"
      using takeWhile_hit [OF True, of "\<lambda>c. c \<noteq> line_end" "concat chunks"] by (simp add: first_line_def)
    obtain w answer where h: "handler (first_line ?raw) (cn_world cn) = (w, answer)" by fastforce
    let ?cn = "connection_step handler cn (Chunk chunk)"
    have "cn_handled ?cn" "cn_sent ?cn = cn_sent cn @ [answer]" "cn_world ?cn = w"
      using Cons.prems(1) small True h by (simp_all add: connection_step_def on_chunk_def)
    with handled_run [of ?cn handler "map Chunk chunks"] show ?thesis unfolding line h by simp
  next
    case False
    let ?cn = "cn\<lparr>cn_raw := ?raw\<rparr>"
    have "connection_step handler cn (Chunk chunk) = ?cn"
      using Cons.prems(1) small False by (simp add: connection_step_def on_chunk_def Let_def)
    then show ?thesis using Cons.IH [of ?cn] Cons.prems False by simp
  qed
qed simp

text \<open>
  C31. A connection is answered once, with what its first line asks for.  Whatever chunks,
  timeouts and ends arrive in which order, it gets at most one answer and the state behind
  the handler changes at most with it; and when what has arrived fits the limit and holds
  a line, the answer and the new state are those of that line, however it was cut into chunks.
\<close>

theorem connection_answers_first_line:
  "length (cn_sent (connection_run handler (new_connection w) events)) \<le> 1
   \<and> (cn_sent (connection_run handler (new_connection w) events) = [] \<longrightarrow>
        cn_world (connection_run handler (new_connection w) events) = w)
   \<and> (\<forall>chunks rest line. events = map Chunk chunks @ rest \<and> line_end \<in> set (concat chunks)
        \<and> utf8_length (concat chunks) \<le> max_envelope \<and> line = first_line (concat chunks) \<longrightarrow>
        cn_sent (connection_run handler (new_connection w) events) = [snd (handler line w)]
        \<and> cn_world (connection_run handler (new_connection w) events) = fst (handler line w))"
proof -
  let ?run = "connection_run handler (new_connection w)"
  have once: "answered_once w (?run es)" for es
  proof -
    have "answered_once w (connection_run handler cn es)" if "answered_once w cn" for cn
      using that by (induction es arbitrary: cn) (auto intro: answered_once_step)
    then show ?thesis by (simp add: answered_once_def new_connection_def)
  qed
  have "cn_sent (?run (map Chunk chunks @ rest)) = [snd (handler (first_line (concat chunks)) w)]
      \<and> cn_world (?run (map Chunk chunks @ rest)) = fst (handler (first_line (concat chunks)) w)"
    if "line_end \<in> set (concat chunks)" "utf8_length (concat chunks) \<le> max_envelope" for chunks rest
  proof -
    have answer: "cn_sent (?run (map Chunk chunks)) = [snd (handler (first_line (concat chunks)) w)]
        \<and> cn_world (?run (map Chunk chunks)) = fst (handler (first_line (concat chunks)) w)"
      using chunks_answer [of "new_connection w" chunks handler] that by (simp add: new_connection_def)
    then have "cn_handled (?run (map Chunk chunks))"
      using once [of "map Chunk chunks"] by (simp add: answered_once_def split: if_splits)
    from handled_run [OF this, of handler rest] answer show ?thesis by simp
  qed
  moreover have "length (cn_sent (?run events)) \<le> 1 \<and> (cn_sent (?run events) = [] \<longrightarrow> cn_world (?run events) = w)"
    using once [of events] by (auto simp: answered_once_def split: if_splits)
  ultimately show ?thesis by blast
qed

lemma connection_answers_first_line_witness:
  "cn_sent (connection_run (\<lambda>line w. (w + length line, Answered (Inl (UnknownAction line)))) (new_connection (0::nat))
     [Chunk ''a'', Chunk (''b'' @ [line_end]), Chunk ''c'', IdleTimeout]) = [Answered (Inl (UnknownAction ''ab''))]"
proof -
  let ?h = "\<lambda>line w. (w + length line, Answered (Inl (UnknownAction line)) :: socket_answer)"
  have "[Chunk ''a'', Chunk (''b'' @ [line_end]), Chunk ''c'', IdleTimeout]
      = map Chunk [''a'', ''b'' @ [line_end]] @ [Chunk ''c'', IdleTimeout]" by simp
  moreover have "line_end \<in> set (concat [''a'', ''b'' @ [line_end]])" "''ab'' = first_line (concat [''a'', ''b'' @ [line_end]])"
    by code_simp+
  moreover have "utf8_length (concat [''a'', ''b'' @ [line_end]]) \<le> 3" by code_simp
  then have "utf8_length (concat [''a'', ''b'' @ [line_end]]) \<le> max_envelope" by (simp add: max_envelope_def)
  moreover note connection_answers_first_line [of ?h "0::nat" "[Chunk ''a'', Chunk (''b'' @ [line_end]), Chunk ''c'', IdleTimeout]",
      THEN conjunct2, THEN conjunct2, rule_format, of "[''a'', ''b'' @ [line_end]]" "[Chunk ''c'', IdleTimeout]" "''ab''"]
  ultimately show ?thesis by simp
qed

subsection \<open>The sockets of the agents\<close>

definition safe_segment_char :: "char \<Rightarrow> bool" where
  "safe_segment_char c \<longleftrightarrow> (let n = code c in
     (65 \<le> n \<and> n \<le> 90) \<or> (97 \<le> n \<and> n \<le> 122) \<or> (48 \<le> n \<and> n \<le> 57) \<or> c \<in> {CHR ''_'', CHR ''.'', CHR ''-''})"

definition safeAgentSocketSegment :: "agent_info \<Rightarrow> string" where
  "safeAgentSocketSegment agent = or_text
     (map (\<lambda>c. if safe_segment_char c then c else CHR ''_'') (js_trim (or_text (ag_id agent) (ag_username agent))))
     ''unknown-agent''"

text \<open>The directory of the sockets is an absolute path, so that joining is resolving.\<close>

definition credentialBrokerAgentSocketPath :: "string \<Rightarrow> agent_info \<Rightarrow> socket_kind \<Rightarrow> string" where
  "credentialBrokerAgentSocketPath dir agent kind = path_resolve ''/''
     (dir @ ''/'' @ safeAgentSocketSegment agent @ ''/'' @
      (case kind of RequestSocket \<Rightarrow> ''request'' | GrantSocket \<Rightarrow> ''grant'') @ ''.sock'')"

definition agentUsesPerAgentBrokerSocket :: "agent_info \<Rightarrow> bool" where
  "agentUsesPerAgentBrokerSocket agent \<longleftrightarrow> \<not> agentUsesSharedBrokerSocket agent"

text \<open>
  The servers that can be reached, by the path they listen on: the kind of the socket and the
  agent it is bound to.  Starting one may fail before or after the old socket is unlinked.
\<close>

type_synonym listeners = "string \<Rightarrow> (socket_kind \<times> string option) option"

datatype start_outcome = Listening | NotPrepared | NotListening

definition startServer ::
  "(string \<Rightarrow> start_outcome) \<Rightarrow> string \<Rightarrow> socket_kind \<Rightarrow> string option \<Rightarrow> listeners \<Rightarrow> listeners \<times> bool" where
  "startServer outcome p kind bound l = (case outcome p of
      Listening \<Rightarrow> (l(p \<mapsto> (kind, bound)), True)
    | NotPrepared \<Rightarrow> (l, False)
    | NotListening \<Rightarrow> (l(p := None), False))"

record socket_entry =
  se_request :: string
  se_grant :: "string option"

record broker_sockets =
  bk_listeners :: listeners
  bk_entries :: "(string \<times> socket_entry) list"
  bk_agentSockets :: "(string \<times> socket_entry) list"

text \<open>The agents of the store with their status.\<close>

definition desired_agents :: "(agent_info \<times> string option) list \<Rightarrow> agent_info list" where
  "desired_agents agents = map fst (filter (\<lambda>(a, status).
     (status = None \<or> status = Some [] \<or> status = Some ''active'') \<and> agentUsesPerAgentBrokerSocket a) agents)"

definition stopPerAgentSocket :: "string \<times> socket_entry \<Rightarrow> broker_sockets \<Rightarrow> broker_sockets" where
  "stopPerAgentSocket e s =
     (let l = (bk_listeners s)(se_request (snd e) := None) in
      s\<lparr>bk_listeners := (case se_grant (snd e) of None \<Rightarrow> l | Some p \<Rightarrow> l(p := None)),
        bk_entries := AList.delete (fst e) (bk_entries s)\<rparr>)"

definition keeps_sockets :: "agent_info list \<Rightarrow> string \<times> socket_entry \<Rightarrow> bool" where
  "keeps_sockets desired e = (case find (\<lambda>a. ag_id a = fst e) desired of
      None \<Rightarrow> False
    | Some a \<Rightarrow> safeHasGrantSocketAccess a \<or> se_grant (snd e) = None)"

definition close_stale :: "agent_info list \<Rightarrow> broker_sockets \<Rightarrow> broker_sockets" where
  "close_stale desired s =
     foldl (\<lambda>s e. if keeps_sockets desired e then s else stopPerAgentSocket e s) s (bk_entries s)"

definition open_agent ::
  "string \<Rightarrow> (string \<Rightarrow> start_outcome) \<Rightarrow> agent_info \<Rightarrow> broker_sockets \<Rightarrow> broker_sockets \<times> bool" where
  "open_agent dir outcome a s =
     (let rp = credentialBrokerAgentSocketPath dir a RequestSocket;
          gp = credentialBrokerAgentSocketPath dir a GrantSocket in
      case map_of (bk_entries s) (ag_id a) of
        Some e \<Rightarrow>
          if safeHasGrantSocketAccess a \<and> se_grant e = None
          then (case startServer outcome gp GrantSocket (Some (ag_id a)) (bk_listeners s) of
              (l, True) \<Rightarrow> (s\<lparr>bk_listeners := l, bk_entries := AList.update (ag_id a) (e\<lparr>se_grant := Some gp\<rparr>) (bk_entries s)\<rparr>, True)
            | (l, False) \<Rightarrow> (s\<lparr>bk_listeners := l\<rparr>, False))
          else (s, True)
      | None \<Rightarrow>
          (case startServer outcome rp RequestSocket (Some (ag_id a)) (bk_listeners s) of
             (l, False) \<Rightarrow> (s\<lparr>bk_listeners := l\<rparr>, False)
           | (l, True) \<Rightarrow>
               if safeHasGrantSocketAccess a
               then (case startServer outcome gp GrantSocket (Some (ag_id a)) l of
                   (l', True) \<Rightarrow> (s\<lparr>bk_listeners := l',
                      bk_entries := AList.update (ag_id a) \<lparr>se_request = rp, se_grant = Some gp\<rparr> (bk_entries s)\<rparr>, True)
                 | (l', False) \<Rightarrow> (s\<lparr>bk_listeners := l'\<rparr>, False))
               else (s\<lparr>bk_listeners := l,
                  bk_entries := AList.update (ag_id a) \<lparr>se_request = rp, se_grant = None\<rparr> (bk_entries s)\<rparr>, True)))"

text \<open>The first server that cannot be started ends the refresh.\<close>

fun open_agents ::
  "string \<Rightarrow> (string \<Rightarrow> start_outcome) \<Rightarrow> agent_info list \<Rightarrow> broker_sockets \<Rightarrow> broker_sockets \<times> bool" where
  "open_agents dir outcome [] s = (s, True)"
| "open_agents dir outcome (a # as) s = (case open_agent dir outcome a s of
      (s', True) \<Rightarrow> open_agents dir outcome as s' | (s', False) \<Rightarrow> (s', False))"

definition refreshAgentSockets ::
  "string \<Rightarrow> (string \<Rightarrow> start_outcome) \<Rightarrow> (agent_info \<times> string option) list \<Rightarrow> broker_sockets \<Rightarrow>
   broker_sockets \<times> bool" where
  "refreshAgentSockets dir outcome agents s =
     (let desired = desired_agents agents in
      case open_agents dir outcome desired (close_stale desired s) of
        (s', False) \<Rightarrow> (s', False)
      | (s', True) \<Rightarrow> (s'\<lparr>bk_agentSockets := concat (map (\<lambda>a. case map_of (bk_entries s') (ag_id a) of
            None \<Rightarrow> [] | Some e \<Rightarrow> [(ag_id a, e)]) desired)\<rparr>, True))"

subsection \<open>Grant sockets follow the authority of the agents\<close>

text \<open>Every grant socket bound to an agent is the one recorded in the agent's entry.\<close>

definition grants_recorded :: "broker_sockets \<Rightarrow> bool" where
  "grants_recorded s \<longleftrightarrow> distinct (map fst (bk_entries s)) \<and>
     (\<forall>p k. bk_listeners s p = Some (GrantSocket, Some k) \<longrightarrow>
        (\<exists>e. map_of (bk_entries s) k = Some e \<and> se_grant e = Some p))"

text \<open>Every entry with a grant socket is that of an agent with the authority.\<close>

definition grants_allowed :: "agent_info list \<Rightarrow> broker_sockets \<Rightarrow> bool" where
  "grants_allowed desired s \<longleftrightarrow> (\<forall>k e. map_of (bk_entries s) k = Some e \<and> se_grant e \<noteq> None \<longrightarrow>
     (\<exists>a \<in> set desired. ag_id a = k \<and> safeHasGrantSocketAccess a))"

lemma start_listener:
  "startServer outcome p kind bound l = (l', ok) \<Longrightarrow> l' q = Some x \<Longrightarrow> l q = Some x \<or> (q = p \<and> x = (kind, bound) \<and> ok)"
  by (auto simp: startServer_def split: start_outcome.splits if_splits)

lemma stop_recorded:
  assumes "grants_recorded s" "(k, e) \<in> set (bk_entries s)"
  shows "grants_recorded (stopPerAgentSocket (k, e) s)"
proof -
  have dist: "distinct (map fst (bk_entries s))" and
    bound: "\<And>p k. bk_listeners s p = Some (GrantSocket, Some k) \<Longrightarrow>
      \<exists>e. map_of (bk_entries s) k = Some e \<and> se_grant e = Some p"
    using assms(1) by (auto simp: grants_recorded_def)
  have e: "map_of (bk_entries s) k = Some e" using assms(2) dist by simp
  have "map_of (AList.delete k (bk_entries s)) k' = Some e' \<and> se_grant e' = Some p"
    if "map_of (bk_entries s) k' = Some e'" "se_grant e' = Some p" "se_grant e \<noteq> Some p" for k' e' p
    using that e by (cases "k' = k") (auto simp: delete_conv')
  then show ?thesis using bound dist e
    by (auto simp: grants_recorded_def stopPerAgentSocket_def Let_def distinct_delete split: option.splits if_splits)
      (metis option.inject option.distinct(1))+
qed

lemma stop_entries:
  "distinct (map fst (bk_entries s)) \<Longrightarrow> map_of (bk_entries (stopPerAgentSocket x s)) k = Some e \<longleftrightarrow>
     map_of (bk_entries s) k = Some e \<and> k \<noteq> fst x"
  by (auto simp: stopPerAgentSocket_def Let_def delete_conv')

lemma close_fold:
  assumes "grants_recorded s" "distinct (map fst es)" "set es \<subseteq> set (bk_entries s)"
  shows "grants_recorded (foldl (\<lambda>s e. if keeps_sockets desired e then s else stopPerAgentSocket e s) s es)
    \<and> (\<forall>k e. map_of (bk_entries (foldl (\<lambda>s e. if keeps_sockets desired e then s else stopPerAgentSocket e s) s es)) k = Some e
        \<longrightarrow> map_of (bk_entries s) k = Some e \<and> ((k, e) \<in> set es \<longrightarrow> keeps_sockets desired (k, e)))"
  using assms
proof (induction es arbitrary: s)
  case (Cons x es)
  obtain k e where x: "x = (k, e)" by fastforce
  let ?s = "if keeps_sockets desired x then s else stopPerAgentSocket x s"
  have dist: "distinct (map fst (bk_entries s))" using Cons.prems(1) by (simp add: grants_recorded_def)
  have rec: "grants_recorded ?s" using Cons.prems stop_recorded [of s k e] by (simp add: x)
  have map: "map_of (bk_entries ?s) k' = Some e' \<longleftrightarrow> map_of (bk_entries s) k' = Some e' \<and> (keeps_sockets desired x \<or> k' \<noteq> k)" for k' e'
    using stop_entries [OF dist, of x] by (simp add: x)
  have "distinct (map fst (bk_entries ?s))" using rec by (simp only: grants_recorded_def)
  then have "set es \<subseteq> set (bk_entries ?s)"
  proof (intro subsetI)
    fix y assume y: "y \<in> set es" and "distinct (map fst (bk_entries ?s))"
    then have "map_of (bk_entries s) (fst y) = Some (snd y)" "fst y \<noteq> k"
      using Cons.prems(2,3) dist by (auto simp: x)
    then have "map_of (bk_entries ?s) (fst y) = Some (snd y)" using map [of "fst y" "snd y"] by blast
    then show "y \<in> set (bk_entries ?s)" using map_of_SomeD by fastforce
  qed
  from Cons.IH [OF rec _ this] Cons.prems(2) have ih:
    "grants_recorded (foldl (\<lambda>s e. if keeps_sockets desired e then s else stopPerAgentSocket e s) ?s es)"
    "\<And>k e. map_of (bk_entries (foldl (\<lambda>s e. if keeps_sockets desired e then s else stopPerAgentSocket e s) ?s es)) k = Some e
        \<Longrightarrow> map_of (bk_entries ?s) k = Some e \<and> ((k, e) \<in> set es \<longrightarrow> keeps_sockets desired (k, e))"
    by auto
  have "keeps_sockets desired (k', e')" if "map_of (bk_entries ?s) k' = Some e'" "(k', e') = x" for k' e'
    using that map [of k' e'] by (auto simp: x)
  then show ?case using ih map by fastforce
qed simp

lemma close_grants:
  assumes "grants_recorded s"
  shows "grants_recorded (close_stale desired s)" "grants_allowed desired (close_stale desired s)"
proof -
  have dist: "distinct (map fst (bk_entries s))" using assms by (simp add: grants_recorded_def)
  note c = close_fold [OF assms dist order.refl, of desired, folded close_stale_def]
  show "grants_recorded (close_stale desired s)" using c by blast
  have "\<exists>a \<in> set desired. ag_id a = k \<and> safeHasGrantSocketAccess a"
    if "map_of (bk_entries (close_stale desired s)) k = Some e" "se_grant e \<noteq> None" for k e
  proof -
    have "map_of (bk_entries s) k = Some e" using c that(1) by blast
    then have "keeps_sockets desired (k, e)" using c that(1) by (meson map_of_SomeD)
    then show ?thesis using that(2) by (auto simp: keeps_sockets_def find_Some_iff split: option.splits)
  qed
  then show "grants_allowed desired (close_stale desired s)" by (simp add: grants_allowed_def)
qed

lemma recorded_cong:
  assumes "grants_recorded s" "\<And>p k. l p = Some (GrantSocket, Some k) \<Longrightarrow> bk_listeners s p = Some (GrantSocket, Some k)"
  shows "grants_recorded (s\<lparr>bk_listeners := l\<rparr>)"
  using assms by (auto simp: grants_recorded_def)

lemma recorded_update:
  assumes "grants_recorded s"
    and "\<And>p k. l p = Some (GrantSocket, Some k) \<Longrightarrow> bk_listeners s p = Some (GrantSocket, Some k) \<or> k = key \<and> se_grant e = Some p"
    and "\<And>old. map_of (bk_entries s) key = Some old \<Longrightarrow> se_grant old = None"
  shows "grants_recorded (s\<lparr>bk_listeners := l, bk_entries := AList.update key e (bk_entries s)\<rparr>)"
proof -
  have "\<exists>e'. map_of (AList.update key e (bk_entries s)) k = Some e' \<and> se_grant e' = Some p"
    if "l p = Some (GrantSocket, Some k)" for p k
  proof (cases "bk_listeners s p = Some (GrantSocket, Some k)")
    case True
    then obtain e' where e': "map_of (bk_entries s) k = Some e'" "se_grant e' = Some p"
      using assms(1) unfolding grants_recorded_def by blast
    then have "k \<noteq> key" using assms(3) by auto
    then show ?thesis using e' by (simp add: update_conv')
  next
    case False
    then show ?thesis using assms(2) [OF that] by (simp add: update_conv')
  qed
  then show ?thesis using assms(1) by (simp add: grants_recorded_def distinct_update)
qed

lemma allowed_update:
  assumes "grants_allowed desired s" "se_grant e \<noteq> None \<Longrightarrow> \<exists>a \<in> set desired. ag_id a = key \<and> safeHasGrantSocketAccess a"
  shows "grants_allowed desired (s\<lparr>bk_listeners := l, bk_entries := AList.update key e (bk_entries s)\<rparr>)"
  using assms by (auto simp: grants_allowed_def update_conv')

lemma open_grants:
  assumes "grants_recorded s" "grants_allowed desired s" "a \<in> set desired"
  shows "grants_recorded (fst (open_agent dir outcome a s)) \<and> grants_allowed desired (fst (open_agent dir outcome a s))"
proof -
  let ?rp = "credentialBrokerAgentSocketPath dir a RequestSocket"
  let ?gp = "credentialBrokerAgentSocketPath dir a GrantSocket"
  have same: "grants_allowed desired (s\<lparr>bk_listeners := l\<rparr>)" for l
    using assms(2) by (simp add: grants_allowed_def)
  show ?thesis
  proof (cases "map_of (bk_entries s) (ag_id a)")
    case (Some e)
    obtain l ok where l: "startServer outcome ?gp GrantSocket (Some (ag_id a)) (bk_listeners s) = (l, ok)" by fastforce
    have g: "bk_listeners s p = Some (GrantSocket, Some k) \<or> k = ag_id a \<and> ?gp = p \<and> ok"
      if "l p = Some (GrantSocket, Some k)" for p k
      using start_listener [OF l that] by auto
    show ?thesis
    proof (cases "safeHasGrantSocketAccess a \<and> se_grant e = None")
      case True
      have "grants_recorded (s\<lparr>bk_listeners := l, bk_entries := AList.update (ag_id a) (e\<lparr>se_grant := Some ?gp\<rparr>) (bk_entries s)\<rparr>)"
        using assms(1) g True Some by (intro recorded_update) auto
      moreover have "grants_allowed desired
          (s\<lparr>bk_listeners := l, bk_entries := AList.update (ag_id a) (e\<lparr>se_grant := Some ?gp\<rparr>) (bk_entries s)\<rparr>)"
        using assms(2,3) True by (intro allowed_update) auto
      moreover have "grants_recorded (s\<lparr>bk_listeners := l\<rparr>)" if "\<not> ok"
        using g that by (intro recorded_cong [OF assms(1)]) auto
      ultimately show ?thesis using Some l True same by (cases ok) (simp_all add: open_agent_def)
    next
      case False
      then show ?thesis using Some assms by (auto simp: open_agent_def Let_def)
    qed
  next
    case None
    obtain l ok where l: "startServer outcome ?rp RequestSocket (Some (ag_id a)) (bk_listeners s) = (l, ok)" by fastforce
    obtain l' ok' where l': "startServer outcome ?gp GrantSocket (Some (ag_id a)) l = (l', ok')" by fastforce
    note kept = start_listener [OF l] and kept' = start_listener [OF l']
    have g: "bk_listeners s p = Some (GrantSocket, Some k)" if "l p = Some (GrantSocket, Some k)" for p k
      using kept [OF that] by simp
    have g': "bk_listeners s p = Some (GrantSocket, Some k) \<or> k = ag_id a \<and> p = ?gp \<and> ok'"
      if "l' p = Some (GrantSocket, Some k)" for p k
      using kept' [OF that] g by auto
    show ?thesis
    proof (cases ok)
      case False
      have "grants_recorded (s\<lparr>bk_listeners := l\<rparr>)" using g by (intro recorded_cong [OF assms(1)])
      then show ?thesis using None l False same by (simp add: open_agent_def)
    next
      case True
      have "grants_recorded (s\<lparr>bk_listeners := l', bk_entries := AList.update (ag_id a) \<lparr>se_request = ?rp, se_grant = Some ?gp\<rparr> (bk_entries s)\<rparr>)"
        using assms(1) g' None by (intro recorded_update) auto
      moreover have "grants_recorded (s\<lparr>bk_listeners := l, bk_entries := AList.update (ag_id a) \<lparr>se_request = ?rp, se_grant = None\<rparr> (bk_entries s)\<rparr>)"
        using assms(1) g None by (intro recorded_update) auto
      moreover have "grants_allowed desired (s\<lparr>bk_listeners := l', bk_entries := AList.update (ag_id a) \<lparr>se_request = ?rp, se_grant = Some ?gp\<rparr> (bk_entries s)\<rparr>)"
          if "safeHasGrantSocketAccess a"
        using assms(2,3) that by (intro allowed_update) auto
      moreover have "grants_allowed desired (s\<lparr>bk_listeners := l, bk_entries := AList.update (ag_id a) \<lparr>se_request = ?rp, se_grant = None\<rparr> (bk_entries s)\<rparr>)"
        using assms(2) by (intro allowed_update) auto
      moreover have "grants_recorded (s\<lparr>bk_listeners := l'\<rparr>)" if "\<not> ok'"
        using g' that by (intro recorded_cong [OF assms(1)]) auto
      ultimately show ?thesis using None l l' True same
        by (cases "safeHasGrantSocketAccess a"; cases ok'; simp add: open_agent_def)
    qed
  qed
qed

lemma open_all_grants:
  "grants_recorded s \<Longrightarrow> grants_allowed desired s \<Longrightarrow> set as \<subseteq> set desired \<Longrightarrow>
     grants_recorded (fst (open_agents dir outcome as s)) \<and> grants_allowed desired (fst (open_agents dir outcome as s))"
proof (induction as arbitrary: s)
  case (Cons a as)
  obtain s' ok where o: "open_agent dir outcome a s = (s', ok)" by fastforce
  then show ?case using Cons.IH [of s'] open_grants [OF Cons.prems(1,2), of a dir outcome] Cons.prems(3)
    by (cases ok) auto
qed simp

lemma refresh_grants:
  assumes "grants_recorded s"
  shows "grants_recorded (fst (refreshAgentSockets dir outcome agents s))"
    "grants_allowed (desired_agents agents) (fst (refreshAgentSockets dir outcome agents s))"
proof -
  obtain s' ok where o: "open_agents dir outcome (desired_agents agents) (close_stale (desired_agents agents) s) = (s', ok)"
    by fastforce
  have "grants_recorded s' \<and> grants_allowed (desired_agents agents) s'"
    using open_all_grants [OF close_grants [OF assms] order.refl, where dir = dir and outcome = outcome] o by (metis fst_conv)
  then show "grants_recorded (fst (refreshAgentSockets dir outcome agents s))"
    "grants_allowed (desired_agents agents) (fst (refreshAgentSockets dir outcome agents s))"
    using o by (cases ok; simp add: refreshAgentSockets_def grants_recorded_def grants_allowed_def)+
qed

type_synonym refresh = "(string \<Rightarrow> start_outcome) \<times> (agent_info \<times> string option) list"

definition run_refreshes :: "string \<Rightarrow> refresh list \<Rightarrow> broker_sockets \<Rightarrow> broker_sockets" where
  "run_refreshes dir rs s = foldl (\<lambda>s (outcome, agents). fst (refreshAgentSockets dir outcome agents s)) s rs"

definition fresh_sockets :: "broker_sockets \<Rightarrow> bool" where
  "fresh_sockets s \<longleftrightarrow> bk_entries s = [] \<and> (\<forall>p kind k. bk_listeners s p \<noteq> Some (kind, Some k))"

lemma run_recorded: "grants_recorded s \<Longrightarrow> grants_recorded (run_refreshes dir rs s)"
  by (induction rs arbitrary: s) (auto simp: run_refreshes_def refresh_grants(1))


definition no_sockets :: broker_sockets where
  "no_sockets = \<lparr>bk_listeners = \<lambda>_. None, bk_entries = [], bk_agentSockets = []\<rparr>"


end
