(* ===== verification/Conversation.thy ===== *)
theory Conversation
  imports Json JsRegex
begin

text \<open>
  The messages of a conversation, \<open>src/src/agent/types.ts\<close>, what of them the model sees,
  \<open>agent/message-provenance.ts\<close> and \<open>agent/content.ts\<close>, and their size in tokens,
  \<open>utils/tokens.ts\<close> and \<open>prompt/context.ts\<close>.  The tokenizer is a package: an argument
  that counts the tokens of a text for one of its models, or fails.
\<close>

subsection \<open>Messages\<close>

datatype role = SystemRole | UserRole | AssistantRole | ToolRole

record image_data =
  im_base64 :: string
  im_mediaType :: string

text \<open>\<open>null\<close> and an absent encrypted content are not told apart by any reader of it.\<close>

record reasoning =
  rz_id :: string
  rz_encryptedContent :: "string option"
  rz_rawContent :: "string option"
  rz_signature :: "string option"
  rz_summary :: "string list option"

datatype content_block =
    TextBlock string
  | ToolUseBlock string string jsobj
  | ToolResultBlock string string "bool option" "image_data option"
  | ReasoningBlock reasoning
  | ImageBlock string string

datatype content = PlainText string | Blocks "content_block list"

record operational_event =
  oe_kind :: string
  oe_id :: string
  oe_code :: string

record message =
  ms_id :: "string option"
  ms_executionId :: "string option"
  ms_event :: "operational_event option"
  ms_role :: role
  ms_content :: content
  ms_timestamp :: "int option"

definition plain_message :: "role \<Rightarrow> string \<Rightarrow> int \<Rightarrow> message" where
  "plain_message r s at = \<lparr>ms_id = None, ms_executionId = None, ms_event = None, ms_role = r,
     ms_content = PlainText s, ms_timestamp = Some at\<rparr>"

lemma plain_message_simps [simp]:
  "ms_role (plain_message r s at) = r" "ms_content (plain_message r s at) = PlainText s"
  "ms_event (plain_message r s at) = None"
  by (simp_all add: plain_message_def)

definition role_text :: "role \<Rightarrow> string" where
  "role_text r = (case r of SystemRole \<Rightarrow> ''system'' | UserRole \<Rightarrow> ''user'' | AssistantRole \<Rightarrow> ''assistant''
     | ToolRole \<Rightarrow> ''tool'')"

definition image_json :: "image_data \<Rightarrow> jsval" where
  "image_json i = JObj [(''base64'', JStr (im_base64 i)), (''mediaType'', JStr (im_mediaType i))]"

definition text_field :: "string \<Rightarrow> string option \<Rightarrow> jsobj" where
  "text_field k s = (case s of None \<Rightarrow> [] | Some t \<Rightarrow> [(k, JStr t)])"

text \<open>A block as the object that is serialized, its properties in the order of the interface.\<close>

definition block_json :: "content_block \<Rightarrow> jsval" where
  "block_json b = (case b of
      TextBlock t \<Rightarrow> JObj [(''type'', JStr ''text''), (''text'', JStr t)]
    | ToolUseBlock i n inp \<Rightarrow> JObj [(''type'', JStr ''tool_use''), (''id'', JStr i), (''name'', JStr n), (''input'', JObj inp)]
    | ToolResultBlock i c e im \<Rightarrow> JObj ([(''type'', JStr ''tool_result''), (''toolUseId'', JStr i), (''content'', JStr c)]
        @ (case e of None \<Rightarrow> [] | Some x \<Rightarrow> [(''isError'', JBool x)])
        @ (case im of None \<Rightarrow> [] | Some x \<Rightarrow> [(''image'', image_json x)]))
    | ReasoningBlock r \<Rightarrow> JObj ([(''type'', JStr ''reasoning''), (''id'', JStr (rz_id r))]
        @ text_field ''encryptedContent'' (rz_encryptedContent r) @ text_field ''rawContent'' (rz_rawContent r)
        @ text_field ''signature'' (rz_signature r)
        @ (case rz_summary r of None \<Rightarrow> [] | Some ts \<Rightarrow> [(''summary'', JArr (map (\<lambda>t. JObj [(''text'', JStr t)]) ts))]))
    | ImageBlock media d \<Rightarrow> JObj [(''type'', JStr ''image''), (''source'', JObj [(''type'', JStr ''base64''),
        (''data'', JStr d), (''media_type'', JStr media)])])"

text \<open>An object is never left out by \<open>JSON.stringify\<close>.\<close>

definition stringify :: "jsval \<Rightarrow> string" where
  "stringify v = (case json_text v of None \<Rightarrow> [] | Some s \<Rightarrow> s)"

definition is_tool_result :: "content_block \<Rightarrow> bool" where
  "is_tool_result b = (case b of ToolResultBlock _ _ _ _ \<Rightarrow> True | _ \<Rightarrow> False)"

subsection \<open>What the model sees\<close>

definition isFrameworkOperationalMessage :: "message \<Rightarrow> bool" where
  "isFrameworkOperationalMessage m \<longleftrightarrow> ms_role m = AssistantRole \<and>
     (case ms_event m of None \<Rightarrow> False
      | Some e \<Rightarrow> oe_kind e = ''framework_terminal_failure'' \<and> oe_id e \<noteq> []
          \<and> oe_code e \<in> {''provider_failure'', ''context_capacity''})"

definition modelConversationMessages :: "message list \<Rightarrow> message list" where
  "modelConversationMessages ms =
     (if list_ex isFrameworkOperationalMessage ms then filter (\<lambda>m. \<not> isFrameworkOperationalMessage m) ms else ms)"

lemma modelConversationMessages_filter:
  "modelConversationMessages ms = filter (\<lambda>m. \<not> isFrameworkOperationalMessage m) ms"
  by (auto simp: modelConversationMessages_def list_ex_iff intro!: filter_True [symmetric])

lemma modelConversationMessages_idem [simp]:
  "modelConversationMessages (modelConversationMessages ms) = modelConversationMessages ms"
  by (simp add: modelConversationMessages_filter)

text \<open>A chat message has the blocks of the message, without its identities.\<close>

definition messagesToChat :: "message list \<Rightarrow> (role \<times> content) list" where
  "messagesToChat ms = map (\<lambda>m. (ms_role m, ms_content m)) (modelConversationMessages ms)"

definition visibleTextFromContent :: "content \<Rightarrow> string" where
  "visibleTextFromContent c = (case c of PlainText s \<Rightarrow> s
     | Blocks bs \<Rightarrow> concat (map (\<lambda>b. case b of TextBlock t \<Rightarrow> t | _ \<Rightarrow> []) bs))"

definition reasoningTextFromContent :: "content \<Rightarrow> string" where
  "reasoningTextFromContent c = (case c of PlainText s \<Rightarrow> []
     | Blocks bs \<Rightarrow> js_trim (js_join [CHR 0x0A] (filter (\<lambda>s. s \<noteq> []) (concat (map (\<lambda>b. case b of
         ReasoningBlock r \<Rightarrow>
           [case rz_rawContent r of
              Some raw \<Rightarrow> if js_trim raw \<noteq> [] then js_trim raw
                else (case rz_summary r of None \<Rightarrow> [] | Some ts \<Rightarrow> js_join [CHR 0x0A] (filter (\<lambda>s. s \<noteq> []) ts))
            | None \<Rightarrow> (case rz_summary r of None \<Rightarrow> [] | Some ts \<Rightarrow> js_join [CHR 0x0A] (filter (\<lambda>s. s \<noteq> []) ts))]
       | _ \<Rightarrow> []) bs)))))"

definition any_char :: re where
  "any_char = RCls True []"

definition think_re :: re where
  "think_re = RSeqs [RLit ''<think>'', RLazy any_char, RLit ''</think>'']"

definition strippedVisibleTextFromContent :: "content \<Rightarrow> string" where
  "strippedVisibleTextFromContent c = js_trim (re_replace_all False think_re [] (visibleTextFromContent c))"

definition hasVisibleAssistantText :: "content \<Rightarrow> bool" where
  "hasVisibleAssistantText c \<longleftrightarrow> 0 < length (strippedVisibleTextFromContent c)"

subsection \<open>Tokens\<close>

type_synonym tokenizer = "string \<Rightarrow> string \<Rightarrow> nat option"

text \<open>The model of the tokenizer that stands for a model.\<close>

definition tiktoken_model :: "string \<Rightarrow> string" where
  "tiktoken_model model = (if js_includes model ''gpt-3.5'' then ''gpt-3.5-turbo'' else ''gpt-4o'')"

definition countTokens :: "tokenizer \<Rightarrow> string \<Rightarrow> string \<Rightarrow> int" where
  "countTokens enc model text = (case enc (tiktoken_model model) text of
      Some n \<Rightarrow> int n | None \<Rightarrow> int ((length text + 3) div 4))"

lemma countTokens_nonneg [simp]: "0 \<le> countTokens enc model text"
  by (simp add: countTokens_def split: option.splits)

definition image_token_estimate :: int where
  "image_token_estimate = 1600"

definition estimateEncryptedContentTokens :: "int \<Rightarrow> int" where
  "estimateEncryptedContentTokens base64Len = (max 0 (base64Len * 3 div 4 - 650) + 3) div 4"

definition estimateReasoningTokens :: "tokenizer \<Rightarrow> string \<Rightarrow> reasoning \<Rightarrow> int" where
  "estimateReasoningTokens enc model r =
     (case rz_encryptedContent r of None \<Rightarrow> 0
        | Some e \<Rightarrow> if e = [] then 0 else estimateEncryptedContentTokens (int (length e)))
     + (case rz_rawContent r of None \<Rightarrow> 0 | Some t \<Rightarrow> if t = [] then 0 else countTokens enc model t)
     + (case rz_summary r of None \<Rightarrow> 0
        | Some ts \<Rightarrow> sum_list (map (countTokens enc model) (filter (\<lambda>t. t \<noteq> []) ts)))
     + (case rz_signature r of None \<Rightarrow> 0 | Some s \<Rightarrow> if s = [] then 0 else (int (length s) + 3) div 4)"

definition block_tokens :: "tokenizer \<Rightarrow> string \<Rightarrow> content_block \<Rightarrow> int" where
  "block_tokens enc model b = (case b of
      ToolResultBlock _ c _ im \<Rightarrow>
        (case im of None \<Rightarrow> countTokens enc model c | Some _ \<Rightarrow> countTokens enc model c + image_token_estimate)
    | TextBlock t \<Rightarrow> countTokens enc model t
    | ReasoningBlock r \<Rightarrow> estimateReasoningTokens enc model r
    | _ \<Rightarrow> countTokens enc model (stringify (block_json b)))"

definition message_tokens :: "tokenizer \<Rightarrow> string \<Rightarrow> message \<Rightarrow> int" where
  "message_tokens enc model m = (case ms_content m of
      PlainText s \<Rightarrow> countTokens enc model s
    | Blocks bs \<Rightarrow> sum_list (map (block_tokens enc model) bs))"

definition estimateTokens :: "tokenizer \<Rightarrow> string \<Rightarrow> message list \<Rightarrow> int" where
  "estimateTokens enc model ms = sum_list (map (message_tokens enc model) ms)"

lemma encrypted_nonneg: "0 \<le> estimateEncryptedContentTokens n"
  by (simp add: estimateEncryptedContentTokens_def)

lemma sum_list_nonneg_int: "(\<And>x. x \<in> set xs \<Longrightarrow> 0 \<le> f x) \<Longrightarrow> (0::int) \<le> sum_list (map f xs)"
  by (induction xs) auto

lemma block_tokens_nonneg [simp]: "0 \<le> block_tokens enc model b"
  by (auto simp: block_tokens_def image_token_estimate_def estimateReasoningTokens_def encrypted_nonneg
      intro!: sum_list_nonneg_int add_nonneg_nonneg split: content_block.splits option.splits)

lemma message_tokens_nonneg [simp]: "0 \<le> message_tokens enc model m"
  by (auto simp: message_tokens_def intro!: sum_list_nonneg_int split: content.splits)

lemma estimateTokens_nonneg [simp]: "0 \<le> estimateTokens enc model ms"
  by (simp add: estimateTokens_def sum_list_nonneg_int)

lemma estimateTokens_simps [simp]:
  "estimateTokens enc model [] = 0"
  "estimateTokens enc model (m # ms) = message_tokens enc model m + estimateTokens enc model ms"
  "estimateTokens enc model (ms @ ms') = estimateTokens enc model ms + estimateTokens enc model ms'"
  by (simp_all add: estimateTokens_def)

subsection \<open>Stale screenshots\<close>

definition has_image :: "content_block \<Rightarrow> bool" where
  "has_image b = (case b of ToolResultBlock _ _ _ (Some _) \<Rightarrow> True | _ \<Rightarrow> False)"

definition stale_note :: string where
  "stale_note = CHR 0x0A # ''[Stale screenshot omitted from working context; transcript unchanged.]''"

definition strip_image :: "content_block \<Rightarrow> content_block" where
  "strip_image b = (case b of ToolResultBlock i c e (Some _) \<Rightarrow> ToolResultBlock i (js_trim (c @ stale_note)) e None | _ \<Rightarrow> b)"

text \<open>The first \<open>n\<close> screenshots of the conversation are dropped, walking its blocks in order.\<close>

fun strip_blocks :: "nat \<Rightarrow> content_block list \<Rightarrow> nat \<times> content_block list" where
  "strip_blocks n [] = (n, [])"
| "strip_blocks n (b # bs) =
     (if has_image b \<and> 0 < n then (case strip_blocks (n - 1) bs of (k, rest) \<Rightarrow> (k, strip_image b # rest))
      else (case strip_blocks n bs of (k, rest) \<Rightarrow> (k, b # rest)))"

fun strip_messages :: "nat \<Rightarrow> message list \<Rightarrow> message list" where
  "strip_messages n [] = []"
| "strip_messages n (m # ms) = (case ms_content m of
      PlainText _ \<Rightarrow> m # strip_messages n ms
    | Blocks bs \<Rightarrow> (case strip_blocks n bs of (k, bs') \<Rightarrow> m\<lparr>ms_content := Blocks bs'\<rparr> # strip_messages k ms))"

definition image_count :: "message list \<Rightarrow> nat" where
  "image_count ms = sum_list (map (\<lambda>m. case ms_content m of PlainText _ \<Rightarrow> 0 | Blocks bs \<Rightarrow> length (filter has_image bs)) ms)"

definition stripStaleWorkingImages :: "nat \<Rightarrow> message list \<Rightarrow> message list \<times> nat" where
  "stripStaleWorkingImages keepNewest ms =
     (if image_count ms \<le> keepNewest then (ms, 0)
      else (strip_messages (image_count ms - keepNewest) ms, image_count ms - keepNewest))"

end
