(* ===== verification/JsNumber.thy ===== *)
theory JsNumber
  imports Prelude Complex_Main
begin

text \<open>
  The numbers of JavaScript where a computation leaves the integers: a double is a rational
  number, and \<open>dbl\<close> is the double nearest to a rational, with ties to the even significand.
  An arithmetic operation of the source is the exact one followed by \<open>dbl\<close>.  The numbers of
  the model are far from the ends of the range of exponents.
\<close>

subsection \<open>Rounding to an integer\<close>

definition round_even :: "rat \<Rightarrow> int" where
  "round_even x =
     (let f = \<lfloor>x\<rfloor>; d = x - of_int f
      in if d < 1 / 2 then f else if 1 / 2 < d then f + 1 else if even f then f else f + 1)"

lemma round_even_int [simp]: "round_even (of_int n) = n"
  by (simp add: round_even_def)

lemma round_even_bounds: "\<lfloor>x\<rfloor> \<le> round_even x" "round_even x \<le> \<lfloor>x\<rfloor> + 1"
  by (auto simp: round_even_def Let_def)

lemma round_even_mono:
  assumes "x \<le> y"
  shows "round_even x \<le> round_even y"
proof (cases "\<lfloor>x\<rfloor> = \<lfloor>y\<rfloor>")
  case True
  then show ?thesis using assms by (auto simp: round_even_def Let_def)
next
  case False
  then have "\<lfloor>x\<rfloor> + 1 \<le> \<lfloor>y\<rfloor>" using floor_mono [OF assms] by linarith
  then show ?thesis using round_even_bounds [of x] round_even_bounds [of y] by linarith
qed

subsection \<open>The binary exponent of a number\<close>

function bit_count :: "int \<Rightarrow> nat" where
  "bit_count n = (if n \<le> 0 then 0 else Suc (bit_count (n div 2)))"
  by pat_completeness auto
termination by (relation "measure nat") auto

declare bit_count.simps [simp del]

lemma bit_count_bounds: "0 < n \<Longrightarrow> 0 < bit_count n \<and> 2 ^ (bit_count n - 1) \<le> n \<and> n < 2 ^ bit_count n"
proof (induction n rule: bit_count.induct)
  case (1 n)
  show ?case
  proof (cases "n = 1")
    case True
    then show ?thesis by (simp add: bit_count.simps)
  next
    case False
    then have "0 < n div 2" using 1(2) by linarith
    with 1 have ih: "0 < bit_count (n div 2)" "2 ^ (bit_count (n div 2) - 1) \<le> n div 2" "n div 2 < 2 ^ bit_count (n div 2)"
      by auto
    have s: "bit_count n = Suc (bit_count (n div 2))" using 1(2) by (subst bit_count.simps) simp
    have "(2::int) ^ bit_count (n div 2) = 2 * 2 ^ (bit_count (n div 2) - 1)"
      using ih(1) by (metis Suc_diff_1 power_Suc)
    then show ?thesis using ih(2,3) s by simp linarith
  qed
qed

text \<open>The exponent \<open>k\<close> with \<open>2 ^ k \<le> a < 2 ^ (k + 1)\<close>, for a positive \<open>a\<close>.\<close>

definition binary_exponent :: "rat \<Rightarrow> int" where
  "binary_exponent a = (case quotient_of a of (n, d) \<Rightarrow>
     let k = int (bit_count n) - int (bit_count d) in if 2 powi k \<le> a then k else k - 1)"

lemma binary_exponent:
  assumes "0 < a"
  shows "2 powi binary_exponent a \<le> a" "a < 2 powi (binary_exponent a + 1)"
proof -
  obtain n d where q: "quotient_of a = (n, d)" by fastforce
  have d: "0 < d" and a: "a = of_int n / of_int d" using quotient_of_denom_pos [OF q] quotient_of_div [OF q] by auto
  then have n: "0 < n" using assms by (simp add: zero_less_divide_iff)
  let ?k = "int (bit_count n) - int (bit_count d)"
  note bn = bit_count_bounds [OF n] and bd = bit_count_bounds [OF d]
  have pow: "(2::rat) powi int k = of_int (2 ^ k)" for k by simp
  have "of_int n < (2::rat) powi int (bit_count n)" using bn unfolding pow by (simp only: of_int_less_iff)
  moreover have "(2::rat) powi (int (bit_count d) - 1) \<le> of_int d"
  proof -
    have "int (bit_count d) - 1 = int (bit_count d - 1)" using bd by simp
    then show ?thesis using bd unfolding pow by (metis of_int_le_iff pow)
  qed
  ultimately have "a < 2 powi int (bit_count n) / 2 powi (int (bit_count d) - 1)"
    unfolding a using d n by (intro frac_less) (auto simp: zero_less_power_int)
  also have "\<dots> = 2 powi (?k + 1)" by (simp add: power_int_diff power_int_add field_simps)
  finally have upper: "a < 2 powi (?k + 1)" .
  have "(2::rat) powi (int (bit_count n) - 1) \<le> of_int n"
  proof -
    have "int (bit_count n) - 1 = int (bit_count n - 1)" using bn by simp
    then show ?thesis using bn unfolding pow by (metis of_int_le_iff pow)
  qed
  moreover have "of_int d \<le> (2::rat) powi int (bit_count d)"
    using bd unfolding pow by (metis of_int_le_iff order.strict_implies_order)
  ultimately have "2 powi (int (bit_count n) - 1) / 2 powi int (bit_count d) \<le> a"
    unfolding a using d n by (intro frac_le) auto
  moreover have "(2::rat) powi (int (bit_count n) - 1) / 2 powi int (bit_count d) = 2 powi (?k - 1)"
    by (simp add: power_int_diff power_int_add field_simps)
  ultimately have lower: "2 powi (?k - 1) \<le> a" by simp
  show "2 powi binary_exponent a \<le> a" "a < 2 powi (binary_exponent a + 1)"
    using upper lower by (auto simp: binary_exponent_def q Let_def)
qed

subsection \<open>The nearest double\<close>

definition dbl_pos :: "rat \<Rightarrow> rat" where
  "dbl_pos a = (let e = binary_exponent a - 52 in of_int (round_even (a / 2 powi e)) * 2 powi e)"

definition dbl :: "rat \<Rightarrow> rat" where
  "dbl q = (if q = 0 then 0 else if q < 0 then - dbl_pos (- q) else dbl_pos q)"

text \<open>The significand is between \<open>2 ^ 52\<close> and \<open>2 ^ 53\<close>.\<close>

lemma significand:
  assumes "0 < a"
  shows "2 ^ 52 \<le> round_even (a / 2 powi (binary_exponent a - 52))"
    "round_even (a / 2 powi (binary_exponent a - 52)) \<le> 2 ^ 53"
proof -
  let ?x = "a / 2 powi (binary_exponent a - 52)"
  note b = binary_exponent [OF assms]
  have "2 ^ 52 \<le> ?x" using b(1) by (simp add: power_int_diff field_simps)
  from round_even_mono [OF this] show "2 ^ 52 \<le> round_even ?x"
    using round_even_int [of "2 ^ 52"] by simp
  have "?x \<le> 2 ^ 53" using b(2) by (simp add: power_int_diff power_int_add field_simps)
  from round_even_mono [OF this] show "round_even ?x \<le> 2 ^ 53"
    using round_even_int [of "2 ^ 53"] by simp
qed

lemma significand_rat:
  assumes "0 < a"
  shows "2 ^ 52 \<le> rat_of_int (round_even (a / 2 powi (binary_exponent a - 52)))"
    "rat_of_int (round_even (a / 2 powi (binary_exponent a - 52))) \<le> 2 ^ 53"
  using significand [OF assms] by (metis of_int_le_iff of_int_numeral of_int_power)+

lemma dbl_pos_mono:
  assumes "0 < a" "a \<le> b"
  shows "dbl_pos a \<le> dbl_pos b"
proof -
  let ?i = "binary_exponent a" and ?j = "binary_exponent b"
  have b: "0 < b" using assms by simp
  have "2 powi ?i < (2::rat) powi (?j + 1)"
    using binary_exponent(1) [OF assms(1)] assms(2) binary_exponent(2) [OF b] by (meson le_less_trans less_le_trans)
  then have ij: "?i \<le> ?j" using power_int_increasing [of "?j + 1" ?i "2 :: rat"] by (cases "?j + 1 \<le> ?i") auto
  show ?thesis
  proof (cases "?i = ?j")
    case True
    have "a / 2 powi (?j - 52) \<le> b / 2 powi (?j - 52)" using assms(2) by (intro divide_right_mono) auto
    then show ?thesis using round_even_mono by (simp add: dbl_pos_def True Let_def mult_right_mono)
  next
    case False
    have "dbl_pos a \<le> 2 ^ 53 * 2 powi (?i - 52)"
      unfolding dbl_pos_def Let_def by (intro mult_right_mono significand_rat [OF assms(1)]) simp
    also have "\<dots> = 2 ^ 52 * 2 powi (?i + 1 - 52)" by (simp add: power_int_diff power_int_add field_simps)
    also have "\<dots> \<le> 2 ^ 52 * 2 powi (?j - 52)"
      using ij False by (intro mult_left_mono power_int_increasing) auto
    also have "\<dots> \<le> dbl_pos b"
      unfolding dbl_pos_def Let_def by (intro mult_right_mono significand_rat [OF b]) simp
    finally show ?thesis .
  qed
qed

lemma dbl_pos_ge: "0 < a \<Longrightarrow> 0 < dbl_pos a"
  using significand(1) [of a] by (simp add: dbl_pos_def Let_def zero_less_mult_iff zero_less_power_int)

lemma dbl_mono: "x \<le> y \<Longrightarrow> dbl x \<le> dbl y"
  using dbl_pos_mono [of x y] dbl_pos_mono [of "- y" "- x"] dbl_pos_ge [of y] dbl_pos_ge [of "- x"]
  by (auto simp: dbl_def not_less order.order_iff_strict)

lemma dbl_pos_int:
  assumes "0 < n" "n < 2 ^ 53"
  shows "dbl_pos (of_int n) = of_int n"
proof -
  let ?i = "binary_exponent (of_int n)"
  have "2 powi ?i < (2::rat) powi 53"
    using binary_exponent(1) [of "of_int n"] assms by (simp add: order.strict_trans1 [rotated])
  then have "?i - 52 \<le> 0" using power_int_increasing [of 53 ?i "2 :: rat"] by (cases "53 \<le> ?i") auto
  then obtain k where k: "?i - 52 = - int k" by (metis neg_0_le_iff_le nonneg_int_cases minus_minus)
  have "of_int n / (2::rat) powi (?i - 52) = of_int (n * 2 ^ k)" by (simp add: k power_int_minus field_simps)
  then have "round_even (of_int n / 2 powi (?i - 52)) = n * 2 ^ k" by (metis round_even_int)
  then show ?thesis by (simp add: dbl_pos_def k power_int_minus field_simps)
qed

lemma dbl_int: "\<bar>n\<bar> < 2 ^ 53 \<Longrightarrow> dbl (of_int n) = of_int n"
  using dbl_pos_int [of n] dbl_pos_int [of "- n"] by (auto simp: dbl_def)

text \<open>Of a product with a factor from one on, rounded up to an integer, nothing is lost.\<close>

lemma ceiling_scaled:
  assumes "0 \<le> n" "n < 2 ^ 53" "1 \<le> f"
  shows "n \<le> \<lceil>dbl (of_int n * f)\<rceil>"
proof -
  have "of_int n \<le> of_int n * f" using assms by (simp add: mult_le_cancel_left1)
  from dbl_mono [OF this] have "of_int n \<le> dbl (of_int n * f)" using dbl_int [of n] assms by simp
  then show ?thesis by (simp add: le_ceiling_iff less_le_trans)
qed

text \<open>The relative error of a rounding.\<close>

lemma round_even_error: "\<bar>of_int (round_even x) - x\<bar> \<le> 1 / 2"
proof -
  have "of_int \<lfloor>x\<rfloor> \<le> x" "x < of_int \<lfloor>x\<rfloor> + 1" by linarith+
  then show ?thesis by (auto simp: round_even_def Let_def abs_le_iff)
qed

lemma dbl_pos_error:
  assumes "0 < a"
  shows "\<bar>dbl_pos a - a\<bar> \<le> a / 2 ^ 53"
proof -
  let ?u = "2 powi (binary_exponent a - 52) :: rat"
  have u: "0 < ?u" by (simp add: zero_less_power_int)
  have "dbl_pos a - a = (of_int (round_even (a / ?u)) - a / ?u) * ?u"
    using u by (simp add: dbl_pos_def Let_def left_diff_distrib)
  then have "\<bar>dbl_pos a - a\<bar> = \<bar>of_int (round_even (a / ?u)) - a / ?u\<bar> * ?u"
    using u by (simp add: abs_mult)
  also have "\<dots> \<le> 1 / 2 * ?u" using round_even_error u by (intro mult_right_mono) auto
  also have "\<dots> = 2 powi binary_exponent a / 2 ^ 53" by (simp add: power_int_diff field_simps)
  also have "\<dots> \<le> a / 2 ^ 53" using binary_exponent(1) [OF assms] by (intro divide_right_mono) auto
  finally show ?thesis .
qed

lemma dbl_upper:
  assumes "0 \<le> x"
  shows "dbl x \<le> x * (1 + 1 / 2 ^ 53)"
proof (cases "x = 0")
  case False
  with assms have "0 < x" by simp
  from dbl_pos_error [OF this] have "dbl_pos x - x \<le> x / 2 ^ 53" by (rule abs_le_D1)
  then show ?thesis using assms False by (simp add: dbl_def distrib_left)
qed (simp add: dbl_def)

lemma dbl_lower:
  assumes "0 \<le> x"
  shows "x * (1 - 1 / 2 ^ 53) \<le> dbl x"
proof (cases "x = 0")
  case False
  with assms have "0 < x" by simp
  from dbl_pos_error [OF this] have "x - dbl_pos x \<le> x / 2 ^ 53" by (metis abs_le_D2 minus_diff_eq)
  then show ?thesis using assms False by (simp add: dbl_def right_diff_distrib)
qed (simp add: dbl_def)

lemma dbl_nonneg: "0 \<le> x \<Longrightarrow> 0 \<le> dbl x"
  using dbl_mono [of 0 x] by (simp add: dbl_def)

lemma dbl_one [simp]: "dbl 1 = 1"
  using dbl_int [of 1] by simp

lemma dbl_at_least_one: "1 \<le> x \<Longrightarrow> 1 \<le> dbl x"
  using dbl_mono [of 1 x] by simp

end
