(* ===== verification/ContextBudget.thy ===== *)
theory ContextBudget
  imports Conversation JsNumber
begin

text \<open>
  When a conversation has to be compacted and when the next call of the provider fits,
  \<open>src/src/prompt/context.ts\<close>, with the tests on model names of
  \<open>src/src/provider/registry.ts\<close> and \<open>provider/grok-voice.ts\<close>.  The fractions are doubles,
  and every operation on them is rounded.
\<close>

subsection \<open>Model names\<close>

text \<open>\<open>s.replace(/^p/i, '')\<close>\<close>

definition drop_prefix :: "string \<Rightarrow> string \<Rightarrow> string" where
  "drop_prefix p s = (if js_starts_with (js_lower s) p then drop (length p) s else s)"

function drop_prefixes :: "string \<Rightarrow> string \<Rightarrow> string" where
  "drop_prefixes p s = (if p \<noteq> [] \<and> js_starts_with (js_lower s) p then drop_prefixes p (drop (length p) s) else s)"
  by pat_completeness auto
termination
proof (relation "measure (\<lambda>(p, s). length s)")
  fix p s :: string
  assume "p \<noteq> [] \<and> js_starts_with (js_lower s) p"
  then have "p \<noteq> []" "s \<noteq> []" by (auto simp: js_starts_with_def js_lower_def)
  then show "((p, drop (length p) s), p, s) \<in> measure (\<lambda>(p, s). length s)" by (cases p; cases s) auto
qed simp

declare drop_prefixes.simps [simp del]

definition strip_voice_step :: "string \<Rightarrow> string" where
  "strip_voice_step s =
     (if js_starts_with (js_lower s) ''cortex/'' then drop_prefixes ''cortex/'' s
      else if js_starts_with (js_lower s) ''xai/'' then drop 4 s
      else drop_prefix ''xai:'' s)"

definition stripGrokVoicePrefix :: "string \<Rightarrow> string" where
  "stripGrokVoicePrefix model = js_lower ((strip_voice_step ^^ 4) (js_trim model))"

definition isGrokVoiceOmniModel :: "string \<Rightarrow> bool" where
  "isGrokVoiceOmniModel model \<longleftrightarrow> model \<noteq> [] \<and> js_starts_with (stripGrokVoicePrefix model) ''grok-voice''"

definition cortex_family_prefixes :: "string list" where
  "cortex_family_prefixes = [''glm-'', ''chatglm'', ''qwen'', ''gpt-oss'', ''minimax'', ''deepseek'', ''grok-'']"

definition cortex_free_ids :: "string list" where
  "cortex_free_ids = [''big-pickle'', ''deepseek-v4-flash-free'', ''mimo-v2.5-free'', ''hy3-free'',
     ''laguna-s-2.1-free'', ''nemotron-3-ultra-free'', ''nemotron-3.5-lightning-free'']"

text \<open>The prefixes end in a slash, so at most one of them matches.\<close>

definition strip_zen :: "string \<Rightarrow> string" where
  "strip_zen lower =
     (if js_starts_with lower ''cortex/'' then drop 7 lower
      else if js_starts_with lower ''opencode/'' then drop 9 lower
      else if js_starts_with lower ''opencode-zen/'' then drop 13 lower else lower)"

definition isCortexModelId :: "string \<Rightarrow> bool" where
  "isCortexModelId model =
     (if model = [] \<or> isGrokVoiceOmniModel model then False
      else let lower = js_lower model in
        js_starts_with lower ''cortex/'' \<or> js_starts_with lower ''xai/grok-''
        \<or> js_starts_with lower ''opencode/'' \<or> js_starts_with lower ''opencode-zen/''
        \<or> strip_zen lower \<in> set cortex_free_ids
        \<or> list_ex (js_starts_with lower) cortex_family_prefixes)"

subsection \<open>Settings\<close>

text \<open>
  \<open>Number\<close> on the texts of the settings: of the numeric texts the decimal integers and
  fractions are read.
\<close>

definition safe_integer :: int where
  "safe_integer = 2 ^ 53 - 1"

definition positiveIntEnv :: "environ \<Rightarrow> string \<Rightarrow> int option" where
  "positiveIntEnv env name = (case env name of None \<Rightarrow> None
     | Some raw \<Rightarrow> if raw = [] then None
         else (case js_number (JStr raw) of None \<Rightarrow> None
           | Some n \<Rightarrow> if n \<le> safe_integer \<and> 0 < n then Some n else None))"

definition decimal_fraction :: "string \<Rightarrow> rat option" where
  "decimal_fraction s =
     (let whole = takeWhile (\<lambda>c. c \<noteq> CHR ''.'') s; frac = drop (Suc (length whole)) s in
      if s = [] \<or> \<not> list_all is_digit whole \<or> \<not> list_all is_digit frac \<or> whole @ frac = [] then None
      else Some (dbl (of_nat (parse_nat (whole @ frac)) / 10 ^ length frac)))"

definition positiveFloatEnv :: "environ \<Rightarrow> string \<Rightarrow> rat option" where
  "positiveFloatEnv env name = (case env name of None \<Rightarrow> None
     | Some raw \<Rightarrow> (case decimal_fraction (js_trim raw) of None \<Rightarrow> None
         | Some x \<Rightarrow> if 0 < x \<and> x < 1 then Some x else None))"

subsection \<open>How full the context is\<close>

definition safety_anthropic :: rat where
  "safety_anthropic = dbl (135 / 100)"

definition safety_local :: rat where
  "safety_local = dbl (145 / 100)"

definition getSafetyFactor :: "string \<Rightarrow> rat" where
  "getSafetyFactor model =
     (if model = [] then safety_anthropic
      else let bare = drop_prefix ''openai/'' (drop_prefix ''codex/'' (drop_prefix ''cortex/'' model)) in
        if list_ex (js_starts_with bare) [''gpt-'', ''codex-'', ''o1'', ''o3'', ''o4'']
           \<or> js_includes (js_lower bare) ''codex'' then 1
        else if list_ex (js_starts_with model) [''llamacpp/'', ''ollama/'', ''vllm/''] \<or> isCortexModelId model
        then safety_local
        else safety_anthropic)"

definition growth_factor :: rat where
  "growth_factor = dbl (11 / 10)"

definition estimateOverheadTokens :: "tokenizer \<Rightarrow> string \<Rightarrow> string \<Rightarrow> jsval list \<Rightarrow> int" where
  "estimateOverheadTokens enc model systemPrompt toolDefs =
     countTokens enc model systemPrompt
     + (if toolDefs \<noteq> [] then countTokens enc model (stringify (JArr toolDefs)) else 0)"

definition providerPromptTokensOrEstimate :: "int \<Rightarrow> int \<Rightarrow> int" where
  "providerPromptTokensOrEstimate providerInput estimate = (if 0 < providerInput then providerInput else max 0 estimate)"

text \<open>The tokens around the messages, and what the provider has reported of the last call.\<close>

record context_use =
  cu_overhead :: int
  cu_output :: int
  cu_reported :: int
  cu_reportedRaw :: int
  cu_guard :: int

definition raw_estimate :: "tokenizer \<Rightarrow> string \<Rightarrow> context_use \<Rightarrow> message list \<Rightarrow> int" where
  "raw_estimate enc model u ms = estimateTokens enc model ms + cu_overhead u"

definition effectiveContextTokens :: "tokenizer \<Rightarrow> string \<Rightarrow> context_use \<Rightarrow> message list \<Rightarrow> int" where
  "effectiveContextTokens enc model u ms =
     (let raw = raw_estimate enc model u ms in
      if 0 < cu_reported u then
        (if 0 < cu_reportedRaw u
         then cu_reported u + \<lceil>dbl (of_int (max 0 (raw - cu_reportedRaw u)) * growth_factor)\<rceil>
         else if cu_reported u < raw
         then cu_reported u + \<lceil>dbl (of_int (raw - cu_reported u) * growth_factor)\<rceil>
         else cu_reported u)
      else \<lceil>dbl (of_int raw * getSafetyFactor model)\<rceil>)"

subsection \<open>The trigger and the target of a compaction\<close>

definition small_window_threshold :: rat where
  "small_window_threshold = dbl (70 / 100)"

definition large_window :: int where
  "large_window = 200000"

definition min_trigger_tokens :: int where
  "min_trigger_tokens = 48000"

definition default_trigger_fraction :: rat where
  "default_trigger_fraction = dbl (60 / 100)"

definition default_target_fraction :: rat where
  "default_target_fraction = dbl (40 / 100)"

definition preflight_guard :: "int \<Rightarrow> int" where
  "preflight_guard maxTokens = max 1024 (min 65536 \<lceil>dbl (of_int maxTokens * (125 / 1000))\<rceil>)"

definition largeWindowHeadroomTokens :: "int \<Rightarrow> int" where
  "largeWindowHeadroomTokens maxTokens =
     max (max 48000 \<lfloor>dbl (of_int maxTokens * dbl (15 / 100))\<rfloor>) (preflight_guard maxTokens + 16384)"

definition trigger_tokens :: "environ \<Rightarrow> int \<Rightarrow> int" where
  "trigger_tokens env maxTokens =
     (let fraction = (case positiveFloatEnv env ''SHIZUHA_CORTEX_COMPACTION_TRIGGER_FRACTION'' of
            None \<Rightarrow> default_trigger_fraction | Some f \<Rightarrow> f);
          configured = (case positiveIntEnv env ''SHIZUHA_CORTEX_COMPACTION_TRIGGER_TOKENS'' of
            None \<Rightarrow> \<lfloor>dbl (of_int maxTokens * fraction) + 1 / 2\<rfloor> | Some n \<Rightarrow> n)
      in min (max configured min_trigger_tokens) (maxTokens - largeWindowHeadroomTokens maxTokens))"

definition compactionThresholdFor :: "environ \<Rightarrow> int \<Rightarrow> rat" where
  "compactionThresholdFor env maxTokens =
     (if large_window \<le> maxTokens then dbl (of_int (trigger_tokens env maxTokens) / of_int maxTokens)
      else small_window_threshold)"

definition compactionTargetFractionFor :: "environ \<Rightarrow> int \<Rightarrow> rat" where
  "compactionTargetFractionFor env maxTokens =
     min (case positiveFloatEnv env ''SHIZUHA_CORTEX_COMPACTION_TARGET_FRACTION'' of
            None \<Rightarrow> default_target_fraction | Some f \<Rightarrow> f)
       (dbl (compactionThresholdFor env maxTokens * dbl (95 / 100)))"

definition trigger_level :: "environ \<Rightarrow> int \<Rightarrow> rat" where
  "trigger_level env maxTokens = dbl (of_int maxTokens * compactionThresholdFor env maxTokens)"

definition needsCompaction :: "tokenizer \<Rightarrow> environ \<Rightarrow> string \<Rightarrow> int \<Rightarrow> context_use \<Rightarrow> message list \<Rightarrow> bool" where
  "needsCompaction enc env model maxTokens u ms \<longleftrightarrow>
     (let estimated = effectiveContextTokens enc model u ms in
      trigger_level env maxTokens < of_int estimated
      \<or> (0 < cu_output u + cu_guard u \<and> maxTokens < estimated + cu_output u + cu_guard u)
      \<or> (cu_reportedRaw u \<le> 0 \<and> trigger_level env maxTokens < of_int (raw_estimate enc model u ms)))"

definition nextProviderCallFits :: "tokenizer \<Rightarrow> string \<Rightarrow> int \<Rightarrow> context_use \<Rightarrow> message list \<Rightarrow> bool" where
  "nextProviderCallFits enc model maxTokens u ms \<longleftrightarrow>
     effectiveContextTokens enc model u ms + cu_output u + cu_guard u \<le> maxTokens"

subsection \<open>The trigger fires before the window overflows\<close>

lemma safety_at_least_one: "1 \<le> getSafetyFactor model"
  by (simp add: getSafetyFactor_def safety_anthropic_def safety_local_def dbl_at_least_one Let_def)

lemma growth_at_least_one: "1 \<le> growth_factor"
  by (simp add: growth_factor_def dbl_at_least_one)

text \<open>
  Without a paired baseline the estimate is never below the raw count, so the raw floor of
  \<open>needsCompaction\<close> never decides.
\<close>

lemma effective_at_least_raw:
  assumes "cu_reportedRaw u \<le> 0" "0 \<le> raw_estimate enc model u ms" "raw_estimate enc model u ms < 2 ^ 53"
  shows "raw_estimate enc model u ms \<le> effectiveContextTokens enc model u ms"
  using assms ceiling_scaled [of "raw_estimate enc model u ms - cu_reported u" growth_factor]
    ceiling_scaled [of "raw_estimate enc model u ms" "getSafetyFactor model"] safety_at_least_one growth_at_least_one
  by (auto simp: effectiveContextTokens_def Let_def)

lemma raw_floor_redundant:
  assumes "0 \<le> raw_estimate enc model u ms" "raw_estimate enc model u ms < 2 ^ 53"
  shows "needsCompaction enc env model maxTokens u ms \<longleftrightarrow>
    trigger_level env maxTokens < of_int (effectiveContextTokens enc model u ms)
    \<or> (0 < cu_output u + cu_guard u \<and> maxTokens < effectiveContextTokens enc model u ms + cu_output u + cu_guard u)"
proof -
  have "trigger_level env maxTokens < of_int (effectiveContextTokens enc model u ms)"
    if "cu_reportedRaw u \<le> 0" "trigger_level env maxTokens < of_int (raw_estimate enc model u ms)"
    using effective_at_least_raw [OF that(1) assms] that(2) by (simp add: less_le_trans)
  then show ?thesis by (auto simp: needsCompaction_def Let_def)
qed

lemma effective_same [simp]:
  "effectiveContextTokens enc model (u\<lparr>cu_output := a, cu_guard := b\<rparr>) ms = effectiveContextTokens enc model u ms"
  by (simp add: effectiveContextTokens_def raw_estimate_def Let_def)

abbreviation rounding :: rat where
  "rounding \<equiv> 1 + 1 / 2 ^ 53"

text \<open>Rounding errors in front of a bound that are smaller than one token.\<close>

lemma rounded_below_next:
  assumes "0 \<le> t" "t < 2 ^ 50"
  shows "of_int t * (rounding * rounding) < of_int (t + 1)"
proof -
  have "rounding * rounding < 1 + 1 / (2 ^ 50 :: rat)" by (simp add: power2_eq_square)
  then have "of_int t * (rounding * rounding) \<le> of_int t * (1 + 1 / 2 ^ 50)"
    using assms(1) by (intro mult_left_mono) auto
  moreover have "of_int t * (1 / 2 ^ 50) < (1 :: rat)"
  proof -
    have "of_int t < (of_int (2 ^ 50) :: rat)" using assms(2) by (simp only: of_int_less_iff)
    then show ?thesis by simp
  qed
  ultimately show ?thesis by (simp add: distrib_left)
qed

lemma dbl_fraction_upper: "dbl (95 / 100) \<le> 95 / 100 * rounding" "dbl (15 / 100) \<le> 15 / 100 * rounding"
  by (rule dbl_upper; simp)+

lemma preflight_guard_bounds: "1024 \<le> preflight_guard m" "preflight_guard m \<le> 65536"
  by (auto simp: preflight_guard_def)

lemma headroom_room:
  assumes "large_window \<le> m"
  shows "largeWindowHeadroomTokens m < m"
proof -
  have m: "0 \<le> (of_int m :: rat)" using assms by (simp add: large_window_def)
  have "of_int m * dbl (15 / 100) \<le> of_int m * (15 / 100 * rounding)"
    using dbl_fraction_upper(2) m by (rule mult_left_mono)
  from dbl_mono [OF this] have "dbl (of_int m * dbl (15 / 100)) \<le> of_int m * (15 / 100 * rounding) * rounding"
    using dbl_upper [of "of_int m * (15 / 100 * rounding)"] m by (simp add: order_trans)
  also have "\<dots> < of_int m" using assms by (simp add: large_window_def)
  finally have "\<lfloor>dbl (of_int m * dbl (15 / 100))\<rfloor> < m" by (simp add: floor_less_iff)
  then show ?thesis
    using assms preflight_guard_bounds [of m] by (simp add: largeWindowHeadroomTokens_def large_window_def)
qed

lemma trigger_tokens_bounds:
  assumes "large_window \<le> m"
  shows "0 < trigger_tokens env m" "trigger_tokens env m + preflight_guard m + 16384 \<le> m"
  using headroom_room [OF assms]
  by (auto simp: trigger_tokens_def min_trigger_tokens_def largeWindowHeadroomTokens_def Let_def min_def max_def)

lemma threshold_upper:
  assumes "large_window \<le> m"
  shows "0 \<le> compactionThresholdFor env m" "of_int m * compactionThresholdFor env m \<le> of_int (trigger_tokens env m) * rounding"
proof -
  have m: "0 < (of_int m :: rat)" using assms by (simp add: large_window_def)
  have q: "0 \<le> (of_int (trigger_tokens env m) / of_int m :: rat)"
    using trigger_tokens_bounds(1) [OF assms, of env] m by simp
  show "0 \<le> compactionThresholdFor env m"
    using assms dbl_nonneg [OF q] by (simp add: compactionThresholdFor_def)
  have "compactionThresholdFor env m \<le> of_int (trigger_tokens env m) / of_int m * rounding"
    using dbl_upper [OF q] assms by (simp add: compactionThresholdFor_def)
  then have "of_int m * compactionThresholdFor env m \<le> of_int m * (of_int (trigger_tokens env m) / of_int m * rounding)"
    using m by (intro mult_left_mono) auto
  then show "of_int m * compactionThresholdFor env m \<le> of_int (trigger_tokens env m) * rounding"
    using m by simp
qed

lemma trigger_level_tokens:
  assumes "large_window \<le> m" "m < 2 ^ 50" "of_int n \<le> trigger_level env m"
  shows "n \<le> trigger_tokens env m"
proof -
  let ?t = "trigger_tokens env m"
  note up = threshold_upper [OF assms(1), of env]
  have t: "0 \<le> ?t" "?t < 2 ^ 50"
    using trigger_tokens_bounds [OF assms(1), of env] preflight_guard_bounds(1) [of m] assms(2) by linarith+
  have "0 \<le> of_int m * compactionThresholdFor env m" using up(1) assms(1) by (simp add: large_window_def)
  from dbl_upper [OF this] have "trigger_level env m \<le> of_int m * compactionThresholdFor env m * rounding"
    by (simp only: trigger_level_def)
  also have "\<dots> \<le> of_int ?t * rounding * rounding" using up(2) by (intro mult_right_mono) auto
  finally have "trigger_level env m < of_int (?t + 1)"
    using rounded_below_next [OF t] by (simp add: mult.assoc)
  then have "of_int n < (of_int (?t + 1) :: rat)" using assms(3) by (rule le_less_trans [rotated])
  then show ?thesis by (simp only: of_int_less_iff)
qed

lemma trigger_level_above:
  assumes "large_window \<le> m" "m < 2 ^ 50"
  shows "of_int (trigger_tokens env m - 1) < trigger_level env m"
proof -
  let ?t = "of_int (trigger_tokens env m) :: rat"
  have m: "0 < (of_int m :: rat)" and q: "0 \<le> ?t / of_int m"
    using assms(1) trigger_tokens_bounds(1) [OF assms(1), of env] by (simp_all add: large_window_def)
  have t: "?t < 2 ^ 50"
  proof -
    have "trigger_tokens env m < 2 ^ 50"
      using trigger_tokens_bounds(2) [OF assms(1), of env] preflight_guard_bounds(1) [of m] assms(2) by linarith
    then have "?t < of_int (2 ^ 50)" by (simp only: of_int_less_iff)
    then show ?thesis by simp
  qed
  have "?t / of_int m * (1 - 1 / 2 ^ 53) \<le> compactionThresholdFor env m"
    using dbl_lower [OF q] assms(1) by (simp add: compactionThresholdFor_def)
  then have "of_int m * (?t / of_int m * (1 - 1 / 2 ^ 53)) \<le> of_int m * compactionThresholdFor env m"
    using m by (intro mult_left_mono) auto
  then have "?t * (1 - 1 / 2 ^ 53) \<le> of_int m * compactionThresholdFor env m" using m by simp
  from dbl_mono [OF this] have "dbl (?t * (1 - 1 / 2 ^ 53)) \<le> trigger_level env m"
    by (simp only: trigger_level_def)
  moreover have "?t * (1 - 1 / 2 ^ 53) * (1 - 1 / 2 ^ 53) \<le> dbl (?t * (1 - 1 / 2 ^ 53))"
    using trigger_tokens_bounds(1) [OF assms(1), of env] by (intro dbl_lower) simp
  moreover have "?t - 1 < ?t * (1 - 1 / 2 ^ 53) * (1 - 1 / 2 ^ 53)" using t by simp
  ultimately show ?thesis by simp
qed

lemma target_below_trigger:
  assumes "large_window \<le> m"
  shows "\<lfloor>dbl (of_int m * compactionTargetFractionFor env m)\<rfloor> < trigger_tokens env m"
proof -
  let ?t = "of_int (trigger_tokens env m) :: rat" and ?f = "compactionThresholdFor env m"
  note up = threshold_upper [OF assms, of env]
  have m: "0 < (of_int m :: rat)" and t: "0 < ?t"
    using assms trigger_tokens_bounds(1) [OF assms, of env] by (simp_all add: large_window_def)
  have "compactionTargetFractionFor env m \<le> dbl (?f * dbl (95 / 100))"
    by (simp add: compactionTargetFractionFor_def)
  also have "\<dots> \<le> dbl (?f * (95 / 100 * rounding))"
    using up(1) dbl_fraction_upper(1) by (intro dbl_mono mult_left_mono)
  also have "\<dots> \<le> ?f * (95 / 100 * rounding) * rounding" using up(1) by (intro dbl_upper) simp
  finally have "of_int m * compactionTargetFractionFor env m \<le> of_int m * (?f * (95 / 100 * rounding) * rounding)"
    using m by (intro mult_left_mono) auto
  also have "\<dots> = of_int m * ?f * (95 / 100 * rounding * rounding)" by simp
  also have "\<dots> \<le> ?t * rounding * (95 / 100 * rounding * rounding)" using up(2) by (intro mult_right_mono) auto
  finally have "dbl (of_int m * compactionTargetFractionFor env m)
      \<le> dbl (?t * rounding * (95 / 100 * rounding * rounding))" by (rule dbl_mono)
  also have "\<dots> \<le> ?t * rounding * (95 / 100 * rounding * rounding) * rounding" using t by (intro dbl_upper) simp
  also have "\<dots> < ?t" using t by simp
  finally show ?thesis by (simp add: floor_less_iff)
qed

text \<open>
  C34. Compaction comes before overflow, whatever the settings.  For a large window, when
  \<open>needsCompaction\<close> asks for nothing, the next call fits with the default guard and the
  default output on top, and the size that a compaction aims at is below the trigger, so that
  it does not fire again at once; the numbers are those of the double arithmetic of the code.
\<close>

theorem trigger_before_overflow:
  assumes "large_window \<le> m" "m < 2 ^ 50"
  shows "(\<not> needsCompaction enc env model m u ms \<and> out \<le> 16384 \<longrightarrow>
      nextProviderCallFits enc model m (u\<lparr>cu_output := out, cu_guard := preflight_guard m\<rparr>) ms)
    \<and> (\<forall>n. of_int n \<le> dbl (of_int m * compactionTargetFractionFor env m) \<longrightarrow> of_int n < trigger_level env m)"
proof (intro conjI impI allI)
  assume n: "\<not> needsCompaction enc env model m u ms \<and> out \<le> 16384"
  then have "of_int (effectiveContextTokens enc model u ms) \<le> trigger_level env m"
    by (simp add: needsCompaction_def Let_def)
  from trigger_level_tokens [OF assms this] trigger_tokens_bounds(2) [OF assms(1), of env] n
  show "nextProviderCallFits enc model m (u\<lparr>cu_output := out, cu_guard := preflight_guard m\<rparr>) ms"
    by (simp add: nextProviderCallFits_def)
next
  fix n assume "of_int n \<le> dbl (of_int m * compactionTargetFractionFor env m)"
  then have n: "n < trigger_tokens env m" using target_below_trigger [OF assms(1), of env] by linarith
  show "of_int n < trigger_level env m"
    using trigger_level_above [OF assms, of env] n by (meson le_less_trans of_int_le_iff zle_diff1_eq)
qed

definition idle_context :: context_use where
  "idle_context = \<lparr>cu_overhead = 0, cu_output = 0, cu_reported = 0, cu_reportedRaw = 0, cu_guard = 0\<rparr>"

lemma trigger_before_overflow_witness:
  "nextProviderCallFits (\<lambda>_ _. None) ''gpt-4o'' 200000
     (idle_context\<lparr>cu_output := 16384, cu_guard := preflight_guard 200000\<rparr>) []"
proof -
  have large: "large_window \<le> 200000" by (simp add: large_window_def)
  have "(-1 :: rat) < of_int (trigger_tokens (\<lambda>_. None) 200000 - 1)"
    using trigger_tokens_bounds(1) [OF large, of "\<lambda>_. None"] by simp
  moreover have "of_int (trigger_tokens (\<lambda>_. None) 200000 - 1) < trigger_level (\<lambda>_. None) 200000"
    by (rule trigger_level_above [OF large]) simp
  ultimately have "0 \<le> trigger_level (\<lambda>_. None) 200000"
    using trigger_tokens_bounds(1) [OF large, of "\<lambda>_. None"] by linarith
  then have "\<not> needsCompaction (\<lambda>_ _. None) (\<lambda>_. None) ''gpt-4o'' 200000 idle_context []"
    by (simp add: needsCompaction_def effectiveContextTokens_def raw_estimate_def idle_context_def dbl_def Let_def not_less)
  with trigger_before_overflow [OF large, of "\<lambda>_ _. None" "\<lambda>_. None" "''gpt-4o''" idle_context "[]" 16384]
  show ?thesis by simp
qed

end
