(* ===== verification/Compaction.thy ===== *)
theory Compaction
  imports ContextBudget
begin

text \<open>
  The compaction of a conversation, \<open>src/src/state/compaction.ts\<close>: the oldest complete prefix
  that fits one request is replaced by a summary of the model, the rest stays as it is, and
  the passes repeat until the size that is aimed at is reached.

  The provider answers one request with the chunks of its stream, each with whether the abort
  signal was set when it arrived, and an end; the state behind it is \<open>'w\<close>, which also tells
  whether the signal is set, the time, the plan file and whether the caller's fence throws.
  The fixed texts of the prompts are arguments, and the dash in the heading of the original
  task, which is no Latin-1 character, stands as the code 151.
\<close>

subsection \<open>Regular expressions over a whole text\<close>

text \<open>The texts of all matches, and replacing each by a function of its text.\<close>

fun re_all_from :: "bool \<Rightarrow> re \<Rightarrow> string \<Rightarrow> nat \<Rightarrow> nat \<Rightarrow> string list" where
  "re_all_from ic r s 0 i = []"
| "re_all_from ic r s (Suc n) i =
     (case re_search ic r s (Suc (length s - i)) i of
        None \<Rightarrow> []
      | Some m \<Rightarrow> rm_text s m # re_all_from ic r s n (if rm_end m = rm_start m then Suc (rm_end m) else rm_end m))"

definition re_all :: "bool \<Rightarrow> re \<Rightarrow> string \<Rightarrow> string list" where
  "re_all ic r s = re_all_from ic r s (Suc (length s)) 0"

fun re_map_from :: "bool \<Rightarrow> re \<Rightarrow> (string \<Rightarrow> string) \<Rightarrow> string \<Rightarrow> nat \<Rightarrow> nat \<Rightarrow> string" where
  "re_map_from ic r f s 0 i = drop i s"
| "re_map_from ic r f s (Suc n) i =
     (case re_search ic r s (Suc (length s - i)) i of
        None \<Rightarrow> drop i s
      | Some m \<Rightarrow> take (rm_start m - i) (drop i s) @ f (rm_text s m) @
          (if rm_end m = rm_start m
           then take 1 (drop (rm_end m) s) @ re_map_from ic r f s n (Suc (rm_end m))
           else re_map_from ic r f s n (rm_end m)))"

definition re_map_all :: "bool \<Rightarrow> re \<Rightarrow> (string \<Rightarrow> string) \<Rightarrow> string \<Rightarrow> string" where
  "re_map_all ic r f s = re_map_from ic r f s (Suc (length s)) 0"

text \<open>\<open>r{0,n}?\<close>\<close>

fun RLazyUpTo :: "nat \<Rightarrow> re \<Rightarrow> re" where
  "RLazyUpTo 0 r = REps"
| "RLazyUpTo (Suc n) r = RAlt REps (RSeq r (RLazyUpTo n r))"

subsection \<open>Texts of messages\<close>

definition nl :: char where
  "nl = CHR 0x0A"

definition parsePositiveIntEnv :: "environ \<Rightarrow> string \<Rightarrow> int \<Rightarrow> int" where
  "parsePositiveIntEnv env name fallback = (case env name of None \<Rightarrow> fallback
     | Some raw \<Rightarrow> if raw = [] then fallback
         else (case js_parse_int raw of None \<Rightarrow> fallback | Some v \<Rightarrow> if 0 < v then v else fallback))"

definition fallback_block :: "content_block \<Rightarrow> string" where
  "fallback_block b = (case b of
      TextBlock t \<Rightarrow> t
    | ToolUseBlock i n inp \<Rightarrow> ''[tool_use '' @ n @ '' '' @ take 500 (stringify (JObj inp)) @ '']''
    | ToolResultBlock i c e im \<Rightarrow> ''[tool_result '' @ i @ (if e = Some True then '' error'' else []) @ ''] '' @ c
    | ReasoningBlock r \<Rightarrow> ''[thinking]''
    | ImageBlock media d \<Rightarrow> ''[image '' @ media @ '']'')"

definition fallbackMessageText :: "message \<Rightarrow> string" where
  "fallbackMessageText m = (case ms_content m of
      PlainText s \<Rightarrow> s | Blocks bs \<Rightarrow> js_join [nl] (map fallback_block bs))"

definition task_anchor_heading :: string where
  "task_anchor_heading = ''## Original task (verbatim '' @ [CHR 0x97] @ '' preserved across every compaction)''"

definition current_task_heading :: string where
  "current_task_heading = ''## Current instruction (refreshed at each compaction)''"

fun js_index_of :: "string \<Rightarrow> string \<Rightarrow> nat option" where
  "js_index_of [] p = (if p = [] then Some 0 else None)"
| "js_index_of (c # s) p = (if js_starts_with (c # s) p then Some 0 else map_option Suc (js_index_of s p))"

text \<open>\<open>/\n#{1,3} /\<close>: where the first one begins.\<close>

definition heading_at :: "string \<Rightarrow> bool" where
  "heading_at s \<longleftrightarrow> list_ex (js_starts_with s) [nl # ''# '', nl # ''## '', nl # ''### '']"

fun search_heading :: "string \<Rightarrow> nat option" where
  "search_heading [] = None"
| "search_heading (c # s) = (if heading_at (c # s) then Some 0 else map_option Suc (search_heading s))"

definition section_body :: "string \<Rightarrow> string \<Rightarrow> string" where
  "section_body heading text = (case js_index_of text heading of
      None \<Rightarrow> []
    | Some k \<Rightarrow> let after = drop (k + length heading) text in
        js_trim (case search_heading after of None \<Rightarrow> after | Some e \<Rightarrow> take e after))"

definition string_text :: "message \<Rightarrow> string" where
  "string_text m = (case ms_content m of PlainText s \<Rightarrow> s | Blocks _ \<Rightarrow> [])"

text \<open>An empty body passes on to the next message, as a missing heading does.\<close>

fun sectionFromPriorSummary :: "message list \<Rightarrow> string \<Rightarrow> string" where
  "sectionFromPriorSummary [] heading = []"
| "sectionFromPriorSummary (m # ms) heading =
     (let body = section_body heading (string_text m)
      in if body \<noteq> [] then body else sectionFromPriorSummary ms heading)"

definition summary_mark :: string where
  "summary_mark = ''[Conversation Summary]''"

definition isToolResultMessage :: "message \<Rightarrow> bool" where
  "isToolResultMessage m = (case ms_content m of PlainText _ \<Rightarrow> False | Blocks bs \<Rightarrow> list_ex is_tool_result bs)"

text \<open>The text of a genuine request of the user, if the message is one.\<close>

definition user_instruction :: "message \<Rightarrow> string" where
  "user_instruction m =
     (if ms_role m \<noteq> UserRole \<or> isToolResultMessage m then []
      else let text = js_trim (fallbackMessageText m)
        in if js_starts_with text summary_mark then [] else text)"

fun first_nonblank :: "string list \<Rightarrow> string" where
  "first_nonblank [] = []"
| "first_nonblank (s # ss) = (if s \<noteq> [] then s else first_nonblank ss)"

definition latestUserInstruction :: "message list \<Rightarrow> string" where
  "latestUserInstruction ms = first_nonblank (map user_instruction (rev ms))"

definition extractCurrentTask :: "message list \<Rightarrow> string" where
  "extractCurrentTask ms =
     (let latest = latestUserInstruction ms
      in if latest \<noteq> [] then latest else sectionFromPriorSummary ms current_task_heading)"

definition extractTaskAnchor :: "message list \<Rightarrow> string" where
  "extractTaskAnchor ms =
     (let existing = sectionFromPriorSummary ms task_anchor_heading
      in if existing \<noteq> [] then existing else first_nonblank (map user_instruction ms))"

subsection \<open>The quality of a summary\<close>

definition tool_call_re :: re where
  "tool_call_re = RSeqs [RLit ''<tool_call>'', RLazy any_char, RLit ''</tool_call>'']"

definition in_quotes :: "string \<Rightarrow> string" where
  "in_quotes s = CHR 0x22 # s @ [CHR 0x22]"

text \<open>The full-width bar of the class \<open>[|]\<close> is no Latin-1 character.\<close>

definition block_marker :: re where
  "block_marker = RAlts
     [RSeqs [RLit (in_quotes ''type''), RStar RSpace, RChr CHR '':'', RStar RSpace, RChr CHR 0x22,
        RAlts [RLit ''tool_use'', RLit ''tool_result'', RLit ''text''], RChr CHR 0x22],
      RLit (in_quotes ''tool_use_id''), RLit (in_quotes ''toolUseId'')]"

definition serialized_re :: re where
  "serialized_re = RAlts [block_marker, RLit (''[{'' @ in_quotes ''type''), RLit ''|DSML|'']"

definition blob_re :: "nat \<Rightarrow> re" where
  "blob_re n = RSeqs [RLit (''[{'' @ in_quotes ''type''), RLazyUpTo n any_char, RLit ''}]'']"

definition the_summary_re :: re where
  "the_summary_re = RSeqs [RWordB, RLit ''the '', ROpt (RAlts [RLit ''conversation '', RLit ''previous '']), RLit ''summary '',
     RAlts [RLit ''says'', RLit ''said'', RLit ''states'', RLit ''mentions'', RLit ''indicates''], RWordB]"

definition according_re :: re where
  "according_re = RSeqs [RWordB, RLit ''according to the '', ROpt (RLit ''conversation ''), RLit ''summary'', RWordB]"

text \<open>The reason why a summary is refused.\<close>

definition isDegenerateSummary :: "string \<Rightarrow> string option" where
  "isDegenerateSummary summary =
     (let text = js_trim summary in
      if text = [] then Some ''empty''
      else if js_starts_with text ''<tool_call>'' \<and> js_trim (re_replace_all False tool_call_re [] text) = []
      then Some ''raw_glm_tool_call_envelope''
      else if 2 \<le> length (re_all False serialized_re text) then Some ''echoed_serialized_tool_blocks''
      else if length text < 4 * sum_list (map length (re_all False (blob_re 4000) text))
      then Some ''dominated_by_serialized_blocks''
      else if re_test True the_summary_re text \<or> re_test True according_re text then Some ''summarized_a_summary''
      else None)"

definition fence_re :: re where
  "fence_re = RSeqs [RLit ''```'', RLazyUpTo 20000 any_char, RLit ''```'']"

definition dsml_block_re :: re where
  "dsml_block_re = RSeqs [RLit ''<|DSML|invoke'', RWordB, RStar (RCls True [(62, 62)]), RChr CHR ''>'',
     RLazy any_char, RLit ''</|DSML|invoke>'']"

definition dsml_tag_re :: re where
  "dsml_tag_re = RSeqs [RChr CHR ''<'', ROpt (RChr CHR ''/''), RLit ''|DSML|'', RRep 0 (Some 200) (RCls True [(62, 62)]), RChr CHR ''>'']"

definition stripEchoedToolBlocks :: "string \<Rightarrow> string" where
  "stripEchoedToolBlocks text =
     (let out = re_replace_all False (blob_re 20000) '' '' text;
          out = re_map_all False fence_re (\<lambda>m. if re_test False block_marker m then '' '' else m) out;
          out = js_join [nl] (filter (\<lambda>line. \<not> re_test False block_marker line) (js_split nl out));
          out = re_replace_all False dsml_block_re '' '' out;
          out = re_replace_all False dsml_tag_re '' '' out;
          out = re_replace_all False (RRep 2 None (RCls False [(32, 32), (9, 9)])) '' '' out
      in js_trim (re_replace_all False (RRep 3 None (RChr nl)) [nl, nl] out))"

subsection \<open>Errors, the provider and the options\<close>

text \<open>The last nine constructors but the final three are the capacity errors.\<close>

datatype compaction_error =
    NotFinished
  | NoProgress
  | BadSummary string
  | EmptyTranscript
  | OldestTooLarge
  | NoCompletePrefix
  | UnfinishedTooLarge
  | NotReducing
  | TooManyPasses
  | NoProvider
  | NoHeadroom
  | Interrupted
  | ProviderFailed string
  | Fenced string

definition is_capacity :: "compaction_error \<Rightarrow> bool" where
  "is_capacity e \<longleftrightarrow> e \<in> {EmptyTranscript, OldestTooLarge, NoCompletePrefix, UnfinishedTooLarge, NotReducing,
     TooManyPasses, NoProvider}"

datatype stream_chunk =
    TextChunk string
  | ReasoningChunk string
  | FinalText string
  | StopReason string
  | UsageChunk int
  | DoneChunk
  | OtherChunk

datatype prompt_text = SummaryPrompt | RetryPrompt | DataContract | CurrentRequest | ContinuationRequest

record chat_request =
  rq_messages :: "(role \<times> string) list"
  rq_model :: string
  rq_maxTokens :: int
  rq_systemPrompt :: string
  rq_sessionId :: "string option"

type_synonym 'w provider = "chat_request \<Rightarrow> 'w \<Rightarrow> 'w \<times> (stream_chunk \<times> bool) list \<times> string option"

record 'w compact_env =
  ce_enc :: tokenizer
  ce_env :: environ
  ce_text :: "prompt_text \<Rightarrow> string"
  ce_name :: string
  ce_provider :: "'w provider"
  ce_aborted :: "'w \<Rightarrow> bool"
  ce_now :: "nat \<Rightarrow> 'w \<Rightarrow> int"
  ce_plan :: "string \<Rightarrow> 'w \<Rightarrow> string option"
  ce_fence :: "'w \<Rightarrow> string option"

record compact_options =
  co_force :: bool
  co_instructions :: "string option"
  co_overhead :: int
  co_planFilePath :: "string option"
  co_sessionId :: "string option"
  co_targetFinal :: "int option"
  co_allowNonReducing :: bool

subsection \<open>One summary as a stream of requests\<close>

record stream_answer =
  sa_segment :: string
  sa_stopReason :: string
  sa_sawDone :: bool
  sa_reasoning :: nat
  sa_usage :: "int option"

definition no_answer :: stream_answer where
  "no_answer = \<lparr>sa_segment = [], sa_stopReason = [], sa_sawDone = False, sa_reasoning = 0, sa_usage = None\<rparr>"

text \<open>What the chunks of one request add up to; the last final text replaces the segment.\<close>

definition add_chunk :: "stream_answer \<times> string option \<Rightarrow> stream_chunk \<Rightarrow> stream_answer \<times> string option" where
  "add_chunk s c = (case s of (a, final) \<Rightarrow> (case c of
      TextChunk t \<Rightarrow> (a\<lparr>sa_segment := sa_segment a @ t\<rparr>, final)
    | ReasoningChunk t \<Rightarrow> (a\<lparr>sa_reasoning := sa_reasoning a + length t\<rparr>, final)
    | FinalText t \<Rightarrow> (a, Some t)
    | StopReason r \<Rightarrow> (a\<lparr>sa_stopReason := r\<rparr>, final)
    | UsageChunk n \<Rightarrow> (a\<lparr>sa_usage := Some n\<rparr>, final)
    | DoneChunk \<Rightarrow> (a\<lparr>sa_sawDone := True\<rparr>, final)
    | OtherChunk \<Rightarrow> (a, final)))"

definition answer_of :: "stream_chunk list \<Rightarrow> stream_answer" where
  "answer_of cs = (case foldl add_chunk (no_answer, None) cs of
     (a, None) \<Rightarrow> a | (a, Some t) \<Rightarrow> a\<lparr>sa_segment := t\<rparr>)"

text \<open>One request, with the checks of the abort signal while its chunks arrive.\<close>

definition ask_provider :: "'w compact_env \<Rightarrow> chat_request \<Rightarrow> 'w \<Rightarrow> 'w \<times> (compaction_error + stream_answer)" where
  "ask_provider env rq w =
     (if ce_aborted env w then (w, Inl Interrupted)
      else case ce_provider env rq w of (w', chunks, failed) \<Rightarrow>
        (w', if list_ex snd chunks then Inl Interrupted
             else case failed of
               Some e \<Rightarrow> if ce_aborted env w' then Inl Interrupted else Inl (ProviderFailed e)
             | None \<Rightarrow> Inr (answer_of (map fst chunks))))"

definition strict_providers :: "string list" where
  "strict_providers = [''cortex'', ''vllm'', ''llamacpp'']"

definition final_reasons :: "string list" where
  "final_reasons = [''stop'', ''end_turn'', ''stop_sequence'', ''max_tokens'', ''length'']"

definition finished_badly :: "'w compact_env \<Rightarrow> stream_answer \<Rightarrow> bool" where
  "finished_badly env a \<longleftrightarrow>
     (sa_stopReason a = [] \<and> (\<not> sa_sawDone a \<or> ce_name env \<in> set strict_providers))
     \<or> (sa_stopReason a \<noteq> [] \<and> sa_stopReason a \<notin> set final_reasons)"

definition unfinished :: "stream_answer \<Rightarrow> bool" where
  "unfinished a \<longleftrightarrow> sa_stopReason a \<in> {''max_tokens'', ''length''}"

record stream_result =
  sr_text :: string
  sr_reasoning :: nat
  sr_usage :: int
  sr_stopReason :: string

text \<open>What has been gathered from the requests before: text, segments, reasoning and usage.\<close>

record gathered =
  gt_text :: string
  gt_segments :: "string list"
  gt_reasoning :: nat
  gt_usage :: int

definition gather :: "gathered \<Rightarrow> stream_answer \<Rightarrow> gathered" where
  "gather g a = \<lparr>gt_text = gt_text g @ sa_segment a, gt_segments = sa_segment a # gt_segments g,
     gt_reasoning = gt_reasoning g + sa_reasoning a,
     gt_usage = (case sa_usage a of None \<Rightarrow> gt_usage g | Some n \<Rightarrow> n)\<rparr>"

text \<open>What becomes of one answer: the end of the stream, or another request.\<close>

datatype stream_turn = StreamEnds "compaction_error + stream_result" | StreamGoesOn gathered

definition stream_step :: "'w compact_env \<Rightarrow> string \<Rightarrow> int \<Rightarrow> gathered \<Rightarrow> stream_answer \<Rightarrow> stream_turn" where
  "stream_step env model sourceTokens g a =
     (let g' = gather g a in
      if finished_badly env a then StreamEnds (Inl NotFinished)
      else if (unfinished a \<or> gt_text g \<noteq> []) \<and> (js_trim (sa_segment a) = [] \<or> sa_segment a \<in> set (gt_segments g))
      then (if js_trim (gt_text g) \<noteq> []
            then StreamEnds (Inr \<lparr>sr_text = gt_text g, sr_reasoning = gt_reasoning g', sr_usage = gt_usage g',
                   sr_stopReason = ''stop''\<rparr>)
            else StreamEnds (Inl NoProgress))
      else if \<not> unfinished a
      then StreamEnds (Inr \<lparr>sr_text = gt_text g', sr_reasoning = gt_reasoning g', sr_usage = gt_usage g',
                   sr_stopReason = sa_stopReason a\<rparr>)
      else if sourceTokens \<le> countTokens (ce_enc env) model (gt_text g')
      then StreamEnds (Inl UnfinishedTooLarge)
      else StreamGoesOn g')"

text \<open>
  The requests of one summary.  The loop may run on, so its result is an option; the abort
  signal is read once more when the answer has been taken.
\<close>

partial_function (option) compactionStream ::
  "'w compact_env \<Rightarrow> chat_request \<Rightarrow> int \<Rightarrow> gathered \<Rightarrow> 'w \<Rightarrow> ('w \<times> (compaction_error + stream_result)) option" where
  "compactionStream env rq sourceTokens g w =
     (case ask_provider env rq w of
        (w', Inl e) \<Rightarrow> Some (w', Inl e)
      | (w', Inr a) \<Rightarrow>
          (case stream_step env (rq_model rq) sourceTokens g a of
             StreamEnds (Inl e) \<Rightarrow> Some (w', Inl e)
           | StreamEnds (Inr r) \<Rightarrow> Some (w', if ce_aborted env w' then Inl Interrupted else Inr r)
           | StreamGoesOn g' \<Rightarrow> compactionStream env
               (rq\<lparr>rq_messages := rq_messages rq @ [(AssistantRole, sa_segment a),
                  (UserRole, ce_text env ContinuationRequest)]\<rparr>) sourceTokens g' w'))"

definition nothing_gathered :: gathered where
  "nothing_gathered = \<lparr>gt_text = [], gt_segments = [], gt_reasoning = 0, gt_usage = 0\<rparr>"

subsection \<open>The oldest prefix that fits\<close>

definition omitted_image :: string where
  "omitted_image = ''[image data omitted]''"

definition reasoning_summary :: "reasoning \<Rightarrow> string" where
  "reasoning_summary r =
     (let s = (case rz_summary r of None \<Rightarrow> [] | Some ts \<Rightarrow> js_join '' '' (filter (\<lambda>t. t \<noteq> []) ts))
      in if s = [] then ''[thinking]'' else s)"

definition serialize_block :: "content_block \<Rightarrow> string" where
  "serialize_block b = (case b of
      ToolResultBlock i c e (Some _) \<Rightarrow> stringify (JObj ([(''type'', JStr ''tool_result''), (''toolUseId'', JStr i),
         (''content'', JStr c)] @ (case e of None \<Rightarrow> [] | Some x \<Rightarrow> [(''isError'', JBool x)]) @ [(''image'', JStr omitted_image)]))
    | ReasoningBlock r \<Rightarrow>
        (case rz_rawContent r of
           Some raw \<Rightarrow> if raw \<noteq> [] then stringify (JObj [(''type'', JStr ''reasoning''), (''rawContent'', JStr raw)])
             else stringify (JObj [(''type'', JStr ''reasoning''), (''summary'', JStr (reasoning_summary r))])
         | None \<Rightarrow> stringify (JObj [(''type'', JStr ''reasoning''), (''summary'', JStr (reasoning_summary r))]))
    | ImageBlock media d \<Rightarrow> stringify (JObj [(''type'', JStr ''image''), (''source'', JObj [(''type'', JStr ''base64''),
         (''media_type'', JStr media), (''data'', JStr omitted_image)])])
    | _ \<Rightarrow> stringify (block_json b))"

definition serializeMessageForCompaction :: "message \<Rightarrow> string" where
  "serializeMessageForCompaction m = CHR ''['' # role_text (ms_role m) @ '']: '' @ (case ms_content m of
      PlainText s \<Rightarrow> s | Blocks bs \<Rightarrow> CHR ''['' # js_join '','' (map serialize_block bs) @ '']'')"

text \<open>How many of the newest messages the tail budget keeps, over their sizes from the newest.\<close>

fun recent_tail :: "int \<Rightarrow> int \<Rightarrow> int list \<Rightarrow> nat" where
  "recent_tail budget recent [] = 0"
| "recent_tail budget recent (t # ts) =
     (if 0 < recent \<and> budget < recent + t then 0 else Suc (recent_tail budget (recent + t) ts))"

function search_prefix :: "(nat \<Rightarrow> bool) \<Rightarrow> nat \<Rightarrow> nat \<Rightarrow> nat \<Rightarrow> nat" where
  "search_prefix fits low high best =
     (if low \<le> high then
        let mid = (low + high) div 2 in
        if fits mid then search_prefix fits (mid + 1) high mid
        else if mid = 0 then best else search_prefix fits low (mid - 1) best
      else best)"
  by pat_completeness auto
termination by (relation "measure (\<lambda>(fits, low, high, best). Suc high - low)") (auto simp: Let_def)

declare search_prefix.simps [simp del]

text \<open>A result of a tool is not left at the front of the rest.\<close>

fun back_off :: "message list \<Rightarrow> nat \<Rightarrow> nat" where
  "back_off ms 0 = 0"
| "back_off ms (Suc n) =
     (if Suc n < length ms \<and> isToolResultMessage (ms ! Suc n) then back_off ms n else Suc n)"

record semantic_prefix =
  sp_text :: string
  sp_end :: nat
  sp_tokens :: int

definition joined :: "message list \<Rightarrow> string" where
  "joined ms = js_join [nl, nl] (map serializeMessageForCompaction ms)"

definition desired_prefix_end :: "'w compact_env \<Rightarrow> string \<Rightarrow> int \<Rightarrow> message list \<Rightarrow> nat" where
  "desired_prefix_end env model maxTokens ms =
     (let budget = min (parsePositiveIntEnv (ce_env env) ''SHIZUHA_COMPACTION_RECENT_TAIL_TOKENS'' 16000)
            (max 4000 \<lfloor>dbl (of_int maxTokens * dbl (8 / 100))\<rfloor>);
          n = length ms - recent_tail budget 0 (map (message_tokens (ce_enc env) model) (rev ms))
      in if n = 0 then (if 1 < length ms then max 1 (length ms - 1) else 1) else n)"

definition selectSemanticPrefix ::
  "'w compact_env \<Rightarrow> string \<Rightarrow> int \<Rightarrow> int \<Rightarrow> message list \<Rightarrow> compaction_error + semantic_prefix" where
  "selectSemanticPrefix env model maxConversation maxTokens ms =
     (if ms = [] then Inl EmptyTranscript
      else let desired = desired_prefix_end env model maxTokens ms;
               tokens = (\<lambda>k. countTokens (ce_enc env) model (joined (take k ms))) in
        if maxConversation < tokens 1 then Inl OldestTooLarge
        else let k = back_off ms (search_prefix (\<lambda>k. tokens k \<le> maxConversation) 2 desired 1) in
          if k = 0 then Inl NoCompletePrefix
          else Inr \<lparr>sp_text = joined (take k ms), sp_end = k, sp_tokens = tokens k\<rparr>)"

subsection \<open>The new conversation\<close>

definition plan_mark :: string where
  "plan_mark = ''[System] A plan file exists from plan mode at:''"

definition summary_text :: "string \<Rightarrow> string \<Rightarrow> string \<Rightarrow> string" where
  "summary_text taskAnchor currentTask summary =
     (let blocks = (if taskAnchor = [] then [] else [task_anchor_heading @ [nl] @ taskAnchor])
            @ (if currentTask \<noteq> [] \<and> currentTask \<noteq> taskAnchor then [current_task_heading @ [nl] @ currentTask] else [])
      in summary_mark @ [nl] @
         (if blocks = [] then summary
          else js_join [nl, nl] blocks @ [nl, nl] @ ''## Summary'' @ [nl] @ summary))"

definition acknowledgement :: string where
  "acknowledgement = ''Continuing from the validated summary and preserved recent messages.''"

definition plan_messages :: "'w compact_env \<Rightarrow> compact_options \<Rightarrow> message list \<Rightarrow> 'w \<Rightarrow> message list" where
  "plan_messages env opts compacted w =
     (case co_planFilePath opts of None \<Rightarrow> []
      | Some p \<Rightarrow>
          if p = [] \<or> list_ex (\<lambda>m. js_starts_with (string_text m) plan_mark) compacted then []
          else (case ce_plan env p w of None \<Rightarrow> []
            | Some plan \<Rightarrow> if js_trim plan = [] then []
                else [plain_message UserRole (plan_mark @ '' '' @ p @ [nl, nl] @ ''Plan contents:'' @ [nl] @ plan @ [nl, nl] @
                        ''If this plan is relevant to the current work, continue working on it.'') (ce_now env 2 w),
                      plain_message AssistantRole ''I have the plan file context. Continuing with the plan.'' (ce_now env 3 w)]))"

definition projectCompactedMessages ::
  "'w compact_env \<Rightarrow> compact_options \<Rightarrow> message list \<Rightarrow> string \<Rightarrow> nat \<Rightarrow> 'w \<Rightarrow> message list" where
  "projectCompactedMessages env opts ms summary suffixStart w =
     (let compacted = [plain_message UserRole (summary_text (extractTaskAnchor ms) (extractCurrentTask ms) summary) (ce_now env 0 w),
            plain_message AssistantRole acknowledgement (ce_now env 1 w)] @ drop suffixStart ms
      in compacted @ plan_messages env opts compacted w)"

subsection \<open>One pass\<close>

definition is_slow_local :: "string \<Rightarrow> bool" where
  "is_slow_local model \<longleftrightarrow> isCortexModelId model
     \<or> list_ex (js_starts_with (js_lower model)) [''vllm/'', ''ollama/'', ''llamacpp/'']"

record budgets =
  bu_output :: int
  bu_retry :: int
  bu_source :: int

text \<open>The share of a window, rounded down as the code does.\<close>

definition share :: "int \<Rightarrow> rat \<Rightarrow> int" where
  "share maxTokens f = \<lfloor>dbl (of_int maxTokens * dbl f)\<rfloor>"

definition compaction_budgets :: "'w compact_env \<Rightarrow> string \<Rightarrow> int \<Rightarrow> budgets" where
  "compaction_budgets env model maxTokens =
     (let slow = is_slow_local model;
          maxOutput = (if slow then parsePositiveIntEnv (ce_env env) ''SHIZUHA_LOCAL_COMPACTION_MAX_OUTPUT_TOKENS''
                                      (if 64000 \<le> maxTokens then 8192 else 2048) else 20000);
          output = min maxOutput (share maxTokens (30 / 100));
          retry = (if slow then min output (if 64000 \<le> maxTokens then 4096 else 1024) else output);
          reserve = min 5000 (share maxTokens (15 / 100));
          guard = (if 64000 \<le> maxTokens then min 16000 (max 4096 (share maxTokens (5 / 100)))
                   else min 1024 (max 256 (share maxTokens (5 / 100))));
          factor = (if slow then 175 / 100 else if 1 < getSafetyFactor model then 15 / 10 else dbl (11 / 10));
          maxConversation = max 128 \<lfloor>dbl (of_int (maxTokens - output - reserve - guard) / factor)\<rfloor>
      in \<lparr>bu_output = output, bu_retry = retry,
          bu_source = max 512 (min maxConversation
            (parsePositiveIntEnv (ce_env env) ''SHIZUHA_COMPACTION_MAX_SOURCE_TOKENS'' maxConversation))\<rparr>)"

definition closed_summary_re :: re where
  "closed_summary_re = RSeqs [RLit ''<summary>'', RGrp 1 (RLazy any_char), RLit ''</summary>'']"

definition open_summary_re :: re where
  "open_summary_re = RSeqs [RBol, ROpt (RSeqs [RStar RSpace, RLit ''<analysis>'', RLazy any_char, RLit ''</analysis>'']),
     RStar RSpace, RLit ''<summary>'', RGrp 1 (RStar any_char), REol]"

text \<open>The text between the tags of a summary, if it has them.\<close>

definition summary_body :: "string \<Rightarrow> string" where
  "summary_body s = (case re_match False closed_summary_re s of
      Some m \<Rightarrow> js_trim (case rm_group m 1 of None \<Rightarrow> [] | Some t \<Rightarrow> t)
    | None \<Rightarrow> (case re_match False open_summary_re s of
          Some m \<Rightarrow> js_trim (case rm_group m 1 of None \<Rightarrow> [] | Some t \<Rightarrow> t)
        | None \<Rightarrow> s))"

definition compaction_request :: "'w compact_env \<Rightarrow> string \<Rightarrow> compact_options \<Rightarrow> string \<Rightarrow> int \<Rightarrow> string \<Rightarrow> chat_request" where
  "compaction_request env model opts conversationText maxTokens prompt =
     \<lparr>rq_messages = [(UserRole, conversationText @ ce_text env CurrentRequest)], rq_model = model, rq_maxTokens = maxTokens,
      rq_systemPrompt = ce_text env DataContract @ [nl, nl] @ prompt,
      rq_sessionId = (case co_sessionId opts of None \<Rightarrow> None | Some s \<Rightarrow> if s = [] then None else Some s)\<rparr>"

definition summary_prompt :: "'w compact_env \<Rightarrow> compact_options \<Rightarrow> string" where
  "summary_prompt env opts = ce_text env SummaryPrompt @
     (case co_instructions opts of None \<Rightarrow> [] | Some s \<Rightarrow> if s = [] then [] else [nl, nl] @ ''ADDITIONAL FOCUS: '' @ s)"

definition min_summary_tokens :: "int \<Rightarrow> int" where
  "min_summary_tokens conversationTokens = min 200 (max 20 \<lfloor>dbl (of_int conversationTokens * dbl (10 / 100))\<rfloor>)"

text \<open>A short summary is asked for once more with a simpler prompt, unless only reasoning came.\<close>

definition only_reasoning :: "string \<Rightarrow> budgets \<Rightarrow> stream_result \<Rightarrow> bool" where
  "only_reasoning model b r \<longleftrightarrow> is_slow_local model \<and> 0 < sr_reasoning r
     \<and> (sr_stopReason r = ''max_tokens'' \<or> \<lfloor>dbl (of_int (bu_output b) * dbl (90 / 100))\<rfloor> \<le> sr_usage r)"

definition retry_summary ::
  "'w compact_env \<Rightarrow> string \<Rightarrow> compact_options \<Rightarrow> budgets \<Rightarrow> semantic_prefix \<Rightarrow> string \<Rightarrow> 'w \<Rightarrow>
   ('w \<times> (compaction_error + string)) option" where
  "retry_summary env model opts b sp summary w =
     Option.bind (compactionStream env (compaction_request env model opts (sp_text sp) (bu_retry b) (ce_text env RetryPrompt))
         (sp_tokens sp) nothing_gathered w) (\<lambda>(w', r). case r of
       Inl e \<Rightarrow> Some (w', Inl (if ce_aborted env w' then Interrupted else e))
     | Inr retry \<Rightarrow> Some (w', Inr
         (if countTokens (ce_enc env) ''gpt-4o'' summary < countTokens (ce_enc env) ''gpt-4o'' (sr_text retry)
          then sr_text retry else summary)))"

definition raw_summary ::
  "'w compact_env \<Rightarrow> string \<Rightarrow> compact_options \<Rightarrow> budgets \<Rightarrow> semantic_prefix \<Rightarrow> 'w \<Rightarrow>
   ('w \<times> (compaction_error + string)) option" where
  "raw_summary env model opts b sp w =
     Option.bind (compactionStream env (compaction_request env model opts (sp_text sp) (bu_output b) (summary_prompt env opts))
         (sp_tokens sp) nothing_gathered w) (\<lambda>(w', r). case r of
       Inl e \<Rightarrow> Some (w', Inl e)
     | Inr first \<Rightarrow>
         let summary = summary_body (sr_text first) in
         if countTokens (ce_enc env) ''gpt-4o'' summary < min_summary_tokens (sp_tokens sp) \<and> \<not> only_reasoning model b first
         then retry_summary env model opts b sp summary w'
         else Some (w', Inr summary))"

text \<open>Why a summary is refused.\<close>

definition quality_failure :: "'w compact_env \<Rightarrow> string \<Rightarrow> semantic_prefix \<Rightarrow> string \<Rightarrow> string option" where
  "quality_failure env model sp text =
     (if countTokens (ce_enc env) model text < min_summary_tokens (sp_tokens sp) then Some ''too short''
      else isDegenerateSummary text)"

definition accepted_summary :: "'w compact_env \<Rightarrow> string \<Rightarrow> semantic_prefix \<Rightarrow> string \<Rightarrow> compaction_error + string" where
  "accepted_summary env model sp summary =
     (case quality_failure env model sp summary of
        None \<Rightarrow> Inr summary
      | Some reason \<Rightarrow> (case quality_failure env model sp (stripEchoedToolBlocks summary) of
            None \<Rightarrow> Inr (stripEchoedToolBlocks summary)
          | Some _ \<Rightarrow> Inl (BadSummary reason)))"

definition context_tokens :: "'w compact_env \<Rightarrow> string \<Rightarrow> compact_options \<Rightarrow> message list \<Rightarrow> int" where
  "context_tokens env model opts ms =
     \<lceil>dbl (of_int (estimateTokens (ce_enc env) model ms + co_overhead opts) * getSafetyFactor model)\<rceil>"

definition messages_budget :: "'w compact_env \<Rightarrow> compact_options \<Rightarrow> int \<Rightarrow> int" where
  "messages_budget env opts maxTokens =
     (let fitCeiling = max 1024 (maxTokens - min 16384 (share maxTokens (15 / 100)));
          target = min fitCeiling (max 1024 \<lfloor>dbl (of_int maxTokens * compactionTargetFractionFor (ce_env env) maxTokens)\<rfloor>)
      in case co_targetFinal opts of None \<Rightarrow> target | Some n \<Rightarrow> min target n)"

text \<open>One pass: the prefix, its summary and the new conversation with its size.\<close>

definition compact_pass ::
  "'w compact_env \<Rightarrow> string \<Rightarrow> int \<Rightarrow> compact_options \<Rightarrow> message list \<Rightarrow> 'w \<Rightarrow>
   ('w \<times> (compaction_error + message list)) option" where
  "compact_pass env model maxTokens opts ms w =
     (let b = compaction_budgets env model maxTokens in
      case selectSemanticPrefix env model (bu_source b) maxTokens ms of
        Inl e \<Rightarrow> Some (w, Inl e)
      | Inr sp \<Rightarrow>
          Option.bind (raw_summary env model opts b sp w) (\<lambda>(w', r). case r of
              Inl e \<Rightarrow> Some (w', Inl e)
            | Inr summary \<Rightarrow>
                (case accepted_summary env model sp summary of
                   Inl e \<Rightarrow> Some (w', Inl e)
                 | Inr accepted \<Rightarrow>
                     let compacted = projectCompactedMessages env opts ms accepted (sp_end sp) w' in
                     Some (w', if context_tokens env model opts ms \<le> context_tokens env model opts compacted
                                  \<and> \<not> co_allowNonReducing opts
                               then Inl NotReducing else Inr compacted))))"

subsection \<open>The passes\<close>

definition max_passes :: nat where
  "max_passes = 48"

text \<open>
  What is kept when a deeper pass fails: the last reduced conversation, when the signal is set
  or when only the capacity failed and the trigger is respected.
\<close>

definition keeps_last :: "'w compact_env \<Rightarrow> string \<Rightarrow> int \<Rightarrow> compact_options \<Rightarrow> message list \<Rightarrow> message list \<Rightarrow>
   compaction_error \<Rightarrow> 'w \<Rightarrow> bool" where
  "keeps_last env model maxTokens opts ms compacted e w \<longleftrightarrow>
     (ce_aborted env w \<and> context_tokens env model opts compacted < context_tokens env model opts ms)
     \<or> (is_capacity e \<and> context_tokens env model opts compacted \<le> context_tokens env model opts ms
        \<and> of_int (context_tokens env model opts compacted) \<le> trigger_level (ce_env env) maxTokens)"

text \<open>The first argument counts the passes that are left after this one.\<close>

fun forced_passes ::
  "nat \<Rightarrow> 'w compact_env \<Rightarrow> string \<Rightarrow> int \<Rightarrow> compact_options \<Rightarrow> message list \<Rightarrow> 'w \<Rightarrow>
   ('w \<times> (compaction_error + message list)) option" where
  "forced_passes left env model maxTokens opts messages w =
     (let ms = modelConversationMessages messages in
      Option.bind (compact_pass env model maxTokens opts ms w) (\<lambda>(w', r). case r of
          Inl e \<Rightarrow> Some (w', Inl e)
        | Inr compacted \<Rightarrow>
            if context_tokens env model opts compacted \<le> messages_budget env opts maxTokens then Some (w', Inr compacted)
            else (case left of
                0 \<Rightarrow> Some (w', Inl TooManyPasses)
              | Suc n \<Rightarrow>
                  (case ce_fence env w' of
                     Some e \<Rightarrow> Some (w', Inl (Fenced e))
                   | None \<Rightarrow>
                       Option.bind (forced_passes n env model maxTokens opts compacted w') (\<lambda>(w2, r2). case r2 of
                           Inr deeper \<Rightarrow> Some (w2, Inr deeper)
                         | Inl e \<Rightarrow> Some (w2, if keeps_last env model maxTokens opts ms compacted e w2
                                             then Inr compacted else Inl e))))))"

declare forced_passes.simps [simp del]

text \<open>The result tells whether the conversation was compacted.\<close>

definition compactMessages ::
  "'w compact_env \<Rightarrow> string \<Rightarrow> int \<Rightarrow> compact_options \<Rightarrow> message list \<Rightarrow> 'w \<Rightarrow>
   ('w \<times> (compaction_error + message list \<times> bool)) option" where
  "compactMessages env model maxTokens opts messages w =
     (let ms = modelConversationMessages messages in
      if \<not> co_force opts \<and> of_int (context_tokens env model opts ms) < trigger_level (ce_env env) maxTokens
      then Some (w, Inr (ms, False))
      else Option.bind (forced_passes max_passes env model maxTokens opts ms w) (\<lambda>(w', r).
        Some (w', case r of Inl e \<Rightarrow> Inl e | Inr compacted \<Rightarrow> Inr (compacted, True))))"

definition compactMessagesRequired ::
  "'w compact_env option \<Rightarrow> string \<Rightarrow> int \<Rightarrow> compact_options \<Rightarrow> message list \<Rightarrow> 'w \<Rightarrow>
   ('w \<times> (compaction_error + message list \<times> bool)) option" where
  "compactMessagesRequired provider model maxTokens opts messages w = (case provider of
      None \<Rightarrow> Some (w, Inl NoProvider)
    | Some env \<Rightarrow> compactMessages env model maxTokens opts messages w)"

text \<open>\<open>enc\<close> and \<open>settings\<close> are those of the process, also when there is no provider.\<close>

definition applyRequiredCompactionOrThrow ::
  "tokenizer \<Rightarrow> environ \<Rightarrow> 'w compact_env option \<Rightarrow> string \<Rightarrow> int \<Rightarrow> int \<Rightarrow> int \<Rightarrow> string option \<Rightarrow> message list \<Rightarrow> 'w \<Rightarrow>
   ('w \<times> (compaction_error + message list \<times> bool)) option" where
  "applyRequiredCompactionOrThrow enc settings provider model maxTokens overhead outputBudget planFilePath messages w =
     (let opts = \<lparr>co_force = True, co_instructions = None, co_overhead = overhead, co_planFilePath = planFilePath,
            co_sessionId = None, co_targetFinal = None, co_allowNonReducing = False\<rparr>;
          u = \<lparr>cu_overhead = overhead, cu_output = outputBudget, cu_reported = 0, cu_reportedRaw = 0, cu_guard = 0\<rparr>
      in Option.bind (compactMessagesRequired provider model maxTokens opts messages w) (\<lambda>(w', r). Some (w', case r of
          Inl e \<Rightarrow>
            if \<not> is_capacity e then Inl e
            else if nextProviderCallFits enc model maxTokens u messages then Inr (messages, False)
            else Inl NoHeadroom
        | Inr (compacted, _) \<Rightarrow>
            if \<not> nextProviderCallFits enc model maxTokens u compacted then Inl NoHeadroom
            else Inr (compacted, \<not> needsCompaction enc settings model maxTokens u compacted))))"

end
