(* ===== verification/CompactionFacts.thy ===== *)
theory CompactionFacts
  imports Compaction
begin

text \<open>
  What a compaction keeps: the original task in its words, every message behind the summarized
  prefix, the pairs of tool calls and results; that it makes the conversation smaller, and
  that it returns.
\<close>

subsection \<open>The prefix that is selected\<close>

lemma recent_tail_le: "recent_tail budget recent ts \<le> length ts"
  by (induction budget recent ts rule: recent_tail.induct) auto

lemma desired_le: "ms \<noteq> [] \<Longrightarrow> desired_prefix_end env model maxTokens ms \<le> length ms"
  by (cases ms) (auto simp: desired_prefix_end_def Let_def)

lemma search_prefix_le: "best \<le> b \<Longrightarrow> high \<le> b \<Longrightarrow> search_prefix fits low high best \<le> b"
proof (induction fits low high best rule: search_prefix.induct)
  case (1 fits low high best)
  show ?case
  proof (cases "low \<le> high")
    case True
    then have "(low + high) div 2 \<le> b" using 1(4) by simp
    then show ?thesis using 1 True by (subst search_prefix.simps) (auto simp: Let_def)
  qed (use 1(3) in \<open>subst search_prefix.simps, simp\<close>)
qed

lemma back_off_le: "back_off ms n \<le> n"
  by (induction n) auto

lemma back_off_front: "0 < back_off ms n \<Longrightarrow> back_off ms n < length ms \<Longrightarrow> \<not> isToolResultMessage (ms ! back_off ms n)"
  by (induction n) (auto split: if_splits)

lemma select_prefix:
  assumes "selectSemanticPrefix env model maxConversation maxTokens ms = Inr sp"
  shows "0 < sp_end sp" "sp_end sp \<le> length ms"
    "sp_end sp < length ms \<Longrightarrow> \<not> isToolResultMessage (ms ! sp_end sp)"
proof -
  let ?fits = "\<lambda>k. countTokens (ce_enc env) model (joined (take k ms)) \<le> maxConversation"
  let ?k = "search_prefix ?fits 2 (desired_prefix_end env model maxTokens ms) 1"
  have ms: "ms \<noteq> []" and k: "sp_end sp = back_off ms ?k" and pos: "back_off ms ?k \<noteq> 0"
    using assms by (auto simp: selectSemanticPrefix_def Let_def split: if_splits)
  have "?k \<le> length ms" using desired_le [OF ms] ms by (intro search_prefix_le) (auto simp: Suc_leI)
  then show "sp_end sp \<le> length ms" using back_off_le [of ms ?k] k by simp
  show "0 < sp_end sp" using k pos by simp
  show "sp_end sp < length ms \<Longrightarrow> \<not> isToolResultMessage (ms ! sp_end sp)"
    using back_off_front [of ms ?k] k pos by simp
qed

subsection \<open>One pass and all passes\<close>

lemma case_Inr:
  "(case r of Inl e \<Rightarrow> Inl e | Inr c \<Rightarrow> g c) = Inr y \<longleftrightarrow> (\<exists>c. r = Inr c \<and> g c = Inr y)"
  by (cases r) auto

lemma case_Some_Inr:
  "(case r of Inl e \<Rightarrow> Some (w, Inl e) | Inr c \<Rightarrow> g c) = Some (w', Inr y) \<longleftrightarrow> (\<exists>c. r = Inr c \<and> g c = Some (w', Inr y))"
  by (cases r) auto

lemma bind_Inr:
  "Option.bind m (\<lambda>(w, r). case r of Inl e \<Rightarrow> Some (w, Inl e) | Inr x \<Rightarrow> f w x) = Some (w', Inr y) \<longleftrightarrow>
     (\<exists>w1 x. m = Some (w1, Inr x) \<and> f w1 x = Some (w', Inr y))"
  by (cases m) (auto simp: case_Some_Inr)

lemma bind_result:
  "Option.bind m (\<lambda>(w, r). Some (w, g w r)) = Some (w', y) \<longleftrightarrow> (\<exists>r. m = Some (w', r) \<and> g w' r = y)"
  by (cases m) auto

lemma pass_cases:
  assumes "compact_pass env model maxTokens opts ms w = Some (w', Inr c)"
  obtains sp summary where "selectSemanticPrefix env model (bu_source (compaction_budgets env model maxTokens)) maxTokens ms = Inr sp"
    "c = projectCompactedMessages env opts ms summary (sp_end sp) w'"
    "context_tokens env model opts c < context_tokens env model opts ms \<or> co_allowNonReducing opts"
  using assms unfolding compact_pass_def Let_def
  by (auto simp: bind_Inr case_Some_Inr not_le split: if_split_asm)

text \<open>The conversations that successful passes lead to.\<close>

inductive compacts ::
  "'w compact_env \<Rightarrow> string \<Rightarrow> int \<Rightarrow> compact_options \<Rightarrow> message list \<Rightarrow> message list \<Rightarrow> bool"
  for env model maxTokens opts where
  one_pass: "compact_pass env model maxTokens opts (modelConversationMessages ms) w = Some (w', Inr c) \<Longrightarrow>
    compacts env model maxTokens opts ms c"
| more_passes: "compact_pass env model maxTokens opts (modelConversationMessages ms) w = Some (w', Inr c) \<Longrightarrow>
    compacts env model maxTokens opts c d \<Longrightarrow> compacts env model maxTokens opts ms d"

lemma forced_compacts:
  "forced_passes left env model maxTokens opts ms w = Some (w', Inr res) \<Longrightarrow> compacts env model maxTokens opts ms res"
proof (induction left arbitrary: ms w w' res)
  case 0
  then show ?case
    by (subst (asm) forced_passes.simps) (auto simp: Let_def bind_Inr split: if_split_asm intro: one_pass)
next
  case (Suc left)
  obtain w1 c where pass: "compact_pass env model maxTokens opts (modelConversationMessages ms) w = Some (w1, Inr c)"
    using Suc.prems by (subst (asm) forced_passes.simps) (auto simp: Let_def bind_Inr)
  show ?case
  proof (cases "context_tokens env model opts c \<le> messages_budget env opts maxTokens")
    case True
    then show ?thesis using Suc.prems pass one_pass [OF pass] by (subst (asm) forced_passes.simps) (simp add: Let_def)
  next
    case False
    then have "Option.bind (forced_passes left env model maxTokens opts c w1) (\<lambda>(w2, r2). case r2 of
        Inr deeper \<Rightarrow> Some (w2, Inr deeper)
      | Inl e \<Rightarrow> Some (w2, if keeps_last env model maxTokens opts (modelConversationMessages ms) c e w2 then Inr c else Inl e))
      = Some (w', Inr res)"
      using Suc.prems pass by (subst (asm) forced_passes.simps) (simp add: Let_def split: option.split_asm)
    then obtain w2 r2 where deeper: "forced_passes left env model maxTokens opts c w1 = Some (w2, r2)"
        and res: "r2 = Inr res \<or> res = c"
      by (cases "forced_passes left env model maxTokens opts c w1") (auto split: sum.split_asm if_split_asm)
    from res show ?thesis
      using one_pass [OF pass] more_passes [OF pass Suc.IH] deeper by auto
  qed
qed

lemma compact_compacts:
  assumes "compactMessages env model maxTokens opts messages w = Some (w', Inr (res, True))"
  shows "compacts env model maxTokens opts messages res"
proof -
  have "forced_passes max_passes env model maxTokens opts (modelConversationMessages messages) w = Some (w', Inr res)"
    using assms by (auto simp: compactMessages_def Let_def bind_result case_Inr split: if_split_asm)
  from forced_compacts [OF this] show ?thesis by (cases rule: compacts.cases) (auto intro: compacts.intros)
qed

text \<open>The new conversation of a pass, as the two messages of the envelope and the rest.\<close>

lemma project_shape:
  "projectCompactedMessages env opts ms summary k w =
     plain_message UserRole (summary_text (extractTaskAnchor ms) (extractCurrentTask ms) summary) (ce_now env 0 w)
     # plain_message AssistantRole acknowledgement (ce_now env 1 w) # drop k ms
       @ plan_messages env opts (plain_message UserRole (summary_text (extractTaskAnchor ms) (extractCurrentTask ms) summary) (ce_now env 0 w)
           # plain_message AssistantRole acknowledgement (ce_now env 1 w) # drop k ms) w"
  by (simp add: projectCompactedMessages_def Let_def)

lemma plan_messages_plain:
  "m \<in> set (plan_messages env opts c w) \<Longrightarrow> ms_event m = None \<and> (\<exists>s. ms_content m = PlainText s)"
  by (auto simp: plan_messages_def split: option.splits if_splits)

lemma plain_not_framework: "ms_event m = None \<Longrightarrow> \<not> isFrameworkOperationalMessage m"
  by (simp add: isFrameworkOperationalMessage_def)

lemma pass_model_messages:
  assumes "c = projectCompactedMessages env opts (modelConversationMessages ms) summary k w"
  shows "modelConversationMessages c = c"
proof -
  have "\<not> isFrameworkOperationalMessage m" if "m \<in> set c" for m
    using that unfolding assms project_shape
    by (auto dest: plan_messages_plain in_set_dropD simp: plain_not_framework modelConversationMessages_filter)
  then show ?thesis unfolding modelConversationMessages_filter by (rule filter_True [OF ballI])
qed

subsection \<open>The original task\<close>

text \<open>A text that the section of a summary gives back: trimmed and without a heading line.\<close>

definition plain_task :: "string \<Rightarrow> bool" where
  "plain_task t \<longleftrightarrow> t \<noteq> [] \<and> js_trim t = t \<and> search_heading (nl # t) = None"

lemma starts_with_append: "js_starts_with (p @ s) p"
  by (simp add: js_starts_with_def)

lemma index_of_self: "js_index_of (p @ s) p = Some 0"
  using starts_with_append [of p s] by (cases "p @ s") auto

lemma index_of_skip:
  assumes "CHR ''#'' \<notin> set pre" "heading = CHR ''#'' # h"
  shows "js_index_of (pre @ heading @ s) heading = Some (length pre)"
  using assms
proof (induction pre)
  case Nil
  then show ?case using index_of_self [of heading s] by simp
next
  case (Cons c pre)
  then have "\<not> js_starts_with (c # pre @ heading @ s) heading" by (auto simp: js_starts_with_def)
  then show ?case using Cons by simp
qed

lemma starts_append: "js_starts_with (xs @ ys) p \<longleftrightarrow>
    (if length p \<le> length xs then js_starts_with xs p else take (length xs) p = xs \<and> js_starts_with ys (drop (length xs) p))"
proof (cases "length p \<le> length xs")
  case False
  then have "take (length p) (xs @ ys) = xs @ take (length p - length xs) ys" by simp
  moreover have "p = take (length xs) p @ drop (length xs) p" by simp
  ultimately show ?thesis using False unfolding js_starts_with_def
    by (metis append_eq_append_conv length_drop length_take min.absorb2 nat_le_linear)
qed (simp add: js_starts_with_def)

text \<open>Behind a text and two line breaks the first heading is the next one.\<close>

lemma heading_cut:
  assumes "heading_at (s @ nl # nl # r)" "s \<noteq> []"
  shows "heading_at s"
proof -
  obtain p where p: "p \<in> {nl # ''# '', nl # ''## '', nl # ''### ''}" "js_starts_with (s @ nl # nl # r) p"
    using assms(1) by (auto simp: heading_at_def)
  have "length p \<le> length s"
  proof (rule ccontr)
    assume "\<not> ?thesis"
    then have t: "take (length s) p = s" "js_starts_with (nl # nl # r) (drop (length s) p)"
      using p(2) starts_append [of s "nl # nl # r" p] by auto
    then have "hd (drop (length s) p) = nl" using \<open>\<not> length p \<le> length s\<close>
      by (cases "drop (length s) p") (auto simp: js_starts_with_def)
    moreover have "hd (drop (length s) p) \<in> set (tl p)"
      using \<open>\<not> length p \<le> length s\<close> assms(2) by (cases s) (auto simp: hd_drop_conv_nth drop_Suc neq_Nil_conv)
    moreover have "nl \<notin> set (tl p)" using p(1) by (auto simp: nl_def)
    ultimately show False by simp
  qed
  then have "js_starts_with s p" using p(2) starts_append [of s "nl # nl # r" p] by simp
  then show ?thesis using p(1) by (auto simp: heading_at_def)
qed

lemma search_heading_next:
  assumes "search_heading s = None" "heading_at (nl # r)"
  shows "search_heading (s @ nl # nl # r) = Some (Suc (length s))"
  using assms(1)
proof (induction s)
  case Nil
  have "\<not> heading_at (nl # nl # r)" by (auto simp: heading_at_def js_starts_with_def nl_def)
  then show ?case using assms(2) by simp
next
  case (Cons c s)
  then have "\<not> heading_at (c # s)" "search_heading s = None" by (auto split: if_splits)
  then show ?case using Cons.IH heading_cut [of "c # s" r] by auto
qed

lemma trim_nl: "js_trim (nl # s) = js_trim s" "js_trim (s @ [nl]) = js_trim s"
proof -
  have ws: "js_ws nl" by code_simp
  then show "js_trim (nl # s) = js_trim s" by (simp add: js_trim_def js_trim_start_def)
  have "js_trim_end (xs @ [nl]) = js_trim_end xs" for xs using ws by (simp add: js_trim_end_def)
  moreover have "js_trim_start (s @ [nl]) = (if \<forall>x \<in> set s. js_ws x then [] else js_trim_start s @ [nl])"
    using ws by (auto simp: js_trim_start_def dropWhile_append)
  moreover have "js_trim_start s = []" if "\<forall>x \<in> set s. js_ws x" using that by (simp add: js_trim_start_def)
  ultimately show "js_trim (s @ [nl]) = js_trim s" by (simp add: js_trim_def)
qed

lemma section_body_summary:
  assumes "plain_task t" "heading_at (nl # r)" "CHR ''#'' \<notin> set pre" "heading = CHR ''#'' # h"
  shows "section_body heading (pre @ heading @ nl # t @ nl # nl # r) = t"
proof -
  have "search_heading ((nl # t) @ nl # nl # r) = Some (Suc (length (nl # t)))"
    using assms(1,2) by (intro search_heading_next) (auto simp: plain_task_def)
  then have "take (Suc (length (nl # t))) (nl # t @ nl # nl # r) = nl # t @ [nl]"
      "search_heading (nl # t @ nl # nl # r) = Some (Suc (Suc (length t)))" by simp_all
  then show ?thesis
    using index_of_skip [OF assms(3,4), of "nl # t @ nl # nl # r"] assms(1) trim_nl
    by (simp add: section_body_def plain_task_def)
qed

lemma summary_anchor:
  assumes "plain_task t"
  shows "section_body task_anchor_heading (summary_text t cur summary) = t"
proof -
  have t: "t \<noteq> []" using assms by (simp add: plain_task_def)
  have pre: "CHR ''#'' \<notin> set (summary_mark @ [nl])" by (simp add: summary_mark_def nl_def)
  have heading: "task_anchor_heading = CHR ''#'' # tl task_anchor_heading" by (simp add: task_anchor_heading_def)
  have follow: "heading_at (nl # ''## '' @ r)" for r by (simp add: heading_at_def js_starts_with_def)
  show ?thesis
  proof (cases "cur \<noteq> [] \<and> cur \<noteq> t")
    case True
    obtain r where r: "current_task_heading @ nl # cur @ nl # nl # ''## Summary'' @ nl # summary = ''## '' @ r"
      by (simp add: current_task_heading_def)
    have "summary_text t cur summary = (summary_mark @ [nl]) @ task_anchor_heading @ nl # t @ nl # nl # ''## '' @ r"
      using t True unfolding r [symmetric] by (simp add: summary_text_def)
    then show ?thesis using section_body_summary [OF assms follow pre heading] by simp
  next
    case False
    then have "summary_text t cur summary
        = (summary_mark @ [nl]) @ task_anchor_heading @ nl # t @ nl # nl # ''## '' @ ''Summary'' @ nl # summary"
      using t by (auto simp: summary_text_def)
    then show ?thesis using section_body_summary [OF assms follow pre heading] by simp
  qed
qed

lemma pass_anchor:
  assumes "plain_task (extractTaskAnchor ms)"
  shows "extractTaskAnchor (projectCompactedMessages env opts ms summary k w @ later) = extractTaskAnchor ms"
proof -
  have "extractTaskAnchor ms \<noteq> []" using assms by (simp add: plain_task_def)
  then show ?thesis using summary_anchor [OF assms] unfolding project_shape
    by (subst extractTaskAnchor_def) (simp add: string_text_def Let_def)
qed

lemma compacts_anchor:
  "compacts env model maxTokens opts ms c \<Longrightarrow> plain_task (extractTaskAnchor (modelConversationMessages ms)) \<Longrightarrow>
     extractTaskAnchor (c @ later) = extractTaskAnchor (modelConversationMessages ms)"
proof (induction arbitrary: later rule: compacts.induct)
  case (one_pass ms w w' c)
  from one_pass.hyps show ?case
    by (rule pass_cases) (simp add: pass_anchor [OF one_pass.prems])
next
  case (more_passes ms w w' c d)
  obtain k summary where c: "c = projectCompactedMessages env opts (modelConversationMessages ms) summary k w'"
    using more_passes.hyps(1) by (rule pass_cases) blast
  have "extractTaskAnchor c = extractTaskAnchor (modelConversationMessages ms)"
    using pass_anchor [OF more_passes.prems, of env opts summary k w' "[]"] c by simp
  then show ?case using more_passes.IH more_passes.prems pass_model_messages [OF c] by simp
qed


subsection \<open>What stays as it is\<close>

text \<open>
  Every tool result follows a message that holds the call, so the conversation is one that a
  provider accepts.
\<close>

definition tool_calls :: "message \<Rightarrow> string set" where
  "tool_calls m = (case ms_content m of PlainText _ \<Rightarrow> {} | Blocks bs \<Rightarrow> {i. \<exists>n inp. ToolUseBlock i n inp \<in> set bs})"

definition tool_results :: "message \<Rightarrow> string set" where
  "tool_results m = (case ms_content m of PlainText _ \<Rightarrow> {} | Blocks bs \<Rightarrow> {i. \<exists>c e im. ToolResultBlock i c e im \<in> set bs})"

definition paired :: "message list \<Rightarrow> bool" where
  "paired ms \<longleftrightarrow> (\<forall>j < length ms. tool_results (ms ! j) \<noteq> {} \<longrightarrow> 0 < j \<and> tool_results (ms ! j) \<subseteq> tool_calls (ms ! (j - 1)))"

lemma result_message: "isToolResultMessage m \<longleftrightarrow> tool_results m \<noteq> {}"
proof (cases "ms_content m")
  case (Blocks bs)
  have "is_tool_result b \<longleftrightarrow> (\<exists>i c e im. b = ToolResultBlock i c e im)" for b
    by (cases b) (simp_all add: is_tool_result_def)
  then show ?thesis using Blocks by (simp add: isToolResultMessage_def tool_results_def list_ex_iff) blast
qed (simp add: isToolResultMessage_def tool_results_def)

lemma plain_no_results: "ms_content m = PlainText s \<Longrightarrow> tool_results m = {}"
  by (simp add: tool_results_def)

definition is_acknowledgement :: "message \<Rightarrow> bool" where
  "is_acknowledgement m \<longleftrightarrow> ms_role m = AssistantRole \<and> ms_content m = PlainText acknowledgement"

definition is_summary :: "message \<Rightarrow> bool" where
  "is_summary m \<longleftrightarrow> ms_role m = UserRole \<and> (\<exists>t. ms_content m = PlainText (summary_mark @ nl # t))"

text \<open>
  \<open>keeps_rest ms extra c\<close>: the conversation \<open>c\<close> is a summary, acknowledgements, and all of \<open>ms\<close>
  and \<open>extra\<close> from some message on that is no tool result.
\<close>

definition keeps_rest :: "message list \<Rightarrow> message list \<Rightarrow> message list \<Rightarrow> bool" where
  "keeps_rest ms extra c \<longleftrightarrow> (\<exists>s acks k. c = s # acks @ drop k (ms @ extra) \<and> is_summary s \<and> acks \<noteq> []
     \<and> list_all is_acknowledgement acks \<and> 0 < k \<and> k \<le> length (ms @ extra)
     \<and> (k < length (ms @ extra) \<longrightarrow> tool_results ((ms @ extra) ! k) = {})
     \<and> (\<forall>m \<in> set extra. tool_results m = {}))"

lemma pass_rest:
  assumes "compact_pass env model maxTokens opts ms w = Some (w', Inr c)"
  shows "\<exists>extra. keeps_rest ms extra c"
  using assms
proof (rule pass_cases)
  fix sp summary
  assume sel: "selectSemanticPrefix env model (bu_source (compaction_budgets env model maxTokens)) maxTokens ms = Inr sp"
    and c: "c = projectCompactedMessages env opts ms summary (sp_end sp) w'"
  note sp = select_prefix [OF sel]
  obtain s a extra where shape: "c = s # [a] @ drop (sp_end sp) ms @ extra" "is_summary s" "is_acknowledgement a"
      "\<forall>m \<in> set extra. tool_results m = {}"
    using c unfolding project_shape
    by (fastforce simp: is_summary_def is_acknowledgement_def summary_text_def Let_def plain_no_results
        dest: plan_messages_plain)
  have "tool_results ((ms @ extra) ! sp_end sp) = {}" if "sp_end sp < length (ms @ extra)"
  proof (cases "sp_end sp < length ms")
    case True
    then show ?thesis using sp(3) by (simp add: nth_append result_message)
  next
    case False
    then have "(ms @ extra) ! sp_end sp \<in> set extra" using sp(2) that by (simp add: nth_append)
    then show ?thesis using shape(4) by blast
  qed
  moreover have "c = s # [a] @ drop (sp_end sp) (ms @ extra)" using shape(1) sp(2) by simp
  ultimately show ?thesis unfolding keeps_rest_def using shape(2-4) sp(1,2)
    by (intro exI [of _ extra] exI [of _ s] exI [of _ "[a]"] exI [of _ "sp_end sp"]) simp
qed

lemma nth_behind: "length f \<le> j \<Longrightarrow> k \<le> length xs \<Longrightarrow> (f @ drop k xs) ! j = xs ! (k + (j - length f))"
  by (simp add: nth_append)

lemma drop_in_front: "j \<le> length f \<Longrightarrow> drop j (f @ r) = drop j f @ r"
  by simp

lemma rest_trans:
  assumes "keeps_rest ms extra c" "keeps_rest c extra2 d"
  shows "keeps_rest ms (extra @ extra2) d"
proof -
  obtain s acks k where c: "c = s # acks @ drop k (ms @ extra)" "list_all is_acknowledgement acks"
      "0 < k" "k \<le> length (ms @ extra)" "k < length (ms @ extra) \<longrightarrow> tool_results ((ms @ extra) ! k) = {}"
      "\<forall>m \<in> set extra. tool_results m = {}"
    using assms(1) unfolding keeps_rest_def by blast
  obtain s' acks' j where d: "d = s' # acks' @ drop j (c @ extra2)" "is_summary s'" "acks' \<noteq> []"
      "list_all is_acknowledgement acks'" "0 < j" "j \<le> length (c @ extra2)"
      "j < length (c @ extra2) \<longrightarrow> tool_results ((c @ extra2) ! j) = {}" "\<forall>m \<in> set extra2. tool_results m = {}"
    using assms(2) unfolding keeps_rest_def by blast
  define whole where "whole = ms @ extra @ extra2"
  have front: "tool_results (whole ! k) = {}" if "k < length whole"
  proof (cases "k < length (ms @ extra)")
    case True
    then have "whole ! k = (ms @ extra) ! k" unfolding whole_def by (metis append_assoc nth_append)
    then show ?thesis using True c(5) by simp
  next
    case False
    then have "whole ! k \<in> set extra2" using that unfolding whole_def by (auto simp: nth_append)
    then show ?thesis using d(8) by blast
  qed
  have all: "c @ extra2 = (s # acks) @ drop k whole" and k: "k \<le> length whole" using c(1,4) by (simp_all add: whole_def)
  have extra: "\<forall>m \<in> set (extra @ extra2). tool_results m = {}" using c(6) d(8) by auto
  have intro: "keeps_rest ms (extra @ extra2) d" if "d = s' # a @ drop i whole" "a \<noteq> []" "list_all is_acknowledgement a"
      "0 < i" "i \<le> length whole" "i < length whole \<Longrightarrow> tool_results (whole ! i) = {}" for a i
    unfolding keeps_rest_def append_assoc [symmetric] using that d(2) extra
    by (intro exI [of _ s'] exI [of _ a] exI [of _ i]) (simp add: whole_def)
  show ?thesis
  proof (cases "j \<le> length (s # acks)")
    case True
    show ?thesis
    proof (rule intro [of "acks' @ drop j (s # acks)" k])
      show "d = s' # (acks' @ drop j (s # acks)) @ drop k whole" 
        using d(1) unfolding all drop_in_front [OF True] append_assoc .
      have "drop j (s # acks) = drop (j - 1) acks" using d(5) by (cases j) simp_all
      then show "list_all is_acknowledgement (acks' @ drop j (s # acks))"
        using c(2) d(4) by (auto simp: list_all_iff dest: in_set_dropD)
    qed (use d(3) c(3) k front in simp_all)
  next
    case False
    define i where "i = j - length (s # acks) + k"
    have j: "j = length (s # acks) + (i - k)" "k \<le> i" using False by (simp_all add: i_def)
    have same: "(c @ extra2) ! j = whole ! i" if "i < length whole"
      unfolding all j(1) nth_append_length_plus using that j(2) k by simp
    have len: "length (c @ extra2) = length (s # acks) + (length whole - k)" unfolding all by simp
    show ?thesis
    proof (rule intro [of acks' i])
      have "drop j (c @ extra2) = drop (i - k) (drop k whole)" unfolding all j(1) by simp
      then show "d = s' # acks' @ drop i whole" using d(1) j(2) by simp
      show "tool_results (whole ! i) = {}" if "i < length whole"
        using same [OF that] d(7) that j k unfolding len by simp
    qed (use d(3,4,6) c(3) k j len in simp_all)
  qed
qed

lemma compacts_rest: "compacts env model maxTokens opts ms c \<Longrightarrow> \<exists>extra. keeps_rest (modelConversationMessages ms) extra c"
proof (induction rule: compacts.induct)
  case (one_pass ms w w' c)
  then show ?case by (rule pass_rest)
next
  case (more_passes ms w w' c d)
  obtain k summary where "c = projectCompactedMessages env opts (modelConversationMessages ms) summary k w'"
    using more_passes.hyps(1) by (rule pass_cases) blast
  from pass_model_messages [OF this] have "modelConversationMessages c = c" .
  then show ?case using pass_rest [OF more_passes.hyps(1)] more_passes.IH rest_trans by metis
qed

lemma rest_paired:
  assumes "keeps_rest ms extra c" "paired ms"
  shows "paired c"
proof -
  obtain s acks k where c: "c = (s # acks) @ drop k (ms @ extra)" "is_summary s" "list_all is_acknowledgement acks"
      "0 < k" "k \<le> length (ms @ extra)" "k < length (ms @ extra) \<longrightarrow> tool_results ((ms @ extra) ! k) = {}"
      "\<forall>m \<in> set extra. tool_results m = {}"
    using assms(1) by (auto simp: keeps_rest_def)
  have envelope: "tool_results m = {}" if "m \<in> set (s # acks)" for m
    using that c(2,3) by (auto simp: is_summary_def is_acknowledgement_def list_all_iff plain_no_results)
  have rest: "0 < i \<and> tool_results ((ms @ extra) ! i) \<subseteq> tool_calls ((ms @ extra) ! (i - 1))"
    if "i < length (ms @ extra)" "tool_results ((ms @ extra) ! i) \<noteq> {}" for i
  proof (cases "i < length ms")
    case True
    then show ?thesis using assms(2) that(2) by (auto simp: paired_def nth_append)
  next
    case False
    then have "(ms @ extra) ! i \<in> set extra" using that(1) by (simp add: nth_append)
    then show ?thesis using c(7) that(2) by blast
  qed
  show ?thesis unfolding paired_def
  proof (intro allI impI)
    fix j assume j: "j < length c" "tool_results (c ! j) \<noteq> {}"
    let ?n = "length (s # acks)"
    have n: "?n \<le> j" using envelope nth_mem [of j "s # acks"] j(2) unfolding c(1) by (metis not_le nth_append)
    have len: "length c = ?n + (length (ms @ extra) - k)" by (simp only: c(1) length_append length_drop)
    have this_one: "c ! j = (ms @ extra) ! (k + (j - ?n))" unfolding c(1) by (rule nth_behind [OF n c(5)])
    have inside: "k + (j - ?n) < length (ms @ extra)" using j(1) n c(5) unfolding len by simp
    have behind: "?n < j"
    proof (rule ccontr)
      assume "\<not> ?thesis"
      then have "j - ?n = 0" by simp
      then show False using this_one inside j(2) c(6) by simp
    qed
    have last_one: "c ! (j - 1) = (ms @ extra) ! (k + (j - ?n) - 1)"
    proof -
      have "c ! (j - 1) = (ms @ extra) ! (k + (j - 1 - ?n))" unfolding c(1)
        by (rule nth_behind [OF _ c(5)]) (use behind in simp)
      moreover have "k + (j - 1 - ?n) = k + (j - ?n) - 1" using behind by simp
      ultimately show ?thesis by simp
    qed
    from rest [OF inside] this_one last_one j(2) behind show "0 < j \<and> tool_results (c ! j) \<subseteq> tool_calls (c ! (j - 1))"
      by simp
  qed
qed


subsection \<open>The size\<close>

lemma pass_smaller:
  assumes "compact_pass env model maxTokens opts ms w = Some (w', Inr c)" "\<not> co_allowNonReducing opts"
  shows "context_tokens env model opts c < context_tokens env model opts ms"
  using pass_cases [OF assms(1)] assms(2) by blast

lemma compacts_smaller:
  "compacts env model maxTokens opts ms c \<Longrightarrow> \<not> co_allowNonReducing opts \<Longrightarrow>
     context_tokens env model opts c < context_tokens env model opts (modelConversationMessages ms)"
proof (induction rule: compacts.induct)
  case (one_pass ms w w' c)
  then show ?case by (rule pass_smaller)
next
  case (more_passes ms w w' c d)
  obtain k summary where "c = projectCompactedMessages env opts (modelConversationMessages ms) summary k w'"
    using more_passes.hyps(1) by (rule pass_cases) blast
  from pass_model_messages [OF this] more_passes.IH [OF more_passes.prems] pass_smaller [OF more_passes.hyps(1) more_passes.prems]
  show ?case by simp
qed

text \<open>Where the passes may stop: at the budget, at the trigger, or when the signal is set.\<close>

definition small_enough :: "'w compact_env \<Rightarrow> string \<Rightarrow> int \<Rightarrow> compact_options \<Rightarrow> message list \<Rightarrow> 'w \<Rightarrow> bool" where
  "small_enough env model maxTokens opts c w \<longleftrightarrow>
     context_tokens env model opts c \<le> messages_budget env opts maxTokens
     \<or> of_int (context_tokens env model opts c) \<le> trigger_level (ce_env env) maxTokens
     \<or> ce_aborted env w"

lemma kept_small: "keeps_last env model maxTokens opts ms c e w \<Longrightarrow> small_enough env model maxTokens opts c w"
  by (auto simp: keeps_last_def small_enough_def)

lemma passes_small:
  "forced_passes left env model maxTokens opts ms w = Some (w', Inr res) \<Longrightarrow> small_enough env model maxTokens opts res w'"
proof (induction left arbitrary: ms w)
  case 0
  then show ?case
    by (subst (asm) forced_passes.simps) (auto simp: Let_def bind_Inr small_enough_def split: if_split_asm)
next
  case (Suc left)
  obtain w1 c where pass: "compact_pass env model maxTokens opts (modelConversationMessages ms) w = Some (w1, Inr c)"
    using Suc.prems by (subst (asm) forced_passes.simps) (auto simp: Let_def bind_Inr)
  show ?case
  proof (cases "context_tokens env model opts c \<le> messages_budget env opts maxTokens")
    case True
    then show ?thesis using Suc.prems pass
      by (subst (asm) forced_passes.simps) (simp add: Let_def small_enough_def)
  next
    case False
    then have "Option.bind (forced_passes left env model maxTokens opts c w1) (\<lambda>(w2, r2). case r2 of
        Inr deeper \<Rightarrow> Some (w2, Inr deeper)
      | Inl e \<Rightarrow> Some (w2, if keeps_last env model maxTokens opts (modelConversationMessages ms) c e w2 then Inr c else Inl e))
      = Some (w', Inr res)"
      using Suc.prems pass by (subst (asm) forced_passes.simps) (simp add: Let_def split: option.split_asm)
    then have "(\<exists>r2. forced_passes left env model maxTokens opts c w1 = Some (w', r2)
        \<and> (r2 = Inr res \<or> small_enough env model maxTokens opts res w'))"
      by (cases "forced_passes left env model maxTokens opts c w1") (auto split: sum.split_asm if_split_asm intro: kept_small)
    then show ?thesis using Suc.IH by blast
  qed
qed

text \<open>
  C33. A compaction makes room.  Unless the caller allows the contrary, the new conversation
  takes fewer tokens of the context than the old one, by the count and the safety factor of
  the code; and it is within the size that was aimed at, or at most the trigger, unless the
  abort signal was set.
\<close>

theorem compaction_reduces:
  assumes "compactMessages env model maxTokens opts messages w = Some (w', Inr (res, True))"
  shows "(co_allowNonReducing opts
      \<or> context_tokens env model opts res < context_tokens env model opts (modelConversationMessages messages))
    \<and> (context_tokens env model opts res \<le> messages_budget env opts maxTokens
      \<or> of_int (context_tokens env model opts res) \<le> trigger_level (ce_env env) maxTokens
      \<or> ce_aborted env w')"
proof
  show "co_allowNonReducing opts
      \<or> context_tokens env model opts res < context_tokens env model opts (modelConversationMessages messages)"
    using compacts_smaller [OF compact_compacts [OF assms]] by blast
  have "forced_passes max_passes env model maxTokens opts (modelConversationMessages messages) w = Some (w', Inr res)"
    using assms by (auto simp: compactMessages_def Let_def bind_result case_Inr split: if_split_asm)
  from passes_small [OF this]
  show "context_tokens env model opts res \<le> messages_budget env opts maxTokens
      \<or> of_int (context_tokens env model opts res) \<le> trigger_level (ce_env env) maxTokens
      \<or> ce_aborted env w'"
    by (simp add: small_enough_def)
qed

subsection \<open>The passes return\<close>

text \<open>
  A token of the tokenizer stands for at most \<open>k\<close> characters; then a summary that goes on
  and on reaches the size of its source.
\<close>

definition token_length :: "tokenizer \<Rightarrow> nat \<Rightarrow> bool" where
  "token_length enc k \<longleftrightarrow> 4 \<le> k \<and> (\<forall>model text n. enc model text = Some n \<longrightarrow> length text \<le> k * n)"

lemma text_within:
  assumes "token_length enc k"
  shows "int (length text) \<le> int k * countTokens enc model text"
proof (cases "enc (tiktoken_model model) text")
  case None
  have "length text \<le> 4 * ((length text + 3) div 4)" by simp
  also have "\<dots> \<le> k * ((length text + 3) div 4)" using assms by (simp add: token_length_def)
  finally show ?thesis using None unfolding countTokens_def by (simp flip: of_nat_mult)
next
  case (Some n)
  then show ?thesis using assms unfolding token_length_def countTokens_def by (simp flip: of_nat_mult)
qed

lemma step_goes_on:
  assumes "stream_step env model source g a = StreamGoesOn g'" "token_length (ce_enc env) k"
  shows "length (gt_text g) < length (gt_text g')" "int (length (gt_text g')) \<le> int k * source"
proof -
  have g': "g' = gather g a" "js_trim (sa_segment a) \<noteq> []" "countTokens (ce_enc env) model (gt_text g') < source"
    using assms(1) by (auto simp: stream_step_def Let_def split: if_split_asm)
  then have "sa_segment a \<noteq> []" by (auto simp: js_trim_def js_trim_start_def js_trim_end_def)
  then show "length (gt_text g) < length (gt_text g')" using g'(1) by (simp add: gather_def)
  have "int k * countTokens (ce_enc env) model (gt_text g') \<le> int k * source" using g'(3) by (intro mult_left_mono) auto
  then show "int (length (gt_text g')) \<le> int k * source" using text_within [OF assms(2)] by (meson order_trans)
qed

lemma stream_returns:
  assumes "token_length (ce_enc env) k"
  shows "\<exists>r. compactionStream env rq source g w = Some r"
proof (induction "nat (int k * source) - length (gt_text g)" arbitrary: rq g w rule: less_induct)
  case less
  show ?case
  proof (cases "ask_provider env rq w")
    case (Pair w' r)
    show ?thesis
    proof (cases r)
      case (Inl e)
      then show ?thesis using Pair by (subst compactionStream.simps) simp
    next
      case (Inr a)
      show ?thesis
      proof (cases "stream_step env (rq_model rq) source g a")
        case (StreamEnds r)
        then show ?thesis using Pair Inr by (subst compactionStream.simps) (cases r; simp)
      next
        case (StreamGoesOn g')
        have "length (gt_text g) < length (gt_text g')" "int (length (gt_text g')) \<le> int k * source"
          using step_goes_on [OF StreamGoesOn assms] by auto
        then have "nat (int k * source) - length (gt_text g') < nat (int k * source) - length (gt_text g)" by linarith
        from less [OF this] show ?thesis using Pair Inr StreamGoesOn by (subst compactionStream.simps) simp
      qed
    qed
  qed
qed

lemma bind_returns: "\<exists>r. m = Some r \<Longrightarrow> (\<And>r. \<exists>y. f r = Some y) \<Longrightarrow> \<exists>y. Option.bind m f = Some y"
  by auto

lemma pass_returns:
  assumes "token_length (ce_enc env) k"
  shows "\<exists>r. compact_pass env model maxTokens opts ms w = Some r"
proof -
  have retry: "\<exists>r. retry_summary env model opts b sp summary w = Some r" for b sp summary w
    unfolding retry_summary_def by (rule bind_returns [OF stream_returns [OF assms]]) (auto split: sum.split)
  have raw: "\<exists>r. raw_summary env model opts b sp w = Some r" for b sp w
    unfolding raw_summary_def using retry
    by (intro bind_returns [OF stream_returns [OF assms]]) (auto simp: Let_def split: sum.split)
  show ?thesis
  proof (cases "selectSemanticPrefix env model (bu_source (compaction_budgets env model maxTokens)) maxTokens ms")
    case (Inr sp)
    show ?thesis unfolding compact_pass_def Let_def Inr sum.case
      by (rule bind_returns [OF raw]) (auto split: sum.split prod.split)
  qed (simp add: compact_pass_def Let_def)
qed

lemma passes_return:
  assumes "token_length (ce_enc env) k"
  shows "\<exists>r. forced_passes left env model maxTokens opts ms w = Some r"
proof (induction left arbitrary: ms w)
  case 0
  show ?case by (subst forced_passes.simps, unfold Let_def, rule bind_returns [OF pass_returns [OF assms]])
      (auto split: sum.split prod.split)
next
  case (Suc left)
  have "\<exists>y. Option.bind (forced_passes left env model maxTokens opts c w1) (\<lambda>(w2, r2). case r2 of
        Inr deeper \<Rightarrow> Some (w2, Inr deeper)
      | Inl e \<Rightarrow> Some (w2, if keeps_last env model maxTokens opts m c e w2 then Inr c else Inl e)) = Some y" for c w1 m
    by (rule bind_returns [OF Suc.IH]) (auto split: sum.split prod.split)
  then show ?case by (subst forced_passes.simps, unfold Let_def, intro bind_returns [OF pass_returns [OF assms]])
      (auto split: sum.split prod.split option.split)
qed

lemma compact_returns:
  "token_length (ce_enc env) k \<Longrightarrow> \<exists>r. compactMessages env model maxTokens opts messages w = Some r"
  unfolding compactMessages_def Let_def
  by (auto intro!: bind_returns [OF passes_return] simp del: split_paired_Ex split: prod.split)

text \<open>
  C5. A compaction that a caller requires comes back, and what it hands over can be sent.
  When a token stands for at most \<open>k\<close> characters, no provider, however it ends its
  answers, keeps \<open>applyRequiredCompactionOrThrow\<close> from returning; and a conversation that it
  returns, compacted or not, fits the window with the overhead and the output of the next call.
\<close>

theorem required_compaction_returns:
  assumes "\<And>env. provider = Some env \<Longrightarrow> token_length (ce_enc env) k"
  shows "\<exists>w' r. applyRequiredCompactionOrThrow enc settings provider model maxTokens overhead out plan messages w = Some (w', r)
    \<and> (\<forall>c busy. r = Inr (c, busy) \<longrightarrow> nextProviderCallFits enc model maxTokens
          \<lparr>cu_overhead = overhead, cu_output = out, cu_reported = 0, cu_reportedRaw = 0, cu_guard = 0\<rparr> c)"
proof -
  have "\<exists>r. compactMessagesRequired provider model maxTokens opts messages w = Some r" for opts
    using assms compact_returns by (cases provider) (auto simp: compactMessagesRequired_def simp del: split_paired_Ex)
  then obtain w' r where "compactMessagesRequired provider model maxTokens
      \<lparr>co_force = True, co_instructions = None, co_overhead = overhead, co_planFilePath = plan,
        co_sessionId = None, co_targetFinal = None, co_allowNonReducing = False\<rparr> messages w = Some (w', r)"
    by fast
  then show ?thesis unfolding applyRequiredCompactionOrThrow_def Let_def
    by (cases r) (auto split: prod.split)
qed

text \<open>A provider that never ends its answer.\<close>

definition endless_env :: "unit compact_env" where
  "endless_env = \<lparr>ce_enc = (\<lambda>_ _. None), ce_env = (\<lambda>_. None), ce_text = (\<lambda>_. []), ce_name = ''cortex'',
     ce_provider = (\<lambda>_ w. (w, [(TextChunk ''more'', False), (StopReason ''length'', False)], None)),
     ce_aborted = (\<lambda>_. False), ce_now = (\<lambda>_ _. 0), ce_plan = (\<lambda>_ _. None), ce_fence = (\<lambda>_. None)\<rparr>"

lemma required_compaction_returns_witness:
  "\<exists>w' r. applyRequiredCompactionOrThrow (\<lambda>_ _. None) (\<lambda>_. None) (Some endless_env)
      ''cortex/mini'' 8192 0 0 None [plain_message UserRole ''hello'' 0] () = Some (w', r)"
proof -
  have "token_length (ce_enc endless_env) 4" by (simp add: token_length_def endless_env_def)
  then have "\<And>env. Some endless_env = Some env \<Longrightarrow> token_length (ce_enc env) 4" by simp
  from required_compaction_returns [where provider = "Some endless_env", OF this,
      of "\<lambda>_ _. None" "\<lambda>_. None" "''cortex/mini''" 8192 0 0 None "[plain_message UserRole ''hello'' 0]" "()"]
  show ?thesis by blast
qed

subsection \<open>One compaction worked out\<close>

text \<open>
  A conversation of four messages of 200 tokens, a provider that summarizes in one request: the
  first three messages become the summary, and the last one stays.
\<close>

definition trial_env :: "unit compact_env" where
  "trial_env = \<lparr>ce_enc = (\<lambda>_ _. Some 200), ce_env = (\<lambda>_. None), ce_text = (\<lambda>_. []), ce_name = ''openai'',
     ce_provider = (\<lambda>_ w. (w, [(TextChunk ''ok'', False), (StopReason ''stop'', False), (DoneChunk, False)], None)),
     ce_aborted = (\<lambda>_. False), ce_now = (\<lambda>_ _. 0), ce_plan = (\<lambda>_ _. None), ce_fence = (\<lambda>_. None)\<rparr>"

definition trial_options :: compact_options where
  "trial_options = \<lparr>co_force = True, co_instructions = None, co_overhead = 0, co_planFilePath = None,
     co_sessionId = None, co_targetFinal = None, co_allowNonReducing = False\<rparr>"

definition trial_messages :: "message list" where
  "trial_messages = [plain_message UserRole ''fix it'' 0, plain_message AssistantRole ''yes'' 0,
     plain_message UserRole ''go'' 0, plain_message AssistantRole ''done'' 0]"

lemma trial_count: "countTokens (ce_enc trial_env) model s = 200"
  by (simp add: trial_env_def countTokens_def)

lemma trial_tail: "4000 \<le> b \<Longrightarrow> recent_tail b 0 [200, 200, 200, 200] = 4"
  by simp

lemma trial_message: "message_tokens (ce_enc trial_env) model (plain_message r s t) = 200"
  by (simp add: message_tokens_def plain_message_def trial_count)

lemma trial_prefix: "512 \<le> b \<Longrightarrow> selectSemanticPrefix trial_env model b m trial_messages
   = Inr \<lparr>sp_text = joined (take 3 trial_messages), sp_end = 3, sp_tokens = 200\<rparr>"
proof -
  assume b: "512 \<le> b"
  have "desired_prefix_end trial_env model m trial_messages = 3"
    by (simp add: desired_prefix_end_def trial_messages_def trial_message parsePositiveIntEnv_def Let_def)
      (simp add: trial_env_def)
  moreover have "search_prefix (\<lambda>k. True) 2 3 1 = 3" by code_simp
  moreover have "back_off trial_messages 3 = 3" by code_simp
  moreover have "trial_messages \<noteq> []" by (simp add: trial_messages_def)
  ultimately show ?thesis using b by (simp add: selectSemanticPrefix_def trial_count Let_def)
qed

lemma trial_good: "isDegenerateSummary ''ok'' = None"
proof -
  have t: "js_trim ''ok'' = ''ok''" by code_simp
  have s: "re_all False serialized_re ''ok'' = []" by code_simp
  have c: "re_run False ''ok'' (RChr CHR ''['') (0, []) = []" "re_run False ''ok'' (RChr CHR ''['') (Suc 0, []) = []"
    "re_run False ''ok'' (RChr CHR ''['') (Suc (Suc 0), []) = []" by code_simp+
  have b: "re_all False (blob_re n) ''ok'' = []" for n
    by (simp add: re_all_def blob_re_def re_at_def c)
  have "\<not> re_test True the_summary_re ''ok''" by code_simp
  moreover have "\<not> re_test True according_re ''ok''" by code_simp
  ultimately show ?thesis by (simp add: isDegenerateSummary_def t s b js_starts_with_def)
qed
lemma trial_context: "context_tokens trial_env ''gpt-4o'' trial_options ms = estimateTokens (ce_enc trial_env) ''gpt-4o'' ms"
  if "estimateTokens (ce_enc trial_env) ''gpt-4o'' ms < 2000"
proof -
  have f: "getSafetyFactor ''gpt-4o'' = 1" by code_simp
  have "\<bar>estimateTokens (ce_enc trial_env) ''gpt-4o'' ms\<bar> < 2 ^ 53"
    unfolding abs_of_nonneg [OF estimateTokens_nonneg] using that by simp
  from dbl_int [OF this]
  have "dbl (of_int (estimateTokens (ce_enc trial_env) ''gpt-4o'' ms)) = of_int (estimateTokens (ce_enc trial_env) ''gpt-4o'' ms)" .
  then show ?thesis by (simp add: context_tokens_def f trial_options_def)
qed

definition trial_result :: "message list" where
  "trial_result = projectCompactedMessages trial_env trial_options trial_messages ''ok'' 3 ()"

lemma trial_result_shape: "\<exists>t. trial_result = [plain_message UserRole t 0, plain_message AssistantRole acknowledgement 0,
    plain_message AssistantRole ''done'' 0]"
proof -
  have "plan_messages trial_env trial_options c w = []" for c w by (simp add: plan_messages_def trial_options_def)
  moreover have "drop 3 trial_messages = [plain_message AssistantRole ''done'' 0]" by (simp add: trial_messages_def)
  moreover have "ce_now trial_env k w = 0" for k w by (simp add: trial_env_def)
  ultimately show ?thesis unfolding trial_result_def project_shape by simp blast
qed

lemma trial_tokens: "estimateTokens (ce_enc trial_env) ''gpt-4o'' trial_result = 600"
    "estimateTokens (ce_enc trial_env) ''gpt-4o'' trial_messages = 800"
proof -
  obtain t where t: "trial_result = [plain_message UserRole t 0, plain_message AssistantRole acknowledgement 0,
      plain_message AssistantRole ''done'' 0]" using trial_result_shape by blast
  show "estimateTokens (ce_enc trial_env) ''gpt-4o'' trial_result = 600" by (simp add: t trial_message)
qed (simp add: trial_messages_def trial_message)

lemma trial_pass: "compact_pass trial_env ''gpt-4o'' 200000 trial_options trial_messages () = Some ((), Inr trial_result)"
proof -
  let ?b = "compaction_budgets trial_env ''gpt-4o'' 200000"
  have b: "512 \<le> bu_source ?b" unfolding compaction_budgets_def Let_def budgets.simps by (rule max.cobounded1)
  have step: "stream_step trial_env m src nothing_gathered (answer_of [TextChunk ''ok'', StopReason ''stop'', DoneChunk])
     = StreamEnds (Inr \<lparr>sr_text = ''ok'', sr_reasoning = 0, sr_usage = 0, sr_stopReason = ''stop''\<rparr>)" for m src
    by (simp add: stream_step_def answer_of_def no_answer_def finished_badly_def unfinished_def final_reasons_def
       gather_def nothing_gathered_def add_chunk_def Let_def)
  have body: "summary_body ''ok'' = ''ok''" by code_simp
  have enough: "\<not> 200 < min_summary_tokens n" for n by (simp add: min_summary_tokens_def)
  have asked: "ask_provider trial_env rq () = ((), Inr (answer_of [TextChunk ''ok'', StopReason ''stop'', DoneChunk]))" for rq
    by (simp add: ask_provider_def trial_env_def)
  have quiet: "\<not> ce_aborted trial_env ()" by (simp add: trial_env_def)
  have stream: "compactionStream trial_env rq src nothing_gathered ()
      = Some ((), Inr \<lparr>sr_text = ''ok'', sr_reasoning = 0, sr_usage = 0, sr_stopReason = ''stop''\<rparr>)" for rq src
    by (subst compactionStream.simps) (simp add: asked step quiet)
  have raw: "raw_summary trial_env ''gpt-4o'' trial_options b sp () = Some ((), Inr ''ok'')" for b sp
    by (simp add: raw_summary_def stream body trial_count enough Let_def)
  have good: "accepted_summary trial_env ''gpt-4o'' sp ''ok'' = Inr ''ok''" for sp
    by (simp add: accepted_summary_def quality_failure_def trial_count enough trial_good)
  show ?thesis unfolding compact_pass_def Let_def trial_prefix [OF b] sum.case raw
    by (simp add: good trial_result_def [symmetric] trial_context trial_tokens)
qed

lemma trial_model: "modelConversationMessages trial_messages = trial_messages"
  by (simp add: modelConversationMessages_def trial_messages_def isFrameworkOperationalMessage_def plain_message_def)

lemma trial_compaction:
  "compactMessages trial_env ''gpt-4o'' 200000 trial_options trial_messages () = Some ((), Inr (trial_result, True))"
proof -
  have f: "co_force trial_options" and n: "co_targetFinal trial_options = None" by (simp_all add: trial_options_def)
  have "600 \<le> messages_budget trial_env trial_options 200000"
    by (auto simp: messages_budget_def n Let_def min_le_iff_disj le_max_iff_disj)
  then have "forced_passes max_passes trial_env ''gpt-4o'' 200000 trial_options trial_messages () = Some ((), Inr trial_result)"
    by (subst forced_passes.simps) (simp add: trial_model trial_pass trial_context trial_tokens)
  then show ?thesis by (simp add: compactMessages_def trial_model f)
qed



lemma compaction_reduces_witness:
  "context_tokens trial_env ''gpt-4o'' trial_options trial_result < context_tokens trial_env ''gpt-4o'' trial_options trial_messages"
proof -
  have "\<not> co_allowNonReducing trial_options" by (simp add: trial_options_def)
  then show ?thesis using compaction_reduces [OF trial_compaction] trial_model by simp
qed

subsection \<open>Where the code does less than its comments say\<close>

text \<open>A task with a heading line of its own is cut there, so it is not preserved to the byte.\<close>

lemma heading_cuts_task:
  "section_body task_anchor_heading (summary_text (''fix'' @ nl # ''# Plan'' @ nl # ''all of it'') [] ''ok'') = ''fix''"
  by code_simp

text \<open>The note about the plan file is taken for the newest instruction of the user.\<close>

lemma plan_note_is_instruction:
  "latestUserInstruction [plain_message UserRole ''go on'' 0, plain_message UserRole (plan_mark @ '' p'') 0,
     plain_message AssistantRole ''I have it'' 0] = plan_mark @ '' p''"
  by code_simp

text \<open>No summary ends with the reason that the budget of the retry asks about.\<close>

lemma stream_end_reason:
  "stream_step env model source g a = StreamEnds (Inr r) \<Longrightarrow> sr_stopReason r \<noteq> ''max_tokens''"
  by (auto simp: stream_step_def unfinished_def Let_def split: if_split_asm)

end
