(* ===== verification/SessionStore.thy ===== *)
theory SessionStore
  imports SqlTable ToolLoopGuard Conversation
begin

text \<open>
  The store of sessions, \<open>src/src/state/store.ts\<close>: the tables of its SQLite database and one
  operation per method.  The table of messages is the working context, which a compaction may
  rewrite; the transcript is filled by a trigger of the database.  A row id of a table with
  \<open>AUTOINCREMENT\<close> is never used twice, and references to a session are enforced, as the
  driver does by default.  A transaction that throws leaves the store as it was.

  The \<open>n\<close>-th reading of the clock in a method is \<open>clock n\<close>; \<open>parse\<close> is \<open>JSON.parse\<close>, and
  \<open>sha256\<close> the digest of a text.  A message holds its blocks as JSON values, since the store
  hands back whatever it has parsed.
\<close>

type_synonym clock = "nat \<Rightarrow> time"

type_synonym parser = "string \<Rightarrow> jsval option"

subsection \<open>Messages\<close>

datatype entry_content = EText string | EBlocks "jsval list"

record entry =
  en_id :: "string option"
  en_execution :: "string option"
  en_event :: jsval
  en_role :: string
  en_content :: entry_content
  en_timestamp :: "time option"

record stored =
  sd_session :: string
  sd_message :: "string option"
  sd_execution :: "string option"
  sd_role :: string
  sd_content :: string
  sd_timestamp :: time
  sd_event :: "string option"

definition content_text :: "entry_content \<Rightarrow> string" where
  "content_text c = (case c of EText s \<Rightarrow> s | EBlocks bs \<Rightarrow> stringify (JArr bs))"

definition stored_of :: "time \<Rightarrow> string \<Rightarrow> entry \<Rightarrow> stored" where
  "stored_of now s m = \<lparr>sd_session = s, sd_message = en_id m, sd_execution = en_execution m, sd_role = en_role m,
     sd_content = content_text (en_content m),
     sd_timestamp = (case en_timestamp m of None \<Rightarrow> now | Some t \<Rightarrow> t),
     sd_event = (if js_truthy (en_event m) then json_text (en_event m) else None)\<rparr>"

definition non_empty :: "string option \<Rightarrow> string option" where
  "non_empty s = (case s of None \<Rightarrow> None | Some t \<Rightarrow> if t = [] then None else Some t)"

definition parsed_event :: "parser \<Rightarrow> string option \<Rightarrow> jsval" where
  "parsed_event parse e = (case non_empty e of None \<Rightarrow> JUndef
     | Some t \<Rightarrow> (case parse t of None \<Rightarrow> JUndef | Some v \<Rightarrow> if js_truthy v then v else JUndef))"

definition parsed_content :: "parser \<Rightarrow> string \<Rightarrow> entry_content" where
  "parsed_content parse s = (case parse s of Some (JArr bs) \<Rightarrow> EBlocks bs | _ \<Rightarrow> EText s)"

definition deserialize :: "parser \<Rightarrow> stored \<Rightarrow> entry" where
  "deserialize parse r = \<lparr>en_id = non_empty (sd_message r), en_execution = non_empty (sd_execution r),
     en_event = parsed_event parse (sd_event r), en_role = sd_role r, en_content = parsed_content parse (sd_content r),
     en_timestamp = Some (sd_timestamp r)\<rparr>"

subsection \<open>The tables\<close>

record session_row =
  sn_id :: string
  sn_model :: string
  sn_cwd :: string
  sn_created :: time
  sn_updated :: time
  sn_input :: int
  sn_output :: int
  sn_cache :: "int option"
  sn_turns :: int
  sn_name :: "string option"

record transcript_row =
  tx_source :: "nat option"
  tx_stored :: stored
  tx_provenance :: string

record fts_row =
  fx_session :: string
  fx_role :: string
  fx_content :: string
  fx_timestamp :: time

record checkpoint_row =
  cp_session :: string
  cp_created :: time
  cp_prompt :: string
  cp_note :: string
  cp_kind :: "string option"

record snapshot_row =
  sp_session :: string
  sp_created :: time
  sp_model :: string
  sp_window :: "int option"
  sp_promptHash :: string
  sp_toolHash :: string
  sp_toolNames :: string
  sp_messageHashes :: string
  sp_messageCount :: int
  sp_totalCount :: "int option"
  sp_prefixHash :: "string option"
  sp_systemHash :: "string option"
  sp_shape :: "string option"
  sp_payloadHash :: string
  sp_sections :: "string option"

record head_row =
  hd_session :: string
  hd_created :: time
  hd_model :: string
  hd_prompt :: string
  hd_tools :: string

record wire_row =
  wr_session :: string
  wr_created :: time
  wr_count :: int
  wr_json :: string

record anchor_row =
  ar_session :: string
  ar_model :: string
  ar_input :: int
  ar_estimate :: int
  ar_raw :: int
  ar_count :: nat
  ar_hash :: string
  ar_updated :: time

datatype recovery_status = GuardTripped | RecoveryPending | Verified | Exhausted

record recovery_counters =
  rc_preserved :: int
  rc_coalesced :: int
  rc_dropped :: int
  rc_deferred :: int
  rc_replayed :: int

record recovery_row =
  rv_session :: string
  rv_episode :: string
  rv_active :: int
  rv_fenced :: int
  rv_target :: int
  rv_state :: recovery_status
  rv_attempts :: int
  rv_sourceCount :: int
  rv_sourceTokens :: int
  rv_compaction :: "string option"
  rv_last :: "string option"
  rv_counters :: recovery_counters
  rv_created :: time
  rv_updated :: time

datatype deferred_state = Deferred | Releasing | Replayed

record deferred_message =
  df_message :: string
  df_class :: string
  df_payload :: string

record deferred_row =
  dr_session :: string
  dr_episode :: string
  dr_item :: deferred_message
  dr_state :: deferred_state
  dr_created :: time
  dr_replayed :: "time option"

record provider_row =
  pv_owner :: string
  pv_provider :: string
  pv_model :: string
  pv_notBefore :: int
  pv_reason :: string
  pv_message :: "string option"
  pv_payload :: "string option"

record inbound_row =
  ib_message :: string
  ib_session :: string
  ib_channel :: string
  ib_completed :: bool
  ib_admittedAt :: time
  ib_completedAt :: "time option"

record tool_identity =
  ti_session :: string
  ti_generation :: string
  ti_owner :: string
  ti_inbound :: string
  ti_execution :: string
  ti_epoch :: int

datatype turn_state = TurnOpen | TurnFinalized | TurnRecovered

record turn_row =
  tn_identity :: tool_identity
  tn_state :: turn_state
  tn_history :: "string option"
  tn_created :: time

datatype attempt_state = Running | Completed | Interrupted_attempt

record attempt_row =
  ta_session :: string
  ta_generation :: string
  ta_call :: string
  ta_invocation :: int
  ta_name :: string
  ta_input :: string
  ta_state :: attempt_state
  ta_result :: "string option"
  ta_started :: time
  ta_finished :: "time option"

record state_store =
  db_sessions :: "session_row list"
  db_messages :: "(nat \<times> stored) list"
  db_nextRow :: nat
  db_transcript :: "transcript_row list"
  db_migrated :: "time option"
  db_fts :: "fts_row list"
  db_checkpoints :: "checkpoint_row list"
  db_snapshots :: "snapshot_row list"
  db_heads :: "head_row list"
  db_wire :: "wire_row list"
  db_anchors :: "anchor_row list"
  db_recovery :: "recovery_row list"
  db_deferred :: "deferred_row list"
  db_providers :: "provider_row list"
  db_inbound :: "inbound_row list"
  db_turns :: "turn_row list"
  db_attempts :: "attempt_row list"
  db_approvals :: "(string \<times> time) list"

datatype store_error =
    ForeignKey | UniqueKey | NotNull | BadJson
  | InvalidAdmission | InvalidDeferral | OtherInputPending
  | IncompleteIdentity | SessionAbsent | OwnerChanged
  | InvalidAttempt | AlreadyFinalized | AttemptMismatch | DifferentOutcome
  | FinalizationChanged | UnresolvedAttempts
  | NotAuthoritative | EpisodeDisappeared

text \<open>\<open>INSERT ... ON CONFLICT DO UPDATE\<close>, and a reference to a session.\<close>

definition sql_upsert :: "('r \<Rightarrow> bool) \<Rightarrow> ('r \<Rightarrow> 'r) \<Rightarrow> 'r \<Rightarrow> 'r list \<Rightarrow> 'r list" where
  "sql_upsert p f new rows = (if list_ex p rows then sql_update p f rows else rows @ [new])"

definition has_session :: "string \<Rightarrow> state_store \<Rightarrow> bool" where
  "has_session s db \<longleftrightarrow> list_ex (\<lambda>r. sn_id r = s) (db_sessions db)"

definition referencing :: "string \<Rightarrow> state_store \<Rightarrow> state_store \<Rightarrow> store_error + state_store" where
  "referencing s db db' = (if has_session s db then Inr db' else Inl ForeignKey)"

subsection \<open>Sessions and their messages\<close>

definition create_session_with_id :: "clock \<Rightarrow> string \<Rightarrow> string \<Rightarrow> string \<Rightarrow> state_store \<Rightarrow> store_error + state_store" where
  "create_session_with_id clock i model cwd db =
     (if has_session i db then Inl UniqueKey
      else Inr (db\<lparr>db_sessions := db_sessions db @ [\<lparr>sn_id = i, sn_model = model, sn_cwd = cwd, sn_created = clock 0,
        sn_updated = clock 0, sn_input = 0, sn_output = 0, sn_cache = Some 0, sn_turns = 0, sn_name = None\<rparr>]\<rparr>))"

text \<open>The trigger of an insertion: \<open>INSERT OR IGNORE\<close> under the unique index of the source.\<close>

definition archive :: "nat \<Rightarrow> stored \<Rightarrow> transcript_row list \<Rightarrow> transcript_row list" where
  "archive n r rows = (if list_ex (\<lambda>x. tx_source x = Some n) rows then rows
     else rows @ [\<lparr>tx_source = Some n, tx_stored = r, tx_provenance = ''active_insert''\<rparr>])"

definition insert_message :: "stored \<Rightarrow> state_store \<Rightarrow> store_error + state_store" where
  "insert_message r db = referencing (sd_session r) db
     (db\<lparr>db_messages := db_messages db @ [(db_nextRow db, r)], db_nextRow := Suc (db_nextRow db),
         db_transcript := archive (db_nextRow db) r (db_transcript db)\<rparr>)"

definition touch_session :: "time \<Rightarrow> string \<Rightarrow> state_store \<Rightarrow> state_store" where
  "touch_session now s db = db\<lparr>db_sessions := sql_update (\<lambda>r. sn_id r = s) (\<lambda>r. r\<lparr>sn_updated := now\<rparr>) (db_sessions db)\<rparr>"

definition indexMessage :: "string \<Rightarrow> string \<Rightarrow> string \<Rightarrow> time \<Rightarrow> state_store \<Rightarrow> state_store" where
  "indexMessage s role content timestamp db =
     (if content = [] \<or> js_starts_with content ''['' \<or> js_starts_with content ''{'' then db
      else db\<lparr>db_fts := db_fts db @ [\<lparr>fx_session = s, fx_role = role, fx_content = content, fx_timestamp = timestamp\<rparr>]\<rparr>)"

definition appendMessage :: "clock \<Rightarrow> string \<Rightarrow> entry \<Rightarrow> state_store \<Rightarrow> store_error + state_store" where
  "appendMessage clock s m db =
     (let r = stored_of (clock 0) s m in
      and_then (insert_message r db) (\<lambda>db'.
      Inr (indexMessage s (sd_role r) (sd_content r) (sd_timestamp r) (touch_session (clock 1) s db'))))"

fun append_all :: "clock \<Rightarrow> string \<Rightarrow> entry list \<Rightarrow> state_store \<Rightarrow> store_error + state_store" where
  "append_all clock s [] db = Inr db"
| "append_all clock s (m # ms) db =
     and_then (appendMessage clock s m db) (append_all (\<lambda>k. clock (k + 2)) s ms)"

definition loadMessages :: "parser \<Rightarrow> string \<Rightarrow> state_store \<Rightarrow> entry list" where
  "loadMessages parse s db = map (\<lambda>x. deserialize parse (snd x)) (filter (\<lambda>x. sd_session (snd x) = s) (db_messages db))"

fun insert_messages :: "clock \<Rightarrow> string \<Rightarrow> entry list \<Rightarrow> state_store \<Rightarrow> store_error + state_store" where
  "insert_messages clock s [] db = Inr db"
| "insert_messages clock s (m # ms) db =
     and_then (insert_message (stored_of (clock 0) s m) db) (insert_messages (\<lambda>k. clock (k + 1)) s ms)"

definition clearWirePrefix :: "string \<Rightarrow> state_store \<Rightarrow> state_store" where
  "clearWirePrefix s db = db\<lparr>db_wire := sql_delete (\<lambda>r. wr_session r = s) (db_wire db)\<rparr>"

definition delete_messages :: "string \<Rightarrow> state_store \<Rightarrow> state_store" where
  "delete_messages s db = db\<lparr>db_messages := sql_delete (\<lambda>x. sd_session (snd x) = s) (db_messages db)\<rparr>"

definition replaceMessages :: "clock \<Rightarrow> string \<Rightarrow> entry list \<Rightarrow> state_store \<Rightarrow> store_error + state_store" where
  "replaceMessages clock s ms db = insert_messages clock s ms (delete_messages s (clearWirePrefix s db))"

text \<open>The canonical text of a JSON value, its properties in the order of their keys.\<close>

definition stableJson :: "jsval \<Rightarrow> string" where
  "stableJson v = in_template (stableStringify v)"

definition opt_str :: "string option \<Rightarrow> jsval" where
  "opt_str s = (case s of None \<Rightarrow> JNull | Some t \<Rightarrow> JStr t)"

definition content_json :: "entry_content \<Rightarrow> jsval" where
  "content_json c = (case c of EText s \<Rightarrow> JStr s | EBlocks bs \<Rightarrow> JArr bs)"

definition transcript_key :: "entry \<Rightarrow> string" where
  "transcript_key m = stableJson (JObj [(''id'', opt_str (en_id m)), (''executionId'', opt_str (en_execution m)),
     (''role'', JStr (en_role m)), (''content'', content_json (en_content m)),
     (''timestamp'', case en_timestamp m of None \<Rightarrow> JNull | Some t \<Rightarrow> JNum t)])"

fun unique_by :: "('a \<Rightarrow> 'k) \<Rightarrow> 'k list \<Rightarrow> 'a list \<Rightarrow> 'a list" where
  "unique_by f seen [] = []"
| "unique_by f seen (x # xs) = (if f x \<in> set seen then unique_by f seen xs else x # unique_by f (f x # seen) xs)"

definition transcript_of :: "string \<Rightarrow> state_store \<Rightarrow> transcript_row list" where
  "transcript_of s db = filter (\<lambda>r. sd_session (tx_stored r) = s) (db_transcript db)"

definition loadTranscriptMessages :: "parser \<Rightarrow> string \<Rightarrow> state_store \<Rightarrow> entry list" where
  "loadTranscriptMessages parse s db = unique_by transcript_key []
     (map (\<lambda>r. deserialize parse (tx_stored r)) (js_sort (ascending (\<lambda>r. sd_timestamp (tx_stored r))) (transcript_of s db)))"

subsection \<open>Deferred requests to a provider\<close>

definition max_safe_integer :: int where
  "max_safe_integer = 2 ^ 53 - 1"

definition provider_key :: "string \<Rightarrow> string \<Rightarrow> string \<Rightarrow> provider_row \<Rightarrow> bool" where
  "provider_key owner provider model r \<longleftrightarrow> pv_owner r = owner \<and> pv_provider r = provider \<and> pv_model r = model"

definition deferProviderAdmission :: "string \<Rightarrow> string \<Rightarrow> string \<Rightarrow> int \<Rightarrow> string \<Rightarrow> state_store \<Rightarrow> store_error + state_store" where
  "deferProviderAdmission owner provider model notBefore reason db =
     (if owner = [] \<or> provider = [] \<or> model = [] \<or> max_safe_integer < \<bar>notBefore\<bar> then Inl InvalidAdmission
      else Inr (db\<lparr>db_providers := sql_upsert (provider_key owner provider model)
        (\<lambda>r. r\<lparr>pv_notBefore := max (pv_notBefore r) notBefore, pv_reason := reason\<rparr>)
        \<lparr>pv_owner = owner, pv_provider = provider, pv_model = model, pv_notBefore = notBefore, pv_reason = reason,
         pv_message = None, pv_payload = None\<rparr> (db_providers db)\<rparr>))"

definition providerDeferral :: "string \<Rightarrow> string \<Rightarrow> string \<Rightarrow> state_store \<Rightarrow> provider_row option" where
  "providerDeferral owner provider model db = find (provider_key owner provider model) (db_providers db)"

definition deferProviderInput ::
  "string \<Rightarrow> string \<Rightarrow> string \<Rightarrow> int \<Rightarrow> string \<Rightarrow> string \<Rightarrow> string \<Rightarrow> state_store \<Rightarrow> store_error + state_store" where
  "deferProviderInput owner provider model notBefore reason messageId payload db =
     (if owner = [] \<or> provider = [] \<or> model = [] \<or> messageId = [] \<or> payload = [] \<or> max_safe_integer < \<bar>notBefore\<bar>
      then Inl InvalidDeferral
      else if (case Option.bind (providerDeferral owner provider model db) (\<lambda>r. non_empty (pv_message r)) of
                 None \<Rightarrow> False | Some m \<Rightarrow> m \<noteq> messageId)
      then Inl OtherInputPending
      else Inr (db\<lparr>db_providers := sql_upsert (provider_key owner provider model)
        (\<lambda>r. r\<lparr>pv_notBefore := max (pv_notBefore r) notBefore, pv_reason := reason, pv_message := Some messageId,
            pv_payload := Some payload\<rparr>)
        \<lparr>pv_owner = owner, pv_provider = provider, pv_model = model, pv_notBefore = notBefore, pv_reason = reason,
         pv_message = Some messageId, pv_payload = Some payload\<rparr> (db_providers db)\<rparr>))"

definition pendingProviderInputs :: "string \<Rightarrow> state_store \<Rightarrow> (string option \<times> string) list" where
  "pendingProviderInputs owner db = concat (map (\<lambda>r. case pv_payload r of None \<Rightarrow> [] | Some p \<Rightarrow> [(pv_message r, p)])
     (js_sort (order_by [ascending pv_notBefore, ascending (\<lambda>r. nulls_first (pv_message r))])
       (filter (\<lambda>r. pv_owner r = owner \<and> pv_payload r \<noteq> None) (db_providers db))))"

definition completeProviderInput :: "string \<Rightarrow> string \<Rightarrow> state_store \<Rightarrow> state_store" where
  "completeProviderInput owner messageId db = db\<lparr>db_providers :=
     sql_update (\<lambda>r. pv_owner r = owner \<and> pv_message r = Some messageId) (\<lambda>r. r\<lparr>pv_message := None, pv_payload := None\<rparr>)
       (db_providers db)\<rparr>"

subsection \<open>Inbound messages\<close>

definition inboundProcessingCompleted :: "string \<Rightarrow> state_store \<Rightarrow> bool" where
  "inboundProcessingCompleted messageId db \<longleftrightarrow>
     (case find (\<lambda>r. ib_message r = messageId) (db_inbound db) of None \<Rightarrow> False | Some r \<Rightarrow> ib_completed r)"

definition markInboundProcessingAdmitted :: "clock \<Rightarrow> string \<Rightarrow> string \<Rightarrow> string \<Rightarrow> state_store \<Rightarrow> state_store" where
  "markInboundProcessingAdmitted clock s messageId channel db =
     (if list_ex (\<lambda>r. ib_message r = messageId) (db_inbound db) then db
      else db\<lparr>db_inbound := db_inbound db @ [\<lparr>ib_message = messageId, ib_session = s, ib_channel = channel,
        ib_completed = False, ib_admittedAt = clock 0, ib_completedAt = None\<rparr>]\<rparr>)"

definition markInboundProcessingCompleted :: "clock \<Rightarrow> string \<Rightarrow> state_store \<Rightarrow> state_store" where
  "markInboundProcessingCompleted clock messageId db = db\<lparr>db_inbound :=
     sql_update (\<lambda>r. ib_message r = messageId) (\<lambda>r. r\<lparr>ib_completed := True, ib_completedAt := Some (clock 0)\<rparr>) (db_inbound db)\<rparr>"

definition completedInboundMessageIds :: "state_store \<Rightarrow> string list" where
  "completedInboundMessageIds db = map ib_message
     (js_sort (order_by [ascending (\<lambda>r. nulls_first (ib_completedAt r)), ascending ib_admittedAt])
       (filter ib_completed (db_inbound db)))"

subsection \<open>Tool turns and their attempts\<close>

definition turn_key :: "string \<Rightarrow> string \<Rightarrow> turn_row \<Rightarrow> bool" where
  "turn_key s g t \<longleftrightarrow> ti_session (tn_identity t) = s \<and> ti_generation (tn_identity t) = g"

definition identity_complete :: "tool_identity \<Rightarrow> bool" where
  "identity_complete i \<longleftrightarrow> list_all (\<lambda>f. js_trim (f i) \<noteq> []) [ti_session, ti_generation, ti_owner, ti_inbound, ti_execution]"

definition ensureToolTurn :: "clock \<Rightarrow> tool_identity \<Rightarrow> state_store \<Rightarrow> store_error + state_store \<times> turn_row" where
  "ensureToolTurn clock i db =
     (if \<not> identity_complete i then Inl IncompleteIdentity
      else if \<not> has_session (ti_session i) db then Inl SessionAbsent
      else case find (turn_key (ti_session i) (ti_generation i)) (db_turns db) of
        None \<Rightarrow> let t = \<lparr>tn_identity = i, tn_state = TurnOpen, tn_history = None, tn_created = clock 0\<rparr>
          in Inr (db\<lparr>db_turns := db_turns db @ [t]\<rparr>, t)
      | Some t \<Rightarrow> if tn_identity t = i then Inr (db, t) else Inl OwnerChanged)"

definition attempt_key :: "string \<Rightarrow> string \<Rightarrow> string \<Rightarrow> int \<Rightarrow> attempt_row \<Rightarrow> bool" where
  "attempt_key s g c n a \<longleftrightarrow> ta_session a = s \<and> ta_generation a = g \<and> ta_call a = c \<and> ta_invocation a = n"

definition beginToolAttempt ::
  "clock \<Rightarrow> tool_identity \<Rightarrow> string \<Rightarrow> string \<Rightarrow> jsval \<Rightarrow> int \<Rightarrow> state_store \<Rightarrow> store_error + state_store" where
  "beginToolAttempt clock i callId name input invocation db =
     (if callId = [] \<or> name = [] \<or> invocation < 1 then Inl InvalidAttempt
      else and_then (ensureToolTurn clock i db) (\<lambda>(db', t).
        if tn_state t \<noteq> TurnOpen then Inl AlreadyFinalized
        else case json_text input of
          None \<Rightarrow> Inl NotNull
        | Some text \<Rightarrow>
            if list_ex (attempt_key (ti_session i) (ti_generation i) callId invocation) (db_attempts db') then Inl UniqueKey
            else Inr (db'\<lparr>db_attempts := db_attempts db' @ [\<lparr>ta_session = ti_session i, ta_generation = ti_generation i,
              ta_call = callId, ta_invocation = invocation, ta_name = name, ta_input = text, ta_state = Running,
              ta_result = None, ta_started = clock 1, ta_finished = None\<rparr>]\<rparr>)))"

text \<open>A result is the object that is serialized.\<close>

definition completeToolAttempt ::
  "clock \<Rightarrow> tool_identity \<Rightarrow> string \<Rightarrow> int \<Rightarrow> jsobj \<Rightarrow> bool \<Rightarrow> state_store \<Rightarrow> store_error + state_store" where
  "completeToolAttempt clock i callId invocation result interrupted db =
     and_then (ensureToolTurn clock i db) (\<lambda>(db', t).
       if tn_state t \<noteq> TurnOpen then Inl AlreadyFinalized
       else let key = attempt_key (ti_session i) (ti_generation i) callId invocation;
                text = stringify (JObj result);
                outcome = (if interrupted then Interrupted_attempt else Completed)
         in case find key (db_attempts db') of
              None \<Rightarrow> Inl AttemptMismatch
            | Some a \<Rightarrow>
                if js_get result ''toolUseId'' \<noteq> JStr callId then Inl AttemptMismatch
                else if ta_state a \<noteq> Running
                then (if ta_state a = outcome \<and> ta_result a = Some text then Inr db' else Inl DifferentOutcome)
                else Inr (db'\<lparr>db_attempts := sql_update key
                  (\<lambda>a. a\<lparr>ta_state := outcome, ta_result := Some text, ta_finished := Some (clock 1)\<rparr>) (db_attempts db')\<rparr>))"

text \<open>A map keeps the place of a key that is set again.\<close>

fun put_latest :: "attempt_row \<Rightarrow> (attempt_row \<times> nat) list \<Rightarrow> (attempt_row \<times> nat) list" where
  "put_latest a [] = [(a, 1)]"
| "put_latest a ((b, n) # rest) = (if ta_call b = ta_call a then (a, Suc n) # rest else (b, n) # put_latest a rest)"

definition latestToolAttempts :: "string \<Rightarrow> string \<Rightarrow> state_store \<Rightarrow> (attempt_row \<times> nat) list" where
  "latestToolAttempts s g db = foldl (\<lambda>m a. put_latest a m) []
     (js_sort (ascending ta_started) (filter (\<lambda>a. ta_session a = s \<and> ta_generation a = g) (db_attempts db)))"

definition unknown_outcome :: string where
  "unknown_outcome = ''This tool attempt has no durable completion record. Outcome is unknown; side effects may have occurred. Inspect current state before deciding whether to retry.''"

definition unknown_result :: "string \<Rightarrow> jsobj" where
  "unknown_result callId = [(''toolUseId'', JStr callId), (''content'', JStr unknown_outcome), (''isError'', JBool True),
     (''metadata'', JObj [(''executionOutcome'', JStr ''unknown''), (''interrupted'', JBool True)])]"

text \<open>Reading a property of a parsed value; of \<open>null\<close> it throws.\<close>

definition attempt_result :: "parser \<Rightarrow> attempt_row \<Rightarrow> store_error + jsobj" where
  "attempt_result parse a = (case non_empty (ta_result a) of
      None \<Rightarrow> Inr (unknown_result (ta_call a))
    | Some t \<Rightarrow> (case parse t of None \<Rightarrow> Inl BadJson | Some JNull \<Rightarrow> Inl BadJson
        | Some (JObj ob) \<Rightarrow> Inr ob | Some _ \<Rightarrow> Inr []))"

definition image_cap :: nat where
  "image_cap = 131072"

definition image_base64 :: "jsobj \<Rightarrow> string" where
  "image_base64 result = (case js_get result ''image'' of JObj im \<Rightarrow>
      (case js_get im ''base64'' of JStr s \<Rightarrow> s | _ \<Rightarrow> []) | _ \<Rightarrow> [])"

definition or_empty :: "jsval \<Rightarrow> string" where
  "or_empty v = (case v of JUndef \<Rightarrow> [] | JNull \<Rightarrow> [] | w \<Rightarrow> js_string w)"

definition retry_note :: "nat \<Rightarrow> string" where
  "retry_note n = (if 1 < n then ''This call had '' @ show_nat n @ '' recorded execution attempts. The latest outcome follows; earlier attempts may also have produced side effects.'' @ [CHR 0x0A] else [])"

definition result_block :: "nat \<Rightarrow> jsobj \<Rightarrow> jsval" where
  "result_block n result =
     (let oversized = image_cap < length (image_base64 result);
          content = (if oversized then or_empty (js_get result ''content'') @ [CHR 0x0A] @
              ''[Image omitted from session history: '' @ show_nat ((length (image_base64 result) * 3 + 2048) div 4096) @
              ''KB exceeds the persistence cap. Re-capture if needed.]''
            else js_string (js_get result ''content''))
      in JObj ([(''type'', JStr ''tool_result''), (''toolUseId'', js_get result ''toolUseId''),
            (''content'', JStr (retry_note n @ content)),
            (''isError'', js_get result ''isError'')]
          @ (if \<not> oversized \<and> js_truthy (js_get result ''image'') then [(''image'', js_get result ''image'')] else [])))"

definition call_block :: "parser \<Rightarrow> attempt_row \<Rightarrow> store_error + jsval" where
  "call_block parse a = (case parse (ta_input a) of None \<Rightarrow> Inl BadJson
     | Some v \<Rightarrow> Inr (JObj [(''type'', JStr ''tool_use''), (''id'', JStr (ta_call a)), (''name'', JStr (ta_name a)), (''input'', v)]))"

text \<open>An attempt that is still running is given its unknown outcome.\<close>

definition settle_attempt :: "time \<Rightarrow> tool_identity \<Rightarrow> attempt_row \<Rightarrow> jsobj \<Rightarrow> attempt_row list \<Rightarrow> attempt_row list" where
  "settle_attempt now i a result rows =
     (if ta_state a = Running
      then sql_update (attempt_key (ti_session i) (ti_generation i) (ta_call a) (ta_invocation a))
        (\<lambda>r. r\<lparr>ta_state := Interrupted_attempt, ta_result := Some (stringify (JObj result)), ta_finished := Some now\<rparr>) rows
      else rows)"

fun attempt_results :: "clock \<Rightarrow> parser \<Rightarrow> tool_identity \<Rightarrow> (attempt_row \<times> nat) list \<Rightarrow> state_store \<Rightarrow>
   store_error + state_store \<times> jsval list" where
  "attempt_results clock parse i [] db = Inr (db, [])"
| "attempt_results clock parse i ((a, n) # rest) db =
     and_then (attempt_result parse a) (\<lambda>result.
     and_then (attempt_results (\<lambda>k. clock (k + 1)) parse i rest
         (db\<lparr>db_attempts := settle_attempt (clock 0) i a result (db_attempts db)\<rparr>)) (\<lambda>(db', bs).
     Inr (db', result_block n result # bs)))"

definition recovery_entry :: "time \<Rightarrow> tool_identity \<Rightarrow> string \<Rightarrow> string \<Rightarrow> jsval list \<Rightarrow> entry" where
  "recovery_entry now i kind role bs = \<lparr>en_id = Some (''tool-recovery:'' @ ti_generation i @ '':'' @ kind),
     en_execution = Some (ti_execution i), en_event = JUndef, en_role = role, en_content = EBlocks bs, en_timestamp = Some now\<rparr>"

definition toolAttemptMessages :: "clock \<Rightarrow> parser \<Rightarrow> turn_row \<Rightarrow> (attempt_row \<times> nat) list \<Rightarrow> state_store \<Rightarrow>
   store_error + state_store \<times> entry list" where
  "toolAttemptMessages clock parse t attempts db =
     (if attempts = [] then Inr (db, [])
      else and_then (attempt_results (\<lambda>k. clock (k + 2)) parse (tn_identity t) attempts db) (\<lambda>(db', results).
        and_then (map_throw (\<lambda>(a, n). call_block parse a) attempts) (\<lambda>calls.
        Inr (db', [recovery_entry (clock 0) (tn_identity t) ''calls'' ''assistant'' calls,
                   recovery_entry (clock 1) (tn_identity t) ''results'' ''user'' results]))))"

text \<open>The serialized form of a message, its properties in the order of the interface.\<close>

definition entry_json :: "entry \<Rightarrow> jsval" where
  "entry_json m = JObj ((case en_id m of None \<Rightarrow> [] | Some s \<Rightarrow> [(''id'', JStr s)])
     @ (case en_execution m of None \<Rightarrow> [] | Some s \<Rightarrow> [(''executionId'', JStr s)])
     @ [(''operationalEvent'', en_event m), (''role'', JStr (en_role m)), (''content'', content_json (en_content m))]
     @ (case en_timestamp m of None \<Rightarrow> [] | Some t \<Rightarrow> [(''timestamp'', JNum t)]))"

definition block_call :: "jsval \<Rightarrow> jsval list" where
  "block_call b = (case b of JObj ob \<Rightarrow> if js_get ob ''type'' = JStr ''tool_use'' then [js_get ob ''id''] else [] | _ \<Rightarrow> [])"

definition entry_calls :: "entry \<Rightarrow> jsval list" where
  "entry_calls m = (case en_content m of EText _ \<Rightarrow> [] | EBlocks bs \<Rightarrow> concat (map block_call bs))"

definition set_turn :: "string \<Rightarrow> string \<Rightarrow> (turn_row \<Rightarrow> turn_row) \<Rightarrow> state_store \<Rightarrow> state_store" where
  "set_turn s g f db = db\<lparr>db_turns := sql_update (turn_key s g) f (db_turns db)\<rparr>"

definition finalizeToolTurn :: "clock \<Rightarrow> parser \<Rightarrow> tool_identity \<Rightarrow> entry list \<Rightarrow> state_store \<Rightarrow>
   store_error + state_store \<times> entry list" where
  "finalizeToolTurn clock parse i messages db =
     and_then (ensureToolTurn clock i db) (\<lambda>(db1, t).
       let text = stringify (JArr (map entry_json messages)) in
       if tn_state t = TurnFinalized \<and> tn_history t = Some text then Inr (db1, [])
       else if tn_state t \<noteq> TurnOpen then Inl FinalizationChanged
       else let included = concat (map entry_calls messages);
                latest = latestToolAttempts (ti_session i) (ti_generation i) db1;
                is_included = (\<lambda>(a, n). JStr (ta_call a) \<in> set included)
         in if list_ex (\<lambda>x. is_included x \<and> ta_state (fst x) = Running) latest then Inl UnresolvedAttempts
            else and_then (toolAttemptMessages (\<lambda>k. clock (k + 1)) parse t (filter (\<lambda>x. \<not> is_included x) latest) db1) (\<lambda>(db2, extra).
              and_then (append_all (\<lambda>k. clock (k + 3 + length latest)) (ti_session i) (messages @ extra) db2) (\<lambda>db3.
              Inr (set_turn (ti_session i) (ti_generation i) (\<lambda>t. t\<lparr>tn_state := TurnFinalized, tn_history := Some text\<rparr>) db3,
                   messages @ extra))))"

text \<open>One turn is recovered: its attempts become messages, and it is closed.\<close>

definition recover_turn :: "clock \<Rightarrow> parser \<Rightarrow> string \<Rightarrow> turn_row \<Rightarrow> state_store \<Rightarrow> store_error + state_store \<times> entry list" where
  "recover_turn clock parse s t db =
     and_then (toolAttemptMessages clock parse t (latestToolAttempts s (ti_generation (tn_identity t)) db) db) (\<lambda>(db1, ms).
     and_then (append_all (\<lambda>k. clock (k + 2 + length (db_attempts db))) s ms db1) (\<lambda>db2.
     Inr (set_turn s (ti_generation (tn_identity t)) (\<lambda>t. t\<lparr>tn_state := TurnRecovered\<rparr>) db2, ms)))"

fun recover_turns :: "clock \<Rightarrow> parser \<Rightarrow> string \<Rightarrow> turn_row list \<Rightarrow> state_store \<Rightarrow> store_error + state_store \<times> entry list" where
  "recover_turns clock parse s [] db = Inr (db, [])"
| "recover_turns clock parse s (t # ts) db =
     and_then (recover_turn clock parse s t db) (\<lambda>(db1, ms).
     and_then (recover_turns (\<lambda>k. clock (k + 6 + length (db_attempts db))) parse s ts db1) (\<lambda>(db2, ms').
     Inr (db2, ms @ ms')))"

definition recoverable :: "string \<Rightarrow> string \<Rightarrow> int \<Rightarrow> string option \<Rightarrow> turn_row \<Rightarrow> bool" where
  "recoverable s owner epoch generation t \<longleftrightarrow> ti_session (tn_identity t) = s \<and> ti_epoch (tn_identity t) = epoch
     \<and> tn_state t = TurnOpen \<and> (case non_empty generation of
         Some g \<Rightarrow> ti_generation (tn_identity t) = g \<and> ti_owner (tn_identity t) = owner
       | None \<Rightarrow> ti_owner (tn_identity t) \<noteq> owner)"

definition recoverToolTurns :: "clock \<Rightarrow> parser \<Rightarrow> string \<Rightarrow> string \<Rightarrow> int \<Rightarrow> string option \<Rightarrow> state_store \<Rightarrow>
   store_error + state_store \<times> entry list" where
  "recoverToolTurns clock parse s owner epoch generation db =
     recover_turns clock parse s (js_sort (ascending tn_created) (filter (recoverable s owner epoch generation) (db_turns db))) db"

definition heartbeat_match :: "tool_identity \<Rightarrow> string \<Rightarrow> jsval \<Rightarrow> turn_row \<Rightarrow> attempt_row \<Rightarrow> bool" where
  "heartbeat_match i name input t a \<longleftrightarrow> (let k = tn_identity t in
     ta_session a = ti_session k \<and> ta_generation a = ti_generation k \<and> ti_session k = ti_session i \<and> ti_epoch k = ti_epoch i
     \<and> ti_inbound k = ti_inbound i \<and> ti_execution k = ti_execution i \<and> ti_owner k \<noteq> ti_owner i
     \<and> tn_state t \<noteq> TurnOpen \<and> js_starts_with (js_lower (ti_generation k)) ''heartbeat:''
     \<and> ta_name a = name \<and> Some (ta_input a) = json_text input \<and> ta_result a \<noteq> None)"

definition recoveredHeartbeatTool :: "parser \<Rightarrow> tool_identity \<Rightarrow> string \<Rightarrow> jsval \<Rightarrow> state_store \<Rightarrow> store_error + jsval option" where
  "recoveredHeartbeatTool parse i name input db =
     (case js_sort (order_by [descending (\<lambda>(t, a). tn_created t), descending (\<lambda>(t, a). ta_invocation a)])
         (filter (\<lambda>(t, a). heartbeat_match i name input t a) (List.product (db_turns db) (db_attempts db))) of
        [] \<Rightarrow> Inr None
      | (t, a) # _ \<Rightarrow> (case Option.bind (ta_result a) parse of None \<Rightarrow> Inl BadJson | Some v \<Rightarrow> Inr (Some v)))"

subsection \<open>Tokens\<close>

definition updateTokens :: "clock \<Rightarrow> string \<Rightarrow> int \<Rightarrow> int \<Rightarrow> int option \<Rightarrow> state_store \<Rightarrow> state_store" where
  "updateTokens clock s input output cache db = db\<lparr>db_sessions := sql_update (\<lambda>r. sn_id r = s)
     (\<lambda>r. r\<lparr>sn_input := sn_input r + input, sn_output := sn_output r + output,
        sn_cache := (case cache of
            Some n \<Rightarrow> if 0 \<le> n then Some ((case sn_cache r of None \<Rightarrow> 0 | Some k \<Rightarrow> k) + n) else sn_cache r
          | None \<Rightarrow> sn_cache r),
        sn_turns := sn_turns r + 1, sn_updated := clock 0\<rparr>) (db_sessions db)\<rparr>"

definition hashJson :: "(string \<Rightarrow> string) \<Rightarrow> jsval \<Rightarrow> string" where
  "hashJson sha256 v = sha256 (stableJson v)"

definition saveContextTokenAnchor ::
  "clock \<Rightarrow> (string \<Rightarrow> string) \<Rightarrow> string \<Rightarrow> string \<Rightarrow> int \<Rightarrow> int \<Rightarrow> int \<Rightarrow> entry list \<Rightarrow> state_store \<Rightarrow>
   store_error + state_store" where
  "saveContextTokenAnchor clock sha256 s model input estimate raw baseline db =
     (let new = \<lparr>ar_session = s, ar_model = model, ar_input = input, ar_estimate = estimate, ar_raw = raw,
            ar_count = length baseline, ar_hash = hashJson sha256 (JArr (map entry_json baseline)), ar_updated = clock 0\<rparr>
      in referencing s db (db\<lparr>db_anchors := sql_upsert (\<lambda>r. ar_session r = s) (\<lambda>r. new) new (db_anchors db)\<rparr>))"

definition loadContextTokenAnchor :: "(string \<Rightarrow> string) \<Rightarrow> string \<Rightarrow> string \<Rightarrow> entry list \<Rightarrow> state_store \<Rightarrow> anchor_row option" where
  "loadContextTokenAnchor sha256 s model current db =
     (case find (\<lambda>r. ar_session r = s) (db_anchors db) of
        None \<Rightarrow> None
      | Some r \<Rightarrow>
          if ar_model r \<noteq> model \<or> length current < ar_count r then None
          else if hashJson sha256 (JArr (map entry_json (take (ar_count r) current))) \<noteq> ar_hash r then None
          else Some r)"

text \<open>The ratio is within its bounds when twice the input is at least the raw count and at most four times it.\<close>

definition loadTokenizerCalibration :: "string \<Rightarrow> string \<Rightarrow> state_store \<Rightarrow> anchor_row option" where
  "loadTokenizerCalibration s model db =
     (case find (\<lambda>r. ar_session r = s) (db_anchors db) of
        None \<Rightarrow> None
      | Some r \<Rightarrow>
          if ar_model r \<noteq> model \<or> ar_input r \<le> 0 \<or> ar_raw r \<le> 0 \<or> (0 < ar_estimate r \<and> ar_input r = ar_estimate r) then None
          else if 2 * ar_input r < ar_raw r \<or> 2 * ar_raw r < ar_input r then None
          else Some r)"

subsection \<open>The prefix that was sent to the provider\<close>

record prefix_snapshot =
  px_created :: time
  px_model :: string
  px_window :: "int option"
  px_promptHash :: string
  px_sections :: "jsval list option"
  px_toolHash :: string
  px_systemHash :: string
  px_toolNames :: "jsval"
  px_messageHashes :: "jsval"
  px_messageCount :: int
  px_totalCount :: int
  px_prefixHash :: string
  px_shape :: "string option"
  px_payloadHash :: string

definition saveProviderPrefixSnapshot :: "string \<Rightarrow> prefix_snapshot \<Rightarrow> state_store \<Rightarrow> store_error + state_store" where
  "saveProviderPrefixSnapshot s x db =
     (let new = \<lparr>sp_session = s, sp_created = px_created x, sp_model = px_model x, sp_window = px_window x,
            sp_promptHash = px_promptHash x, sp_toolHash = px_toolHash x, sp_toolNames = stringify (px_toolNames x),
            sp_messageHashes = stringify (px_messageHashes x), sp_messageCount = px_messageCount x,
            sp_totalCount = Some (px_totalCount x), sp_prefixHash = Some (px_prefixHash x),
            sp_systemHash = Some (px_systemHash x), sp_shape = px_shape x, sp_payloadHash = px_payloadHash x,
            sp_sections = (case px_sections x of None \<Rightarrow> None | Some vs \<Rightarrow> Some (stringify (JArr vs)))\<rparr>
      in referencing s db (db\<lparr>db_snapshots := sql_upsert (\<lambda>r. sp_session r = s) (\<lambda>r. new) new (db_snapshots db)\<rparr>))"

definition parsed_sections :: "parser \<Rightarrow> string option \<Rightarrow> jsval list option" where
  "parsed_sections parse t = (case Option.bind (non_empty t) parse of Some (JArr vs) \<Rightarrow> Some vs | _ \<Rightarrow> None)"

definition loadProviderPrefixSnapshot ::
  "parser \<Rightarrow> (string \<Rightarrow> string) \<Rightarrow> string \<Rightarrow> state_store \<Rightarrow> store_error + prefix_snapshot option" where
  "loadProviderPrefixSnapshot parse sha256 s db =
     (case find (\<lambda>r. sp_session r = s) (db_snapshots db) of
        None \<Rightarrow> Inr None
      | Some r \<Rightarrow> (case (parse (sp_messageHashes r), parse (sp_toolNames r)) of
          (Some hashes, Some names) \<Rightarrow> Inr (Some
            \<lparr>px_created = sp_created r, px_model = sp_model r, px_window = sp_window r, px_promptHash = sp_promptHash r,
             px_sections = parsed_sections parse (sp_sections r), px_toolHash = sp_toolHash r,
             px_systemHash = (case sp_systemHash r of Some h \<Rightarrow> h | None \<Rightarrow> hashJson sha256 (JObj
                [(''systemPromptHash'', JStr (sp_promptHash r)), (''toolSchemaHash'', JStr (sp_toolHash r))])),
             px_toolNames = names, px_messageHashes = hashes, px_messageCount = sp_messageCount r,
             px_totalCount = (case sp_totalCount r of Some n \<Rightarrow> n | None \<Rightarrow> sp_messageCount r),
             px_prefixHash = (case sp_prefixHash r of Some h \<Rightarrow> h | None \<Rightarrow> hashJson sha256 hashes),
             px_shape = (if sp_shape r \<in> {Some ''compaction'', Some ''emergency-trim''} then sp_shape r else None),
             px_payloadHash = sp_payloadHash r\<rparr>)
        | _ \<Rightarrow> Inl BadJson))"

definition loadProviderPrefixHead :: "string \<Rightarrow> state_store \<Rightarrow> head_row option" where
  "loadProviderPrefixHead s db = find (\<lambda>r. hd_session r = s) (db_heads db)"

definition saveProviderPrefixHead :: "head_row \<Rightarrow> state_store \<Rightarrow> store_error + state_store" where
  "saveProviderPrefixHead new db = referencing (hd_session new) db
     (db\<lparr>db_heads := sql_upsert (\<lambda>r. hd_session r = hd_session new) (\<lambda>r. new) new (db_heads db)\<rparr>)"

definition loadWirePrefix :: "string \<Rightarrow> state_store \<Rightarrow> (int \<times> string) option" where
  "loadWirePrefix s db = map_option (\<lambda>r. (wr_count r, wr_json r)) (find (\<lambda>r. wr_session r = s) (db_wire db))"

definition saveWirePrefix :: "clock \<Rightarrow> string \<Rightarrow> int \<Rightarrow> string \<Rightarrow> state_store \<Rightarrow> store_error + state_store" where
  "saveWirePrefix clock s n text db =
     (let new = \<lparr>wr_session = s, wr_created = clock 0, wr_count = n, wr_json = text\<rparr>
      in referencing s db (db\<lparr>db_wire := sql_upsert (\<lambda>r. wr_session r = s) (\<lambda>r. new) new (db_wire db)\<rparr>))"

subsection \<open>Recovery from expensive turns\<close>

definition recovery_key :: "string \<Rightarrow> string \<Rightarrow> recovery_row \<Rightarrow> bool" where
  "recovery_key s e r \<longleftrightarrow> rv_session r = s \<and> rv_episode r = e"

definition loadExpensiveTurnRecovery :: "string \<Rightarrow> state_store \<Rightarrow> recovery_row option" where
  "loadExpensiveTurnRecovery s db = find (\<lambda>r. rv_session r = s) (db_recovery db)"

definition add_counters :: "recovery_counters \<Rightarrow> recovery_counters \<Rightarrow> recovery_counters" where
  "add_counters a b = \<lparr>rc_preserved = rc_preserved a + rc_preserved b, rc_coalesced = rc_coalesced a + rc_coalesced b,
     rc_dropped = rc_dropped a + rc_dropped b, rc_deferred = rc_deferred a + rc_deferred b,
     rc_replayed = rc_replayed a + rc_replayed b\<rparr>"

definition deferred_key :: "string \<Rightarrow> string \<Rightarrow> string \<Rightarrow> deferred_row \<Rightarrow> bool" where
  "deferred_key s e m r \<longleftrightarrow> dr_session r = s \<and> dr_episode r = e \<and> df_message (dr_item r) = m"

definition insert_deferred :: "time \<Rightarrow> string \<Rightarrow> string \<Rightarrow> deferred_message \<Rightarrow> deferred_row list \<Rightarrow> deferred_row list" where
  "insert_deferred now s e m rows = (if list_ex (deferred_key s e (df_message m)) rows then rows
     else rows @ [\<lparr>dr_session = s, dr_episode = e, dr_item = m, dr_state = Deferred, dr_created = now, dr_replayed = None\<rparr>])"

definition insert_all_deferred :: "time \<Rightarrow> string \<Rightarrow> string \<Rightarrow> deferred_message list \<Rightarrow> state_store \<Rightarrow> state_store" where
  "insert_all_deferred now s e ms db = db\<lparr>db_deferred := foldl (\<lambda>rows m. insert_deferred now s e m rows) (db_deferred db) ms\<rparr>"

definition merge_counters :: "time \<Rightarrow> string \<Rightarrow> string \<Rightarrow> recovery_counters \<Rightarrow> state_store \<Rightarrow> state_store" where
  "merge_counters now s e c db = db\<lparr>db_recovery := sql_update (recovery_key s e)
     (\<lambda>r. r\<lparr>rv_counters := add_counters (rv_counters r) c, rv_updated := now\<rparr>) (db_recovery db)\<rparr>"

definition unfinished_episode :: "recovery_row \<Rightarrow> bool" where
  "unfinished_episode r \<longleftrightarrow> rv_state r \<in> {GuardTripped, RecoveryPending}"

definition beginExpensiveTurnRecovery ::
  "clock \<Rightarrow> string \<Rightarrow> string \<Rightarrow> int \<Rightarrow> int \<Rightarrow> deferred_message list \<Rightarrow> recovery_counters \<Rightarrow> state_store \<Rightarrow>
   store_error + state_store" where
  "beginExpensiveTurnRecovery clock s e sourceCount sourceTokens deferred counters db =
     (let existing = loadExpensiveTurnRecovery s db in
      case existing of
        Some r \<Rightarrow>
          if unfinished_episode r
          then Inr (merge_counters (clock 0) s (rv_episode r) counters (insert_all_deferred (clock 0) s (rv_episode r) deferred db))
          else Inr (insert_all_deferred (clock 0) s e deferred (db\<lparr>db_recovery := sql_update (\<lambda>r. rv_session r = s)
            (\<lambda>h. h\<lparr>rv_episode := e, rv_fenced := rv_active r, rv_target := rv_active r + 1, rv_state := GuardTripped, rv_attempts := 0,
               rv_sourceCount := sourceCount, rv_sourceTokens := sourceTokens, rv_compaction := None, rv_last := None,
               rv_counters := counters, rv_created := clock 0, rv_updated := clock 0\<rparr>) (db_recovery db)\<rparr>))
      | None \<Rightarrow> referencing s db (insert_all_deferred (clock 0) s e deferred (db\<lparr>db_recovery := db_recovery db @
          [\<lparr>rv_session = s, rv_episode = e, rv_active = 0, rv_fenced = 0, rv_target = 1, rv_state = GuardTripped, rv_attempts = 0,
            rv_sourceCount = sourceCount, rv_sourceTokens = sourceTokens, rv_compaction = None, rv_last = None,
            rv_counters = counters, rv_created = clock 0, rv_updated = clock 0\<rparr>]\<rparr>)))"

definition authoritative :: "string \<Rightarrow> string \<Rightarrow> state_store \<Rightarrow> bool" where
  "authoritative s e db \<longleftrightarrow> (case loadExpensiveTurnRecovery s db of None \<Rightarrow> False | Some r \<Rightarrow> rv_episode r = e)"

text \<open>A message without a time of its own takes the one that the method has read at its start.\<close>

definition commitExpensiveTurnSuccessor ::
  "clock \<Rightarrow> string \<Rightarrow> string \<Rightarrow> entry list \<Rightarrow> string \<Rightarrow> state_store \<Rightarrow> store_error + state_store" where
  "commitExpensiveTurnSuccessor clock s e ms outcome db =
     (if \<not> authoritative s e db then Inl NotAuthoritative
      else and_then (insert_messages (\<lambda>k. clock 0) s ms (delete_messages s db)) (\<lambda>db'.
        Inr (db'\<lparr>db_recovery := sql_update (recovery_key s e)
          (\<lambda>r. r\<lparr>rv_active := rv_target r, rv_state := RecoveryPending, rv_compaction := Some outcome, rv_updated := clock 0\<rparr>)
          (db_recovery db')\<rparr>)))"

definition appendExpensiveTurnRecoveryDeferred ::
  "clock \<Rightarrow> string \<Rightarrow> string \<Rightarrow> deferred_message list \<Rightarrow> recovery_counters \<Rightarrow> state_store \<Rightarrow> store_error + state_store" where
  "appendExpensiveTurnRecoveryDeferred clock s e deferred delta db =
     (if \<not> authoritative s e db then Inl NotAuthoritative
      else Inr (merge_counters (clock 0) s e delta (insert_all_deferred (clock 0) s e deferred db)))"

datatype terminal_recovery = TerminalVerified | TerminalExhausted

definition terminal_status :: "terminal_recovery \<Rightarrow> recovery_status" where
  "terminal_status t = (case t of TerminalVerified \<Rightarrow> Verified | TerminalExhausted \<Rightarrow> Exhausted)"

definition recordExpensiveTurnRecoveryAttempt ::
  "clock \<Rightarrow> string \<Rightarrow> string \<Rightarrow> string \<Rightarrow> terminal_recovery option \<Rightarrow> state_store \<Rightarrow> store_error + state_store" where
  "recordExpensiveTurnRecoveryAttempt clock s e outcome end_state db =
     (if \<not> authoritative s e db then Inl EpisodeDisappeared
      else Inr (db\<lparr>db_recovery := sql_update (recovery_key s e)
        (\<lambda>r. r\<lparr>rv_attempts := rv_attempts r + 1,
           rv_state := (case end_state of None \<Rightarrow> rv_state r | Some t \<Rightarrow> terminal_status t),
           rv_last := Some outcome, rv_updated := clock 0\<rparr>) (db_recovery db)\<rparr>))"

definition listDeferredRecoveryMessages :: "string \<Rightarrow> string \<Rightarrow> state_store \<Rightarrow> deferred_message list" where
  "listDeferredRecoveryMessages s e db = map dr_item
     (filter (\<lambda>r. dr_session r = s \<and> dr_episode r = e \<and> dr_state r \<noteq> Replayed) (db_deferred db))"

definition unreplayed :: "string \<Rightarrow> string \<Rightarrow> string \<Rightarrow> deferred_row \<Rightarrow> bool" where
  "unreplayed s e m r \<longleftrightarrow> deferred_key s e m r \<and> dr_state r \<noteq> Replayed"

definition markDeferredRecoveryMessageReleasing :: "string \<Rightarrow> string \<Rightarrow> string \<Rightarrow> state_store \<Rightarrow> state_store \<times> bool" where
  "markDeferredRecoveryMessageReleasing s e m db =
     (db\<lparr>db_deferred := sql_update (unreplayed s e m) (\<lambda>r. r\<lparr>dr_state := Releasing\<rparr>) (db_deferred db)\<rparr>,
      length (filter (unreplayed s e m) (db_deferred db)) = 1)"

definition countDeferredRecoveryMessagesByState :: "string \<Rightarrow> string \<Rightarrow> state_store \<Rightarrow> nat \<times> nat \<times> nat" where
  "countDeferredRecoveryMessagesByState s e db =
     (let n = (\<lambda>st. length (filter (\<lambda>r. dr_session r = s \<and> dr_episode r = e \<and> dr_state r = st) (db_deferred db)))
      in (n Deferred, n Releasing, n Replayed))"

definition one_replayed :: recovery_counters where
  "one_replayed = \<lparr>rc_preserved = 0, rc_coalesced = 0, rc_dropped = 0, rc_deferred = 0, rc_replayed = 1\<rparr>"

definition markDeferredRecoveryMessageReplayed :: "clock \<Rightarrow> string \<Rightarrow> string \<Rightarrow> string \<Rightarrow> state_store \<Rightarrow> state_store \<times> bool" where
  "markDeferredRecoveryMessageReplayed clock s e m db =
     (let db' = db\<lparr>db_deferred := sql_update (unreplayed s e m)
            (\<lambda>r. r\<lparr>dr_state := Replayed, dr_replayed := Some (clock 0)\<rparr>) (db_deferred db)\<rparr>
      in if length (filter (unreplayed s e m) (db_deferred db)) \<noteq> 1 then (db', False)
         else if \<not> authoritative s e db then (db', True)
         else (merge_counters (clock 0) s e one_replayed db', True))"

subsection \<open>Checkpoints, approvals and whole sessions\<close>

definition saveInterruptCheckpoint :: "clock \<Rightarrow> string \<Rightarrow> time \<Rightarrow> string \<Rightarrow> string \<Rightarrow> string option \<Rightarrow> state_store \<Rightarrow> store_error + state_store" where
  "saveInterruptCheckpoint clock s createdAt prompt note kind db =
     (let new = \<lparr>cp_session = s, cp_created = createdAt, cp_prompt = prompt, cp_note = note,
            cp_kind = Some (case kind of None \<Rightarrow> ''turn'' | Some k \<Rightarrow> k)\<rparr>
      in and_then (referencing s db (db\<lparr>db_checkpoints := sql_upsert (\<lambda>r. cp_session r = s) (\<lambda>r. new) new (db_checkpoints db)\<rparr>))
           (\<lambda>db'. Inr (touch_session (clock 0) s db')))"

definition clearInterruptCheckpoint :: "string \<Rightarrow> state_store \<Rightarrow> state_store" where
  "clearInterruptCheckpoint s db = db\<lparr>db_checkpoints := sql_delete (\<lambda>r. cp_session r = s) (db_checkpoints db)\<rparr>"

text \<open>A row without a kind is told by its note.\<close>

definition checkpoint_kind :: "checkpoint_row \<Rightarrow> string" where
  "checkpoint_kind r = (if cp_kind r = Some ''maintenance'' \<or> cp_kind r = Some ''turn'' then the (cp_kind r)
     else if js_starts_with (cp_note r) ''Compacting context'' \<or> js_starts_with (cp_note r) ''Context compaction'' then ''maintenance''
     else ''turn'')"

definition loadInterruptCheckpoint :: "string \<Rightarrow> state_store \<Rightarrow> (checkpoint_row \<times> string) option" where
  "loadInterruptCheckpoint s db = map_option (\<lambda>r. (r, checkpoint_kind r)) (find (\<lambda>r. cp_session r = s) (db_checkpoints db))"

definition pruneOldCheckpoints :: "time \<Rightarrow> state_store \<Rightarrow> state_store \<times> nat" where
  "pruneOldCheckpoints limit db = (db\<lparr>db_checkpoints := sql_delete (\<lambda>r. cp_created r < limit) (db_checkpoints db)\<rparr>,
     length (filter (\<lambda>r. cp_created r < limit) (db_checkpoints db)))"

definition loadToolApprovals :: "state_store \<Rightarrow> string list" where
  "loadToolApprovals db = map fst (db_approvals db)"

definition saveToolApproval :: "clock \<Rightarrow> string \<Rightarrow> state_store \<Rightarrow> state_store" where
  "saveToolApproval clock tool db = (if tool \<in> set (loadToolApprovals db) then db
     else db\<lparr>db_approvals := db_approvals db @ [(tool, clock 0)]\<rparr>)"

definition removeToolApproval :: "string \<Rightarrow> state_store \<Rightarrow> state_store" where
  "removeToolApproval tool db = db\<lparr>db_approvals := sql_delete (\<lambda>r. fst r = tool) (db_approvals db)\<rparr>"

record session_view =
  sv_row :: session_row
  sv_messages :: "entry list"
  sv_cache :: int
  sv_checkpoint :: "(checkpoint_row \<times> string) option"

definition loadSession :: "parser \<Rightarrow> string \<Rightarrow> state_store \<Rightarrow> session_view option" where
  "loadSession parse s db = (case find (\<lambda>r. sn_id r = s) (db_sessions db) of
      None \<Rightarrow> None
    | Some r \<Rightarrow> Some \<lparr>sv_row = r, sv_messages = loadMessages parse s db,
        sv_cache = (case sn_cache r of None \<Rightarrow> 0 | Some n \<Rightarrow> n), sv_checkpoint = loadInterruptCheckpoint s db\<rparr>)"

definition renameSession :: "clock \<Rightarrow> string \<Rightarrow> string \<Rightarrow> state_store \<Rightarrow> state_store" where
  "renameSession clock s name db = db\<lparr>db_sessions := sql_update (\<lambda>r. sn_id r = s)
     (\<lambda>r. r\<lparr>sn_name := Some name, sn_updated := clock 0\<rparr>) (db_sessions db)\<rparr>"

text \<open>The copies keep neither the identity of a message nor that of its execution.\<close>

definition forked_entry :: "entry \<Rightarrow> entry" where
  "forked_entry m = m\<lparr>en_id := None, en_execution := None\<rparr>"

definition forkSession :: "clock \<Rightarrow> parser \<Rightarrow> string \<Rightarrow> string \<Rightarrow> state_store \<Rightarrow> store_error + state_store \<times> bool" where
  "forkSession clock parse uuid s db = (case loadSession parse s db of
      None \<Rightarrow> Inr (db, False)
    | Some v \<Rightarrow>
        and_then (create_session_with_id clock uuid (sn_model (sv_row v)) (sn_cwd (sv_row v)) db) (\<lambda>db1.
        and_then (insert_messages (\<lambda>k. clock (k + 1)) uuid (map forked_entry (sv_messages v)) db1) (\<lambda>db2.
        Inr (db2\<lparr>db_sessions := sql_update (\<lambda>r. sn_id r = uuid)
          (\<lambda>r. r\<lparr>sn_input := sn_input (sv_row v), sn_output := sn_output (sv_row v), sn_cache := Some (sv_cache v),
             sn_turns := sn_turns (sv_row v)\<rparr>) (db_sessions db2)\<rparr>, True))))"

text \<open>The rows of the cascade go with the session itself.\<close>

definition deleteSession :: "string \<Rightarrow> state_store \<Rightarrow> state_store \<times> bool" where
  "deleteSession s db = (db\<lparr>
     db_attempts := sql_delete (\<lambda>r. ta_session r = s) (db_attempts db),
     db_turns := sql_delete (\<lambda>r. ti_session (tn_identity r) = s) (db_turns db),
     db_fts := sql_delete (\<lambda>r. fx_session r = s) (db_fts db),
     db_messages := sql_delete (\<lambda>x. sd_session (snd x) = s) (db_messages db),
     db_transcript := sql_delete (\<lambda>r. sd_session (tx_stored r) = s) (db_transcript db),
     db_checkpoints := sql_delete (\<lambda>r. cp_session r = s) (db_checkpoints db),
     db_anchors := sql_delete (\<lambda>r. ar_session r = s) (db_anchors db),
     db_sessions := sql_delete (\<lambda>r. sn_id r = s) (db_sessions db),
     db_snapshots := sql_delete (\<lambda>r. sp_session r = s) (db_snapshots db),
     db_heads := sql_delete (\<lambda>r. hd_session r = s) (db_heads db),
     db_wire := sql_delete (\<lambda>r. wr_session r = s) (db_wire db),
     db_recovery := sql_delete (\<lambda>r. rv_session r = s) (db_recovery db),
     db_deferred := sql_delete (\<lambda>r. dr_session r = s) (db_deferred db)\<rparr>, has_session s db)"

subsection \<open>The list of sessions\<close>

text \<open>\<open>LIKE\<close>: any text, any character, and letters without their case.\<close>

fun sql_like :: "string \<Rightarrow> string \<Rightarrow> bool" where
  "sql_like [] t \<longleftrightarrow> t = []"
| "sql_like (p # ps) [] \<longleftrightarrow> p = CHR 0x25 \<and> sql_like ps []"
| "sql_like (p # ps) (c # t) \<longleftrightarrow>
     (if p = CHR 0x25 then sql_like ps (c # t) \<or> sql_like (p # ps) t
      else if p = CHR ''_'' then sql_like ps t
      else (p = c \<or> is_upper p \<and> lower_char p = c \<or> is_upper c \<and> lower_char c = p) \<and> sql_like ps t)"

definition cwd_rank :: "string \<Rightarrow> session_row \<Rightarrow> nat" where
  "cwd_rank preferred r = (if sn_cwd r = preferred then 0
     else if sql_like (preferred @ ''/%'') (sn_cwd r) then 1
     else if sql_like (sn_cwd r @ ''/%'') preferred then 1 else 2)"

definition session_order :: "string option \<Rightarrow> session_row \<Rightarrow> session_row \<Rightarrow> int" where
  "session_order cwd = order_by ((case non_empty cwd of None \<Rightarrow> [] | Some c \<Rightarrow> [ascending (cwd_rank c)]) @ [descending sn_updated])"

text \<open>The text of the first text block, if the excerpt is still a JSON array; a \<open>null\<close> before it throws.\<close>

definition block_text :: "jsval \<Rightarrow> jsval option" where
  "block_text b = (case b of JObj ob \<Rightarrow>
      if js_get ob ''type'' = JStr ''text'' \<and> js_truthy (js_get ob ''text'') then Some (js_get ob ''text'') else None
    | _ \<Rightarrow> None)"

fun find_text :: "jsval list \<Rightarrow> jsval option" where
  "find_text [] = None"
| "find_text (b # bs) = (if b = JNull \<or> b = JUndef then None
     else case block_text b of None \<Rightarrow> find_text bs | Some v \<Rightarrow> Some v)"

definition excerpt_text :: "parser \<Rightarrow> string \<Rightarrow> string" where
  "excerpt_text parse s = (if js_starts_with s ''[''
     then (case parse s of Some (JArr bs) \<Rightarrow> (case find_text bs of None \<Rightarrow> s | Some v \<Rightarrow> take 80 (js_string v)) | _ \<Rightarrow> s)
     else s)"

definition first_user_message :: "string \<Rightarrow> state_store \<Rightarrow> string option" where
  "first_user_message s db = map_option (\<lambda>x. take 80 (sd_content (snd x)))
     (find (\<lambda>x. sd_session (snd x) = s \<and> sd_role (snd x) = ''user'') (db_messages db))"

definition listSessions :: "parser \<Rightarrow> int \<Rightarrow> string option \<Rightarrow> state_store \<Rightarrow> (session_row \<times> int \<times> string option) list" where
  "listSessions parse limit cwd db = map (\<lambda>r. (r, case sn_cache r of None \<Rightarrow> 0 | Some n \<Rightarrow> n,
       map_option (excerpt_text parse) (first_user_message (sn_id r) db)))
     (sql_limit limit (js_sort (session_order cwd) (rev (db_sessions db))))"

subsection \<open>A new store, and the bootstrap of its transcript\<close>

definition empty_store :: state_store where
  "empty_store = \<lparr>db_sessions = [], db_messages = [], db_nextRow = 1, db_transcript = [], db_migrated = None, db_fts = [],
     db_checkpoints = [], db_snapshots = [], db_heads = [], db_wire = [], db_anchors = [], db_recovery = [], db_deferred = [],
     db_providers = [], db_inbound = [], db_turns = [], db_attempts = [], db_approvals = []\<rparr>"

definition migrate_row :: "nat \<times> stored \<Rightarrow> transcript_row list \<Rightarrow> transcript_row list" where
  "migrate_row x rows = (if list_ex (\<lambda>r. tx_source r = Some (fst x)) rows then rows
     else rows @ [\<lparr>tx_source = Some (fst x), tx_stored = (snd x)\<lparr>sd_event := None\<rparr>, tx_provenance = ''migration''\<rparr>])"

definition ghost_row :: "fts_row \<Rightarrow> transcript_row" where
  "ghost_row f = \<lparr>tx_source = None, tx_stored = \<lparr>sd_session = fx_session f, sd_message = None, sd_execution = None,
     sd_role = fx_role f, sd_content = fx_content f, sd_timestamp = fx_timestamp f, sd_event = None\<rparr>, tx_provenance = ''fts_recovered''\<rparr>"

definition same_text :: "fts_row \<Rightarrow> transcript_row \<Rightarrow> bool" where
  "same_text f r \<longleftrightarrow> sd_session (tx_stored r) = fx_session f \<and> sd_role (tx_stored r) = fx_role f
     \<and> sd_content (tx_stored r) = fx_content f \<and> sd_timestamp (tx_stored r) = fx_timestamp f"

text \<open>The rows of the second statement are selected before any is inserted.\<close>

definition migrateTranscript :: "clock \<Rightarrow> state_store \<Rightarrow> state_store" where
  "migrateTranscript clock db =
     (if db_migrated db \<noteq> None then db
      else let rows = fold migrate_row (db_messages db) (db_transcript db);
               ghosts = filter (\<lambda>f. has_session (fx_session f) db \<and> \<not> list_ex (same_text f) rows) (db_fts db)
        in db\<lparr>db_migrated := Some (clock 0), db_transcript := rows @ map ghost_row ghosts\<rparr>)"

end
