(* ===== verification/SessionFacts.thy ===== *)
theory SessionFacts
  imports SessionStore
begin

text \<open>
  What holds of the store of sessions over any run of its operations: the transcript only
  grows, what is recorded of a tool call stays, a deferred message stays until it has been
  replayed, and the generations of a recovery are ordered.
\<close>

subsection \<open>Runs\<close>

text \<open>What an operation takes away on purpose; every other operation is quiet.\<close>

datatype store_event = Quiet | Deletes string | Replays string string string

inductive store_step :: "parser \<Rightarrow> store_event \<Rightarrow> state_store \<Rightarrow> state_store \<Rightarrow> bool" for parse where
  step_create: "create_session_with_id clock i model cwd db = Inr db' \<Longrightarrow> store_step parse Quiet db db'"
| step_append: "appendMessage clock s m db = Inr db' \<Longrightarrow> store_step parse Quiet db db'"
| step_replace: "replaceMessages clock s ms db = Inr db' \<Longrightarrow> store_step parse Quiet db db'"
| step_admission: "deferProviderAdmission owner p model n reason db = Inr db' \<Longrightarrow> store_step parse Quiet db db'"
| step_input: "deferProviderInput owner p model n reason mid payload db = Inr db' \<Longrightarrow> store_step parse Quiet db db'"
| step_input_done: "store_step parse Quiet db (completeProviderInput owner mid db)"
| step_admitted: "store_step parse Quiet db (markInboundProcessingAdmitted clock s mid channel db)"
| step_completed: "store_step parse Quiet db (markInboundProcessingCompleted clock mid db)"
| step_begin_tool: "beginToolAttempt clock i call name input n db = Inr db' \<Longrightarrow> store_step parse Quiet db db'"
| step_complete_tool: "completeToolAttempt clock i call n result interrupted db = Inr db' \<Longrightarrow> store_step parse Quiet db db'"
| step_finalize: "finalizeToolTurn clock parse i ms db = Inr (db', ms') \<Longrightarrow> store_step parse Quiet db db'"
| step_recover: "recoverToolTurns clock parse s owner epoch g db = Inr (db', ms') \<Longrightarrow> store_step parse Quiet db db'"
| step_tokens: "store_step parse Quiet db (updateTokens clock s input output cache db)"
| step_anchor: "saveContextTokenAnchor clock sha256 s model input estimate raw baseline db = Inr db' \<Longrightarrow> store_step parse Quiet db db'"
| step_snapshot: "saveProviderPrefixSnapshot s x db = Inr db' \<Longrightarrow> store_step parse Quiet db db'"
| step_head: "saveProviderPrefixHead h db = Inr db' \<Longrightarrow> store_step parse Quiet db db'"
| step_wire: "saveWirePrefix clock s n text db = Inr db' \<Longrightarrow> store_step parse Quiet db db'"
| step_clear_wire: "store_step parse Quiet db (clearWirePrefix s db)"
| step_begin: "beginExpensiveTurnRecovery clock s e n k deferred counters db = Inr db' \<Longrightarrow> store_step parse Quiet db db'"
| step_commit: "commitExpensiveTurnSuccessor clock s e ms outcome db = Inr db' \<Longrightarrow> store_step parse Quiet db db'"
| step_defer: "appendExpensiveTurnRecoveryDeferred clock s e deferred delta db = Inr db' \<Longrightarrow> store_step parse Quiet db db'"
| step_attempt: "recordExpensiveTurnRecoveryAttempt clock s e outcome t db = Inr db' \<Longrightarrow> store_step parse Quiet db db'"
| step_releasing: "store_step parse Quiet db (fst (markDeferredRecoveryMessageReleasing s e m db))"
| step_replayed: "store_step parse (Replays s e m) db (fst (markDeferredRecoveryMessageReplayed clock s e m db))"
| step_checkpoint: "saveInterruptCheckpoint clock s at_time prompt note kind db = Inr db' \<Longrightarrow> store_step parse Quiet db db'"
| step_clear_checkpoint: "store_step parse Quiet db (clearInterruptCheckpoint s db)"
| step_prune: "store_step parse Quiet db (fst (pruneOldCheckpoints limit db))"
| step_approve: "store_step parse Quiet db (saveToolApproval clock tool db)"
| step_revoke: "store_step parse Quiet db (removeToolApproval tool db)"
| step_rename: "store_step parse Quiet db (renameSession clock s name db)"
| step_fork: "forkSession clock parse uuid s db = Inr (db', forked) \<Longrightarrow> store_step parse Quiet db db'"
| step_delete: "store_step parse (Deletes s) db (fst (deleteSession s db))"

text \<open>A run whose events all satisfy a condition.\<close>

inductive store_run :: "parser \<Rightarrow> (store_event \<Rightarrow> bool) \<Rightarrow> state_store \<Rightarrow> state_store \<Rightarrow> bool" for parse ok where
  run_start: "store_run parse ok db db"
| run_step: "store_run parse ok db db' \<Longrightarrow> store_step parse e db' db'' \<Longrightarrow> ok e \<Longrightarrow> store_run parse ok db db''"

subsection \<open>The parts of the store that an operation leaves alone\<close>

definition message_part :: "state_store \<Rightarrow> (nat \<times> stored) list \<times> nat \<times> transcript_row list" where
  "message_part db = (db_messages db, db_nextRow db, db_transcript db)"

definition tool_part :: "state_store \<Rightarrow> turn_row list \<times> attempt_row list" where
  "tool_part db = (db_turns db, db_attempts db)"

definition recovery_part :: "state_store \<Rightarrow> recovery_row list \<times> deferred_row list" where
  "recovery_part db = (db_recovery db, db_deferred db)"

named_theorems part_rules "operations that leave a part of the store alone"

lemma referencing_Inr: "referencing s db x = Inr db' \<longleftrightarrow> has_session s db \<and> db' = x"
  by (auto simp: referencing_def)

lemmas quiet_defs = create_session_with_id_def deferProviderAdmission_def deferProviderInput_def completeProviderInput_def
  markInboundProcessingAdmitted_def markInboundProcessingCompleted_def updateTokens_def saveContextTokenAnchor_def
  saveProviderPrefixSnapshot_def saveProviderPrefixHead_def saveWirePrefix_def clearWirePrefix_def saveInterruptCheckpoint_def
  clearInterruptCheckpoint_def pruneOldCheckpoints_def saveToolApproval_def removeToolApproval_def renameSession_def
  touch_session_def indexMessage_def

definition same_parts :: "state_store \<Rightarrow> state_store \<Rightarrow> bool" where
  "same_parts db db' \<longleftrightarrow> message_part db' = message_part db \<and> tool_part db' = tool_part db \<and> recovery_part db' = recovery_part db"

lemmas part_defs = same_parts_def message_part_def tool_part_def recovery_part_def

lemma same_parts_ops:
  "create_session_with_id clock i model cwd db = Inr db' \<Longrightarrow> same_parts db db'"
  "deferProviderAdmission owner p model n reason db = Inr db' \<Longrightarrow> same_parts db db'"
  "deferProviderInput owner p model n reason mid payload db = Inr db' \<Longrightarrow> same_parts db db'"
  "same_parts db (completeProviderInput owner mid db)"
  "same_parts db (markInboundProcessingAdmitted clock s mid channel db)"
  "same_parts db (markInboundProcessingCompleted clock mid db)"
  "same_parts db (updateTokens clock s input output cache db)"
  "saveContextTokenAnchor clock sha256 s model input estimate raw baseline db = Inr db' \<Longrightarrow> same_parts db db'"
  "saveProviderPrefixSnapshot s x db = Inr db' \<Longrightarrow> same_parts db db'"
  "saveProviderPrefixHead h db = Inr db' \<Longrightarrow> same_parts db db'"
  "saveWirePrefix clock s wn text db = Inr db' \<Longrightarrow> same_parts db db'"
  "same_parts db (clearWirePrefix s db)"
  "saveInterruptCheckpoint clock s at_time prompt note kind db = Inr db' \<Longrightarrow> same_parts db db'"
  "same_parts db (clearInterruptCheckpoint s db)"
  "same_parts db (fst (pruneOldCheckpoints limit db))"
  "same_parts db (saveToolApproval clock tool db)"
  "same_parts db (removeToolApproval tool db)"
  "same_parts db (renameSession clock s name db)"
  "same_parts db (touch_session now s db)"
  "same_parts db (indexMessage s role content timestamp db)"
  by (auto simp: quiet_defs part_defs referencing_Inr and_then_Inr Let_def split: if_splits)

subsection \<open>The transcript only grows\<close>

text \<open>Row ids are fresh, and every message of the working context is archived as it is.\<close>

definition messages_ok :: "state_store \<Rightarrow> bool" where
  "messages_ok db \<longleftrightarrow> distinct (map fst (db_messages db)) \<and> (\<forall>x \<in> set (db_messages db). fst x < db_nextRow db)
     \<and> (\<forall>t \<in> set (db_transcript db). \<forall>n. tx_source t = Some n \<longrightarrow> n < db_nextRow db)
     \<and> (\<forall>x \<in> set (db_messages db). \<exists>t \<in> set (db_transcript db). tx_source t = Some (fst x) \<and> tx_stored t = snd x)"

definition extends_for :: "string \<Rightarrow> state_store \<Rightarrow> state_store \<Rightarrow> bool" where
  "extends_for s db db' \<longleftrightarrow> (messages_ok db \<longrightarrow> messages_ok db' \<and> (\<exists>rows. transcript_of s db' = transcript_of s db @ rows))"

lemma extends_same: "message_part db' = message_part db \<Longrightarrow> extends_for s db db'"
  by (auto simp: extends_for_def messages_ok_def transcript_of_def message_part_def)

lemma extends_trans: "extends_for s db db' \<Longrightarrow> extends_for s db' db'' \<Longrightarrow> extends_for s db db''"
  by (fastforce simp: extends_for_def)

lemma extends_insert:
  assumes "insert_message r db = Inr db'"
  shows "extends_for s db db'"
  unfolding extends_for_def
proof
  assume ok: "messages_ok db"
  let ?t = "\<lparr>tx_source = Some (db_nextRow db), tx_stored = r, tx_provenance = ''active_insert''\<rparr>"
  have "\<not> list_ex (\<lambda>x. tx_source x = Some (db_nextRow db)) (db_transcript db)"
    using ok by (auto simp: messages_ok_def list_ex_iff)
  then have new: "db_transcript db' = db_transcript db @ [?t]" "db_messages db' = db_messages db @ [(db_nextRow db, r)]"
      "db_nextRow db' = Suc (db_nextRow db)"
    using assms by (auto simp: insert_message_def referencing_Inr archive_def)
  then show "messages_ok db' \<and> (\<exists>rows. transcript_of s db' = transcript_of s db @ rows)"
    using ok by (auto simp: messages_ok_def transcript_of_def less_Suc_eq)
qed

lemma extends_delete: "extends_for s db (delete_messages s' db)"
  by (auto simp: extends_for_def messages_ok_def transcript_of_def delete_messages_def sql_delete_def distinct_map_filter)

lemma extends_insert_messages: "insert_messages clock s' ms db = Inr db' \<Longrightarrow> extends_for s db db'"
proof (induction clock s' ms db rule: insert_messages.induct)
  case (2 clock s' m ms db)
  then show ?case by (auto simp: and_then_Inr intro: extends_trans extends_insert)
qed (simp add: extends_same)

lemma same_extends: "same_parts db db' \<Longrightarrow> extends_for s db db'"
  by (simp add: same_parts_def extends_same)

lemma extends_append: "appendMessage clock s' m db = Inr db' \<Longrightarrow> extends_for s db db'"
  unfolding appendMessage_def Let_def and_then_Inr
  by (blast intro: extends_trans extends_insert same_extends same_parts_ops)

lemma extends_append_all: "append_all clock s' ms db = Inr db' \<Longrightarrow> extends_for s db db'"
proof (induction clock s' ms db rule: append_all.induct)
  case (2 clock s' m ms db)
  then show ?case by (auto simp: and_then_Inr intro: extends_trans extends_append)
qed (simp add: extends_same)

lemma ensure_turn_parts: "ensureToolTurn clock i db = Inr (db', t) \<Longrightarrow>
    message_part db' = message_part db \<and> recovery_part db' = recovery_part db \<and> db_attempts db' = db_attempts db"
  by (auto simp: ensureToolTurn_def message_part_def recovery_part_def Let_def split: if_splits option.splits)

lemma begin_tool_parts: "beginToolAttempt clock i c name input n db = Inr db' \<Longrightarrow>
    message_part db' = message_part db \<and> recovery_part db' = recovery_part db"
  by (auto simp: beginToolAttempt_def and_then_Inr message_part_def recovery_part_def Let_def
      split: if_splits option.splits dest!: ensure_turn_parts)

lemma complete_tool_parts: "completeToolAttempt clock i c n result interrupted db = Inr db' \<Longrightarrow>
    message_part db' = message_part db \<and> recovery_part db' = recovery_part db"
  by (auto simp: completeToolAttempt_def and_then_Inr message_part_def recovery_part_def Let_def
      split: if_splits option.splits dest!: ensure_turn_parts)

lemma attempt_results_parts: "attempt_results clock parse i as db = Inr (db', bs) \<Longrightarrow>
    message_part db' = message_part db \<and> recovery_part db' = recovery_part db \<and> db_turns db' = db_turns db"
proof (induction clock parse i as db arbitrary: bs rule: attempt_results.induct)
  case (2 clock parse i a n rest db)
  then show ?case by (fastforce simp: and_then_Inr message_part_def recovery_part_def)
qed simp

lemma attempt_messages_parts: "toolAttemptMessages clock parse t as db = Inr (db', ms) \<Longrightarrow>
    message_part db' = message_part db \<and> recovery_part db' = recovery_part db \<and> db_turns db' = db_turns db"
  by (auto simp: toolAttemptMessages_def and_then_Inr split: if_splits dest!: attempt_results_parts)

lemma set_turn_parts: "message_part (set_turn s g f db) = message_part db" "recovery_part (set_turn s g f db) = recovery_part db"
    "db_attempts (set_turn s g f db) = db_attempts db"
  by (simp_all add: set_turn_def message_part_def recovery_part_def)

text \<open>A finalization is a repeated one, or it writes the messages and closes the turn.\<close>

lemma finalize_cases:
  assumes "finalizeToolTurn clock parse i ms db = Inr (db', ms')"
  obtains (repeated) t where "ensureToolTurn clock i db = Inr (db', t)" "tn_state t \<noteq> TurnOpen" "ms' = []"
  | (written) db1 t p db2 extra db3 clock1 clock2 history where "ensureToolTurn clock i db = Inr (db1, t)" "tn_state t = TurnOpen"
      "toolAttemptMessages clock1 parse t (filter p (latestToolAttempts (ti_session i) (ti_generation i) db1)) db1 = Inr (db2, extra)"
      "append_all clock2 (ti_session i) ms' db2 = Inr db3"
      "db' = set_turn (ti_session i) (ti_generation i) (\<lambda>t. t\<lparr>tn_state := TurnFinalized, tn_history := Some history\<rparr>) db3"
proof -
  obtain db1 t where e: "ensureToolTurn clock i db = Inr (db1, t)"
    using assms by (auto simp: finalizeToolTurn_def and_then_Inr)
  show ?thesis
  proof (cases "tn_state t = TurnOpen")
    case True
    with assms e show ?thesis
      by (auto simp: finalizeToolTurn_def and_then_Inr Let_def split: if_splits intro!: written [OF e True])
  next
    case False
    with assms e show ?thesis
      by (auto simp: finalizeToolTurn_def Let_def split: if_splits intro!: repeated)
  qed
qed

lemma extends_finalize:
  assumes "finalizeToolTurn clock parse i ms db = Inr (db', ms')"
  shows "extends_for s db db'"
  using assms
proof (cases rule: finalize_cases)
  case (repeated t)
  then show ?thesis using ensure_turn_parts by (blast intro: extends_same)
next
  case (written db1 t p db2 extra db3 clock1 clock2 history)
  have "extends_for s db db2"
    using ensure_turn_parts [OF written(1)] attempt_messages_parts [OF written(3)] by (intro extends_same) simp
  moreover have "extends_for s db2 db3" using written(4) by (rule extends_append_all)
  moreover have "extends_for s db3 db'" unfolding written(5) by (intro extends_same) (simp add: set_turn_parts)
  ultimately show ?thesis by (blast intro: extends_trans)
qed

lemma extends_recover_turn: "recover_turn clock parse s' t db = Inr (db', ms) \<Longrightarrow> extends_for s db db'"
  by (auto simp: recover_turn_def and_then_Inr dest!: attempt_messages_parts
      intro!: extends_trans [OF extends_same extends_trans [OF extends_append_all extends_same]] simp: set_turn_parts)

lemma extends_recover_turns: "recover_turns clock parse s' ts db = Inr (db', ms) \<Longrightarrow> extends_for s db db'"
proof (induction clock parse s' ts db arbitrary: ms rule: recover_turns.induct)
  case (2 clock parse s' t ts db)
  then show ?case by (fastforce simp: and_then_Inr intro: extends_trans extends_recover_turn)
qed (simp add: extends_same)

lemma extends_commit: "commitExpensiveTurnSuccessor clock s' e ms outcome db = Inr db' \<Longrightarrow> extends_for s db db'"
  by (auto simp: commitExpensiveTurnSuccessor_def and_then_Inr message_part_def split: if_splits
      intro!: extends_trans [OF extends_delete extends_trans [OF extends_insert_messages extends_same]])

lemma extends_fork:
  assumes "forkSession clock parse uuid s' db = Inr (db', forked)"
  shows "extends_for s db db'"
proof (cases "loadSession parse s' db")
  case None
  then show ?thesis using assms by (simp add: forkSession_def extends_same)
next
  case (Some v)
  with assms show ?thesis
    by (auto simp: forkSession_def and_then_Inr message_part_def
        intro!: extends_trans [OF same_extends [OF same_parts_ops(1)] extends_trans [OF extends_insert_messages extends_same]])
qed

lemma extends_other_delete:
  assumes "s' \<noteq> s"
  shows "extends_for s db (fst (deleteSession s' db))"
  using assms by (auto simp: extends_for_def messages_ok_def transcript_of_def deleteSession_def sql_delete_def distinct_map_filter
      filter_filter intro!: exI [of _ "[]"] filter_cong) (metis fst_conv snd_conv)

lemma recovery_message_part:
  "beginExpensiveTurnRecovery clock s e n k deferred counters db = Inr db' \<Longrightarrow> message_part db' = message_part db"
  "appendExpensiveTurnRecoveryDeferred clock s e deferred delta db = Inr db' \<Longrightarrow> message_part db' = message_part db"
  "recordExpensiveTurnRecoveryAttempt clock s e outcome t db = Inr db' \<Longrightarrow> message_part db' = message_part db"
  "message_part (fst (markDeferredRecoveryMessageReleasing s e m db)) = message_part db"
  "message_part (fst (markDeferredRecoveryMessageReplayed clock s e m db)) = message_part db"
  by (auto simp: beginExpensiveTurnRecovery_def appendExpensiveTurnRecoveryDeferred_def recordExpensiveTurnRecoveryAttempt_def
      markDeferredRecoveryMessageReleasing_def markDeferredRecoveryMessageReplayed_def message_part_def referencing_Inr Let_def
      merge_counters_def insert_all_deferred_def split: option.splits if_splits)

lemma step_extends:
  assumes "store_step parse e db db'" "e \<noteq> Deletes s"
  shows "extends_for s db db'"
  using assms
proof (cases rule: store_step.cases)
  case (step_replace clock s' ms)
  then have "insert_messages clock s' ms (delete_messages s' (clearWirePrefix s' db)) = Inr db'" by (simp add: replaceMessages_def)
  then show ?thesis
    by (blast intro: extends_trans same_extends same_parts_ops extends_delete extends_insert_messages)
next
  case (step_recover clock s' owner epoch g ms)
  then show ?thesis using extends_recover_turns by (auto simp: recoverToolTurns_def)
qed (use assms(2) in \<open>auto intro: same_extends same_parts_ops extends_append extends_same recovery_message_part extends_finalize
    extends_commit extends_fork extends_other_delete dest: begin_tool_parts complete_tool_parts\<close>)

lemma run_extends: "store_run parse (\<lambda>e. e \<noteq> Deletes s) db db' \<Longrightarrow> extends_for s db db'"
proof (induction rule: store_run.induct)
  case run_start
  show ?case by (simp add: extends_same)
next
  case (run_step db db' e db'')
  then show ?case using step_extends extends_trans by blast
qed

lemma step_messages_ok: "store_step parse e db db' \<Longrightarrow> messages_ok db \<Longrightarrow> messages_ok db'"
proof -
  assume step: "store_step parse e db db'" and ok: "messages_ok db"
  obtain s where "e \<noteq> Deletes s" by (cases e) (auto dest: spec [of _ "CHR ''x'' # _"])
  then show "messages_ok db'" using step_extends [OF step] ok by (simp add: extends_for_def)
qed

lemma empty_messages_ok: "messages_ok empty_store"
  by (simp add: messages_ok_def empty_store_def)

lemma run_messages_ok: "store_run parse ok db db' \<Longrightarrow> messages_ok db \<Longrightarrow> messages_ok db'"
  by (induction rule: store_run.induct) (auto intro: step_messages_ok)

text \<open>
  C4. Compaction and recovery rewrite the working context, but history is never erased.
  Over any run of operations from an empty store, as long as a session is not deleted, its
  transcript only grows at its end, and every message that is or was in its working context
  is in it as it was stored.
\<close>

theorem transcript_never_erased:
  assumes "store_run parse (\<lambda>_. True) empty_store db" "store_run parse (\<lambda>e. e \<noteq> Deletes s) db db'"
  shows "(\<exists>rows. transcript_of s db' = transcript_of s db @ rows)
    \<and> (\<forall>x \<in> set (db_messages db) \<union> set (db_messages db'). sd_session (snd x) = s \<longrightarrow>
         snd x \<in> tx_stored ` set (transcript_of s db'))"
proof -
  have ok: "messages_ok db" using run_messages_ok [OF assms(1) empty_messages_ok] .
  then have ok': "messages_ok db'" and grows: "\<exists>rows. transcript_of s db' = transcript_of s db @ rows"
    using run_extends [OF assms(2)] by (auto simp: extends_for_def)
  have archived: "snd x \<in> tx_stored ` set (transcript_of s d)"
    if "messages_ok d" "x \<in> set (db_messages d)" "sd_session (snd x) = s" for d x
    using that by (force simp: messages_ok_def transcript_of_def)
  moreover have "set (transcript_of s db) \<subseteq> set (transcript_of s db')" using grows by auto
  ultimately have "snd x \<in> tx_stored ` set (transcript_of s db')"
    if "x \<in> set (db_messages db) \<union> set (db_messages db')" "sd_session (snd x) = s" for x
    using that ok ok' by (metis UnE image_mono subsetD)
  with grows show ?thesis by blast
qed

lemma transcript_never_erased_witness:
  "\<exists>(db :: state_store) (db' :: state_store). db_messages db' = [] \<and> map (sd_content \<circ> tx_stored) (transcript_of ''s'' db') = [''hello''] \<and>
     (\<forall>x \<in> set (db_messages db). snd x \<in> tx_stored ` set (transcript_of ''s'' db'))"
proof -
  define c :: clock where "c = (\<lambda>_. 0)"
  define m :: entry where "m = \<lparr>en_id = None, en_execution = None, en_event = JUndef, en_role = ''user'',
    en_content = EText ''hello'', en_timestamp = Some 1\<rparr>"
  obtain db0 where d0: "create_session_with_id c ''s'' ''model'' ''/'' empty_store = Inr db0"
    by (simp add: create_session_with_id_def has_session_def empty_store_def)
  then obtain db where d1: "appendMessage c ''s'' m db0 = Inr db"
    by (auto simp: create_session_with_id_def has_session_def appendMessage_def insert_message_def referencing_def
        stored_of_def m_def Let_def empty_store_def split: if_splits)
  have d2: "replaceMessages c ''s'' [] db = Inr (delete_messages ''s'' (clearWirePrefix ''s'' db))"
    by (simp add: replaceMessages_def)
  let ?db' = "delete_messages ''s'' (clearWirePrefix ''s'' db)"
  have run: "store_run (\<lambda>_. None) ok empty_store db" if "ok Quiet" for ok
    using run_step [OF run_step [OF run_start step_create [OF d0]] step_append [OF d1]] that by simp
  have run': "store_run (\<lambda>_. None) (\<lambda>e. e \<noteq> Deletes ''s'') db ?db'"
    by (rule run_step [OF run_start step_replace [OF d2]]) simp
  have rows: "db_messages db = [(1, stored_of 0 ''s'' m)]" "db_transcript db = [\<lparr>tx_source = Some 1, tx_stored = stored_of 0 ''s'' m,
      tx_provenance = ''active_insert''\<rparr>]"
    using d0 d1 by (auto simp: create_session_with_id_def has_session_def appendMessage_def insert_message_def referencing_def
        and_then_Inr stored_of_def m_def Let_def empty_store_def archive_def touch_session_def indexMessage_def content_text_def
        c_def split: if_splits)
  have "db_messages ?db' = []" "map (sd_content \<circ> tx_stored) (transcript_of ''s'' ?db') = [''hello'']"
    using rows by (simp_all add: delete_messages_def clearWirePrefix_def sql_delete_def transcript_of_def stored_of_def m_def content_text_def)
  moreover have "\<forall>x \<in> set (db_messages db). snd x \<in> tx_stored ` set (transcript_of ''s'' ?db')"
    using transcript_never_erased [OF run run'] rows by (auto simp: stored_of_def)
  ultimately show ?thesis by (intro exI [of _ db] exI [of _ ?db'] conjI)
qed

subsection \<open>What is recorded of a tool call\<close>

definition turn_id :: "turn_row \<Rightarrow> string \<times> string" where
  "turn_id t = (ti_session (tn_identity t), ti_generation (tn_identity t))"

definition attempt_id :: "attempt_row \<Rightarrow> string \<times> string \<times> string \<times> int" where
  "attempt_id a = (ta_session a, ta_generation a, ta_call a, ta_invocation a)"

definition tools_ok :: "state_store \<Rightarrow> bool" where
  "tools_ok db \<longleftrightarrow> distinct (map turn_id (db_turns db)) \<and> distinct (map attempt_id (db_attempts db))"

definition attempts_of :: "string \<Rightarrow> string \<Rightarrow> state_store \<Rightarrow> attempt_row list" where
  "attempts_of s g db = filter (\<lambda>a. ta_session a = s \<and> ta_generation a = g) (db_attempts db)"

text \<open>An outcome stays, and a closed turn keeps all its attempts and gets no more.\<close>

definition outcomes_kept :: "string \<Rightarrow> state_store \<Rightarrow> state_store \<Rightarrow> bool" where
  "outcomes_kept s db db' \<longleftrightarrow> (\<forall>a \<in> set (db_attempts db). ta_session a = s \<and> ta_state a \<noteq> Running \<longrightarrow> a \<in> set (db_attempts db'))
     \<and> (\<forall>t \<in> set (db_turns db). ti_session (tn_identity t) = s \<and> tn_state t \<noteq> TurnOpen \<longrightarrow>
          t \<in> set (db_turns db') \<and> attempts_of s (ti_generation (tn_identity t)) db' = attempts_of s (ti_generation (tn_identity t)) db)"

definition keeps_outcomes :: "string \<Rightarrow> state_store \<Rightarrow> state_store \<Rightarrow> bool" where
  "keeps_outcomes s db db' \<longleftrightarrow> (tools_ok db \<longrightarrow> tools_ok db' \<and> outcomes_kept s db db')"

lemma keeps_trans: "keeps_outcomes s db db' \<Longrightarrow> keeps_outcomes s db' db'' \<Longrightarrow> keeps_outcomes s db db''"
  by (simp add: keeps_outcomes_def outcomes_kept_def)

lemma keeps_same: "tool_part db' = tool_part db \<Longrightarrow> keeps_outcomes s db db'"
  by (simp add: keeps_outcomes_def outcomes_kept_def tools_ok_def tool_part_def attempts_of_def)

definition turn_open :: "string \<Rightarrow> string \<Rightarrow> state_store \<Rightarrow> bool" where
  "turn_open s g db \<longleftrightarrow> (\<exists>t \<in> set (db_turns db). turn_key s g t \<and> tn_state t = TurnOpen)"

lemma turn_key_id: "turn_key s g t \<longleftrightarrow> turn_id t = (s, g)"
  by (auto simp: turn_key_def turn_id_def)

lemma attempt_key_id: "attempt_key s g c n a \<longleftrightarrow> attempt_id a = (s, g, c, n)"
  by (auto simp: attempt_key_def attempt_id_def)

lemma same_id: "distinct (map f xs) \<Longrightarrow> x \<in> set xs \<Longrightarrow> y \<in> set xs \<Longrightarrow> f x = f y \<Longrightarrow> x = y"
  by (auto simp: distinct_map dest: inj_onD)

text \<open>The attempts of an open turn change: running ones are settled, and new ones are added.\<close>

lemma keeps_attempts:
  assumes open_turn: "turn_open s' g db"
    and rows: "db_attempts db' = map h (db_attempts db) @ new" and turns: "db_turns db' = db_turns db"
    and h: "\<And>a. a \<in> set (db_attempts db) \<Longrightarrow> attempt_id (h a) = attempt_id a"
      "\<And>a. a \<in> set (db_attempts db) \<Longrightarrow> h a \<noteq> a \<Longrightarrow> ta_session a = s' \<and> ta_generation a = g \<and> ta_state a = Running"
    and new: "\<And>a. a \<in> set new \<Longrightarrow> ta_session a = s' \<and> ta_generation a = g \<and> attempt_id a \<notin> attempt_id ` set (db_attempts db)"
      "distinct (map attempt_id new)"
  shows "keeps_outcomes s db db'"
  unfolding keeps_outcomes_def
proof
  assume ok: "tools_ok db"
  have ids: "map attempt_id (map h (db_attempts db)) = map attempt_id (db_attempts db)" using h(1) by simp
  have "tools_ok db'"
    using ok new unfolding tools_ok_def rows turns map_append ids by (auto simp: image_iff)
  moreover have "outcomes_kept s db db'" unfolding outcomes_kept_def
  proof (intro conjI ballI impI)
    fix a assume "a \<in> set (db_attempts db)" "ta_session a = s \<and> ta_state a \<noteq> Running"
    then show "a \<in> set (db_attempts db')" using h(2) [of a] unfolding rows by (metis Un_iff image_eqI set_append set_map)
  next
    fix t assume t: "t \<in> set (db_turns db)" "ti_session (tn_identity t) = s \<and> tn_state t \<noteq> TurnOpen"
    then show "t \<in> set (db_turns db')" by (simp add: turns)
    let ?g = "ti_generation (tn_identity t)" and ?p = "\<lambda>a. ta_session a = s \<and> ta_generation a = ti_generation (tn_identity t)"
    have "(s, ?g) \<noteq> (s', g)"
    proof
      assume "(s, ?g) = (s', g)"
      with open_turn obtain u where "u \<in> set (db_turns db)" "turn_id u = turn_id t" "tn_state u = TurnOpen"
        using t(2) by (auto simp: turn_open_def turn_key_id turn_id_def)
      then show False using same_id [of turn_id "db_turns db" u t] ok t by (simp add: tools_ok_def)
    qed
    then have "filter ?p new = []" using new(1) by (auto simp: filter_empty_conv)
    moreover have "filter ?p (map h as) = filter ?p as" if "set as \<subseteq> set (db_attempts db)" for as
      using that
    proof (induction as)
      case (Cons a as)
      have "?p (h a) = ?p a" using h(1) [of a] Cons.prems by (simp add: attempt_id_def)
      moreover have "h a = a" if "?p a" using h(2) [of a] Cons.prems that \<open>(s, ?g) \<noteq> (s', g)\<close> by auto
      ultimately show ?case using Cons by auto
    qed simp
    ultimately show "attempts_of s ?g db' = attempts_of s ?g db" unfolding attempts_of_def rows by simp
  qed
  ultimately show "tools_ok db' \<and> outcomes_kept s db db'" ..
qed

lemma keeps_set_turn:
  assumes "turn_open s' g db" and "\<And>t. tn_identity (f t) = tn_identity t"
  shows "keeps_outcomes s db (set_turn s' g f db)"
  unfolding keeps_outcomes_def
proof
  assume ok: "tools_ok db"
  have "map turn_id (sql_update (turn_key s' g) f (db_turns db)) = map turn_id (db_turns db)"
    by (rule map_sql_update) (simp add: turn_id_def assms(2))
  then have "tools_ok (set_turn s' g f db)" using ok by (simp add: tools_ok_def set_turn_def)
  moreover have "t \<in> set (db_turns (set_turn s' g f db))" if "t \<in> set (db_turns db)" "tn_state t \<noteq> TurnOpen" for t
  proof -
    have "\<not> turn_key s' g t"
    proof
      assume "turn_key s' g t"
      with assms(1) obtain u where "u \<in> set (db_turns db)" "turn_id u = turn_id t" "tn_state u = TurnOpen"
        by (auto simp: turn_open_def turn_key_id)
      then show False using same_id [of turn_id "db_turns db" u t] ok that by (simp add: tools_ok_def)
    qed
    then show ?thesis using that(1) by (auto simp: set_turn_def set_sql_update intro!: image_eqI [of _ _ t])
  qed
  ultimately show "tools_ok (set_turn s' g f db) \<and> outcomes_kept s db (set_turn s' g f db)"
    by (auto simp: outcomes_kept_def attempts_of_def set_turn_parts)
qed

lemma ensure_turn_cases:
  assumes "ensureToolTurn clock i db = Inr (db', t)"
  obtains "db' = db" "t \<in> set (db_turns db)" "tn_identity t = i"
  | "\<forall>u \<in> set (db_turns db). turn_id u \<noteq> turn_id t" "db' = db\<lparr>db_turns := db_turns db @ [t]\<rparr>" "tn_identity t = i"
proof (cases "find (turn_key (ti_session i) (ti_generation i)) (db_turns db)")
  case None
  then have "\<forall>u \<in> set (db_turns db). turn_id u \<noteq> (ti_session i, ti_generation i)"
    by (simp add: find_None_iff turn_key_id)
  with None assms show thesis by (intro that(2)) (auto simp: ensureToolTurn_def turn_id_def Let_def split: if_splits)
next
  case (Some u)
  then have "u \<in> set (db_turns db)" by (auto simp: find_Some_iff)
  with Some assms show thesis by (intro that(1)) (auto simp: ensureToolTurn_def split: if_splits)
qed

lemma keeps_new_turn:
  assumes "\<forall>u \<in> set (db_turns db). turn_id u \<noteq> turn_id t"
  shows "keeps_outcomes s db (db\<lparr>db_turns := db_turns db @ [t]\<rparr>)"
  using assms by (auto simp: keeps_outcomes_def outcomes_kept_def tools_ok_def attempts_of_def image_iff)

lemma keeps_ensure:
  assumes "ensureToolTurn clock i db = Inr (db', t)"
  shows "keeps_outcomes s db db'" "t \<in> set (db_turns db')" "tn_identity t = i" "turn_id t = (ti_session i, ti_generation i)"
proof -
  show "keeps_outcomes s db db'" using assms by (rule ensure_turn_cases) (auto simp: keeps_same intro: keeps_new_turn)
  show "t \<in> set (db_turns db')" "tn_identity t = i" using assms by (rule ensure_turn_cases; simp)+
  then show "turn_id t = (ti_session i, ti_generation i)" by (simp add: turn_id_def)
qed

lemma ensured_open: "ensureToolTurn clock i db = Inr (db', t) \<Longrightarrow> tn_state t = TurnOpen \<Longrightarrow>
    turn_open (ti_session i) (ti_generation i) db'"
  unfolding turn_open_def turn_key_id using keeps_ensure(2,4) by blast

lemma keeps_begin:
  assumes "beginToolAttempt clock i c name input n db = Inr db'"
  shows "keeps_outcomes s db db'"
proof -
  obtain db1 t input_text where e: "ensureToolTurn clock i db = Inr (db1, t)" "tn_state t = TurnOpen"
      "\<not> list_ex (attempt_key (ti_session i) (ti_generation i) c n) (db_attempts db1)"
      "db' = db1\<lparr>db_attempts := db_attempts db1 @ [\<lparr>ta_session = ti_session i, ta_generation = ti_generation i,
              ta_call = c, ta_invocation = n, ta_name = name, ta_input = input_text, ta_state = Running,
              ta_result = None, ta_started = clock 1, ta_finished = None\<rparr>]\<rparr>"
    using assms by (auto simp: beginToolAttempt_def and_then_Inr split: if_splits option.splits)
  have "keeps_outcomes s db1 db'"
  proof (rule keeps_attempts [OF ensured_open [OF e(1,2)]])
    show "db_attempts db' = map (\<lambda>a. a) (db_attempts db1) @ [\<lparr>ta_session = ti_session i, ta_generation = ti_generation i,
              ta_call = c, ta_invocation = n, ta_name = name, ta_input = input_text, ta_state = Running,
              ta_result = None, ta_started = clock 1, ta_finished = None\<rparr>]" by (simp add: e(4))
  qed (use e(3) in \<open>auto simp: e(4) list_ex_iff attempt_key_id attempt_id_def\<close>)
  with keeps_ensure(1) [OF e(1)] show ?thesis by (rule keeps_trans)
qed

text \<open>An update of the row of a running attempt of an open turn.\<close>

lemma keeps_update:
  assumes "turn_open s' g db" and "tools_ok db \<Longrightarrow> a \<in> set (db_attempts db)" and "ta_state a = Running"
    and "attempt_id a = (s', g, c, n)" and "\<And>a. attempt_id (f a) = attempt_id a"
  shows "keeps_outcomes s db (db\<lparr>db_attempts := sql_update (attempt_key s' g c n) f (db_attempts db)\<rparr>)"
proof (cases "tools_ok db")
  case True
  have only: "b = a" if "b \<in> set (db_attempts db)" "attempt_key s' g c n b" for b
    using same_id [of attempt_id "db_attempts db" b a] True assms(2,4) that by (simp add: tools_ok_def attempt_key_id)
  show ?thesis
  proof (rule keeps_attempts [OF assms(1)])
    show "db_attempts (db\<lparr>db_attempts := sql_update (attempt_key s' g c n) f (db_attempts db)\<rparr>)
      = map (\<lambda>r. if attempt_key s' g c n r then f r else r) (db_attempts db) @ []" by (simp add: sql_update_def)
    show "ta_session b = s' \<and> ta_generation b = g \<and> ta_state b = Running"
      if "b \<in> set (db_attempts db)" "(if attempt_key s' g c n b then f b else b) \<noteq> b" for b
      using only [OF that(1)] that(2) assms(3,4) by (auto simp: attempt_id_def split: if_splits)
  qed (simp_all add: assms(5))
qed (simp add: keeps_outcomes_def)

lemma keeps_complete:
  assumes "completeToolAttempt clock i c n result interrupted db = Inr db'"
  shows "keeps_outcomes s db db'"
proof -
  obtain db1 t a where e: "ensureToolTurn clock i db = Inr (db1, t)" "tn_state t = TurnOpen"
      "find (attempt_key (ti_session i) (ti_generation i) c n) (db_attempts db1) = Some a"
    using assms by (auto simp: completeToolAttempt_def and_then_Inr Let_def split: if_splits option.splits)
  have a: "a \<in> set (db_attempts db1)" "attempt_id a = (ti_session i, ti_generation i, c, n)"
    using e(3) by (auto simp: find_Some_iff attempt_key_id)
  have "keeps_outcomes s db1 db'"
  proof (cases "ta_state a = Running")
    case True
    have "db' = db1\<lparr>db_attempts := sql_update (attempt_key (ti_session i) (ti_generation i) c n)
        (\<lambda>a. a\<lparr>ta_state := (if interrupted then Interrupted_attempt else Completed), ta_result := Some (stringify (JObj result)),
           ta_finished := Some (clock 1)\<rparr>) (db_attempts db1)\<rparr>"
      using assms e True by (simp add: completeToolAttempt_def Let_def split: if_split_asm)
    then show ?thesis using keeps_update [OF ensured_open [OF e(1,2)] a(1) True a(2)] by (simp add: attempt_id_def)
  next
    case False
    then have "db' = db1" using assms e by (simp add: completeToolAttempt_def Let_def split: if_split_asm)
    then show ?thesis by (simp add: keeps_same)
  qed
  with keeps_ensure(1) [OF e(1)] show ?thesis by (rule keeps_trans)
qed

definition latest_calls :: "(attempt_row \<times> nat) list \<Rightarrow> string list" where
  "latest_calls m = map (\<lambda>x. ta_call (fst x)) m"

lemma latest_calls_simps [simp]: "latest_calls [] = []" "latest_calls ((a, n) # m) = ta_call a # latest_calls m"
  by (simp_all add: latest_calls_def)

lemma put_latest_calls: "set (latest_calls (put_latest a m)) = insert (ta_call a) (set (latest_calls m))"
  by (induction a m rule: put_latest.induct) auto

lemma put_latest_distinct: "distinct (latest_calls m) \<Longrightarrow> distinct (latest_calls (put_latest a m))"
  by (induction a m rule: put_latest.induct) (auto simp: put_latest_calls)

lemma put_latest_set: "fst ` set (put_latest a m) \<subseteq> insert a (fst ` set m)"
  by (induction a m rule: put_latest.induct) auto

lemma latest_calls_filter: "distinct (latest_calls m) \<Longrightarrow> distinct (latest_calls (filter p m))"
  by (simp add: latest_calls_def distinct_map_filter)

lemma latest_attempts:
  "distinct (latest_calls (latestToolAttempts s g db))"
  "fst ` set (latestToolAttempts s g db) \<subseteq> set (attempts_of s g db)"
proof -
  show "distinct (latest_calls (latestToolAttempts s g db))" unfolding latestToolAttempts_def
    by (rule foldl_invariant) (simp_all add: put_latest_distinct)
  show "fst ` set (latestToolAttempts s g db) \<subseteq> set (attempts_of s g db)" unfolding latestToolAttempts_def
  proof (rule foldl_invariant_set)
    fix m :: "(attempt_row \<times> nat) list" and a assume m: "fst ` set m \<subseteq> set (attempts_of s g db)"
      and "a \<in> set (js_sort (ascending ta_started) (filter (\<lambda>a. ta_session a = s \<and> ta_generation a = g) (db_attempts db)))"
    then have "a \<in> set (attempts_of s g db)" by (simp add: attempts_of_def)
    then show "fst ` set (put_latest a m) \<subseteq> set (attempts_of s g db)" using put_latest_set [of a m] m by blast
  qed simp
qed

lemma settle_others: "b \<in> set rows \<Longrightarrow> ta_call b \<noteq> ta_call a \<Longrightarrow> b \<in> set (settle_attempt now i a result rows)"
  by (auto simp: settle_attempt_def set_sql_update attempt_key_def intro: image_eqI [where x = b])

lemma keeps_results:
  assumes "attempt_results clock parse i as db = Inr (db', bs)" "turn_open (ti_session i) (ti_generation i) db"
    and "distinct (latest_calls as)" "fst ` set as \<subseteq> set (attempts_of (ti_session i) (ti_generation i) db)"
  shows "keeps_outcomes s db db'"
  using assms
proof (induction clock parse i as db arbitrary: bs rule: attempt_results.induct)
  case (1 clock parse i db)
  then show ?case by (simp add: keeps_same)
next
  case (2 clock parse i a n rest db)
  obtain result bs' where r: "attempt_result parse a = Inr result"
      "attempt_results (\<lambda>k. clock (k + 1)) parse i rest (db\<lparr>db_attempts := settle_attempt (clock 0) i a result (db_attempts db)\<rparr>) = Inr (db', bs')"
    using 2(2) by (auto simp: and_then_Inr)
  let ?db = "db\<lparr>db_attempts := settle_attempt (clock 0) i a result (db_attempts db)\<rparr>"
  have a: "a \<in> set (db_attempts db)" "attempt_id a = (ti_session i, ti_generation i, ta_call a, ta_invocation a)"
    using 2(5) by (auto simp: attempts_of_def attempt_id_def)
  have first: "keeps_outcomes s db ?db"
  proof (cases "ta_state a = Running")
    case True
    then show ?thesis using keeps_update [OF 2(3) a(1) True a(2)] by (simp add: settle_attempt_def attempt_id_def)
  qed (simp add: settle_attempt_def keeps_same)
  have "fst ` set rest \<subseteq> set (attempts_of (ti_session i) (ti_generation i) ?db)"
  proof
    fix b assume b: "b \<in> fst ` set rest"
    then have "ta_call b \<in> set (latest_calls rest)" by (auto simp: latest_calls_def)
    then have "ta_call b \<noteq> ta_call a" using 2(4) by auto
    moreover have "b \<in> set (attempts_of (ti_session i) (ti_generation i) db)" using b 2(5) by fastforce
    then have "b \<in> set (db_attempts db)" "ta_session b = ti_session i \<and> ta_generation b = ti_generation i"
      by (auto simp: attempts_of_def)
    ultimately show "b \<in> set (attempts_of (ti_session i) (ti_generation i) ?db)"
      using settle_others by (simp add: attempts_of_def)
  qed
  moreover have "turn_open (ti_session i) (ti_generation i) ?db" using 2(3) by (simp add: turn_open_def)
  moreover have "distinct (latest_calls rest)" using 2(4) by simp
  ultimately have "keeps_outcomes s ?db db'" by (intro 2(1) [OF r])
  with first show ?case by (rule keeps_trans)
qed

lemma keeps_attempt_messages:
  assumes "toolAttemptMessages clock parse t as db = Inr (db', ms)" "t \<in> set (db_turns db)" "tn_state t = TurnOpen"
    and "as = filter p (latestToolAttempts (ti_session (tn_identity t)) (ti_generation (tn_identity t)) db)"
  shows "keeps_outcomes s db db'"
proof (cases "as = []")
  case True
  then show ?thesis using assms(1) by (simp add: toolAttemptMessages_def keeps_same)
next
  case False
  then obtain bs where r: "attempt_results (\<lambda>k. clock (k + 2)) parse (tn_identity t) as db = Inr (db', bs)"
    using assms(1) by (auto simp: toolAttemptMessages_def and_then_Inr)
  have "turn_open (ti_session (tn_identity t)) (ti_generation (tn_identity t)) db"
    using assms(2,3) by (auto simp: turn_open_def turn_key_def)
  moreover have "distinct (latest_calls as)" unfolding assms(4) by (rule latest_calls_filter [OF latest_attempts(1)])
  moreover have "fst ` set as \<subseteq> set (attempts_of (ti_session (tn_identity t)) (ti_generation (tn_identity t)) db)"
    using latest_attempts(2) unfolding assms(4) by fastforce
  ultimately show ?thesis by (rule keeps_results [OF r])
qed

lemma append_all_parts: "append_all clock s ms db = Inr db' \<Longrightarrow> tool_part db' = tool_part db \<and> recovery_part db' = recovery_part db"
proof (induction clock s ms db rule: append_all.induct)
  case (2 clock s m ms db)
  then show ?case
    by (auto simp: and_then_Inr appendMessage_def insert_message_def referencing_Inr Let_def tool_part_def recovery_part_def
        touch_session_def indexMessage_def split: if_splits)
qed simp

lemma insert_messages_parts: "insert_messages clock s ms db = Inr db' \<Longrightarrow> tool_part db' = tool_part db \<and> recovery_part db' = recovery_part db"
proof (induction clock s ms db rule: insert_messages.induct)
  case (2 clock s m ms db)
  then show ?case
    by (auto simp: and_then_Inr insert_message_def referencing_Inr tool_part_def recovery_part_def)
qed simp

lemma keeps_closed_turn:
  assumes "toolAttemptMessages clock parse t (filter p (latestToolAttempts s' g db)) db = Inr (db1, extra)"
    and "append_all clock' s' ms db1 = Inr db2"
    and "t \<in> set (db_turns db)" "tn_state t = TurnOpen" "turn_id t = (s', g)" "\<And>t. tn_identity (f t) = tn_identity t"
  shows "keeps_outcomes s db (set_turn s' g f db2)"
proof -
  have t: "ti_session (tn_identity t) = s'" "ti_generation (tn_identity t) = g" using assms(5) by (auto simp: turn_id_def)
  have "keeps_outcomes s db db1" using keeps_attempt_messages [OF assms(1,3,4)] t by simp
  moreover have "keeps_outcomes s db1 db2" using append_all_parts [OF assms(2)] by (simp add: keeps_same)
  moreover have "turn_open s' g db2"
  proof -
    have "db_turns db2 = db_turns db" using attempt_messages_parts [OF assms(1)] append_all_parts [OF assms(2)] by (simp add: tool_part_def)
    then show ?thesis using assms(3-5) by (auto simp: turn_open_def turn_key_id)
  qed
  then have "keeps_outcomes s db2 (set_turn s' g f db2)" using assms(6) by (rule keeps_set_turn)
  ultimately show ?thesis by (blast intro: keeps_trans)
qed

lemma keeps_finalize:
  assumes "finalizeToolTurn clock parse i ms db = Inr (db', ms')"
  shows "keeps_outcomes s db db'"
  using assms
proof (cases rule: finalize_cases)
  case (repeated t)
  then show ?thesis using keeps_ensure(1) by blast
next
  case (written db1 t p db2 extra db3 clock1 clock2 history)
  have "keeps_outcomes s db1 db'" unfolding written(5)
    by (rule keeps_closed_turn [OF written(3,4) keeps_ensure(2) [OF written(1)] written(2) keeps_ensure(4) [OF written(1)]]) simp
  with keeps_ensure(1) [OF written(1)] show ?thesis by (rule keeps_trans)
qed

lemma keeps_recover_turn:
  assumes "recover_turn clock parse s' t db = Inr (db', ms)" "t \<in> set (db_turns db)" "tn_state t = TurnOpen" "ti_session (tn_identity t) = s'"
  shows "keeps_outcomes s db db'" "db_turns db' = sql_update (turn_key s' (ti_generation (tn_identity t)))
    (\<lambda>t. t\<lparr>tn_state := TurnRecovered\<rparr>) (db_turns db)"
proof -
  let ?g = "ti_generation (tn_identity t)"
  obtain db1 db2 where r: "toolAttemptMessages clock parse t (filter (\<lambda>x. True) (latestToolAttempts s' ?g db)) db = Inr (db1, ms)"
      "append_all (\<lambda>k. clock (k + 2 + length (db_attempts db))) s' ms db1 = Inr db2"
      "db' = set_turn s' ?g (\<lambda>t. t\<lparr>tn_state := TurnRecovered\<rparr>) db2"
    using assms(1) by (auto simp: recover_turn_def and_then_Inr)
  show "keeps_outcomes s db db'" unfolding r(3)
    by (rule keeps_closed_turn [OF r(1,2) assms(2,3)]) (simp_all add: turn_id_def assms(4))
  show "db_turns db' = sql_update (turn_key s' ?g) (\<lambda>t. t\<lparr>tn_state := TurnRecovered\<rparr>) (db_turns db)"
    using attempt_messages_parts [OF r(1)] append_all_parts [OF r(2)] by (simp add: r(3) set_turn_def tool_part_def)
qed

lemma keeps_recover_turns:
  assumes "recover_turns clock parse s' ts db = Inr (db', ms)" "set ts \<subseteq> set (db_turns db)" "distinct (map turn_id ts)"
    and "\<forall>t \<in> set ts. tn_state t = TurnOpen \<and> ti_session (tn_identity t) = s'"
  shows "keeps_outcomes s db db'"
  using assms
proof (induction clock parse s' ts db arbitrary: ms rule: recover_turns.induct)
  case (1 clock parse s' db)
  then show ?case by (simp add: keeps_same)
next
  case (2 clock parse s' t ts db)
  obtain db1 ms1 ms2 where r: "recover_turn clock parse s' t db = Inr (db1, ms1)"
      "recover_turns (\<lambda>k. clock (k + 6 + length (db_attempts db))) parse s' ts db1 = Inr (db', ms2)"
    using 2(2) by (auto simp: and_then_Inr)
  have t: "t \<in> set (db_turns db)" "tn_state t = TurnOpen" "ti_session (tn_identity t) = s'" using 2(3,5) by auto
  note first = keeps_recover_turn [OF r(1) t]
  have "set ts \<subseteq> set (db_turns db1)"
  proof
    fix u assume u: "u \<in> set ts"
    have "turn_id t \<notin> set (map turn_id ts)" "turn_id u \<in> set (map turn_id ts)" using 2(4) u by simp_all
    then have "turn_id u \<noteq> turn_id t" by metis
    then have "\<not> turn_key s' (ti_generation (tn_identity t)) u" using t(3) by (simp add: turn_key_id turn_id_def)
    then show "u \<in> set (db_turns db1)" using u 2(3) unfolding first(2) by (auto simp: set_sql_update intro: image_eqI [where x = u])
  qed
  then have "keeps_outcomes s db1 db'" using 2(4,5) by (intro 2(1) [OF r(1) _ r(2)]) auto
  with first(1) show ?case by (rule keeps_trans)
qed

lemma keeps_recover:
  assumes "recoverToolTurns clock parse s' owner epoch g db = Inr (db', ms)"
  shows "keeps_outcomes s db db'"
proof (cases "tools_ok db")
  case True
  let ?ts = "filter (recoverable s' owner epoch g) (db_turns db)"
  have "distinct (map turn_id ?ts)" using True by (simp add: tools_ok_def distinct_map_filter)
  then have d: "distinct (map turn_id (js_sort (ascending tn_created) ?ts))"
    by (metis mset_js_sort mset_map mset_eq_imp_distinct_iff)
  have r: "recover_turns clock parse s' (js_sort (ascending tn_created) ?ts) db = Inr (db', ms)"
    using assms by (simp add: recoverToolTurns_def)
  show ?thesis by (rule keeps_recover_turns [OF r _ d]) (auto simp: recoverable_def)
qed (simp add: keeps_outcomes_def)

lemma keeps_other_delete: "s' \<noteq> s \<Longrightarrow> keeps_outcomes s db (fst (deleteSession s' db))"
  by (auto simp: keeps_outcomes_def outcomes_kept_def tools_ok_def deleteSession_def sql_delete_def distinct_map_filter
      attempts_of_def intro!: filter_cong)

lemma delete_tools_ok: "tools_ok db \<Longrightarrow> tools_ok (fst (deleteSession s' db))"
  by (auto simp: tools_ok_def deleteSession_def sql_delete_def distinct_map_filter)

lemma recovery_tool_part:
  "beginExpensiveTurnRecovery clock s e n k deferred counters db = Inr db' \<Longrightarrow> tool_part db' = tool_part db"
  "appendExpensiveTurnRecoveryDeferred clock s e deferred delta db = Inr db' \<Longrightarrow> tool_part db' = tool_part db"
  "recordExpensiveTurnRecoveryAttempt clock s e outcome t db = Inr db' \<Longrightarrow> tool_part db' = tool_part db"
  "tool_part (fst (markDeferredRecoveryMessageReleasing s e m db)) = tool_part db"
  "tool_part (fst (markDeferredRecoveryMessageReplayed clock s e m db)) = tool_part db"
  by (auto simp: beginExpensiveTurnRecovery_def appendExpensiveTurnRecoveryDeferred_def recordExpensiveTurnRecoveryAttempt_def
      markDeferredRecoveryMessageReleasing_def markDeferredRecoveryMessageReplayed_def tool_part_def referencing_Inr Let_def
      merge_counters_def insert_all_deferred_def split: option.splits if_splits)

lemma message_tool_part:
  "appendMessage clock s m db = Inr db' \<Longrightarrow> tool_part db' = tool_part db \<and> recovery_part db' = recovery_part db"
  "replaceMessages clock s ms db = Inr db' \<Longrightarrow> tool_part db' = tool_part db \<and> recovery_part db' = recovery_part db"
  "commitExpensiveTurnSuccessor clock s e ms outcome db = Inr db' \<Longrightarrow> tool_part db' = tool_part db"
  "forkSession clock parse uuid s db = Inr (db', forked) \<Longrightarrow> tool_part db' = tool_part db \<and> recovery_part db' = recovery_part db"
  using append_all_parts [of clock s "[m]" db db'] insert_messages_parts [of clock s ms "delete_messages s (clearWirePrefix s db)" db']
  by (auto simp: replaceMessages_def commitExpensiveTurnSuccessor_def forkSession_def and_then_Inr create_session_with_id_def
      delete_messages_def clearWirePrefix_def tool_part_def recovery_part_def split: if_splits option.splits dest!: insert_messages_parts)

lemma same_keeps: "same_parts db db' \<Longrightarrow> keeps_outcomes s db db'"
  by (simp add: same_parts_def keeps_same)

lemma step_keeps:
  assumes "store_step parse e db db'" "e \<noteq> Deletes s"
  shows "keeps_outcomes s db db'"
  using assms
proof (cases rule: store_step.cases)
  case (step_append clock s' m)
  then show ?thesis using message_tool_part(1) by (auto intro: keeps_same)
next
  case (step_replace clock s' ms)
  then show ?thesis using message_tool_part(2) by (auto intro: keeps_same)
next
  case (step_fork clock uuid s' forked)
  then show ?thesis using message_tool_part(4) by (auto intro: keeps_same)
qed (use assms(2) in \<open>auto intro: same_keeps same_parts_ops keeps_same message_tool_part(3) keeps_begin keeps_complete
    keeps_finalize keeps_recover keeps_other_delete recovery_tool_part\<close>)

lemma run_keeps: "store_run parse (\<lambda>e. e \<noteq> Deletes s) db db' \<Longrightarrow> keeps_outcomes s db db'"
proof (induction rule: store_run.induct)
  case run_start
  show ?case by (simp add: keeps_same)
next
  case (run_step db db' e db'')
  then show ?case using step_keeps keeps_trans by blast
qed

lemma step_tools_ok: "store_step parse e db db' \<Longrightarrow> tools_ok db \<Longrightarrow> tools_ok db'"
proof -
  assume step: "store_step parse e db db'" and ok: "tools_ok db"
  obtain s where "e \<noteq> Deletes s" by (cases e) (auto dest: spec [of _ "CHR ''x'' # _"])
  then show "tools_ok db'" using step_keeps [OF step] ok by (simp add: keeps_outcomes_def)
qed

lemma run_tools_ok: "store_run parse ok db db' \<Longrightarrow> tools_ok db \<Longrightarrow> tools_ok db'"
  by (induction rule: store_run.induct) (auto intro: step_tools_ok)

lemma empty_tools_ok: "tools_ok empty_store"
  by (simp add: tools_ok_def empty_store_def)

text \<open>
  C14. What has been recorded of a tool call is never changed or repeated.  Over any run of
  operations from an empty store, while the session is not deleted: an attempt that has an
  outcome keeps it, and a turn that has been finalized or recovered stays as it is, with
  exactly the attempts it had, so that neither a late answer nor a second recovery writes its
  calls into the conversation again.
\<close>

theorem tool_outcomes_final:
  assumes "store_run parse (\<lambda>_. True) empty_store db" "store_run parse (\<lambda>e. e \<noteq> Deletes s) db db'"
  shows "(\<forall>a \<in> set (db_attempts db). ta_session a = s \<and> ta_state a \<noteq> Running \<longrightarrow> a \<in> set (db_attempts db'))
    \<and> (\<forall>t \<in> set (db_turns db). ti_session (tn_identity t) = s \<and> tn_state t \<noteq> TurnOpen \<longrightarrow>
         t \<in> set (db_turns db')
         \<and> filter (\<lambda>a. ta_session a = s \<and> ta_generation a = ti_generation (tn_identity t)) (db_attempts db')
           = filter (\<lambda>a. ta_session a = s \<and> ta_generation a = ti_generation (tn_identity t)) (db_attempts db)
         \<and> (\<forall>clock i c name input n. ti_session i = s \<and> ti_generation i = ti_generation (tn_identity t) \<longrightarrow>
              isl (beginToolAttempt clock i c name input n db')))"
proof -
  have ok: "tools_ok db" using run_tools_ok [OF assms(1) empty_tools_ok] .
  then have kept: "tools_ok db'" "outcomes_kept s db db'" using run_keeps [OF assms(2)] by (auto simp: keeps_outcomes_def)
  have closed: "isl (beginToolAttempt clock i c name input n db')"
    if "t \<in> set (db_turns db')" "tn_state t \<noteq> TurnOpen" "turn_key (ti_session i) (ti_generation i) t" for t clock c name input n and i :: tool_identity
  proof (rule ccontr)
    assume "\<not> ?thesis"
    then obtain db1 u where e: "ensureToolTurn clock i db' = Inr (db1, u)" "tn_state u = TurnOpen"
      by (cases "beginToolAttempt clock i c name input n db'") (auto simp: beginToolAttempt_def and_then_Inr split: if_splits option.splits)
    have "turn_id t = turn_id u" using that(3) keeps_ensure(4) [OF e(1)] by (simp add: turn_key_id)
    moreover have "t \<in> set (db_turns db1)" "u \<in> set (db_turns db1)" "tools_ok db1"
      using e(1) that(1) keeps_ensure [OF e(1)] kept(1) by (auto simp: keeps_outcomes_def elim: ensure_turn_cases)
    ultimately have "t = u" using same_id [of turn_id "db_turns db1" t u] by (simp add: tools_ok_def)
    then show False using that(2) e(2) by simp
  qed
  show ?thesis
  proof (intro conjI ballI impI allI)
    fix a assume "a \<in> set (db_attempts db)" "ta_session a = s \<and> ta_state a \<noteq> Running"
    then show "a \<in> set (db_attempts db')" using kept(2) by (simp add: outcomes_kept_def)
  next
    fix t assume t: "t \<in> set (db_turns db)" "ti_session (tn_identity t) = s \<and> tn_state t \<noteq> TurnOpen"
    then show t': "t \<in> set (db_turns db')"
      and "filter (\<lambda>a. ta_session a = s \<and> ta_generation a = ti_generation (tn_identity t)) (db_attempts db')
        = filter (\<lambda>a. ta_session a = s \<and> ta_generation a = ti_generation (tn_identity t)) (db_attempts db)"
      using kept(2) by (simp_all add: outcomes_kept_def attempts_of_def)
    fix clock c name input n and i :: tool_identity assume "ti_session i = s \<and> ti_generation i = ti_generation (tn_identity t)"
    then show "isl (beginToolAttempt clock i c name input n db')" using closed [OF t'] t(2) by (simp add: turn_key_def)
  qed
qed

text \<open>A session with a completed call in one turn, and a second turn that is closed.\<close>

definition still_clock :: clock where
  "still_clock = (\<lambda>_. 0)"

definition first_turn :: tool_identity where
  "first_turn = \<lparr>ti_session = ''s'', ti_generation = ''1'', ti_owner = ''o'', ti_inbound = ''m'', ti_execution = ''e'', ti_epoch = 1\<rparr>"

definition second_turn :: tool_identity where
  "second_turn = first_turn\<lparr>ti_generation := ''2''\<rparr>"

definition done_call :: attempt_row where
  "done_call = \<lparr>ta_session = ''s'', ta_generation = ''1'', ta_call = ''c'', ta_invocation = 1, ta_name = ''bash'',
     ta_input = ''null'', ta_state = Completed, ta_result = Some (stringify (JObj [(''toolUseId'', JStr ''c'')])),
     ta_started = 0, ta_finished = Some 0\<rparr>"

definition trial_session :: session_row where
  "trial_session = \<lparr>sn_id = ''s'', sn_model = ''m'', sn_cwd = ''/'', sn_created = 0, sn_updated = 0, sn_input = 0, sn_output = 0,
     sn_cache = Some 0, sn_turns = 0, sn_name = None\<rparr>"

definition open_row :: "tool_identity \<Rightarrow> turn_row" where
  "open_row i = \<lparr>tn_identity = i, tn_state = TurnOpen, tn_history = None, tn_created = 0\<rparr>"

definition trial_store :: "turn_row list \<Rightarrow> attempt_row list \<Rightarrow> state_store" where
  "trial_store ts as = empty_store\<lparr>db_sessions := [trial_session], db_turns := ts, db_attempts := as\<rparr>"

lemmas trial_defs = trial_store_def empty_store_def trial_session_def open_row_def first_turn_def second_turn_def still_clock_def
  done_call_def has_session_def

lemma trial_identity: "identity_complete first_turn" "identity_complete second_turn"
  by code_simp+

lemma trial_steps:
  "create_session_with_id still_clock ''s'' ''m'' ''/'' empty_store = Inr (trial_store [] [])"
  "beginToolAttempt still_clock first_turn ''c'' ''bash'' JNull 1 (trial_store [] []) =
     Inr (trial_store [open_row first_turn] [done_call\<lparr>ta_state := Running, ta_result := None, ta_finished := None\<rparr>])"
  "completeToolAttempt still_clock first_turn ''c'' 1 [(''toolUseId'', JStr ''c'')] False
     (trial_store [open_row first_turn] [done_call\<lparr>ta_state := Running, ta_result := None, ta_finished := None\<rparr>]) =
     Inr (trial_store [open_row first_turn] [done_call])"
  "finalizeToolTurn still_clock (\<lambda>_. None) second_turn [] (trial_store [open_row first_turn] [done_call]) =
     Inr (trial_store [open_row first_turn,
       (open_row second_turn)\<lparr>tn_state := TurnFinalized, tn_history := Some (stringify (JArr []))\<rparr>] [done_call], [])"
  using trial_identity
  by (simp_all add: create_session_with_id_def beginToolAttempt_def completeToolAttempt_def finalizeToolTurn_def ensureToolTurn_def
      latestToolAttempts_def toolAttemptMessages_def set_turn_def sql_update_def attempt_key_def turn_key_def js_get_def Let_def js_sort_def
      trial_defs)

lemma tool_outcomes_final_witness:
  "\<exists>db :: state_store. done_call \<in> set (db_attempts db) \<and> isl (beginToolAttempt still_clock second_turn ''d'' ''bash'' JNull 1 db)"
proof -
  let ?db = "trial_store [open_row first_turn,
       (open_row second_turn)\<lparr>tn_state := TurnFinalized, tn_history := Some (stringify (JArr []))\<rparr>] [done_call]"
  have run: "store_run (\<lambda>_. None) (\<lambda>_. True) empty_store ?db"
    by (rule run_step [OF run_step [OF run_step [OF run_step [OF run_start step_create [OF trial_steps(1)]]
            step_begin_tool [OF trial_steps(2)]] step_complete_tool [OF trial_steps(3)]] step_finalize [OF trial_steps(4)]]) simp_all
  from tool_outcomes_final [OF run run_start, of "''s''"]
  have "done_call \<in> set (db_attempts ?db)" "isl (beginToolAttempt still_clock second_turn ''d'' ''bash'' JNull 1 ?db)"
    by (simp_all add: trial_defs)
  then show ?thesis by blast
qed

subsection \<open>Deferred messages and the generations of a recovery\<close>

definition deferred_id :: "deferred_row \<Rightarrow> string \<times> string \<times> string" where
  "deferred_id r = (dr_session r, dr_episode r, df_message (dr_item r))"

lemma deferred_key_id: "deferred_key s e m r \<longleftrightarrow> deferred_id r = (s, e, m)"
  by (auto simp: deferred_key_def deferred_id_def)

text \<open>A generation is fenced off, and the next one is the target until it becomes active.\<close>

definition head_ok :: "recovery_row \<Rightarrow> bool" where
  "head_ok r \<longleftrightarrow> rv_fenced r \<le> rv_active r \<and> rv_active r \<le> rv_target r \<and> rv_target r = rv_fenced r + 1"

definition recovery_ok :: "state_store \<Rightarrow> bool" where
  "recovery_ok db \<longleftrightarrow> distinct (map rv_session (db_recovery db)) \<and> list_all head_ok (db_recovery db)
     \<and> distinct (map deferred_id (db_deferred db))"

definition row_kept :: "(store_event \<Rightarrow> bool) \<Rightarrow> deferred_row \<Rightarrow> deferred_row \<Rightarrow> bool" where
  "row_kept ok r r' \<longleftrightarrow> deferred_id r' = deferred_id r \<and> dr_item r' = dr_item r \<and> (dr_state r = Replayed \<longrightarrow> dr_state r' = Replayed)
     \<and> (\<not> ok (Replays (dr_session r) (dr_episode r) (df_message (dr_item r))) \<longrightarrow> dr_state r' = Replayed \<longrightarrow> dr_state r = Replayed)"

lemma row_kept_trans: "row_kept ok r q \<Longrightarrow> row_kept ok q p \<Longrightarrow> row_kept ok r p"
  unfolding row_kept_def deferred_id_def prod.inject by (elim conjE, intro conjI impI) metis+

lemma row_kept_same [simp]: "row_kept ok r r"
  by (simp add: row_kept_def)

definition deferred_kept :: "(store_event \<Rightarrow> bool) \<Rightarrow> string \<Rightarrow> state_store \<Rightarrow> state_store \<Rightarrow> bool" where
  "deferred_kept ok s db db' \<longleftrightarrow> (\<forall>r \<in> set (db_deferred db). dr_session r = s \<longrightarrow> (\<exists>r' \<in> set (db_deferred db'). row_kept ok r r'))"

definition heads_kept :: "string \<Rightarrow> state_store \<Rightarrow> state_store \<Rightarrow> bool" where
  "heads_kept s db db' \<longleftrightarrow> (\<forall>r \<in> set (db_recovery db). rv_session r = s \<longrightarrow>
     (\<exists>r' \<in> set (db_recovery db'). rv_session r' = s \<and> rv_active r \<le> rv_active r'))"

definition keeps_recovery :: "(store_event \<Rightarrow> bool) \<Rightarrow> string \<Rightarrow> state_store \<Rightarrow> state_store \<Rightarrow> bool" where
  "keeps_recovery ok s db db' \<longleftrightarrow> (recovery_ok db \<longrightarrow> recovery_ok db' \<and> deferred_kept ok s db db' \<and> heads_kept s db db')"

lemma deferred_kept_trans: "deferred_kept ok s db db' \<Longrightarrow> deferred_kept ok s db' db'' \<Longrightarrow> deferred_kept ok s db db''"
proof -
  assume kept: "deferred_kept ok s db db'" "deferred_kept ok s db' db''"
  have "dr_session q = dr_session r" if "row_kept ok r q" for r q using that by (simp add: row_kept_def deferred_id_def)
  with kept show ?thesis unfolding deferred_kept_def by (metis row_kept_trans)
qed

lemma heads_kept_trans: "heads_kept s db db' \<Longrightarrow> heads_kept s db' db'' \<Longrightarrow> heads_kept s db db''"
  unfolding heads_kept_def by (meson order_trans)

lemma recovery_trans: "keeps_recovery ok s db db' \<Longrightarrow> keeps_recovery ok s db' db'' \<Longrightarrow> keeps_recovery ok s db db''"
  unfolding keeps_recovery_def using deferred_kept_trans heads_kept_trans by blast

lemma deferred_kept_same: "db_deferred db' = db_deferred db \<Longrightarrow> deferred_kept ok s db db'"
  by (auto simp: deferred_kept_def intro: row_kept_same)

lemma recovery_same: "recovery_part db' = recovery_part db \<Longrightarrow> keeps_recovery ok s db db'"
  by (auto simp: keeps_recovery_def recovery_ok_def recovery_part_def heads_kept_def intro: deferred_kept_same)

lemma recovery_same_parts: "same_parts db db' \<Longrightarrow> keeps_recovery ok s db db'"
  by (simp add: same_parts_def recovery_same)

text \<open>The heads change in place.\<close>

lemma recovery_update:
  assumes "\<And>r. r \<in> set (db_recovery db) \<Longrightarrow> p r \<Longrightarrow> head_ok r \<Longrightarrow> rv_session (f r) = rv_session r \<and> head_ok (f r) \<and> rv_active r \<le> rv_active (f r)"
  shows "keeps_recovery ok s db (db\<lparr>db_recovery := sql_update p f (db_recovery db)\<rparr>)"
  unfolding keeps_recovery_def
proof
  assume ok: "recovery_ok db"
  then have heads: "head_ok r" if "r \<in> set (db_recovery db)" for r using that by (simp add: recovery_ok_def list_all_iff)
  have "map rv_session (sql_update p f (db_recovery db)) = map rv_session (db_recovery db)"
    using assms heads by (auto simp: sql_update_def)
  moreover have "list_all head_ok (sql_update p f (db_recovery db))"
    using assms heads by (auto simp: list_all_iff set_sql_update)
  moreover have "heads_kept s db (db\<lparr>db_recovery := sql_update p f (db_recovery db)\<rparr>)" unfolding heads_kept_def
  proof (intro ballI impI)
    fix r assume r: "r \<in> set (db_recovery db)" "rv_session r = s"
    then show "\<exists>r' \<in> set (db_recovery (db\<lparr>db_recovery := sql_update p f (db_recovery db)\<rparr>)). rv_session r' = s \<and> rv_active r \<le> rv_active r'"
      using assms [OF r(1)] heads [OF r(1)] unfolding set_sql_update state_store.simps
      by (intro bexI [of _ "if p r then f r else r"]) (auto simp: set_sql_update)
  qed
  moreover have "deferred_kept ok s db (db\<lparr>db_recovery := sql_update p f (db_recovery db)\<rparr>)" by (rule deferred_kept_same) simp
  ultimately show "recovery_ok (db\<lparr>db_recovery := sql_update p f (db_recovery db)\<rparr>)
      \<and> deferred_kept ok s db (db\<lparr>db_recovery := sql_update p f (db_recovery db)\<rparr>)
      \<and> heads_kept s db (db\<lparr>db_recovery := sql_update p f (db_recovery db)\<rparr>)"
    using ok by (simp add: recovery_ok_def)
qed

lemma recovery_insert_deferred: "keeps_recovery ok s db (insert_all_deferred now s' e ms db)"
proof -
  have "keeps_recovery ok s db (db\<lparr>db_deferred := insert_deferred now s' e m (db_deferred db)\<rparr>)" for m db
    by (auto simp: keeps_recovery_def recovery_ok_def deferred_kept_def heads_kept_def insert_deferred_def deferred_id_def
        list_ex_iff deferred_key_id image_iff intro: row_kept_same)
  then show ?thesis unfolding insert_all_deferred_def
  proof (induction ms arbitrary: db)
    case (Cons m ms)
    from recovery_trans [OF Cons.prems Cons.IH [OF Cons.prems], of db m]
    show ?case by simp
  qed (simp add: recovery_same)
qed

lemma recovery_merge: "keeps_recovery ok s db (merge_counters now s' e c db)"
  unfolding merge_counters_def by (rule recovery_update) (auto simp: head_ok_def)

lemma recovery_begin:
  assumes "beginExpensiveTurnRecovery clock s' e n k deferred counters db = Inr db'"
  shows "keeps_recovery ok s db db'"
proof (cases "loadExpensiveTurnRecovery s' db")
  case None
  let ?new = "\<lparr>rv_session = s', rv_episode = e, rv_active = 0, rv_fenced = 0, rv_target = 1, rv_state = GuardTripped, rv_attempts = 0,
            rv_sourceCount = n, rv_sourceTokens = k, rv_compaction = None, rv_last = None,
            rv_counters = counters, rv_created = clock 0, rv_updated = clock 0\<rparr>"
  have db': "db' = insert_all_deferred (clock 0) s' e deferred (db\<lparr>db_recovery := db_recovery db @ [?new]\<rparr>)"
    using assms None by (simp add: beginExpensiveTurnRecovery_def referencing_Inr)
  have "keeps_recovery ok s db (db\<lparr>db_recovery := db_recovery db @ [?new]\<rparr>)"
    using None deferred_kept_same [of "db\<lparr>db_recovery := db_recovery db @ [?new]\<rparr>" db ok s]
    by (auto simp: keeps_recovery_def recovery_ok_def heads_kept_def head_ok_def loadExpensiveTurnRecovery_def find_None_iff image_iff)
  then show ?thesis unfolding db' by (blast intro: recovery_trans recovery_insert_deferred)
next
  case (Some r)
  have r: "r \<in> set (db_recovery db)" "rv_session r = s'" using Some by (auto simp: loadExpensiveTurnRecovery_def find_Some_iff)
  show ?thesis
  proof (cases "unfinished_episode r")
    case True
    then show ?thesis using assms Some recovery_trans [OF recovery_insert_deferred recovery_merge]
      by (auto simp: beginExpensiveTurnRecovery_def)
  next
    case False
    define db1 where "db1 = db\<lparr>db_recovery := sql_update (\<lambda>r. rv_session r = s')
            (\<lambda>h. h\<lparr>rv_episode := e, rv_fenced := rv_active r, rv_target := rv_active r + 1, rv_state := GuardTripped, rv_attempts := 0,
               rv_sourceCount := n, rv_sourceTokens := k, rv_compaction := None, rv_last := None,
               rv_counters := counters, rv_created := clock 0, rv_updated := clock 0\<rparr>) (db_recovery db)\<rparr>"
    have db': "db' = insert_all_deferred (clock 0) s' e deferred db1"
      using assms Some False by (simp add: beginExpensiveTurnRecovery_def db1_def)
    have "keeps_recovery ok s db db1"
    proof (cases "recovery_ok db")
      case True
      have only: "q = r" if "q \<in> set (db_recovery db)" "rv_session q = s'" for q
        using same_id [of rv_session "db_recovery db" q r] True r that by (simp add: recovery_ok_def)
      show ?thesis unfolding db1_def by (rule recovery_update) (auto simp: head_ok_def dest: only)
    qed (simp add: keeps_recovery_def)
    then show ?thesis unfolding db' by (blast intro: recovery_trans recovery_insert_deferred)
  qed
qed

lemma recovery_commit:
  assumes "commitExpensiveTurnSuccessor clock s' e ms outcome db = Inr db'"
  shows "keeps_recovery ok s db db'"
proof -
  obtain db1 where i: "insert_messages (\<lambda>k. clock 0) s' ms (delete_messages s' db) = Inr db1"
      "db' = db1\<lparr>db_recovery := sql_update (recovery_key s' e)
          (\<lambda>r. r\<lparr>rv_active := rv_target r, rv_state := RecoveryPending, rv_compaction := Some outcome, rv_updated := clock 0\<rparr>)
          (db_recovery db1)\<rparr>"
    using assms by (auto simp: commitExpensiveTurnSuccessor_def and_then_Inr split: if_splits)
  have "keeps_recovery ok s db db1"
    using insert_messages_parts [OF i(1)] by (intro recovery_same) (simp add: recovery_part_def delete_messages_def)
  moreover have "keeps_recovery ok s db1 db'" unfolding i(2) by (rule recovery_update) (auto simp: head_ok_def)
  ultimately show ?thesis by (rule recovery_trans)
qed

lemma recovery_attempt:
  assumes "recordExpensiveTurnRecoveryAttempt clock s' e outcome t db = Inr db'"
  shows "keeps_recovery ok s db db'"
  using assms by (auto simp: recordExpensiveTurnRecoveryAttempt_def split: if_splits
      intro!: recovery_update simp: head_ok_def)

lemma recovery_append:
  assumes "appendExpensiveTurnRecoveryDeferred clock s' e deferred delta db = Inr db'"
  shows "keeps_recovery ok s db db'"
  using assms recovery_trans [OF recovery_insert_deferred recovery_merge]
  by (auto simp: appendExpensiveTurnRecoveryDeferred_def split: if_splits)

text \<open>The rows of the deferred messages change in place.\<close>

lemma recovery_deferred_update:
  assumes "\<And>r. p r \<Longrightarrow> row_kept ok r (f r)"
  shows "keeps_recovery ok s db (db\<lparr>db_deferred := sql_update p f (db_deferred db)\<rparr>)"
  unfolding keeps_recovery_def
proof
  assume ok: "recovery_ok db"
  have "map deferred_id (sql_update p f (db_deferred db)) = map deferred_id (db_deferred db)"
    by (rule map_sql_update) (use assms in \<open>simp add: row_kept_def\<close>)
  moreover have "\<exists>r' \<in> set (sql_update p f (db_deferred db)). row_kept ok r r'" if "r \<in> set (db_deferred db)" for r
    using assms [of r] that by (intro bexI [of _ "if p r then f r else r"]) (auto simp: set_sql_update)
  ultimately show "recovery_ok (db\<lparr>db_deferred := sql_update p f (db_deferred db)\<rparr>)
      \<and> deferred_kept ok s db (db\<lparr>db_deferred := sql_update p f (db_deferred db)\<rparr>)
      \<and> heads_kept s db (db\<lparr>db_deferred := sql_update p f (db_deferred db)\<rparr>)"
    using ok by (auto simp: recovery_ok_def heads_kept_def deferred_kept_def)
qed

lemma recovery_releasing: "keeps_recovery ok s db (fst (markDeferredRecoveryMessageReleasing s' e m db))"
  unfolding markDeferredRecoveryMessageReleasing_def fst_conv
  by (rule recovery_deferred_update) (simp add: unreplayed_def row_kept_def deferred_id_def)

lemma recovery_replayed:
  assumes "ok (Replays s' e m)"
  shows "keeps_recovery ok s db (fst (markDeferredRecoveryMessageReplayed clock s' e m db))"
proof -
  have "keeps_recovery ok s db (db\<lparr>db_deferred := sql_update (unreplayed s' e m)
      (\<lambda>r. r\<lparr>dr_state := Replayed, dr_replayed := Some (clock 0)\<rparr>) (db_deferred db)\<rparr>)"
    by (rule recovery_deferred_update) (use assms in \<open>auto simp: unreplayed_def row_kept_def deferred_id_def deferred_key_def\<close>)
  then show ?thesis using recovery_trans [OF _ recovery_merge]
    by (auto simp: markDeferredRecoveryMessageReplayed_def Let_def)
qed

lemma recovery_other_delete: "s' \<noteq> s \<Longrightarrow> keeps_recovery ok s db (fst (deleteSession s' db))"
  by (auto simp: keeps_recovery_def recovery_ok_def deferred_kept_def heads_kept_def deleteSession_def sql_delete_def
      distinct_map_filter list_all_iff intro: row_kept_same)

lemma tool_recovery_part:
  "beginToolAttempt clock i c name input n db = Inr db' \<Longrightarrow> recovery_part db' = recovery_part db"
  "completeToolAttempt clock i c n result interrupted db = Inr db' \<Longrightarrow> recovery_part db' = recovery_part db"
  using begin_tool_parts complete_tool_parts by blast+

lemma finalize_recovery_part:
  assumes "finalizeToolTurn clock parse i ms db = Inr (db', ms')"
  shows "recovery_part db' = recovery_part db"
  using assms
proof (cases rule: finalize_cases)
  case (repeated t)
  then show ?thesis using ensure_turn_parts by blast
next
  case (written db1 t p db2 extra db3 clock1 clock2 history)
  then show ?thesis
    using ensure_turn_parts [OF written(1)] attempt_messages_parts [OF written(3)] append_all_parts [OF written(4)]
    by (simp add: set_turn_parts)
qed

lemma recover_turn_recovery_part:
  assumes "recover_turn clock parse s t db = Inr (db', ms)"
  shows "recovery_part db' = recovery_part db"
  using assms by (auto simp: recover_turn_def and_then_Inr set_turn_parts dest!: attempt_messages_parts append_all_parts)

lemma recover_recovery_part: "recover_turns clock parse s ts db = Inr (db', ms) \<Longrightarrow> recovery_part db' = recovery_part db"
proof (induction ts arbitrary: clock db ms)
  case (Cons t ts)
  then obtain db1 ms1 ms2 where r: "recover_turn clock parse s t db = Inr (db1, ms1)"
      "recover_turns (\<lambda>k. clock (k + 6 + length (db_attempts db))) parse s ts db1 = Inr (db', ms2)"
    by (auto simp: and_then_Inr)
  show ?case using Cons.IH [OF r(2)] recover_turn_recovery_part [OF r(1)] by simp
qed simp

lemma step_recovery:
  assumes "store_step parse e db db'" "ok e" "\<not> ok (Deletes s)"
  shows "keeps_recovery ok s db db'"
  using assms(1)
proof (cases rule: store_step.cases)
  case (step_append clock s' m)
  then show ?thesis using message_tool_part(1) by (auto intro: recovery_same)
next
  case (step_replace clock s' ms)
  then show ?thesis using message_tool_part(2) by (auto intro: recovery_same)
next
  case (step_fork clock uuid s' forked)
  then show ?thesis using message_tool_part(4) by (auto intro: recovery_same)
next
  case (step_recover clock s' owner epoch g ms)
  then show ?thesis using recover_recovery_part by (auto simp: recoverToolTurns_def intro: recovery_same)
next
  case (step_delete s')
  then show ?thesis using assms(2,3) by (auto intro: recovery_other_delete)
next
  case (step_replayed s' e' m clock)
  then show ?thesis using assms(2) by (auto intro: recovery_replayed)
qed (auto intro: recovery_same_parts same_parts_ops recovery_same tool_recovery_part finalize_recovery_part recovery_begin
    recovery_commit recovery_append recovery_attempt recovery_releasing)

lemma run_recovery: "store_run parse ok db db' \<Longrightarrow> \<not> ok (Deletes s) \<Longrightarrow> keeps_recovery ok s db db'"
proof (induction rule: store_run.induct)
  case run_start
  show ?case by (simp add: recovery_same)
next
  case (run_step db db' e db'')
  then show ?case using step_recovery recovery_trans by blast
qed

lemma step_recovery_ok: "store_step parse e db db' \<Longrightarrow> recovery_ok db \<Longrightarrow> recovery_ok db'"
proof -
  assume step: "store_step parse e db db'" and ok: "recovery_ok db"
  obtain s where "e \<noteq> Deletes s" by (cases e) (auto dest: spec [of _ "CHR ''x'' # _"])
  then show "recovery_ok db'" using step_recovery [OF step, of "\<lambda>e. e \<noteq> Deletes s" s] ok by (simp add: keeps_recovery_def)
qed

lemma run_recovery_ok: "store_run parse ok db db' \<Longrightarrow> recovery_ok db \<Longrightarrow> recovery_ok db'"
  by (induction rule: store_run.induct) (auto intro: step_recovery_ok)

lemma empty_recovery_ok: "recovery_ok empty_store"
  by (simp add: recovery_ok_def empty_store_def)

lemma replayed_row:
  assumes "recovery_ok db" "snd (markDeferredRecoveryMessageReplayed clock s e m db)"
  shows "\<exists>r \<in> set (db_deferred (fst (markDeferredRecoveryMessageReplayed clock s e m db))). deferred_key s e m r \<and> dr_state r = Replayed"
proof -
  have "filter (unreplayed s e m) (db_deferred db) \<noteq> []"
    using assms(2) by (auto simp: markDeferredRecoveryMessageReplayed_def Let_def split: if_splits)
  then obtain r where r: "r \<in> set (db_deferred db)" "unreplayed s e m r" by (auto simp: filter_empty_conv)
  let ?r = "r\<lparr>dr_state := Replayed, dr_replayed := Some (clock 0)\<rparr>"
  have "?r \<in> set (db_deferred (fst (markDeferredRecoveryMessageReplayed clock s e m db)))"
    using r by (auto simp: markDeferredRecoveryMessageReplayed_def Let_def merge_counters_def set_sql_update intro: rev_image_eqI)
  then show ?thesis using r(2) by (auto simp: unreplayed_def deferred_key_def intro!: bexI [of _ ?r])
qed

lemma replayed_again:
  assumes "recovery_ok db" "r \<in> set (db_deferred db)" "deferred_key s e m r" "dr_state r = Replayed"
  shows "\<not> snd (markDeferredRecoveryMessageReplayed clock s e m db)"
proof -
  have "\<not> unreplayed s e m q" if "q \<in> set (db_deferred db)" for q
    using same_id [of deferred_id "db_deferred db" q r] assms that by (auto simp: recovery_ok_def unreplayed_def deferred_key_id)
  then have "filter (unreplayed s e m) (db_deferred db) = []" by (simp add: filter_empty_conv)
  then show ?thesis by (simp add: markDeferredRecoveryMessageReplayed_def Let_def)
qed

lemma deferred_listed:
  assumes "recovery_ok db" "d \<in> set (listDeferredRecoveryMessages s e db)"
    "store_run parse (\<lambda>v. v \<noteq> Deletes s \<and> v \<noteq> Replays s e (df_message d)) db db'"
  shows "d \<in> set (listDeferredRecoveryMessages s e db')"
proof -
  let ?ok = "\<lambda>v. v \<noteq> Deletes s \<and> v \<noteq> Replays s e (df_message d)"
  obtain r where r: "r \<in> set (db_deferred db)" "dr_session r = s" "dr_episode r = e" "dr_item r = d" "dr_state r \<noteq> Replayed"
    using assms(2) by (auto simp: listDeferredRecoveryMessages_def)
  have "deferred_kept ?ok s db db'"
    using run_recovery [OF assms(3)] assms(1) by (simp add: keeps_recovery_def)
  then obtain r' where r': "r' \<in> set (db_deferred db')" "row_kept ?ok r r'"
    using r(1,2) by (auto simp: deferred_kept_def)
  then have "dr_session r' = s" "dr_episode r' = e" "dr_item r' = d" "dr_state r' \<noteq> Replayed"
    using r by (auto simp: row_kept_def deferred_id_def)
  with r'(1) show ?thesis by (force simp: listDeferredRecoveryMessages_def)
qed

lemma replayed_once:
  assumes "recovery_ok db" "snd (markDeferredRecoveryMessageReplayed clock s e m db)"
    "store_run parse (\<lambda>v. v \<noteq> Deletes s) (fst (markDeferredRecoveryMessageReplayed clock s e m db)) db'"
  shows "\<not> snd (markDeferredRecoveryMessageReplayed clock' s e m db')"
proof -
  let ?db = "fst (markDeferredRecoveryMessageReplayed clock s e m db)"
  have ok1: "recovery_ok ?db" using step_recovery_ok [OF step_replayed assms(1)] .
  obtain r where r: "r \<in> set (db_deferred ?db)" "deferred_key s e m r" "dr_state r = Replayed"
    using replayed_row [OF assms(1,2)] by blast
  have "deferred_kept (\<lambda>v. v \<noteq> Deletes s) s ?db db'" using run_recovery [OF assms(3)] ok1 by (simp add: keeps_recovery_def)
  then obtain r' where r': "r' \<in> set (db_deferred db')" "row_kept (\<lambda>v. v \<noteq> Deletes s) r r'"
    using r by (auto simp: deferred_kept_def deferred_key_def)
  have "deferred_key s e m r'" "dr_state r' = Replayed" using r' r by (auto simp: row_kept_def deferred_key_id)
  then show ?thesis using replayed_again r'(1) run_recovery_ok [OF assms(3) ok1] by blast
qed

text \<open>
  C13. A message that a recovery has put aside is kept until it has been replayed, and is
  acknowledged once.  Over any run from an empty store in which the session is not deleted:
  while no acknowledgement names it, it is listed for its episode, with its payload, whatever
  episodes, compactions and releases come; and when it has been acknowledged, every later
  acknowledgement of it is refused, so that it counts once.
\<close>

theorem deferred_until_replayed:
  assumes "store_run parse (\<lambda>_. True) empty_store db"
  shows "(d \<in> set (listDeferredRecoveryMessages s e db) \<and>
        store_run parse (\<lambda>v. v \<noteq> Deletes s \<and> v \<noteq> Replays s e (df_message d)) db db' \<longrightarrow>
        d \<in> set (listDeferredRecoveryMessages s e db'))
    \<and> (snd (markDeferredRecoveryMessageReplayed clock s e m db) \<and>
        store_run parse (\<lambda>v. v \<noteq> Deletes s) (fst (markDeferredRecoveryMessageReplayed clock s e m db)) db' \<longrightarrow>
        \<not> snd (markDeferredRecoveryMessageReplayed clock' s e m db'))"
proof -
  have ok: "recovery_ok db" using run_recovery_ok [OF assms empty_recovery_ok] .
  then show ?thesis using deferred_listed replayed_once by blast
qed

text \<open>The trial session with one message put aside, and then acknowledged.\<close>

definition aside :: deferred_message where
  "aside = \<lparr>df_message = ''m'', df_class = ''user'', df_payload = ''hello''\<rparr>"

definition no_counters :: recovery_counters where
  "no_counters = \<lparr>rc_preserved = 0, rc_coalesced = 0, rc_dropped = 0, rc_deferred = 0, rc_replayed = 0\<rparr>"

definition trial_head :: recovery_row where
  "trial_head = \<lparr>rv_session = ''s'', rv_episode = ''e'', rv_active = 0, rv_fenced = 0, rv_target = 1, rv_state = GuardTripped,
     rv_attempts = 0, rv_sourceCount = 0, rv_sourceTokens = 0, rv_compaction = None, rv_last = None, rv_counters = no_counters,
     rv_created = 0, rv_updated = 0\<rparr>"

definition waiting_store :: state_store where
  "waiting_store = (trial_store [] [])\<lparr>db_recovery := [trial_head], db_deferred := [\<lparr>dr_session = ''s'', dr_episode = ''e'',
     dr_item = aside, dr_state = Deferred, dr_created = 0, dr_replayed = None\<rparr>]\<rparr>"

lemmas waiting_defs = waiting_store_def trial_head_def no_counters_def aside_def trial_defs

lemma waiting_run: "store_run (\<lambda>_. None) (\<lambda>_. True) empty_store waiting_store"
proof -
  have "beginExpensiveTurnRecovery still_clock ''s'' ''e'' 0 0 [aside] no_counters (trial_store [] []) = Inr waiting_store"
    by (simp add: beginExpensiveTurnRecovery_def loadExpensiveTurnRecovery_def referencing_def insert_all_deferred_def
        insert_deferred_def waiting_defs)
  then show ?thesis by (intro run_step [OF run_step [OF run_start step_create [OF trial_steps(1)]] step_begin]) simp_all
qed

lemma deferred_until_replayed_witness:
  "aside \<in> set (listDeferredRecoveryMessages ''s'' ''e'' waiting_store)
   \<and> snd (markDeferredRecoveryMessageReplayed still_clock ''s'' ''e'' ''m'' waiting_store)
   \<and> \<not> snd (markDeferredRecoveryMessageReplayed still_clock ''s'' ''e'' ''m''
        (fst (markDeferredRecoveryMessageReplayed still_clock ''s'' ''e'' ''m'' waiting_store)))"
proof -
  have "aside \<in> set (listDeferredRecoveryMessages ''s'' ''e'' waiting_store)"
    "snd (markDeferredRecoveryMessageReplayed still_clock ''s'' ''e'' ''m'' waiting_store)"
    by (simp_all add: listDeferredRecoveryMessages_def markDeferredRecoveryMessageReplayed_def unreplayed_def deferred_key_def
        authoritative_def Let_def waiting_defs)
  then show ?thesis
    using deferred_until_replayed [OF waiting_run, of aside "''s''" "''e''" waiting_store still_clock "''m''"]
      deferred_until_replayed [OF waiting_run, of aside "''s''" "''e''"
        "fst (markDeferredRecoveryMessageReplayed still_clock ''s'' ''e'' ''m'' waiting_store)" still_clock "''m''" still_clock]
      run_start by blast
qed

text \<open>
  C39. The generations of a recovery are in order and never go back: over any run from an empty
  store, the fenced generation is at most the active one, the active one at most the target,
  which comes right after the fenced one; and as long as the session is not deleted, a later
  head has at least the active generation of an earlier one.
\<close>

theorem recovery_generations_ordered:
  assumes "store_run parse (\<lambda>_. True) empty_store db" "loadExpensiveTurnRecovery s db = Some r"
  shows "rv_fenced r \<le> rv_active r \<and> rv_active r \<le> rv_target r \<and> rv_target r = rv_fenced r + 1
    \<and> (store_run parse (\<lambda>v. v \<noteq> Deletes s) db db' \<longrightarrow>
         (\<exists>r'. loadExpensiveTurnRecovery s db' = Some r' \<and> rv_active r \<le> rv_active r'))"
proof -
  have ok: "recovery_ok db" using run_recovery_ok [OF assms(1) empty_recovery_ok] .
  have r: "r \<in> set (db_recovery db)" "rv_session r = s"
    using assms(2) by (auto simp: loadExpensiveTurnRecovery_def find_Some_iff)
  have "\<exists>r'. loadExpensiveTurnRecovery s db' = Some r' \<and> rv_active r \<le> rv_active r'"
    if run: "store_run parse (\<lambda>v. v \<noteq> Deletes s) db db'"
  proof -
    obtain r' where r': "r' \<in> set (db_recovery db')" "rv_session r' = s" "rv_active r \<le> rv_active r'" "recovery_ok db'"
      using run_recovery [OF run, of s] ok r by (fastforce simp: keeps_recovery_def heads_kept_def)
    then obtain q where q: "loadExpensiveTurnRecovery s db' = Some q"
      by (cases "loadExpensiveTurnRecovery s db'") (auto simp: loadExpensiveTurnRecovery_def find_None_iff)
    then have "q = r'"
      using r' same_id [of rv_session "db_recovery db'" q r'] by (auto simp: loadExpensiveTurnRecovery_def find_Some_iff recovery_ok_def)
    with q r'(3) show ?thesis by simp
  qed
  then show ?thesis using ok r(1) by (auto simp: recovery_ok_def list_all_iff head_ok_def)
qed

lemma recovery_generations_ordered_witness:
  "loadExpensiveTurnRecovery ''s'' waiting_store = Some trial_head \<and> rv_target trial_head = rv_fenced trial_head + 1"
proof -
  have "loadExpensiveTurnRecovery ''s'' waiting_store = Some trial_head"
    by (simp add: loadExpensiveTurnRecovery_def waiting_defs)
  then show ?thesis using recovery_generations_ordered [OF waiting_run] by blast
qed

subsection \<open>Where the code and its comments differ\<close>

text \<open>
  The comment on the table of the wire prefix says that every rewrite of the history goes through
  \<open>replaceMessages\<close>, which drops the row; the commit of a recovery rewrites the history and
  keeps it.
\<close>

lemma insert_messages_wire: "insert_messages clock s ms db = Inr db' \<Longrightarrow> db_wire db' = db_wire db"
proof (induction ms arbitrary: clock db)
  case (Cons m ms)
  then show ?case by (fastforce simp: and_then_Inr insert_message_def referencing_Inr)
qed simp

lemma replaced_clears_wire: "replaceMessages clock s ms db = Inr db' \<Longrightarrow> loadWirePrefix s db' = None"
  by (auto simp: replaceMessages_def loadWirePrefix_def clearWirePrefix_def delete_messages_def sql_delete_def find_None_iff
      dest!: insert_messages_wire)

lemma successor_keeps_wire:
  assumes "commitExpensiveTurnSuccessor clock s e ms outcome db = Inr db'"
  shows "loadWirePrefix s db' = loadWirePrefix s db"
  using assms by (auto simp: commitExpensiveTurnSuccessor_def and_then_Inr loadWirePrefix_def delete_messages_def
      split: if_splits dest!: insert_messages_wire)

text \<open>A message whose text is a JSON array comes back as a list of blocks.\<close>

lemma array_text_becomes_blocks:
  assumes "parse txt = Some (JArr bs)" "en_content m = EText txt"
  shows "en_content (deserialize parse (stored_of now s m)) = EBlocks bs"
  using assms by (simp add: deserialize_def stored_of_def content_text_def parsed_content_def)

text \<open>A fork stores the messages without their identities, though the session it returns still has them.\<close>

lemma fork_drops_identity:
  "sd_message (stored_of now s (forked_entry m)) = None \<and> sd_execution (stored_of now s (forked_entry m)) = None"
  by (simp add: stored_of_def forked_entry_def)

text \<open>The bootstrap of the transcript drops the operational events, by which the model's view excludes a message.\<close>

lemma migration_drops_events:
  assumes "\<not> list_ex (\<lambda>r. tx_source r = Some n) rows"
  shows "\<exists>r \<in> set (migrate_row (n, m) rows). tx_source r = Some n \<and> sd_event (tx_stored r) = None"
  using assms by (simp add: migrate_row_def)

end
