(* ===== verification/AgentState.thy ===== *)
theory AgentState
  imports SqlTable Json
begin

text \<open>
  The store of the desired state of the agents, \<open>src/src/daemon/agent-state-store.ts\<close>, and the
  functions that mirror \<open>agents.json\<close> into it, \<open>src/src/daemon/agent-state-mirror.ts\<close>.  The
  three tables are lists of rows; every mutation is one transaction, which leaves the store
  as it was when it throws.  A record of \<open>agents.json\<close> and a patch are JSON objects whose
  fields have the types of their interfaces; \<open>parse\<close> is \<open>JSON.parse\<close>.

  The \<open>n\<close>-th reading of the clock in a method is \<open>clock n\<close> and its \<open>n\<close>-th call of
  \<open>randomUUID\<close> is \<open>uuid n\<close>.
\<close>

type_synonym ticks = "nat \<Rightarrow> time"

type_synonym uuids = "nat \<Rightarrow> string"

subsection \<open>The tables\<close>

record agent_row =
  aw_id :: string
  aw_username :: string
  aw_email :: "string option"
  aw_name :: string
  aw_role :: "string option"
  aw_team :: "string option"
  aw_environment :: string
  aw_method :: "string option"
  aw_model :: "string option"
  aw_fallbacks :: "string option"
  aw_overrides :: "string option"
  aw_skills :: string
  aw_env :: "string option"
  aw_limits :: "string option"
  aw_desired :: bool
  aw_operator :: bool
  aw_status :: string
  aw_version :: int
  aw_updated :: time
  aw_created :: time

record observation =
  os_state :: string
  os_kind :: string
  os_container :: "string option"
  os_pid :: "int option"
  os_error :: "string option"

record observation_row =
  ow_agent :: string
  ow_item :: observation
  ow_seen :: time

datatype state_event = EvCreated | EvUpdated | EvEnabled | EvDisabled | EvStarted | EvStopped | EvDrift | EvReconciled | EvDeleted

record event_row =
  ew_id :: string
  ew_agent :: string
  ew_type :: state_event
  ew_version :: int
  ew_actor :: string
  ew_reason :: "string option"
  ew_payload :: "string option"
  ew_created :: time

record agent_store =
  as_agents :: "agent_row list"
  as_observations :: "observation_row list"
  as_events :: "event_row list"

datatype lifecycle = Enabled | Hibernated | OperatorStopped

datatype agent_error =
    UnknownAgent string | StaleVersion string int int | KillSwitchActive
  | UniqueColumn | ForeignKeyColumn | NotNullColumn | BadColumn

definition empty_agents :: agent_store where
  "empty_agents = \<lparr>as_agents = [], as_observations = [], as_events = []\<rparr>"

subsection \<open>Reads\<close>

definition getAgent :: "string \<Rightarrow> agent_store \<Rightarrow> agent_row option" where
  "getAgent a db = find (\<lambda>r. aw_id r = a) (as_agents db)"

definition getByUsername :: "string \<Rightarrow> agent_store \<Rightarrow> agent_row option" where
  "getByUsername u db = find (\<lambda>r. aw_username r = u) (as_agents db)"

definition listAgents :: "agent_store \<Rightarrow> agent_row list" where
  "listAgents db = js_sort (ascending aw_username) (as_agents db)"

definition listEvents :: "string \<Rightarrow> agent_store \<Rightarrow> event_row list" where
  "listEvents a db = filter (\<lambda>e. ew_agent e = a) (as_events db)"

definition getObservation :: "string \<Rightarrow> agent_store \<Rightarrow> observation_row option" where
  "getObservation a db = find (\<lambda>q. ow_agent q = a) (as_observations db)"

definition listObservations :: "agent_store \<Rightarrow> observation_row list" where
  "listObservations db = js_sort (ascending ow_agent) (as_observations db)"

definition wanted :: "agent_row \<Rightarrow> bool" where
  "wanted r \<longleftrightarrow> aw_desired r \<and> \<not> aw_operator r"

definition isEffectivelyEnabled :: "string \<Rightarrow> agent_store \<Rightarrow> bool" where
  "isEffectivelyEnabled a db \<longleftrightarrow> (case getAgent a db of None \<Rightarrow> False | Some r \<Rightarrow> wanted r)"

subsection \<open>Values of the columns\<close>

definition nullish :: "jsval \<Rightarrow> bool" where
  "nullish v \<longleftrightarrow> v = JUndef \<or> v = JNull"

definition text_column :: "jsval \<Rightarrow> string option" where
  "text_column v = (case v of JStr s \<Rightarrow> Some s | _ \<Rightarrow> None)"

definition json_column :: "jsval \<Rightarrow> string option" where
  "json_column v = (if nullish v then None else json_text v)"

definition skills_column :: "jsval \<Rightarrow> string" where
  "skills_column v = (case json_text (if nullish v then JArr [] else v) of None \<Rightarrow> [] | Some t \<Rightarrow> t)"

definition field_text :: "jsobj \<Rightarrow> string \<Rightarrow> string" where
  "field_text ob k = (case js_get ob k of JStr s \<Rightarrow> s | _ \<Rightarrow> [])"

definition text_or :: "jsobj \<Rightarrow> string \<Rightarrow> string \<Rightarrow> string" where
  "text_or ob k other = (case js_get ob k of JStr s \<Rightarrow> s | _ \<Rightarrow> other)"

subsection \<open>Events and mutations\<close>

definition writeEvent ::
  "time \<Rightarrow> string \<Rightarrow> string \<Rightarrow> state_event \<Rightarrow> int \<Rightarrow> string \<Rightarrow> string option \<Rightarrow> jsval \<Rightarrow> agent_store \<Rightarrow> agent_error + agent_store" where
  "writeEvent now event_id a type version actor reason payload db =
     (if list_ex (\<lambda>e. ew_id e = event_id) (as_events db) then Inl UniqueColumn
      else Inr (db\<lparr>as_events := as_events db @ [\<lparr>ew_id = event_id, ew_agent = a, ew_type = type, ew_version = version,
        ew_actor = actor, ew_reason = reason, ew_payload = json_column payload, ew_created = now\<rparr>]\<rparr>))"

definition recordStateEvent ::
  "ticks \<Rightarrow> uuids \<Rightarrow> string \<Rightarrow> state_event \<Rightarrow> string \<Rightarrow> string option \<Rightarrow> jsval \<Rightarrow> agent_store \<Rightarrow> agent_error + agent_store" where
  "recordStateEvent clock uuid a type actor reason payload db = (case getAgent a db of
      None \<Rightarrow> Inl (UnknownAgent a)
    | Some r \<Rightarrow> writeEvent (clock 0) (uuid 0) a type (aw_version r) actor reason payload db)"

record agent_spec =
  cs_id :: "string option"
  cs_username :: string
  cs_email :: "string option"
  cs_name :: string
  cs_role :: "string option"
  cs_team :: "string option"
  cs_environment :: "string option"
  cs_method :: "string option"
  cs_model :: "string option"
  cs_fallbacks :: jsval
  cs_overrides :: jsval
  cs_skills :: jsval
  cs_env :: jsval
  cs_limits :: jsval
  cs_desired :: bool
  cs_operator :: bool

definition insert_agent :: "agent_row \<Rightarrow> agent_store \<Rightarrow> agent_error + agent_store" where
  "insert_agent r db = (if list_ex (\<lambda>q. aw_id q = aw_id r \<or> aw_username q = aw_username r) (as_agents db) then Inl UniqueColumn
     else Inr (db\<lparr>as_agents := as_agents db @ [r]\<rparr>))"

definition spec_row :: "time \<Rightarrow> string \<Rightarrow> agent_spec \<Rightarrow> agent_row" where
  "spec_row now a spec = \<lparr>aw_id = a, aw_username = cs_username spec, aw_email = cs_email spec, aw_name = cs_name spec,
     aw_role = cs_role spec, aw_team = cs_team spec,
     aw_environment = (case cs_environment spec of None \<Rightarrow> ''container'' | Some e \<Rightarrow> e),
     aw_method = cs_method spec, aw_model = cs_model spec, aw_fallbacks = json_column (cs_fallbacks spec),
     aw_overrides = json_column (cs_overrides spec), aw_skills = skills_column (cs_skills spec),
     aw_env = json_column (cs_env spec), aw_limits = json_column (cs_limits spec),
     aw_desired = cs_desired spec, aw_operator = cs_operator spec, aw_status = ''stopped'', aw_version = 1,
     aw_updated = now, aw_created = now\<rparr>"

text \<open>The first identifier is the agent's, when its specification has none.\<close>

definition createAgent ::
  "ticks \<Rightarrow> uuids \<Rightarrow> string \<Rightarrow> agent_spec \<Rightarrow> agent_store \<Rightarrow> agent_error + agent_store \<times> agent_row" where
  "createAgent clock uuid actor spec db =
     (let a = (case cs_id spec of None \<Rightarrow> uuid 0 | Some i \<Rightarrow> i);
          n = (case cs_id spec of None \<Rightarrow> 1 | Some i \<Rightarrow> 0);
          r = spec_row (clock 0) a spec
      in and_then (insert_agent r db) (\<lambda>db1.
         and_then (writeEvent (clock 1) (uuid n) a EvCreated 1 actor None (JObj [(''username'', JStr (cs_username spec))]) db1) (\<lambda>db2.
         Inr (db2, r))))"

text \<open>A patch: a column is changed when its field is not \<open>undefined\<close>.\<close>

definition patch_has :: "jsobj \<Rightarrow> string \<Rightarrow> bool" where
  "patch_has p k \<longleftrightarrow> js_get p k \<noteq> JUndef"

definition patch_text_column :: "jsobj \<Rightarrow> string \<Rightarrow> string option \<Rightarrow> string option" where
  "patch_text_column p k old = (if patch_has p k then text_column (js_get p k) else old)"

definition patch_json :: "jsobj \<Rightarrow> string \<Rightarrow> string option \<Rightarrow> string option" where
  "patch_json p k old = (if patch_has p k then json_column (js_get p k) else old)"

definition patched_row :: "jsobj \<Rightarrow> agent_row \<Rightarrow> agent_row" where
  "patched_row p r = r\<lparr>aw_name := text_or p ''name'' (aw_name r), aw_email := patch_text_column p ''email'' (aw_email r),
     aw_role := patch_text_column p ''role'' (aw_role r), aw_team := patch_text_column p ''team'' (aw_team r),
     aw_environment := text_or p ''runtimeEnvironment'' (aw_environment r),
     aw_method := patch_text_column p ''executionMethod'' (aw_method r), aw_model := patch_text_column p ''model'' (aw_model r),
     aw_fallbacks := patch_json p ''modelFallbacks'' (aw_fallbacks r),
     aw_overrides := patch_json p ''modelOverrides'' (aw_overrides r),
     aw_skills := (if patch_has p ''skills'' then skills_column (js_get p ''skills'') else aw_skills r),
     aw_env := patch_json p ''env'' (aw_env r), aw_limits := patch_json p ''resourceLimits'' (aw_limits r)\<rparr>"

definition patch_columns :: "(string \<times> string) list" where
  "patch_columns = [(''name'', ''name''), (''email'', ''email''), (''role'', ''role''), (''team'', ''team''),
     (''runtimeEnvironment'', ''runtime_environment''), (''executionMethod'', ''execution_method''), (''model'', ''model''),
     (''modelFallbacks'', ''model_fallbacks_json''), (''modelOverrides'', ''model_overrides_json''), (''skills'', ''skills_json''),
     (''env'', ''env_json''), (''resourceLimits'', ''resource_limits_json'')]"

definition patched_columns :: "jsobj \<Rightarrow> string list" where
  "patched_columns p = map snd (filter (\<lambda>c. patch_has p (fst c)) patch_columns)"

definition set_agent :: "string \<Rightarrow> (agent_row \<Rightarrow> agent_row) \<Rightarrow> agent_store \<Rightarrow> agent_store" where
  "set_agent a f db = db\<lparr>as_agents := sql_update (\<lambda>r. aw_id r = a) f (as_agents db)\<rparr>"

definition updateAgent ::
  "ticks \<Rightarrow> uuids \<Rightarrow> string \<Rightarrow> string \<Rightarrow> jsobj \<Rightarrow> int option \<Rightarrow> agent_store \<Rightarrow> agent_error + agent_store" where
  "updateAgent clock uuid actor a p expected db = (case getAgent a db of
      None \<Rightarrow> Inl (UnknownAgent a)
    | Some r \<Rightarrow>
        if (case expected of None \<Rightarrow> False | Some v \<Rightarrow> aw_version r \<noteq> v) then Inl (StaleVersion a (the expected) (aw_version r))
        else if js_get p ''name'' = JNull \<or> js_get p ''runtimeEnvironment'' = JNull then Inl NotNullColumn
        else writeEvent (clock 1) (uuid 0) a EvUpdated (aw_version r + 1) actor None
            (JObj [(''fields'', JArr (map JStr (patched_columns p)))])
            (set_agent a (\<lambda>q. (patched_row p q)\<lparr>aw_version := aw_version r + 1, aw_updated := clock 0\<rparr>) db))"

definition setDesiredEnabled ::
  "ticks \<Rightarrow> uuids \<Rightarrow> string \<Rightarrow> string \<Rightarrow> bool \<Rightarrow> bool \<Rightarrow> agent_store \<Rightarrow> agent_error + agent_store" where
  "setDesiredEnabled clock uuid actor a enabled override db = (case getAgent a db of
      None \<Rightarrow> Inl (UnknownAgent a)
    | Some r \<Rightarrow>
        let clear = enabled \<and> override \<and> aw_operator r in
        writeEvent (clock 1) (uuid 0) a (if enabled then EvEnabled else EvDisabled) (aw_version r + 1) actor
          (if clear then Some ''override-kill-switch'' else None) JUndef
          (set_agent a (\<lambda>q. q\<lparr>aw_desired := enabled, aw_operator := (if clear then False else aw_operator r),
             aw_version := aw_version r + 1, aw_updated := clock 0\<rparr>) db))"

definition lifecycle_text :: "lifecycle \<Rightarrow> string" where
  "lifecycle_text s = (case s of Enabled \<Rightarrow> ''enabled'' | Hibernated \<Rightarrow> ''hibernated'' | OperatorStopped \<Rightarrow> ''operator_stopped'')"

definition setLifecycleState ::
  "ticks \<Rightarrow> uuids \<Rightarrow> string \<Rightarrow> string \<Rightarrow> lifecycle \<Rightarrow> bool \<Rightarrow> agent_store \<Rightarrow> agent_error + agent_store" where
  "setLifecycleState clock uuid actor a s override db = (case getAgent a db of
      None \<Rightarrow> Inl (UnknownAgent a)
    | Some r \<Rightarrow>
        if s = Enabled \<and> aw_operator r \<and> \<not> override then Inl KillSwitchActive
        else if aw_desired r = (s = Enabled) \<and> aw_operator r = (s = OperatorStopped) \<and> aw_status r = lifecycle_text s then Inr db
        else writeEvent (clock 1) (uuid 0) a (if s = Enabled then EvEnabled else EvDisabled) (aw_version r + 1) actor
          (Some (lifecycle_text s)) JUndef
          (set_agent a (\<lambda>q. q\<lparr>aw_desired := (s = Enabled), aw_operator := (s = OperatorStopped), aw_status := lifecycle_text s,
             aw_version := aw_version r + 1, aw_updated := clock 0\<rparr>) db))"

definition setOperatorDisabled ::
  "ticks \<Rightarrow> uuids \<Rightarrow> string \<Rightarrow> string \<Rightarrow> bool \<Rightarrow> string option \<Rightarrow> agent_store \<Rightarrow> agent_error + agent_store" where
  "setOperatorDisabled clock uuid actor a disabled reason db = (case getAgent a db of
      None \<Rightarrow> Inl (UnknownAgent a)
    | Some r \<Rightarrow>
        writeEvent (clock 1) (uuid 0) a (if disabled then EvDisabled else EvEnabled) (aw_version r + 1) actor
          (case reason of None \<Rightarrow> Some ''operator-kill-switch'' | Some t \<Rightarrow> Some t) JUndef
          (set_agent a (\<lambda>q. q\<lparr>aw_operator := disabled, aw_version := aw_version r + 1, aw_updated := clock 0\<rparr>) db))"

text \<open>The observation of a deleted agent goes with it.\<close>

definition deleteAgent :: "ticks \<Rightarrow> uuids \<Rightarrow> string \<Rightarrow> string \<Rightarrow> agent_store \<Rightarrow> agent_error + agent_store" where
  "deleteAgent clock uuid actor a db = (case getAgent a db of
      None \<Rightarrow> Inl (UnknownAgent a)
    | Some r \<Rightarrow>
        writeEvent (clock 0) (uuid 0) a EvDeleted (aw_version r) actor None (JObj [(''username'', JStr (aw_username r))])
          (db\<lparr>as_agents := sql_delete (\<lambda>q. aw_id q = a) (as_agents db),
              as_observations := sql_delete (\<lambda>q. ow_agent q = a) (as_observations db)\<rparr>))"

definition recordObservation :: "ticks \<Rightarrow> string \<Rightarrow> observation \<Rightarrow> agent_store \<Rightarrow> agent_error + agent_store" where
  "recordObservation clock a obs db =
     (let new = \<lparr>ow_agent = a, ow_item = obs, ow_seen = clock 0\<rparr> in
      if getAgent a db = None then Inl ForeignKeyColumn
      else Inr (db\<lparr>as_observations := (if list_ex (\<lambda>q. ow_agent q = a) (as_observations db)
          then sql_update (\<lambda>q. ow_agent q = a) (\<lambda>q. new) (as_observations db) else as_observations db @ [new])\<rparr>))"

subsection \<open>Import\<close>

text \<open>The columns that an imported record sets.\<close>

definition imported_row :: "jsobj \<Rightarrow> agent_row \<Rightarrow> agent_row" where
  "imported_row info r = r\<lparr>aw_id := field_text info ''id'', aw_username := field_text info ''username'',
     aw_email := text_column (js_get info ''email''), aw_name := field_text info ''name'', aw_role := text_column (js_get info ''role''),
     aw_team := text_column (js_get info ''team''), aw_environment := text_or info ''runtimeEnvironment'' ''container'',
     aw_method := text_column (js_get info ''executionMethod''), aw_model := text_column (js_get info ''model''),
     aw_fallbacks := json_column (js_get info ''modelFallbacks''), aw_overrides := json_column (js_get info ''modelOverrides''),
     aw_skills := skills_column (js_get info ''skills''), aw_env := json_column (js_get info ''env''),
     aw_limits := json_column (js_get info ''resourceLimits'')\<rparr>"

text \<open>The observation is moved around the change of the key.\<close>

definition rekeyUsernameMatchedImport ::
  "ticks \<Rightarrow> uuids \<Rightarrow> string \<Rightarrow> agent_row \<Rightarrow> jsobj \<Rightarrow> bool \<Rightarrow> bool \<Rightarrow> agent_store \<Rightarrow> agent_error + agent_store" where
  "rekeyUsernameMatchedImport clock uuid actor existing info desired operator db =
     (let a = field_text info ''id''; old = aw_id existing; v = aw_version existing + 1;
          observed = getObservation old db;
          others = sql_delete (\<lambda>q. ow_agent q = old) (as_observations db)
      in if list_ex (\<lambda>q. aw_id q \<noteq> old \<and> (aw_id q = a \<or> aw_username q = field_text info ''username'')) (as_agents db) then Inl UniqueColumn
         else writeEvent (clock 1) (uuid 0) a EvUpdated v actor (Some ''username-id-drift-import'')
           (JObj [(''previousId'', JStr old), (''id'', js_get info ''id''), (''username'', js_get info ''username'')])
           (db\<lparr>as_agents := sql_update (\<lambda>q. aw_id q = old)
                 (\<lambda>q. (imported_row info q)\<lparr>aw_desired := desired, aw_operator := operator, aw_version := v, aw_updated := clock 0\<rparr>)
                 (as_agents db),
               as_events := sql_update (\<lambda>e. ew_agent e = old) (\<lambda>e. e\<lparr>ew_agent := a\<rparr>) (as_events db),
               as_observations := (case observed of None \<Rightarrow> as_observations db | Some q \<Rightarrow> others @ [q\<lparr>ow_agent := a\<rparr>])\<rparr>))"

definition import_spec :: "jsobj \<Rightarrow> bool \<Rightarrow> bool \<Rightarrow> agent_spec" where
  "import_spec info desired operator = \<lparr>cs_id = text_column (js_get info ''id''), cs_username = field_text info ''username'',
     cs_email = text_column (js_get info ''email''), cs_name = field_text info ''name'', cs_role = text_column (js_get info ''role''),
     cs_team = text_column (js_get info ''team''), cs_environment = text_column (js_get info ''runtimeEnvironment''),
     cs_method = text_column (js_get info ''executionMethod''), cs_model = text_column (js_get info ''model''),
     cs_fallbacks = js_get info ''modelFallbacks'', cs_overrides = js_get info ''modelOverrides'',
     cs_skills = js_get info ''skills'', cs_env = js_get info ''env'', cs_limits = js_get info ''resourceLimits'',
     cs_desired = desired, cs_operator = operator\<rparr>"

text \<open>Whether a set of identifiers or usernames names the record, or the row that it renames.\<close>

definition named_in :: "string list \<Rightarrow> jsobj \<Rightarrow> string option \<Rightarrow> bool" where
  "named_in names info previous \<longleftrightarrow> field_text info ''id'' \<in> set names \<or> field_text info ''username'' \<in> set names
     \<or> (case previous of None \<Rightarrow> False | Some a \<Rightarrow> a \<noteq> [] \<and> a \<in> set names)"

definition import_agent ::
  "ticks \<Rightarrow> uuids \<Rightarrow> string \<Rightarrow> string list \<Rightarrow> string list \<Rightarrow> jsobj \<Rightarrow> agent_store \<Rightarrow> agent_error + agent_store" where
  "import_agent clock uuid actor enabled disabled info db =
     (let a = field_text info ''id'';
          existing = getAgent a db;
          renamed = (if existing = None then getByUsername (field_text info ''username'') db else None);
          previous = map_option aw_id renamed;
          isDisabled = named_in disabled info previous;
          isEnabled = named_in enabled info previous
      in if existing \<noteq> None
         then and_then (setOperatorDisabled clock uuid actor a isDisabled (Some ''import'') db)
                (setDesiredEnabled (\<lambda>k. clock (k + 2)) (\<lambda>k. uuid (k + 1)) actor a (isEnabled \<and> \<not> isDisabled) False)
         else case renamed of
           Some r \<Rightarrow> rekeyUsernameMatchedImport clock uuid actor r info (isEnabled \<and> \<not> isDisabled) isDisabled db
         | None \<Rightarrow> and_then (createAgent clock uuid actor (import_spec info (isEnabled \<and> \<not> isDisabled) isDisabled) db)
             (\<lambda>(db', r). Inr db'))"

fun import_agents ::
  "ticks \<Rightarrow> uuids \<Rightarrow> string \<Rightarrow> string list \<Rightarrow> string list \<Rightarrow> jsobj list \<Rightarrow> agent_store \<Rightarrow> agent_error + agent_store" where
  "import_agents clock uuid actor enabled disabled [] db = Inr db"
| "import_agents clock uuid actor enabled disabled (info # infos) db =
     and_then (import_agent clock uuid actor enabled disabled info db)
       (import_agents (\<lambda>k. clock (k + 4)) (\<lambda>k. uuid (k + 2)) actor enabled disabled infos)"

definition orphan_flags :: "jsobj list \<Rightarrow> string list \<Rightarrow> string list \<Rightarrow> agent_store \<Rightarrow> string list" where
  "orphan_flags infos enabled disabled db =
     (let drifted = List.map_filter (\<lambda>i. map_option aw_id (getByUsername (field_text i ''username'') db)) infos
      in filter (\<lambda>x. x \<notin> (\<lambda>i. field_text i ''id'') ` set infos \<and> x \<notin> (\<lambda>i. field_text i ''username'') ` set infos \<and> x \<notin> set drifted)
           (enabled @ disabled))"

definition importFromJson ::
  "ticks \<Rightarrow> uuids \<Rightarrow> jsobj list \<Rightarrow> string list \<Rightarrow> string list \<Rightarrow> string \<Rightarrow> agent_store \<Rightarrow>
   agent_error + agent_store \<times> nat \<times> string list" where
  "importFromJson clock uuid infos enabled disabled actor db =
     and_then (import_agents clock uuid actor enabled disabled infos db) (\<lambda>db'.
     Inr (db', length infos, orphan_flags infos enabled disabled db))"

subsection \<open>Export\<close>

definition opt_json :: "jsval \<Rightarrow> string option \<Rightarrow> jsval" where
  "opt_json absent s = (case s of None \<Rightarrow> absent | Some t \<Rightarrow> JStr t)"

definition parse_column :: "(string \<Rightarrow> jsval option) \<Rightarrow> jsval \<Rightarrow> string option \<Rightarrow> agent_error + jsval" where
  "parse_column parse absent c = (case c of None \<Rightarrow> Inr absent | Some t \<Rightarrow>
     if t = [] then Inr absent else case parse t of None \<Rightarrow> Inl BadColumn | Some v \<Rightarrow> Inr v)"

definition export_row :: "(string \<Rightarrow> jsval option) \<Rightarrow> agent_row \<Rightarrow> agent_error + jsobj" where
  "export_row parse r =
     and_then (parse_column parse JUndef (aw_fallbacks r)) (\<lambda>fallbacks.
     and_then (parse_column parse JUndef (aw_overrides r)) (\<lambda>overrides.
     and_then (parse_column parse (JArr []) (Some (aw_skills r))) (\<lambda>skills.
     and_then (parse_column parse JUndef (aw_env r)) (\<lambda>env.
     and_then (parse_column parse JUndef (aw_limits r)) (\<lambda>limits.
     Inr [(''id'', JStr (aw_id r)), (''username'', JStr (aw_username r)), (''email'', opt_json (JStr []) (aw_email r)),
       (''name'', JStr (aw_name r)), (''role'', opt_json JNull (aw_role r)), (''team'', opt_json JNull (aw_team r)),
       (''runtimeEnvironment'', JStr (aw_environment r)), (''executionMethod'', opt_json JUndef (aw_method r)),
       (''model'', opt_json JUndef (aw_model r)), (''modelFallbacks'', fallbacks), (''modelOverrides'', overrides),
       (''skills'', skills), (''env'', env), (''resourceLimits'', limits),
       (''desiredEnabled'', JBool (aw_desired r)), (''operatorDisabled'', JBool (aw_operator r))])))))"

definition exportToJson :: "(string \<Rightarrow> jsval option) \<Rightarrow> agent_store \<Rightarrow> agent_error + jsobj list" where
  "exportToJson parse db = map_throw (export_row parse) (listAgents db)"

definition or_value :: "jsval \<Rightarrow> jsval \<Rightarrow> jsval" where
  "or_value v other = (if nullish v then other else v)"

definition spread_props :: "jsobj \<Rightarrow> jsobj \<Rightarrow> jsobj" where
  "spread_props base props = foldl (\<lambda>ob p. js_put ob (fst p) (snd p)) base props"

definition row_props :: "jsobj \<Rightarrow> jsobj" where
  "row_props row = [(''id'', js_get row ''id''), (''username'', js_get row ''username''),
     (''email'', or_value (js_get row ''email'') (JStr [])), (''name'', js_get row ''name''),
     (''role'', or_value (js_get row ''role'') JNull), (''team'', or_value (js_get row ''team'') JNull),
     (''runtimeEnvironment'', js_get row ''runtimeEnvironment''), (''executionMethod'', js_get row ''executionMethod''),
     (''model'', js_get row ''model''), (''modelFallbacks'', js_get row ''modelFallbacks''),
     (''modelOverrides'', js_get row ''modelOverrides''), (''skills'', or_value (js_get row ''skills'') (JArr [])),
     (''env'', js_get row ''env''), (''resourceLimits'', js_get row ''resourceLimits'')]"

definition mergeRow :: "jsobj \<Rightarrow> jsobj \<Rightarrow> jsobj" where
  "mergeRow base row = spread_props base (row_props row)"

definition row_for :: "jsobj list \<Rightarrow> jsobj \<Rightarrow> jsobj option" where
  "row_for rows info = (case find (\<lambda>row. js_get row ''id'' = js_get info ''id'') rows of
      Some row \<Rightarrow> Some row | None \<Rightarrow> find (\<lambda>row. js_get row ''username'' = js_get info ''username'') rows)"

definition new_base :: "jsobj \<Rightarrow> jsobj" where
  "new_base row = [(''id'', js_get row ''id''), (''username'', js_get row ''username''), (''name'', js_get row ''name''),
     (''email'', or_value (js_get row ''email'') (JStr [])), (''role'', or_value (js_get row ''role'') JNull),
     (''status'', JStr ''disabled''), (''mcpServers'', JArr []), (''personalityTraits'', JObj []), (''skills'', JArr [])]"

definition merge_rows :: "jsobj list \<Rightarrow> jsobj list \<Rightarrow> jsobj list" where
  "merge_rows rows infos =
     (let used = List.map_filter (\<lambda>i. map_option (\<lambda>row. js_get row ''id'') (row_for rows i)) infos
      in map (\<lambda>i. case row_for rows i of None \<Rightarrow> i | Some row \<Rightarrow> mergeRow i row) infos
         @ map (\<lambda>row. mergeRow (new_base row) row) (filter (\<lambda>row. js_get row ''id'' \<notin> set used) rows))"

definition exportMergedAgentsJson :: "(string \<Rightarrow> jsval option) \<Rightarrow> jsobj list \<Rightarrow> agent_store \<Rightarrow> agent_error + jsobj list" where
  "exportMergedAgentsJson parse infos db = and_then (exportToJson parse db) (\<lambda>rows. Inr (merge_rows rows infos))"

subsection \<open>The mirror of agents.json\<close>

definition store_owned_fields :: "string list" where
  "store_owned_fields = [''username'', ''email'', ''name'', ''role'', ''team'', ''runtimeEnvironment'', ''executionMethod'',
     ''model'', ''modelFallbacks'', ''modelOverrides'', ''skills'', ''env'', ''resourceLimits'']"

definition agentInfoPatchToStorePatch :: "jsobj \<Rightarrow> jsobj" where
  "agentInfoPatchToStorePatch updates =
     map (\<lambda>f. (f, js_get updates f)) (filter (\<lambda>f. f \<in> fst ` set updates) store_owned_fields)"

text \<open>\<open>a ?? b ?? c\<close> over fields that hold texts.\<close>

fun first_given :: "jsval list \<Rightarrow> string" where
  "first_given [] = []"
| "first_given (v # vs) = (case v of JStr s \<Rightarrow> s | _ \<Rightarrow> first_given vs)"

definition agentInfoToCreateSpec :: "jsobj \<Rightarrow> bool option \<Rightarrow> bool option \<Rightarrow> agent_spec" where
  "agentInfoToCreateSpec info desired operator =
     (let username = first_given [js_get info ''username'', js_get info ''name'', js_get info ''id''] in
      \<lparr>cs_id = text_column (js_get info ''id''), cs_username = username, cs_email = Some (text_or info ''email'' []),
       cs_name = text_or info ''name'' username, cs_role = text_column (js_get info ''role''),
       cs_team = text_column (js_get info ''team''), cs_environment = Some (text_or info ''runtimeEnvironment'' ''container''),
       cs_method = text_column (js_get info ''executionMethod''), cs_model = text_column (js_get info ''model''),
       cs_fallbacks = js_get info ''modelFallbacks'', cs_overrides = js_get info ''modelOverrides'',
       cs_skills = or_value (js_get info ''skills'') (JArr []), cs_env = or_value (js_get info ''env'') JNull,
       cs_limits = js_get info ''resourceLimits'',
       cs_desired = (case desired of None \<Rightarrow> js_get info ''status'' \<noteq> JStr ''disabled'' | Some b \<Rightarrow> b),
       cs_operator = (case operator of None \<Rightarrow> False | Some b \<Rightarrow> b)\<rparr>)"

definition applyAgentPatchToStore ::
  "ticks \<Rightarrow> uuids \<Rightarrow> string \<Rightarrow> string \<Rightarrow> jsobj \<Rightarrow> jsobj \<Rightarrow> agent_store \<Rightarrow> agent_error + agent_store \<times> bool" where
  "applyAgentPatchToStore clock uuid actor a updates merged db =
     (let p = agentInfoPatchToStorePatch updates in
      if p = [] then Inr (db, False)
      else case updateAgent clock uuid actor a p None db of
        Inr db' \<Rightarrow> Inr (db', True)
      | Inl (UnknownAgent _) \<Rightarrow> and_then (createAgent clock uuid actor (agentInfoToCreateSpec merged None None) db) (\<lambda>(db', r). Inr (db', True))
      | Inl e \<Rightarrow> Inl e)"

definition mirrorAgentPatch ::
  "ticks \<Rightarrow> uuids \<Rightarrow> string \<Rightarrow> string \<Rightarrow> jsobj \<Rightarrow> jsobj \<Rightarrow> agent_store option \<Rightarrow> agent_store option" where
  "mirrorAgentPatch clock uuid actor a updates merged store =
     (case store of None \<Rightarrow> None
      | Some db \<Rightarrow> (case applyAgentPatchToStore clock uuid actor a updates merged db of Inl e \<Rightarrow> Some db | Inr (db', b) \<Rightarrow> Some db'))"

end
