(* ===== verification/AgentStateFacts.thy ===== *)
theory AgentStateFacts
  imports AgentState
begin

text \<open>
  What holds of the store of the desired state over its runs: identifiers and usernames are
  unique, the version of a row is that of its last event, versions only grow, the log only
  grows, and the kill switch of an agent stays until it is released on purpose.
\<close>

subsection \<open>Runs\<close>

text \<open>
  A step names the agents whose kill switch its caller releases and the identifiers whose row
  it takes away.
\<close>

definition renamed_row :: "jsobj \<Rightarrow> agent_store \<Rightarrow> agent_row option" where
  "renamed_row info db = (if getAgent (field_text info ''id'') db = None then getByUsername (field_text info ''username'') db else None)"

inductive agent_step :: "string set \<Rightarrow> string set \<Rightarrow> agent_store \<Rightarrow> agent_store \<Rightarrow> bool" where
  op_create: "createAgent clock uuid actor spec db = Inr (db', r) \<Longrightarrow> agent_step {} {} db db'"
| op_update: "updateAgent clock uuid actor a p expected db = Inr db' \<Longrightarrow> agent_step {} {} db db'"
| op_desired: "setDesiredEnabled clock uuid actor a enabled override db = Inr db' \<Longrightarrow>
    agent_step (if enabled \<and> override then {a} else {}) {} db db'"
| op_lifecycle: "setLifecycleState clock uuid actor a s override db = Inr db' \<Longrightarrow>
    agent_step (if s = OperatorStopped \<or> s = Enabled \<and> \<not> override then {} else {a}) {} db db'"
| op_operator: "setOperatorDisabled clock uuid actor a disabled reason db = Inr db' \<Longrightarrow>
    agent_step (if disabled then {} else {a}) {} db db'"
| op_delete: "deleteAgent clock uuid actor a db = Inr db' \<Longrightarrow> agent_step {} {a} db db'"
| op_event: "recordStateEvent clock uuid a type actor reason payload db = Inr db' \<Longrightarrow> agent_step {} {} db db'"
| op_observation: "recordObservation clock a obs db = Inr db' \<Longrightarrow> agent_step {} {} db db'"
| op_import: "import_agent clock uuid actor enabled disabled info db = Inr db' \<Longrightarrow>
    agent_step (if named_in disabled info None then {} else {field_text info ''id''}) (set_option (map_option aw_id (renamed_row info db))) db db'"

inductive agent_run :: "string set \<Rightarrow> string set \<Rightarrow> agent_store \<Rightarrow> agent_store \<Rightarrow> bool" for released removed where
  agent_start: "agent_run released removed db db"
| agent_next: "agent_run released removed db db' \<Longrightarrow> agent_step l m db' db'' \<Longrightarrow> l \<subseteq> released \<Longrightarrow> m \<subseteq> removed \<Longrightarrow>
    agent_run released removed db db''"

subsection \<open>The invariant\<close>

definition last_version :: "string \<Rightarrow> agent_store \<Rightarrow> int option" where
  "last_version a db = (case rev (listEvents a db) of [] \<Rightarrow> None | e # es \<Rightarrow> Some (ew_version e))"

definition agents_ok :: "agent_store \<Rightarrow> bool" where
  "agents_ok db \<longleftrightarrow> distinct (map aw_id (as_agents db)) \<and> distinct (map aw_username (as_agents db))
     \<and> distinct (map ew_id (as_events db)) \<and> distinct (map ow_agent (as_observations db))
     \<and> (\<forall>q \<in> set (as_observations db). ow_agent q \<in> aw_id ` set (as_agents db))
     \<and> (\<forall>r \<in> set (as_agents db). last_version (aw_id r) db = Some (aw_version r))"

definition event_core :: "event_row \<Rightarrow> event_row" where
  "event_core e = e\<lparr>ew_agent := []\<rparr>"

definition row_stays :: "string set \<Rightarrow> agent_row \<Rightarrow> agent_row \<Rightarrow> bool" where
  "row_stays released r r' \<longleftrightarrow> aw_id r' = aw_id r \<and> aw_version r \<le> aw_version r'
     \<and> (aw_operator r \<and> aw_id r \<notin> released \<longrightarrow> aw_operator r')"

definition rows_stay :: "string set \<Rightarrow> string set \<Rightarrow> agent_store \<Rightarrow> agent_store \<Rightarrow> bool" where
  "rows_stay released removed db db' \<longleftrightarrow>
     (\<forall>r \<in> set (as_agents db). aw_id r \<notin> removed \<longrightarrow> (\<exists>r' \<in> set (as_agents db'). row_stays released r r'))"

definition log_grows :: "agent_store \<Rightarrow> agent_store \<Rightarrow> bool" where
  "log_grows db db' \<longleftrightarrow> (\<exists>es. map event_core (as_events db') = map event_core (as_events db) @ es)"

definition agents_kept :: "string set \<Rightarrow> string set \<Rightarrow> agent_store \<Rightarrow> agent_store \<Rightarrow> bool" where
  "agents_kept released removed db db' \<longleftrightarrow>
     (agents_ok db \<longrightarrow> agents_ok db' \<and> rows_stay released removed db db' \<and> log_grows db db')"

lemma row_stays_same [simp]: "row_stays released r r"
  by (simp add: row_stays_def)

lemma kept_refl [simp]: "agents_kept released removed db db"
  by (auto simp: agents_kept_def rows_stay_def log_grows_def intro: row_stays_same)

lemma row_stays_trans: "row_stays released r q \<Longrightarrow> row_stays released q p \<Longrightarrow> row_stays released r p"
  by (auto simp: row_stays_def)

lemma rows_stay_trans: "rows_stay released removed db db' \<Longrightarrow> rows_stay released removed db' db'' \<Longrightarrow> rows_stay released removed db db''"
proof -
  assume a: "rows_stay released removed db db'" and b: "rows_stay released removed db' db''"
  show ?thesis unfolding rows_stay_def
  proof (intro ballI impI)
    fix r assume r: "r \<in> set (as_agents db)" "aw_id r \<notin> removed"
    then obtain q where q: "q \<in> set (as_agents db')" "row_stays released r q" using a by (auto simp: rows_stay_def)
    then have "aw_id q \<notin> removed" using r(2) by (simp add: row_stays_def)
    then obtain p where "p \<in> set (as_agents db'')" "row_stays released q p" using b q(1) by (auto simp: rows_stay_def)
    then show "\<exists>r' \<in> set (as_agents db''). row_stays released r r'" using q(2) row_stays_trans by blast
  qed
qed

lemma log_grows_trans: "log_grows db db' \<Longrightarrow> log_grows db' db'' \<Longrightarrow> log_grows db db''"
  unfolding log_grows_def by (elim exE) simp

lemma kept_trans: "agents_kept released removed db db' \<Longrightarrow> agents_kept released removed db' db'' \<Longrightarrow> agents_kept released removed db db''"
  unfolding agents_kept_def using rows_stay_trans log_grows_trans by blast

lemma kept_more: "agents_kept l m db db' \<Longrightarrow> l \<subseteq> released \<Longrightarrow> m \<subseteq> removed \<Longrightarrow> agents_kept released removed db db'"
  unfolding agents_kept_def rows_stay_def row_stays_def by (meson subsetD)

lemma writeEvent_Inr: "writeEvent now i a type v actor reason payload db = Inr db' \<longleftrightarrow> i \<notin> ew_id ` set (as_events db) \<and>
    db' = db\<lparr>as_events := as_events db @ [\<lparr>ew_id = i, ew_agent = a, ew_type = type, ew_version = v, ew_actor = actor,
      ew_reason = reason, ew_payload = json_column payload, ew_created = now\<rparr>]\<rparr>"
  by (auto simp: writeEvent_def list_ex_iff)

lemma set_agent_parts [simp]: "as_events (set_agent a f db) = as_events db" "as_observations (set_agent a f db) = as_observations db"
    "as_agents (set_agent a f db) = sql_update (\<lambda>r. aw_id r = a) f (as_agents db)"
  by (simp_all add: set_agent_def)

lemma getAgent_set:
  assumes "getAgent a db = Some r" "\<And>q. aw_id (f q) = aw_id q"
  shows "getAgent a (set_agent a f db) = Some (f r)"
proof -
  have "find (\<lambda>q. aw_id q = a) rows = Some r \<Longrightarrow> find (\<lambda>q. aw_id q = a) (sql_update (\<lambda>q. aw_id q = a) f rows) = Some (f r)" for rows
    using assms(2) by (induction rows) (auto simp: sql_update_def split: if_splits)
  then show ?thesis using assms(1) by (simp add: getAgent_def)
qed

lemma getAgent_event: "writeEvent now i b type v actor reason payload db = Inr db' \<Longrightarrow> getAgent a db' = getAgent a db"
  by (auto simp: writeEvent_Inr getAgent_def)

lemma getAgent_Some: "agents_ok db \<Longrightarrow> getAgent a db = Some r \<longleftrightarrow> r \<in> set (as_agents db) \<and> aw_id r = a"
  unfolding getAgent_def by (rule find_key) (simp add: agents_ok_def)

lemma getByUsername_Some: "agents_ok db \<Longrightarrow> getByUsername u db = Some r \<longleftrightarrow> r \<in> set (as_agents db) \<and> aw_username r = u"
  unfolding getByUsername_def by (rule find_key) (simp add: agents_ok_def)

lemma getAgent_None: "getAgent a db = None \<longleftrightarrow> a \<notin> aw_id ` set (as_agents db)"
  by (auto simp: getAgent_def find_None_iff)

text \<open>An event of one agent: the last version of the others is as before.\<close>

lemma last_version_event:
  assumes "as_events db' = as_events db @ [e]"
  shows "last_version b db' = (if ew_agent e = b then Some (ew_version e) else last_version b db)"
  using assms by (simp add: last_version_def listEvents_def)

lemma log_grows_event: "as_events db' = as_events db @ es \<Longrightarrow> log_grows db db'"
  by (simp add: log_grows_def)

text \<open>A step that writes one event and changes the row of its agent in place.\<close>

lemma kept_set_agent:
  assumes "getAgent a db = Some r" "writeEvent now i a type v actor reason payload (set_agent a f db) = Inr db'"
    "\<And>q. aw_id (f q) = aw_id q \<and> aw_username (f q) = aw_username q \<and> aw_version (f q) = v"
    "aw_version r \<le> v" "aw_operator r \<Longrightarrow> a \<notin> released \<Longrightarrow> aw_operator (f r)"
  shows "agents_kept released {} db db'"
  unfolding agents_kept_def
proof
  assume ok: "agents_ok db"
  have one: "q = r" if "q \<in> set (as_agents db)" "aw_id q = a" for q
    using assms(1) iffD2 [OF getAgent_Some [OF ok] conjI [OF that]] by simp
  define e where "e = \<lparr>ew_id = i, ew_agent = a, ew_type = type, ew_version = v, ew_actor = actor, ew_reason = reason,
     ew_payload = json_column payload, ew_created = now\<rparr>"
  have db': "db' = set_agent a f db\<lparr>as_events := as_events db @ [e]\<rparr>" "i \<notin> ew_id ` set (as_events db)"
    using assms(2) by (auto simp: writeEvent_Inr set_agent_def e_def)
  have rows: "as_agents db' = sql_update (\<lambda>q. aw_id q = a) f (as_agents db)" "as_events db' = as_events db @ [e]"
      "as_observations db' = as_observations db" using db' by (simp_all add: set_agent_def)
  have keys: "map aw_id (as_agents db') = map aw_id (as_agents db)" "map aw_username (as_agents db') = map aw_username (as_agents db)"
    unfolding rows by (rule map_sql_update; use assms(3) in simp)+
  have "last_version (aw_id q) db' = Some (aw_version q)" if q: "q \<in> set (as_agents db')" for q
  proof -
    obtain p where p: "p \<in> set (as_agents db)" "q = (if aw_id p = a then f p else p)"
      using q unfolding rows(1) set_sql_update by blast
    have "last_version (aw_id p) db = Some (aw_version p)" using ok p(1) by (simp add: agents_ok_def)
    moreover have "ew_agent e = a" "ew_version e = v" by (simp_all add: e_def)
    ultimately show ?thesis unfolding last_version_event [OF rows(2)] p(2) using assms(3) [of p] by simp
  qed
  moreover have "aw_id ` set (as_agents db') = aw_id ` set (as_agents db)" using keys(1) by (metis list.set_map)
  moreover have "distinct (map ew_id (as_events db'))" using ok db'(2) by (simp add: rows(2) agents_ok_def e_def)
  ultimately have "agents_ok db'" using ok unfolding agents_ok_def keys rows(3) by blast
  moreover have "row_stays released q (if aw_id q = a then f q else q)" if "q \<in> set (as_agents db)" for q
    using one [OF that] assms(3-5) by (auto simp: row_stays_def)
  then have "rows_stay released {} db db'" unfolding rows_stay_def rows(1) set_sql_update by blast
  ultimately show "agents_ok db' \<and> rows_stay released {} db db' \<and> log_grows db db'" using log_grows_event [OF rows(2)] by blast
qed

subsection \<open>Every operation keeps it\<close>

lemma kept_update:
  assumes "updateAgent clock uuid actor a p expected db = Inr db'"
  shows "agents_kept {} {} db db'"
proof -
  obtain r where r: "getAgent a db = Some r" using assms by (auto simp: updateAgent_def split: option.splits)
  let ?f = "\<lambda>q. (patched_row p q)\<lparr>aw_version := aw_version r + 1, aw_updated := clock 0\<rparr>"
  have w: "writeEvent (clock 1) (uuid 0) a EvUpdated (aw_version r + 1) actor None
      (JObj [(''fields'', JArr (map JStr (patched_columns p)))]) (set_agent a ?f db) = Inr db'"
    using assms r unfolding updateAgent_def option.case(2) by (simp split: if_splits)
  show ?thesis by (rule kept_set_agent [OF r w]) (simp_all add: patched_row_def)
qed

lemma kept_desired:
  assumes "setDesiredEnabled clock uuid actor a enabled override db = Inr db'"
  shows "agents_kept (if enabled \<and> override then {a} else {}) {} db db'"
proof -
  obtain r where r: "getAgent a db = Some r" using assms by (auto simp: setDesiredEnabled_def split: option.splits)
  note w = assms [unfolded setDesiredEnabled_def r option.case(2) Let_def]
  show ?thesis by (rule kept_set_agent [OF r w]) auto
qed

lemma kept_lifecycle:
  assumes "setLifecycleState clock uuid actor a s override db = Inr db'"
  shows "agents_kept (if s = OperatorStopped \<or> s = Enabled \<and> \<not> override then {} else {a}) {} db db'"
proof -
  obtain r where r: "getAgent a db = Some r" using assms by (auto simp: setLifecycleState_def split: option.splits)
  have e: "\<not> (s = Enabled \<and> aw_operator r \<and> \<not> override)" using assms r by (auto simp: setLifecycleState_def split: if_splits)
  show ?thesis
  proof (cases "aw_desired r = (s = Enabled) \<and> aw_operator r = (s = OperatorStopped) \<and> aw_status r = lifecycle_text s")
    case True
    then have "db' = db" using assms r e unfolding setLifecycleState_def option.case(2) by (simp split: if_splits)
    then show ?thesis by simp
  next
    case False
    note w = assms [unfolded setLifecycleState_def r option.case(2) if_not_P [OF e] if_not_P [OF False]]
    show ?thesis by (rule kept_set_agent [OF r w]) (use e in \<open>auto split: if_splits\<close>)
  qed
qed

lemma kept_operator:
  assumes "setOperatorDisabled clock uuid actor a disabled reason db = Inr db'"
  shows "agents_kept (if disabled then {} else {a}) {} db db'"
proof -
  obtain r where r: "getAgent a db = Some r" using assms by (auto simp: setOperatorDisabled_def split: option.splits)
  note w = assms [unfolded setOperatorDisabled_def r option.case(2)]
  show ?thesis by (rule kept_set_agent [OF r w]) (auto split: if_splits)
qed

text \<open>An event at the version of its agent, or of an agent without a row.\<close>

lemma kept_event:
  assumes "writeEvent now i a type v actor reason payload db = Inr db'" "\<And>r. r \<in> set (as_agents db) \<Longrightarrow> aw_id r = a \<Longrightarrow> aw_version r = v"
  shows "agents_kept {} {} db db'"
proof -
  obtain e where e: "as_agents db' = as_agents db" "as_observations db' = as_observations db" "as_events db' = as_events db @ [e]"
      "ew_agent e = a" "ew_version e = v" "ew_id e \<notin> ew_id ` set (as_events db)"
    using assms(1) by (auto simp: writeEvent_Inr)
  have "rows_stay {} {} db db'" unfolding rows_stay_def e(1) by (auto intro: row_stays_same)
  moreover have "agents_ok db'" if "agents_ok db"
    using that assms(2) e(4-6) unfolding agents_ok_def e(1-3) last_version_event [OF e(3)] by auto
  ultimately show ?thesis using log_grows_event [OF e(3)] by (simp add: agents_kept_def)
qed

lemma kept_state_event:
  assumes "recordStateEvent clock uuid a type actor reason payload db = Inr db'"
  shows "agents_kept {} {} db db'"
proof -
  obtain r where r: "getAgent a db = Some r" using assms by (auto simp: recordStateEvent_def split: option.splits)
  note w = assms [unfolded recordStateEvent_def r option.case(2)]
  have "agents_kept {} {} db db'" if "agents_ok db"
  proof (rule kept_event [OF w])
    fix q assume "q \<in> set (as_agents db)" "aw_id q = a"
    then have "getAgent a db = Some q" by (simp add: getAgent_Some [OF that])
    then show "aw_version q = aw_version r" using r by simp
  qed
  then show ?thesis by (simp add: agents_kept_def)
qed

text \<open>Rows that go away, and a new row.\<close>

lemma kept_delete:
  assumes "deleteAgent clock uuid actor a db = Inr db'"
  shows "agents_kept {} {a} db db'"
proof -
  obtain r where r: "getAgent a db = Some r" using assms by (auto simp: deleteAgent_def split: option.splits)
  define db1 where "db1 = db\<lparr>as_agents := sql_delete (\<lambda>q. aw_id q = a) (as_agents db),
     as_observations := sql_delete (\<lambda>q. ow_agent q = a) (as_observations db)\<rparr>"
  note w = assms [unfolded deleteAgent_def r option.case(2), folded db1_def]
  have "agents_kept {} {a} db db1"
    unfolding agents_kept_def agents_ok_def rows_stay_def log_grows_def last_version_def listEvents_def db1_def
    by (auto simp: sql_delete_def distinct_map_filter intro: row_stays_same)
  moreover have "agents_kept {} {} db1 db'" by (rule kept_event [OF w]) (auto simp: db1_def sql_delete_def)
  ultimately show ?thesis using kept_trans kept_more by blast
qed

lemma kept_insert:
  assumes "insert_agent r db = Inr db1" "writeEvent now i (aw_id r) type (aw_version r) actor reason payload db1 = Inr db'"
  shows "agents_kept {} {} db db'"
  unfolding agents_kept_def
proof
  assume ok: "agents_ok db"
  have new: "\<forall>q \<in> set (as_agents db). aw_id q \<noteq> aw_id r \<and> aw_username q \<noteq> aw_username r" "db1 = db\<lparr>as_agents := as_agents db @ [r]\<rparr>"
    using assms(1) by (auto simp: insert_agent_def list_ex_iff split: if_splits)
  obtain e where e: "as_agents db' = as_agents db @ [r]" "as_observations db' = as_observations db" "as_events db' = as_events db @ [e]"
      "ew_agent e = aw_id r" "ew_version e = aw_version r" "ew_id e \<notin> ew_id ` set (as_events db)"
    using assms(2) new(2) by (auto simp: writeEvent_Inr)
  have "rows_stay {} {} db db'" unfolding rows_stay_def e(1) by (auto intro: row_stays_same)
  moreover have "agents_ok db'"
    using ok new(1) e(4-6) unfolding agents_ok_def e(1-3) last_version_event [OF e(3)] by auto
  ultimately show "agents_ok db' \<and> rows_stay {} {} db db' \<and> log_grows db db'" using log_grows_event [OF e(3)] by blast
qed

lemma kept_create:
  assumes "createAgent clock uuid actor spec db = Inr (db', r)"
  shows "agents_kept {} {} db db'"
proof -
  obtain db1 n where c: "insert_agent r db = Inr db1"
      "writeEvent (clock 1) (uuid n) (aw_id r) EvCreated (aw_version r) actor None (JObj [(''username'', JStr (cs_username spec))]) db1 = Inr db'"
    using assms by (fastforce simp: createAgent_def Let_def and_then_Inr spec_row_def)
  then show ?thesis by (rule kept_insert)
qed

lemma kept_observation:
  assumes "recordObservation clock a obs db = Inr db'"
  shows "agents_kept {} {} db db'"
proof -
  let ?new = "\<lparr>ow_agent = a, ow_item = obs, ow_seen = clock 0\<rparr>"
  have d: "a \<in> aw_id ` set (as_agents db)" "db' = db\<lparr>as_observations := (if list_ex (\<lambda>q. ow_agent q = a) (as_observations db)
      then sql_update (\<lambda>q. ow_agent q = a) (\<lambda>q. ?new) (as_observations db) else as_observations db @ [?new])\<rparr>"
    using assms getAgent_None [of a db] by (auto simp: recordObservation_def Let_def split: if_splits)
  have "map ow_agent (sql_update (\<lambda>q. ow_agent q = a) (\<lambda>q. ?new) (as_observations db)) = map ow_agent (as_observations db)"
    by (simp add: sql_update_def)
  then show ?thesis using d unfolding agents_kept_def agents_ok_def rows_stay_def log_grows_def last_version_def listEvents_def
    by (auto simp: list_ex_iff set_sql_update intro: row_stays_same)
qed

lemma rekeyed_events: "b \<noteq> old \<Longrightarrow> b \<noteq> a \<Longrightarrow>
    filter (\<lambda>e. ew_agent e = b) (sql_update (\<lambda>e. ew_agent e = old) (\<lambda>e. e\<lparr>ew_agent := a\<rparr>) es) = filter (\<lambda>e. ew_agent e = b) es"
  by (induction es) (auto simp: sql_update_def)

lemma kept_rekey:
  assumes "rekeyUsernameMatchedImport clock uuid actor r info desired operator db = Inr db'"
    "r \<in> set (as_agents db)" "getAgent (field_text info ''id'') db = None"
  shows "agents_kept {} {aw_id r} db db'"
  unfolding agents_kept_def
proof
  assume ok: "agents_ok db"
  let ?a = "field_text info ''id''"
  define f where "f = (\<lambda>q. (imported_row info q)\<lparr>aw_desired := desired, aw_operator := operator, aw_version := aw_version r + 1,
     aw_updated := clock 0\<rparr>)"
  define moved where "moved = (case getObservation (aw_id r) db of None \<Rightarrow> as_observations db
     | Some q \<Rightarrow> sql_delete (\<lambda>q. ow_agent q = aw_id r) (as_observations db) @ [q\<lparr>ow_agent := ?a\<rparr>])"
  have f: "aw_id (f q) = ?a" "aw_username (f q) = field_text info ''username''" "aw_version (f q) = aw_version r + 1" for q
    by (simp_all add: f_def imported_row_def)
  have absent: "?a \<notin> aw_id ` set (as_agents db)" using assms(3) by (simp add: getAgent_None)
  then have fresh: "?a \<noteq> aw_id r" using assms(2) by blast
  have others: "aw_username q \<noteq> field_text info ''username''" if "q \<in> set (as_agents db)" "aw_id q \<noteq> aw_id r" for q
    using assms(1) that by (auto simp: rekeyUsernameMatchedImport_def Let_def list_ex_iff split: if_splits)
  obtain e where e: "as_agents db' = sql_update (\<lambda>q. aw_id q = aw_id r) f (as_agents db)" "as_observations db' = moved"
      "as_events db' = sql_update (\<lambda>e. ew_agent e = aw_id r) (\<lambda>e. e\<lparr>ew_agent := ?a\<rparr>) (as_events db) @ [e]"
      "ew_agent e = ?a" "ew_version e = aw_version r + 1"
      "ew_id e \<notin> ew_id ` set (sql_update (\<lambda>e. ew_agent e = aw_id r) (\<lambda>e. e\<lparr>ew_agent := ?a\<rparr>) (as_events db))"
    using assms(1) by (auto simp: rekeyUsernameMatchedImport_def Let_def writeEvent_Inr f_def moved_def split: if_splits)
  have keys: "distinct (map aw_id (as_agents db))" "distinct (map aw_username (as_agents db))" using ok by (simp_all add: agents_ok_def)
  have "aw_id q \<noteq> ?a" if "q \<in> set (as_agents db)" for q using absent imageI [OF that, of aw_id] by auto
  then have ids: "distinct (map aw_id (as_agents db'))" unfolding e(1) by (intro distinct_update_one [OF keys(1) keys(1) _ f(1)])
  have names: "distinct (map aw_username (as_agents db'))" unfolding e(1) by (rule distinct_update_one [OF keys others f(2)])
  have events: "map ew_id (sql_update (\<lambda>e. ew_agent e = aw_id r) (\<lambda>e. e\<lparr>ew_agent := ?a\<rparr>) (as_events db)) = map ew_id (as_events db)"
      "map event_core (sql_update (\<lambda>e. ew_agent e = aw_id r) (\<lambda>e. e\<lparr>ew_agent := ?a\<rparr>) (as_events db)) = map event_core (as_events db)"
    by (rule map_sql_update, simp add: event_core_def)+
  have "distinct (map ew_id (as_events db'))" using ok e(6) by (simp add: e(3) events agents_ok_def flip: set_map)
  moreover have versions: "last_version (aw_id q) db' = Some (aw_version q)" if q: "q \<in> set (as_agents db')" for q
  proof -
    obtain p where p: "p \<in> set (as_agents db)" "q = (if aw_id p = aw_id r then f p else p)"
      using q unfolding e(1) set_sql_update by blast
    show ?thesis
    proof (cases "aw_id p = aw_id r")
      case True
      then show ?thesis using p(2) f e(4,5) by (simp add: last_version_def listEvents_def e(3))
    next
      case False
      moreover have "aw_id p \<noteq> ?a" using absent imageI [OF p(1), of aw_id] by auto
      ultimately have "listEvents (aw_id p) db' = listEvents (aw_id p) db" using e(4) by (simp add: listEvents_def e(3) rekeyed_events)
      moreover have "last_version (aw_id p) db = Some (aw_version p)" using ok p(1) by (simp add: agents_ok_def)
      ultimately show ?thesis using p(2) False by (simp add: last_version_def)
    qed
  qed
  moreover have observed: "distinct (map ow_agent moved) \<and> (\<forall>q \<in> set moved. ow_agent q \<in> aw_id ` set (as_agents db'))"
  proof -
    have stay: "x \<in> aw_id ` set (as_agents db')" if "x \<in> aw_id ` set (as_agents db)" "x \<noteq> aw_id r" for x
      using that unfolding e(1) set_sql_update by (auto simp: image_iff)
    have new: "?a \<in> aw_id ` set (as_agents db')" unfolding e(1) set_sql_update image_image
      by (rule image_eqI [OF _ assms(2)]) (simp add: f(1))
    have old: "\<forall>q \<in> set (as_observations db). ow_agent q \<in> aw_id ` set (as_agents db)" "distinct (map ow_agent (as_observations db))"
      using ok by (simp_all add: agents_ok_def)
    show ?thesis
    proof (cases "getObservation (aw_id r) db")
      case None
      then have "\<forall>q \<in> set (as_observations db). ow_agent q \<noteq> aw_id r" by (simp add: getObservation_def find_None_iff)
      then show ?thesis using None old stay by (simp add: moved_def)
    next
      case (Some q)
      moreover have "?a \<notin> ow_agent ` set (as_observations db)" using old(1) absent by (metis imageE)
      ultimately show ?thesis using old stay new by (auto simp: moved_def sql_delete_def distinct_map_filter)
    qed
  qed
  ultimately have "agents_ok db'" using ids names unfolding agents_ok_def e(2) by blast
  moreover have "rows_stay {} {aw_id r} db db'" unfolding rows_stay_def e(1) set_sql_update by (force intro: row_stays_same)
  moreover have "log_grows db db'" by (simp add: log_grows_def e(3) events)
  ultimately show "agents_ok db' \<and> rows_stay {} {aw_id r} db db' \<and> log_grows db db'" by blast
qed

lemma kept_import:
  assumes "import_agent clock uuid actor enabled disabled info db = Inr db'"
  shows "agents_kept (if named_in disabled info None then {} else {field_text info ''id''}) (set_option (map_option aw_id (renamed_row info db))) db db'"
proof -
  let ?a = "field_text info ''id''" and ?l = "if named_in disabled info None then {} else {field_text info ''id''}"
  have "agents_kept ?l (set_option (map_option aw_id (renamed_row info db))) db db'" if ok: "agents_ok db"
  proof (cases "getAgent ?a db")
    case (Some r)
    let ?off = "named_in disabled info None" and ?on = "named_in enabled info None"
    obtain db1 where i: "setOperatorDisabled clock uuid actor ?a ?off (Some ''import'') db = Inr db1"
        "setDesiredEnabled (\<lambda>k. clock (k + 2)) (\<lambda>k. uuid (k + 1)) actor ?a (?on \<and> \<not> ?off) False db1 = Inr db'"
      using assms Some by (auto simp: import_agent_def Let_def and_then_Inr)
    have "agents_kept {} {} db1 db'" using kept_desired [OF i(2)] by simp
    then have "agents_kept ?l {} db db'" using kept_operator [OF i(1)] kept_trans kept_more by blast
    then show ?thesis by (rule kept_more) simp_all
  next
    case None
    note absent = this
    show ?thesis
    proof (cases "getByUsername (field_text info ''username'') db")
      case None
      then obtain r where "createAgent clock uuid actor (import_spec info (named_in enabled info None \<and> \<not> named_in disabled info None)
          (named_in disabled info None)) db = Inr (db', r)"
        using assms absent by (auto simp: import_agent_def Let_def and_then_Inr)
      then show ?thesis by (rule kept_more [OF kept_create]) simp_all
    next
      case (Some r)
      then have "rekeyUsernameMatchedImport clock uuid actor r info (named_in enabled info (Some (aw_id r)) \<and> \<not> named_in disabled info (Some (aw_id r)))
          (named_in disabled info (Some (aw_id r))) db = Inr db'"
        using assms absent by (simp add: import_agent_def Let_def)
      moreover have "r \<in> set (as_agents db)" using Some by (simp add: getByUsername_Some [OF ok])
      ultimately show ?thesis by (rule kept_more [OF kept_rekey]) (use absent Some in \<open>simp_all add: renamed_row_def\<close>)
    qed
  qed
  then show ?thesis by (simp add: agents_kept_def)
qed

lemma step_kept: "agent_step l m db db' \<Longrightarrow> agents_kept l m db db'"
proof (induction rule: agent_step.induct)
  case op_create then show ?case by (rule kept_create)
next
  case op_update then show ?case by (rule kept_update)
next
  case op_desired then show ?case by (rule kept_desired)
next
  case op_lifecycle then show ?case by (rule kept_lifecycle)
next
  case op_operator then show ?case by (rule kept_operator)
next
  case op_delete then show ?case by (rule kept_delete)
next
  case op_event then show ?case by (rule kept_state_event)
next
  case op_observation then show ?case by (rule kept_observation)
next
  case op_import then show ?case by (rule kept_import)
qed

lemma run_kept: "agent_run released removed db db' \<Longrightarrow> agents_kept released removed db db'"
proof (induction rule: agent_run.induct)
  case (agent_next db db' l m db'')
  then show ?case using kept_trans kept_more [OF step_kept] by blast
qed simp

lemma empty_agents_ok: "agents_ok empty_agents"
  by (simp add: agents_ok_def empty_agents_def)

lemma reachable_ok: "agent_run UNIV UNIV empty_agents db \<Longrightarrow> agents_ok db"
  using run_kept empty_agents_ok by (auto simp: agents_kept_def)

text \<open>An import is a run of its records.\<close>

lemma run_append: "agent_run released removed db' db'' \<Longrightarrow> agent_run released removed db db' \<Longrightarrow> agent_run released removed db db''"
  by (induction rule: agent_run.induct) (auto intro: agent_next)

lemma import_run: "importFromJson clock uuid infos enabled disabled actor db = Inr (db', n, flags) \<Longrightarrow> agent_run UNIV UNIV db db'"
proof -
  have "import_agents clock uuid actor enabled disabled infos db = Inr db' \<Longrightarrow> agent_run UNIV UNIV db db'" for db
  proof (induction infos arbitrary: clock uuid db)
    case (Cons info infos)
    then obtain db1 where i: "import_agent clock uuid actor enabled disabled info db = Inr db1"
        "import_agents (\<lambda>k. clock (k + 4)) (\<lambda>k. uuid (k + 2)) actor enabled disabled infos db1 = Inr db'"
      by (auto simp: and_then_Inr)
    have "agent_run UNIV UNIV db db1" by (rule agent_next [OF agent_start op_import [OF i(1)]]) simp_all
    then show ?case using Cons.IH [OF i(2)] by (rule run_append [rotated])
  qed (simp add: agent_start)
  then show "importFromJson clock uuid infos enabled disabled actor db = Inr (db', n, flags) \<Longrightarrow> agent_run UNIV UNIV db db'"
    by (auto simp: importFromJson_def and_then_Inr)
qed

subsection \<open>Properties\<close>

text \<open>A store with one agent whose kill switch is on.\<close>

definition stopped_spec :: agent_spec where
  "stopped_spec = \<lparr>cs_id = Some ''a'', cs_username = ''ada'', cs_email = None, cs_name = ''Ada'', cs_role = None, cs_team = None,
     cs_environment = None, cs_method = None, cs_model = None, cs_fallbacks = JUndef, cs_overrides = JUndef, cs_skills = JUndef,
     cs_env = JUndef, cs_limits = JUndef, cs_desired = True, cs_operator = True\<rparr>"

definition stopped_store :: agent_store where
  "stopped_store = \<lparr>as_agents = [spec_row 0 ''a'' stopped_spec], as_observations = [],
     as_events = [\<lparr>ew_id = ''1'', ew_agent = ''a'', ew_type = EvCreated, ew_version = 1, ew_actor = ''t'', ew_reason = None,
       ew_payload = json_column (JObj [(''username'', JStr ''ada'')]), ew_created = 0\<rparr>]\<rparr>"

lemmas stopped_defs = stopped_store_def spec_row_def stopped_spec_def

lemma stopped_run: "agent_run UNIV UNIV empty_agents stopped_store"
proof -
  have "createAgent (\<lambda>_. 0) (\<lambda>_. ''1'') ''t'' stopped_spec empty_agents = Inr (stopped_store, spec_row 0 ''a'' stopped_spec)"
    by (simp add: createAgent_def insert_agent_def writeEvent_def empty_agents_def stopped_defs Let_def)
  then show ?thesis by (rule agent_next [OF agent_start op_create]) simp_all
qed

lemma stopped_agent: "getAgent ''a'' stopped_store = Some (spec_row 0 ''a'' stopped_spec)" "aw_operator (spec_row 0 ''a'' stopped_spec)"
    "aw_version (spec_row 0 ''a'' stopped_spec) = 1"
  by (simp_all add: getAgent_def stopped_defs)

lemma run_row:
  assumes "agents_ok db" "getAgent a db = Some r" "agent_run released removed db db'" "a \<notin> removed"
  obtains r' where "getAgent a db' = Some r'" "row_stays released r r'" "agents_ok db'"
proof -
  have kept: "agents_ok db'" "rows_stay released removed db db'"
    using run_kept [OF assms(3)] assms(1) by (simp_all add: agents_kept_def)
  have r: "r \<in> set (as_agents db)" "aw_id r = a" using assms(2) by (simp_all add: getAgent_Some [OF assms(1)])
  then obtain r' where r': "r' \<in> set (as_agents db')" "row_stays released r r'" using kept(2) assms(4) by (auto simp: rows_stay_def)
  then have "getAgent a db' = Some r'" using r(2) by (simp add: getAgent_Some [OF kept(1)] row_stays_def)
  with r'(2) kept(1) that show thesis by blast
qed



text \<open>
  C20. No update is lost: when an update that expects a version has been committed, every
  later update that expects the same version is refused as stale, whatever operations came
  between, as long as the row is not removed.
\<close>

theorem stale_update_refused:
  assumes "agent_run UNIV UNIV empty_agents db" "updateAgent clock uuid actor a p (Some v) db = Inr db1"
    "agent_run released removed db1 db2" "a \<notin> removed"
  shows "\<exists>n. v < n \<and> updateAgent clock' uuid' actor' a p' (Some v) db2 = Inl (StaleVersion a v n)"
proof -
  have ok: "agents_ok db" by (rule reachable_ok [OF assms(1)])
  then have ok1: "agents_ok db1" using kept_update [OF assms(2)] by (simp add: agents_kept_def)
  obtain r where r: "getAgent a db = Some r" "aw_version r = v"
    using assms(2) by (auto simp: updateAgent_def split: option.splits if_splits)
  have "last_version a db1 = Some (v + 1)"
    using assms(2) r by (auto simp: updateAgent_def writeEvent_Inr last_version_def listEvents_def split: if_splits)
  moreover obtain r1 where r1: "getAgent a db1 = Some r1"
    using run_row [OF ok r(1) agent_next [OF agent_start op_update [OF assms(2)]], of UNIV "{}"] by blast
  then have "r1 \<in> set (as_agents db1)" "aw_id r1 = a" by (simp_all add: getAgent_Some [OF ok1])
  ultimately have "aw_version r1 = v + 1" using ok1 by (auto simp: agents_ok_def)
  moreover obtain r2 where r2: "getAgent a db2 = Some r2" "row_stays released r1 r2"
    using run_row [OF ok1 r1 assms(3,4)] by blast
  ultimately have "v < aw_version r2" by (simp add: row_stays_def)
  then show ?thesis using r2(1) by (intro exI [of _ "aw_version r2"]) (simp add: updateAgent_def)
qed

lemma stale_update_refused_witness:
  "\<exists>db1 n. updateAgent (\<lambda>_. 1) (\<lambda>_. ''2'') ''u'' ''a'' [(''model'', JStr ''m'')] (Some 1) stopped_store = Inr db1
     \<and> updateAgent (\<lambda>_. 2) (\<lambda>_. ''3'') ''w'' ''a'' [(''role'', JStr ''r'')] (Some 1) db1 = Inl (StaleVersion ''a'' 1 n)"
proof -
  obtain db1 where u: "updateAgent (\<lambda>_. 1) (\<lambda>_. ''2'') ''u'' ''a'' [(''model'', JStr ''m'')] (Some 1) stopped_store = Inr db1"
    by (simp add: updateAgent_def stopped_agent writeEvent_def set_agent_def js_get_def) (simp add: stopped_store_def)
  from stale_update_refused [OF stopped_run u agent_start, where removed = "{}"] u show ?thesis by blast
qed

text \<open>
  The log is complete and append-only: in every reachable store identifiers and usernames
  are unique, and the version of each agent is that of the last event of its log, so that no
  change of a row goes without an event; and over any later run the log keeps its events, in
  order and with their contents, apart from the identifier of an agent that an import renames.
\<close>

theorem audit_log_complete:
  assumes "agent_run UNIV UNIV empty_agents db"
  shows "distinct (map aw_id (as_agents db)) \<and> distinct (map aw_username (as_agents db))
    \<and> (\<forall>a r. getAgent a db = Some r \<longrightarrow> (\<exists>es e. listEvents a db = es @ [e] \<and> ew_version e = aw_version r))
    \<and> (agent_run released removed db db' \<longrightarrow> (\<exists>es. map event_core (as_events db') = map event_core (as_events db) @ es))"
proof -
  have ok: "agents_ok db" by (rule reachable_ok [OF assms])
  have "\<exists>es e. listEvents a db = es @ [e] \<and> ew_version e = aw_version r" if "getAgent a db = Some r" for a r
  proof -
    have "r \<in> set (as_agents db)" "aw_id r = a" using that by (simp_all add: getAgent_Some [OF ok])
    then have "last_version a db = Some (aw_version r)" using ok by (auto simp: agents_ok_def)
    then obtain e es where "rev (listEvents a db) = e # es" "ew_version e = aw_version r"
      by (auto simp: last_version_def split: list.splits)
    then have "listEvents a db = rev es @ [e]" by (metis rev.simps(2) rev_rev_ident)
    with \<open>ew_version e = aw_version r\<close> show ?thesis by blast
  qed
  moreover have "agent_run released removed db db' \<longrightarrow> log_grows db db'" using run_kept ok by (auto simp: agents_kept_def)
  ultimately show ?thesis using ok by (simp add: agents_ok_def log_grows_def)
qed

lemma audit_log_complete_witness: "\<exists>es e. listEvents ''a'' stopped_store = es @ [e] \<and> ew_version e = 1"
  using audit_log_complete [OF stopped_run] stopped_agent by metis

subsection \<open>Where the code and its comments differ\<close>

text \<open>
  The switch is to be cleared by an operator or by an explicit override only, but a
  hibernation clears it too; after it the agent can be enabled without an override.
\<close>

lemma hibernation_releases_kill_switch:
  assumes "getAgent a db = Some r" "aw_operator r" "uuid 0 \<notin> ew_id ` set (as_events db)"
    "uuid' 0 \<notin> insert (uuid 0) (ew_id ` set (as_events db))"
  shows "setLifecycleState clock uuid actor a Enabled False db = Inl KillSwitchActive \<and>
    (\<exists>db1 db2. setLifecycleState clock uuid actor a Hibernated False db = Inr db1
       \<and> setLifecycleState clock' uuid' actor a Enabled False db1 = Inr db2 \<and> isEffectivelyEnabled a db2)"
proof -
  let ?f = "\<lambda>q. q\<lparr>aw_desired := False, aw_operator := False, aw_status := ''hibernated'', aw_version := aw_version r + 1, aw_updated := clock 0\<rparr>"
  let ?g = "\<lambda>q. q\<lparr>aw_desired := True, aw_operator := False, aw_status := ''enabled'', aw_version := aw_version (?f r) + 1, aw_updated := clock' 0\<rparr>"
  obtain db1 where w1: "writeEvent (clock 1) (uuid 0) a EvDisabled (aw_version r + 1) actor (Some ''hibernated'') JUndef (set_agent a ?f db) = Inr db1"
    using assms(3) by (auto simp: writeEvent_Inr)
  have h: "setLifecycleState clock uuid actor a Hibernated False db = Inr db1"
    using w1 assms(1,2) by (simp add: setLifecycleState_def lifecycle_text_def)
  have r1: "getAgent a db1 = Some (?f r)" unfolding getAgent_event [OF w1] by (rule getAgent_set [OF assms(1)]) simp
  obtain db2 where w2: "writeEvent (clock' 1) (uuid' 0) a EvEnabled (aw_version (?f r) + 1) actor (Some ''enabled'') JUndef (set_agent a ?g db1) = Inr db2"
    using assms(4) w1 by (auto simp: writeEvent_Inr)
  have e: "setLifecycleState clock' uuid' actor a Enabled False db1 = Inr db2"
    using w2 r1 by (simp add: setLifecycleState_def lifecycle_text_def)
  have "getAgent a db2 = Some (?g (?f r))" unfolding getAgent_event [OF w2] by (rule getAgent_set [OF r1]) simp
  then have "isEffectivelyEnabled a db2" by (simp add: isEffectivelyEnabled_def wanted_def)
  with h e show ?thesis using assms(1,2) by (auto simp: setLifecycleState_def)
qed

text \<open>The mirror passes a new username on, but an update leaves the usernames as they are.\<close>

lemma update_keeps_usernames:
  assumes "updateAgent clock uuid actor a p expected db = Inr db'"
  shows "map aw_username (as_agents db') = map aw_username (as_agents db)"
  using assms by (auto simp: updateAgent_def writeEvent_Inr set_agent_def patched_row_def intro!: map_sql_update split: option.splits if_splits)

end
