(* ===== verification/AgentReconciler.thy ===== *)
theory AgentReconciler
  imports AgentStateFacts
begin

text \<open>
  The reconcile engine, \<open>src/src/daemon/agent-state-reconciler.ts\<close>.  The controller of the
  runtimes is an argument: the code has no implementation of its interface.  Its calls are
  awaited, so each may change the world \<open>'w\<close> and, since other writers run meanwhile, the
  store; a call may throw.  A pass that throws keeps what it has written so far.

  A pass is a chain of actions over the world, the store and the drift counters.  Each
  operation of the store reads the clock and \<open>randomUUID\<close> from the position where the one
  before has stopped.  The hook for metrics is left out.
\<close>

subsection \<open>States of a runtime\<close>

definition running_states :: "string list" where
  "running_states = [''running'', ''starting'', ''healthy'', ''ready'']"

definition stopped_states :: "string list" where
  "stopped_states = [''stopped'', ''disabled'', ''exited'', ''not_found'', ''missing'', ''none'']"

text \<open>\<open>replace(/\s+/g, '_')\<close>\<close>

fun underscored :: "string \<Rightarrow> string" where
  "underscored [] = []"
| "underscored [c] = (if js_ws c then ''_'' else [c])"
| "underscored (c # d # s) = (if js_ws c then (if js_ws d then underscored (d # s) else CHR ''_'' # underscored (d # s))
     else c # underscored (d # s))"

definition normalizeObservedState :: "string \<Rightarrow> string" where
  "normalizeObservedState s = underscored (js_lower (js_trim s))"

definition isRuntimeRunning :: "string \<Rightarrow> bool" where
  "isRuntimeRunning s \<longleftrightarrow> normalizeObservedState s \<in> set running_states"

definition isRuntimePresent :: "string \<Rightarrow> bool" where
  "isRuntimePresent s \<longleftrightarrow> normalizeObservedState s \<notin> set stopped_states"

subsection \<open>The controller, the options and the report\<close>

datatype ownership = OwnDaemon | OtherDaemon | UnknownOwner

record runtime_orphan =
  or_runtime :: string
  or_username :: "string option"
  or_observed :: observation
  or_owner :: ownership
  or_spec :: "agent_spec option"

type_synonym ('w, 'a) call = "'w \<times> agent_store \<Rightarrow> (string + 'a) \<times> 'w \<times> agent_store"

record 'w controller =
  ct_observe :: "agent_row \<Rightarrow> ('w, observation) call"
  ct_orphans :: "('w, runtime_orphan list) call option"
  ct_start :: "(agent_row \<Rightarrow> ('w, observation option) call) option"
  ct_stop :: "(agent_row \<Rightarrow> string \<Rightarrow> ('w, observation option) call) option"
  ct_stopOrphan :: "(runtime_orphan \<Rightarrow> string \<Rightarrow> ('w, unit) call) option"

datatype reconcile_mode = Observe | DryRun | Enforce

datatype reconcile_action = NoAction | StartAction | StopAction | AdoptAction

record reconciler_options =
  rn_mode :: reconcile_mode
  rn_actor :: string
  rn_alertCycles :: int

record decision =
  dc_agent :: string
  dc_username :: string
  dc_orphan :: bool
  dc_running :: bool
  dc_observed :: string
  dc_action :: reconcile_action
  dc_reason :: "string option"
  dc_cycles :: nat
  dc_alerting :: bool
  dc_acted :: bool

record report =
  rt_mode :: reconcile_mode
  rt_checked :: nat
  rt_drifted :: nat
  rt_actions :: nat
  rt_decisions :: "decision list"
  rt_alerts :: "decision list"

text \<open>A missing count of cycles is 3, and a count is at least 1.\<close>

definition driftAlertCycles :: "int option \<Rightarrow> int" where
  "driftAlertCycles n = max 1 (case n of None \<Rightarrow> 3 | Some k \<Rightarrow> k)"

definition new_reconciler :: "reconcile_mode option \<Rightarrow> string option \<Rightarrow> int option \<Rightarrow> reconciler_options" where
  "new_reconciler mode actor cycles = \<lparr>rn_mode = (case mode of None \<Rightarrow> Observe | Some m \<Rightarrow> m),
     rn_actor = (case actor of None \<Rightarrow> ''agent-state-reconciler'' | Some a \<Rightarrow> a), rn_alertCycles = driftAlertCycles cycles\<rparr>"

subsection \<open>Actions\<close>

datatype reconcile_error = StoreFailed agent_error | ControllerFailed string | NoController

record 'w pass =
  ps_world :: 'w
  ps_store :: agent_store
  ps_drift :: "string \<Rightarrow> nat option"
  ps_reads :: nat

type_synonym ('w, 'a) act = "'w pass \<Rightarrow> (reconcile_error + 'a) \<times> 'w pass"

definition give :: "'a \<Rightarrow> ('w, 'a) act" where
  "give x s = (Inr x, s)"

definition fails :: "reconcile_error \<Rightarrow> ('w, 'a) act" where
  "fails e s = (Inl e, s)"

definition andp :: "('w, 'a) act \<Rightarrow> ('a \<Rightarrow> ('w, 'b) act) \<Rightarrow> ('w, 'b) act" where
  "andp m f s = (case m s of (Inl e, s') \<Rightarrow> (Inl e, s') | (Inr x, s') \<Rightarrow> f x s')"

definition from_position :: "nat \<Rightarrow> (nat \<Rightarrow> 'a) \<Rightarrow> nat \<Rightarrow> 'a" where
  "from_position n f k = f (n + k)"

definition on_store :: "(nat \<Rightarrow> agent_store \<Rightarrow> agent_error + 'a \<times> agent_store) \<Rightarrow> ('w, 'a) act" where
  "on_store f s = (case f (ps_reads s) (ps_store s) of
      Inl e \<Rightarrow> (Inl (StoreFailed e), s)
    | Inr (x, db) \<Rightarrow> (Inr x, s\<lparr>ps_store := db, ps_reads := ps_reads s + 2\<rparr>))"

definition on_controller :: "('w, 'a) call \<Rightarrow> ('w, 'a) act" where
  "on_controller g s = (case g (ps_world s, ps_store s) of
      (Inl e, w, db) \<Rightarrow> (Inl (ControllerFailed e), s\<lparr>ps_world := w, ps_store := db\<rparr>)
    | (Inr x, w, db) \<Rightarrow> (Inr x, s\<lparr>ps_world := w, ps_store := db\<rparr>))"

definition write_observation :: "ticks \<Rightarrow> string \<Rightarrow> observation \<Rightarrow> ('w, unit) act" where
  "write_observation clock a obs = on_store (\<lambda>n db. and_then (recordObservation (from_position n clock) a obs db) (\<lambda>db'. Inr ((), db')))"

definition write_event ::
  "ticks \<Rightarrow> uuids \<Rightarrow> string \<Rightarrow> state_event \<Rightarrow> string \<Rightarrow> string option \<Rightarrow> jsval \<Rightarrow> ('w, unit) act" where
  "write_event clock uuid a type actor reason payload = on_store (\<lambda>n db.
     and_then (recordStateEvent (from_position n clock) (from_position n uuid) a type actor reason payload db) (\<lambda>db'. Inr ((), db')))"

definition adopt_agent :: "ticks \<Rightarrow> uuids \<Rightarrow> string \<Rightarrow> agent_spec \<Rightarrow> ('w, agent_row) act" where
  "adopt_agent clock uuid actor spec = on_store (\<lambda>n db.
     and_then (createAgent (from_position n clock) (from_position n uuid) actor spec db) (\<lambda>(db', r). Inr (r, db')))"

definition set_drift :: "string \<Rightarrow> nat \<Rightarrow> ('w, unit) act" where
  "set_drift a n s = (Inr (), s\<lparr>ps_drift := (ps_drift s)(a \<mapsto> n)\<rparr>)"

definition drift_of :: "string \<Rightarrow> ('w, nat) act" where
  "drift_of a s = (Inr (case ps_drift s a of None \<Rightarrow> 0 | Some n \<Rightarrow> n), s)"

subsection \<open>One agent\<close>

definition state_name :: "bool \<Rightarrow> string" where
  "state_name b = (if b then ''running'' else ''stopped'')"

definition mode_name :: "reconcile_mode \<Rightarrow> string" where
  "mode_name m = (case m of Observe \<Rightarrow> ''observe'' | DryRun \<Rightarrow> ''dry-run'' | Enforce \<Rightarrow> ''enforce'')"

definition matches :: "bool \<Rightarrow> string \<Rightarrow> bool" where
  "matches running s = (if running then isRuntimeRunning s else \<not> isRuntimePresent s)"

definition drift_action :: "agent_row \<Rightarrow> reconcile_action" where
  "drift_action r = (if wanted r then StartAction else StopAction)"

definition drift_reason :: "agent_row \<Rightarrow> string" where
  "drift_reason r = (if wanted r then ''desired-enabled runtime missing/unhealthy''
     else if aw_operator r then ''operator-disabled fail-closed'' else ''desired-disabled runtime still running'')"

definition applyAction :: "'w controller \<Rightarrow> agent_row \<Rightarrow> reconcile_action \<Rightarrow> string \<Rightarrow> ('w, observation option) act" where
  "applyAction c r action reason = (case action of
      StartAction \<Rightarrow> (case ct_start c of None \<Rightarrow> fails NoController | Some st \<Rightarrow> on_controller (st r))
    | StopAction \<Rightarrow> (case ct_stop c of None \<Rightarrow> fails NoController | Some st \<Rightarrow> on_controller (st r reason))
    | _ \<Rightarrow> give None)"

definition enforce_row :: "ticks \<Rightarrow> uuids \<Rightarrow> 'w controller \<Rightarrow> reconciler_options \<Rightarrow> agent_row \<Rightarrow> string \<Rightarrow> ('w, unit) act" where
  "enforce_row clock uuid c ro r observed =
     andp (applyAction c r (drift_action r) (drift_reason r)) (\<lambda>after.
     andp (case after of None \<Rightarrow> give () | Some obs \<Rightarrow> write_observation clock (aw_id r) obs) (\<lambda>_.
     write_event clock uuid (aw_id r) (if wanted r then EvStarted else EvStopped) (rn_actor ro) (Some (drift_reason r))
       (JObj [(''desiredState'', JStr (state_name (wanted r))), (''previousObservedState'', JStr observed),
         (''observedState'', case after of None \<Rightarrow> JNull | Some obs \<Rightarrow> JStr (os_state obs))])))"

definition reconcile_row :: "ticks \<Rightarrow> uuids \<Rightarrow> 'w controller \<Rightarrow> reconciler_options \<Rightarrow> agent_row \<Rightarrow> ('w, decision) act" where
  "reconcile_row clock uuid c ro r =
     andp (on_controller (ct_observe c r)) (\<lambda>obs.
     andp (write_observation clock (aw_id r) obs) (\<lambda>_.
     let running = wanted r; observed = os_state obs;
         base = \<lparr>dc_agent = aw_id r, dc_username = aw_username r, dc_orphan = False, dc_running = running,
           dc_observed = observed, dc_action = NoAction, dc_reason = None, dc_cycles = 0, dc_alerting = False, dc_acted = False\<rparr>
     in if \<not> matches running observed
        then andp (drift_of (aw_id r)) (\<lambda>before.
             let cycles = before + 1; alerting = rn_alertCycles ro \<le> int cycles in
             andp (set_drift (aw_id r) cycles) (\<lambda>_.
             andp (write_event clock uuid (aw_id r) EvDrift (rn_actor ro) (Some (drift_reason r))
               (JObj [(''desiredState'', JStr (state_name running)), (''observedState'', JStr observed),
                 (''driftCycles'', JNum (int cycles)), (''mode'', JStr (mode_name (rn_mode ro))), (''alerting'', JBool alerting)])) (\<lambda>_.
             andp (if rn_mode ro = Enforce then enforce_row clock uuid c ro r observed else give ()) (\<lambda>_.
             give (base\<lparr>dc_action := drift_action r, dc_reason := Some (drift_reason r), dc_cycles := cycles,
               dc_alerting := alerting, dc_acted := (rn_mode ro = Enforce)\<rparr>)))))
        else andp (set_drift (aw_id r) 0) (\<lambda>_.
             andp (write_event clock uuid (aw_id r) EvReconciled (rn_actor ro) None
               (JObj [(''desiredState'', JStr (state_name running)), (''observedState'', JStr observed),
                 (''mode'', JStr (mode_name (rn_mode ro)))])) (\<lambda>_.
             give base))))"

subsection \<open>Orphans\<close>

definition adoptable :: "runtime_orphan \<Rightarrow> bool" where
  "adoptable x \<longleftrightarrow> or_owner x = OwnDaemon \<and> or_spec x \<noteq> None"

definition orphan_reason :: "runtime_orphan \<Rightarrow> string" where
  "orphan_reason x = (if adoptable x then ''orphan runtime has verified daemon ownership metadata; adopting into desired-state store''
     else if or_owner x = OtherDaemon then ''orphan runtime belongs to another daemon/control plane''
     else ''orphan runtime lacks verified ownership metadata'')"

text \<open>The identifier, the username and whether something was done.\<close>

definition settle_orphan ::
  "ticks \<Rightarrow> uuids \<Rightarrow> 'w controller \<Rightarrow> reconciler_options \<Rightarrow> runtime_orphan \<Rightarrow> ('w, string \<times> string \<times> bool) act" where
  "settle_orphan clock uuid c ro x =
     (let name = (case or_username x of None \<Rightarrow> or_runtime x | Some u \<Rightarrow> u) in
      if rn_mode ro \<noteq> Enforce then give (or_runtime x, name, False)
      else if adoptable x
      then andp (adopt_agent clock uuid (rn_actor ro) (the (or_spec x))) (\<lambda>r.
           andp (write_observation clock (aw_id r) ((or_observed x)\<lparr>os_error := None\<rparr>)) (\<lambda>_.
           give (aw_id r, aw_username r, True)))
      else if isRuntimePresent (os_state (or_observed x))
      then (case ct_stopOrphan c of None \<Rightarrow> fails NoController
            | Some st \<Rightarrow> andp (on_controller (st x (orphan_reason x))) (\<lambda>_. give (or_runtime x, name, True)))
      else give (or_runtime x, name, False))"

definition reconcile_orphan :: "ticks \<Rightarrow> uuids \<Rightarrow> 'w controller \<Rightarrow> reconciler_options \<Rightarrow> runtime_orphan \<Rightarrow> ('w, decision) act" where
  "reconcile_orphan clock uuid c ro x =
     andp (settle_orphan clock uuid c ro x) (\<lambda>(a, name, acted).
     give \<lparr>dc_agent = a, dc_username = name, dc_orphan = True, dc_running = (adoptable x \<and> cs_desired (the (or_spec x))),
       dc_observed = os_state (or_observed x), dc_action = (if adoptable x then AdoptAction else StopAction),
       dc_reason = Some (orphan_reason x), dc_cycles = 1, dc_alerting = False, dc_acted = acted\<rparr>)"

fun each :: "('x \<Rightarrow> ('w, 'a) act) \<Rightarrow> 'x list \<Rightarrow> ('w, 'a list) act" where
  "each f [] = give []"
| "each f (x # xs) = andp (f x) (\<lambda>y. andp (each f xs) (\<lambda>ys. give (y # ys)))"

definition reconcileOrphans :: "ticks \<Rightarrow> uuids \<Rightarrow> 'w controller \<Rightarrow> reconciler_options \<Rightarrow> ('w, decision list) act" where
  "reconcileOrphans clock uuid c ro = (case ct_orphans c of
      None \<Rightarrow> give []
    | Some l \<Rightarrow> andp (on_controller l) (each (reconcile_orphan clock uuid c ro)))"

subsection \<open>One pass\<close>

definition report_of :: "reconcile_mode \<Rightarrow> decision list \<Rightarrow> report" where
  "report_of mode ds = \<lparr>rt_mode = mode, rt_checked = length ds, rt_drifted = length (filter (\<lambda>d. 0 < dc_cycles d) ds),
     rt_actions = length (filter dc_acted ds), rt_decisions = ds, rt_alerts = filter dc_alerting ds\<rparr>"

definition reconcileOnce :: "ticks \<Rightarrow> uuids \<Rightarrow> 'w controller \<Rightarrow> reconciler_options \<Rightarrow> ('w, report) act" where
  "reconcileOnce clock uuid c ro s =
     andp (each (reconcile_row clock uuid c ro) (listAgents (ps_store s))) (\<lambda>ds.
     andp (reconcileOrphans clock uuid c ro) (\<lambda>os.
     give (report_of (rn_mode ro) (ds @ os)))) s"

end
