(* ===== verification/ReconcilerFacts.thy ===== *)
theory ReconcilerFacts
  imports AgentReconciler
begin

text \<open>
  When a pass of the reconcile engine calls the controller, and that a pass in the mode
  \<open>enforce\<close> brings every runtime to its desired state when the controller does what it says.
\<close>

subsection \<open>Which calls are made\<close>

text \<open>A controller that throws when it is asked to start an agent that is not wanted, or to stop one that is.\<close>

definition guarded :: "'w controller \<Rightarrow> 'w controller" where
  "guarded c = c\<lparr>
     ct_start := map_option (\<lambda>st r. if wanted r then st r else (\<lambda>(w, db). (Inl ''start'', w, db))) (ct_start c),
     ct_stop := map_option (\<lambda>st r reason. if wanted r then (\<lambda>(w, db). (Inl ''stop'', w, db)) else st r reason) (ct_stop c)\<rparr>"

lemma guarded_row: "reconcile_row clock uuid (guarded c) ro r = reconcile_row clock uuid c ro r"
proof -
  have "applyAction (guarded c) r (drift_action r) (drift_reason r) = applyAction c r (drift_action r) (drift_reason r)"
    by (cases "wanted r"; cases "ct_start c"; cases "ct_stop c") (simp_all add: applyAction_def guarded_def drift_action_def)
  then have "enforce_row clock uuid (guarded c) ro r observed = enforce_row clock uuid c ro r observed" for observed
    by (simp add: enforce_row_def)
  moreover have "ct_observe (guarded c) = ct_observe c" by (simp add: guarded_def)
  ultimately show ?thesis by (simp add: reconcile_row_def Let_def cong: if_cong)
qed

lemma guarded_orphans: "reconcileOrphans clock uuid (guarded c) ro = reconcileOrphans clock uuid c ro"
proof -
  have stop_orphan: "ct_stopOrphan (guarded c) = ct_stopOrphan c" and orphans: "ct_orphans (guarded c) = ct_orphans c"
    by (simp_all add: guarded_def)
  have "reconcile_orphan clock uuid (guarded c) ro = reconcile_orphan clock uuid c ro"
    by (intro ext) (simp only: reconcile_orphan_def settle_orphan_def stop_orphan)
  then show ?thesis by (simp add: reconcileOrphans_def orphans split: option.split)
qed

lemma passive_row:
  assumes "rn_mode ro \<noteq> Enforce"
  shows "reconcile_row clock uuid (c\<lparr>ct_start := st, ct_stop := sp, ct_stopOrphan := so\<rparr>) ro r = reconcile_row clock uuid c ro r"
  using assms by (simp add: reconcile_row_def Let_def cong: if_cong)

lemma passive_orphans:
  assumes "rn_mode ro \<noteq> Enforce"
  shows "reconcileOrphans clock uuid (c\<lparr>ct_start := st, ct_stop := sp, ct_stopOrphan := so\<rparr>) ro = reconcileOrphans clock uuid c ro"
proof -
  have "reconcile_orphan clock uuid (c\<lparr>ct_start := st, ct_stop := sp, ct_stopOrphan := so\<rparr>) ro = reconcile_orphan clock uuid c ro"
    using assms by (intro ext) (simp add: reconcile_orphan_def settle_orphan_def)
  then show ?thesis by (simp add: reconcileOrphans_def split: option.split)
qed

text \<open>
  C21. The engine acts only where it may: outside the mode \<open>enforce\<close> a pass is the same
  whatever the controller's start and stop operations are, so it calls none of them; and in
  every mode it is the same with a controller that throws on a start of an agent whose listed
  row is not desired-enabled or is operator-disabled, and on a stop of one that is wanted.
\<close>

theorem reconciler_calls_sound:
  "(rn_mode ro \<noteq> Enforce \<longrightarrow> reconcileOnce clock uuid (c\<lparr>ct_start := st, ct_stop := sp, ct_stopOrphan := so\<rparr>) ro s = reconcileOnce clock uuid c ro s)
   \<and> reconcileOnce clock uuid (guarded c) ro s = reconcileOnce clock uuid c ro s"
proof -
  have "reconcile_row clock uuid (guarded c) ro = reconcile_row clock uuid c ro" using guarded_row by blast
  moreover have "rn_mode ro \<noteq> Enforce \<Longrightarrow>
      reconcile_row clock uuid (c\<lparr>ct_start := st, ct_stop := sp, ct_stopOrphan := so\<rparr>) ro = reconcile_row clock uuid c ro"
    using passive_row by blast
  ultimately show ?thesis by (auto simp: reconcileOnce_def guarded_orphans passive_orphans)
qed

subsection \<open>Convergence\<close>

text \<open>
  A controller that works: it observes the state of the runtime, a start leads to a running
  runtime and a stop to an absent one, other runtimes stay as they are, and no other writer
  changes the store.
\<close>

definition works :: "('w \<Rightarrow> string \<Rightarrow> observation) \<Rightarrow> 'w controller \<Rightarrow> bool" where
  "works state c \<longleftrightarrow> (\<forall>r w db. ct_observe c r (w, db) = (Inr (state w (aw_id r)), w, db))
     \<and> (\<exists>st. ct_start c = Some st \<and> (\<forall>r w db. \<exists>obs w'. st r (w, db) = (Inr obs, w', db)
          \<and> isRuntimeRunning (os_state (state w' (aw_id r))) \<and> (\<forall>b. b \<noteq> aw_id r \<longrightarrow> state w' b = state w b)))
     \<and> (\<exists>sp. ct_stop c = Some sp \<and> (\<forall>r reason w db. \<exists>obs w'. sp r reason (w, db) = (Inr obs, w', db)
          \<and> \<not> isRuntimePresent (os_state (state w' (aw_id r))) \<and> (\<forall>b. b \<noteq> aw_id r \<longrightarrow> state w' b = state w b)))"

text \<open>Identifiers that are read from now on are fresh.\<close>

definition ready :: "uuids \<Rightarrow> 'w pass \<Rightarrow> bool" where
  "ready uuid s \<longleftrightarrow> agents_ok (ps_store s) \<and> inj uuid \<and> (\<forall>n \<ge> ps_reads s. uuid n \<notin> ew_id ` set (as_events (ps_store s)))"

definition same_rows :: "'w pass \<Rightarrow> 'w pass \<Rightarrow> bool" where
  "same_rows s s' \<longleftrightarrow> as_agents (ps_store s') = as_agents (ps_store s)"

lemma andp_Inr: "m s = (Inr x, s') \<Longrightarrow> andp m f s = f x s'"
  by (simp add: andp_def)

lemma has_agent: "a \<in> aw_id ` set (as_agents db) \<Longrightarrow> \<exists>r. getAgent a db = Some r"
  using getAgent_None [of a db] by auto

lemma write_event_runs:
  assumes "ready uuid s" "a \<in> aw_id ` set (as_agents (ps_store s))"
  obtains s' where "write_event clock uuid a type actor reason payload s = (Inr (), s')" "ready uuid s'" "same_rows s s'"
    "ps_world s' = ps_world s"
proof -
  let ?n = "ps_reads s"
  obtain r where r: "getAgent a (ps_store s) = Some r" using has_agent [OF assms(2)] by blast
  have "uuid ?n \<notin> ew_id ` set (as_events (ps_store s))" using assms(1) by (simp add: ready_def)
  then obtain db where db: "recordStateEvent (from_position ?n clock) (from_position ?n uuid) a type actor reason payload (ps_store s) = Inr db"
      "as_agents db = as_agents (ps_store s)" "ew_id ` set (as_events db) = insert (uuid ?n) (ew_id ` set (as_events (ps_store s)))"
    using r by (auto simp: recordStateEvent_def writeEvent_Inr from_position_def)
  let ?s = "s\<lparr>ps_store := db, ps_reads := ?n + 2\<rparr>"
  have "uuid m \<noteq> uuid ?n" if "?n + 2 \<le> m" for m using assms(1) that by (auto simp: ready_def dest: injD)
  then have "ready uuid ?s" using kept_state_event [OF db(1)] assms(1) db(3) by (auto simp: ready_def agents_kept_def)
  moreover have "write_event clock uuid a type actor reason payload s = (Inr (), ?s)"
    using db(1) by (simp add: write_event_def on_store_def)
  ultimately show thesis using that [of ?s] db(2) by (simp add: same_rows_def)
qed

lemma write_observation_runs:
  assumes "ready uuid s" "a \<in> aw_id ` set (as_agents (ps_store s))"
  obtains s' where "write_observation clock a obs s = (Inr (), s')" "ready uuid s'" "same_rows s s'" "ps_world s' = ps_world s"
proof -
  let ?n = "ps_reads s"
  obtain r where r: "getAgent a (ps_store s) = Some r" using has_agent [OF assms(2)] by blast
  then obtain db where db: "recordObservation (from_position ?n clock) a obs (ps_store s) = Inr db"
      "as_agents db = as_agents (ps_store s)" "as_events db = as_events (ps_store s)"
    by (simp add: recordObservation_def Let_def)
  let ?s = "s\<lparr>ps_store := db, ps_reads := ?n + 2\<rparr>"
  have "ready uuid ?s" using kept_observation [OF db(1)] assms(1) db(3) by (auto simp: ready_def agents_kept_def)
  moreover have "write_observation clock a obs s = (Inr (), ?s)" using db(1) by (simp add: write_observation_def on_store_def)
  ultimately show thesis using that [of ?s] db(2) by (simp add: same_rows_def)
qed

lemma set_drift_runs:
  assumes "ready uuid s"
  obtains s' where "set_drift a n s = (Inr (), s')" "ready uuid s'" "same_rows s s'" "ps_world s' = ps_world s"
  using assms that [of "s\<lparr>ps_drift := (ps_drift s)(a \<mapsto> n)\<rparr>"] by (simp add: set_drift_def ready_def same_rows_def)

lemma observe_runs: "works state c \<Longrightarrow> on_controller (ct_observe c r) s = (Inr (state (ps_world s) (aw_id r)), s)"
  by (simp add: works_def on_controller_def)

lemma same_rows_ids: "same_rows s s' \<Longrightarrow> aw_id ` set (as_agents (ps_store s')) = aw_id ` set (as_agents (ps_store s))"
  by (simp add: same_rows_def)

lemma same_rows_trans: "same_rows s s' \<Longrightarrow> same_rows s' s'' \<Longrightarrow> same_rows s s''"
  by (simp add: same_rows_def)

text \<open>A start or a stop brings the runtime to the desired state.\<close>

lemma apply_runs:
  assumes "works state c" "ready uuid s"
  obtains s' after where "applyAction c r (drift_action r) (drift_reason r) s = (Inr after, s')" "ready uuid s'" "same_rows s s'"
    "matches (wanted r) (os_state (state (ps_world s') (aw_id r)))" "\<And>b. b \<noteq> aw_id r \<Longrightarrow> state (ps_world s') b = state (ps_world s) b"
proof (cases "wanted r")
  case True
  obtain st where st: "ct_start c = Some st" "\<forall>r w db. \<exists>obs w'. st r (w, db) = (Inr obs, w', db)
      \<and> isRuntimeRunning (os_state (state w' (aw_id r))) \<and> (\<forall>b. b \<noteq> aw_id r \<longrightarrow> state w' b = state w b)"
    using assms(1) unfolding works_def by blast
  from spec [OF spec [OF spec [OF st(2)]]]
  obtain obs w' where w: "st r (ps_world s, ps_store s) = (Inr obs, w', ps_store s)"
      "isRuntimeRunning (os_state (state w' (aw_id r)))" "\<forall>b. b \<noteq> aw_id r \<longrightarrow> state w' b = state (ps_world s) b" by blast
  show thesis by (rule that [of obs "s\<lparr>ps_world := w'\<rparr>"])
    (use st(1) w True assms(2) in \<open>simp_all add: applyAction_def drift_action_def on_controller_def ready_def same_rows_def matches_def\<close>)
next
  case False
  obtain sp where sp: "ct_stop c = Some sp" "\<forall>r reason w db. \<exists>obs w'. sp r reason (w, db) = (Inr obs, w', db)
      \<and> \<not> isRuntimePresent (os_state (state w' (aw_id r))) \<and> (\<forall>b. b \<noteq> aw_id r \<longrightarrow> state w' b = state w b)"
    using assms(1) unfolding works_def by blast
  from spec [OF spec [OF spec [OF spec [OF sp(2)]]]]
  obtain obs w' where w: "sp r (drift_reason r) (ps_world s, ps_store s) = (Inr obs, w', ps_store s)"
      "\<not> isRuntimePresent (os_state (state w' (aw_id r)))" "\<forall>b. b \<noteq> aw_id r \<longrightarrow> state w' b = state (ps_world s) b" by blast
  show thesis by (rule that [of obs "s\<lparr>ps_world := w'\<rparr>"])
    (use sp(1) w False assms(2) in \<open>simp_all add: applyAction_def drift_action_def on_controller_def ready_def same_rows_def matches_def\<close>)
qed

lemma enforce_runs:
  assumes "works state c" "ready uuid s" "aw_id r \<in> aw_id ` set (as_agents (ps_store s))"
  obtains s' where "enforce_row clock uuid c ro r observed s = (Inr (), s')" "ready uuid s'" "same_rows s s'"
    "matches (wanted r) (os_state (state (ps_world s') (aw_id r)))" "\<And>b. b \<noteq> aw_id r \<Longrightarrow> state (ps_world s') b = state (ps_world s) b"
proof -
  obtain s1 after where s1: "applyAction c r (drift_action r) (drift_reason r) s = (Inr after, s1)" "ready uuid s1" "same_rows s s1"
      "matches (wanted r) (os_state (state (ps_world s1) (aw_id r)))" "\<And>b. b \<noteq> aw_id r \<Longrightarrow> state (ps_world s1) b = state (ps_world s) b"
    using apply_runs [OF assms(1,2)] by blast
  obtain s2 where s2: "(case after of None \<Rightarrow> give () | Some obs \<Rightarrow> write_observation clock (aw_id r) obs) s1 = (Inr (), s2)"
      "ready uuid s2" "same_rows s1 s2" "ps_world s2 = ps_world s1"
  proof (cases after)
    case None
    then show ?thesis using that [of s1] s1(2) by (simp add: give_def same_rows_def)
  next
    case (Some obs)
    then show ?thesis using write_observation_runs [OF s1(2), of "aw_id r" clock obs] assms(3) same_rows_ids [OF s1(3)] that by auto
  qed
  have known: "aw_id r \<in> aw_id ` set (as_agents (ps_store s2))"
    using assms(3) same_rows_ids [OF s1(3)] same_rows_ids [OF s2(3)] by blast
  obtain s3 where s3: "write_event clock uuid (aw_id r) (if wanted r then EvStarted else EvStopped) (rn_actor ro) (Some (drift_reason r))
       (JObj [(''desiredState'', JStr (state_name (wanted r))), (''previousObservedState'', JStr observed),
         (''observedState'', case after of None \<Rightarrow> JNull | Some obs \<Rightarrow> JStr (os_state obs))]) s2 = (Inr (), s3)"
      "ready uuid s3" "same_rows s2 s3" "ps_world s3 = ps_world s2"
    using write_event_runs [OF s2(2) known] by metis
  have "enforce_row clock uuid c ro r observed s = (Inr (), s3)"
    unfolding enforce_row_def by (simp only: andp_def s1(1) s2(1) s3(1) prod.case sum.case)
  moreover have "same_rows s s3" using s1(3) s2(3) s3(3) same_rows_trans by blast
  ultimately show thesis using that s3 s2 s1(4,5) by metis
qed

text \<open>One row in the mode \<open>enforce\<close>: afterwards its runtime is as desired; nothing is done when it was before.\<close>

definition quiet :: "decision \<Rightarrow> bool" where
  "quiet d \<longleftrightarrow> dc_cycles d = 0 \<and> \<not> dc_acted d"

lemma row_runs:
  assumes "works state c" "ready uuid s" "aw_id r \<in> aw_id ` set (as_agents (ps_store s))" "rn_mode ro = Enforce"
  obtains d s' where "reconcile_row clock uuid c ro r s = (Inr d, s')" "ready uuid s'" "same_rows s s'"
    "matches (wanted r) (os_state (state (ps_world s') (aw_id r)))" "\<And>b. b \<noteq> aw_id r \<Longrightarrow> state (ps_world s') b = state (ps_world s) b"
    "matches (wanted r) (os_state (state (ps_world s) (aw_id r))) \<Longrightarrow> quiet d \<and> ps_world s' = ps_world s"
proof -
  let ?obs = "state (ps_world s) (aw_id r)"
  note o1 = observe_runs [OF assms(1), of r s]
  obtain s1 where s1: "write_observation clock (aw_id r) ?obs s = (Inr (), s1)" "ready uuid s1" "same_rows s s1" "ps_world s1 = ps_world s"
    using write_observation_runs [OF assms(2,3)] by blast
  have k1: "aw_id r \<in> aw_id ` set (as_agents (ps_store s1))" using assms(3) same_rows_ids [OF s1(3)] by blast
  show thesis
  proof (cases "matches (wanted r) (os_state ?obs)")
    case True
    obtain s2 where s2: "set_drift (aw_id r) 0 s1 = (Inr (), s2)" "ready uuid s2" "same_rows s1 s2" "ps_world s2 = ps_world s1"
      using set_drift_runs [OF s1(2)] by blast
    have k2: "aw_id r \<in> aw_id ` set (as_agents (ps_store s2))" using k1 same_rows_ids [OF s2(3)] by blast
    obtain s3 where s3: "write_event clock uuid (aw_id r) EvReconciled (rn_actor ro) None
          (JObj [(''desiredState'', JStr (state_name (wanted r))), (''observedState'', JStr (os_state ?obs)),
             (''mode'', JStr (mode_name (rn_mode ro)))]) s2 = (Inr (), s3)"
        "ready uuid s3" "same_rows s2 s3" "ps_world s3 = ps_world s2"
      using write_event_runs [OF s2(2) k2] by metis
    let ?d = "\<lparr>dc_agent = aw_id r, dc_username = aw_username r, dc_orphan = False, dc_running = wanted r, dc_observed = os_state ?obs,
       dc_action = NoAction, dc_reason = None, dc_cycles = 0, dc_alerting = False, dc_acted = False\<rparr>"
    have run: "reconcile_row clock uuid c ro r s = (Inr ?d, s3)"
      using True o1 s1(1) s2(1) s3(1) by (simp add: reconcile_row_def andp_def give_def Let_def)
    have rows: "same_rows s s3" using s1(3) s2(3) s3(3) same_rows_trans by blast
    have world: "ps_world s3 = ps_world s" using s1(4) s2(4) s3(4) by simp
    show thesis by (rule that [OF run s3(2) rows]) (use True in \<open>simp_all add: world quiet_def\<close>)
  next
    case False
    define n where "n = (case ps_drift s1 (aw_id r) of None \<Rightarrow> 0 | Some n \<Rightarrow> n) + 1"
    obtain s2 where s2: "set_drift (aw_id r) n s1 = (Inr (), s2)" "ready uuid s2" "same_rows s1 s2" "ps_world s2 = ps_world s1"
      using set_drift_runs [OF s1(2)] by blast
    have k2: "aw_id r \<in> aw_id ` set (as_agents (ps_store s2))" using k1 same_rows_ids [OF s2(3)] by blast
    obtain s3 where s3: "write_event clock uuid (aw_id r) EvDrift (rn_actor ro) (Some (drift_reason r))
          (JObj [(''desiredState'', JStr (state_name (wanted r))), (''observedState'', JStr (os_state ?obs)),
             (''driftCycles'', JNum (int n)), (''mode'', JStr (mode_name (rn_mode ro))),
             (''alerting'', JBool (rn_alertCycles ro \<le> int n))]) s2 = (Inr (), s3)"
        "ready uuid s3" "same_rows s2 s3" "ps_world s3 = ps_world s2"
      using write_event_runs [OF s2(2) k2] by metis
    have k3: "aw_id r \<in> aw_id ` set (as_agents (ps_store s3))" using k2 same_rows_ids [OF s3(3)] by blast
    obtain s4 where s4: "enforce_row clock uuid c ro r (os_state ?obs) s3 = (Inr (), s4)" "ready uuid s4" "same_rows s3 s4"
        "matches (wanted r) (os_state (state (ps_world s4) (aw_id r)))" "\<And>b. b \<noteq> aw_id r \<Longrightarrow> state (ps_world s4) b = state (ps_world s3) b"
      using enforce_runs [OF assms(1) s3(2) k3] by blast
    have "drift_of (aw_id r) s1 = (Inr (n - 1), s1)" by (simp add: drift_of_def n_def)
    moreover have "n - 1 + 1 = n" by (simp add: n_def)
    ultimately obtain d where run: "reconcile_row clock uuid c ro r s = (Inr d, s4)"
      using False o1 s1(1) s2(1) s3(1) s4(1) assms(4) by (simp add: reconcile_row_def andp_def give_def Let_def)
    have rows: "same_rows s s4" using s1(3) s2(3) s3(3) s4(3) same_rows_trans by blast
    have world: "ps_world s3 = ps_world s" using s1(4) s2(4) s3(4) by simp
    show thesis by (rule that [OF run s4(2) rows s4(4)]) (use False s4(5) in \<open>simp_all add: world\<close>)
  qed
qed

lemma rows_run:
  assumes "works state c" "rn_mode ro = Enforce"
  shows "ready uuid s \<Longrightarrow> aw_id ` set rows \<subseteq> aw_id ` set (as_agents (ps_store s)) \<Longrightarrow> distinct (map aw_id rows) \<Longrightarrow>
    \<exists>ds s'. each (reconcile_row clock uuid c ro) rows s = (Inr ds, s') \<and> ready uuid s' \<and> same_rows s s'
      \<and> (\<forall>r \<in> set rows. matches (wanted r) (os_state (state (ps_world s') (aw_id r))))
      \<and> (\<forall>b. b \<notin> aw_id ` set rows \<longrightarrow> state (ps_world s') b = state (ps_world s) b)
      \<and> ((\<forall>r \<in> set rows. matches (wanted r) (os_state (state (ps_world s) (aw_id r)))) \<longrightarrow>
           (\<forall>d \<in> set ds. quiet d) \<and> ps_world s' = ps_world s)"
proof (induction rows arbitrary: s)
  case Nil
  then show ?case by (simp add: give_def same_rows_def)
next
  case (Cons r rows)
  have known: "aw_id r \<in> aw_id ` set (as_agents (ps_store s))" using Cons.prems(2) by simp
  obtain d s1 where s1: "reconcile_row clock uuid c ro r s = (Inr d, s1)" "ready uuid s1" "same_rows s s1"
      "matches (wanted r) (os_state (state (ps_world s1) (aw_id r)))" "\<And>b. b \<noteq> aw_id r \<Longrightarrow> state (ps_world s1) b = state (ps_world s) b"
      "matches (wanted r) (os_state (state (ps_world s) (aw_id r))) \<Longrightarrow> quiet d \<and> ps_world s1 = ps_world s"
    using row_runs [OF assms(1) Cons.prems(1) known assms(2)] by blast
  have rest: "aw_id ` set rows \<subseteq> aw_id ` set (as_agents (ps_store s1))" "distinct (map aw_id rows)" "aw_id r \<notin> aw_id ` set rows"
    using Cons.prems(2,3) same_rows_ids [OF s1(3)] by auto
  obtain ds s2 where s2: "each (reconcile_row clock uuid c ro) rows s1 = (Inr ds, s2)" "ready uuid s2" "same_rows s1 s2"
      "\<forall>q \<in> set rows. matches (wanted q) (os_state (state (ps_world s2) (aw_id q)))"
      "\<forall>b. b \<notin> aw_id ` set rows \<longrightarrow> state (ps_world s2) b = state (ps_world s1) b"
      "(\<forall>q \<in> set rows. matches (wanted q) (os_state (state (ps_world s1) (aw_id q)))) \<longrightarrow> (\<forall>d \<in> set ds. quiet d) \<and> ps_world s2 = ps_world s1"
    using Cons.IH [OF s1(2) rest(1,2)] by blast
  have "each (reconcile_row clock uuid c ro) (r # rows) s = (Inr (d # ds), s2)" using s1(1) s2(1) by (simp add: andp_def give_def)
  moreover have "same_rows s s2" using s1(3) s2(3) same_rows_trans by blast
  moreover have "\<forall>q \<in> set (r # rows). matches (wanted q) (os_state (state (ps_world s2) (aw_id q)))" using s2(4,5) s1(4) rest(3) by simp
  moreover have "\<forall>b. b \<notin> aw_id ` set (r # rows) \<longrightarrow> state (ps_world s2) b = state (ps_world s) b" using s2(5) s1(5) by simp
  moreover have "(\<forall>d' \<in> set (d # ds). quiet d') \<and> ps_world s2 = ps_world s"
    if "\<forall>q \<in> set (r # rows). matches (wanted q) (os_state (state (ps_world s) (aw_id q)))"
    using that s1(6) s2(6) by simp
  ultimately show ?case using s2(2) by blast
qed


text \<open>A world that holds the state of every runtime, and the agent of the trial store still running.\<close>

definition seen :: "string \<Rightarrow> observation" where
  "seen st = \<lparr>os_state = st, os_kind = ''docker'', os_container = None, os_pid = None, os_error = None\<rparr>"

definition simple_controller :: "(string \<Rightarrow> observation) controller" where
  "simple_controller = \<lparr>ct_observe = (\<lambda>r (w, db). (Inr (w (aw_id r)), w, db)), ct_orphans = None,
     ct_start = Some (\<lambda>r (w, db). (Inr None, w(aw_id r := seen ''running''), db)),
     ct_stop = Some (\<lambda>r reason (w, db). (Inr None, w(aw_id r := seen ''stopped''), db)), ct_stopOrphan = None\<rparr>"

lemma seen_states: "isRuntimeRunning ''running''" "\<not> isRuntimePresent ''stopped''"
  by code_simp+

lemma simple_works: "works (\<lambda>w. w) simple_controller"
  by (simp add: works_def simple_controller_def seen_def seen_states)

lemma reconciler_calls_sound_witness:
  "reconcileOnce (\<lambda>_. 0) (\<lambda>n. replicate n CHR ''x'') (simple_controller\<lparr>ct_start := None, ct_stop := None, ct_stopOrphan := None\<rparr>)
       (new_reconciler None None None) \<lparr>ps_world = (\<lambda>_. seen ''running''), ps_store = stopped_store, ps_drift = Map.empty, ps_reads = 0\<rparr>
   = reconcileOnce (\<lambda>_. 0) (\<lambda>n. replicate n CHR ''x'') simple_controller (new_reconciler None None None)
       \<lparr>ps_world = (\<lambda>_. seen ''running''), ps_store = stopped_store, ps_drift = Map.empty, ps_reads = 0\<rparr>"
proof -
  have "rn_mode (new_reconciler None None None) \<noteq> Enforce" by (simp add: new_reconciler_def)
  then show ?thesis using reconciler_calls_sound by blast
qed


subsection \<open>Where the code differs from what it promises\<close>

text \<open>
  A pass decides by the row it has listed before it awaits the observation.  When the operator
  disables the agent meanwhile, the controller is still asked to start it.
\<close>

lemma starts_disabled_agent:
  assumes "wanted r" "ct_observe c r (ps_world s, ps_store s) = (Inr obs, w, db)" "\<not> isRuntimeRunning (os_state obs)"
    "getAgent (aw_id r) db = Some r'" "aw_operator r'" "\<forall>n. uuid n \<notin> ew_id ` set (as_events db)"
    "rn_mode ro = Enforce" "ct_start c = Some (\<lambda>r (w, db). (Inl ''started'', w, db))"
  shows "fst (reconcile_row clock uuid c ro r s) = Inl (ControllerFailed ''started'')"
proof -
  let ?s = "s\<lparr>ps_world := w, ps_store := db\<rparr>" and ?n = "ps_reads s"
  obtain db1 where db1: "recordObservation (from_position ?n clock) (aw_id r) obs db = Inr db1" "as_agents db1 = as_agents db" "as_events db1 = as_events db"
    using assms(4) by (simp add: recordObservation_def Let_def)
  let ?s1 = "?s\<lparr>ps_store := db1, ps_reads := ?n + 2\<rparr>"
  have 1: "write_observation clock (aw_id r) obs ?s = (Inr (), ?s1)" using db1(1) by (simp add: write_observation_def on_store_def)
  have "getAgent (aw_id r) db1 = Some r'" using assms(4) db1(2) by (simp add: getAgent_def)
  then have "\<exists>db'. recordStateEvent ck (from_position m uuid) (aw_id r) type actor reason payload db1 = Inr db'" for ck m type actor reason payload
    using assms(6) db1(3) by (simp add: recordStateEvent_def writeEvent_Inr from_position_def)
  then have event: "\<exists>s'. write_event clock uuid (aw_id r) type actor reason payload q = (Inr (), s')" if "ps_store q = db1" for q type actor reason payload
    using that unfolding write_event_def on_store_def by (metis (mono_tags, lifting) and_then_simps(2) prod.case sum.case(2))
  have start: "\<exists>s'. enforce_row clock uuid c ro r observed q = (Inl (ControllerFailed ''started''), s')" for observed q
    using assms(1,8) by (simp add: enforce_row_def andp_def applyAction_def drift_action_def on_controller_def)
  define n where "n = (case ps_drift ?s1 (aw_id r) of None \<Rightarrow> 0 | Some n \<Rightarrow> n) + 1"
  let ?s2 = "?s1\<lparr>ps_drift := (ps_drift ?s1)(aw_id r \<mapsto> n)\<rparr>"
  have store2: "ps_store ?s2 = db1" by simp
  obtain s3 where s3: "write_event clock uuid (aw_id r) EvDrift (rn_actor ro) (Some (drift_reason r))
          (JObj [(''desiredState'', JStr (state_name (wanted r))), (''observedState'', JStr (os_state obs)),
             (''driftCycles'', JNum (int n)), (''mode'', JStr (mode_name (rn_mode ro))),
             (''alerting'', JBool (rn_alertCycles ro \<le> int n))]) ?s2 = (Inr (), s3)"
    using event [OF store2] by blast
  obtain s4 where s4: "enforce_row clock uuid c ro r (os_state obs) s3 = (Inl (ControllerFailed ''started''), s4)" using start by blast
  have drift: "drift_of (aw_id r) ?s1 = (Inr (n - 1), ?s1)" "set_drift (aw_id r) n ?s1 = (Inr (), ?s2)" "n - 1 + 1 = n"
    by (simp_all add: drift_of_def set_drift_def n_def)
  have "on_controller (ct_observe c r) s = (Inr obs, ?s)" using assms(2) by (simp add: on_controller_def)
  moreover have "\<not> matches (wanted r) (os_state obs)" using assms(1,3) by (simp add: matches_def)
  ultimately show ?thesis using assms(7) unfolding reconcile_row_def andp_def Let_def
    by (simp only: 1 drift s3 [unfolded assms(7)] s4 prod.case sum.case if_True not_False_eq_True fst_conv simp_thms)
qed

end
