(* ===== verification/DaemonState.thy ===== *)
theory DaemonState
  imports AgentStateFacts
begin

text \<open>
  The persisted state of the daemon, \<open>src/src/daemon/state.ts\<close>: the agents and the sets of
  enabled and of disabled agents, which live in the store of the desired state and in JSON
  files beside it, and the plans that bring running workloads in line with them.

  A file is what reading it gives: an absent or broken one reads as empty.  A set is the list
  of its elements in the order of insertion.  The process lock and the record of the running
  processes are not modelled.
\<close>

subsection \<open>The files and the store\<close>

record daemon_state =
  df_agents :: "jsobj list"
  df_enabled :: "string list"
  df_disabled :: "string list"
  df_store :: "agent_store option"
  df_chains :: "jsobj list"

definition set_add :: "string \<Rightarrow> string list \<Rightarrow> string list" where
  "set_add a xs = (if a \<in> set xs then xs else xs @ [a])"

definition set_remove :: "string \<Rightarrow> string list \<Rightarrow> string list" where
  "set_remove a xs = filter (\<lambda>x. x \<noteq> a) xs"

definition normalized_info :: "jsobj \<Rightarrow> jsobj" where
  "normalized_info info =
     (let username = first_given [js_get info ''username'', js_get info ''name'', js_get info ''id''] in
      spread_props info [(''username'', JStr username), (''email'', or_value (js_get info ''email'') (JStr [])),
        (''name'', or_value (js_get info ''name'') (JStr username)), (''role'', or_value (js_get info ''role'') JNull),
        (''status'', or_value (js_get info ''status'') (JStr ''disabled'')),
        (''mcpServers'', or_value (js_get info ''mcpServers'') (JArr [])),
        (''personalityTraits'', or_value (js_get info ''personalityTraits'') (JObj [])),
        (''skills'', or_value (js_get info ''skills'') (JArr []))])"

definition ensureAgentStoreSeeded :: "ticks \<Rightarrow> uuids \<Rightarrow> jsobj list \<Rightarrow> daemon_state \<Rightarrow> agent_error + daemon_state" where
  "ensureAgentStoreSeeded clock uuid infos st = (case df_store st of
      None \<Rightarrow> Inr st
    | Some db \<Rightarrow>
        if infos = [] \<or> \<not> list_ex (\<lambda>i. getAgent (field_text i ''id'') db = None) infos then Inr st
        else and_then (importFromJson clock uuid (map normalized_info infos) (df_enabled st) (df_disabled st) ''readAgents-cutover'' db)
          (\<lambda>(db', n, flags). Inr (st\<lparr>df_store := Some db'\<rparr>)))"

text \<open>When the store cannot be read, the records of the file stand.\<close>

definition deriveAgentsFromStore ::
  "ticks \<Rightarrow> uuids \<Rightarrow> (string \<Rightarrow> jsval option) \<Rightarrow> jsobj list \<Rightarrow> daemon_state \<Rightarrow> jsobj list \<times> daemon_state" where
  "deriveAgentsFromStore clock uuid parse infos st =
     (if df_store st = None then (infos, st)
      else case ensureAgentStoreSeeded clock uuid infos st of
        Inl e \<Rightarrow> (infos, st)
      | Inr st' \<Rightarrow> (case exportMergedAgentsJson parse infos (the (df_store st')) of
          Inl e \<Rightarrow> (infos, st') | Inr merged \<Rightarrow> (merged, st')))"

definition readAgents :: "ticks \<Rightarrow> uuids \<Rightarrow> (string \<Rightarrow> jsval option) \<Rightarrow> daemon_state \<Rightarrow> jsobj list \<times> daemon_state" where
  "readAgents clock uuid parse st = deriveAgentsFromStore clock uuid parse (df_agents st) st"

definition writeAgents :: "ticks \<Rightarrow> uuids \<Rightarrow> (string \<Rightarrow> jsval option) \<Rightarrow> jsobj list \<Rightarrow> daemon_state \<Rightarrow> daemon_state" where
  "writeAgents clock uuid parse infos st = (case deriveAgentsFromStore clock uuid parse infos st of (merged, st') \<Rightarrow> st'\<lparr>df_agents := merged\<rparr>)"

text \<open>The lifecycle of each row; what is not known to be wakeable counts as stopped.\<close>

definition row_lifecycle :: "agent_row \<Rightarrow> lifecycle" where
  "row_lifecycle r = (if aw_operator r then OperatorStopped else if aw_desired r then Enabled
     else if aw_status r = ''hibernated'' then Hibernated else OperatorStopped)"

definition readAgentLifecycleStates :: "daemon_state \<Rightarrow> (string \<times> lifecycle) list" where
  "readAgentLifecycleStates st = (case df_store st of None \<Rightarrow> []
     | Some db \<Rightarrow> map (\<lambda>r. (aw_id r, row_lifecycle r)) (listAgents db))"

subsection \<open>Operations\<close>

datatype persistence_error = AgentNotFound | StoreUnavailable | RowMissing | StoreRefused agent_error

definition requested_lifecycle :: "bool \<Rightarrow> lifecycle option \<Rightarrow> lifecycle" where
  "requested_lifecycle enabled s = (if enabled then Enabled else case s of None \<Rightarrow> OperatorStopped | Some l \<Rightarrow> l)"

text \<open>The positions of the clock and of the identifiers after the agents have been read.\<close>

definition setAgentDesiredRuntimeState ::
  "ticks \<Rightarrow> uuids \<Rightarrow> ticks \<Rightarrow> uuids \<Rightarrow> (string \<Rightarrow> jsval option) \<Rightarrow> string \<Rightarrow> string \<Rightarrow> bool \<Rightarrow> bool \<Rightarrow> lifecycle option \<Rightarrow> daemon_state \<Rightarrow>
   (persistence_error + unit) \<times> daemon_state" where
  "setAgentDesiredRuntimeState clock uuid clock' uuid' parse actor agentId enabled override wanted_state st =
     (case readAgents clock uuid parse st of (agents, st1) \<Rightarrow>
      case find (\<lambda>i. js_get i ''id'' = JStr agentId \<or> js_get i ''username'' = JStr agentId) agents of
        None \<Rightarrow> (Inl AgentNotFound, st1)
      | Some info \<Rightarrow> (case df_store st1 of
          None \<Rightarrow> (Inl StoreUnavailable, st1)
        | Some db1 \<Rightarrow> (case ensureAgentStoreSeeded clock' uuid' agents st1 of
            Inl e \<Rightarrow> (Inl (StoreRefused e), st1)
          | Inr st2 \<Rightarrow>
              let a = field_text info ''id''; u = field_text info ''username''; db2 = the (df_store st2) in
              if getAgent a db2 = None then (Inl RowMissing, st2)
              else case setLifecycleState (\<lambda>k. clock' (k + 4 * length agents)) (\<lambda>k. uuid' (k + 2 * length agents)) actor a
                     (requested_lifecycle enabled wanted_state) override db2 of
                Inl e \<Rightarrow> (Inl (StoreRefused e), st2)
              | Inr db3 \<Rightarrow> (Inr (), st2\<lparr>df_store := Some db3,
                  df_enabled := (if enabled then set_add a (df_enabled st2) else set_remove u (set_remove a (df_enabled st2))),
                  df_disabled := (if enabled \<or> wanted_state = Some Hibernated then set_remove u (set_remove a (df_disabled st2))
                    else set_add a (df_disabled st2))\<rparr>))))"

definition addAgent ::
  "ticks \<Rightarrow> uuids \<Rightarrow> ticks \<Rightarrow> uuids \<Rightarrow> (string \<Rightarrow> jsval option) \<Rightarrow> jsobj \<Rightarrow> bool option \<Rightarrow> bool option \<Rightarrow> daemon_state \<Rightarrow>
   (persistence_error + unit) \<times> daemon_state" where
  "addAgent clock uuid clock' uuid' parse info desired operator st =
     (case readAgents clock uuid parse st of (agents, st1) \<Rightarrow>
      case df_store st1 of
        None \<Rightarrow> (Inl StoreUnavailable, st1)
      | Some db \<Rightarrow> (case createAgent clock' uuid' ''addAgent'' (agentInfoToCreateSpec info desired operator) db of
          Inl e \<Rightarrow> (Inl (StoreRefused e), st1)
        | Inr (db', r) \<Rightarrow> (Inr (), writeAgents (\<lambda>k. clock' (k + 2)) (\<lambda>k. uuid' (k + 2)) parse (agents @ [info]) (st1\<lparr>df_store := Some db'\<rparr>))))"

definition removeAgent ::
  "ticks \<Rightarrow> uuids \<Rightarrow> ticks \<Rightarrow> uuids \<Rightarrow> (string \<Rightarrow> jsval option) \<Rightarrow> string \<Rightarrow> daemon_state \<Rightarrow> (persistence_error + unit) \<times> daemon_state" where
  "removeAgent clock uuid clock' uuid' parse a st =
     (case readAgents clock uuid parse st of (agents, st1) \<Rightarrow>
      let rest = filter (\<lambda>i. js_get i ''id'' \<noteq> JStr a) agents in
      if length rest = length agents then (Inl AgentNotFound, st1)
      else case df_store st1 of
        None \<Rightarrow> (Inl StoreUnavailable, st1)
      | Some db \<Rightarrow> (case deleteAgent clock' uuid' ''removeAgent'' a db of
          Inl e \<Rightarrow> (Inl (StoreRefused e), st1)
        | Inr db' \<Rightarrow> (Inr (), writeAgents (\<lambda>k. clock' (k + 1)) (\<lambda>k. uuid' (k + 1)) parse rest (st1\<lparr>df_store := Some db'\<rparr>))))"

subsection \<open>The primary model\<close>

text \<open>The fields of a fallback step; a value that is not an object has none.\<close>

definition field :: "jsval \<Rightarrow> string \<Rightarrow> jsval" where
  "field v k = (case v of JObj ob \<Rightarrow> js_get ob k | _ \<Rightarrow> JUndef)"

definition items :: "jsval \<Rightarrow> jsval list" where
  "items v = (case v of JArr vs \<Rightarrow> vs | _ \<Rightarrow> [])"

definition with_model :: "jsval \<Rightarrow> jsval \<Rightarrow> jsval" where
  "with_model step m = (case step of JObj ob \<Rightarrow> JObj (js_put ob ''model'' m) | _ \<Rightarrow> JObj [(''model'', m)])"

definition primary_method :: "jsobj \<Rightarrow> jsval" where
  "primary_method info = or_value (js_get info ''executionMethod'')
     (case items (js_get info ''modelFallbacks'') of [] \<Rightarrow> JUndef | step # steps \<Rightarrow> field step ''method'')"

definition desired_model :: "jsobj \<Rightarrow> jsval" where
  "desired_model info = (case primary_method info of JStr m \<Rightarrow> field (js_get info ''modelOverrides'') m | _ \<Rightarrow> JUndef)"

definition syncPrimaryModelFallback :: "jsobj \<Rightarrow> jsobj" where
  "syncPrimaryModelFallback info =
     (let method = primary_method info; desired = desired_model info; steps = items (js_get info ''modelFallbacks'') in
      if \<not> js_truthy method \<or> \<not> js_truthy desired then info
      else case find_index (\<lambda>f. field f ''method'' = method) steps of
        Some n \<Rightarrow> if field (steps ! n) ''model'' = desired then info
          else js_put info ''modelFallbacks'' (JArr (steps[n := with_model (steps ! n) desired]))
      | None \<Rightarrow> js_put info ''modelFallbacks'' (JArr (JObj [(''method'', method), (''model'', desired)] # steps)))"

definition model_fields :: "string list" where
  "model_fields = [''model'', ''modelOverrides'', ''modelFallbacks'', ''executionMethod'']"

text \<open>The record and what of it goes to the store.\<close>

definition merged_update :: "jsobj \<Rightarrow> jsobj \<Rightarrow> jsobj \<times> jsobj" where
  "merged_update info updates =
     (let merged = spread_props info updates in
      if list_ex (\<lambda>k. k \<in> fst ` set updates) model_fields
      then let merged' = (if ''modelFallbacks'' \<in> fst ` set updates \<and> js_get updates ''modelFallbacks'' = JArr [] then merged
                          else syncPrimaryModelFallback merged)
        in (merged', js_put updates ''modelFallbacks'' (js_get merged' ''modelFallbacks''))
      else (merged, updates))"

definition updateAgentConfig ::
  "ticks \<Rightarrow> uuids \<Rightarrow> ticks \<Rightarrow> uuids \<Rightarrow> (string \<Rightarrow> jsval option) \<Rightarrow> string \<Rightarrow> jsobj \<Rightarrow> daemon_state \<Rightarrow> bool \<times> daemon_state" where
  "updateAgentConfig clock uuid clock' uuid' parse a updates st =
     (case readAgents clock uuid parse st of (agents, st1) \<Rightarrow>
      case find_index (\<lambda>i. js_get i ''id'' = JStr a) agents of
        None \<Rightarrow> (False, st1)
      | Some n \<Rightarrow> (case merged_update (agents ! n) updates of (merged, storeUpdates) \<Rightarrow>
          let agents' = agents[n := merged] in
          if agentInfoPatchToStorePatch storeUpdates = []
          then (True, writeAgents clock' uuid' parse agents' st1)
          else case df_store st1 of
            None \<Rightarrow> (False, st1)
          | Some db \<Rightarrow> (case applyAgentPatchToStore clock' uuid' ''updateAgentConfig'' a storeUpdates merged db of
              Inl e \<Rightarrow> (False, st1)
            | Inr (db', b) \<Rightarrow> (True, writeAgents (\<lambda>k. clock' (k + 2)) (\<lambda>k. uuid' (k + 2)) parse agents' (st1\<lparr>df_store := Some db'\<rparr>)))))"

subsection \<open>Failover chains\<close>

definition getFailoverChain :: "jsval \<Rightarrow> daemon_state \<Rightarrow> jsobj option" where
  "getFailoverChain i st = find (\<lambda>c. js_get c ''id'' = i) (df_chains st)"

definition upsertFailoverChain :: "jsobj \<Rightarrow> daemon_state \<Rightarrow> daemon_state" where
  "upsertFailoverChain chain st = (case find_index (\<lambda>c. js_get c ''id'' = js_get chain ''id'') (df_chains st) of
      Some n \<Rightarrow> st\<lparr>df_chains := (df_chains st)[n := chain]\<rparr>
    | None \<Rightarrow> st\<lparr>df_chains := df_chains st @ [chain]\<rparr>)"

definition deleteFailoverChain :: "jsval \<Rightarrow> daemon_state \<Rightarrow> bool \<times> daemon_state" where
  "deleteFailoverChain i st =
     (let rest = filter (\<lambda>c. js_get c ''id'' \<noteq> i) (df_chains st) in
      if length rest = length (df_chains st) then (False, st) else (True, st\<lparr>df_chains := rest\<rparr>))"

subsection \<open>Plans\<close>

record runtime_actual =
  ra_agent :: string
  ra_local :: bool
  ra_replicas :: "int option"
  ra_ready :: "int option"
  ra_hash :: "string option"
  ra_drift :: bool

datatype skip_reason = EmptyEnabledSet | CircuitBreaker nat nat

definition computeContainersToStop ::
  "string list \<Rightarrow> string list \<Rightarrow> (string \<Rightarrow> string option) \<Rightarrow> string list \<times> skip_reason option" where
  "computeContainersToStop running enabled status =
     (let stops = filter (\<lambda>a. a \<notin> set enabled \<and> status a = Some ''disabled'') running in
      if running \<noteq> [] \<and> enabled = [] then ([], Some EmptyEnabledSet)
      else if 4 \<le> length running \<and> length running < 2 * length stops
      then ([], Some (CircuitBreaker (length stops) (length running)))
      else (stops, None))"

definition or_zero :: "int option \<Rightarrow> int" where
  "or_zero n = (case n of None \<Rightarrow> 0 | Some k \<Rightarrow> k)"

definition has_replicas :: "runtime_actual \<Rightarrow> bool" where
  "has_replicas x \<longleftrightarrow> 0 < or_zero (ra_replicas x) \<or> 0 < or_zero (ra_ready x)"

definition k8s_running :: "runtime_actual \<Rightarrow> bool" where
  "k8s_running x \<longleftrightarrow> \<not> ra_local x \<and> has_replicas x"

definition k8s_healthy :: "runtime_actual \<Rightarrow> bool" where
  "k8s_healthy x \<longleftrightarrow> \<not> ra_local x \<and> 0 < or_zero (ra_replicas x) \<and> 0 < or_zero (ra_ready x) \<and> \<not> ra_drift x"

record runtime_plan =
  rp_stop :: "string list"
  rp_stopLocal :: "string list"
  rp_stopK8s :: "string list"
  rp_rollback :: "string list"
  rp_restoreK8s :: "string list"
  rp_startK8s :: "string list"
  rp_refreshK8s :: "string list"
  rp_skip :: "skip_reason option"

definition agents_where :: "(runtime_actual \<Rightarrow> bool) \<Rightarrow> runtime_actual list \<Rightarrow> string list" where
  "agents_where p actual = js_unique (map ra_agent (filter p actual))"

definition live_hash :: "runtime_actual list \<Rightarrow> string \<Rightarrow> string option" where
  "live_hash actual a = map_of (rev (List.map_filter (\<lambda>x. if ra_local x then None
     else case ra_hash x of None \<Rightarrow> None | Some h \<Rightarrow> if h = [] then None else Some (ra_agent x, h)) actual)) a"

definition hash_differs :: "(string \<Rightarrow> string option) \<Rightarrow> runtime_actual list \<Rightarrow> string \<Rightarrow> bool" where
  "hash_differs desired actual a \<longleftrightarrow> (case (desired a, live_hash actual a) of
      (Some d, Some h) \<Rightarrow> d \<noteq> [] \<and> d \<noteq> h | _ \<Rightarrow> False)"

definition computeRuntimeReconcilePlan ::
  "runtime_actual list \<Rightarrow> string list \<Rightarrow> (string \<Rightarrow> string option) \<Rightarrow> string list \<Rightarrow> (string \<Rightarrow> string option) option \<Rightarrow> runtime_plan" where
  "computeRuntimeReconcilePlan actual enabled status k8s hashes =
     (case computeContainersToStop (map ra_agent (filter (\<lambda>x. ra_local x \<or> has_replicas x) actual)) enabled status of
        (stops, Some reason) \<Rightarrow> \<lparr>rp_stop = [], rp_stopLocal = [], rp_stopK8s = [], rp_rollback = [], rp_restoreK8s = [],
          rp_startK8s = [], rp_refreshK8s = [], rp_skip = Some reason\<rparr>
      | (stops, None) \<Rightarrow>
          let locals = agents_where ra_local actual;
              running = agents_where k8s_running actual;
              healthy = agents_where k8s_healthy actual;
              drifted = agents_where (\<lambda>x. k8s_running x \<and> ra_drift x) actual;
              active = (\<lambda>a. a \<in> set enabled \<and> status a = Some ''active'');
              stale = filter (\<lambda>a. a \<notin> set stops \<and> a \<notin> set k8s) running;
              rollback = filter (\<lambda>a. active a \<and> a \<notin> set locals) stale
          in \<lparr>rp_stop = stops,
              rp_stopLocal = filter (\<lambda>a. a \<notin> set stops \<and> a \<in> set k8s) locals,
              rp_stopK8s = filter (\<lambda>a. a \<notin> set rollback) stale,
              rp_rollback = rollback,
              rp_restoreK8s = map ra_agent (filter (\<lambda>x. \<not> ra_local x \<and> or_zero (ra_replicas x) = 0 \<and> or_zero (ra_ready x) = 0
                \<and> active (ra_agent x) \<and> ra_agent x \<notin> set k8s \<and> ra_agent x \<notin> set locals) actual),
              rp_startK8s = filter (\<lambda>a. active a \<and> (a \<notin> set running \<or> a \<in> set drifted) \<and> a \<notin> set locals) k8s,
              rp_refreshK8s = (case hashes of None \<Rightarrow> []
                | Some desired \<Rightarrow> filter (\<lambda>a. active a \<and> a \<in> set healthy \<and> a \<notin> set locals \<and> hash_differs desired actual a) k8s),
              rp_skip = None\<rparr>)"

end
