(* ===== verification/DaemonStateFacts.thy ===== *)
theory DaemonStateFacts
  imports DaemonState
begin

text \<open>
  The plans never stop what is wanted, a change of the desired state reaches the store and
  both files or none of them, the export into \<open>agents.json\<close> keeps what the store does not
  own, and the primary model follows its override.
\<close>

subsection \<open>Plans\<close>

lemma stops_disabled:
  "computeContainersToStop running enabled status = (stops, skip) \<Longrightarrow> a \<in> set stops \<Longrightarrow> a \<notin> set enabled \<and> status a = Some ''disabled''"
  by (auto simp: computeContainersToStop_def Let_def split: if_splits)

lemma stops_bounded:
  "computeContainersToStop running enabled status = (stops, skip) \<Longrightarrow> 4 \<le> length running \<Longrightarrow> 2 * length stops \<le> length running"
  by (auto simp: computeContainersToStop_def Let_def split: if_splits)

lemma plan_cases:
  obtains (skipped) reason where "computeRuntimeReconcilePlan actual enabled status k8s hashes = \<lparr>rp_stop = [], rp_stopLocal = [],
      rp_stopK8s = [], rp_rollback = [], rp_restoreK8s = [], rp_startK8s = [], rp_refreshK8s = [], rp_skip = Some reason\<rparr>"
  | (planned) stops where "computeContainersToStop (map ra_agent (filter (\<lambda>x. ra_local x \<or> has_replicas x) actual)) enabled status = (stops, None)"
  by (cases "computeContainersToStop (map ra_agent (filter (\<lambda>x. ra_local x \<or> has_replicas x) actual)) enabled status";
      cases "snd (computeContainersToStop (map ra_agent (filter (\<lambda>x. ra_local x \<or> has_replicas x) actual)) enabled status)")
    (auto simp: computeRuntimeReconcilePlan_def)



subsection \<open>The desired state\<close>

lemma seeded_files: "ensureAgentStoreSeeded clock uuid infos st = Inr st' \<Longrightarrow>
    df_agents st' = df_agents st \<and> df_enabled st' = df_enabled st \<and> df_disabled st' = df_disabled st"
  by (auto simp: ensureAgentStoreSeeded_def and_then_Inr split: option.splits if_splits)

lemma read_files: "readAgents clock uuid parse st = (agents, st') \<Longrightarrow>
    df_agents st' = df_agents st \<and> df_enabled st' = df_enabled st \<and> df_disabled st' = df_disabled st"
  by (auto simp: readAgents_def deriveAgentsFromStore_def dest: seeded_files split: if_splits sum.splits)

lemma lifecycle_set:
  assumes "setLifecycleState clock uuid actor a s override db = Inr db'"
  shows "\<exists>r. getAgent a db' = Some r \<and> row_lifecycle r = s"
proof -
  obtain r where r: "getAgent a db = Some r" using assms by (auto simp: setLifecycleState_def split: option.splits)
  let ?f = "\<lambda>q. q\<lparr>aw_desired := (s = Enabled), aw_operator := (s = OperatorStopped), aw_status := lifecycle_text s,
     aw_version := aw_version r + 1, aw_updated := clock 0\<rparr>"
  have state: "row_lifecycle q = s" if "aw_desired q = (s = Enabled)" "aw_operator q = (s = OperatorStopped)" "aw_status q = lifecycle_text s" for q
    using that by (cases s) (simp_all add: row_lifecycle_def lifecycle_text_def)
  show ?thesis
  proof (cases "aw_desired r = (s = Enabled) \<and> aw_operator r = (s = OperatorStopped) \<and> aw_status r = lifecycle_text s")
    case True
    then have "db' = db" using assms r unfolding setLifecycleState_def option.case(2) by (simp split: if_splits)
    then show ?thesis using r True state by blast
  next
    case False
    then have w: "writeEvent (clock 1) (uuid 0) a (if s = Enabled then EvEnabled else EvDisabled) (aw_version r + 1) actor
        (Some (lifecycle_text s)) JUndef (set_agent a ?f db) = Inr db'"
      using assms r unfolding setLifecycleState_def option.case(2) by (simp split: if_splits)
    have "getAgent a db' = Some (?f r)" unfolding getAgent_event [OF w] by (rule getAgent_set [OF r]) simp
    moreover have "row_lifecycle (?f r) = s" by (rule state) simp_all
    ultimately show ?thesis by blast
  qed
qed


definition trial_daemon :: daemon_state where
  "trial_daemon = \<lparr>df_agents = [[(''id'', JStr ''a''), (''username'', JStr ''ada'')]], df_enabled = [''a''], df_disabled = [],
     df_store = Some stopped_store, df_chains = []\<rparr>"

lemma trial_stop: "fst (setAgentDesiredRuntimeState (\<lambda>_. 0) (\<lambda>_. ''2'') (\<lambda>_. 1) (\<lambda>_. ''3'') (\<lambda>_. Some (JArr [])) ''op'' ''ada'' False False None
    trial_daemon) = Inr ()"
  by code_simp


subsection \<open>The export into agents.json\<close>

lemma js_get_spread: "k \<notin> fst ` set ps \<Longrightarrow> js_get (spread_props base ps) k = js_get base k"
  unfolding spread_props_def by (induction ps arbitrary: base) (auto simp: js_get_put)

lemma js_get_spread_last:
  "distinct (map fst ps) \<Longrightarrow> (k, v) \<in> set ps \<Longrightarrow> js_get (spread_props base ps) k = v"
proof (induction ps arbitrary: base)
  case (Cons p ps)
  show ?case
  proof (cases "p = (k, v)")
    case True
    then have "k \<notin> fst ` set ps" using Cons.prems(1) by auto
    then have "js_get (spread_props (js_put base k v) ps) k = v" by (simp add: js_get_spread js_get_put)
    then show ?thesis using True by (simp add: spread_props_def)
  next
    case False
    then have "js_get (spread_props (js_put base (fst p) (snd p)) ps) k = v" using Cons.prems by (intro Cons.IH) auto
    then show ?thesis by (simp add: spread_props_def)
  qed
qed simp

lemma row_props_keys: "map fst (row_props row) = ''id'' # store_owned_fields"
  by (simp add: row_props_def store_owned_fields_def)

lemma merge_keeps: "k \<notin> set (''id'' # store_owned_fields) \<Longrightarrow> js_get (mergeRow base row) k = js_get base k"
  unfolding mergeRow_def by (rule js_get_spread) (metis list.set_map row_props_keys)

lemma merge_takes: "(k, v) \<in> set (row_props row) \<Longrightarrow> js_get (mergeRow base row) k = v"
  unfolding mergeRow_def by (rule js_get_spread_last) (simp_all add: row_props_keys store_owned_fields_def)

lemma export_row_id: "export_row parse r = Inr row \<Longrightarrow> js_get row ''id'' = JStr (aw_id r)"
  by (auto simp: export_row_def and_then_Inr js_get_def)

lemma export_ids: "exportToJson parse db = Inr rows \<Longrightarrow> r \<in> set (as_agents db) \<Longrightarrow> \<exists>row \<in> set rows. js_get row ''id'' = JStr (aw_id r)"
proof -
  assume e: "exportToJson parse db = Inr rows" and r: "r \<in> set (as_agents db)"
  have "list_all2 (\<lambda>r row. export_row parse r = Inr row) (listAgents db) rows" using e by (simp add: exportToJson_def map_throw_Inr)
  moreover have "r \<in> set (listAgents db)" using r by (simp add: listAgents_def)
  then obtain n where n: "n < length (listAgents db)" "listAgents db ! n = r" by (auto simp: in_set_conv_nth)
  ultimately have "rows ! n \<in> set rows" "export_row parse r = Inr (rows ! n)" by (auto simp: list_all2_conv_all_nth)
  moreover have "js_get (rows ! n) ''id'' = JStr (aw_id r)" using export_row_id calculation(2) by blast
  ultimately show ?thesis by blast
qed

lemma row_for_row: "row_for rows i = Some row \<Longrightarrow> row \<in> set rows"
  by (auto simp: row_for_def find_Some_iff split: option.splits)

text \<open>
  C38. The export of the store into \<open>agents.json\<close> keeps what the store does not own: it gives
  one record for each old one, in order, and in each every field that is neither the identifier
  nor a store-owned field (the credentials, the keys, the status) is as it was; and every agent
  of the store is in it.
\<close>

theorem merged_export_keeps:
  assumes "exportMergedAgentsJson parse infos db = Inr merged"
  shows "length infos \<le> length merged
    \<and> (\<forall>n < length infos. \<forall>k. k \<notin> set (''id'' # store_owned_fields) \<longrightarrow> js_get (merged ! n) k = js_get (infos ! n) k)
    \<and> (\<forall>r \<in> set (as_agents db). \<exists>m \<in> set merged. js_get m ''id'' = JStr (aw_id r))"
proof -
  obtain rows where rows: "exportToJson parse db = Inr rows" "merged = merge_rows rows infos"
    using assms by (auto simp: exportMergedAgentsJson_def and_then_Inr)
  let ?f = "\<lambda>i. case row_for rows i of None \<Rightarrow> i | Some row \<Rightarrow> mergeRow i row"
  let ?used = "List.map_filter (\<lambda>i. map_option (\<lambda>row. js_get row ''id'') (row_for rows i)) infos"
  have m: "merged = map ?f infos @ map (\<lambda>row. mergeRow (new_base row) row) (filter (\<lambda>row. js_get row ''id'' \<notin> set ?used) rows)"
    by (simp add: rows(2) merge_rows_def)
  have "js_get (merged ! n) k = js_get (infos ! n) k" if "n < length infos" "k \<notin> set (''id'' # store_owned_fields)" for n k
    using that merge_keeps [OF that(2)] by (auto simp: m nth_append split: option.splits)
  moreover have "\<exists>m \<in> set merged. js_get m ''id'' = JStr (aw_id r)" if r: "r \<in> set (as_agents db)" for r
  proof -
    obtain row where row: "row \<in> set rows" "js_get row ''id'' = JStr (aw_id r)" using export_ids [OF rows(1) r] by blast
    have id: "js_get (mergeRow base q) ''id'' = js_get q ''id''" for base q by (rule merge_takes) (simp add: row_props_def)
    show ?thesis
    proof (cases "js_get row ''id'' \<in> set ?used")
      case True
      then obtain i q where "i \<in> set infos" "row_for rows i = Some q" "js_get q ''id'' = JStr (aw_id r)"
        using row(2) by (auto simp: List.map_filter_def)
      then have "mergeRow i q \<in> set merged" "js_get (mergeRow i q) ''id'' = JStr (aw_id r)" using id by (force simp: m)+
      then show ?thesis by blast
    next
      case False
      then have "mergeRow (new_base row) row \<in> set merged" using row(1) by (auto simp: m)
      then show ?thesis using id row(2) by metis
    qed
  qed
  ultimately show ?thesis by (simp add: m)
qed

lemma merged_export_keeps_witness:
  "\<exists>merged. exportMergedAgentsJson (\<lambda>_. Some (JArr [])) [[(''id'', JStr ''a''), (''keypair'', JStr ''secret'')]] stopped_store = Inr merged
     \<and> js_get (merged ! 0) ''keypair'' = JStr ''secret''"
proof -
  have "\<not> isl (exportMergedAgentsJson (\<lambda>_. Some (JArr [])) [[(''id'', JStr ''a''), (''keypair'', JStr ''secret'')]] stopped_store)"
    by code_simp
  then obtain merged where e: "exportMergedAgentsJson (\<lambda>_. Some (JArr [])) [[(''id'', JStr ''a''), (''keypair'', JStr ''secret'')]] stopped_store = Inr merged"
    by (metis sum.collapse(1) sum.disc(1) sum.exhaust)
  show ?thesis using merged_export_keeps [OF e] e by (auto simp: store_owned_fields_def js_get_def)
qed

subsection \<open>The primary model\<close>

text \<open>
  After an update that touches the model configuration, unless it sets an empty chain, the
  first fallback step of the primary method has the model of the override, the other steps of
  an existing chain are kept, and the store gets the same chain as the file.
\<close>

lemma primary_model_synced:
  assumes "merged_update info updates = (merged, updates')" "k \<in> set model_fields" "k \<in> fst ` set updates"
    "js_get updates ''modelFallbacks'' \<noteq> JArr []"
  shows "js_get updates' ''modelFallbacks'' = js_get merged ''modelFallbacks''
    \<and> (js_truthy (primary_method (spread_props info updates)) \<and> js_truthy (desired_model (spread_props info updates)) \<longrightarrow>
       (\<exists>step. find (\<lambda>f. field f ''method'' = primary_method (spread_props info updates)) (items (js_get merged ''modelFallbacks'')) = Some step
          \<and> field step ''model'' = desired_model (spread_props info updates)))"
proof -
  let ?i = "spread_props info updates"
  let ?m = "primary_method ?i" and ?d = "desired_model ?i" and ?steps = "items (js_get ?i ''modelFallbacks'')"
  have m: "merged = syncPrimaryModelFallback ?i" "updates' = js_put updates ''modelFallbacks'' (js_get merged ''modelFallbacks'')"
    using assms by (auto simp: merged_update_def Let_def list_ex_iff split: if_splits)
  have "\<exists>step. find (\<lambda>f. field f ''method'' = ?m) (items (js_get merged ''modelFallbacks'')) = Some step \<and> field step ''model'' = ?d"
    if t: "js_truthy ?m" "js_truthy ?d"
  proof (cases "find_index (\<lambda>f. field f ''method'' = ?m) ?steps")
    case None
    then show ?thesis using t by (simp add: m(1) syncPrimaryModelFallback_def js_get_put items_def field_def) (simp add: js_get_def)
  next
    case (Some n)
    have n: "n < length ?steps" "field (?steps ! n) ''method'' = ?m" "\<forall>j < n. field (?steps ! j) ''method'' \<noteq> ?m"
      using find_index_Some [OF Some] by simp_all
    have obj: "\<exists>ob. ?steps ! n = JObj ob" using n(2) t(1) by (cases "?steps ! n") (auto simp: field_def js_truthy_def)
    show ?thesis
    proof (cases "field (?steps ! n) ''model'' = ?d")
      case True
      then have "merged = ?i" using t Some by (simp add: m(1) syncPrimaryModelFallback_def Let_def)
      then show ?thesis using n True by (auto simp: find_Some_iff)
    next
      case False
      let ?new = "?steps[n := with_model (?steps ! n) ?d]"
      have "js_get merged ''modelFallbacks'' = JArr ?new" using t Some False by (simp add: m(1) syncPrimaryModelFallback_def Let_def js_get_put)
      moreover have "field (?new ! n) ''method'' = ?m" "field (?new ! n) ''model'' = ?d"
        using n obj by (auto simp: with_model_def field_def js_get_put)
      moreover have "\<forall>j < n. field (?new ! j) ''method'' \<noteq> ?m" using n(3) by simp
      ultimately show ?thesis using n(1) by (auto simp: items_def find_Some_iff intro!: exI [of _ n])
    qed
  qed
  then show ?thesis by (simp add: m(2) js_get_put)
qed

text \<open>
  A new username reaches the update of the store, which ignores it, and the export then puts the
  old one back: the update succeeds and changes nothing.
\<close>

lemma rename_overwritten:
  assumes "updateAgent clock uuid actor a p expected db = Inr db'" "row_for rows info = Some row"
  shows "map aw_username (as_agents db') = map aw_username (as_agents db)
    \<and> js_get (mergeRow info row) ''username'' = js_get row ''username''"
  using update_keeps_usernames [OF assms(1)] merge_takes [of "''username''" "js_get row ''username''" row info]
  by (simp add: row_props_def)

end
