(* ===== verification/Spec2Isabelle.thy ===== *)
theory Spec2Isabelle
  imports Inbox LoopDetector ToolLoopGuard ExpensiveTurnGuard KubectlGuardrail Permissions
    ApplyPatch CronScheduler DeliveryQueue RateLimiter TaskRegistry
    RepairBackoff RollDeferral RollDrain ToolRetry PulseBoard RecoveryActions
    CredentialAudit BrokerLimits BrokerSockets CompactionFacts SessionFacts
    ReconcilerFacts DaemonStateFacts
begin

text \<open>
  Verification library for the shizuha agent runtime (TypeScript, \<open>src/src\<close>).

  \<^bold>\<open>The program.\<close>  A daemon supervises long-lived agents.  Each agent process takes messages
  from its inbox, runs a model in a loop of turns, and calls tools; guards watch the loop,
  a permission engine decides every tool call, and a retry layer repeats transient failures.
  Outgoing messages go through a delivery queue on disk and a rate limiter.  A cron store
  and a task store wake agents up.  The daemon repairs and rolls the agents' runtimes,
  answers recovery actions, and keeps the agents' credentials together with their audit log.

  \<^bold>\<open>How the code is modelled.\<close>  A class is a record of its fields and one definition per method
  that returns the new record; a thrown error is a value of a sum; a JSON value is a
  \<open>jsval\<close>; an integer of JavaScript is an \<open>int\<close> (the code computes with safe integers
  only).  The clock, fresh identifiers, the environment of the process and the answers of
  services and of packages are arguments.  A JavaScript string is a list of code units
  below 256.  Where \<open>async\<close> code awaits, the model has one definition per uninterrupted
  piece of it, and the runs of a component are lists of such steps.

  \<^bold>\<open>Shared theories.\<close>
  \<^item> \<open>Prelude\<close>: JavaScript values, strings and lists, computations that throw, and invariants
    of runs.  \<open>Json\<close>: \<open>JSON.stringify\<close> and \<open>String\<close>.  \<open>JsRegex\<close>: regular expressions as syntax
    trees with a backtracking matcher, proved to need no more fuel than it is given.
    \<open>JsSort\<close>: \<open>Array.prototype.sort\<close> (locale \<open>js_comparator\<close>).  \<open>JsPath\<close>: \<open>path.resolve\<close>.
    \<open>IsoTime\<close>: \<open>toISOString\<close>, which is monotone.  \<open>JsNumber\<close>: the rounding of doubles.  \<open>SqlTable\<close>: what the SQL statements use.
  \<^item> \<open>BackoffSpec\<close> and \<open>DueSource\<close>: the locales of a retry delay and of a store of due work,
    interpreted by the components that provide one.

  \<^bold>\<open>The agent.\<close>
  \<^item> \<open>Inbox\<close>, \<open>gateway/inbox.ts\<close>: classification, the queue in order of priority, waiting
    consumers and work sessions.  No message is lost or duplicated, the queue stays ordered,
    notices wait for the end of a work session, and unfinished messages are delivered again
    after a restart.
  \<^item> \<open>LoopDetector\<close>, \<open>ToolLoopGuard\<close>, \<open>ExpensiveTurnGuard\<close> (\<open>agent/\<close>): when a loop of tool calls
    is stuck, which calls count as equal (the canonical text of an input is independent of
    the order of its properties), and when feeds of expensive turns are paused.
  \<^item> \<open>ToolRetry\<close>, \<open>agent/tool-retry.ts\<close>: the retry loop ends within its budget.
  \<^item> \<open>Permissions\<close>, \<open>permissions/\<close>: plan mode, rules, network policy, approvals.
    \<open>KubectlGuardrail\<close>, \<open>safety/cortex-kubectl-guardrail.ts\<close>: the shell commands that may
    not touch the protected workloads.
  \<^item> \<open>ApplyPatch\<close>, \<open>tools/builtin/apply-patch.ts\<close>: the patch format (parsing a printed patch
    gives it back), the search for a chunk, and the replacements, which are those of an
    abstract specification.
  \<^item> \<open>TaskRegistry\<close>, \<open>tasks/registry.ts\<close>: background tasks; every terminal task is reported
    once, polls of its output lose nothing and no waiter is missed.

  \<^item> \<open>Conversation\<close> (\<open>agent/types.ts\<close>, \<open>agent/message-provenance.ts\<close>, \<open>agent/content.ts\<close>,
    \<open>utils/tokens.ts\<close>): messages, their texts and their tokens.  \<open>ContextBudget\<close>,
    \<open>prompt/context.ts\<close>: when a conversation is too large for its window; the thresholds are
    those of the double arithmetic, and a compaction comes before an overflow.
    \<open>Compaction\<close> and \<open>CompactionFacts\<close>, \<open>state/compaction.ts\<close>: the passes of a compaction; they
    return, make the conversation smaller, keep the original task and every message
    behind the summarized prefix.  The provider and its stream are arguments.
  \<^item> \<open>SessionStore\<close>, \<open>state/store.ts\<close>: the tables of the sessions and one operation per method.
    \<open>SessionFacts\<close>: over the runs of these operations the transcript only grows, the outcome
    of a tool call stays, a message put aside by a recovery stays until it is replayed, and
    the generations of a recovery are ordered.

  \<^bold>\<open>Messages and schedules.\<close>
  \<^item> \<open>DeliveryQueue\<close>, \<open>gateway/delivery-queue.ts\<close>: the files of the queue and every crash point
    of its operations; a crash loses no delivery, and what was acknowledged is never pending.
    \<open>RateLimiter\<close>, \<open>gateway/rate-limiter.ts\<close>: the sliding windows.
  \<^item> \<open>CronStore\<close> and \<open>CronScheduler\<close>, \<open>cron/\<close>: schedules, the next run of a cron expression (the
    search ends within its bound of minutes), and ticks that submit each due job once.
  \<^item> \<open>Workflows\<close>, \<open>PulseStore\<close>, \<open>PulseFacts\<close>, \<open>PulseBoard\<close> (\<open>workflows/\<close>, \<open>pulse/local-store.ts\<close>):
    workflow definitions, the tables of the task store, and what holds of them in every
    reachable state: unique item keys, one open alert per fingerprint, transitions that
    follow the workflow (locale \<open>workflow_helpers\<close>).

  \<^bold>\<open>The daemon.\<close>
  \<^item> \<open>RepairBackoff\<close>, \<open>RollDeferral\<close>, \<open>RollDrain\<close>: the admission of runtime repairs, the
    deferrals of rolls with their gauge, and the lease that fences new turns before a roll.
  \<^item> \<open>RecoveryActions\<close>, \<open>daemon/recovery-actions.ts\<close>: every action is evaluated as a dry run.
  \<^item> \<open>AgentCredential\<close>, \<open>daemon/agent-credential.ts\<close>: scopes, the validation of persisted
    credentials, the fleet SSH grant, and the migration that seeds the authorities, which
    always succeeds and roots every built-in authority in a fixed identity.
    \<open>CredentialAudit\<close>, \<open>daemon/credential-audit.ts\<close>: the audit log and its indexes.
  \<^item> \<open>CredentialBroker\<close>, \<open>daemon/credential-broker.ts\<close>: every action over the two sockets, with
    its writes of the store, its rows of the audit log and the rate limits.  \<open>BrokerFacts\<close>:
    who may give and read a credential, and that records and rows go together when a write
    fails.  \<open>BrokerLimits\<close>: the bound of the limits over runs.  \<open>BrokerSockets\<close>: one
    connection, and the sockets of the agents.  The audit sink of the broker is an argument;
    \<open>CredentialAudit\<close> is the one the daemon passes.

  \<^item> \<open>AgentState\<close> and \<open>AgentStateFacts\<close>, \<open>daemon/agent-state-store.ts\<close> and
    \<open>daemon/agent-state-mirror.ts\<close>: the desired state of the agents; the kill switch stays, no
    update is lost, and the log is complete.  \<open>AgentReconciler\<close> and \<open>ReconcilerFacts\<close>,
    \<open>daemon/agent-state-reconciler.ts\<close>: the passes that bring the runtimes to it; the
    controller is an argument, and a pass converges when it works.  \<open>DaemonState\<close> and
    \<open>DaemonStateFacts\<close>, \<open>daemon/state.ts\<close>: the files beside the store, and safe plans.

  \<^bold>\<open>Bounds.\<close>  The matcher's fuel is the length of the text plus one per repetition, proved
  enough in \<open>JsRegex\<close>.  The cron search is bounded as in the source.  Times are taken
  from the epoch on and years below 10000, the form of \<open>toISOString\<close> that the code relies on.

  \<^bold>\<open>Not modelled.\<close>  The daemon's manager, the dashboard's routes, the bridges to third-party
  agents, the clients of model providers, the messengers' channels and both user interfaces
  are adapters around processes, sockets and services, with no state of their own that the
  code around them does not already keep in a modelled component; the telemetry, the memory
  index and the configuration loader are left for later.  The manifest lists all of them.
\<close>

end
